(* ===== verification/Go_Prelude.thy ===== *)
theory Go_Prelude
  imports Main
begin

text \<open>
  Shared vocabulary of the development: the outcome of a Go call (value, error return or
  run-time panic), the byte-string operations of Go's \<open>strings\<close> and \<open>strconv\<close> packages the
  sources use, the wrap-around of \<open>int64\<close>, and the generic lemmas and collections on which
  the component theories rest. A Go string is the list of its bytes; every character the
  sources test for is ASCII, and a byte of a multi-byte UTF-8 sequence is never ASCII, so
  scanning a valid UTF-8 text by bytes and by runes takes the same branches.
\<close>

section \<open>Collections\<close>

named_theorems outcome_simps \<open>unfolding of outcomes along a chain of Go calls\<close>
named_theorems safe_intros \<open>operations that neither panic nor leave the state invariant\<close>
named_theorems closed_intros \<open>SQL fragments closed under quoting and parentheses\<close>

section \<open>Outcomes of Go calls\<close>

text \<open>
  An error value: \<open>fmt.Errorf\<close> with its format and the texts of its arguments, or a
  package-level sentinel (\<open>errors.New\<close>) by the name of its variable.
\<close>

datatype goerror = Errorf string "string list" | Sentinel string

text \<open>\<open>Err\<close> is a non-nil \<open>error\<close> return; \<open>Panic\<close> is an index out of range.\<close>

datatype ('e, 'a) outcome = Ok 'a | Err 'e | Panic

fun bindO :: "('e, 'a) outcome \<Rightarrow> ('a \<Rightarrow> ('e, 'b) outcome) \<Rightarrow> ('e, 'b) outcome" where
  "bindO (Ok a) f = f a"
| "bindO (Err e) f = Err e"
| "bindO Panic f = Panic"

lemma bindO_cong [fundef_cong]:
  assumes "m = m'" and "\<And>a. m' = Ok a \<Longrightarrow> f a = f' a"
  shows "bindO m f = bindO m' f'"
  using assms by (cases m') auto

lemma bindO_eq_Ok [outcome_simps]: "bindO m f = Ok b \<longleftrightarrow> (\<exists>a. m = Ok a \<and> f a = Ok b)"
  by (cases m) auto

lemma bindO_eq_Err [outcome_simps]:
  "bindO m f = Err e \<longleftrightarrow> m = Err e \<or> (\<exists>a. m = Ok a \<and> f a = Err e)"
  by (cases m) auto

lemma bindO_eq_Panic [outcome_simps]:
  "bindO m f = Panic \<longleftrightarrow> m = Panic \<or> (\<exists>a. m = Ok a \<and> f a = Panic)"
  by (cases m) auto

lemma bindO_no_panic [safe_intros]:
  "m \<noteq> Panic \<Longrightarrow> (\<And>a. m = Ok a \<Longrightarrow> f a \<noteq> Panic) \<Longrightarrow> bindO m f \<noteq> Panic"
  by (simp add: outcome_simps)

fun mapO :: "('a \<Rightarrow> ('e, 'b) outcome) \<Rightarrow> 'a list \<Rightarrow> ('e, 'b list) outcome" where
  "mapO f [] = Ok []"
| "mapO f (x # xs) = bindO (f x) (\<lambda>y. bindO (mapO f xs) (\<lambda>ys. Ok (y # ys)))"

lemma mapO_Ok_iff: "mapO f xs = Ok ys \<longleftrightarrow> list_all2 (\<lambda>x y. f x = Ok y) xs ys"
  by (induction xs arbitrary: ys) (auto simp: outcome_simps list_all2_Cons1)

lemma mapO_no_panic [safe_intros]: "(\<And>x. x \<in> set xs \<Longrightarrow> f x \<noteq> Panic) \<Longrightarrow> mapO f xs \<noteq> Panic"
  by (induction xs) (auto simp: outcome_simps)

section \<open>Searching a list\<close>

lemma find_map_same: "(\<And>x. P (f x) = P x) \<Longrightarrow> find P (map f xs) = map_option f (find P xs)"
  by (induction xs) auto

lemma find_snoc: "find P (xs @ ys) = (case find P xs of None \<Rightarrow> find P ys | Some x \<Rightarrow> Some x)"
  by (induction xs) auto

section \<open>Characters\<close>

definition code_of :: "char \<Rightarrow> int" where
  "code_of c = of_char c"

definition between :: "char \<Rightarrow> char \<Rightarrow> char \<Rightarrow> bool" where
  "between lo hi c \<longleftrightarrow> code_of lo \<le> code_of c \<and> code_of c \<le> code_of hi"

definition lower_char :: "char \<Rightarrow> char" where
  "lower_char c = (if between CHR ''A'' CHR ''Z'' c then char_of (code_of c + 32) else c)"

text \<open>\<open>strings.ToLower\<close> and \<open>strings.EqualFold\<close> on ASCII text.\<close>

definition ToLower :: "string \<Rightarrow> string" where
  "ToLower s = map lower_char s"

definition EqualFold :: "string \<Rightarrow> string \<Rightarrow> bool" where
  "EqualFold s t \<longleftrightarrow> ToLower s = ToLower t"

lemma code_of_char_of: "0 \<le> n \<Longrightarrow> n < 256 \<Longrightarrow> code_of (char_of n) = n"
  by (simp add: code_of_def)

lemma code_of_bounds: "0 \<le> code_of c" "code_of c < 256"
proof -
  have "code_of c = code_of c mod 256" by (simp add: code_of_def)
  moreover have "0 \<le> code_of c mod 256" "code_of c mod 256 < 256" by simp_all
  ultimately show "0 \<le> code_of c" "code_of c < 256" by simp_all
qed

lemma eq_code: "c = d \<longleftrightarrow> code_of c = code_of d"
  by (simp add: code_of_def)

lemma code_of_Char [simp]:
  "code_of (Char b0 b1 b2 b3 b4 b5 b6 b7) = of_char (Char b0 b1 b2 b3 b4 b5 b6 b7)"
  by (simp add: code_of_def)

lemma between_AZ: "between CHR ''A'' CHR ''Z'' c \<longleftrightarrow> 65 \<le> code_of c \<and> code_of c \<le> 90"
  by (simp add: between_def code_of_def)

lemma lower_char_idem [simp]: "lower_char (lower_char c) = lower_char c"
  by (auto simp: lower_char_def between_AZ code_of_char_of)

lemma ToLower_idem [simp]: "ToLower (ToLower s) = ToLower s"
  by (simp add: ToLower_def comp_def)

lemma ToLower_Nil [simp]: "ToLower [] = []"
  by (simp add: ToLower_def)

lemma length_ToLower [simp]: "length (ToLower s) = length s"
  by (simp add: ToLower_def)

lemma ToLower_eq_Nil [simp]: "ToLower s = [] \<longleftrightarrow> s = []"
  by (simp add: ToLower_def)

section \<open>The \<open>strings\<close> package\<close>

fun Join :: "string list \<Rightarrow> string \<Rightarrow> string" where
  "Join [] sep = []"
| "Join [x] sep = x"
| "Join (x # y # xs) sep = x @ sep @ Join (y # xs) sep"

definition HasPrefix :: "string \<Rightarrow> string \<Rightarrow> bool" where
  "HasPrefix s p \<longleftrightarrow> take (length p) s = p"

definition TrimPrefix :: "string \<Rightarrow> string \<Rightarrow> string" where
  "TrimPrefix s p = (if HasPrefix s p then drop (length p) s else s)"

text \<open>\<open>strings.ReplaceAll\<close> for a non-empty \<open>old\<close>: leftmost, non-overlapping.\<close>

function ReplaceAll :: "string \<Rightarrow> string \<Rightarrow> string \<Rightarrow> string" where
  "ReplaceAll [] old new = []"
| "ReplaceAll (c # cs) old new =
     (if old \<noteq> [] \<and> HasPrefix (c # cs) old
      then new @ ReplaceAll (drop (length old) (c # cs)) old new
      else c # ReplaceAll cs old new)"
  by pat_completeness auto
termination
  by (relation "measure (\<lambda>(s, old, new). length s)") (auto simp: Suc_le_eq diff_less_Suc neq_Nil_conv)

lemma HasPrefix_single [simp]: "HasPrefix (c # cs) [x] \<longleftrightarrow> c = x"
  by (auto simp: HasPrefix_def)

lemma ReplaceAll_single:
  "ReplaceAll s [x] new = concat (map (\<lambda>c. if c = x then new else [c]) s)"
  by (induction s "[x]" new rule: ReplaceAll.induct) auto

definition is_space :: "char \<Rightarrow> bool" where
  "is_space c \<longleftrightarrow> code_of c \<in> {9, 10, 11, 12, 13, 32}"

text \<open>\<open>strings.TrimSpace\<close> on ASCII white space.\<close>

definition TrimSpace :: "string \<Rightarrow> string" where
  "TrimSpace s = rev (dropWhile is_space (rev (dropWhile is_space s)))"

lemma TrimSpace_Nil [simp]: "TrimSpace [] = []"
  by (simp add: TrimSpace_def)

section \<open>Decimal numbers: \<open>%d\<close> and \<open>strconv.ParseInt\<close>\<close>

definition digit_char :: "int \<Rightarrow> char" where
  "digit_char n = char_of (48 + n)"

definition isDigit :: "char \<Rightarrow> bool" where
  "isDigit c \<longleftrightarrow> between CHR ''0'' CHR ''9'' c"

definition digit_val :: "char \<Rightarrow> int" where
  "digit_val c = code_of c - 48"

lemma isDigit_code: "isDigit c \<longleftrightarrow> 48 \<le> code_of c \<and> code_of c \<le> 57"
  by (simp add: isDigit_def between_def code_of_def)

lemma isDigit_digit_char [simp]: "0 \<le> n \<Longrightarrow> n < 10 \<Longrightarrow> isDigit (digit_char n)"
  by (simp add: isDigit_code digit_char_def code_of_char_of)

lemma digit_val_digit_char [simp]: "0 \<le> n \<Longrightarrow> n < 10 \<Longrightarrow> digit_val (digit_char n) = n"
  by (simp add: digit_val_def digit_char_def code_of_char_of)

function show_digits :: "int \<Rightarrow> string" where
  "show_digits n = (if n < 10 then [digit_char n] else show_digits (n div 10) @ [digit_char (n mod 10)])"
  by pat_completeness auto
termination
  by (relation "measure nat") (auto intro: zdiv_mono2)

declare show_digits.simps [simp del]

definition show_int :: "int \<Rightarrow> string" where
  "show_int n = (if n < 0 then CHR ''-'' # show_digits (- n) else show_digits n)"

definition digits_val :: "string \<Rightarrow> int" where
  "digits_val s = foldl (\<lambda>a c. 10 * a + digit_val c) 0 s"

lemma digits_val_snoc: "digits_val (s @ [c]) = 10 * digits_val s + digit_val c"
  by (simp add: digits_val_def)

lemma digits_val_Nil [simp]: "digits_val [] = 0"
  by (simp add: digits_val_def)

lemma show_digits_nonempty [simp]: "show_digits n \<noteq> []"
  by (subst show_digits.simps) auto

lemma show_digits_digits: "0 \<le> n \<Longrightarrow> list_all isDigit (show_digits n)"
proof (induction n rule: show_digits.induct)
  case (1 n)
  then show ?case by (subst show_digits.simps) auto
qed

lemma digits_val_show: "0 \<le> n \<Longrightarrow> digits_val (show_digits n) = n"
proof (induction n rule: show_digits.induct)
  case (1 n)
  show ?case
  proof (cases "n < 10")
    case True
    with 1 show ?thesis by (subst show_digits.simps) (simp add: digits_val_def)
  next
    case False
    with 1 show ?thesis by (subst show_digits.simps) (simp add: digits_val_snoc)
  qed
qed

definition int64_max :: int where "int64_max = 2 ^ 63 - 1"

definition wrap64 :: "int \<Rightarrow> int" where
  "wrap64 n = (n + 2 ^ 63) mod 2 ^ 64 - 2 ^ 63"

definition in_int64 :: "int \<Rightarrow> bool" where
  "in_int64 n \<longleftrightarrow> - (2 ^ 63) \<le> n \<and> n < 2 ^ 63"

lemma wrap64_in_range: "in_int64 (wrap64 n)"
  by (simp add: in_int64_def wrap64_def)

lemma wrap64_id: "in_int64 n \<Longrightarrow> wrap64 n = n"
  by (simp add: in_int64_def wrap64_def)

text \<open>
  \<open>strconv.Atoi\<close> and \<open>strconv.ParseInt(s, 10, 64)\<close> on an unsigned digit string: the value,
  or a range/syntax error.
\<close>

definition parse_digits :: "string \<Rightarrow> int option" where
  "parse_digits s =
     (if s \<noteq> [] \<and> list_all isDigit s \<and> digits_val s \<le> int64_max then Some (digits_val s) else None)"

lemma digits_val_nonneg: "list_all isDigit s \<Longrightarrow> 0 \<le> digits_val s"
  by (induction s rule: rev_induct)
     (auto simp: digits_val_snoc digits_val_Nil digit_val_def isDigit_code)

lemma parse_digits_range: "parse_digits s = Some n \<Longrightarrow> 0 \<le> n \<and> n \<le> int64_max"
  by (auto simp: parse_digits_def digits_val_nonneg split: if_splits)

lemma parse_digits_in_int64: "parse_digits s = Some n \<Longrightarrow> in_int64 n"
  by (drule parse_digits_range) (simp add: in_int64_def int64_max_def)

lemma parse_show_digits: "0 \<le> n \<Longrightarrow> n \<le> int64_max \<Longrightarrow> parse_digits (show_digits n) = Some n"
  by (simp add: parse_digits_def show_digits_digits digits_val_show)

end
