(* ===== verification/LogQL_Ast.thy ===== *)
theory LogQL_Ast
  imports Go_Prelude
begin

text \<open>
  The syntax tree of a LogQL++ statement (\<open>domains/query/ast.go\<close>): one record per struct,
  one datatype per tagged union, and the zero values the parser's composite literals start
  from.
\<close>

datatype Kind = KindSearch | KindSelect | KindTail

record Field =
  fld_Parts :: "string list"

record SelectItem =
  sel_Agg :: string
  sel_Star :: bool
  sel_Field :: Field
  sel_Alias :: string

record OrderItem =
  ord_Field :: Field
  ord_Desc :: bool

datatype ValueKind = ValString | ValNumber | ValTime

text \<open>\<open>TimeSeconds\<close> is an \<open>int64\<close>; the model keeps its signed value.\<close>

record Value =
  val_Kind :: ValueKind
  val_Str :: string
  val_Num :: string
  val_TimeSeconds :: int
  val_TimeSub :: bool

datatype Expr =
    Binary (bin_Op: string) (bin_Left: Expr) (bin_Right: Expr)
  | Paren (par_Inner: Expr)
  | Comparison (cmp_Field: Field) (cmp_Op: string) (cmp_Value: Value)

record Stmt =
  stmt_Kind :: Kind
  stmt_Search :: string
  stmt_Table :: string
  stmt_Select :: "SelectItem list"
  stmt_Where :: "Expr option"
  stmt_GroupBy :: "Field list"
  stmt_OrderBy :: "OrderItem option"
  stmt_Limit :: int

text \<open>Go's zero values, from which the composite literals of the parser start.\<close>

definition zero_Field :: Field where
  "zero_Field = \<lparr>fld_Parts = []\<rparr>"

definition zero_SelectItem :: SelectItem where
  "zero_SelectItem = \<lparr>sel_Agg = [], sel_Star = False, sel_Field = zero_Field, sel_Alias = []\<rparr>"

definition zero_Value :: Value where
  "zero_Value = \<lparr>val_Kind = ValString, val_Str = [], val_Num = [], val_TimeSeconds = 0, val_TimeSub = False\<rparr>"

definition zero_Stmt :: Stmt where
  "zero_Stmt = \<lparr>stmt_Kind = KindSearch, stmt_Search = [], stmt_Table = [], stmt_Select = [],
     stmt_Where = None, stmt_GroupBy = [], stmt_OrderBy = None, stmt_Limit = 0\<rparr>"

end
