(* ===== verification/LogQL_Lexer.thy ===== *)
theory LogQL_Lexer
  imports LogQL_Ast
begin

text \<open>
  The LogQL++ lexer (\<open>domains/query/lexer.go\<close>). The index loop over the runes becomes a
  recursion on the unread suffix; each helper returns how many characters it consumed, as in
  the code. The lemmas give the shape of every token stream (a single end marker, digits-only
  numbers, well-formed identifiers), the absence of index panics, and how the lexer reads a
  concatenation, which the round-trip properties of other components use.
\<close>

section \<open>Tokens\<close>

datatype tokKind =
    tEOF | tIdent | tString | tNumber | tDuration | tOp | tLParen | tRParen
  | tComma | tStar | tDot | tMinus | tPlus

record token =
  tok_kind :: tokKind
  tok_text :: string

abbreviation Tok :: "tokKind \<Rightarrow> string \<Rightarrow> token" where
  "Tok k s \<equiv> \<lparr>tok_kind = k, tok_text = s\<rparr>"

abbreviation backslash :: char where "backslash \<equiv> CHR 0x5C"
abbreviation squote :: char where "squote \<equiv> CHR 0x27"
abbreviation dquote :: char where "dquote \<equiv> CHR 0x22"

section \<open>Character classes and sub-lexers\<close>

definition isIdentStart :: "char \<Rightarrow> bool" where
  "isIdentStart c \<longleftrightarrow> c = CHR ''_'' \<or> between CHR ''a'' CHR ''z'' c \<or> between CHR ''A'' CHR ''Z'' c"

definition isIdentPart :: "char \<Rightarrow> bool" where
  "isIdentPart c \<longleftrightarrow> isIdentStart c \<or> isDigit c"

text \<open>The white-space test of the main loop.\<close>

definition isBlank :: "char \<Rightarrow> bool" where
  "isBlank c \<longleftrightarrow> c = CHR '' '' \<or> c = CHR 0x09 \<or> c = CHR 0x0A \<or> c = CHR 0x0D"

fun lexString_loop :: "string \<Rightarrow> char \<Rightarrow> string \<Rightarrow> nat \<Rightarrow> (goerror, string \<times> nat) outcome" where
  "lexString_loop [] quo b i = Err (Errorf ''unterminated string literal'' [])"
| "lexString_loop (c # cs) quo b i =
     (if c = backslash \<and> cs \<noteq> [] then lexString_loop (tl cs) quo (b @ [hd cs]) (i + 2)
      else if c = quo then Ok (b, i + 1)
      else lexString_loop cs quo (b @ [c]) (i + 1))"

definition lexString :: "string \<Rightarrow> char \<Rightarrow> (goerror, string \<times> nat) outcome" where
  "lexString r quo = lexString_loop (drop 1 r) quo [] 1"

definition lexOp :: "string \<Rightarrow> (goerror, string \<times> nat) outcome" where
  "lexOp r =
     (case r of
        [] \<Rightarrow> Panic
      | c # cs \<Rightarrow>
          if cs \<noteq> [] \<and> hd cs = CHR ''='' \<and> c \<in> set ''!<>='' then Ok (take 2 r, 2)
          else if c \<in> set ''=<>'' then Ok (take 1 r, 1)
          else Err (Errorf ''invalid operator near %q'' [[c]]))"

definition isUnit :: "char \<Rightarrow> bool" where
  "isUnit u \<longleftrightarrow> u = CHR ''s'' \<or> u = CHR ''m'' \<or> u = CHR ''h'' \<or> u = CHR ''d''"

definition lexNumber :: "string \<Rightarrow> token \<times> nat" where
  "lexNumber r =
     (let j = length (takeWhile isDigit r); ds = takeWhile isDigit r; rest = dropWhile isDigit r
      in if rest \<noteq> [] \<and> isUnit (hd rest) \<and> (tl rest = [] \<or> \<not> isIdentPart (hd (tl rest)))
         then (Tok tDuration (ds @ [hd rest]), j + 1)
         else (Tok tNumber ds, j))"

section \<open>The main loop\<close>

definition emit :: "token \<Rightarrow> (goerror, token list) outcome \<Rightarrow> (goerror, token list) outcome" where
  "emit t m = bindO m (\<lambda>ts. Ok (t # ts))"

text \<open>The cases of the main switch that emit a one-character token, in the code's order.\<close>

definition single_tok :: "char \<Rightarrow> token option" where
  "single_tok c =
     (if c = CHR ''('' then Some (Tok tLParen ''('')
      else if c = CHR '')'' then Some (Tok tRParen '')'')
      else if c = CHR '','' then Some (Tok tComma '','')
      else if c = CHR ''*'' then Some (Tok tStar ''*'')
      else if c = CHR ''.'' then Some (Tok tDot ''.'')
      else if c = CHR ''-'' then Some (Tok tMinus ''-'')
      else if c = CHR ''+'' then Some (Tok tPlus ''+'')
      else None)"

definition isQuote :: "char \<Rightarrow> bool" where
  "isQuote c \<longleftrightarrow> c = squote \<or> c = dquote"

definition isOpStart :: "char \<Rightarrow> bool" where
  "isOpStart c \<longleftrightarrow> c = CHR ''='' \<or> c = CHR ''!'' \<or> c = CHR ''<'' \<or> c = CHR ''>''"

lemma emit_cong [fundef_cong]: "t = t' \<Longrightarrow> m = m' \<Longrightarrow> emit t m = emit t' m'"
  by simp

lemma lexString_loop_count: "lexString_loop r quo b i = Ok (s, n) \<Longrightarrow> i < n"
  by (induction r quo b i rule: lexString_loop.induct) (auto split: if_splits)

lemma lexString_pos: "lexString r quo = Ok (s, n) \<Longrightarrow> 0 < n"
  unfolding lexString_def by (drule lexString_loop_count) simp

lemma lexOp_pos: "lexOp r = Ok (s, n) \<Longrightarrow> 0 < n"
  by (auto simp: lexOp_def split: list.splits if_splits)

lemma lexNumber_pos: "isDigit c \<Longrightarrow> 0 < snd (lexNumber (c # cs))"
  by (auto simp: lexNumber_def Let_def)

lemma drop_shorter: "0 < n \<Longrightarrow> length (drop n (c # cs)) < length (c # cs)"
  by simp

function lex_loop :: "string \<Rightarrow> (goerror, token list) outcome" where
  "lex_loop [] = Ok [Tok tEOF []]"
| "lex_loop (c # cs) =
     (if isBlank c then lex_loop cs
      else case single_tok c of
        Some t \<Rightarrow> emit t (lex_loop cs)
      | None \<Rightarrow>
         (if isQuote c then
            bindO (lexString (c # cs) c) (\<lambda>(s, n). emit (Tok tString s) (lex_loop (drop n (c # cs))))
          else if isOpStart c then
            bindO (lexOp (c # cs)) (\<lambda>(s, n). emit (Tok tOp s) (lex_loop (drop n (c # cs))))
          else if isDigit c then
            emit (fst (lexNumber (c # cs))) (lex_loop (drop (snd (lexNumber (c # cs))) (c # cs)))
          else if isIdentStart c then
            emit (Tok tIdent (c # takeWhile isIdentPart cs)) (lex_loop (dropWhile isIdentPart cs))
          else Err (Errorf ''unexpected character %q'' [[c]])))"
  by pat_completeness auto
termination
proof (relation "measure length", goal_cases)
  case (3 c cs sn s n)
  then have "0 < n" using lexString_pos by blast
  then show ?case by (simp only: in_measure drop_shorter)
next
  case (4 c cs sn s n)
  then have "0 < n" using lexOp_pos by blast
  then show ?case by (simp only: in_measure drop_shorter)
next
  case (5 c cs)
  then show ?case by (simp only: in_measure drop_shorter lexNumber_pos)
next
  case (6 c cs)
  show ?case by (simp add: length_dropWhile_le le_imp_less_Suc)
qed (simp_all only: in_measure wf_measure length_Cons lessI)

declare lex_loop.simps(2) [simp del]

definition lex :: "string \<Rightarrow> (goerror, token list) outcome" where
  "lex input = lex_loop input"

section \<open>The shape of token streams\<close>

definition wf_ident :: "string \<Rightarrow> bool" where
  "wf_ident s \<longleftrightarrow> s \<noteq> [] \<and> isIdentStart (hd s) \<and> list_all isIdentPart s"

definition wf_number :: "string \<Rightarrow> bool" where
  "wf_number s \<longleftrightarrow> s \<noteq> [] \<and> list_all isDigit s"

definition wf_duration :: "string \<Rightarrow> bool" where
  "wf_duration s \<longleftrightarrow> (\<exists>ds u. s = ds @ [u] \<and> wf_number ds \<and> isUnit u)"

definition lex_ops :: "string list" where
  "lex_ops = [''='', ''<'', ''>'', ''=='', ''!='', ''<='', ''>='']"

fun wf_text :: "tokKind \<Rightarrow> string \<Rightarrow> bool" where
  "wf_text tIdent s = wf_ident s"
| "wf_text tNumber s = wf_number s"
| "wf_text tDuration s = wf_duration s"
| "wf_text tOp s = (s \<in> set lex_ops)"
| "wf_text _ s = True"

definition wf_tok :: "token \<Rightarrow> bool" where
  "wf_tok t \<longleftrightarrow> tok_kind t \<noteq> tEOF \<and> wf_text (tok_kind t) (tok_text t)"

definition wf_toks :: "token list \<Rightarrow> bool" where
  "wf_toks ts \<longleftrightarrow> (\<exists>body. ts = body @ [Tok tEOF []] \<and> list_all wf_tok body)"

lemma wf_toks_Cons: "wf_tok t \<Longrightarrow> wf_toks ts \<Longrightarrow> wf_toks (t # ts)"
  by (auto simp: wf_toks_def intro: exI[of _ "t # _"])

lemma emit_Ok: "emit t m = Ok ts \<longleftrightarrow> (\<exists>ts'. m = Ok ts' \<and> ts = t # ts')"
  by (auto simp: emit_def outcome_simps)

lemma single_tok_wf: "single_tok c = Some t \<Longrightarrow> wf_tok t"
  by (auto simp: single_tok_def wf_tok_def split: if_splits)

lemma lexOp_text: "lexOp r = Ok (s, n) \<Longrightarrow> s \<in> set lex_ops"
  by (auto simp: lexOp_def lex_ops_def neq_Nil_conv split: list.splits if_splits)

lemma lexNumber_wf: "isDigit c \<Longrightarrow> wf_tok (fst (lexNumber (c # cs)))"
  by (auto simp: lexNumber_def Let_def wf_tok_def wf_number_def wf_duration_def list_all_iff
      dest: set_takeWhileD)

lemma ident_wf: "isIdentStart c \<Longrightarrow> wf_ident (c # takeWhile isIdentPart cs)"
  by (auto simp: wf_ident_def isIdentPart_def list_all_iff dest: set_takeWhileD)

lemma lex_loop_shape: "lex_loop r = Ok ts \<Longrightarrow> wf_toks ts"
proof (induction r arbitrary: ts rule: lex_loop.induct)
  case 1
  then show ?case by (auto simp: wf_toks_def)
next
  case (2 c cs)
  show ?case
  proof (cases "isBlank c \<or> single_tok c \<noteq> None")
    case True
    with 2 show ?thesis
      by (auto simp: lex_loop.simps(2) emit_Ok split: if_splits intro!: wf_toks_Cons single_tok_wf)
  next
    case False
    then have nb: "\<not> isBlank c" and ns: "single_tok c = None" by auto
    note eq = "2.prems"[unfolded lex_loop.simps(2) if_not_P[OF nb] ns option.case]
    from eq consider
        (str) s n ts' where "isQuote c" "lexString (c # cs) c = Ok (s, n)"
          "lex_loop (drop n (c # cs)) = Ok ts'" "ts = Tok tString s # ts'"
      | (op) s n ts' where "\<not> isQuote c" "isOpStart c" "lexOp (c # cs) = Ok (s, n)"
          "lex_loop (drop n (c # cs)) = Ok ts'" "ts = Tok tOp s # ts'"
      | (num) ts' where "\<not> isQuote c" "\<not> isOpStart c" "isDigit c"
          "lex_loop (drop (snd (lexNumber (c # cs))) (c # cs)) = Ok ts'"
          "ts = fst (lexNumber (c # cs)) # ts'"
      | (ident) ts' where "\<not> isQuote c" "\<not> isOpStart c" "\<not> isDigit c" "isIdentStart c"
          "lex_loop (dropWhile isIdentPart cs) = Ok ts'"
          "ts = Tok tIdent (c # takeWhile isIdentPart cs) # ts'"
      by (auto simp: outcome_simps emit_Ok split: if_splits prod.splits)
    then show ?thesis
    proof cases
      case str
      from "2.IH"(2)[OF nb ns str(1,2) refl str(3)] str(4) show ?thesis
        by (simp add: wf_toks_Cons wf_tok_def)
    next
      case op
      from "2.IH"(3)[OF nb ns op(1,2,3) refl op(4)] op(5) lexOp_text[OF op(3)] show ?thesis
        by (simp add: wf_toks_Cons wf_tok_def)
    next
      case num
      from "2.IH"(4)[OF nb ns num(1,2,3,4)] num(3,5) show ?thesis
        by (simp add: wf_toks_Cons lexNumber_wf)
    next
      case ident
      from "2.IH"(5)[OF nb ns ident(1,2,3,4,5)] ident(4,6) show ?thesis
        by (simp add: wf_toks_Cons wf_tok_def ident_wf)
    qed
  qed
qed

lemma lexString_loop_no_panic: "lexString_loop r quo b i \<noteq> Panic"
  by (induction r quo b i rule: lexString_loop.induct) auto

lemma lex_loop_no_panic: "lex_loop r \<noteq> Panic"
proof (induction r rule: lex_loop.induct)
  case (2 c cs)
  then show ?case
    by (auto simp: lex_loop.simps(2) emit_def outcome_simps lexString_def lexString_loop_no_panic
        lexOp_def split: option.splits prod.splits)
qed simp

section \<open>Reading a concatenation\<close>

text \<open>
  A lexeme followed by a text that cannot extend it is read as one token. The character
  classes are disjoint, so the order of the switch does not matter on such inputs.
\<close>

definition stops :: "(char \<Rightarrow> bool) \<Rightarrow> string \<Rightarrow> bool" where
  "stops P r \<longleftrightarrow> r = [] \<or> \<not> P (hd r)"

lemma takeWhile_stops: "list_all P w \<Longrightarrow> stops P r \<Longrightarrow> takeWhile P (w @ r) = w"
  by (induction w) (auto simp: stops_def takeWhile_eq_Nil_iff)

lemma dropWhile_stops: "list_all P w \<Longrightarrow> stops P r \<Longrightarrow> dropWhile P (w @ r) = r"
  by (induction w) (auto simp: stops_def dropWhile_eq_self_iff)

lemmas class_codes = isBlank_def single_tok_def isQuote_def isOpStart_def isDigit_def
  isIdentStart_def isIdentPart_def isUnit_def between_def

lemma isIdentStart_code:
  "isIdentStart c \<longleftrightarrow> code_of c = 95 \<or> 97 \<le> code_of c \<and> code_of c \<le> 122 \<or> 65 \<le> code_of c \<and> code_of c \<le> 90"
  by (simp add: isIdentStart_def between_def eq_code)

lemma isBlank_code: "isBlank c \<longleftrightarrow> code_of c \<in> {32, 9, 10, 13}"
  by (simp add: isBlank_def eq_code)

lemma isQuote_code: "isQuote c \<longleftrightarrow> code_of c \<in> {39, 34}"
  by (simp add: isQuote_def eq_code)

lemma isOpStart_code: "isOpStart c \<longleftrightarrow> code_of c \<in> {61, 33, 60, 62}"
  by (simp add: isOpStart_def eq_code)

lemma single_tok_None_code: "single_tok c = None \<longleftrightarrow> code_of c \<notin> {40, 41, 44, 42, 46, 45, 43}"
  by (simp add: single_tok_def eq_code)

lemmas class_code = isIdentStart_code isBlank_code isQuote_code isOpStart_code
  single_tok_None_code isDigit_code

lemma lex_loop_blank: "isBlank c \<Longrightarrow> lex_loop (c # cs) = lex_loop cs"
  by (simp add: lex_loop.simps(2))

lemma lex_loop_single:
  assumes "single_tok c = Some t"
  shows "lex_loop (c # cs) = emit t (lex_loop cs)"
proof -
  from assms have "\<not> isBlank c" using single_tok_None_code[of c] by (auto simp: isBlank_code)
  with assms show ?thesis by (simp add: lex_loop.simps(2))
qed

lemma lex_loop_ident:
  assumes "wf_ident w" and "stops isIdentPart r"
  shows "lex_loop (w @ r) = emit (Tok tIdent w) (lex_loop r)"
proof -
  from assms(1) obtain c cs where w: "w = c # cs" "isIdentStart c" "list_all isIdentPart cs"
    by (cases w) (auto simp: wf_ident_def)
  then have "\<not> isBlank c" "single_tok c = None" "\<not> isQuote c" "\<not> isOpStart c" "\<not> isDigit c"
    by (auto simp: class_code)
  with w assms(2) show ?thesis
    by (simp add: lex_loop.simps(2) takeWhile_stops dropWhile_stops)
qed

lemma lex_loop_digit:
  assumes "isDigit c"
  shows "lex_loop (c # cs) =
    emit (fst (lexNumber (c # cs))) (lex_loop (drop (snd (lexNumber (c # cs))) (c # cs)))"
proof -
  from assms have "\<not> isBlank c" "single_tok c = None" "\<not> isQuote c" "\<not> isOpStart c"
    by (auto simp: class_code)
  with assms show ?thesis by (simp add: lex_loop.simps(2))
qed

lemma lex_loop_number:
  assumes "wf_number w" and "stops isIdentPart r"
  shows "lex_loop (w @ r) = emit (Tok tNumber w) (lex_loop r)"
proof -
  from assms(2) have "stops isDigit r" and nu: "\<not> (r \<noteq> [] \<and> isUnit (hd r))"
    by (auto simp: stops_def isIdentPart_def isUnit_def isIdentStart_def between_def)
  then have "lexNumber (w @ r) = (Tok tNumber w, length w)"
    using assms(1) by (auto simp: lexNumber_def Let_def wf_number_def takeWhile_stops dropWhile_stops)
  moreover obtain c cs where "w = c # cs" "isDigit c"
    using assms(1) by (cases w) (auto simp: wf_number_def)
  ultimately show ?thesis using lex_loop_digit[of c "cs @ r"] by simp
qed

lemma lex_loop_duration:
  assumes "wf_number w" and "isUnit u" and "stops isIdentPart r"
  shows "lex_loop (w @ u # r) = emit (Tok tDuration (w @ [u])) (lex_loop r)"
proof -
  from assms(2) have "stops isDigit (u # r)" by (auto simp: stops_def isUnit_def isDigit_def between_def)
  then have "lexNumber (w @ u # r) = (Tok tDuration (w @ [u]), length w + 1)"
    using assms by (auto simp: lexNumber_def Let_def wf_number_def takeWhile_stops dropWhile_stops stops_def)
  moreover obtain c cs where "w = c # cs" "isDigit c"
    using assms(1) by (cases w) (auto simp: wf_number_def)
  ultimately show ?thesis using lex_loop_digit[of c "cs @ u # r"] by simp
qed

lemma lex_loop_op:
  assumes "w \<in> set lex_ops" and "stops isOpStart r"
  shows "lex_loop (w @ r) = emit (Tok tOp w) (lex_loop r)"
proof -
  have eq: "hd r \<noteq> CHR ''=''" if "r \<noteq> []" using assms(2) that by (auto simp: stops_def isOpStart_def)
  have "lexOp (w @ r) = Ok (w, length w)"
    using assms(1) eq by (auto simp: lex_ops_def lexOp_def)
  moreover obtain c cs where w: "w = c # cs" and c: "isOpStart c"
    using assms(1) by (auto simp: lex_ops_def isOpStart_def)
  moreover from c have "\<not> isBlank c" "single_tok c = None" "\<not> isQuote c" by (auto simp: class_code)
  ultimately show ?thesis by (simp add: lex_loop.simps(2))
qed

section \<open>Backslash quoting\<close>

text \<open>How the string literals of LogQL++ (and of ClickHouse) escape a character.\<close>

definition escape_char :: "char \<Rightarrow> string" where
  "escape_char c = (if c = backslash \<or> c = squote then [backslash, c] else [c])"

definition escape :: "string \<Rightarrow> string" where
  "escape s = concat (map escape_char s)"

lemma escape_simps [simp]: "escape [] = []" "escape (c # cs) = escape_char c @ escape cs"
  by (simp_all add: escape_def)

lemma ReplaceAll_escape:
  "ReplaceAll (ReplaceAll s [backslash] [backslash, backslash]) [squote] [backslash, squote] = escape s"
  unfolding ReplaceAll_single by (induction s) (auto simp: escape_char_def)

lemma lexString_loop_escape:
  "lexString_loop (escape s @ squote # r) squote b i = Ok (b @ s, i + length (escape s) + 1)"
  by (induction s arbitrary: b i) (auto simp: escape_char_def)

lemma lex_loop_quoted:
  "lex_loop (squote # escape s @ squote # r) = emit (Tok tString s) (lex_loop r)"
proof -
  have "\<not> isBlank squote" "single_tok squote = None" "isQuote squote"
    by (simp_all add: isBlank_def single_tok_def isQuote_def)
  then show ?thesis by (simp add: lex_loop.simps(2) lexString_def lexString_loop_escape)
qed

end
