(* ===== verification/LogQL_Grammar.thy ===== *)
theory LogQL_Grammar
  imports LogQL_Parser
begin

text \<open>
  The abstract specification of the expression parser: the grammar that the comments of
  \<open>parser.go\<close> state, as inductive relations between a token list and the tree it denotes.
  \<open>OR\<close> binds weaker than \<open>AND\<close>, both associate to the left, and a parenthesised expression
  is a \<open>Paren\<close> node. The refinement: \<open>orExpr\<close> succeeds exactly on the token lists of the
  grammar (followed by a token that cannot continue the expression), returns their tree, and
  stops right behind them.
\<close>

section \<open>The grammar\<close>

definition kw :: "string \<Rightarrow> token \<Rightarrow> bool" where
  "kw s t \<longleftrightarrow> tok_kind t = tIdent \<and> EqualFold (tok_text t) s"

inductive field_g :: "token list \<Rightarrow> string list \<Rightarrow> bool" where
  field_one: "tok_kind t = tIdent \<Longrightarrow> field_g [t] [tok_text t]"
| field_dot: "field_g ts parts \<Longrightarrow> tok_kind d = tDot \<Longrightarrow> tok_kind t = tIdent \<Longrightarrow>
    field_g (ts @ [d, t]) (parts @ [tok_text t])"

inductive value_g :: "token list \<Rightarrow> Value \<Rightarrow> bool" where
  value_string: "tok_kind t = tString \<Longrightarrow> value_g [t] (zero_Value\<lparr>val_Kind := ValString, val_Str := tok_text t\<rparr>)"
| value_number: "tok_kind t = tNumber \<Longrightarrow> value_g [t] (zero_Value\<lparr>val_Kind := ValNumber, val_Num := tok_text t\<rparr>)"
| value_now: "kw ''now'' t \<Longrightarrow> tok_kind a = tLParen \<Longrightarrow> tok_kind b = tRParen \<Longrightarrow>
    value_g [t, a, b] (zero_Value\<lparr>val_Kind := ValTime\<rparr>)"
| value_offset: "kw ''now'' t \<Longrightarrow> tok_kind a = tLParen \<Longrightarrow> tok_kind b = tRParen \<Longrightarrow>
    tok_kind s = tMinus \<or> tok_kind s = tPlus \<Longrightarrow> tok_kind d = tDuration \<Longrightarrow>
    durationSeconds (tok_text d) = Ok n \<Longrightarrow>
    value_g [t, a, b, s, d]
      (zero_Value\<lparr>val_Kind := ValTime, val_TimeSeconds := n, val_TimeSub := (tok_kind s = tMinus)\<rparr>)"

inductive or_g :: "token list \<Rightarrow> Expr \<Rightarrow> bool"
  and and_g :: "token list \<Rightarrow> Expr \<Rightarrow> bool"
  and prim_g :: "token list \<Rightarrow> Expr \<Rightarrow> bool"
where
  or_and: "and_g ts e \<Longrightarrow> or_g ts e"
| or_or: "or_g ts l \<Longrightarrow> kw ''OR'' o' \<Longrightarrow> and_g us r \<Longrightarrow> or_g (ts @ o' # us) (Binary ''OR'' l r)"
| and_prim: "prim_g ts e \<Longrightarrow> and_g ts e"
| and_and: "and_g ts l \<Longrightarrow> kw ''AND'' a \<Longrightarrow> prim_g us r \<Longrightarrow> and_g (ts @ a # us) (Binary ''AND'' l r)"
| prim_paren: "tok_kind a = tLParen \<Longrightarrow> or_g ts e \<Longrightarrow> tok_kind b = tRParen \<Longrightarrow>
    prim_g (a # ts @ [b]) (Paren e)"
| prim_cmp: "field_g ts parts \<Longrightarrow> tok_kind o' = tOp \<Longrightarrow> value_g us v \<Longrightarrow>
    prim_g (ts @ o' # us) (Comparison \<lparr>fld_Parts = parts\<rparr> (tok_text o') v)"

section \<open>Soundness\<close>

text \<open>\<open>seg p ts q\<close>: from \<open>p\<close> to \<open>q\<close> exactly the tokens \<open>ts\<close> were consumed.\<close>

definition seg :: "parser \<Rightarrow> token list \<Rightarrow> parser \<Rightarrow> bool" where
  "seg p ts q \<longleftrightarrow> q = p\<lparr>p_pos := p_pos p + length ts\<rparr> \<and>
     take (length ts) (drop (p_pos p) (p_toks p)) = ts"

lemma seg_refl [simp]: "seg p [] p"
  by (simp add: seg_def)

lemma seg_trans: "seg p ts q \<Longrightarrow> seg q us r \<Longrightarrow> seg p (ts @ us) r"
  by (auto simp: seg_def take_add add.commute add.left_commute)

lemma seg_next: "nextTok p = Ok (t, q) \<Longrightarrow> seg p [t] q"
  by (auto simp: nextTok_Ok cur_Ok seg_def take_Suc_conv_app_nth hd_drop_conv_nth take_Suc)

lemma nextTok_same: "nextTok p = Ok (t, q) \<Longrightarrow> cur p = Ok u \<Longrightarrow> t = u"
  by (simp add: nextTok_Ok)

lemma isKw_kw: "isKw s p = Ok b \<Longrightarrow> cur p = Ok t \<Longrightarrow> b = kw s t"
  by (auto simp: isKw_def kw_def)

lemma isKw_next: "isKw s p = Ok True \<Longrightarrow> nextTok p = Ok (t, q) \<Longrightarrow> kw s t \<and> seg p [t] q"
  by (auto simp: seg_next isKw_def nextTok_Ok outcome_simps kw_def)

lemma field_loop_sound:
  "field_loop parts p = Ok (parts', q) \<Longrightarrow> field_g ts parts \<Longrightarrow> seg o' ts p \<Longrightarrow>
   \<exists>us. field_g us parts' \<and> seg o' us q"
proof (induction parts p arbitrary: ts parts' q rule: field_loop.induct)
  case (1 parts p)
  from "1.prems"(1) consider
      (stop) "parts' = parts" "q = p"
    | (dot) t u p1 v w p2 where "cur p = Ok t" "tok_kind t = tDot" "nextTok p = Ok (u, p1)"
        "cur p1 = Ok v" "tok_kind v = tIdent" "nextTok p1 = Ok (w, p2)"
        "field_loop (parts @ [tok_text w]) p2 = Ok (parts', q)"
    by (subst (asm) field_loop.simps) (auto simp: outcome_simps split: if_splits)
  then show ?case
  proof cases
    case dot
    then have "tok_kind u = tDot" "tok_kind w = tIdent" by (auto simp: nextTok_Ok)
    with "1.prems" have "field_g (ts @ [u, w]) (parts @ [tok_text w])" by (auto intro: field_dot)
    moreover have "seg o' (ts @ [u, w]) p2"
      using seg_trans[OF seg_trans[OF "1.prems"(3) seg_next[OF dot(3)]] seg_next[OF dot(6)]] by simp
    ultimately show ?thesis
      using "1.IH"[OF dot(1,2,3) refl dot(4) _ dot(6) refl dot(7)] dot(5) by auto
  qed (use "1.prems" in auto)
qed

lemma field_sound:
  assumes "field p = Ok (f, q)"
  shows "\<exists>ts. field_g ts (fld_Parts f) \<and> seg p ts q"
proof -
  from assms obtain t parts p1 where t: "tok_kind t = tIdent" "nextTok p = Ok (t, p1)"
    and l: "field_loop [tok_text t] p1 = Ok (parts, q)" and f: "f = \<lparr>fld_Parts = parts\<rparr>"
    by (auto simp: field_def outcome_simps nextTok_Ok split: if_splits)
  from field_loop_sound[OF l field_one[OF t(1)] seg_next[OF t(2)]] f show ?thesis by simp
qed

lemma timeValue_sound:
  assumes "cur p = Ok t" and "kw ''now'' t" and "timeValue p = Ok (v, q)"
  shows "\<exists>ts. value_g ts v \<and> seg p ts q"
proof -
  from assms(3) obtain t1 p1 a p2 b p3 where
    n: "nextTok p = Ok (t1, p1)" "nextTok p1 = Ok (a, p2)" "tok_kind a = tLParen"
      "nextTok p2 = Ok (b, p3)" "tok_kind b = tRParen"
    and alt: "(q = p3 \<and> v = zero_Value\<lparr>val_Kind := ValTime\<rparr>) \<or>
      (\<exists>s p4 d n. nextTok p3 = Ok (s, p4) \<and> (tok_kind s = tMinus \<or> tok_kind s = tPlus) \<and>
        nextTok p4 = Ok (d, q) \<and> tok_kind d = tDuration \<and> durationSeconds (tok_text d) = Ok n \<and>
        v = zero_Value\<lparr>val_Kind := ValTime, val_TimeSeconds := n, val_TimeSub := (tok_kind s = tMinus)\<rparr>)"
    by (auto simp: timeValue_def outcome_simps nextTok_Ok split: if_splits)
  have t1: "kw ''now'' t1" using assms n(1) by (auto simp: nextTok_Ok)
  have s3: "seg p [t1, a, b] p3"
    using seg_trans[OF seg_next[OF n(1)] seg_trans[OF seg_next[OF n(2)] seg_next[OF n(4)]]] by simp
  from alt consider (plain) "q = p3" "v = zero_Value\<lparr>val_Kind := ValTime\<rparr>"
    | (offset) s p4 d n' where "nextTok p3 = Ok (s, p4)" "tok_kind s = tMinus \<or> tok_kind s = tPlus"
        "nextTok p4 = Ok (d, q)" "tok_kind d = tDuration" "durationSeconds (tok_text d) = Ok n'"
        "v = zero_Value\<lparr>val_Kind := ValTime, val_TimeSeconds := n', val_TimeSub := (tok_kind s = tMinus)\<rparr>"
    by blast
  then show ?thesis
  proof cases
    case plain
    with s3 value_now[OF t1 n(3,5)] show ?thesis by blast
  next
    case offset
    have "seg p [t1, a, b, s, d] q"
      using seg_trans[OF s3 seg_trans[OF seg_next[OF offset(1)] seg_next[OF offset(3)]]] by simp
    with value_offset[OF t1 n(3,5) offset(2,4,5)] offset(6) show ?thesis by blast
  qed
qed

lemma parseValue_sound:
  assumes "parseValue p = Ok (v, q)"
  shows "\<exists>ts. value_g ts v \<and> seg p ts q"
proof -
  from assms obtain t where t: "cur p = Ok t" by (auto simp: parseValue_def outcome_simps)
  with assms consider (str) "tok_kind t = tString" | (num) "tok_kind t = tNumber"
    | (id) "tok_kind t = tIdent"
    by (cases "tok_kind t") (auto simp: parseValue_def)
  then show ?thesis
  proof cases
    case str
    with assms t show ?thesis
      by (auto simp: parseValue_def nextTok_cur intro!: exI[of _ "[t]"] value_string seg_next)
  next
    case num
    with assms t show ?thesis
      by (auto simp: parseValue_def nextTok_cur intro!: exI[of _ "[t]"] value_number seg_next)
  next
    case id
    with assms t have "kw ''now'' t" "timeValue p = Ok (v, q)"
      by (auto simp: parseValue_def kw_def split: if_splits)
    with t show ?thesis by (rule timeValue_sound)
  qed
qed

lemma comparison_sound:
  assumes "comparison p = Ok (e, q)"
  shows "\<exists>ts. prim_g ts e \<and> seg p ts q"
proof -
  from assms obtain f p1 t p2 v where f: "field p = Ok (f, p1)" and t: "nextTok p1 = Ok (t, p2)" "tok_kind t = tOp"
    and v: "parseValue p2 = Ok (v, q)" and e: "e = Comparison f (tok_text t) v"
    by (auto simp: comparison_def outcome_simps nextTok_Ok split: if_splits)
  from field_sound[OF f] obtain ts where ts: "field_g ts (fld_Parts f)" "seg p ts p1" by auto
  from parseValue_sound[OF v] obtain us where us: "value_g us v" "seg p2 us q" by auto
  have "seg p (ts @ t # us) q" using seg_trans[OF ts(2) seg_trans[OF seg_next[OF t(1)] us(2)]] by simp
  moreover have "prim_g (ts @ t # us) e" using prim_cmp[OF ts(1) t(2) us(1)] e by (cases f) simp
  ultimately show ?thesis by blast
qed


lemma exprs_sound:
  "orExpr p = Ok (e, q) \<Longrightarrow> \<exists>ts. or_g ts e \<and> seg p ts q"
  "orLoop l p = Ok (e, q) \<Longrightarrow> or_g ts0 l \<Longrightarrow> seg p0 ts0 p \<Longrightarrow> \<exists>ts. or_g ts e \<and> seg p0 ts q"
  "andExpr p = Ok (e, q) \<Longrightarrow> \<exists>ts. and_g ts e \<and> seg p ts q"
  "andLoop l p = Ok (e, q) \<Longrightarrow> and_g ts0 l \<Longrightarrow> seg p0 ts0 p \<Longrightarrow> \<exists>ts. and_g ts e \<and> seg p0 ts q"
  "primary p = Ok (e, q) \<Longrightarrow> \<exists>ts. prim_g ts e \<and> seg p ts q"
proof (induction p and l p and p and l p and p arbitrary: e q and e q ts0 p0 and e q and e q ts0 p0 and e q
    rule: orExpr_orLoop_andExpr_andLoop_primary.induct)
  case (1 p)
  then obtain l p1 where l: "andExpr p = Ok (l, p1)" "orLoop l p1 = Ok (e, q)"
    by (auto simp: orExpr.simps outcome_simps)
  from "1.IH"(1)[OF l(1)] obtain ts where ts: "and_g ts l" "seg p ts p1" by blast
  from "1.IH"(2)[OF l(1) refl l(2) or_and[OF ts(1)] ts(2)] show ?case .
next
  case (2 left p)
  from "2.prems"(1) consider "e = left" "q = p"
    | (loop) t p1 r p2 where "isKw ''OR'' p = Ok True" "nextTok p = Ok (t, p1)"
        "andExpr p1 = Ok (r, p2)" "orLoop (Binary ''OR'' left r) p2 = Ok (e, q)"
    by (auto simp: orLoop.simps[of left p] outcome_simps split: if_splits)
  then show ?case
  proof cases
    case loop
    from isKw_next[OF loop(1,2)] have t: "kw ''OR'' t" "seg p [t] p1" by auto
    from "2.IH"(1)[OF loop(1) TrueI loop(2) refl loop(3)] obtain us where us: "and_g us r" "seg p1 us p2" by blast
    have "seg p0 (ts0 @ t # us) p2" using seg_trans[OF "2.prems"(3) seg_trans[OF t(2) us(2)]] by simp
    from "2.IH"(2)[OF loop(1) TrueI loop(2) refl loop(3) refl loop(4) or_or[OF "2.prems"(2) t(1) us(1)] this]
    show ?thesis .
  qed (use "2.prems" in blast)
next
  case (3 p)
  then obtain l p1 where l: "primary p = Ok (l, p1)" "andLoop l p1 = Ok (e, q)"
    by (auto simp: andExpr.simps outcome_simps)
  from "3.IH"(1)[OF l(1)] obtain ts where ts: "prim_g ts l" "seg p ts p1" by blast
  from "3.IH"(2)[OF l(1) refl l(2) and_prim[OF ts(1)] ts(2)] show ?case .
next
  case (4 left p)
  from "4.prems"(1) consider "e = left" "q = p"
    | (loop) t p1 r p2 where "isKw ''AND'' p = Ok True" "nextTok p = Ok (t, p1)"
        "primary p1 = Ok (r, p2)" "andLoop (Binary ''AND'' left r) p2 = Ok (e, q)"
    by (auto simp: andLoop.simps[of left p] outcome_simps split: if_splits)
  then show ?case
  proof cases
    case loop
    from isKw_next[OF loop(1,2)] have t: "kw ''AND'' t" "seg p [t] p1" by auto
    from "4.IH"(1)[OF loop(1) TrueI loop(2) refl loop(3)] obtain us where us: "prim_g us r" "seg p1 us p2" by blast
    have "seg p0 (ts0 @ t # us) p2" using seg_trans[OF "4.prems"(3) seg_trans[OF t(2) us(2)]] by simp
    from "4.IH"(2)[OF loop(1) TrueI loop(2) refl loop(3) refl loop(4) and_and[OF "4.prems"(2) t(1) us(1)] this]
    show ?thesis .
  qed (use "4.prems" in blast)
next
  case (5 p)
  from "5.prems" consider "comparison p = Ok (e, q)"
    | (paren) a p1 e1 p2 b where "cur p = Ok a" "tok_kind a = tLParen" "nextTok p = Ok (a, p1)"
        "orExpr p1 = Ok (e1, p2)" "nextTok p2 = Ok (b, q)" "tok_kind b = tRParen" "e = Paren e1"
    by (auto simp: primary.simps outcome_simps nextTok_Ok split: if_splits)
  then show ?case
  proof cases
    case paren
    from "5.IH"[OF paren(1,2,3) refl paren(4)] obtain ts where ts: "or_g ts e1" "seg p1 ts p2" by blast
    have "seg p (a # ts @ [b]) q"
      using seg_trans[OF seg_next[OF paren(3)] seg_trans[OF ts(2) seg_next[OF paren(5)]]] by simp
    with prim_paren[OF paren(2) ts(1) paren(6)] paren(7) show ?thesis by blast
  qed (rule comparison_sound)
qed

section \<open>Completeness\<close>

text \<open>\<open>at p ts\<close>: the unread tokens are \<open>ts\<close>; \<open>adv p n\<close>: \<open>n\<close> tokens further.\<close>

definition at :: "parser \<Rightarrow> token list \<Rightarrow> bool" where
  "at p ts \<longleftrightarrow> drop (p_pos p) (p_toks p) = ts"

definition adv :: "parser \<Rightarrow> nat \<Rightarrow> parser" where
  "adv p n = p\<lparr>p_pos := p_pos p + n\<rparr>"

lemma adv_simps [simp]: "adv p 0 = p" "adv (adv p m) n = adv p (m + n)"
  "p\<lparr>p_pos := Suc (p_pos p)\<rparr> = adv p 1"
  by (simp_all add: adv_def add.assoc)

lemma at_cur: "at p (t # r) \<Longrightarrow> cur p = Ok t"
  unfolding at_def cur_Ok
  by (metis drop_all hd_drop_conv_nth linorder_not_le list.distinct(1) list.sel(1))

lemma at_adv: "at p (ts @ r) \<Longrightarrow> n = length ts \<Longrightarrow> at (adv p n) r"
  unfolding at_def adv_def by (simp add: add.commute[of _ "length ts"] flip: drop_drop)

lemma at_next: "at p (t # r) \<Longrightarrow> nextTok p = Ok (t, adv p 1)"
  by (simp add: at_cur nextTok_cur)

lemma at_adv1: "at p (t # r) \<Longrightarrow> at (adv p 1) r"
  using at_adv[of p "[t]" r 1] by simp

lemma at_isKw: "at p (t # r) \<Longrightarrow> isKw s p = Ok (kw s t)"
  by (simp add: isKw_def kw_def at_cur)

lemmas at_rules = at_cur at_next at_isKw

lemma kw_disjoint: "kw s t \<Longrightarrow> ToLower s \<noteq> ToLower s' \<Longrightarrow> \<not> kw s' t"
  by (auto simp: kw_def EqualFold_def)

lemma lower_and_or: "ToLower ''OR'' \<noteq> ToLower ''AND''"
  by code_simp

lemma field_loop_complete:
  "field_g ts parts \<Longrightarrow> at p (ts @ r) \<Longrightarrow> r \<noteq> [] \<Longrightarrow> field p = bindO (field_loop parts (adv p (length ts)))
     (\<lambda>(parts, p). Ok (\<lparr>fld_Parts = parts\<rparr>, p))"
proof (induction arbitrary: r rule: field_g.induct)
  case (field_one t)
  then show ?case by (simp add: field_def at_rules)
next
  case (field_dot ts parts d t)
  define p1 where "p1 = adv p (length ts)"
  from field_dot.prems(1) have at1: "at p (ts @ d # t # r)" by simp
  have a1: "at p1 (d # t # r)" unfolding p1_def by (rule at_adv[OF at1 refl])
  have a2: "at (adv p1 1) (t # r)" by (rule at_adv1[OF a1])
  have "field_loop parts p1 = field_loop (parts @ [tok_text t]) (adv p1 2)"
    using at_cur[OF a1] at_next[OF a1] at_cur[OF a2] at_next[OF a2] field_dot.hyps
    by (subst field_loop.simps) (simp add: numeral_2_eq_2)
  with field_dot.IH[of "d # t # r"] field_dot.prems show ?case by (simp add: p1_def)
qed

lemma field_complete:
  assumes "field_g ts parts" and "at p (ts @ t # r)" and "tok_kind t \<noteq> tDot"
  shows "field p = Ok (\<lparr>fld_Parts = parts\<rparr>, adv p (length ts))"
proof -
  have "at (adv p (length ts)) (t # r)" by (rule at_adv[OF assms(2) refl])
  then have "field_loop parts (adv p (length ts)) = Ok (parts, adv p (length ts))"
    using assms(3) by (subst field_loop.simps) (simp add: at_rules)
  with field_loop_complete[OF assms(1,2)] show ?thesis by simp
qed

definition no_sign :: "token \<Rightarrow> bool" where
  "no_sign t \<longleftrightarrow> tok_kind t \<noteq> tMinus \<and> tok_kind t \<noteq> tPlus"

lemma value_complete:
  assumes "value_g ts v" and "at p (ts @ t # r)" and "no_sign t"
  shows "parseValue p = Ok (v, adv p (length ts))"
  using assms(1)
proof cases
  case (value_now n a b)
  with assms(2) have a: "at p (n # a # b # t # r)" by simp
  note b = at_adv1[OF a] note c = at_adv1[OF b] note d = at_adv1[OF c]
  from value_now assms(3) show ?thesis
    using a b c d by (simp add: parseValue_def timeValue_def at_rules no_sign_def kw_def)
next
  case (value_offset n a b s d k)
  with assms(2) have a: "at p (n # a # b # s # d # t # r)" by simp
  note b = at_adv1[OF a] note c = at_adv1[OF b] note d = at_adv1[OF c] note e = at_adv1[OF d]
  from value_offset show ?thesis
    using a b c d e by (auto simp: parseValue_def timeValue_def at_rules kw_def)
qed (use assms(2) in \<open>auto simp: parseValue_def at_rules\<close>)

lemma cmp_complete:
  assumes "field_g ts parts" and "tok_kind o' = tOp" and "value_g us v"
    and "at p (ts @ o' # us @ t # r)" and "no_sign t"
  shows "comparison p = Ok (Comparison \<lparr>fld_Parts = parts\<rparr> (tok_text o') v, adv p (length ts + 1 + length us))"
proof -
  have f: "field p = Ok (\<lparr>fld_Parts = parts\<rparr>, adv p (length ts))"
    using field_complete[OF assms(1,4)] assms(2) by simp
  have a: "at (adv p (length ts)) (o' # us @ t # r)" by (rule at_adv[OF assms(4) refl])
  have v: "parseValue (adv p (length ts + 1)) = Ok (v, adv p (length ts + 1 + length us))"
    using value_complete[OF assms(3) _ assms(5)] at_adv1[OF a] by simp
  from f a v assms(2) show ?thesis by (simp add: comparison_def at_rules)
qed

lemma field_g_first: "field_g ts parts \<Longrightarrow> \<exists>t us. ts = t # us \<and> tok_kind t = tIdent"
  by (induction rule: field_g.induct) auto

text \<open>
  The three levels at once: after the tokens of a phrase the parser is in the loop of that
  level with the phrase's tree as its left operand.
\<close>

lemma exprs_complete:
  "or_g ts e \<Longrightarrow> at p (ts @ t # r) \<Longrightarrow> no_sign t \<Longrightarrow> \<not> kw ''AND'' t \<Longrightarrow>
     orExpr p = orLoop e (adv p (length ts))"
  "and_g ts e \<Longrightarrow> at p (ts @ t # r) \<Longrightarrow> no_sign t \<Longrightarrow> andExpr p = andLoop e (adv p (length ts))"
  "prim_g ts e \<Longrightarrow> at p (ts @ t # r) \<Longrightarrow> no_sign t \<Longrightarrow> primary p = Ok (e, adv p (length ts))"
proof (induction arbitrary: p t r and p t r and p t r rule: or_g_and_g_prim_g.inducts)
  case (or_and ts e)
  then have "andLoop e (adv p (length ts)) = Ok (e, adv p (length ts))"
    by (subst andLoop.simps) (simp add: at_isKw[OF at_adv])
  with or_and show ?case by (simp add: orExpr.simps)
next
  case (or_or ts l o' us r')
  have ns: "no_sign o'" "\<not> kw ''AND'' o'"
    using or_or.hyps kw_disjoint[OF _ lower_and_or] by (auto simp: no_sign_def kw_def)
  from or_or.prems(1) have at0: "at p (ts @ o' # us @ t # r)" by simp
  have 1: "orExpr p = orLoop l (adv p (length ts))" by (rule or_or.IH(1)[OF at0 ns])
  have a1: "at (adv p (length ts)) (o' # us @ t # r)" by (rule at_adv[OF at0 refl])
  note a2 = at_adv1[OF a1]
  define q where "q = adv p (length ts + 1 + length us)"
  have a3: "at q (t # r)" using at_adv[OF a2 refl] by (simp add: q_def)
  have "andExpr (adv p (length ts + 1)) = andLoop r' q"
    using or_or.IH(2)[OF a2 or_or.prems(2)] by (simp add: q_def)
  also have "\<dots> = Ok (r', q)"
    using or_or.prems(3) by (subst andLoop.simps) (simp add: at_isKw[OF a3])
  finally have "andExpr (adv p (length ts + 1)) = Ok (r', q)" .
  then have "orLoop l (adv p (length ts)) = orLoop (Binary ''OR'' l r') q"
    using or_or.hyps(2) by (subst orLoop.simps) (simp add: at_isKw[OF a1] at_next[OF a1])
  with 1 show ?case by (simp add: q_def)
next
  case (and_prim ts e)
  then show ?case by (simp add: andExpr.simps)
next
  case (and_and ts l a us r')
  have ns: "no_sign a" using and_and.hyps by (auto simp: no_sign_def kw_def)
  from and_and.prems(1) have at0: "at p (ts @ a # us @ t # r)" by simp
  have 1: "andExpr p = andLoop l (adv p (length ts))" by (rule and_and.IH(1)[OF at0 ns])
  have a1: "at (adv p (length ts)) (a # us @ t # r)" by (rule at_adv[OF at0 refl])
  have 2: "primary (adv p (length ts + 1)) = Ok (r', adv p (length ts + 1 + length us))"
    using and_and.IH(2)[OF at_adv1[OF a1] and_and.prems(2)] by simp
  have "andLoop l (adv p (length ts)) = andLoop (Binary ''AND'' l r') (adv p (length ts + 1 + length us))"
    using 2 and_and.hyps(2) by (subst andLoop.simps) (simp add: at_isKw[OF a1] at_next[OF a1])
  with 1 show ?case by simp
next
  case (prim_paren a ts e b)
  from prim_paren.prems(1) have at0: "at p (a # ts @ b # t # r)" by simp
  note a1 = at_adv1[OF at0]
  have nb: "no_sign b" "\<not> kw ''AND'' b" "\<not> kw ''OR'' b" using prim_paren.hyps(3) by (auto simp: no_sign_def kw_def)
  define q where "q = adv p (1 + length ts)"
  have a2: "at q (b # t # r)" using at_adv[OF a1 refl] by (simp add: q_def)
  have "orExpr (adv p 1) = orLoop e q" using prim_paren.IH[OF a1 nb(1,2)] by (simp add: q_def)
  also have "\<dots> = Ok (e, q)" using nb(3) by (subst orLoop.simps) (simp add: at_isKw[OF a2])
  finally have "orExpr (adv p 1) = Ok (e, q)" .
  then have "primary p = Ok (Paren e, adv q 1)" using prim_paren.hyps
    by (simp add: primary.simps at_cur[OF at0] at_next[OF at0] at_cur[OF a2] at_next[OF a2])
  then show ?case by (simp add: q_def)
next
  case (prim_cmp ts parts o' us v)
  obtain t0 ts' where "ts = t0 # ts'" "tok_kind t0 = tIdent" using field_g_first[OF prim_cmp.hyps(1)] by blast
  with prim_cmp.prems(1) have "cur p = Ok t0" "tok_kind t0 \<noteq> tLParen" by (auto simp: at_cur)
  moreover have "comparison p = Ok (Comparison \<lparr>fld_Parts = parts\<rparr> (tok_text o') v, adv p (length ts + 1 + length us))"
    by (rule cmp_complete[OF prim_cmp.hyps]) (use prim_cmp.prems in auto)
  ultimately show ?case by (simp add: primary.simps)
qed

section \<open>The refinement\<close>

definition fresh :: "token list \<Rightarrow> parser" where
  "fresh ts = \<lparr>p_toks = ts, p_pos = 0\<rparr>"

text \<open>A token that cannot continue an expression: a clause keyword, a closing parenthesis, the end.\<close>

definition ends_expr :: "token \<Rightarrow> bool" where
  "ends_expr t \<longleftrightarrow> no_sign t \<and> \<not> kw ''AND'' t \<and> \<not> kw ''OR'' t"

lemma orExpr_complete:
  assumes "or_g ts e" and "ends_expr t"
  shows "orExpr (fresh (ts @ t # r)) = Ok (e, adv (fresh (ts @ t # r)) (length ts))"
proof -
  define p where "p = fresh (ts @ t # r)"
  have at0: "at p (ts @ t # r)" by (simp add: p_def fresh_def at_def)
  have "orExpr p = orLoop e (adv p (length ts))"
    by (rule exprs_complete(1)[OF assms(1) at0]) (use assms(2) in \<open>simp_all add: ends_expr_def\<close>)
  moreover have "isKw ''OR'' (adv p (length ts)) = Ok False"
    using at_isKw[OF at_adv[OF at0 refl], of "''OR''"] assms(2) by (simp add: ends_expr_def)
  ultimately show ?thesis unfolding p_def[symmetric] by (simp add: orLoop.simps)
qed

lemma orExpr_sound:
  assumes "orExpr (fresh (ts @ us)) = Ok (e, adv (fresh (ts @ us)) (length ts))"
  shows "or_g ts e"
proof -
  from exprs_sound(1)[OF assms] obtain vs where "or_g vs e" "seg (fresh (ts @ us)) vs (adv (fresh (ts @ us)) (length ts))"
    by blast
  moreover from this(2) have "vs = ts" by (auto simp: seg_def adv_def fresh_def)
  ultimately show ?thesis by simp
qed

text \<open>
  C9. The recursive-descent expression parser refines the grammar: on a token list followed by a
  token that cannot continue an expression, \<open>orExpr\<close> consumes exactly that list and returns the
  tree \<open>e\<close> if and only if the grammar derives \<open>e\<close> from it.
\<close>

theorem orExpr_refines_grammar:
  assumes "ends_expr t"
  shows "orExpr (fresh (ts @ t # r)) = Ok (e, adv (fresh (ts @ t # r)) (length ts)) \<longleftrightarrow> or_g ts e"
  using orExpr_sound orExpr_complete[OF _ assms] by blast

definition example_tokens :: "token list" where
  "example_tokens = [Tok tIdent ''level'', Tok tOp ''='', Tok tString ''error'', Tok tIdent ''or'', Tok tIdent ''body'', Tok tDot ''.'',
     Tok tIdent ''code'', Tok tOp ''>'', Tok tNumber ''499'']"

definition example_tree :: Expr where
  "example_tree = Binary ''OR''
     (Comparison \<lparr>fld_Parts = [''level'']\<rparr> ''='' (zero_Value\<lparr>val_Str := ''error''\<rparr>))
     (Comparison \<lparr>fld_Parts = [''body'', ''code'']\<rparr> ''>'' (zero_Value\<lparr>val_Kind := ValNumber, val_Num := ''499''\<rparr>))"

lemma example_parses: "orExpr (fresh (example_tokens @ [Tok tEOF []])) =
  Ok (example_tree, adv (fresh (example_tokens @ [Tok tEOF []])) (length example_tokens))"
  by code_simp

theorem orExpr_refines_grammar_witness: "ends_expr (Tok tEOF []) \<and> or_g example_tokens example_tree"
proof -
  have t: "ends_expr (Tok tEOF [])" by code_simp
  with orExpr_refines_grammar[OF t, of example_tokens "[]" example_tree] example_parses show ?thesis by simp
qed

text \<open>The grammar is unambiguous: a token list denotes at most one expression tree.\<close>

theorem or_g_unambiguous:
  assumes "or_g ts e" and "or_g ts e'"
  shows "e = e'"
  using orExpr_complete[OF assms(1), of "Tok tEOF []" "[]"] orExpr_complete[OF assms(2), of "Tok tEOF []" "[]"]
  by (simp add: ends_expr_def no_sign_def kw_def)

theorem or_g_unambiguous_witness: "\<exists>!e. or_g example_tokens e"
  using orExpr_sound[OF example_parses] or_g_unambiguous[of example_tokens] by blast

end
