(* ===== verification/Go_Float.thy ===== *)
theory Go_Float
  imports Complex_Main Go_Prelude
begin

text \<open>
  Go's \<open>float64\<close>: IEEE 754 binary64 values with round-to-nearest-even arithmetic. A value is
  NaN, an infinity, a signed zero or a non-zero rational; an operation computes the exact
  rational result and rounds it once. Rounding is monotone, which carries the bounds of the
  scoring code.
\<close>

section \<open>Rounding\<close>

datatype f64 = NaN | Inf bool | Zero bool | Fin rat

text \<open>Powers of two by repeated squaring, the bit length and the integer square root.\<close>

function pw :: "int \<Rightarrow> int" where
  "pw e = (if e \<le> 0 then 1 else let h = pw (e div 2) in if even e then h * h else 2 * (h * h))"
  by pat_completeness auto
termination
  by (relation "measure nat") auto

function blen :: "int \<Rightarrow> int" where
  "blen n = (if n \<le> 0 then 0 else 1 + blen (n div 2))"
  by pat_completeness auto
termination
  by (relation "measure nat") auto

function isqrt :: "int \<Rightarrow> int" where
  "isqrt n = (if n \<le> 0 then 0
     else let r = 2 * isqrt (n div 4) in if (r + 1) * (r + 1) \<le> n then r + 1 else r)"
  by pat_completeness auto
termination
  by (relation "measure nat") auto

declare pw.simps [simp del] blen.simps [simp del] isqrt.simps [simp del]

definition pow2 :: "int \<Rightarrow> rat" where
  "pow2 e = (if 0 \<le> e then of_int (pw e) else 1 / of_int (pw (- e)))"

text \<open>The exponent of the binade of a positive rational.\<close>

definition ilog2 :: "rat \<Rightarrow> int" where
  "ilog2 a =
     (let (n, d) = quotient_of a; e = blen n - blen d
      in if pow2 e \<le> a then e else e - 1)"

definition ulp :: "rat \<Rightarrow> rat" where
  "ulp a = pow2 (max (ilog2 a - 52) (- 1074))"

definition rhe :: "rat \<Rightarrow> int" where
  "rhe x =
     (let f = \<lfloor>x\<rfloor>; d = x - of_int f
      in if d < 1 / 2 then f else if 1 / 2 < d then f + 1 else if even f then f else f + 1)"

definition rnd :: "rat \<Rightarrow> rat" where
  "rnd a = of_int (rhe (a / ulp a)) * ulp a"

definition round64 :: "rat \<Rightarrow> f64" where
  "round64 q =
     (if q = 0 then Zero False
      else let v = rnd \<bar>q\<bar> in
        if v = 0 then Zero (q < 0)
        else if pow2 1024 \<le> v then Inf (q < 0)
        else Fin (if q < 0 then - v else v))"

section \<open>Operations\<close>

definition is_finite :: "f64 \<Rightarrow> bool" where
  "is_finite x \<longleftrightarrow> (case x of Zero _ \<Rightarrow> True | Fin _ \<Rightarrow> True | _ \<Rightarrow> False)"

definition f_val :: "f64 \<Rightarrow> rat" where
  "f_val x = (case x of Fin q \<Rightarrow> q | _ \<Rightarrow> 0)"

definition f_neg :: "f64 \<Rightarrow> bool" where
  "f_neg x = (case x of NaN \<Rightarrow> False | Inf s \<Rightarrow> s | Zero s \<Rightarrow> s | Fin q \<Rightarrow> q < 0)"

definition fminus :: "f64 \<Rightarrow> f64" where
  "fminus x = (case x of NaN \<Rightarrow> NaN | Inf s \<Rightarrow> Inf (\<not> s) | Zero s \<Rightarrow> Zero (\<not> s) | Fin q \<Rightarrow> Fin (- q))"

fun fadd :: "f64 \<Rightarrow> f64 \<Rightarrow> f64" where
  "fadd NaN y = NaN"
| "fadd x NaN = NaN"
| "fadd (Inf s) (Inf t) = (if s = t then Inf s else NaN)"
| "fadd (Inf s) y = Inf s"
| "fadd x (Inf t) = Inf t"
| "fadd (Zero s) (Zero t) = Zero (s \<and> t)"
| "fadd x y = round64 (f_val x + f_val y)"

definition fsub :: "f64 \<Rightarrow> f64 \<Rightarrow> f64" where
  "fsub x y = fadd x (fminus y)"

fun fmul :: "f64 \<Rightarrow> f64 \<Rightarrow> f64" where
  "fmul NaN y = NaN"
| "fmul x NaN = NaN"
| "fmul (Inf s) (Zero t) = NaN"
| "fmul (Zero s) (Inf t) = NaN"
| "fmul (Inf s) y = Inf (s \<noteq> f_neg y)"
| "fmul x (Inf t) = Inf (f_neg x \<noteq> t)"
| "fmul (Zero s) y = Zero (s \<noteq> f_neg y)"
| "fmul x (Zero t) = Zero (f_neg x \<noteq> t)"
| "fmul (Fin p) (Fin q) = round64 (p * q)"

fun fdiv :: "f64 \<Rightarrow> f64 \<Rightarrow> f64" where
  "fdiv NaN y = NaN"
| "fdiv x NaN = NaN"
| "fdiv (Inf s) (Inf t) = NaN"
| "fdiv (Inf s) y = Inf (s \<noteq> f_neg y)"
| "fdiv x (Inf t) = Zero (f_neg x \<noteq> t)"
| "fdiv (Zero s) (Zero t) = NaN"
| "fdiv x (Zero t) = Inf (f_neg x \<noteq> t)"
| "fdiv (Zero s) y = Zero (s \<noteq> f_neg y)"
| "fdiv (Fin p) (Fin q) = round64 (p / q)"

text \<open>Comparison: every comparison with NaN is false, the two zeros are equal.\<close>

fun flt :: "f64 \<Rightarrow> f64 \<Rightarrow> bool" where
  "flt NaN y = False"
| "flt x NaN = False"
| "flt (Inf s) (Inf t) = (s \<and> \<not> t)"
| "flt (Inf s) y = s"
| "flt x (Inf t) = (\<not> t)"
| "flt x y = (f_val x < f_val y)"

fun fle :: "f64 \<Rightarrow> f64 \<Rightarrow> bool" where
  "fle NaN y = False"
| "fle x NaN = False"
| "fle (Inf s) (Inf t) = (s \<or> \<not> t)"
| "fle (Inf s) y = s"
| "fle x (Inf t) = (\<not> t)"
| "fle x y = (f_val x \<le> f_val y)"

text \<open>An untyped constant or an integer converted to \<open>float64\<close>.\<close>

definition lit :: "rat \<Rightarrow> f64" where
  "lit q = round64 q"

definition of_int64 :: "int \<Rightarrow> f64" where
  "of_int64 n = round64 (of_int n)"

text \<open>\<open>math.Max\<close> and \<open>math.Min\<close>.\<close>

definition fmax :: "f64 \<Rightarrow> f64 \<Rightarrow> f64" where
  "fmax x y =
     (if x = Inf False \<or> y = Inf False then Inf False
      else if x = NaN \<or> y = NaN then NaN
      else if \<exists>s t. x = Zero s \<and> y = Zero t then (if x = Zero True then y else x)
      else if flt y x then x else y)"

definition fmin :: "f64 \<Rightarrow> f64 \<Rightarrow> f64" where
  "fmin x y =
     (if x = Inf True \<or> y = Inf True then Inf True
      else if x = NaN \<or> y = NaN then NaN
      else if \<exists>s t. x = Zero s \<and> y = Zero t then (if x = Zero True then x else y)
      else if flt x y then x else y)"

text \<open>\<open>math.Sqrt\<close>: correctly rounded; the root of a float is never half-way between two floats.\<close>

definition sqrt_rat :: "rat \<Rightarrow> rat" where
  "sqrt_rat q =
     (let u = pow2 (ilog2 q div 2 - 52); n = of_int (isqrt \<lfloor>q / (u * u)\<rfloor>)
      in if (n + 1 / 2) * u * ((n + 1 / 2) * u) < q then (n + 1) * u else n * u)"

fun fsqrt :: "f64 \<Rightarrow> f64" where
  "fsqrt NaN = NaN"
| "fsqrt (Inf s) = (if s then NaN else Inf False)"
| "fsqrt (Zero s) = Zero s"
| "fsqrt (Fin q) = (if q < 0 then NaN else round64 (sqrt_rat q))"

section \<open>Monotonicity of rounding\<close>

lemma pw_power: "0 \<le> e \<Longrightarrow> pw e = 2 ^ nat e"
proof (induction e rule: pw.induct)
  case (1 e)
  show ?case
  proof (cases "e \<le> 0")
    case False
    define k where "k = nat (e div 2)"
    have IH: "pw (e div 2) = 2 ^ k" using 1 False by (simp add: k_def)
    have "nat e = (if even e then k + k else Suc (k + k))" using False unfolding k_def by (auto elim!: evenE oddE)
    then have "2 ^ nat e = (if even e then 2 ^ k * 2 ^ k else 2 * (2 ^ k * 2 ^ k) :: int)" by (simp only: power_add power_Suc split: if_split) simp
    moreover have "pw e = (if even e then 2 ^ k * 2 ^ k else 2 * (2 ^ k * 2 ^ k))"
      unfolding pw.simps[of e] IH using False by (simp only: Let_def if_False)
    ultimately show ?thesis by simp
  qed (use 1 in \<open>simp add: pw.simps\<close>)
qed

lemma pow2_powi: "pow2 e = 2 powi e"
  by (auto simp: pow2_def pw_power power_int_def field_simps)

lemma pow2_pos [simp]: "0 < pow2 e"
  by (simp add: pow2_powi)

lemma pow2_add: "pow2 (a + b) = pow2 a * pow2 b"
  by (simp add: pow2_powi power_int_add)

lemma pow2_le: "a \<le> b \<Longrightarrow> pow2 a \<le> pow2 b"
  by (simp add: pow2_powi power_int_increasing)

lemma pow2_less_iff: "pow2 a < pow2 b \<longleftrightarrow> a < b"
proof
  show "pow2 a < pow2 b \<Longrightarrow> a < b" using pow2_le[of b a] by linarith
  show "a < b \<Longrightarrow> pow2 a < pow2 b" by (simp add: pow2_powi power_int_strict_increasing)
qed

lemma blen_bounds: "0 < n \<Longrightarrow> 0 < blen n \<and> pow2 (blen n - 1) \<le> of_int n \<and> of_int n < pow2 (blen n)"
proof (induction n rule: blen.induct)
  case (1 n)
  show ?case
  proof (cases "n = 1")
    case True
    then show ?thesis by (simp add: blen.simps pow2_powi)
  next
    case False
    then have b: "blen n = 1 + blen (n div 2)" using "1.prems" by (subst blen.simps) simp
    define m where "m = n div 2"
    from 1 False have IH: "0 < blen m" "pow2 (blen m - 1) \<le> of_int m" "of_int m < pow2 (blen m)" by (simp_all add: m_def)
    have "pow2 (blen m - 1) * 2 = pow2 (blen m)" using pow2_add[of "blen m - 1" 1] by (simp add: pow2_powi)
    moreover have "2 * m \<le> n" "n \<le> 2 * m + 1" by (simp_all add: m_def)
    then have "(of_int (2 * m) :: rat) \<le> of_int n" "(of_int n :: rat) \<le> of_int (2 * m + 1)" by (simp_all only: of_int_le_iff)
    moreover have "of_int m + 1 \<le> pow2 (blen m)"
    proof -
      have "pow2 (blen m) = of_int (2 ^ nat (blen m))" using IH(1) by (simp add: pow2_powi power_int_def)
      with IH(3) show ?thesis by (metis of_int_1 of_int_add of_int_le_iff of_int_less_iff zless_imp_add1_zle)
    qed
    moreover have "pow2 (1 + blen m) = 2 * pow2 (blen m)" unfolding pow2_add by (simp add: pow2_powi)
    ultimately show ?thesis using IH unfolding b m_def[symmetric] by simp
  qed
qed

lemma ilog2_bounds:
  assumes "0 < a" shows "pow2 (ilog2 a) \<le> a" "a < pow2 (ilog2 a + 1)"
proof -
  obtain n d where q: "quotient_of a = (n, d)" by force
  then have d: "0 < d" and a: "a = of_int n / of_int d" by (simp_all add: quotient_of_denom_pos quotient_of_div)
  then have n: "0 < n" using assms by (simp add: zero_less_divide_iff)
  define e where "e = blen n - blen d"
  note bn = blen_bounds[OF n] and bd = blen_bounds[OF d]
  have "a * of_int d = of_int n" using a d by simp
  have up: "a < pow2 (e + 1)"
  proof -
    have "of_int n < pow2 (blen n)" using bn by simp
    also have "\<dots> = pow2 (e + 1) * pow2 (blen d - 1)" by (simp add: e_def flip: pow2_add)
    also have "\<dots> \<le> pow2 (e + 1) * of_int d" using bd by (intro mult_left_mono) (simp_all add: less_imp_le)
    finally show ?thesis using a d by (simp add: pos_divide_less_eq)
  qed
  have lo: "pow2 (e - 1) \<le> a"
  proof -
    have "pow2 (e - 1) * of_int d \<le> pow2 (e - 1) * pow2 (blen d)" using bd by (intro mult_left_mono) (simp_all add: less_imp_le)
    also have "\<dots> = pow2 (blen n - 1)" by (simp add: e_def flip: pow2_add)
    also have "\<dots> \<le> of_int n" using bn by simp
    finally show ?thesis using a d by (simp add: pos_le_divide_eq)
  qed
  show "pow2 (ilog2 a) \<le> a" "a < pow2 (ilog2 a + 1)"
    using up lo by (auto simp: ilog2_def q e_def[symmetric] Let_def)
qed

lemma rhe_int: "rhe (of_int k) = k"
  by (simp add: rhe_def)

lemma rhe_mono: "x \<le> y \<Longrightarrow> rhe x \<le> rhe y"
proof -
  assume xy: "x \<le> y"
  have b: "\<lfloor>z\<rfloor> \<le> rhe z" "rhe z \<le> \<lfloor>z\<rfloor> + 1" for z by (auto simp: rhe_def Let_def)
  show ?thesis
  proof (cases "\<lfloor>x\<rfloor> = \<lfloor>y\<rfloor>")
    case True
    with xy show ?thesis by (auto simp: rhe_def Let_def)
  next
    case False
    with xy have "\<lfloor>x\<rfloor> + 1 \<le> \<lfloor>y\<rfloor>" using floor_mono[OF xy] by linarith
    with b[of x] b[of y] show ?thesis by linarith
  qed
qed

lemma ulp_pos [simp]: "0 < ulp a"
  by (simp add: ulp_def)

text \<open>A power of two at the edge of the binade is a whole number of units in the last place.\<close>

lemma pow2_multiple: "c \<le> e \<Longrightarrow> \<exists>k. pow2 e / pow2 c = of_int k"
proof -
  assume "c \<le> e"
  then have "pow2 (e - c) = of_int (pw (e - c))" by (simp add: pow2_def)
  moreover have "pow2 e = pow2 (e - c) * pow2 c" by (simp flip: pow2_add)
  ultimately show ?thesis by (intro exI[of _ "pw (e - c)"]) (simp add: less_imp_neq[OF pow2_pos, symmetric])
qed

lemma rnd_le_int: "x \<le> of_int k * ulp a \<Longrightarrow> of_int (rhe (x / ulp a)) * ulp a \<le> of_int k * ulp a"
  using rhe_mono[of "x / ulp a" "of_int k"] rhe_int[of k] by (simp add: pos_divide_le_eq)

lemma rnd_ge_int: "of_int k * ulp a \<le> x \<Longrightarrow> of_int k * ulp a \<le> of_int (rhe (x / ulp a)) * ulp a"
  using rhe_mono[of "of_int k" "x / ulp a"] rhe_int[of k] by (simp add: pos_le_divide_eq)

lemma rnd_le_pow2:
  assumes "0 < a" and "a \<le> pow2 e" and "- 1074 \<le> e" and "ilog2 a \<le> e"
  shows "rnd a \<le> pow2 e"
proof -
  have "max (ilog2 a - 52) (- 1074) \<le> e" using assms by simp
  from pow2_multiple[OF this] obtain k where "pow2 e = of_int k * ulp a"
    by (auto simp: ulp_def field_simps less_imp_neq[OF pow2_pos, symmetric])
  with rnd_le_int[of a k a] assms(2) show ?thesis by (simp add: rnd_def)
qed

lemma rnd_ge_pow2:
  assumes "0 < a" and "- 1074 \<le> ilog2 a"
  shows "pow2 (ilog2 a) \<le> rnd a"
proof -
  have "max (ilog2 a - 52) (- 1074) \<le> ilog2 a" using assms by simp
  from pow2_multiple[OF this] obtain k where "pow2 (ilog2 a) = of_int k * ulp a"
    by (auto simp: ulp_def field_simps less_imp_neq[OF pow2_pos, symmetric])
  with rnd_ge_int[of k a a] ilog2_bounds(1)[OF assms(1)] show ?thesis by (simp add: rnd_def)
qed

lemma ilog2_mono: "0 < a \<Longrightarrow> a \<le> b \<Longrightarrow> ilog2 a \<le> ilog2 b"
  using ilog2_bounds[of a] ilog2_bounds[of b] pow2_less_iff[of "ilog2 a" "ilog2 b + 1"] by simp

lemma rnd_mono:
  assumes "0 < a" and "a \<le> b" shows "rnd a \<le> rnd b"
proof -
  have m: "ilog2 a \<le> ilog2 b" by (rule ilog2_mono[OF assms])
  show ?thesis
  proof (cases "ulp a = ulp b")
    case True
    with rhe_mono[of "a / ulp a" "b / ulp b"] assms show ?thesis
      by (simp add: rnd_def divide_right_mono less_imp_le)
  next
    case False
    then have "ilog2 a \<noteq> ilog2 b" by (auto simp: ulp_def)
    with False m have l: "ilog2 a + 1 \<le> ilog2 b" "- 1074 \<le> ilog2 b - 52" by (auto simp: ulp_def max_def split: if_splits)
    have "a \<le> pow2 (ilog2 b)" using ilog2_bounds(2)[OF assms(1)] pow2_le[OF l(1)] by simp
    then have "rnd a \<le> pow2 (ilog2 b)" using l m assms(1) by (intro rnd_le_pow2) simp_all
    also have "\<dots> \<le> rnd b" using l assms by (intro rnd_ge_pow2) simp_all
    finally show ?thesis .
  qed
qed

lemma rnd_nonneg: "0 < a \<Longrightarrow> 0 \<le> rnd a"
  using rnd_ge_int[of 0 a a] by (simp add: rnd_def)

theorem round64_mono: "q \<le> r \<Longrightarrow> fle (round64 q) (round64 r)"
proof -
  assume le: "q \<le> r"
  have pos: "0 < q \<Longrightarrow> rnd q \<le> rnd r" using le by (rule rnd_mono[rotated])
  have neg: "r < 0 \<Longrightarrow> rnd (- r) \<le> rnd (- q)" using le rnd_mono[of "- r" "- q"] by simp
  have nn: "0 < q \<Longrightarrow> 0 \<le> rnd q" "0 < r \<Longrightarrow> 0 \<le> rnd r" "q < 0 \<Longrightarrow> 0 \<le> rnd (- q)" "r < 0 \<Longrightarrow> 0 \<le> rnd (- r)"
    by (simp_all add: rnd_nonneg)
  consider "0 < q" | "q = 0" | "q < 0" "r < 0" | "q < 0" "r = 0" | "q < 0" "0 < r" by linarith
  then show ?thesis using le pos neg nn by cases (auto simp: round64_def Let_def f_val_def)
qed

text \<open>\<open>fbetween lo hi x\<close>: a number, not NaN, within the bounds.\<close>

definition fbetween :: "f64 \<Rightarrow> f64 \<Rightarrow> f64 \<Rightarrow> bool" where
  "fbetween lo hi x \<longleftrightarrow> fle lo x \<and> fle x hi"

lemma fle_refl: "x \<noteq> NaN \<Longrightarrow> fle x x"
  by (cases x) simp_all

lemma fle_trans: "fle x y \<Longrightarrow> fle y z \<Longrightarrow> fle x z"
  by (cases x; cases y; cases z) (auto simp: f_val_def)

lemma not_flt_fle: "x \<noteq> NaN \<Longrightarrow> y \<noteq> NaN \<Longrightarrow> \<not> flt x y \<longleftrightarrow> fle y x"
  by (cases x; cases y) (auto simp: f_val_def)

lemma flt_fle: "flt x y \<Longrightarrow> fle x y"
  by (cases x; cases y) (auto simp: f_val_def)

lemma fle_antisym_val: "fle x y \<Longrightarrow> fle y x \<Longrightarrow> is_finite x \<Longrightarrow> f_val x = f_val y"
  by (cases x; cases y) (auto simp: f_val_def is_finite_def)

lemma round64_not_NaN [simp]: "round64 q \<noteq> NaN"
  by (simp add: round64_def Let_def)

section \<open>Bounds through rounded operations\<close>

lemma fle_fin: "is_finite x \<Longrightarrow> is_finite y \<Longrightarrow> fle x y \<longleftrightarrow> f_val x \<le> f_val y"
  by (cases x; cases y) (auto simp: is_finite_def)

definition f_eqv :: "f64 \<Rightarrow> f64 \<Rightarrow> bool" where
  "f_eqv x y \<longleftrightarrow> fle x y \<and> fle y x"

lemma fadd_eqv: "is_finite x \<Longrightarrow> is_finite y \<Longrightarrow> f_eqv (fadd x y) (round64 (f_val x + f_val y))"
  by (cases x; cases y) (auto simp: is_finite_def f_eqv_def f_val_def round64_def fle_refl Let_def)

lemma fmul_eqv: "is_finite x \<Longrightarrow> is_finite y \<Longrightarrow> f_eqv (fmul x y) (round64 (f_val x * f_val y))"
  by (cases x; cases y) (auto simp: is_finite_def f_eqv_def f_val_def round64_def fle_refl Let_def)

lemma fdiv_eqv: "is_finite x \<Longrightarrow> is_finite y \<Longrightarrow> f_val y \<noteq> 0 \<Longrightarrow> f_eqv (fdiv x y) (round64 (f_val x / f_val y))"
  by (cases x; cases y) (auto simp: is_finite_def f_eqv_def f_val_def round64_def fle_refl Let_def)

lemma eqv_between:
  "f_eqv x (round64 q) \<Longrightarrow> a \<le> q \<Longrightarrow> q \<le> b \<Longrightarrow> fbetween (round64 a) (round64 b) x"
  unfolding f_eqv_def fbetween_def by (meson fle_trans round64_mono)

lemma fbetween_fin: "fbetween lo hi x \<Longrightarrow> is_finite lo \<Longrightarrow> is_finite hi \<Longrightarrow> is_finite x \<and> f_val lo \<le> f_val x \<and> f_val x \<le> f_val hi"
  by (cases lo; cases hi; cases x) (auto simp: fbetween_def is_finite_def)

lemma fadd_not_NaN: "is_finite x \<Longrightarrow> is_finite y \<Longrightarrow> fadd x y \<noteq> NaN"
  by (cases x; cases y) (auto simp: is_finite_def)

lemma is_finite_minus: "is_finite (fminus x) = is_finite x"
  by (cases x) (simp_all add: is_finite_def fminus_def)

lemma fsub_not_NaN: "is_finite x \<Longrightarrow> is_finite y \<Longrightarrow> fsub x y \<noteq> NaN"
  by (simp add: fsub_def fadd_not_NaN is_finite_minus)

lemma fdiv_not_NaN: "x \<noteq> NaN \<Longrightarrow> is_finite y \<Longrightarrow> flt (Zero False) y \<Longrightarrow> fdiv x y \<noteq> NaN"
  by (cases x; cases y) (auto simp: is_finite_def f_val_def)

lemma lit_0 [simp]: "lit 0 = Zero False"
  by (simp add: lit_def round64_def)

lemma lit_1 [simp]: "lit 1 = Fin 1"
  by code_simp

lemma of_int64_finite:
  assumes "in_int64 n" shows "is_finite (of_int64 n)"
proof -
  let ?b = "9223372036854775808 :: int"
  have "- ?b \<le> n" "n \<le> ?b" using assms by (simp_all add: in_int64_def)
  then have "of_int (- ?b) \<le> (of_int n :: rat)" "(of_int n :: rat) \<le> of_int ?b" by (simp_all only: of_int_le_iff)
  then have "fbetween (round64 (of_int (- ?b))) (round64 (of_int ?b)) (of_int64 n)"
    unfolding fbetween_def of_int64_def by (blast intro: round64_mono)
  moreover have "is_finite (round64 (of_int (- ?b)))" by code_simp
  moreover have "is_finite (round64 (of_int ?b))" by code_simp
  ultimately show ?thesis using fbetween_fin by blast
qed

end
