(* ===== verification/Go_Rows.thy ===== *)
theory Go_Rows
  imports Go_Float
begin

text \<open>
  Rows as the ClickHouse client decodes them: a JSON object whose values are strings, numbers
  or something else (\<open>any\<close>), and the conversions the components apply to a cell. The store
  itself is not part of the sources: a query function from SQL text to rows or an error.
  \<open>fmt.Sscanf\<close> with \<open>%d\<close> or \<open>%g\<close> is modelled on plain decimal text; on any other text the
  target keeps its zero value.
\<close>

datatype any = AnyStr string | AnyFloat f64 | AnyInt int | AnyOther

type_synonym row = "(string \<times> any) list"
type_synonym ch_query = "string \<Rightarrow> (goerror, row list) outcome"

text \<open>\<open>r[k]\<close>: a missing key is the nil interface.\<close>

definition cell :: "row \<Rightarrow> string \<Rightarrow> any" where
  "cell r k = (case map_of r k of Some v \<Rightarrow> v | None \<Rightarrow> AnyOther)"

definition str_of :: "any \<Rightarrow> string" where
  "str_of v = (case v of AnyStr s \<Rightarrow> s | _ \<Rightarrow> [])"

definition scan_d :: "string \<Rightarrow> int" where
  "scan_d s =
     (let ds = takeWhile isDigit (dropWhile is_space s); n = digits_val ds
      in if ds = [] \<or> 2 ^ 64 \<le> n then 0 else n)"

text \<open>The parts of a decimal number: sign, integer digits, fraction digits, exponent.\<close>

definition take_sign :: "string \<Rightarrow> bool \<times> string" where
  "take_sign s = (case s of [] \<Rightarrow> (False, [])
     | c # cs \<Rightarrow> if c = CHR ''-'' then (True, cs) else if c = CHR ''+'' then (False, cs) else (False, s))"

definition take_frac :: "string \<Rightarrow> string \<times> string" where
  "take_frac s = (case s of [] \<Rightarrow> ([], [])
     | c # cs \<Rightarrow> if c = CHR ''.'' then (takeWhile isDigit cs, dropWhile isDigit cs) else ([], s))"

definition take_exp :: "string \<Rightarrow> int option" where
  "take_exp s = (case s of [] \<Rightarrow> Some 0
     | c # cs \<Rightarrow>
        if c = CHR ''e'' \<or> c = CHR ''E'' then
          (let (neg, r) = take_sign cs; ds = takeWhile isDigit r in
           if ds = [] then None else Some (if neg then - digits_val ds else digits_val ds))
        else Some 0)"

definition scan_g :: "string \<Rightarrow> f64" where
  "scan_g s =
     (let (neg, r) = take_sign (dropWhile is_space s);
          ip = takeWhile isDigit r;
          (fp, r) = take_frac (dropWhile isDigit r)
      in if ip @ fp = [] then Zero False
         else case take_exp r of
           None \<Rightarrow> Zero False
         | Some e \<Rightarrow>
             let m = of_int (digits_val (ip @ fp)) * (10 powi (e - int (length fp)));
                 v = (if m = 0 then Zero neg else round64 (if neg then - m else m))
             in if \<exists>b. v = Inf b then Zero False else v)"

text \<open>
  \<open>uint64(x)\<close> truncates; outside the range of the type the result is implementation-defined
  and comes from the argument \<open>oob\<close>.
\<close>

definition uint64_of :: "(f64 \<Rightarrow> int) \<Rightarrow> f64 \<Rightarrow> int" where
  "uint64_of oob x = (case x of Zero _ \<Rightarrow> 0
     | Fin q \<Rightarrow> if - 1 < q \<and> q < 2 ^ 64 then (if q < 0 then 0 else \<lfloor>q\<rfloor>) else oob x
     | _ \<Rightarrow> oob x)"

definition int64_of :: "(f64 \<Rightarrow> int) \<Rightarrow> f64 \<Rightarrow> int" where
  "int64_of oob x = (case x of Zero _ \<Rightarrow> 0
     | Fin q \<Rightarrow> (let n = (if q < 0 then - \<lfloor>- q\<rfloor> else \<lfloor>q\<rfloor>) in if in_int64 n then n else oob x)
     | _ \<Rightarrow> oob x)"

definition u64 :: "(f64 \<Rightarrow> int) \<Rightarrow> any \<Rightarrow> int" where
  "u64 oob v = (case v of AnyFloat x \<Rightarrow> uint64_of oob x | AnyStr s \<Rightarrow> scan_d s | _ \<Rightarrow> 0)"

definition toF64 :: "any \<Rightarrow> f64" where
  "toF64 v = (case v of AnyFloat x \<Rightarrow> x | AnyStr s \<Rightarrow> scan_g s | _ \<Rightarrow> Zero False)"

end
