(* ===== verification/LogQL_Compiler.thy ===== *)
theory LogQL_Compiler
  imports LogQL_Parser
begin

text \<open>
  The LogQL++ to ClickHouse SQL compiler (\<open>domains/query/compile.go\<close>): the column
  whitelists, the field mapping, the predicate and statement compilers, string quoting and
  the limit clamp. \<open>fmt.Sprintf\<close> is concatenation with \<open>%d\<close> printed by \<open>show_int\<close>. A Go
  \<open>int\<close> is a 64-bit value, kept here as its signed integer.
\<close>

section \<open>Configuration and tables\<close>

record Options =
  opt_DefaultLimit :: int
  opt_MaxLimit :: int

record Compiled =
  c_SQL :: string
  c_Columns :: "string list"
  c_Kind :: Kind

record compiler =
  cc_tenant :: string
  cc_table :: string

text \<open>The array literal of the severity names, with single-quoted elements.\<close>

definition quoted_names :: "string list \<Rightarrow> string" where
  "quoted_names ns = ''['' @ Join (map (\<lambda>n. [squote] @ n @ [squote]) ns) '','' @ '']''"

definition levelArr :: string where
  "levelArr = quoted_names [''trace'', ''debug'', ''info'', ''warn'', ''error'', ''fatal'']"

definition logsColumns :: "string list" where
  "logsColumns = [''id'', ''timestamp'', ''received_at'', ''tenant_id'', ''service'', ''environment'',
     ''level'', ''message'', ''trace_id'', ''span_id'', ''user_linkage_key'', ''ingested_by'',
     ''_retention_days'', ''body'', ''resource'', ''pii_detected'',
     ''git_sha'', ''deploy_id'', ''pr_number'', ''k8s_namespace'', ''k8s_pod'', ''k8s_node'']"

definition authColumns :: "string list" where
  "authColumns = [''id'', ''timestamp'', ''received_at'', ''tenant_id'', ''event_type'', ''auth_method'',
     ''user_id'', ''session_id'', ''error_code'', ''attempt_number'', ''mfa_required'', ''mfa_passed'',
     ''ip_country'', ''ip_asn'', ''device_new'', ''risk_score'', ''user_linkage_key'', ''_retention_days'']"

definition metricsColumns :: "string list" where
  "metricsColumns = [''id'', ''timestamp'', ''start_timestamp'', ''received_at'', ''tenant_id'', ''service'',
     ''environment'', ''metric_name'', ''metric_type'', ''unit'', ''description'', ''temporality'', ''is_monotonic'',
     ''value'', ''count'', ''sum'', ''min'', ''max'', ''bucket_counts'', ''explicit_bounds'', ''scale'', ''zero_count'',
     ''positive_offset'', ''positive_buckets'', ''negative_offset'', ''negative_buckets'', ''attributes'',
     ''resource'', ''_retention_days'']"

definition tracesColumns :: "string list" where
  "tracesColumns = [''id'', ''timestamp'', ''received_at'', ''tenant_id'', ''service'', ''environment'',
     ''trace_id'', ''span_id'', ''parent_span_id'', ''name'', ''kind'', ''start_time'', ''end_time'', ''duration_ns'',
     ''status_code'', ''status_message'', ''attributes'', ''resource'', ''scope_name'', ''scope_version'',
     ''trace_state'', ''_retention_days'',
     ''git_sha'', ''deploy_id'', ''pr_number'', ''k8s_namespace'', ''k8s_pod'', ''k8s_node'']"

definition changeColumns :: "string list" where
  "changeColumns = [''id'', ''timestamp'', ''received_at'', ''tenant_id'', ''service'', ''environment'',
     ''kind'', ''title'', ''git_sha'', ''deploy_id'', ''pr_number'', ''flag_key'', ''config_diff'', ''author'',
     ''metadata'', ''_retention_days'']"

definition columns :: "compiler \<Rightarrow> string list" where
  "columns c =
     (if cc_table c = ''auth_events'' then authColumns
      else if cc_table c = ''metrics'' then metricsColumns
      else if cc_table c = ''traces'' then tracesColumns
      else if cc_table c = ''change_events'' then changeColumns
      else logsColumns)"

definition defaultProjection :: "string \<Rightarrow> string list" where
  "defaultProjection table =
     (if table = ''auth_events'' then [''id'', ''timestamp'', ''event_type'', ''auth_method'', ''user_id'', ''ip_country'', ''risk_score'']
      else if table = ''metrics'' then [''timestamp'', ''service'', ''metric_name'', ''metric_type'', ''value'', ''count'', ''sum'', ''attributes'']
      else if table = ''traces'' then [''timestamp'', ''service'', ''name'', ''kind'', ''status_code'', ''duration_ns'', ''trace_id'', ''span_id'']
      else if table = ''change_events'' then [''timestamp'', ''service'', ''kind'', ''title'', ''git_sha'', ''deploy_id'', ''pr_number'', ''flag_key'', ''author'']
      else [''id'', ''timestamp'', ''service'', ''level'', ''message'', ''trace_id'', ''span_id'', ''body''])"

section \<open>Leaves\<close>

definition quote :: "string \<Rightarrow> string" where
  "quote s =
     (let s = ReplaceAll s [backslash] [backslash, backslash];
          s = ReplaceAll s [squote] [backslash, squote]
      in [squote] @ s @ [squote])"

definition QuoteLiteral :: "string \<Rightarrow> string" where
  "QuoteLiteral s = quote s"

definition isOrdering :: "string \<Rightarrow> bool" where
  "isOrdering op \<longleftrightarrow> op = ''<'' \<or> op = ''>'' \<or> op = ''<='' \<or> op = ''>=''"

definition aliasOr :: "string \<Rightarrow> string \<Rightarrow> string" where
  "aliasOr alias def = (if alias \<noteq> [] then alias else def)"

definition last_part :: "Field \<Rightarrow> (goerror, string) outcome" where
  "last_part f = (if fld_Parts f = [] then Panic else Ok (last (fld_Parts f)))"

definition jsonExtract :: "string \<Rightarrow> string list \<Rightarrow> string" where
  "jsonExtract col parts = ''JSONExtractString('' @ col @ '', '' @ Join (map quote parts) '', '' @ '')''"

definition compileValue :: "Value \<Rightarrow> (goerror, string) outcome" where
  "compileValue v =
     (case val_Kind v of
        ValString \<Rightarrow> Ok (quote (val_Str v))
      | ValNumber \<Rightarrow> Ok (val_Num v)
      | ValTime \<Rightarrow>
          if val_TimeSeconds v = 0 then Ok ''now()''
          else Ok (''now() '' @ (if val_TimeSub v then ''-'' else ''+'') @ '' INTERVAL '' @
                   show_int (val_TimeSeconds v) @ '' SECOND''))"

definition isAlnum :: "char \<Rightarrow> bool" where
  "isAlnum r \<longleftrightarrow> between CHR ''a'' CHR ''z'' r \<or> between CHR ''A'' CHR ''Z'' r \<or> between CHR ''0'' CHR ''9'' r"

text \<open>The token loop of \<open>searchPredicate\<close>: \<open>word\<close> is the builder \<open>cur\<close>, \<open>flush\<close> appends it if non-empty.\<close>

definition flush :: "string \<Rightarrow> string list \<Rightarrow> string list" where
  "flush word toks = (if word \<noteq> [] then toks @ [word] else toks)"

fun search_tokens :: "string \<Rightarrow> string \<Rightarrow> string list \<Rightarrow> string list" where
  "search_tokens [] word toks = flush word toks"
| "search_tokens (r # rs) word toks =
     (if isAlnum r then search_tokens rs (word @ [r]) toks
      else search_tokens rs [] (flush word toks))"

definition searchPredicate :: "string \<Rightarrow> string" where
  "searchPredicate phrase =
     (let toks = search_tokens phrase [] []
      in if toks = [] then []
         else Join (map (\<lambda>t. ''hasTokenCaseInsensitive(message, '' @ quote t @ '')'') toks) '' AND '')"

definition limit :: "Stmt \<Rightarrow> Options \<Rightarrow> int" where
  "limit s opts =
     (let l = stmt_Limit s;
          l = (if l \<le> 0 then opt_DefaultLimit opts else l)
      in if opt_MaxLimit opts > 0 \<and> l > opt_MaxLimit opts then opt_MaxLimit opts else l)"

section \<open>Fields and predicates\<close>

text \<open>\<open>mapField\<close> returns the ClickHouse expression and whether it is the \<open>level\<close> column.\<close>

definition mapField1 :: "compiler \<Rightarrow> string \<Rightarrow> (goerror, string \<times> bool) outcome" where
  "mapField1 c part =
     (let name = ToLower part in
      if name = ''time'' then Ok (''timestamp'', False)
      else if name = ''tenant'' then Ok (''tenant_id'', False)
      else if name \<in> set (columns c) then Ok (name, name = ''level'')
      else Err (Errorf ''unknown field %q'' [part]))"

definition mapField_attr :: "compiler \<Rightarrow> string list \<Rightarrow> (goerror, string \<times> bool) outcome" where
  "mapField_attr c parts =
     (if cc_table c = ''traces'' then Ok (jsonExtract ''attributes'' (tl parts), False)
      else if cc_table c = ''metrics'' then
        (if length parts \<noteq> 2 then Err (Errorf ''metrics label must be attr.<label>'' [])
         else Ok (''attributes['' @ quote (parts ! 1) @ '']'', False))
      else Err (Errorf ''attr.* is only available on metrics or traces'' []))"

definition mapField_auth :: "compiler \<Rightarrow> string list \<Rightarrow> (goerror, string \<times> bool) outcome" where
  "mapField_auth c parts =
     (if cc_table c \<noteq> ''auth_events'' then Err (Errorf ''auth.* is only available on auth_events'' [])
      else if length parts \<noteq> 2 then Err (Errorf ''auth field must be auth.<column>'' [])
      else (let col = ToLower (parts ! 1) in
            if col \<notin> set authColumns then Err (Errorf ''unknown auth field %q'' [parts ! 1])
            else Ok (col, False)))"

definition mapField :: "compiler \<Rightarrow> Field \<Rightarrow> (goerror, string \<times> bool) outcome" where
  "mapField c f =
     (case fld_Parts f of
        [] \<Rightarrow> Panic
      | [part] \<Rightarrow> mapField1 c part
      | p # ps \<Rightarrow>
         (let head = ToLower p in
          if head = ''body'' then
            (if cc_table c \<noteq> ''logs'' then Err (Errorf ''body.* is only available on logs'' [])
             else Ok (jsonExtract ''body'' ps, False))
          else if head = ''resource'' then
            (if cc_table c = ''auth_events'' then Err (Errorf ''resource.* is not available on auth_events'' [])
             else Ok (jsonExtract ''resource'' ps, False))
          else if head = ''attr'' \<or> head = ''attribute'' \<or> head = ''attributes'' then mapField_attr c (p # ps)
          else if head = ''auth'' then mapField_auth c (p # ps)
          else Err (Errorf ''unknown field %q'' [Join (p # ps) ''.''])))"

definition tenant_guard :: "string \<Rightarrow> string" where
  "tenant_guard t = ''tenant_id = '' @ quote t"

text \<open>The early return of \<open>comparison\<close> on the fields \<open>tenant\<close> and \<open>tenant_id\<close>.\<close>

definition is_tenant_field :: "Field \<Rightarrow> bool" where
  "is_tenant_field f \<longleftrightarrow>
     (case fld_Parts f of [p] \<Rightarrow> ToLower p = ''tenant'' \<or> ToLower p = ''tenant_id'' | _ \<Rightarrow> False)"

definition compileComparison :: "compiler \<Rightarrow> Field \<Rightarrow> string \<Rightarrow> Value \<Rightarrow> (goerror, string) outcome" where
  "compileComparison c f op v =
     (if is_tenant_field f then Ok (tenant_guard (cc_tenant c))
      else bindO (mapField c f) (\<lambda>(lhs, isLevel).
        if isLevel \<and> val_Kind v = ValString \<and> isOrdering op then
          Ok (''indexOf('' @ levelArr @ '', '' @ lhs @ '') '' @ op @ '' indexOf('' @ levelArr @ '', '' @
              quote (val_Str v) @ '')'')
        else bindO (compileValue v) (\<lambda>rhs. Ok (lhs @ '' '' @ op @ '' '' @ rhs))))"

fun compileExpr :: "compiler \<Rightarrow> Expr \<Rightarrow> (goerror, string) outcome" where
  "compileExpr c (Paren e) = bindO (compileExpr c e) (\<lambda>inner. Ok (''('' @ inner @ '')''))"
| "compileExpr c (Binary op l r) =
     bindO (compileExpr c l) (\<lambda>l'. bindO (compileExpr c r) (\<lambda>r'.
       Ok (''('' @ l' @ '' '' @ op @ '' '' @ r' @ '')'')))"
| "compileExpr c (Comparison f op v) = compileComparison c f op v"

definition whereSQL :: "compiler \<Rightarrow> Stmt \<Rightarrow> (goerror, string) outcome" where
  "whereSQL c s =
     bindO (case stmt_Where s of
              None \<Rightarrow> Ok [tenant_guard (cc_tenant c)]
            | Some e \<Rightarrow> bindO (compileExpr c e) (\<lambda>w. Ok [tenant_guard (cc_tenant c), ''('' @ w @ '')'']))
       (\<lambda>parts.
         let sp = searchPredicate (stmt_Search s);
             parts = (if stmt_Kind s = KindSearch \<and> sp \<noteq> [] then parts @ [''('' @ sp @ '')''] else parts)
         in Ok (Join parts '' AND ''))"

section \<open>Statements\<close>

definition compileSelectItem :: "compiler \<Rightarrow> SelectItem \<Rightarrow> (goerror, string \<times> string) outcome" where
  "compileSelectItem c it =
     (if sel_Agg it \<noteq> [] then
        (if sel_Star it then
           (if sel_Agg it \<noteq> ''count'' then Err (Errorf ''%s(*) is not allowed; only count(*)'' [sel_Agg it])
            else Ok (''count()'', aliasOr (sel_Alias it) ''count''))
         else bindO (mapField c (sel_Field it)) (\<lambda>(mapped, _).
              bindO (last_part (sel_Field it)) (\<lambda>lp.
              Ok (sel_Agg it @ ''('' @ mapped @ '')'', aliasOr (sel_Alias it) (sel_Agg it @ ''_'' @ lp)))))
      else bindO (mapField c (sel_Field it)) (\<lambda>(mapped, _).
           bindO (last_part (sel_Field it)) (\<lambda>lp.
           Ok (mapped, aliasOr (sel_Alias it) lp))))"

text \<open>One pass of the projection loop: the expressions and the column names it appends.\<close>

definition selectCols :: "compiler \<Rightarrow> SelectItem \<Rightarrow> (goerror, (string \<times> string) list) outcome" where
  "selectCols c it =
     (if sel_Star it \<and> sel_Agg it = [] then Ok (map (\<lambda>col. (col, col)) (defaultProjection (cc_table c)))
      else bindO (compileSelectItem c it) (\<lambda>(e, alias). Ok [(e @ '' AS '' @ alias, alias)]))"

definition groupBySQL :: "compiler \<Rightarrow> Field list \<Rightarrow> (goerror, string) outcome" where
  "groupBySQL c fs =
     (if fs = [] then Ok []
      else bindO (mapO (\<lambda>f. bindO (mapField c f) (\<lambda>(e, _). Ok e)) fs)
        (\<lambda>gb. Ok ('' GROUP BY '' @ Join gb '', '')))"

definition orderBySQL :: "compiler \<Rightarrow> OrderItem option \<Rightarrow> (goerror, string) outcome" where
  "orderBySQL c ob =
     (case ob of
        None \<Rightarrow> Ok []
      | Some oi \<Rightarrow> bindO (mapField c (ord_Field oi)) (\<lambda>(e, _).
          Ok ('' ORDER BY '' @ e @ '' '' @ (if ord_Desc oi then ''DESC'' else ''ASC''))))"

definition compileSelect :: "compiler \<Rightarrow> Stmt \<Rightarrow> Options \<Rightarrow> (goerror, Compiled) outcome" where
  "compileSelect c s opts =
     bindO (mapO (selectCols c) (stmt_Select s)) (\<lambda>css.
       let exprs = map fst (concat css); cols = map snd (concat css) in
       if exprs = [] then Err (Errorf ''empty SELECT list'' []) else
     bindO (whereSQL c s) (\<lambda>wh.
     bindO (groupBySQL c (stmt_GroupBy s)) (\<lambda>gb.
     bindO (orderBySQL c (stmt_OrderBy s)) (\<lambda>ob.
       Ok \<lparr>c_SQL = ''SELECT '' @ Join exprs '', '' @ '' FROM '' @ cc_table c @ '' WHERE '' @ wh @ gb @ ob @
             '' LIMIT '' @ show_int (limit s opts),
           c_Columns = cols, c_Kind = KindSelect\<rparr>))))"

definition compileSearch :: "compiler \<Rightarrow> Stmt \<Rightarrow> Options \<Rightarrow> (goerror, Compiled) outcome" where
  "compileSearch c s opts =
     (if cc_table c \<noteq> ''logs'' then
        Err (Errorf ''SEARCH full-text is only available on logs (use SELECT ... FROM %s)'' [cc_table c])
      else bindO (whereSQL c s) (\<lambda>wh.
        let cols = defaultProjection (cc_table c) in
        Ok \<lparr>c_SQL = ''SELECT '' @ Join cols '', '' @ '' FROM '' @ cc_table c @ '' WHERE '' @ wh @
              '' ORDER BY timestamp DESC LIMIT '' @ show_int (limit s opts),
            c_Columns = cols, c_Kind = KindSearch\<rparr>))"

definition tables :: "string list" where
  "tables = [''logs'', ''auth_events'', ''metrics'', ''traces'', ''change_events'']"

definition Compile :: "string \<Rightarrow> string \<Rightarrow> Options \<Rightarrow> (goerror, Compiled) outcome" where
  "Compile input tenantID opts =
     bindO (Parse input) (\<lambda>stmt.
       if stmt_Table stmt \<notin> set tables then
         Err (Errorf ''unknown table %q (use logs, auth_events, metrics, traces, or change_events)'' [stmt_Table stmt])
       else
         let c = \<lparr>cc_tenant = tenantID, cc_table = stmt_Table stmt\<rparr> in
         case stmt_Kind stmt of
           KindTail \<Rightarrow> Err (Sentinel ''ErrTail'')
         | KindSearch \<Rightarrow> compileSearch c stmt opts
         | KindSelect \<Rightarrow> compileSelect c stmt opts)"

end
