(* ===== verification/LogQL_Wellformed.thy ===== *)
theory LogQL_Wellformed
  imports LogQL_Parser
begin

text \<open>
  The type invariant of the syntax trees the parser builds: every field is a non-empty path of
  identifiers, every operator one of the lexer's, every number a digit string, every aggregate
  one of the five known functions, and a limit or time offset is an \<open>int64\<close>. The compiler's
  comment that the lexer guarantees digits only is one conjunct of it.
\<close>

section \<open>Well-formed trees\<close>

definition wf_Field :: "Field \<Rightarrow> bool" where
  "wf_Field f \<longleftrightarrow> fld_Parts f \<noteq> [] \<and> list_all wf_ident (fld_Parts f)"

definition wf_Value :: "Value \<Rightarrow> bool" where
  "wf_Value v \<longleftrightarrow> (val_Kind v = ValNumber \<longrightarrow> wf_number (val_Num v)) \<and> in_int64 (val_TimeSeconds v)"

fun wf_Expr :: "Expr \<Rightarrow> bool" where
  "wf_Expr (Paren e) = wf_Expr e"
| "wf_Expr (Binary op l r) = ((op = ''AND'' \<or> op = ''OR'') \<and> wf_Expr l \<and> wf_Expr r)"
| "wf_Expr (Comparison f op v) = (wf_Field f \<and> op \<in> set lex_ops \<and> wf_Value v)"

definition wf_SelectItem :: "SelectItem \<Rightarrow> bool" where
  "wf_SelectItem it \<longleftrightarrow> (sel_Agg it = [] \<or> isAgg (sel_Agg it)) \<and> (\<not> sel_Star it \<longrightarrow> wf_Field (sel_Field it)) \<and>
     (sel_Alias it = [] \<or> wf_ident (sel_Alias it))"

definition wf_Stmt :: "Stmt \<Rightarrow> bool" where
  "wf_Stmt s \<longleftrightarrow> list_all wf_SelectItem (stmt_Select s) \<and> pred_option wf_Expr (stmt_Where s) \<and>
     list_all wf_Field (stmt_GroupBy s) \<and> pred_option (\<lambda>oi. wf_Field (ord_Field oi)) (stmt_OrderBy s) \<and>
     0 \<le> stmt_Limit s \<and> in_int64 (stmt_Limit s)"

section \<open>What the methods return\<close>

definition tok_ok :: "token \<Rightarrow> bool" where
  "tok_ok t \<longleftrightarrow> wf_text (tok_kind t) (tok_text t)"

definition yields :: "('a \<Rightarrow> bool) \<Rightarrow> parser \<Rightarrow> (goerror, 'a \<times> parser) outcome \<Rightarrow> bool" where
  "yields P p m \<longleftrightarrow> (list_all tok_ok (p_toks p) \<longrightarrow>
     (\<forall>a q. m = Ok (a, q) \<longrightarrow> P a \<and> p_toks q = p_toks p))"

lemma yieldsD: "yields P p (Ok (a, q)) \<Longrightarrow> list_all tok_ok (p_toks p) \<Longrightarrow> P a"
  by (auto simp: yields_def)

lemma yields_Ok: "P a \<Longrightarrow> yields P p (Ok (a, p))"
  by (simp add: yields_def)

lemma yields_Err: "yields P p (Err e)"
  by (simp add: yields_def)

lemma yields_if: "(b \<Longrightarrow> yields P p x) \<Longrightarrow> (\<not> b \<Longrightarrow> yields P p y) \<Longrightarrow> yields P p (if b then x else y)"
  by simp

lemma yields_bind:
  assumes "yields R p m" and "\<And>a q. m = Ok (a, q) \<Longrightarrow> R a \<Longrightarrow> yields P q (f (a, q))"
  shows "yields P p (bindO m f)"
  unfolding yields_def
proof (intro impI allI)
  fix b r assume toks: "list_all tok_ok (p_toks p)" and "bindO m f = Ok (b, r)"
  then obtain a q where m: "m = Ok (a, q)" and f: "f (a, q) = Ok (b, r)" by (auto simp: outcome_simps)
  from assms(1) toks m have "R a" "p_toks q = p_toks p" by (auto simp: yields_def)
  with assms(2)[OF m] f toks show "P b \<and> p_toks r = p_toks p" by (simp add: yields_def)
qed

lemma yields_cur:
  assumes "\<And>t. cur p = Ok t \<Longrightarrow> tok_ok t \<Longrightarrow> yields P p (f t)"
  shows "yields P p (bindO (cur p) f)"
proof (cases "cur p")
  case (Ok t)
  show ?thesis
  proof (cases "list_all tok_ok (p_toks p)")
    case True
    with Ok have "tok_ok t" by (auto simp: cur_Ok list_all_length)
    with Ok assms show ?thesis by simp
  qed (simp add: yields_def)
qed (simp_all add: yields_def)

lemma yields_pos: "yields P (p\<lparr>p_pos := n\<rparr>) m = yields P p m"
  by (simp add: yields_def)

lemma yields_next:
  assumes "\<And>t. cur p = Ok t \<Longrightarrow> tok_ok t \<Longrightarrow>
    yields P (p\<lparr>p_pos := Suc (p_pos p)\<rparr>) (f (t, p\<lparr>p_pos := Suc (p_pos p)\<rparr>))"
  shows "yields P p (bindO (nextTok p) f)"
proof -
  have "bindO (nextTok p) f = bindO (cur p) (\<lambda>t. f (t, p\<lparr>p_pos := Suc (p_pos p)\<rparr>))"
    by (cases "cur p") (simp_all add: nextTok_def)
  moreover have "yields P p (bindO (cur p) (\<lambda>t. f (t, p\<lparr>p_pos := Suc (p_pos p)\<rparr>)))"
    by (rule yields_cur) (use assms in \<open>simp add: yields_pos\<close>)
  ultimately show ?thesis by simp
qed

lemma yields_isKw: "(\<And>b. isKw s p = Ok b \<Longrightarrow> yields P p (f b)) \<Longrightarrow> yields P p (bindO (isKw s p) f)"
  by (auto simp: yields_def outcome_simps)

lemma yields_expectKw:
  assumes "\<And>q. yields P q (f q)"
  shows "yields P p (bindO (expectKw s p) f)"
  unfolding bind_expectKw by (auto intro!: yields_isKw yields_if yields_cur yields_Err yields_next assms)

lemma yields_pure: "(\<And>a. m = Ok a \<Longrightarrow> yields P p (f a)) \<Longrightarrow> yields P p (bindO m f)"
  by (auto simp: yields_def outcome_simps)

lemmas yields_rules = yields_cur yields_isKw yields_if yields_Ok yields_Err

lemma yields_field_loop: "list_all wf_ident parts \<Longrightarrow> parts \<noteq> [] \<Longrightarrow>
  yields (\<lambda>ps. list_all wf_ident ps \<and> ps \<noteq> []) p (field_loop parts p)"
proof (induction parts p rule: field_loop.induct)
  case (1 parts p)
  show ?case
    by (subst field_loop.simps)
       (auto intro!: yields_rules yields_next "1.IH" simp: nextTok_cur tok_ok_def "1.prems")
qed

lemma yields_field: "yields wf_Field p (field p)"
  unfolding field_def
  by (auto intro!: yields_rules yields_next yields_bind[OF yields_field_loop] simp: tok_ok_def wf_Field_def)

lemma durationSeconds_range: "durationSeconds d = Ok n \<Longrightarrow> in_int64 n"
  by (auto simp: durationSeconds_def wrap64_in_range parse_digits_in_int64 split: if_splits option.splits)

lemma in_int64_0: "in_int64 0"
  by (simp add: in_int64_def)

lemma yields_timeValue: "yields wf_Value p (timeValue p)"
  unfolding timeValue_def
  by (auto intro!: yields_rules yields_next yields_pure[where m = "durationSeconds _"]
      simp: wf_Value_def zero_Value_def durationSeconds_range in_int64_0)

lemma yields_parseValue: "yields wf_Value p (parseValue p)"
  unfolding parseValue_def
  by (auto intro!: yields_rules yields_next yields_timeValue
      simp: wf_Value_def zero_Value_def tok_ok_def in_int64_0 split: tokKind.splits)

lemma yields_comparison: "yields wf_Expr p (comparison p)"
  unfolding comparison_def
  by (auto intro!: yields_rules yields_next yields_bind[OF yields_field] yields_bind[OF yields_parseValue]
      simp: tok_ok_def)

lemma yields_exprs:
  "yields wf_Expr p (orExpr p)"
  "wf_Expr l \<Longrightarrow> yields wf_Expr p (orLoop l p)"
  "yields wf_Expr p (andExpr p)"
  "wf_Expr l \<Longrightarrow> yields wf_Expr p (andLoop l p)"
  "yields wf_Expr p (primary p)"
proof (induction p and l p and p and l p and p rule: orExpr_orLoop_andExpr_andLoop_primary.induct)
  case (1 p)
  show ?case by (subst orExpr.simps) (auto intro!: yields_bind[OF "1.IH"(1)] "1.IH"(2))
next
  case (2 left p)
  show ?case
    by (subst orLoop.simps)
       (auto intro!: yields_rules yields_next yields_bind[OF "2.IH"(1)] "2.IH"(2) simp: nextTok_cur "2.prems")
next
  case (3 p)
  show ?case by (subst andExpr.simps) (auto intro!: yields_bind[OF "3.IH"(1)] "3.IH"(2))
next
  case (4 left p)
  show ?case
    by (subst andLoop.simps)
       (auto intro!: yields_rules yields_next yields_bind[OF "4.IH"(1)] "4.IH"(2) simp: nextTok_cur "4.prems")
next
  case (5 p)
  show ?case
    by (subst primary.simps)
       (auto intro!: yields_rules yields_next yields_bind[OF "5.IH"] yields_comparison simp: nextTok_cur)
qed

section \<open>Clauses and statements\<close>

lemma yields_optAlias: "wf_SelectItem it \<Longrightarrow> yields wf_SelectItem p (optAlias it p)"
  unfolding optAlias_def
  by (auto intro!: yields_rules yields_next simp: wf_SelectItem_def tok_ok_def)

lemma yields_aggArg: "isAgg agg \<Longrightarrow>
  yields wf_SelectItem p (aggArg (zero_SelectItem\<lparr>sel_Agg := agg\<rparr>) p)"
  unfolding aggArg_def
  by (auto intro!: yields_rules yields_next yields_bind[OF yields_field]
      simp: wf_SelectItem_def zero_SelectItem_def)

lemma yields_selectElem: "yields wf_SelectItem p (selectElem p)"
  unfolding selectElem_def selectItem_def Let_def
  by (auto intro!: yields_rules yields_next yields_pure[where m = "aggNext p"]
      yields_bind[OF yields_aggArg] yields_bind[OF yields_field] yields_optAlias
      simp: wf_SelectItem_def zero_SelectItem_def)

lemma yields_selectList_loop: "list_all wf_SelectItem items \<Longrightarrow>
  yields (list_all wf_SelectItem) p (selectList_loop items p)"
proof (induction items p rule: selectList_loop.induct)
  case (1 items p)
  show ?case
    by (subst selectList_loop.simps)
       (auto intro!: yields_rules yields_next yields_bind[OF yields_selectElem] "1.IH" simp: nextTok_cur "1.prems")
qed

lemma yields_groupBy_loop: "list_all wf_Field gs \<Longrightarrow> yields (list_all wf_Field) p (groupBy_loop gs p)"
proof (induction gs p rule: groupBy_loop.induct)
  case (1 gs p)
  show ?case
    by (subst groupBy_loop.simps)
       (auto intro!: yields_rules yields_next yields_bind[OF yields_field] "1.IH" simp: nextTok_cur "1.prems")
qed

lemma yields_fromClause: "wf_Stmt s \<Longrightarrow> yields wf_Stmt p (fromClause s p)"
  unfolding fromClause_def
  by (auto intro!: yields_rules yields_next yields_expectKw simp: wf_Stmt_def)

lemma yields_optWhere: "wf_Stmt s \<Longrightarrow> yields wf_Stmt p (optWhere s p)"
  unfolding optWhere_def
  by (auto intro!: yields_rules yields_next yields_bind[OF yields_exprs(1)] simp: wf_Stmt_def)

lemma yields_optLimit: "wf_Stmt s \<Longrightarrow> yields wf_Stmt p (optLimit s p)"
  unfolding optLimit_def
  by (auto intro!: yields_rules yields_next simp: wf_Stmt_def parse_digits_range parse_digits_in_int64
      split: option.splits)

lemma yields_optGroupBy: "wf_Stmt s \<Longrightarrow> yields wf_Stmt p (optGroupBy s p)"
  unfolding optGroupBy_def
  by (auto intro!: yields_rules yields_next yields_expectKw yields_bind[OF yields_groupBy_loop] simp: wf_Stmt_def)

lemma yields_optOrderBy: "wf_Stmt s \<Longrightarrow> yields wf_Stmt p (optOrderBy s p)"
  unfolding optOrderBy_def
  by (auto intro!: yields_rules yields_next yields_expectKw yields_bind[OF yields_field] simp: wf_Stmt_def)

lemmas yields_clauses = yields_bind[OF yields_fromClause] yields_bind[OF yields_optWhere]
  yields_bind[OF yields_optGroupBy] yields_bind[OF yields_optOrderBy]

lemma wf_zero_Stmt: "wf_Stmt (zero_Stmt\<lparr>stmt_Kind := k, stmt_Search := t\<rparr>)"
  "wf_Stmt (zero_Stmt\<lparr>stmt_Kind := k\<rparr>)"
  "list_all wf_SelectItem items \<Longrightarrow> wf_Stmt (zero_Stmt\<lparr>stmt_Kind := k, stmt_Select := items\<rparr>)"
  by (simp_all add: zero_Stmt_def wf_Stmt_def in_int64_0)

lemma yields_statement: "yields wf_Stmt p (statement p)"
  unfolding statement_def searchStmt_def selectStmt_def tailStmt_def selectList_def
  by (auto intro!: yields_rules yields_next yields_clauses yields_optLimit yields_optWhere
      yields_bind[OF yields_selectList_loop] wf_zero_Stmt)

lemma tok_ok_lex: "lex input = Ok toks \<Longrightarrow> list_all tok_ok toks"
  by (auto simp: lex_def wf_toks_def tok_ok_def wf_tok_def list_all_iff dest!: lex_loop_shape)

lemma Parse_wf:
  assumes "Parse input = Ok s"
  shows "wf_Stmt s"
proof -
  from assms obtain toks q where toks: "lex input = Ok toks"
    and st: "statement \<lparr>p_toks = toks, p_pos = 0\<rparr> = Ok (s, q)"
    by (auto simp: Parse_def outcome_simps split: if_splits)
  from tok_ok_lex[OF toks] yieldsD[OF yields_statement[of "\<lparr>p_toks = toks, p_pos = 0\<rparr>", unfolded st]]
  show ?thesis by simp
qed

section \<open>Properties\<close>

definition example_search :: string where
  "example_search = ''SEARCH '' @ squote # ''disk full'' @ squote # '' FROM logs WHERE body.node = '' @
     squote # ''n1'' @ squote # '' AND time > now() - 15m LIMIT 20''"

definition example_stmt :: Stmt where
  "example_stmt = zero_Stmt\<lparr>stmt_Kind := KindSearch, stmt_Search := ''disk full'', stmt_Table := ''logs'',
     stmt_Where := Some (Binary ''AND''
       (Comparison \<lparr>fld_Parts = [''body'', ''node'']\<rparr> ''='' (zero_Value\<lparr>val_Str := ''n1''\<rparr>))
       (Comparison \<lparr>fld_Parts = [''time'']\<rparr> ''>''
          (zero_Value\<lparr>val_Kind := ValTime, val_TimeSeconds := 900, val_TimeSub := True\<rparr>))),
     stmt_Limit := 20\<rparr>"

lemma example_search_parses: "Parse example_search = Ok example_stmt"
  by code_simp

text \<open>
  C37. Every statement \<open>Parse\<close> returns is well formed: its fields are non-empty paths of
  identifiers, its operators are the lexer's, its numbers are digit strings, its aggregates are
  known, and its limit and time offsets are \<open>int64\<close> values.
\<close>

theorem Parse_returns_wf:
  assumes "Parse input = Ok s"
  shows "wf_Stmt s"
  using assms by (rule Parse_wf)

theorem Parse_returns_wf_witness: "wf_Stmt example_stmt"
  using Parse_returns_wf[OF example_search_parses] .

text \<open>
  A time offset is computed in \<open>int64\<close> with no overflow check: a duration of about 292
  billion years in days is accepted and becomes a negative number of seconds, while a duration
  whose product fits is exact.
\<close>

theorem durationSeconds_days:
  assumes "0 \<le> n" and "n \<le> int64_max"
  shows "durationSeconds (show_digits n @ ''d'') = Ok (wrap64 (n * 86400)) \<and>
    (n * 86400 \<le> int64_max \<longrightarrow> durationSeconds (show_digits n @ ''d'') = Ok (n * 86400)) \<and>
    durationSeconds ''106751991167301d'' = Ok (- 9223372036854745216)"
proof -
  have "length (show_digits n) \<noteq> 0" by (simp add: show_digits_nonempty)
  then have "\<not> length (show_digits n @ ''d'') < 2" by (cases "show_digits n") simp_all
  then have "durationSeconds (show_digits n @ ''d'') = Ok (wrap64 (n * 86400))"
    using parse_show_digits[OF assms] by (simp add: durationSeconds_def)
  moreover have "n * 86400 \<le> int64_max \<Longrightarrow> wrap64 (n * 86400) = n * 86400"
    using assms(1) by (intro wrap64_id) (simp add: in_int64_def int64_max_def)
  moreover have "durationSeconds ''106751991167301d'' = Ok (- 9223372036854745216)" by code_simp
  ultimately show ?thesis by simp
qed

theorem durationSeconds_days_witness: "durationSeconds (show_digits 7 @ ''d'') = Ok 604800"
  using durationSeconds_days[of 7] by (simp add: int64_max_def wrap64_def)

end
