(* ===== verification/Sql_Scan.thy ===== *)
theory Sql_Scan
  imports LogQL_Lexer
begin

text \<open>
  The reading of SQL text on which the isolation properties rest: how ClickHouse delimits a
  single-quoted literal (a backslash escapes the next character) and how parentheses nest
  outside literals. A fragment is \<open>closed\<close> when a reader that enters it outside any literal
  leaves it outside any literal, at the same nesting depth, never below the depth it entered
  at, and when outside literals it holds only identifier characters and the few operators the
  compilers emit: no comment, no statement separator, no other quote. A closed fragment put
  between parentheses therefore cannot end the parenthesis it stands in.

  The interface of a quoting function is the locale \<open>literal_quoting\<close>; its instances are the
  quoting functions of the compilers.
\<close>

section \<open>The reader\<close>

datatype sql_state = Out nat | Dash nat | InStr nat | Esc nat | Bad

definition sql_plain :: "char \<Rightarrow> bool" where
  "sql_plain c \<longleftrightarrow> isIdentPart c \<or> c \<in> set '' ,=<>!+[]:.''"

definition sql_out :: "nat \<Rightarrow> char \<Rightarrow> sql_state" where
  "sql_out d c =
     (if c = squote then InStr d
      else if c = CHR ''('' then Out (Suc d)
      else if c = CHR '')'' then (case d of 0 \<Rightarrow> Bad | Suc d' \<Rightarrow> Out d')
      else if c = CHR ''-'' then Dash d
      else if sql_plain c then Out d
      else Bad)"

fun sql_step :: "sql_state \<Rightarrow> char \<Rightarrow> sql_state" where
  "sql_step (Out d) c = sql_out d c"
| "sql_step (Dash d) c = (if c = CHR ''-'' then Bad else sql_out d c)"
| "sql_step (InStr d) c = (if c = backslash then Esc d else if c = squote then Out d else InStr d)"
| "sql_step (Esc d) c = InStr d"
| "sql_step Bad c = Bad"

definition sql_run :: "sql_state \<Rightarrow> string \<Rightarrow> sql_state" where
  "sql_run = foldl sql_step"

lemma sql_run_simps [simp]:
  "sql_run st [] = st" "sql_run st (c # cs) = sql_run (sql_step st c) cs"
  "sql_run st (s @ t) = sql_run (sql_run st s) t"
  by (simp_all add: sql_run_def)

lemma sql_run_Bad [simp]: "sql_run Bad s = Bad"
  by (induction s) simp_all

definition closed :: "string \<Rightarrow> bool" where
  "closed s \<longleftrightarrow> (\<forall>d. sql_run (Out d) s = Out d)"

lemma closedD: "closed s \<Longrightarrow> sql_run (Out d) s = Out d"
  by (simp add: closed_def)

lemma closed_Nil [simp, closed_intros]: "closed []"
  by (simp add: closed_def)

lemma closed_append [closed_intros]: "closed s \<Longrightarrow> closed t \<Longrightarrow> closed (s @ t)"
  by (simp add: closed_def)

lemma closed_paren [closed_intros]: "closed s \<Longrightarrow> closed (''('' @ s @ '')'')"
  by (simp add: closed_def sql_out_def)

lemma sql_out_plain: "sql_plain c \<Longrightarrow> sql_out d c = Out d"
  by (auto simp: sql_out_def sql_plain_def isIdentPart_def isIdentStart_def isDigit_def between_def)

lemma closed_plain: "list_all sql_plain s \<Longrightarrow> closed s"
  unfolding closed_def by (induction s) (auto simp: sql_out_plain)

lemma ident_plain: "list_all isIdentPart s \<Longrightarrow> list_all sql_plain s"
  by (auto simp: list_all_iff sql_plain_def)

lemma wf_ident_closed [closed_intros]: "wf_ident s \<Longrightarrow> closed s"
  by (simp add: wf_ident_def ident_plain closed_plain)

lemma digits_closed: "list_all isDigit s \<Longrightarrow> closed s"
  by (rule closed_plain) (auto simp: list_all_iff sql_plain_def isIdentPart_def)

lemma op_closed [closed_intros]: "op \<in> set lex_ops \<Longrightarrow> closed op"
  by (rule closed_plain) (auto simp: lex_ops_def sql_plain_def)

lemma closed_Join [closed_intros]: "closed sep \<Longrightarrow> list_all closed xs \<Longrightarrow> closed (Join xs sep)"
  by (induction xs sep rule: Join.induct) (auto intro: closed_append)

lemma closed_show_int [closed_intros]: "closed (show_int n)"
proof -
  have pos: "sql_run (Out d) (show_digits k) = Out d" if "0 \<le> k" for d k
    using digits_closed[OF show_digits_digits[OF that]] by (rule closedD)
  have "sql_run (Dash d) (show_digits k) = Out d" if "0 \<le> k" for d k
  proof -
    from show_digits_nonempty obtain c cs where c: "show_digits k = c # cs" by (meson neq_Nil_conv)
    with show_digits_digits[OF that] have "isDigit c" by simp
    then have "c \<noteq> CHR ''-''" by (auto simp: isDigit_def between_def)
    with pos[OF that, of d] c show ?thesis by simp
  qed
  with pos show ?thesis by (auto simp: closed_def show_int_def sql_out_def)
qed

section \<open>String literals\<close>

lemma sql_run_escape: "sql_run (InStr d) (escape s) = InStr d"
  by (induction s) (auto simp: escape_char_def)

lemma closed_escaped [closed_intros]: "closed (squote # escape s @ [squote])"
  by (simp add: closed_def sql_out_def sql_run_escape)

text \<open>Reading one literal: its value and the text behind it, \<open>None\<close> if it does not end.\<close>

fun read_body :: "string \<Rightarrow> (string \<times> string) option" where
  "read_body [] = None"
| "read_body (c # cs) =
     (if c = squote then Some ([], cs)
      else if c = backslash then
        (case cs of [] \<Rightarrow> None | d # ds \<Rightarrow> map_option (\<lambda>(v, r). (d # v, r)) (read_body ds))
      else map_option (\<lambda>(v, r). (c # v, r)) (read_body cs))"

definition read_literal :: "string \<Rightarrow> (string \<times> string) option" where
  "read_literal s = (case s of [] \<Rightarrow> None | c # cs \<Rightarrow> if c = squote then read_body cs else None)"

lemma read_body_escape: "read_body (escape s @ squote # r) = Some (s, r)"
  by (induction s) (auto simp: escape_char_def)

locale literal_quoting =
  fixes quo :: "string \<Rightarrow> string"
  assumes reads_back: "read_literal (quo s @ r) = Some (s, r)"
begin

lemma injective: "quo s = quo t \<Longrightarrow> s = t"
  using reads_back[of s "[]"] reads_back[of t "[]"] by simp

lemma prefix_free:
  assumes "quo s @ r = quo t @ r'"
  shows "s = t \<and> r = r'"
proof -
  have "Some (s, r) = read_literal (quo t @ r')" unfolding assms[symmetric] by (simp only: reads_back)
  then show ?thesis by (simp only: reads_back option.inject prod.inject)
qed

lemma starts_with_quote: "\<exists>u. quo s = squote # u"
proof (cases "quo s")
  case Nil
  from reads_back[of s "[CHR ''x'']"] Nil show ?thesis by (simp add: read_literal_def)
next
  case (Cons c cs)
  with reads_back[of s "[]"] show ?thesis by (simp add: read_literal_def split: if_splits)
qed

end

end
