(* ===== verification/LogQL_Isolation.thy ===== *)
theory LogQL_Isolation
  imports LogQL_Compiler LogQL_Wellformed Sql_Scan
begin

text \<open>
  The safety of the SQL the LogQL++ compiler emits: every fragment that depends on user input
  is a mapped field, an aggregate of one, or a closed predicate between parentheses, so the
  forced tenant guard stays the first conjunct of the WHERE clause. Also the limit clamp, the
  tokens of a SEARCH phrase, and that compilation never panics.
\<close>

section \<open>Quoting\<close>

lemma quote_escape: "quote s = squote # escape s @ [squote]"
  by (simp add: quote_def Let_def ReplaceAll_escape)

lemma quote_closed [closed_intros]: "closed (quote s)"
  unfolding quote_escape by (rule closed_escaped)

interpretation lq: literal_quoting quote
  by unfold_locales (simp add: quote_escape read_literal_def read_body_escape)

section \<open>Shapes of the emitted fragments\<close>

definition sql_field :: "compiler \<Rightarrow> string \<Rightarrow> bool" where
  "sql_field c e \<longleftrightarrow> e = ''timestamp'' \<or> e = ''tenant_id'' \<or> e \<in> set (columns c) \<or> e \<in> set authColumns \<or>
     (\<exists>ks. e = jsonExtract ''body'' ks) \<or> (\<exists>ks. e = jsonExtract ''resource'' ks) \<or>
     (\<exists>ks. e = jsonExtract ''attributes'' ks) \<or>
     (\<exists>k. e = ''attributes['' @ quote k @ '']'')"

definition sql_item :: "compiler \<Rightarrow> string \<Rightarrow> bool" where
  "sql_item c e \<longleftrightarrow> e \<in> set (defaultProjection (cc_table c)) \<or>
     (\<exists>alias. wf_ident alias \<and> (e = ''count() AS '' @ alias \<or>
        (\<exists>f. sql_field c f \<and> (e = f @ '' AS '' @ alias \<or>
           (\<exists>agg. isAgg agg \<and> e = agg @ ''('' @ f @ '') AS '' @ alias)))))"

definition group_sql :: "string list \<Rightarrow> string" where
  "group_sql gs = (if gs = [] then [] else '' GROUP BY '' @ Join gs '', '')"

definition order_sql :: "(string \<times> bool) option \<Rightarrow> string" where
  "order_sql ob = (case ob of None \<Rightarrow> [] | Some (e, desc) \<Rightarrow> '' ORDER BY '' @ e @ '' '' @ (if desc then ''DESC'' else ''ASC''))"

definition select_sql :: "string list \<Rightarrow> string \<Rightarrow> string \<Rightarrow> string list \<Rightarrow> string list \<Rightarrow> (string \<times> bool) option \<Rightarrow> int \<Rightarrow> string" where
  "select_sql items table tenant filters gs ob n =
     ''SELECT '' @ Join items '', '' @ '' FROM '' @ table @ '' WHERE tenant_id = '' @ quote tenant @
     concat (map (\<lambda>f. '' AND ('' @ f @ '')'') filters) @ group_sql gs @ order_sql ob @ '' LIMIT '' @ show_int n"

lemma sql_field_intros:
  "sql_field c ''timestamp''" "sql_field c ''tenant_id''"
  "e \<in> set (columns c) \<Longrightarrow> sql_field c e" "e \<in> set authColumns \<Longrightarrow> sql_field c e"
  "sql_field c (jsonExtract ''body'' ks)" "sql_field c (jsonExtract ''resource'' ks)"
  "sql_field c (jsonExtract ''attributes'' ks)" "sql_field c (''attributes['' @ quote k @ '']'')"
  unfolding sql_field_def by iprover+

lemma mapField1_shape: "mapField1 c p = Ok (e, l) \<Longrightarrow> sql_field c e"
  unfolding mapField1_def Let_def by (auto intro: sql_field_intros split: if_split_asm)

lemma mapField_attr_shape: "mapField_attr c ps = Ok (e, l) \<Longrightarrow> sql_field c e"
  unfolding mapField_attr_def using sql_field_intros(7,8) by (auto split: if_split_asm)

lemma mapField_auth_shape: "mapField_auth c ps = Ok (e, l) \<Longrightarrow> sql_field c e"
  unfolding mapField_auth_def Let_def by (auto intro: sql_field_intros(4) split: if_split_asm)

lemma mapField_shape:
  assumes "mapField c f = Ok (e, l)"
  shows "sql_field c e"
proof (cases "fld_Parts f")
  case (Cons p ps)
  show ?thesis
  proof (cases ps)
    case Nil
    with assms Cons show ?thesis by (simp add: mapField_def mapField1_shape)
  next
    case (Cons q qs)
    with assms \<open>fld_Parts f = p # ps\<close> show ?thesis
      by (simp add: mapField_def Let_def)
         (fastforce intro: sql_field_intros mapField_attr_shape mapField_auth_shape split: if_split_asm)
  qed
qed (use assms in \<open>simp add: mapField_def\<close>)

lemma columns_plain: "list_all (list_all sql_plain) (columns c)"
  by (simp add: columns_def authColumns_def metricsColumns_def tracesColumns_def changeColumns_def
      logsColumns_def sql_plain_def isIdentPart_def isIdentStart_def isDigit_def between_def)

lemma authColumns_plain: "list_all (list_all sql_plain) authColumns"
  by (simp add: authColumns_def sql_plain_def isIdentPart_def isIdentStart_def isDigit_def between_def)

lemmas scan_simps = sql_out_def sql_plain_def isIdentPart_def isIdentStart_def isDigit_def between_def

lemma literal_closed:
  "closed ''timestamp''" "closed ''tenant_id''" "closed '', ''" "closed '' AS ''" "closed ''count() AS ''"
  "closed ''JSONExtractString''" "closed ''body''" "closed ''resource''" "closed ''attributes''"
  "closed ''attributes[''" "closed '']''" "closed '' GROUP BY ''" "closed '' ORDER BY ''" "closed '' ''"
  "closed ''DESC''" "closed ''ASC''" "closed ''SELECT ''" "closed '' FROM ''" "closed '' WHERE tenant_id = ''"
  "closed '' LIMIT ''" "closed '' AND ''" "closed ''now()''" "closed ''now() ''" "closed '' INTERVAL ''"
  "closed '' SECOND''" "closed ''AND''" "closed ''OR''" "closed ''indexOf''" "closed ''tenant_id = ''"
  "closed ''hasTokenCaseInsensitive''" "closed ''message, ''" "closed ''+''"
  by (simp_all add: closed_def scan_simps)

lemma levelArr_closed: "closed levelArr"
  by (simp add: levelArr_def quoted_names_def closed_def sql_out_def sql_plain_def)

section \<open>Closedness of fields and predicates\<close>

lemma jsonExtract_closed:
  assumes "closed col" shows "closed (jsonExtract col ks)"
proof -
  have "list_all closed (map quote ks)" by (simp add: list_all_iff quote_closed)
  then have "closed (Join (map quote ks) '', '')" by (intro closed_Join literal_closed)
  with assms show ?thesis unfolding jsonExtract_def closed_def by (simp add: scan_simps)
qed

lemma column_closed: "e \<in> set (columns c) \<Longrightarrow> closed e" "e \<in> set authColumns \<Longrightarrow> closed e"
  using columns_plain[of c] authColumns_plain by (auto simp only: list_all_iff intro!: closed_plain)

lemma sql_field_closed: "sql_field c e \<Longrightarrow> closed e"
  unfolding sql_field_def
  by (elim disjE exE, simp_all only: column_closed jsonExtract_closed literal_closed closed_append quote_closed)

lemmas mapField_closed = mapField_shape[THEN sql_field_closed]

lemma compileValue_closed:
  assumes "wf_Value v" and "compileValue v = Ok s"
  shows "closed s"
proof (cases "val_Kind v")
  case ValString
  with assms(2) show ?thesis by (auto simp: compileValue_def quote_closed)
next
  case ValNumber
  with assms show ?thesis by (auto simp: compileValue_def wf_Value_def wf_number_def digits_closed)
next
  case ValTime
  have "sql_run (Out d) (show_int (val_TimeSeconds v)) = Out d" for d by (rule closedD[OF closed_show_int])
  with ValTime assms(2) show ?thesis
    unfolding closed_def by (auto simp: compileValue_def scan_simps split: if_split_asm)
qed

lemma isOrdering_ops: "isOrdering op \<Longrightarrow> op \<in> set lex_ops"
  by (auto simp: isOrdering_def lex_ops_def)

lemma tenant_guard_closed: "closed (tenant_guard t)"
  unfolding tenant_guard_def by (intro closed_append literal_closed quote_closed)

lemma compileComparison_closed:
  assumes op: "op \<in> set lex_ops" and v: "wf_Value v" and ok: "compileComparison c f op v = Ok s"
  shows "closed s"
proof (cases "is_tenant_field f")
  case True
  with ok show ?thesis by (auto simp: compileComparison_def tenant_guard_closed)
next
  case False
  with ok obtain lhs l where m: "mapField c f = Ok (lhs, l)" and
    s: "(if l \<and> val_Kind v = ValString \<and> isOrdering op
         then Ok (''indexOf('' @ levelArr @ '', '' @ lhs @ '') '' @ op @ '' indexOf('' @ levelArr @ '', '' @ quote (val_Str v) @ '')'')
         else bindO (compileValue v) (\<lambda>rhs. Ok (lhs @ '' '' @ op @ '' '' @ rhs))) = Ok s"
    by (auto simp: compileComparison_def outcome_simps)
  note run = closedD[OF mapField_closed[OF m]] closedD[OF op_closed[OF op]] closedD[OF levelArr_closed]
    closedD[OF quote_closed]
  have "closed (''indexOf('' @ levelArr @ '', '' @ lhs @ '') '' @ op @ '' indexOf('' @ levelArr @ '', '' @ quote (val_Str v) @ '')'')"
    unfolding closed_def by (simp add: run scan_simps)
  moreover have "closed (lhs @ '' '' @ op @ '' '' @ rhs)" if "compileValue v = Ok rhs" for rhs
    unfolding closed_def by (simp add: run closedD[OF compileValue_closed[OF v that]] scan_simps)
  ultimately show ?thesis using s by (auto simp: outcome_simps split: if_split_asm)
qed

lemma compileExpr_closed: "wf_Expr e \<Longrightarrow> compileExpr c e = Ok s \<Longrightarrow> closed s"
proof (induction e arbitrary: s)
  case (Binary op l r)
  then obtain l' r' where s: "s = ''('' @ (l' @ '' '' @ op @ '' '' @ r') @ '')''" and "closed l'" "closed r'"
    by (auto simp: outcome_simps)
  moreover have "closed op" using Binary.prems(1) by (auto simp: literal_closed)
  ultimately show ?case unfolding s by (intro closed_paren closed_append literal_closed)
next
  case (Paren e)
  then obtain i where s: "s = ''('' @ i @ '')''" and "closed i" by (auto simp: outcome_simps)
  then show ?case unfolding s by (intro closed_paren)
next
  case (Comparison f op v)
  then show ?case by (auto intro: compileComparison_closed)
qed

lemma searchPredicate_closed: "closed (searchPredicate phrase)"
proof -
  have "closed (''hasTokenCaseInsensitive(message, '' @ quote t @ '')'')" for t
    unfolding closed_def by (simp add: closedD[OF quote_closed] scan_simps)
  then have "list_all closed (map (\<lambda>t. ''hasTokenCaseInsensitive(message, '' @ quote t @ '')'') ts)" for ts
    by (simp add: list_all_iff)
  then show ?thesis by (simp add: searchPredicate_def Let_def closed_Join literal_closed)
qed

section \<open>Statements\<close>

definition where_sql :: "string \<Rightarrow> string list \<Rightarrow> string" where
  "where_sql t fs = ''tenant_id = '' @ quote t @ concat (map (\<lambda>f. '' AND ('' @ f @ '')'') fs)"

lemma whereSQL_shape:
  assumes "pred_option wf_Expr (stmt_Where s)" and "whereSQL c s = Ok w"
  shows "\<exists>fs. list_all closed fs \<and> w = where_sql (cc_tenant c) fs"
proof -
  define us where "us = (if stmt_Kind s = KindSearch \<and> searchPredicate (stmt_Search s) \<noteq> []
    then [searchPredicate (stmt_Search s)] else [])"
  have us: "list_all closed us" by (simp add: us_def searchPredicate_closed)
  have guard: "tenant_guard t = ''tenant_id = '' @ quote t" for t by (rule tenant_guard_def)
  show ?thesis
  proof (cases "stmt_Where s")
    case None
    with assms(2) have "w = where_sql (cc_tenant c) us"
      by (auto simp: whereSQL_def us_def where_sql_def guard Let_def split: if_split_asm)
    with us show ?thesis by blast
  next
    case (Some e)
    with assms(2) obtain x where x: "compileExpr c e = Ok x" and "w = where_sql (cc_tenant c) (x # us)"
      by (auto simp: whereSQL_def us_def where_sql_def guard Let_def outcome_simps split: if_split_asm)
    moreover have "closed x" using compileExpr_closed[OF _ x] assms(1) Some by simp
    ultimately show ?thesis using us by (intro exI[of _ "x # us"]) simp
  qed
qed

lemma groupBySQL_shape: "groupBySQL c gs = Ok s \<Longrightarrow> \<exists>es. list_all (sql_field c) es \<and> s = group_sql es"
proof (cases "gs = []")
  case False
  assume "groupBySQL c gs = Ok s"
  with False obtain es where es: "mapO (\<lambda>f. bindO (mapField c f) (\<lambda>(e, _). Ok e)) gs = Ok es"
    and s: "s = '' GROUP BY '' @ Join es '', ''" by (auto simp: groupBySQL_def outcome_simps)
  from es have l: "list_all2 (\<lambda>f e. \<exists>l. mapField c f = Ok (e, l)) gs es"
    by (auto simp: mapO_Ok_iff outcome_simps elim!: list_all2_mono)
  then have "list_all (sql_field c) es" by (induction rule: list_all2_induct) (auto intro: mapField_shape)
  moreover from l False have "es \<noteq> []" by auto
  ultimately show ?thesis using s by (auto simp: group_sql_def)
qed (auto simp: groupBySQL_def group_sql_def)

lemma orderBySQL_shape: "orderBySQL c ob = Ok s \<Longrightarrow>
  \<exists>o'. pred_option (\<lambda>(e, _). sql_field c e) o' \<and> s = order_sql o'"
proof (cases ob)
  case None
  then show "orderBySQL c ob = Ok s \<Longrightarrow> ?thesis" by (intro exI[of _ None]) (simp add: orderBySQL_def order_sql_def)
next
  case (Some oi)
  assume "orderBySQL c ob = Ok s"
  with Some obtain e l where "mapField c (ord_Field oi) = Ok (e, l)" "s = order_sql (Some (e, ord_Desc oi))"
    by (auto simp: orderBySQL_def order_sql_def outcome_simps)
  then show ?thesis by (intro exI[of _ "Some (e, ord_Desc oi)"]) (simp add: mapField_shape)
qed

lemma isAgg_ident: "isAgg agg \<Longrightarrow> list_all isIdentPart agg \<and> isIdentStart (hd agg) \<and> agg \<noteq> []"
  by (auto simp: isAgg_def scan_simps)

lemma wf_ident_default: "isAgg agg \<Longrightarrow> wf_ident p \<Longrightarrow> wf_ident (agg @ ''_'' @ p)"
  using isAgg_ident[of agg] by (auto simp: wf_ident_def isIdentPart_def isIdentStart_def)

lemma wf_Field_last: "wf_Field f \<Longrightarrow> last_part f = Ok lp \<Longrightarrow> wf_ident lp"
  by (auto simp: wf_Field_def last_part_def list_all_iff)

lemma sql_item_agg: "wf_ident al \<Longrightarrow> sql_field c f \<Longrightarrow> isAgg agg \<Longrightarrow>
  sql_item c ((agg @ ''('' @ f @ '')'') @ '' AS '' @ al)"
  unfolding sql_item_def append_assoc by auto

lemma sql_item_plain: "wf_ident al \<Longrightarrow> sql_field c f \<Longrightarrow> sql_item c (f @ '' AS '' @ al)"
  unfolding sql_item_def by auto

lemma compileSelectItem_shape:
  assumes "wf_SelectItem it" and "\<not> (sel_Star it \<and> sel_Agg it = [])" and "compileSelectItem c it = Ok (e, alias)"
  shows "wf_ident alias \<and> sql_item c (e @ '' AS '' @ alias)"
proof -
  have count: "wf_ident ''count''" by (simp add: wf_ident_def scan_simps)
  have al: "wf_ident d \<Longrightarrow> wf_ident (aliasOr (sel_Alias it) d)" for d
    using assms(1) by (auto simp: wf_SelectItem_def aliasOr_def)
  consider (star) "sel_Agg it \<noteq> []" "sel_Star it" | (agg) "sel_Agg it \<noteq> []" "\<not> sel_Star it"
    | (plain) "sel_Agg it = []" "\<not> sel_Star it" using assms(2) by blast
  then show ?thesis
  proof cases
    case star
    with assms(3) al[OF count] show ?thesis by (auto simp: compileSelectItem_def sql_item_def split: if_split_asm)
  next
    case agg
    with assms(3) obtain f l lp where *: "mapField c (sel_Field it) = Ok (f, l)" "last_part (sel_Field it) = Ok lp"
      "e = sel_Agg it @ ''('' @ f @ '')''" "alias = aliasOr (sel_Alias it) (sel_Agg it @ ''_'' @ lp)"
      by (auto simp: compileSelectItem_def outcome_simps)
    moreover have "isAgg (sel_Agg it)" "wf_Field (sel_Field it)" using assms(1) agg by (auto simp: wf_SelectItem_def)
    ultimately show ?thesis
      using al[OF wf_ident_default[of "sel_Agg it" lp]] wf_Field_last[of "sel_Field it" lp]
      by (simp only:) (blast intro: sql_item_agg mapField_shape)
  next
    case plain
    with assms(3) obtain l lp where "mapField c (sel_Field it) = Ok (e, l)" "last_part (sel_Field it) = Ok lp"
      "alias = aliasOr (sel_Alias it) lp"
      by (auto simp: compileSelectItem_def outcome_simps)
    moreover have "wf_Field (sel_Field it)" using assms(1) plain by (auto simp: wf_SelectItem_def)
    ultimately show ?thesis
      using al[of lp] wf_Field_last[of "sel_Field it" lp] by (blast intro: sql_item_plain mapField_shape)
  qed
qed

lemma selectCols_shape:
  assumes "wf_SelectItem it" and "selectCols c it = Ok cs"
  shows "list_all (sql_item c) (map fst cs)"
proof (cases "sel_Star it \<and> sel_Agg it = []")
  case True
  with assms(2) show ?thesis by (auto simp: selectCols_def list_all_iff sql_item_def)
next
  case False
  with assms(2) obtain e al where "compileSelectItem c it = Ok (e, al)" "cs = [(e @ '' AS '' @ al, al)]"
    by (auto simp: selectCols_def outcome_simps split: if_split_asm)
  with compileSelectItem_shape[OF assms(1) False] show ?thesis by simp
qed

lemma selectList_shape:
  assumes "list_all wf_SelectItem items" and "mapO (selectCols c) items = Ok css"
  shows "list_all (sql_item c) (map fst (concat css))"
proof -
  from assms(2) have "list_all2 (\<lambda>it cs. selectCols c it = Ok cs) items css" by (simp add: mapO_Ok_iff)
  from this assms(1) show ?thesis
    by (induction rule: list_all2_induct) (auto dest: selectCols_shape)
qed

text \<open>The parts of an emitted statement: what each of them may be.\<close>

definition guarded_sql :: "string \<Rightarrow> string \<Rightarrow> bool" where
  "guarded_sql tenant sql \<longleftrightarrow> (\<exists>c items filters gs ob n. cc_tenant c = tenant \<and> cc_table c \<in> set tables \<and>
     sql = select_sql items (cc_table c) tenant filters gs ob n \<and>
     list_all (sql_item c) items \<and> items \<noteq> [] \<and> list_all closed filters \<and> list_all (sql_field c) gs \<and>
     pred_option (\<lambda>(e, _). sql_field c e) ob)"

lemma guarded_sqlI:
  assumes "cc_table c \<in> set tables" "list_all (sql_item c) items" "items \<noteq> []" "list_all closed filters"
    "list_all (sql_field c) gs" "pred_option (\<lambda>(e, _). sql_field c e) ob"
  shows "guarded_sql (cc_tenant c) (select_sql items (cc_table c) (cc_tenant c) filters gs ob n)"
  unfolding guarded_sql_def using assms by blast

lemma compileSelect_guarded:
  assumes "wf_Stmt s" and "cc_table c \<in> set tables" and "compileSelect c s opts = Ok r"
  shows "guarded_sql (cc_tenant c) (c_SQL r)"
proof -
  from assms(3) obtain css wh gb ob where
    css: "mapO (selectCols c) (stmt_Select s) = Ok css" "map fst (concat css) \<noteq> []"
    and wh: "whereSQL c s = Ok wh" and gb: "groupBySQL c (stmt_GroupBy s) = Ok gb"
    and ob: "orderBySQL c (stmt_OrderBy s) = Ok ob"
    and r: "c_SQL r = ''SELECT '' @ Join (map fst (concat css)) '', '' @ '' FROM '' @ cc_table c @ '' WHERE '' @ wh @ gb @ ob @
             '' LIMIT '' @ show_int (limit s opts)"
    by (auto simp: compileSelect_def outcome_simps Let_def simp del: map_concat concat_eq_Nil_conv split: if_split_asm)
  from assms(1) have wf: "list_all wf_SelectItem (stmt_Select s)" "pred_option wf_Expr (stmt_Where s)"
    by (simp_all add: wf_Stmt_def)
  from whereSQL_shape[OF wf(2) wh] obtain fs where fs: "list_all closed fs" "wh = where_sql (cc_tenant c) fs" by blast
  from groupBySQL_shape[OF gb] obtain es where es: "list_all (sql_field c) es" "gb = group_sql es" by blast
  from orderBySQL_shape[OF ob] obtain o' where o': "pred_option (\<lambda>(e, _). sql_field c e) o'" "ob = order_sql o'" by blast
  have "c_SQL r = select_sql (map fst (concat css)) (cc_table c) (cc_tenant c) fs es o' (limit s opts)"
    unfolding r select_sql_def fs(2) es(2) o'(2) where_sql_def by simp
  then show ?thesis
    using guarded_sqlI[OF assms(2) selectList_shape[OF wf(1) css(1)] css(2) fs(1) es(1) o'(1)] by simp
qed

lemma timestamp_columns: "''timestamp'' \<in> set (columns c)"
  by (simp add: columns_def authColumns_def metricsColumns_def tracesColumns_def changeColumns_def logsColumns_def)

lemma compileSearch_guarded:
  assumes "wf_Stmt s" and "cc_table c \<in> set tables" and "compileSearch c s opts = Ok r"
  shows "guarded_sql (cc_tenant c) (c_SQL r)"
proof -
  from assms(3) obtain wh where wh: "whereSQL c s = Ok wh" and
    r: "c_SQL r = ''SELECT '' @ Join (defaultProjection (cc_table c)) '', '' @ '' FROM '' @ cc_table c @ '' WHERE '' @ wh @
              '' ORDER BY timestamp DESC LIMIT '' @ show_int (limit s opts)"
    by (auto simp: compileSearch_def outcome_simps Let_def split: if_split_asm)
  from assms(1) have "pred_option wf_Expr (stmt_Where s)" by (simp add: wf_Stmt_def)
  from whereSQL_shape[OF this wh] obtain fs where fs: "list_all closed fs" "wh = where_sql (cc_tenant c) fs" by blast
  have items: "list_all (sql_item c) (defaultProjection (cc_table c))" "defaultProjection (cc_table c) \<noteq> []"
    by (simp_all add: list_all_iff sql_item_def) (simp add: defaultProjection_def)
  have "c_SQL r = select_sql (defaultProjection (cc_table c)) (cc_table c) (cc_tenant c) fs [] (Some (''timestamp'', True)) (limit s opts)"
    unfolding r select_sql_def fs(2) where_sql_def group_sql_def order_sql_def by simp
  moreover have "pred_option (\<lambda>(e, _). sql_field c e) (Some (''timestamp'', True))" by (simp add: sql_field_intros)
  ultimately show ?thesis using guarded_sqlI[OF assms(2) items fs(1), of "[]"] by simp
qed

lemma Compile_guarded: "Compile input tenantID opts = Ok r \<Longrightarrow> guarded_sql tenantID (c_SQL r)"
  using compileSelect_guarded[of _ "\<lparr>cc_tenant = tenantID, cc_table = _\<rparr>"]
    compileSearch_guarded[of _ "\<lparr>cc_tenant = tenantID, cc_table = _\<rparr>"]
  by (auto simp: Compile_def outcome_simps Let_def dest!: Parse_wf split: if_split_asm Kind.splits)

lemma item_closed: 
  assumes "sql_item c e" shows "closed e"
proof -
  have default: "list_all (list_all sql_plain) (defaultProjection (cc_table c))"
    by (simp add: defaultProjection_def sql_plain_def isIdentPart_def isIdentStart_def between_def)
  have agg: "isAgg agg \<Longrightarrow> sql_run (Out d) agg = Out d" for agg d
    using closedD[OF closed_plain[OF ident_plain]] isAgg_ident by blast
  have run: "wf_ident al \<Longrightarrow> sql_run (Out d) al = Out d" "sql_field c f \<Longrightarrow> sql_run (Out d) f = Out d" for al f d
    by (auto intro: closedD wf_ident_closed sql_field_closed)
  have "closed e" if "e \<in> set (defaultProjection (cc_table c))"
    using that default by (auto simp only: list_all_iff intro!: closed_plain)
  moreover have "closed (''count() AS '' @ al)" "sql_field c f \<Longrightarrow> closed (f @ '' AS '' @ al)"
    "sql_field c f \<Longrightarrow> isAgg ag \<Longrightarrow> closed (ag @ ''('' @ f @ '') AS '' @ al)" if "wf_ident al" for al f ag
    using that by (auto simp: closed_def run agg scan_simps)
  ultimately show ?thesis using assms unfolding sql_item_def by blast
qed

lemma guarded_sql_closed:
  assumes "guarded_sql tenant sql" shows "closed sql"
proof -
  from assms obtain c items filters gs ob n where t: "cc_table c \<in> set tables" and
    sql: "sql = select_sql items (cc_table c) tenant filters gs ob n" and
    parts: "list_all (sql_item c) items" "list_all closed filters" "list_all (sql_field c) gs"
     "pred_option (\<lambda>(e, _). sql_field c e) ob" unfolding guarded_sql_def by blast
  have "closed (cc_table c)" using t by (auto simp: tables_def closed_def scan_simps)
  moreover have "closed (Join items '', '')"
    using item_closed parts(1) by (intro closed_Join literal_closed) (metis list_all_iff)
  moreover have "closed (concat (map (\<lambda>f. '' AND ('' @ f @ '')'') filters))"
    using parts(2) by (induction filters) (auto simp: closed_def scan_simps)
  moreover have "closed (group_sql gs)"
  proof -
    have "closed (Join gs '', '')"
      using sql_field_closed parts(3) by (intro closed_Join literal_closed) (metis list_all_iff)
    then show ?thesis by (auto simp only: group_sql_def closed_append literal_closed closed_Nil split: if_split)
  qed
  moreover have "closed (order_sql ob)" using parts(4) sql_field_closed[of c]
    by (cases ob) (auto simp only: order_sql_def closed_append literal_closed closed_Nil option.case option.pred_inject split: prod.split if_split)
  ultimately show ?thesis
    unfolding sql select_sql_def by (intro closed_append literal_closed quote_closed closed_show_int)
qed

section \<open>No panic\<close>

lemma last_part_no_panic: "wf_Field f \<Longrightarrow> last_part f \<noteq> Panic"
  by (simp add: last_part_def wf_Field_def)

lemma mapField_no_panic: "wf_Field f \<Longrightarrow> mapField c f \<noteq> Panic"
  by (auto simp: mapField_def mapField1_def mapField_attr_def mapField_auth_def wf_Field_def Let_def split: list.split)

lemma compileValue_no_panic: "compileValue v \<noteq> Panic"
  by (simp add: compileValue_def split: ValueKind.split)

lemma compileExpr_no_panic: "wf_Expr e \<Longrightarrow> compileExpr c e \<noteq> Panic"
proof (induction e)
  case (Comparison f op v)
  then show ?case using mapField_no_panic[of f c] compileValue_no_panic[of v]
    by (auto simp: compileComparison_def outcome_simps split: if_split_asm)
qed (auto simp: outcome_simps)

lemma whereSQL_no_panic: "pred_option wf_Expr (stmt_Where s) \<Longrightarrow> whereSQL c s \<noteq> Panic"
  unfolding whereSQL_def Let_def using compileExpr_no_panic[of _ c]
  by (auto simp: outcome_simps split: option.split)

lemma selectCols_no_panic: "wf_SelectItem it \<Longrightarrow> selectCols c it \<noteq> Panic"
  unfolding selectCols_def compileSelectItem_def
  by (auto simp: outcome_simps wf_SelectItem_def mapField_no_panic last_part_no_panic)

lemma groupBySQL_no_panic: "list_all wf_Field gs \<Longrightarrow> groupBySQL c gs \<noteq> Panic"
  using mapO_no_panic[of gs "\<lambda>f. bindO (mapField c f) (\<lambda>(e, _). Ok e)"]
  by (auto simp: groupBySQL_def outcome_simps mapField_no_panic list_all_iff)

lemma orderBySQL_no_panic: "pred_option (\<lambda>oi. wf_Field (ord_Field oi)) ob \<Longrightarrow> orderBySQL c ob \<noteq> Panic"
  by (auto simp: orderBySQL_def outcome_simps mapField_no_panic split: option.split)

lemma compileSelect_no_panic: "wf_Stmt s \<Longrightarrow> compileSelect c s opts \<noteq> Panic"
  unfolding compileSelect_def Let_def wf_Stmt_def
  using mapO_no_panic[of "stmt_Select s" "selectCols c"] selectCols_no_panic[of _ c]
  by (auto simp: outcome_simps whereSQL_no_panic groupBySQL_no_panic orderBySQL_no_panic list_all_iff
      simp del: map_concat concat_eq_Nil_conv split: if_split_asm)

lemma compileSearch_no_panic: "wf_Stmt s \<Longrightarrow> compileSearch c s opts \<noteq> Panic"
  unfolding compileSearch_def Let_def wf_Stmt_def by (auto simp: outcome_simps whereSQL_no_panic split: if_split_asm)

section \<open>Tokens of a SEARCH phrase\<close>

lemma search_tokens_spec:
  "list_all isAlnum word \<Longrightarrow> concat (search_tokens phrase word toks) = concat toks @ word @ filter isAlnum phrase"
  by (induction phrase word toks rule: search_tokens.induct) (auto simp: flush_def)

lemma search_tokens_alnum:
  "list_all isAlnum word \<Longrightarrow> list_all (\<lambda>t. t \<noteq> [] \<and> list_all isAlnum t) toks \<Longrightarrow>
   list_all (\<lambda>t. t \<noteq> [] \<and> list_all isAlnum t) (search_tokens phrase word toks)"
  by (induction phrase word toks rule: search_tokens.induct) (auto simp: flush_def)

section \<open>Properties\<close>

definition default_opts :: Options where
  "default_opts = \<lparr>opt_DefaultLimit = 100, opt_MaxLimit = 1000\<rparr>"

definition example_query :: string where
  "example_query = ''SELECT service, count(*) AS n FROM logs WHERE tenant_id = '' @ quote ''victim'' @
     '' OR level >= '' @ quote ''warn'' @ '' GROUP BY service ORDER BY time DESC LIMIT 5''"

definition example_sql :: string where
  "example_sql = ''SELECT service AS service, count() AS n FROM logs WHERE tenant_id = '' @ quote ''acme'' @
     '' AND ((tenant_id = '' @ quote ''acme'' @ '' OR indexOf('' @ levelArr @ '', level) >= indexOf('' @ levelArr @ '', '' @
     quote ''warn'' @ ''))) GROUP BY service ORDER BY timestamp DESC LIMIT 5''"

lemma example_compiles:
  "Compile example_query ''acme'' default_opts =
     Ok \<lparr>c_SQL = example_sql, c_Columns = [''service'', ''n''], c_Kind = KindSelect\<rparr>"
  by code_simp

text \<open>
  C2. Tenant isolation of compiled queries: for every input text, every SQL statement \<open>Compile\<close>
  returns is a single SELECT over one of the five known tables whose projection, grouping and
  ordering consist of whitelisted field expressions and identifiers, and whose WHERE clause is
  the tenant guard with the tenant identifier as one string literal, followed only by
  conjuncts between parentheses that no user input can close; the whole text is balanced and
  leaves no literal open.
\<close>

theorem Compile_isolates_tenant:
  assumes "Compile input tenantID opts = Ok r"
  shows "guarded_sql tenantID (c_SQL r) \<and> closed (c_SQL r)"
  using Compile_guarded[OF assms] guarded_sql_closed by blast

theorem Compile_isolates_tenant_witness: "guarded_sql ''acme'' example_sql \<and> closed example_sql"
  using Compile_isolates_tenant[OF example_compiles] by simp

text \<open>No query text makes the lexer, the parser or the compiler panic.\<close>

theorem Compile_never_panics: "Compile input tenantID opts \<noteq> Panic"
  by (auto simp: Compile_def outcome_simps Let_def Parse_no_panic compileSelect_no_panic compileSearch_no_panic
      dest!: Parse_wf split: if_split_asm Kind.splits)

text \<open>
  The string literals of the compiler are exact and self-delimiting: reading back a quoted
  string, with any text behind it, gives that string and leaves that text.
\<close>

theorem quote_reads_back: "read_literal (quote s @ rest) = Some (s, rest)"
  by (rule lq.reads_back)

text \<open>
  The LIMIT of a compiled statement is positive and within the configured maximum, whatever
  the query asks for, when the defaults are configured within that maximum.
\<close>

theorem limit_clamped:
  assumes "0 < opt_DefaultLimit opts" and "opt_DefaultLimit opts \<le> opt_MaxLimit opts"
  shows "0 < limit s opts \<and> limit s opts \<le> opt_MaxLimit opts \<and>
    (0 < stmt_Limit s \<and> stmt_Limit s \<le> opt_MaxLimit opts \<longrightarrow> limit s opts = stmt_Limit s)"
  using assms by (auto simp: limit_def Let_def)

theorem limit_clamped_witness: "0 < limit (zero_Stmt\<lparr>stmt_Limit := 5000\<rparr>) default_opts \<and>
  limit (zero_Stmt\<lparr>stmt_Limit := 5000\<rparr>) default_opts \<le> 1000"
  using limit_clamped[of default_opts "zero_Stmt\<lparr>stmt_Limit := 5000\<rparr>"] by (simp add: default_opts_def)

text \<open>
  The probes of a SEARCH phrase are exactly its alphanumeric words: every token is a
  non-empty alphanumeric word, and together they hold the phrase's alphanumeric characters in
  order.
\<close>

theorem search_tokens_exact:
  "concat (search_tokens phrase [] []) = filter isAlnum phrase \<and>
   list_all (\<lambda>t. t \<noteq> [] \<and> list_all isAlnum t) (search_tokens phrase [] [])"
  by (simp add: search_tokens_spec search_tokens_alnum)

text \<open>
  A predicate on \<open>resource.*\<close> over the table \<open>change_events\<close> compiles, although that table
  has no \<open>resource\<close> column.
\<close>

theorem resource_on_change_events:
  "mapField \<lparr>cc_tenant = t, cc_table = ''change_events''\<rparr> \<lparr>fld_Parts = [''resource'', k]\<rparr> =
     Ok (''JSONExtractString(resource, '' @ quote k @ '')'', False) \<and> ''resource'' \<notin> set changeColumns"
  by (simp add: mapField_def jsonExtract_def changeColumns_def Let_def ToLower_def lower_char_def between_def)

text \<open>
  A projection may be named \<open>tenant_id\<close>: the alias is the name the forced guard compares.
\<close>

theorem alias_shadows_guard:
  "Compile ''SELECT service AS tenant_id FROM logs'' ''acme'' default_opts =
     Ok \<lparr>c_SQL = ''SELECT service AS tenant_id FROM logs WHERE tenant_id = '' @ quote ''acme'' @ '' LIMIT 100'',
         c_Columns = [''tenant_id''], c_Kind = KindSelect\<rparr>"
  by code_simp

end
