(* ===== verification/Alert_Rules.thy ===== *)
theory Alert_Rules
  imports Go_Rows LogQL_Isolation
begin

text \<open>
  Alert rules and their evaluation (\<open>domains/alerting\<close>: \<open>rule.go\<close>, \<open>evaluator.go\<close>,
  \<open>baseline.go\<close>, \<open>confidence.go\<close>, \<open>calibration.go\<close>): the SQL of a rule, the static and the
  baseline statistics, the confidence score, its calibration from operator verdicts and its
  severity. \<open>float64\<close> arithmetic is that of \<open>Go_Float\<close>; a pointer field is an option.
\<close>

section \<open>Rules (\<open>rule.go\<close>)\<close>

definition KindThreshold :: string where "KindThreshold = ''threshold''"
definition KindAbsence :: string where "KindAbsence = ''absence''"
definition KindAnomaly :: string where "KindAnomaly = ''anomaly''"

record Channel =
  ch_Type :: string
  ch_Target :: string

record AlertRule =
  r_ID :: string
  r_TenantID :: string
  r_Name :: string
  r_Kind :: string
  r_Service :: "string option"
  r_Condition :: "string option"
  r_Threshold :: "f64 option"
  r_WindowSeconds :: int
  r_Channels :: "Channel list"
  r_Enabled :: bool
  r_CreatedAt :: int

record AlertState =
  s_RuleID :: string
  s_TenantID :: string
  s_Firing :: bool
  s_FiredAt :: "int option"
  s_ResolvedAt :: "int option"
  s_LastEval :: int

record Payload =
  p_AlertID :: string
  p_AlertName :: string
  p_TenantID :: string
  p_Kind :: string
  p_Firing :: bool
  p_Count :: int
  p_FiredAt :: int
  p_Message :: string

text \<open>\<open>json.Unmarshal\<close> into a channel list is an argument.\<close>

definition decodeChannels :: "(string \<Rightarrow> (goerror, Channel list) outcome) \<Rightarrow> string \<Rightarrow> (goerror, Channel list) outcome" where
  "decodeChannels unmarshal raw = (if raw = [] \<or> raw = ''null'' then Ok [] else unmarshal raw)"

section \<open>Static evaluation (\<open>evaluator.go\<close>)\<close>

definition escapeSingle :: "string \<Rightarrow> string" where
  "escapeSingle s = ReplaceAll s [squote] [backslash, squote]"

definition sq :: "string \<Rightarrow> string" where
  "sq s = [squote] @ escapeSingle s @ [squote]"

text \<open>The optional service and condition conjuncts, shared by both queries.\<close>

definition rule_conjuncts :: "AlertRule \<Rightarrow> string list" where
  "rule_conjuncts rule =
     (case r_Service rule of Some s \<Rightarrow> if s \<noteq> [] then [''service = '' @ sq s] else [] | None \<Rightarrow> []) @
     (case r_Condition rule of Some c \<Rightarrow> if c \<noteq> [] then [''('' @ c @ '')''] else [] | None \<Rightarrow> [])"

definition buildQuery :: "AlertRule \<Rightarrow> string" where
  "buildQuery rule =
     ''SELECT count() AS n FROM logs WHERE '' @
     Join ([''tenant_id = '' @ sq (r_TenantID rule),
            ''timestamp > now() - INTERVAL '' @ show_int (r_WindowSeconds rule) @ '' SECOND''] @ rule_conjuncts rule) '' AND ''"

definition row_count :: "(f64 \<Rightarrow> int) \<Rightarrow> row list \<Rightarrow> int" where
  "row_count oob rows =
     (case rows of [] \<Rightarrow> 0
      | r # _ \<Rightarrow>
         (case cell r ''n'' of
            AnyFloat x \<Rightarrow> int64_of oob x
          | AnyInt n \<Rightarrow> n
          | AnyStr s \<Rightarrow> int64_of oob (scan_g s)
          | AnyOther \<Rightarrow> 0))"

definition static_firing :: "AlertRule \<Rightarrow> int \<Rightarrow> bool" where
  "static_firing rule count =
     (if r_Kind rule = KindThreshold then
        (case r_Threshold rule of Some t \<Rightarrow> flt t (of_int64 count) | None \<Rightarrow> False)
      else if r_Kind rule = KindAbsence then count = 0
      else False)"

definition errf :: "string \<Rightarrow> string list \<Rightarrow> goerror \<Rightarrow> goerror" where
  "errf fmt args e = (case e of Errorf f as \<Rightarrow> Errorf fmt (args @ f # as) | Sentinel s \<Rightarrow> Errorf fmt (args @ [s]))"

definition mapErr :: "('e \<Rightarrow> 'e) \<Rightarrow> ('e, 'a) outcome \<Rightarrow> ('e, 'a) outcome" where
  "mapErr f m = (case m of Err e \<Rightarrow> Err (f e) | _ \<Rightarrow> m)"

definition Evaluate :: "ch_query \<Rightarrow> (f64 \<Rightarrow> int) \<Rightarrow> AlertRule \<Rightarrow> (goerror, int \<times> bool) outcome" where
  "Evaluate ch oob rule =
     bindO (mapErr (errf ''alerting evaluate %s: %w'' [r_ID rule]) (ch (buildQuery rule))) (\<lambda>rows.
       let count = row_count oob rows in Ok (count, static_firing rule count))"

section \<open>Baselines (\<open>baseline.go\<close>)\<close>

record Baseline =
  b_Mean :: f64
  b_Std :: f64
  b_Windows :: int

definition joinAnd :: "string list \<Rightarrow> string" where
  "joinAnd parts = foldl (\<lambda>out (i, p). (if i > 0 then out @ '' AND '' else out) @ p) [] (enumerate 0 parts)"

text \<open>The break of the raw literal: a newline, two tabs and a space.\<close>

definition baselineSQL :: "AlertRule \<Rightarrow> int \<Rightarrow> string" where
  "baselineSQL rule windows =
     (let w = r_WindowSeconds rule in
      ''SELECT toStartOfInterval(timestamp, INTERVAL '' @ show_int w @ '' SECOND) AS b, count() AS n'' @
      [CHR 0x0A, CHR 0x09, CHR 0x09] @ '' FROM logs WHERE '' @
      joinAnd ([''tenant_id = '' @ sq (r_TenantID rule),
                ''timestamp > now() - INTERVAL '' @ show_int (wrap64 ((windows + 1) * w)) @ '' SECOND'',
                ''timestamp <= now() - INTERVAL '' @ show_int w @ '' SECOND''] @ rule_conjuncts rule) @
      '' GROUP BY b ORDER BY b'')"

text \<open>The population mean and standard deviation of a non-empty list.\<close>

definition mean_of :: "f64 list \<Rightarrow> f64" where
  "mean_of xs = fdiv (foldl fadd (Zero False) xs) (of_int64 (int (length xs)))"

definition meanStd :: "f64 list \<Rightarrow> f64 \<times> f64" where
  "meanStd xs =
     (let mean = mean_of xs;
          v = foldl (\<lambda>a x. fadd a (fmul (fsub x mean) (fsub x mean))) (Zero False) xs
      in (mean, fsqrt (fdiv v (of_int64 (int (length xs))))))"

definition ComputeBaseline :: "ch_query \<Rightarrow> AlertRule \<Rightarrow> int \<Rightarrow> (goerror, Baseline option) outcome" where
  "ComputeBaseline ch rule windows =
     (if r_Kind rule \<noteq> KindThreshold \<or> windows < 4 then Ok None
      else bindO (mapErr (errf ''baseline: %w'' []) (ch (baselineSQL rule windows))) (\<lambda>rows.
        if length rows < 4 then Ok None
        else let counts = map (\<lambda>r. toF64 (cell r ''n'')) rows; (mean, std) = meanStd counts
             in Ok (Some \<lparr>b_Mean = mean, b_Std = std, b_Windows = int (length counts)\<rparr>)))"

section \<open>Confidence and calibration (\<open>confidence.go\<close>, \<open>calibration.go\<close>)\<close>

definition clamp01 :: "f64 \<Rightarrow> f64" where
  "clamp01 x = (if flt x (lit 0) then lit 0 else if flt (lit 1) x then lit 1 else x)"

definition Confidence :: "string \<Rightarrow> int \<Rightarrow> f64 \<Rightarrow> Baseline option \<Rightarrow> f64" where
  "Confidence kind count threshold base =
     (if kind = KindAnomaly then clamp01 threshold
      else if kind = KindAbsence then lit (7 / 10)
      else if kind = KindThreshold then
        (case base of
           Some b \<Rightarrow> if flt (lit 0) (b_Std b)
                     then clamp01 (fdiv (fdiv (fsub (of_int64 count) (b_Mean b)) (b_Std b)) (lit 6))
                     else if flt (lit 0) threshold then clamp01 (fdiv (fsub (of_int64 count) threshold) threshold)
                     else lit (1 / 2)
         | None \<Rightarrow> if flt (lit 0) threshold then clamp01 (fdiv (fsub (of_int64 count) threshold) threshold)
                   else lit (1 / 2))
      else lit (1 / 2))"

definition Severity :: "f64 \<Rightarrow> string" where
  "Severity conf =
     (if fle (lit (85 / 100)) conf then ''critical''
      else if fle (lit (6 / 10)) conf then ''high''
      else if fle (lit (3 / 10)) conf then ''medium''
      else ''low'')"

definition minCalibrationSamples :: int where "minCalibrationSamples = 5"

definition calibrationFactor :: "int \<Rightarrow> int \<Rightarrow> f64" where
  "calibrationFactor actionable noise =
     (let total = wrap64 (actionable + noise) in
      if total < minCalibrationSamples then lit 1
      else let ratio = fdiv (of_int64 actionable) (of_int64 total)
           in fadd (lit (1 / 2)) (fmul (lit (65 / 100)) ratio))"

text \<open>The verdict counts of the feedback table, or a query error, come from the argument \<open>feedback\<close>.\<close>

definition CalibrationFactor :: "(string \<Rightarrow> string \<Rightarrow> (goerror, int \<times> int) outcome) \<Rightarrow> string \<Rightarrow> string \<Rightarrow> f64" where
  "CalibrationFactor feedback tenant service =
     (if service = [] \<or> service = ''*'' then lit 1
      else case feedback tenant service of
        Ok (actionable, noise) \<Rightarrow> calibrationFactor actionable noise
      | _ \<Rightarrow> lit 1)"

definition threshOf :: "AlertRule \<Rightarrow> f64" where
  "threshOf rule = (case r_Threshold rule of Some t \<Rightarrow> t | None \<Rightarrow> lit 0)"

section \<open>Scores\<close>

lemma of_int64_pos:
  assumes "0 < n" and "in_int64 n"
  shows "1 \<le> f_val (of_int64 n)"
proof -
  have "(1 :: rat) \<le> of_int n" using assms(1) by simp
  from round64_mono[OF this] have "fle (Fin 1) (of_int64 n)" using lit_1 by (simp add: lit_def of_int64_def)
  with fle_fin[of "Fin 1" "of_int64 n"] of_int64_finite[OF assms(2)] show ?thesis by (simp add: is_finite_def f_val_def)
qed

lemma of_int64_mono: "m \<le> n \<Longrightarrow> in_int64 m \<Longrightarrow> in_int64 n \<Longrightarrow> f_val (of_int64 m) \<le> f_val (of_int64 n)"
  using round64_mono[of "of_int m" "of_int n"] fle_fin[OF of_int64_finite of_int64_finite, of m n]
  by (simp add: of_int64_def)

lemma of_int64_nonneg: "0 \<le> n \<Longrightarrow> in_int64 n \<Longrightarrow> 0 \<le> f_val (of_int64 n)"
  using of_int64_mono[of 0 n] by (simp add: in_int64_def of_int64_def round64_def f_val_def)

lemma clamp01_unit: "x \<noteq> NaN \<Longrightarrow> fbetween (lit 0) (lit 1) (clamp01 x)"
  using not_flt_fle[of x "Zero False"] not_flt_fle[of "Fin 1" x]
  by (auto simp: clamp01_def fbetween_def f_val_def)

lemma const_unit: "fbetween (lit 0) (lit 1) (lit (7 / 10))" "fbetween (lit 0) (lit 1) (lit (1 / 2))"
  by code_simp+

text \<open>
  Every confidence score of a rule with finite statistics lies in [0,1]: for any kind, any
  count, any finite threshold and any baseline with finite mean and deviation.
\<close>

theorem Confidence_unit:
  assumes "in_int64 count" and "is_finite threshold"
    and "pred_option (\<lambda>b. is_finite (b_Mean b) \<and> is_finite (b_Std b)) base"
  shows "fbetween (lit 0) (lit 1) (Confidence kind count threshold base)"
proof -
  have n: "threshold \<noteq> NaN" using assms(2) by (auto simp: is_finite_def)
  have c: "is_finite (of_int64 count)" by (rule of_int64_finite[OF assms(1)])
  have t: "fdiv (fsub (of_int64 count) threshold) threshold \<noteq> NaN" if "flt (lit 0) threshold"
    using that by (intro fdiv_not_NaN fsub_not_NaN c assms(2)) simp
  have six: "is_finite (lit 6)" "flt (Zero False) (lit 6)" by code_simp+
  have b: "fdiv (fdiv (fsub (of_int64 count) (b_Mean b)) (b_Std b)) (lit 6) \<noteq> NaN" if "flt (lit 0) (b_Std b)" "base = Some b" for b
    using that assms(3) six by (intro fdiv_not_NaN fsub_not_NaN c) simp_all
  show ?thesis using n t b
    by (auto simp: Confidence_def const_unit[simplified] clamp01_unit[simplified] split: option.split)
qed

theorem Confidence_unit_witness:
  "fbetween (lit 0) (lit 1) (Confidence KindThreshold 250 (lit 100) (Some \<lparr>b_Mean = lit 90, b_Std = lit 12, b_Windows = 12\<rparr>))"
proof (rule Confidence_unit)
  show "in_int64 250" by (simp add: in_int64_def)
  show "is_finite (lit 100)" by code_simp
  have "is_finite (lit 90)" "is_finite (lit 12)" by code_simp+
  then show "pred_option (\<lambda>b. is_finite (b_Mean b) \<and> is_finite (b_Std b)) (Some \<lparr>b_Mean = lit 90, b_Std = lit 12, b_Windows = 12\<rparr>)"
    by simp
qed

text \<open>
  The calibration multiplier stays in [0.5, 1.15] for any verdict counts, in \<open>float64\<close>
  arithmetic with its roundings, and is neutral below five verdicts.
\<close>

theorem calibrationFactor_bounds:
  assumes "0 \<le> actionable" and "0 \<le> noise" and "in_int64 (actionable + noise)"
  shows "fbetween (lit (1 / 2)) (lit (115 / 100)) (calibrationFactor actionable noise) \<and>
    (actionable + noise < 5 \<longrightarrow> calibrationFactor actionable noise = lit 1)"
proof (cases "actionable + noise < 5")
  case True
  moreover have "fbetween (lit (1 / 2)) (lit (115 / 100)) (lit 1)" by code_simp
  ultimately show ?thesis using assms(3) by (simp add: calibrationFactor_def wrap64_id minCalibrationSamples_def)
next
  case False
  let ?t = "actionable + noise"
  have in64: "in_int64 actionable" using assms by (simp add: in_int64_def)
  have a: "0 \<le> f_val (of_int64 actionable)" "f_val (of_int64 actionable) \<le> f_val (of_int64 ?t)" "1 \<le> f_val (of_int64 ?t)"
    using of_int64_nonneg[OF assms(1) in64] of_int64_mono[OF _ in64 assms(3)] of_int64_pos[OF _ assms(3)] assms False by simp_all
  define ratio where "ratio = fdiv (of_int64 actionable) (of_int64 ?t)"
  have "fbetween (round64 0) (round64 1) ratio" unfolding ratio_def
    by (rule eqv_between[OF fdiv_eqv]) (use a in64 assms(3) of_int64_finite in auto)
  then have r: "is_finite ratio" "0 \<le> f_val ratio" "f_val ratio \<le> 1"
    using fbetween_fin[of "lit 0" "lit 1" ratio] by (simp_all add: lit_def[symmetric] is_finite_def f_val_def)
  define k where "k = f_val (lit (65 / 100))"
  have k: "is_finite (lit (65 / 100))" "0 \<le> k" "is_finite (round64 k)" "f_val (round64 k) = k" unfolding k_def by code_simp+
  define y where "y = fmul (lit (65 / 100)) ratio"
  have "0 \<le> k * f_val ratio" "k * f_val ratio \<le> k" using r k(2) by (simp_all add: mult_left_le)
  then have "fbetween (round64 0) (round64 k) y" unfolding y_def
    using eqv_between[OF fmul_eqv[OF k(1) r(1)], folded k_def] by blast
  then have y: "is_finite y" "0 \<le> f_val y" "f_val y \<le> k"
    using fbetween_fin[of "lit 0" "round64 k" y] k by (simp_all add: lit_def[symmetric] is_finite_def f_val_def)
  have h: "is_finite (lit (1 / 2))" "f_val (lit (1 / 2)) = 1 / 2" by code_simp+
  have "round64 (1 / 2 + k) = lit (115 / 100)" unfolding k_def by code_simp
  moreover have "fbetween (round64 (1 / 2)) (round64 (1 / 2 + k)) (fadd (lit (1 / 2)) y)"
    by (rule eqv_between[OF fadd_eqv]) (use y h in auto)
  ultimately show ?thesis using False assms(3)
    by (simp add: calibrationFactor_def wrap64_id minCalibrationSamples_def Let_def y_def ratio_def lit_def)
qed

theorem calibrationFactor_bounds_witness: "fbetween (lit (1 / 2)) (lit (115 / 100)) (calibrationFactor 7 3)"
  using calibrationFactor_bounds[of 7 3] by (simp add: in_int64_def)

definition severity_rank :: "string \<Rightarrow> nat" where
  "severity_rank s = (if s = ''critical'' then 3 else if s = ''high'' then 2 else if s = ''medium'' then 1 else 0)"

text \<open>Severity is monotone: a higher confidence never gets a lower severity label.\<close>

theorem Severity_mono:
  assumes "fle c d"
  shows "severity_rank (Severity c) \<le> severity_rank (Severity d)"
  using fle_trans[OF _ assms, of "lit (85 / 100)"] fle_trans[OF _ assms, of "lit (6 / 10)"]
    fle_trans[OF _ assms, of "lit (3 / 10)"]
  by (auto simp: Severity_def severity_rank_def)

theorem Severity_mono_witness: "severity_rank (Severity (lit (1 / 2))) \<le> severity_rank (Severity (lit (9 / 10)))"
  by (rule Severity_mono) code_simp

section \<open>The text of the queries\<close>

lemma joinAnd_Join: "joinAnd parts = Join parts '' AND ''"
proof -
  have "foldl (\<lambda>out (i, p). (if i > 0 then out @ '' AND '' else out) @ p) acc (enumerate (Suc n) ps) =
    acc @ concat (map (\<lambda>p. '' AND '' @ p) ps)" for acc n and ps :: "string list"
    by (induction ps arbitrary: acc n) simp_all
  moreover have "Join (p # ps) '' AND '' = p @ concat (map (\<lambda>p. '' AND '' @ p) ps)" for p ps
    by (induction ps arbitrary: p) simp_all
  ultimately show ?thesis by (cases parts) (simp_all add: joinAnd_def)
qed

lemma sq_quote: "backslash \<notin> set s \<Longrightarrow> sq s = quote s"
proof -
  assume "backslash \<notin> set s"
  then have "ReplaceAll s [backslash] [backslash, backslash] = s" unfolding ReplaceAll_single by (induction s) auto
  then show ?thesis by (simp add: sq_def escapeSingle_def quote_def)
qed

definition plain_rule :: "AlertRule \<Rightarrow> bool" where
  "plain_rule rule \<longleftrightarrow> backslash \<notin> set (r_TenantID rule) \<and> pred_option (\<lambda>s. backslash \<notin> set s) (r_Service rule) \<and>
     pred_option closed (r_Condition rule)"

lemma conjuncts_closed: "plain_rule rule \<Longrightarrow> list_all closed (rule_conjuncts rule)"
proof -
  assume p: "plain_rule rule"
  have "closed (''service = '' @ quote s)" for s unfolding closed_def by (simp add: closedD[OF quote_closed] scan_simps)
  then show ?thesis using p closed_paren
    by (auto simp: rule_conjuncts_def plain_rule_def sq_quote split: option.splits)
qed

text \<open>
  The evaluation query of a rule whose tenant and service hold no backslash and whose stored
  condition is a closed fragment is a closed statement that starts with the guard on the rule's
  tenant.
\<close>

theorem buildQuery_guarded:
  assumes "plain_rule rule"
  shows "closed (buildQuery rule) \<and>
    (\<exists>rest. buildQuery rule = ''SELECT count() AS n FROM logs WHERE tenant_id = '' @ quote (r_TenantID rule) @ '' AND '' @ rest)"
proof -
  have t: "sq (r_TenantID rule) = quote (r_TenantID rule)" using assms by (simp add: plain_rule_def sq_quote)
  define parts where "parts = [''tenant_id = '' @ quote (r_TenantID rule),
    ''timestamp > now() - INTERVAL '' @ show_int (r_WindowSeconds rule) @ '' SECOND''] @ rule_conjuncts rule"
  have "closed (''tenant_id = '' @ quote (r_TenantID rule))" by (intro closed_append literal_closed quote_closed)
  moreover have "closed (''timestamp > now() - INTERVAL '' @ show_int (r_WindowSeconds rule) @ '' SECOND'')"
    unfolding closed_def by (simp add: closedD[OF closed_show_int] scan_simps)
  ultimately have "list_all closed parts" using conjuncts_closed[OF assms] by (simp add: parts_def)
  then have "closed (Join parts '' AND '')" by (intro closed_Join literal_closed)
  moreover have "closed ''SELECT count() AS n FROM logs WHERE ''" by (simp add: closed_def scan_simps)
  moreover have q: "buildQuery rule = ''SELECT count() AS n FROM logs WHERE '' @ Join parts '' AND ''"
    by (simp add: buildQuery_def parts_def t)
  ultimately have "closed (buildQuery rule)" by (simp only: q closed_append)
  moreover have "\<exists>rest. Join parts '' AND '' = ''tenant_id = '' @ quote (r_TenantID rule) @ '' AND '' @ rest"
    by (simp add: parts_def)
  ultimately show ?thesis unfolding q by auto
qed

definition example_rule :: AlertRule where
  "example_rule = \<lparr>r_ID = ''r1'', r_TenantID = ''acme'', r_Name = ''errors'', r_Kind = KindThreshold, r_Service = Some ''api'',
     r_Condition = Some ''level >= 4'', r_Threshold = Some (lit 100), r_WindowSeconds = 300, r_Channels = [],
     r_Enabled = True, r_CreatedAt = 0\<rparr>"

theorem buildQuery_guarded_witness: "closed (buildQuery example_rule)"
proof -
  have "plain_rule example_rule"
    by (simp add: plain_rule_def example_rule_def closed_def scan_simps)
  from buildQuery_guarded[OF this] show ?thesis by simp
qed

text \<open>
  The escape of the alerting queries is not exact: a backslash before a quote ends the
  literal early, and the text behind it is read as SQL.
\<close>

theorem escapeSingle_breaks_out:
  "read_literal (sq (backslash # squote # payload) @ rest) = Some ([backslash], escapeSingle payload @ squote # rest)"
  by (simp add: sq_def escapeSingle_def ReplaceAll_single read_literal_def)

end
