(* ===== verification/Anomaly.thy ===== *)
theory Anomaly
  imports Alert_Rules
begin

text \<open>
  The baseline anomaly scorer (\<open>domains/anomaly/anomaly.go\<close>). A Go map is iterated in an
  unspecified order: the sweep takes the order of its keys as the argument \<open>order\<close>.
\<close>

record Anomaly =
  a_TenantID :: string
  a_Service :: string
  a_Score :: f64
  a_Current :: f64
  a_Mean :: f64
  a_Std :: f64

definition Score :: "f64 \<Rightarrow> f64 \<Rightarrow> f64 \<Rightarrow> f64" where
  "Score current mean std =
     (let es = fmax std (fsqrt (fmax mean (lit 1)));
          z = fdiv (fsub current mean) es
      in if fle z (lit 0) then lit 0 else clamp01 (fdiv z (lit 6)))"

definition map_key :: "string \<Rightarrow> string \<Rightarrow> string" where
  "map_key t s = t @ [CHR 0x00] @ s"

fun split_key :: "string \<Rightarrow> string \<times> string" where
  "split_key [] = ([], [])"
| "split_key (c # cs) = (if c = CHR 0x00 then ([], cs) else let (a, b) = split_key cs in (c # a, b))"

text \<open>\<open>m[k] = v\<close> and \<open>m[k] = append(m[k], v)\<close> on an association list.\<close>

fun set_at :: "string \<Rightarrow> 'v \<Rightarrow> (string \<times> 'v) list \<Rightarrow> (string \<times> 'v) list" where
  "set_at k v [] = [(k, v)]"
| "set_at k v ((k', v') # m) = (if k = k' then (k, v) # m else (k', v') # set_at k v m)"

definition get_at :: "'v \<Rightarrow> (string \<times> 'v) list \<Rightarrow> string \<Rightarrow> 'v" where
  "get_at d m k = (case map_of m k of Some v \<Rightarrow> v | None \<Rightarrow> d)"

definition curSQL :: "int \<Rightarrow> string" where
  "curSQL windowSec =
     ''SELECT tenant_id, service, count() AS n FROM logs'' @ [CHR 0x0A, CHR 0x09, CHR 0x09] @
     ''WHERE level IN ('' @ quote ''error'' @ '','' @ quote ''fatal'' @ '') AND timestamp > now() - INTERVAL '' @ show_int windowSec @ '' SECOND'' @
     [CHR 0x0A, CHR 0x09, CHR 0x09] @ ''GROUP BY tenant_id, service''"

definition baseSQL :: "int \<Rightarrow> int \<Rightarrow> string" where
  "baseSQL windowSec windows =
     ''SELECT tenant_id, service, toStartOfInterval(timestamp, INTERVAL '' @ show_int windowSec @ '' SECOND) AS b, count() AS n'' @
     [CHR 0x0A, CHR 0x09, CHR 0x09] @ ''FROM logs WHERE level IN ('' @ quote ''error'' @ '','' @ quote ''fatal'' @ '')'' @
     [CHR 0x0A, CHR 0x09, CHR 0x09] @ ''  AND timestamp > now() - INTERVAL '' @ show_int (wrap64 ((windows + 1) * windowSec)) @
     '' SECOND AND timestamp <= now() - INTERVAL '' @ show_int windowSec @ '' SECOND'' @
     [CHR 0x0A, CHR 0x09, CHR 0x09] @ ''GROUP BY tenant_id, service, b''"

definition row_key :: "row \<Rightarrow> string" where
  "row_key r = map_key (str_of (cell r ''tenant_id'')) (str_of (cell r ''service''))"

definition score_key :: "f64 \<Rightarrow> (string \<times> f64 list) list \<Rightarrow> (string \<times> f64) list \<Rightarrow> string \<Rightarrow> Anomaly list" where
  "score_key minScore buckets current k =
     (let bs = get_at [] buckets k; cur = get_at (Zero False) current k in
      if length bs < 4 then []
      else let (mean, std) = meanStd bs; score = Score cur mean std in
        if flt score minScore then []
        else let (tid, svc) = split_key k in
          [\<lparr>a_TenantID = tid, a_Service = svc, a_Score = score, a_Current = cur, a_Mean = mean, a_Std = std\<rparr>])"

definition Sweep :: "ch_query \<Rightarrow> (string list \<Rightarrow> string list) \<Rightarrow> int \<Rightarrow> int \<Rightarrow> f64 \<Rightarrow> (goerror, Anomaly list) outcome" where
  "Sweep ch order windowSec windows minScore =
     (let windowSec = (if windowSec \<le> 0 then 300 else windowSec);
          windows = (if windows < 4 then 12 else windows) in
      bindO (mapErr (errf ''anomaly current: %w'' []) (ch (curSQL windowSec))) (\<lambda>curRows.
      let current = foldl (\<lambda>m r. set_at (row_key r) (toF64 (cell r ''n'')) m) [] curRows in
      bindO (mapErr (errf ''anomaly baseline: %w'' []) (ch (baseSQL windowSec windows))) (\<lambda>baseRows.
      let buckets = foldl (\<lambda>m r. set_at (row_key r) (get_at [] m (row_key r) @ [toF64 (cell r ''n'')]) m) [] baseRows in
      Ok (concat (map (score_key minScore buckets current) (order (map fst current)))))))"

section \<open>Properties\<close>

lemma split_map_key: "CHR 0x00 \<notin> set t \<Longrightarrow> split_key (map_key t s) = (t, s)"
  by (induction t) (auto simp: map_key_def)

text \<open>
  Every anomaly a sweep reports scores at least the requested floor, was scored from at
  least four baseline windows of the same tenant and service, and its score is at most 1: a
  service without history is withheld, never guessed.
\<close>

theorem Sweep_withholds:
  assumes "Sweep ch order windowSec windows minScore = Ok as" and "a \<in> set as"
  shows "\<not> flt (a_Score a) minScore \<and>
    (\<exists>bs. 4 \<le> length bs \<and> (a_Mean a, a_Std a) = meanStd bs \<and> a_Score a = Score (a_Current a) (a_Mean a) (a_Std a)) \<and>
    (a_Score a = NaN \<or> fbetween (lit 0) (lit 1) (a_Score a))"
proof -
  have unit: "Score c m s = NaN \<or> fbetween (lit 0) (lit 1) (Score c m s)" for c m s
  proof -
    define z where "z = fdiv (fsub c m) (fmax s (fsqrt (fmax m (lit 1))))"
    have "fbetween (lit 0) (lit 1) (lit 0)" by code_simp
    moreover have "clamp01 NaN = NaN" by (simp add: clamp01_def)
    ultimately show ?thesis
      using clamp01_unit[of "fdiv z (lit 6)"] unfolding Score_def Let_def z_def[symmetric]
      by (cases "fdiv z (lit 6) = NaN") auto
  qed
  from assms obtain buckets current k where "a \<in> set (score_key minScore buckets current k)"
    by (auto simp: Sweep_def Let_def outcome_simps)
  then have "4 \<le> length (get_at [] buckets k)" "(a_Mean a, a_Std a) = meanStd (get_at [] buckets k)"
    "a_Score a = Score (a_Current a) (a_Mean a) (a_Std a)" "\<not> flt (a_Score a) minScore"
    by (auto simp: score_key_def Let_def split: if_splits prod.splits)
  then show ?thesis using unit by metis
qed

definition spike_rows :: "string \<Rightarrow> row list" where
  "spike_rows n = [[(''tenant_id'', AnyStr ''t''), (''service'', AnyStr ''api''), (''n'', AnyStr n)]]"

definition spike_ch :: ch_query where
  "spike_ch sql = Ok (if sql = curSQL 300 then spike_rows ''200'' else concat (replicate 4 (spike_rows ''2'')))"

definition spike :: Anomaly where
  "spike = \<lparr>a_TenantID = ''t'', a_Service = ''api'', a_Score = lit 1, a_Current = lit 200, a_Mean = lit 2, a_Std = Zero False\<rparr>"

theorem Sweep_withholds_witness:
  "Sweep spike_ch id 300 12 (lit (1 / 2)) = Ok [spike] \<and> \<not> flt (a_Score spike) (lit (1 / 2))"
proof -
  have s: "Sweep spike_ch id 300 12 (lit (1 / 2)) = Ok [spike]" by code_simp
  then show ?thesis using Sweep_withholds[OF s, of spike] by simp
qed

text \<open>
  The composite key of the sweep is exact: splitting the key of a tenant and a service gives
  them back, whenever the tenant identifier holds no NUL byte.
\<close>

theorem split_key_roundtrip:
  assumes "CHR 0x00 \<notin> set t"
  shows "split_key (map_key t s) = (t, s)"
  using assms by (rule split_map_key)

theorem split_key_roundtrip_witness: "split_key (map_key ''acme'' ''api'') = (''acme'', ''api'')"
  by (rule split_key_roundtrip) simp

end
