(* ===== verification/Topology.thy ===== *)
theory Topology
  imports Go_Rows LogQL_Compiler "HOL-Library.Multiset" "HOL-Library.List_Lexorder" "HOL-Library.Char_ord"
begin

text \<open>
  The service dependency graph (\<open>domains/topology/topology.go\<close>): its derivation from three
  ClickHouse queries, the blast radius of a service with the trimmed neighbourhood, and the
  one-hop neighbours. A Go map that is only read by key or iterated and then sorted is kept as
  an association list; strings are ordered byte by byte.

  The blast-radius loop is a depth-first search over the caller edges. It always ends, and what
  it collects is the transitive closure of the callers.
\<close>

section \<open>Data\<close>

record Node =
  n_Service :: string
  n_Spans :: int
  n_Errors :: int
  n_LogCount :: int
  n_HasTraces :: bool
  n_HasLogs :: bool
  n_Coverage :: string

record Edge =
  e_Caller :: string
  e_Callee :: string
  e_Calls :: int
  e_Errors :: int
  e_P95Ms :: f64

record Graph =
  g_WindowSeconds :: int
  g_Nodes :: "Node list"
  g_Edges :: "Edge list"
  g_Focus :: string
  g_BlastRadius :: "string list"

definition new_Node :: "string \<Rightarrow> Node" where
  "new_Node svc = \<lparr>n_Service = svc, n_Spans = 0, n_Errors = 0, n_LogCount = 0, n_HasTraces = False,
     n_HasLogs = False, n_Coverage = []\<rparr>"

section \<open>Derivation\<close>

definition coverage :: "Node \<Rightarrow> string" where
  "coverage n =
     (if n_HasTraces n \<and> n_HasLogs n then ''full''
      else if n_HasTraces n then ''traces-only''
      else ''logs-only'')"

text \<open>A line break of the raw SQL literals: a newline and two tabs.\<close>

definition nl :: string where
  "nl = [CHR 0x0A, CHR 0x09, CHR 0x09]"

definition since :: "int \<Rightarrow> string" where
  "since w = ''timestamp >= now() - INTERVAL '' @ show_int w @ '' SECOND''"

definition edgeSQL :: "string \<Rightarrow> int \<Rightarrow> string" where
  "edgeSQL tenant w =
     ''SELECT p.service AS caller, c.service AS callee,'' @ nl @
     ''count() AS calls,'' @ nl @
     ''countIf(c.status_code = '' @ [squote] @ ''error'' @ [squote] @ '') AS errors,'' @ nl @
     ''quantile(0.95)(c.duration_ns) / 1e6 AS p95_ms'' @ nl @
     ''FROM traces c'' @ nl @
     ''INNER JOIN traces p ON c.tenant_id = p.tenant_id AND c.trace_id = p.trace_id AND c.parent_span_id = p.span_id'' @ nl @
     ''WHERE c.tenant_id = '' @ QuoteLiteral tenant @ '' AND c.'' @ since w @ '' AND p.service != c.service'' @ nl @
     ''GROUP BY caller, callee''"

definition traceSQL :: "string \<Rightarrow> int \<Rightarrow> string" where
  "traceSQL tenant w =
     ''SELECT service, count() AS spans, countIf(status_code='' @ [squote] @ ''error'' @ [squote] @ '') AS errors'' @ nl @
     ''FROM traces WHERE tenant_id = '' @ QuoteLiteral tenant @ '' AND '' @ since w @ '' GROUP BY service''"

definition logSQL :: "string \<Rightarrow> int \<Rightarrow> string" where
  "logSQL tenant w =
     ''SELECT service, count() AS log_count FROM logs'' @ nl @
     ''WHERE tenant_id = '' @ QuoteLiteral tenant @ '' AND '' @ since w @ '' GROUP BY service''"

definition edge_of :: "(f64 \<Rightarrow> int) \<Rightarrow> row \<Rightarrow> Edge" where
  "edge_of oob r = \<lparr>e_Caller = str_of (cell r ''caller''), e_Callee = str_of (cell r ''callee''),
     e_Calls = u64 oob (cell r ''calls''), e_Errors = u64 oob (cell r ''errors''), e_P95Ms = toF64 (cell r ''p95_ms'')\<rparr>"

text \<open>The map \<open>nodes\<close>: lookup by service, and the write \<open>nodes[svc] = n\<close>.\<close>

definition lookup :: "Node list \<Rightarrow> string \<Rightarrow> Node option" where
  "lookup ns svc = find (\<lambda>n. n_Service n = svc) ns"

definition put :: "Node \<Rightarrow> Node list \<Rightarrow> Node list" where
  "put n ns = n # filter (\<lambda>m. n_Service m \<noteq> n_Service n) ns"

definition trace_node :: "(f64 \<Rightarrow> int) \<Rightarrow> Node list \<Rightarrow> row \<Rightarrow> Node list" where
  "trace_node oob ns r =
     (let svc = str_of (cell r ''service'') in
      if svc = [] then ns
      else put ((new_Node svc)\<lparr>n_Spans := u64 oob (cell r ''spans''), n_Errors := u64 oob (cell r ''errors''),
             n_HasTraces := True\<rparr>) ns)"

definition log_node :: "(f64 \<Rightarrow> int) \<Rightarrow> Node list \<Rightarrow> row \<Rightarrow> Node list" where
  "log_node oob ns r =
     (let svc = str_of (cell r ''service'') in
      if svc = [] then ns
      else let n = (case lookup ns svc of None \<Rightarrow> new_Node svc | Some n \<Rightarrow> n)
           in put (n\<lparr>n_LogCount := u64 oob (cell r ''log_count''), n_HasLogs := True\<rparr>) ns)"

definition endpoint_node :: "Node list \<Rightarrow> string \<Rightarrow> Node list" where
  "endpoint_node ns svc =
     (if svc \<noteq> [] \<and> lookup ns svc = None then put ((new_Node svc)\<lparr>n_HasTraces := True\<rparr>) ns else ns)"

definition edge_node :: "Node list \<Rightarrow> Edge \<Rightarrow> Node list" where
  "edge_node ns e = foldl endpoint_node ns [e_Caller e, e_Callee e]"

definition wrap_err :: "string \<Rightarrow> (goerror, 'a) outcome \<Rightarrow> (goerror, 'a) outcome" where
  "wrap_err fmt m = (case m of Err (Errorf f as) \<Rightarrow> Err (Errorf fmt (f # as)) | Err (Sentinel s) \<Rightarrow> Err (Errorf fmt [s]) | _ \<Rightarrow> m)"

definition Derive :: "ch_query \<Rightarrow> (f64 \<Rightarrow> int) \<Rightarrow> string \<Rightarrow> int \<Rightarrow> (goerror, Graph) outcome" where
  "Derive ch oob tenant windowSeconds =
     (let w = (if windowSeconds \<le> 0 then 3600 else windowSeconds) in
      bindO (wrap_err ''edge derivation: %w'' (ch (edgeSQL tenant w))) (\<lambda>edgeRows.
      let edges = map (edge_of oob) edgeRows in
      bindO (wrap_err ''trace nodes: %w'' (ch (traceSQL tenant w))) (\<lambda>traceRows.
      bindO (wrap_err ''log nodes: %w'' (ch (logSQL tenant w))) (\<lambda>logRows.
      let nodes = foldl (trace_node oob) [] traceRows;
          nodes = foldl (log_node oob) nodes logRows;
          nodes = foldl edge_node nodes edges;
          out = map (\<lambda>n. n\<lparr>n_Coverage := coverage n\<rparr>) nodes
      in Ok \<lparr>g_WindowSeconds = w, g_Nodes = sort_key n_Service out, g_Edges = edges,
             g_Focus = [], g_BlastRadius = []\<rparr>))))"

section \<open>Blast radius\<close>

text \<open>\<open>callers[svc]\<close>: the direct callers, one entry per edge, in edge order.\<close>

definition callers :: "Edge list \<Rightarrow> string \<Rightarrow> string list" where
  "callers es svc = map e_Caller (filter (\<lambda>e. e_Callee e = svc) es)"

text \<open>The inner loop: new callers are marked and pushed. The head of the list is the top of the stack.\<close>

definition visit :: "string \<Rightarrow> string list \<times> string list \<Rightarrow> string \<Rightarrow> string list \<times> string list" where
  "visit service st up =
     (case st of (seen, stack) \<Rightarrow>
        if up \<notin> set seen \<and> up \<noteq> service then (up # seen, up # stack) else (seen, stack))"

definition unseen :: "Edge list \<Rightarrow> string list \<Rightarrow> nat" where
  "unseen es seen = card (set (map e_Caller es) - set seen)"

lemma visit_measure:
  "up \<in> set (map e_Caller es) \<Longrightarrow> visit service (seen, stack) up = (seen', stack') \<Longrightarrow>
   2 * unseen es seen' + length stack' \<le> 2 * unseen es seen + length stack"
proof (cases "up \<notin> set seen \<and> up \<noteq> service")
  case True
  assume up: "up \<in> set (map e_Caller es)" and v: "visit service (seen, stack) up = (seen', stack')"
  from True up have "unseen es seen = Suc (unseen es (up # seen))"
    unfolding unseen_def by (subst card_Suc_Diff1[symmetric, of _ up]) (auto simp: Diff_insert2[symmetric] insert_commute)
  with True v show ?thesis by (auto simp: visit_def)
qed (auto simp: visit_def)

lemma visits_measure:
  "set ups \<subseteq> set (map e_Caller es) \<Longrightarrow> foldl (visit service) (seen, stack) ups = (seen', stack') \<Longrightarrow>
   2 * unseen es seen' + length stack' \<le> 2 * unseen es seen + length stack"
proof (induction ups arbitrary: seen stack)
  case (Cons up ups)
  obtain s1 k1 where v: "visit service (seen, stack) up = (s1, k1)" by force
  have "2 * unseen es s1 + length k1 \<le> 2 * unseen es seen + length stack"
    using visit_measure[OF _ v] Cons.prems(1) by auto
  moreover have "2 * unseen es seen' + length stack' \<le> 2 * unseen es s1 + length k1"
    using Cons.IH[of s1 k1] Cons.prems v by auto
  ultimately show ?case by simp
qed simp

function blast_loop :: "Edge list \<Rightarrow> string \<Rightarrow> string list \<Rightarrow> string list \<Rightarrow> string list" where
  "blast_loop es service seen stack =
     (case stack of
        [] \<Rightarrow> seen
      | svc # rest \<Rightarrow>
          (let (seen', stack') = foldl (visit service) (seen, rest) (callers es svc)
           in blast_loop es service seen' stack'))"
  by pat_completeness auto
termination
proof (relation "measure (\<lambda>(es, service, seen, stack). 2 * unseen es seen + length stack)", goal_cases)
  case (2 es service seen stack svc rest x seen' stack')
  have "set (callers es svc) \<subseteq> set (map e_Caller es)" by (auto simp: callers_def)
  from visits_measure[OF this, of service seen rest] 2 show ?case by (metis (no_types, lifting) in_measure case_prod_conv length_Cons less_Suc_eq_le add_Suc_right)
qed simp

declare blast_loop.simps [simp del]

definition keepService :: "Edge list \<Rightarrow> string \<Rightarrow> string \<Rightarrow> bool" where
  "keepService es service s \<longleftrightarrow> s = service \<or>
     list_ex (\<lambda>e. (e_Caller e = service \<or> e_Callee e = service) \<and> (s = e_Caller e \<or> s = e_Callee e)) es"

definition FocusBlastRadius :: "Graph \<Rightarrow> string \<Rightarrow> Graph" where
  "FocusBlastRadius g service =
     g\<lparr>g_Focus := service,
       g_BlastRadius := sort (blast_loop (g_Edges g) service [] [service]),
       g_Edges := filter (\<lambda>e. e_Caller e = service \<or> e_Callee e = service) (g_Edges g),
       g_Nodes := filter (\<lambda>n. keepService (g_Edges g) service (n_Service n)) (g_Nodes g)\<rparr>"

text \<open>\<open>Neighbors\<close>: the keys of the map \<open>seen\<close>; Go leaves their order open.\<close>

definition Neighbors :: "Graph \<Rightarrow> string \<Rightarrow> string set" where
  "Neighbors g service =
     foldl (\<lambda>seen e. if e_Caller e = service then insert (e_Callee e) seen
                     else if e_Callee e = service then insert (e_Caller e) seen else seen) {} (g_Edges g)"

section \<open>The search computes the transitive callers\<close>

definition calls :: "Edge list \<Rightarrow> (string \<times> string) set" where
  "calls es = {(e_Callee e, e_Caller e) | e. e \<in> set es}"

lemma callers_calls: "u \<in> set (callers es x) \<longleftrightarrow> (x, u) \<in> calls es"
  by (auto simp: callers_def calls_def)

definition blast_inv :: "Edge list \<Rightarrow> string \<Rightarrow> string list \<Rightarrow> string list \<Rightarrow> bool" where
  "blast_inv es s seen stack \<longleftrightarrow> distinct seen \<and> s \<notin> set seen \<and> (\<forall>u \<in> set seen. (s, u) \<in> (calls es)\<^sup>+) \<and>
     set stack \<subseteq> insert s (set seen) \<and>
     (\<forall>x \<in> insert s (set seen) - set stack. \<forall>u. (x, u) \<in> calls es \<longrightarrow> u = s \<or> u \<in> set seen)"

lemma visit_seen: "visit s (seen, stack) up = (seen', stack') \<Longrightarrow>
  set seen' = (if up = s then set seen else insert up (set seen)) \<and> set seen \<subseteq> set seen' \<and>
  set stack' = set stack \<union> (set seen' - set seen)"
  by (auto simp: visit_def split: if_splits)

lemma visits_seen:
  "foldl (visit s) (seen, stack) ups = (seen', stack') \<Longrightarrow>
   set seen' = set seen \<union> (set ups - {s}) \<and> set stack' = set stack \<union> (set seen' - set seen)"
proof (induction ups arbitrary: seen stack)
  case (Cons up ups)
  obtain s1 k1 where v: "visit s (seen, stack) up = (s1, k1)" by force
  from Cons.IH[of s1 k1] Cons.prems v visit_seen[OF v] show ?case by (auto split: if_splits)
qed auto

lemma visits_distinct:
  "foldl (visit s) (seen, stack) ups = (seen', stack') \<Longrightarrow> distinct seen \<Longrightarrow> s \<notin> set seen \<Longrightarrow> distinct seen' \<and> s \<notin> set seen'"
proof (induction ups arbitrary: seen stack)
  case (Cons up ups)
  obtain s1 k1 where v: "visit s (seen, stack) up = (s1, k1)" by force
  then have "distinct s1" "s \<notin> set s1" using Cons.prems by (auto simp: visit_def split: if_splits)
  with Cons v show ?case by auto
qed auto

lemma blast_inv_step:
  assumes inv: "blast_inv es s seen (x # rest)" and f: "foldl (visit s) (seen, rest) (callers es x) = (seen', stack')"
  shows "blast_inv es s seen' stack'"
proof -
  note vs = visits_seen[OF f]
  from inv have x: "x = s \<or> (s, x) \<in> (calls es)\<^sup>+" by (auto simp: blast_inv_def)
  have new: "(s, u) \<in> (calls es)\<^sup>+" if "u \<in> set (callers es x)" for u
    using that x trancl_into_trancl[of s x "calls es" u] by (auto simp: callers_calls)
  have "distinct seen' \<and> s \<notin> set seen'" using visits_distinct[OF f] inv by (auto simp: blast_inv_def)
  moreover have "\<forall>u \<in> set seen'. (s, u) \<in> (calls es)\<^sup>+" using vs new inv by (auto simp: blast_inv_def)
  moreover have "set stack' \<subseteq> insert s (set seen')" using vs inv by (auto simp: blast_inv_def)
  moreover have "u = s \<or> u \<in> set seen'" if y: "y \<in> insert s (set seen') - set stack'" "(y, u) \<in> calls es" for y u
  proof (cases "y = x")
    case True
    with y(2) vs show ?thesis by (auto simp flip: callers_calls)
  next
    case False
    with y(1) vs have "y \<in> insert s (set seen) - set (x # rest)" by auto
    with inv y(2) have "u = s \<or> u \<in> set seen" unfolding blast_inv_def by blast
    with vs show ?thesis by auto
  qed
  ultimately show ?thesis by (auto simp: blast_inv_def)
qed

lemma blast_loop_inv: "blast_inv es s seen stack \<Longrightarrow> blast_inv es s (blast_loop es s seen stack) []"
proof (induction es s seen stack rule: blast_loop.induct)
  case (1 es s seen stack)
  show ?case
  proof (cases stack)
    case Nil
    with 1 show ?thesis by (simp add: blast_loop.simps)
  next
    case (Cons x rest)
    obtain seen' stack' where f: "foldl (visit s) (seen, rest) (callers es x) = (seen', stack')" by force
    from "1.IH"[OF Cons refl f[symmetric]] blast_inv_step[OF _ f] "1.prems" Cons
    have "blast_inv es s (blast_loop es s seen' stack') []" by simp
    with Cons f show ?thesis by (simp add: blast_loop.simps[of es s seen "x # rest"])
  qed
qed

lemma blast_closed:
  assumes "blast_inv es s seen []"
  shows "set seen = {u. (s, u) \<in> (calls es)\<^sup>+ \<and> u \<noteq> s}"
proof -
  have "u = s \<or> u \<in> set seen" if "(s, u) \<in> (calls es)\<^sup>+" for u
    using that
  proof (induction rule: trancl_induct)
    case (base u)
    then show ?case using assms unfolding blast_inv_def by simp
  next
    case (step y u)
    then show ?case using assms unfolding blast_inv_def by auto
  qed
  with assms show ?thesis unfolding blast_inv_def by blast
qed

text \<open>
  C15. The blast radius of a service is exactly the set of its transitive callers (the service
  itself excluded), each once and in order; the search that computes it ends on every graph,
  with cycles and self-calls too.
\<close>

theorem FocusBlastRadius_transitive:
  "set (g_BlastRadius (FocusBlastRadius g s)) = {u. (s, u) \<in> (calls (g_Edges g))\<^sup>+ \<and> u \<noteq> s} \<and>
   distinct (g_BlastRadius (FocusBlastRadius g s)) \<and> sorted (g_BlastRadius (FocusBlastRadius g s))"
proof -
  have "blast_inv (g_Edges g) s [] [s]" by (simp add: blast_inv_def)
  from blast_loop_inv[OF this] have "blast_inv (g_Edges g) s (blast_loop (g_Edges g) s [] [s]) []" .
  with blast_closed[OF this] show ?thesis by (simp add: FocusBlastRadius_def blast_inv_def)
qed

section \<open>The derived graph\<close>

definition services :: "Node list \<Rightarrow> string set" where
  "services ns = n_Service ` set ns"

text \<open>The map invariant: one node per service, no empty service name, every node observed.\<close>

definition wf_nodes :: "Node list \<Rightarrow> bool" where
  "wf_nodes ns \<longleftrightarrow> distinct (map n_Service ns) \<and> (\<forall>n \<in> set ns. n_Service n \<noteq> [] \<and> (n_HasTraces n \<or> n_HasLogs n))"

lemma services_put: "services (put n ns) = insert (n_Service n) (services ns)"
  by (auto simp: services_def put_def)

lemma distinct_filter_key: "distinct (map f ns) \<Longrightarrow> distinct (map f (filter P ns))"
  by (induction ns) auto

lemma wf_put: "wf_nodes ns \<Longrightarrow> n_Service n \<noteq> [] \<Longrightarrow> n_HasTraces n \<or> n_HasLogs n \<Longrightarrow> wf_nodes (put n ns)"
  by (auto simp: wf_nodes_def put_def distinct_filter_key)

lemma lookup_Some: "lookup ns svc = Some n \<Longrightarrow> n \<in> set ns \<and> n_Service n = svc"
  by (auto simp: lookup_def find_Some_iff)

lemma lookup_None: "lookup ns svc = None \<longleftrightarrow> svc \<notin> services ns"
  by (auto simp: lookup_def find_None_iff services_def)

lemma wf_trace_node: "wf_nodes ns \<Longrightarrow> wf_nodes (trace_node oob ns r)"
  by (auto simp: trace_node_def Let_def new_Node_def intro!: wf_put)

lemma wf_log_node: "wf_nodes ns \<Longrightarrow> wf_nodes (log_node oob ns r)"
  by (auto simp: log_node_def Let_def new_Node_def dest: lookup_Some intro!: wf_put split: option.splits)

lemma wf_endpoint_node: "wf_nodes ns \<Longrightarrow> wf_nodes (endpoint_node ns svc)"
  by (auto simp: endpoint_node_def new_Node_def intro!: wf_put)

lemma wf_edge_node: "wf_nodes ns \<Longrightarrow> wf_nodes (edge_node ns e)"
  by (simp add: edge_node_def wf_endpoint_node)

lemma foldl_keeps: "(\<And>x y. P x \<Longrightarrow> P (f x y)) \<Longrightarrow> P a \<Longrightarrow> P (foldl f a ys)"
  by (induction ys arbitrary: a) simp_all

lemma services_endpoint: "services (endpoint_node ns svc) = services ns \<union> ({svc} - {[]})"
  by (auto simp: endpoint_node_def services_put new_Node_def lookup_None)

lemma services_edges:
  "services (foldl edge_node ns es) = services ns \<union> ((e_Caller ` set es \<union> e_Callee ` set es) - {[]})"
  by (induction es arbitrary: ns) (auto simp: edge_node_def services_endpoint)

lemma distinct_sort_key: "distinct (map f (sort_key f xs)) = distinct (map f xs)"
  by (rule mset_eq_imp_distinct_iff) simp

lemma sort_key_sorted: "sorted (map f (sort_key f xs))"
  by (rule sorted_sort_key)

text \<open>
  The derived graph is closed and well formed: its nodes are sorted by service with one node
  per service, every named endpoint of an edge is a node, and the coverage label of a node is
  \<open>full\<close>, \<open>traces-only\<close> or \<open>logs-only\<close> according to where it was observed; no node is
  unobserved.
\<close>

theorem Derive_wf:
  assumes "Derive ch oob tenant w = Ok g"
  shows "distinct (map n_Service (g_Nodes g)) \<and> sorted (map n_Service (g_Nodes g)) \<and>
    (\<forall>e \<in> set (g_Edges g). {e_Caller e, e_Callee e} - {[]} \<subseteq> n_Service ` set (g_Nodes g)) \<and>
    (\<forall>n \<in> set (g_Nodes g). n_Service n \<noteq> [] \<and>
       (n_Coverage n = ''full'' \<longleftrightarrow> n_HasTraces n \<and> n_HasLogs n) \<and>
       (n_Coverage n = ''traces-only'' \<longleftrightarrow> n_HasTraces n \<and> \<not> n_HasLogs n) \<and>
       (n_Coverage n = ''logs-only'' \<longleftrightarrow> \<not> n_HasTraces n \<and> n_HasLogs n))"
proof -
  from assms obtain ns es where wf: "wf_nodes ns" and es: "g_Edges g = es"
    and all: "(e_Caller ` set es \<union> e_Callee ` set es) - {[]} \<subseteq> services ns"
    and out: "g_Nodes g = sort_key n_Service (map (\<lambda>n. n\<lparr>n_Coverage := coverage n\<rparr>) ns)"
  proof -
    from assms obtain er tr lr where g: "g_Edges g = map (edge_of oob) er"
      "g_Nodes g = sort_key n_Service (map (\<lambda>n. n\<lparr>n_Coverage := coverage n\<rparr>)
         (foldl edge_node (foldl (log_node oob) (foldl (trace_node oob) [] tr) lr) (map (edge_of oob) er)))"
      by (auto simp: Derive_def Let_def outcome_simps)
    have "wf_nodes []" by (simp add: wf_nodes_def)
    then have "wf_nodes (foldl edge_node (foldl (log_node oob) (foldl (trace_node oob) [] tr) lr) (map (edge_of oob) er))"
      by (intro foldl_keeps[of wf_nodes] wf_edge_node wf_log_node wf_trace_node)
    from that[OF this g(1) _ g(2)] show thesis by (simp only: services_edges) blast
  qed
  have "distinct (map n_Service (g_Nodes g))"
    using wf unfolding out distinct_sort_key wf_nodes_def by (simp add: comp_def)
  moreover have "n_Service ` set (g_Nodes g) = services ns" unfolding out services_def by (simp add: image_image)
  moreover have "sorted (map n_Service (g_Nodes g))" unfolding out by (rule sort_key_sorted)
  moreover have "\<forall>n \<in> set (g_Nodes g). n_Service n \<noteq> [] \<and>
       (n_Coverage n = ''full'' \<longleftrightarrow> n_HasTraces n \<and> n_HasLogs n) \<and>
       (n_Coverage n = ''traces-only'' \<longleftrightarrow> n_HasTraces n \<and> \<not> n_HasLogs n) \<and>
       (n_Coverage n = ''logs-only'' \<longleftrightarrow> \<not> n_HasTraces n \<and> n_HasLogs n)"
    using wf unfolding out wf_nodes_def by (auto simp: coverage_def)
  ultimately show ?thesis using all es by auto
qed

definition example_ch :: ch_query where
  "example_ch sql = Ok (if sql = edgeSQL ''t'' 3600 then [[(''caller'', AnyStr ''web''), (''callee'', AnyStr ''api'')],
       [(''caller'', AnyStr ''api''), (''callee'', AnyStr ''db'')], [(''caller'', AnyStr ''db''), (''callee'', AnyStr ''api'')]]
     else if sql = logSQL ''t'' 3600 then [[(''service'', AnyStr ''cron''), (''log_count'', AnyStr ''12'')]] else [])"

definition example_graph :: Graph where
  "example_graph = (case Derive example_ch (\<lambda>_. 0) ''t'' 0 of Ok g \<Rightarrow> g | _ \<Rightarrow> \<lparr>g_WindowSeconds = 0, g_Nodes = [], g_Edges = [], g_Focus = [], g_BlastRadius = []\<rparr>)"

theorem Derive_wf_witness:
  "Derive example_ch (\<lambda>_. 0) ''t'' 0 = Ok example_graph \<and> map n_Service (g_Nodes example_graph) = [''api'', ''cron'', ''db'', ''web''] \<and>
   distinct (map n_Service (g_Nodes example_graph))"
proof -
  have ok: "Derive example_ch (\<lambda>_. 0) ''t'' 0 = Ok example_graph"
    by (simp add: example_graph_def Derive_def example_ch_def wrap_err_def Let_def)
  have "map n_Service (g_Nodes example_graph) = [''api'', ''cron'', ''db'', ''web'']" by code_simp
  with Derive_wf[OF ok] ok show ?thesis by blast
qed

text \<open>
  Neighbourhood: a service is a neighbour of another exactly when an edge joins them, in
  either direction, so the relation the alerting engine merges incidents over is symmetric; and
  every neighbour that calls the service belongs to its blast radius.
\<close>

theorem Neighbors_symmetric:
  "Neighbors g s = {u. \<exists>e. e \<in> set (g_Edges g) \<and> {e_Caller e, e_Callee e} = {s, u}} \<and>
   (t \<in> Neighbors g s \<longleftrightarrow> s \<in> Neighbors g t) \<and>
   {u. (s, u) \<in> calls (g_Edges g)} - {s} \<subseteq> set (g_BlastRadius (FocusBlastRadius g s))"
proof -
  have fold: "x \<in> foldl (\<lambda>seen e. if e_Caller e = a then insert (e_Callee e) seen
       else if e_Callee e = a then insert (e_Caller e) seen else seen) S es
     \<longleftrightarrow> x \<in> S \<or> (\<exists>e \<in> set es. {e_Caller e, e_Callee e} = {a, x})" for x a S es
    by (induction es arbitrary: S) (auto simp: doubleton_eq_iff)
  have "x \<in> Neighbors g a \<longleftrightarrow> (\<exists>e \<in> set (g_Edges g). {e_Caller e, e_Callee e} = {a, x})" for x a
    unfolding Neighbors_def fold by simp
  moreover have "blast_inv (g_Edges g) s [] [s]" by (simp add: blast_inv_def)
  then have "set (g_BlastRadius (FocusBlastRadius g s)) = {u. (s, u) \<in> (calls (g_Edges g))\<^sup>+ \<and> u \<noteq> s}"
    using blast_closed[OF blast_loop_inv] by (simp add: FocusBlastRadius_def)
  ultimately show ?thesis by (auto simp: insert_commute)
qed

end
