(* ===== verification/Webhook.thy ===== *)
theory Webhook
  imports Go_Prelude
begin

text \<open>
  The outbound webhook dispatcher (\<open>domains/webhook/webhook.go\<close>). The keyed hash, the JSON
  encoder, the endpoint table and the network are arguments: \<open>hmac\<close> gives the hex digest,
  \<open>attempt_result\<close> what the n-th POST of a delivery meets, \<open>cancelled\<close> whether the context
  ends during the pause before it. A delivery returns its error and the requests it sent.
\<close>

record Endpoint =
  ep_ID :: string
  ep_URL :: string
  ep_Secret :: string

record WebhookRow =
  wr_Tenant :: string
  wr_Active :: bool
  wr_Events :: "string list"
  wr_Endpoint :: Endpoint

record Request =
  rq_URL :: string
  rq_Header :: "(string \<times> string) list"
  rq_Body :: string

datatype http_result = NetErr goerror | Status int

definition maxAttempts :: nat where "maxAttempts = 3"

definition Sign :: "(string \<Rightarrow> string \<Rightarrow> string) \<Rightarrow> string \<Rightarrow> string \<Rightarrow> string" where
  "Sign hmac secret body = (if secret = [] then [] else hmac secret body)"

text \<open>The SELECT of \<open>loadEndpoints\<close>: active rows of the tenant, subscribed to the event or to all.\<close>

definition loadEndpoints :: "WebhookRow list \<Rightarrow> string \<Rightarrow> string \<Rightarrow> Endpoint list" where
  "loadEndpoints tbl tenant event =
     map wr_Endpoint (filter (\<lambda>r. wr_Tenant r = tenant \<and> wr_Active r \<and> (wr_Events r = [] \<or> event \<in> set (wr_Events r))) tbl)"

definition request_of :: "(string \<Rightarrow> string \<Rightarrow> string) \<Rightarrow> Endpoint \<Rightarrow> string \<Rightarrow> string \<Rightarrow> Request" where
  "request_of hmac ep event body =
     \<lparr>rq_URL = ep_URL ep,
      rq_Header = [(''Content-Type'', ''application/json''), (''User-Agent'', ''qeet-logs-webhooks/1''),
        (''X-Qeet-Event'', event), (''X-Qeet-Webhook-Id'', ep_ID ep)] @
        (let sig = Sign hmac (ep_Secret ep) body in if sig \<noteq> [] then [(''X-Qeet-Signature'', ''sha256='' @ sig)] else []),
      rq_Body = body\<rparr>"

record net =
  attempt_result :: "nat \<Rightarrow> http_result"
  cancelled :: "nat \<Rightarrow> goerror option"
  bad_request :: "string \<Rightarrow> goerror option"

function deliver_loop ::
  "(string \<Rightarrow> string \<Rightarrow> string) \<Rightarrow> net \<Rightarrow> Endpoint \<Rightarrow> string \<Rightarrow> string \<Rightarrow> nat \<Rightarrow> goerror option \<Rightarrow> Request list \<Rightarrow>
   goerror option \<times> Request list" where
  "deliver_loop hmac n ep event body attempt lastErr sent =
     (if maxAttempts \<le> attempt then (lastErr, sent)
      else if 0 < attempt \<and> cancelled n attempt \<noteq> None then (cancelled n attempt, sent)
      else case bad_request n (ep_URL ep) of
        Some e \<Rightarrow> (Some e, sent)
      | None \<Rightarrow>
         (let sent = sent @ [request_of hmac ep event body] in
          case attempt_result n attempt of
            NetErr e \<Rightarrow> deliver_loop hmac n ep event body (Suc attempt) (Some e) sent
          | Status code \<Rightarrow>
              if code < 300 then (None, sent)
              else let err = Errorf ''webhook %s returned %d'' [ep_URL ep, show_int code] in
                if 400 \<le> code \<and> code < 500 then (Some err, sent)
                else deliver_loop hmac n ep event body (Suc attempt) (Some err) sent))"
  by pat_completeness auto
termination
  by (relation "measure (\<lambda>(_, _, _, _, _, attempt, _, _). maxAttempts - attempt)") (auto simp: maxAttempts_def)

declare deliver_loop.simps [simp del]

definition deliver :: "(string \<Rightarrow> string \<Rightarrow> string) \<Rightarrow> net \<Rightarrow> Endpoint \<Rightarrow> string \<Rightarrow> string \<Rightarrow> goerror option \<times> Request list" where
  "deliver hmac n ep event body = deliver_loop hmac n ep event body 0 None []"

text \<open>\<open>marshal\<close> is \<open>json.Marshal\<close>; the endpoints are tried one after the other, each with its own network.\<close>

definition Dispatch ::
  "(string \<Rightarrow> string \<Rightarrow> string) \<Rightarrow> ('p \<Rightarrow> string option) \<Rightarrow> (Endpoint \<Rightarrow> net) \<Rightarrow> WebhookRow list \<Rightarrow> string \<Rightarrow> string \<Rightarrow> 'p \<Rightarrow> Request list" where
  "Dispatch hmac marshal nets tbl tenant event payload =
     (let eps = loadEndpoints tbl tenant event in
      if eps = [] then []
      else case marshal payload of
        None \<Rightarrow> []
      | Some body \<Rightarrow> concat (map (\<lambda>ep. snd (deliver hmac (nets ep) ep event body)) eps))"

section \<open>Properties\<close>

definition retryable :: "http_result \<Rightarrow> bool" where
  "retryable r = (case r of NetErr _ \<Rightarrow> True | Status c \<Rightarrow> 300 \<le> c \<and> \<not> (400 \<le> c \<and> c < 500))"

definition success :: "http_result \<Rightarrow> bool" where
  "success r = (case r of NetErr _ \<Rightarrow> False | Status c \<Rightarrow> c < 300)"

lemma deliver_loop_spec:
  "deliver_loop hmac n ep event body a lastErr sent = (err, sent') \<Longrightarrow> (0 < a \<Longrightarrow> lastErr \<noteq> None) \<Longrightarrow>
   \<exists>k. sent' = sent @ replicate k (request_of hmac ep event body) \<and> a + k \<le> max a maxAttempts \<and>
     (\<forall>i. a \<le> i \<and> i + 1 < a + k \<longrightarrow> retryable (attempt_result n i)) \<and>
     (err = None \<longleftrightarrow> 0 < k \<and> success (attempt_result n (a + k - 1)) \<or> a = 0 \<and> k = 0 \<and> lastErr = None \<and> maxAttempts \<le> a)"
proof (induction hmac n ep event body a lastErr sent arbitrary: err sent' rule: deliver_loop.induct)
  case (1 hmac n ep event body a lastErr sent)
  let ?rq = "request_of hmac ep event body"
  consider (stop) "maxAttempts \<le> a" | (cancel) "\<not> maxAttempts \<le> a" "0 < a \<and> cancelled n a \<noteq> None"
    | (bad) e where "\<not> maxAttempts \<le> a" "\<not> (0 < a \<and> cancelled n a \<noteq> None)" "bad_request n (ep_URL ep) = Some e"
    | (go) "\<not> maxAttempts \<le> a" "\<not> (0 < a \<and> cancelled n a \<noteq> None)" "bad_request n (ep_URL ep) = None" by fastforce
  then show ?case
  proof cases
    case stop
    with 1 show ?thesis by (intro exI[of _ 0]) (auto simp: deliver_loop.simps[of hmac n ep event body a])
  next
    case cancel
    with 1 show ?thesis by (intro exI[of _ 0]) (auto simp: deliver_loop.simps[of hmac n ep event body a])
  next
    case (bad e)
    then have "deliver_loop hmac n ep event body a lastErr sent = (Some e, sent)"
      by (subst deliver_loop.simps) auto
    with 1 bad(1) show ?thesis by (intro exI[of _ 0]) auto
  next
    case go
    have unf: "deliver_loop hmac n ep event body a lastErr sent =
      (case attempt_result n a of
         NetErr e \<Rightarrow> deliver_loop hmac n ep event body (Suc a) (Some e) (sent @ [?rq])
       | Status code \<Rightarrow>
           if code < 300 then (None, sent @ [?rq])
           else if 400 \<le> code \<and> code < 500 then (Some (Errorf ''webhook %s returned %d'' [ep_URL ep, show_int code]), sent @ [?rq])
           else deliver_loop hmac n ep event body (Suc a) (Some (Errorf ''webhook %s returned %d'' [ep_URL ep, show_int code])) (sent @ [?rq]))"
      by (subst deliver_loop.simps) (use go in \<open>auto simp: Let_def split: http_result.split\<close>)
    have rec: ?thesis if d: "deliver_loop hmac n ep event body (Suc a) (Some e) (sent @ [?rq]) = (err, sent')"
      and rt: "retryable (attempt_result n a)" and
      IH: "\<exists>k. sent' = (sent @ [?rq]) @ replicate k ?rq \<and> Suc a + k \<le> max (Suc a) maxAttempts \<and>
        (\<forall>i. Suc a \<le> i \<and> i + 1 < Suc a + k \<longrightarrow> retryable (attempt_result n i)) \<and>
        (err = None \<longleftrightarrow> 0 < k \<and> success (attempt_result n (Suc a + k - 1)) \<or> Suc a = 0 \<and> k = 0 \<and> Some e = None \<and> maxAttempts \<le> Suc a)" for e
    proof -
      from IH obtain k where k: "sent' = (sent @ [?rq]) @ replicate k ?rq" "Suc a + k \<le> max (Suc a) maxAttempts"
        "\<forall>i. Suc a \<le> i \<and> i + 1 < Suc a + k \<longrightarrow> retryable (attempt_result n i)"
        "err = None \<longleftrightarrow> 0 < k \<and> success (attempt_result n (Suc a + k - 1))" by auto
      have "retryable (attempt_result n i)" if "a \<le> i" "i + 1 < a + Suc k" for i
        using that rt k(3) by (cases "i = a") auto
      moreover have "err = None \<longleftrightarrow> 0 < Suc k \<and> success (attempt_result n (a + Suc k - 1))"
        using k(4) rt by (cases k) (auto simp: retryable_def success_def split: http_result.splits)
      ultimately show ?thesis using k(1,2) go(1)
        by (intro exI[of _ "Suc k"]) (auto simp: maxAttempts_def simp flip: replicate_append_same)
    qed
    show ?thesis
    proof (cases "attempt_result n a")
      case (NetErr e)
      with "1.prems"(1) go have d: "deliver_loop hmac n ep event body (Suc a) (Some e) (sent @ [?rq]) = (err, sent')"
        unfolding unf by simp
      show ?thesis by (rule rec[OF d _ "1.IH"(1)[OF go refl NetErr d]]) (simp_all add: NetErr retryable_def)
    next
      case (Status c)
      define er where "er = Errorf ''webhook %s returned %d'' [ep_URL ep, show_int c]"
      consider "c < 300" | "400 \<le> c \<and> c < 500" | "\<not> c < 300" "\<not> (400 \<le> c \<and> c < 500)" by blast
      then show ?thesis
      proof cases
        case 3
        with "1.prems"(1) go Status have d: "deliver_loop hmac n ep event body (Suc a) (Some er) (sent @ [?rq]) = (err, sent')"
          unfolding unf by (simp add: er_def)
        show ?thesis
          by (rule rec[OF d _ "1.IH"(2)[OF go refl Status 3(1) er_def 3(2) d]]) (use 3 Status in \<open>simp_all add: retryable_def\<close>)
      qed (use "1.prems"[unfolded unf] go Status in \<open>auto intro!: exI[of _ 1] simp: success_def maxAttempts_def\<close>)
    qed
  qed
qed


definition flaky_net :: net where
  "flaky_net = \<lparr>attempt_result = (\<lambda>i. if i = 0 then Status 503 else Status 200), cancelled = (\<lambda>_. None), bad_request = (\<lambda>_. None)\<rparr>"

definition example_endpoint :: Endpoint where
  "example_endpoint = \<lparr>ep_ID = ''e1'', ep_URL = ''https://hook'', ep_Secret = ''s''\<rparr>"

lemma flaky_delivers: "deliver (\<lambda>k b. ''ab'') flaky_net example_endpoint ''incident.opened'' ''{}'' =
  (None, replicate 2 (request_of (\<lambda>k b. ''ab'') example_endpoint ''incident.opened'' ''{}''))"
  by (simp add: deliver_def deliver_loop.simps flaky_net_def maxAttempts_def numeral_2_eq_2)


text \<open>
  Dispatch reaches exactly the active endpoints of the tenant that subscribe to the event: no
  request goes to another tenant's endpoint, and every request carries the signature of its own
  endpoint's secret, or none when the endpoint has no secret.
\<close>

theorem Dispatch_scoped:
  "set (Dispatch hmac marshal nets tbl tenant event payload) \<subseteq>
     {request_of hmac ep event body | ep body. marshal payload = Some body \<and>
        (\<exists>r. r \<in> set tbl \<and> wr_Endpoint r = ep \<and> wr_Tenant r = tenant \<and> wr_Active r \<and>
           (wr_Events r = [] \<or> event \<in> set (wr_Events r)))}"
proof -
  have "set (snd (deliver hmac n ep event body)) \<subseteq> {request_of hmac ep event body}" for n ep body
  proof -
    obtain err sent where d: "deliver_loop hmac n ep event body 0 None [] = (err, sent)" by force
    from deliver_loop_spec[OF d] have "\<exists>k. sent = replicate k (request_of hmac ep event body)" by auto
    with d show ?thesis by (auto simp: deliver_def)
  qed
  then show ?thesis
    by (fastforce simp: Dispatch_def loadEndpoints_def Let_def split: option.splits if_splits)
qed

end
