(* ===== verification/Alert_Engine.thy ===== *)
theory Alert_Engine
  imports Anomaly Topology Webhook
begin

text \<open>
  The alerting engine (\<open>domains/alerting\<close>: \<open>engine.go\<close>, \<open>incident.go\<close>, \<open>delivery.go\<close>): one
  evaluation cycle over the rules, the correlation of firings into incidents, paging and
  resolution, with the tables \<open>incidents\<close> and \<open>alert_state\<close> as explicit state.

  Everything outside the sources is in the record \<open>env\<close>: the ClickHouse rows, the hash, the
  verdict counts, the clock, the HTTP answers, the row a LIMIT 1 without an order picks, the
  identifiers of new rows, and which Postgres statements fail (\<open>ev_db n\<close> for the n-th statement
  executed). Deliveries and webhook events are appended to logs of the state, in the order the
  engine issues them; the log lines of the engine are left out.
\<close>

section \<open>State and environment\<close>

record Incident =
  i_id :: string
  i_tenant :: string
  i_fp :: string
  i_title :: string
  i_service :: string
  i_severity :: string
  i_confidence :: f64
  i_status :: string
  i_signal_count :: int
  i_deploy_id :: "string option"
  i_rules :: "string list"
  i_paged :: bool
  i_first_seen :: int
  i_last_seen :: int
  i_resolved_at :: "int option"

datatype Post = PostWebhook string Payload | PostNotify string Payload

record Delivery =
  d_Payload :: Payload
  d_Posts :: "Post list"
  d_Errors :: nat

record HookEvent =
  h_Tenant :: string
  h_Event :: string
  h_Service :: string

record store =
  db_rules :: "(AlertRule \<times> string) list"
  db_incidents :: "Incident list"
  db_states :: "AlertState list"
  db_ops :: nat
  out_log :: "Delivery list"
  out_hooks :: "HookEvent list"

record env =
  ev_ch :: ch_query
  ev_oob :: "f64 \<Rightarrow> int"
  ev_sha1 :: "string \<Rightarrow> string"
  ev_feedback :: "string \<Rightarrow> string \<Rightarrow> (goerror, int \<times> int) outcome"
  ev_unmarshal :: "string \<Rightarrow> (goerror, Channel list) outcome"
  ev_db :: "nat \<Rightarrow> goerror option"
  ev_pick :: "string list \<Rightarrow> string"
  ev_newid :: "store \<Rightarrow> string"
  ev_now :: int
  ev_http :: "Post \<Rightarrow> http_result"
  ev_order :: "string list \<Rightarrow> string list"
  ev_notifyURL :: string
  ev_notifyKey :: string
  ev_pageMin :: f64

type_synonym 'a step = "store \<Rightarrow> (goerror, 'a) outcome \<times> store"

definition retS :: "'a \<Rightarrow> 'a step" where
  "retS a st = (Ok a, st)"

definition failS :: "goerror \<Rightarrow> 'a step" where
  "failS e st = (Err e, st)"

definition bindS :: "'a step \<Rightarrow> ('a \<Rightarrow> 'b step) \<Rightarrow> 'b step" where
  "bindS m f st = (case m st of (Ok a, st') \<Rightarrow> f a st' | (Err e, st') \<Rightarrow> (Err e, st') | (Panic, st') \<Rightarrow> (Panic, st'))"

definition wrapS :: "(goerror \<Rightarrow> goerror) \<Rightarrow> 'a step \<Rightarrow> 'a step" where
  "wrapS f m st = (case m st of (Err e, st') \<Rightarrow> (Err (f e), st') | r \<Rightarrow> r)"

text \<open>One Postgres statement: it fails with the environment's error, or runs.\<close>

definition exec :: "env \<Rightarrow> (store \<Rightarrow> 'a \<times> store) \<Rightarrow> 'a step" where
  "exec ev f st =
     (let st1 = st\<lparr>db_ops := Suc (db_ops st)\<rparr> in
      case ev_db ev (db_ops st) of
        Some e \<Rightarrow> (Err e, st1)
      | None \<Rightarrow> (let (a, st2) = f st1 in (Ok a, st2)))"

section \<open>Delivery (\<open>delivery.go\<close>)\<close>

text \<open>A POST is an error unless it is answered with a 2xx status.\<close>

definition post_fails :: "env \<Rightarrow> Post \<Rightarrow> bool" where
  "post_fails ev p = (case ev_http ev p of NetErr _ \<Rightarrow> True | Status c \<Rightarrow> c div 100 \<noteq> 2)"

definition channel_posts :: "env \<Rightarrow> Payload \<Rightarrow> Channel \<Rightarrow> Post list" where
  "channel_posts ev payload ch =
     (if ch_Type ch = ''webhook'' then [PostWebhook (ch_Target ch) payload]
      else if ch_Type ch = ''qeet_notify'' then
        (if ev_notifyURL ev \<noteq> [] \<and> ev_notifyKey ev \<noteq> [] then [PostNotify (ch_Target ch) payload] else [])
      else [])"

definition Deliver :: "env \<Rightarrow> AlertRule \<Rightarrow> Payload \<Rightarrow> unit step" where
  "Deliver ev rule payload st =
     (let posts = concat (map (channel_posts ev payload) (r_Channels rule));
          errs = length (filter (post_fails ev) posts)
      in (if errs > 0 then Err (Errorf ''delivery errors: %v'' []) else Ok (),
          st\<lparr>out_log := out_log st @ [\<lparr>d_Payload = payload, d_Posts = posts, d_Errors = errs\<rparr>]\<rparr>))"

definition dispatchWebhook :: "string \<Rightarrow> string \<Rightarrow> string \<Rightarrow> store \<Rightarrow> store" where
  "dispatchWebhook tenant event service st =
     st\<lparr>out_hooks := out_hooks st @ [\<lparr>h_Tenant = tenant, h_Event = event, h_Service = service\<rparr>]\<rparr>"

section \<open>Incidents (\<open>incident.go\<close>)\<close>

definition Fingerprint :: "env \<Rightarrow> string \<Rightarrow> string \<Rightarrow> string" where
  "Fingerprint ev tenantID service = ev_sha1 ev (tenantID @ ''|'' @ service)"

definition serviceOf :: "AlertRule \<Rightarrow> string" where
  "serviceOf rule = (case r_Service rule of Some s \<Rightarrow> if s \<noteq> [] then s else ''*'' | None \<Rightarrow> ''*'')"

definition deploySuffix :: "string \<Rightarrow> string" where
  "deploySuffix deployID = (if deployID = [] then [] else '' (near deploy '' @ deployID @ '')'')"

definition is_open :: "Incident \<Rightarrow> bool" where
  "is_open i \<longleftrightarrow> i_status i = ''open''"

definition open_fp :: "string \<Rightarrow> Incident \<Rightarrow> bool" where
  "open_fp fp i \<longleftrightarrow> i_fp i = fp \<and> is_open i"

text \<open>The neighbours are collected as a list; a query error, no neighbour or no row gives the empty string.\<close>

definition neighborIncidentFP :: "env \<Rightarrow> string \<Rightarrow> string \<Rightarrow> store \<Rightarrow> string \<times> store" where
  "neighborIncidentFP ev tenantID service st =
     (if service = ''*'' then ([], st)
      else case Derive (ev_ch ev) (ev_oob ev) tenantID 3600 of
        Ok g \<Rightarrow>
          (if Neighbors g service = {} then ([], st)
           else let fps = Fingerprint ev tenantID ` Neighbors g service in
             case exec ev (\<lambda>st. (filter (\<lambda>fp. fp \<in> fps) (map i_fp (filter is_open (db_incidents st))), st)) st of
               (Ok found, st') \<Rightarrow> (if found = [] then [] else ev_pick ev found, st')
             | (_, st') \<Rightarrow> ([], st'))
      | _ \<Rightarrow> ([], st))"

definition deploySQL :: "string \<Rightarrow> string \<Rightarrow> int \<Rightarrow> string" where
  "deploySQL tenant service windowSec =
     ''SELECT deploy_id FROM change_events'' @ [CHR 0x0A, CHR 0x09, CHR 0x09] @
     '' WHERE tenant_id = '' @ sq tenant @ '' AND service = '' @ sq service @ '' AND kind = '' @ quote ''deploy'' @ [CHR 0x0A, CHR 0x09, CHR 0x09] @
     ''   AND timestamp > now() - INTERVAL '' @ show_int (wrap64 (windowSec * 3)) @ '' SECOND'' @ [CHR 0x0A, CHR 0x09, CHR 0x09] @
     '' ORDER BY timestamp DESC LIMIT 1''"

definition nearbyDeploy :: "env \<Rightarrow> string \<Rightarrow> string \<Rightarrow> int \<Rightarrow> string" where
  "nearbyDeploy ev tenant service windowSec =
     (if service = ''*'' then []
      else case ev_ch ev (deploySQL tenant service windowSec) of
        Ok (r # _) \<Rightarrow> str_of (cell r ''deploy_id'')
      | _ \<Rightarrow> [])"

text \<open>Postgres orders NaN above every number.\<close>

definition pg_greatest :: "f64 \<Rightarrow> f64 \<Rightarrow> f64" where
  "pg_greatest a b = (if a = NaN \<or> b = NaN then NaN else if flt a b then b else a)"

definition merge_incident :: "env \<Rightarrow> f64 \<Rightarrow> string \<Rightarrow> string \<Rightarrow> Incident \<Rightarrow> Incident" where
  "merge_incident ev conf deployID ruleID i =
     i\<lparr>i_signal_count := i_signal_count i + 1, i_last_seen := ev_now ev,
       i_confidence := pg_greatest (i_confidence i) conf,
       i_deploy_id := (case i_deploy_id i of Some d \<Rightarrow> Some d | None \<Rightarrow> if deployID = [] then None else Some deployID),
       i_rules := (if ruleID \<in> set (i_rules i) then i_rules i else i_rules i @ [ruleID])\<rparr>"

definition new_incident :: "env \<Rightarrow> AlertRule \<Rightarrow> string \<Rightarrow> string \<Rightarrow> string \<Rightarrow> f64 \<Rightarrow> string \<Rightarrow> string \<Rightarrow> Incident" where
  "new_incident ev rule fp title svc conf deployID nid =
     \<lparr>i_id = nid, i_tenant = r_TenantID rule, i_fp = fp, i_title = title, i_service = svc, i_severity = Severity conf,
      i_confidence = conf, i_status = ''open'', i_signal_count = 1, i_deploy_id = (if deployID = [] then None else Some deployID),
      i_rules = [r_ID rule], i_paged = False, i_first_seen = ev_now ev, i_last_seen = ev_now ev, i_resolved_at = None\<rparr>"

text \<open>INSERT ... ON CONFLICT (fingerprint) WHERE status = 'open' DO UPDATE ... RETURNING.\<close>

definition upsert_incident ::
  "env \<Rightarrow> AlertRule \<Rightarrow> string \<Rightarrow> string \<Rightarrow> string \<Rightarrow> f64 \<Rightarrow> string \<Rightarrow> store \<Rightarrow> (Incident \<times> bool) \<times> store" where
  "upsert_incident ev rule fp title svc conf deployID st =
     (case find (open_fp fp) (db_incidents st) of
        Some i \<Rightarrow>
          (let i' = merge_incident ev conf deployID (r_ID rule) i in
           ((i', False), st\<lparr>db_incidents := map (\<lambda>j. if open_fp fp j then merge_incident ev conf deployID (r_ID rule) j else j) (db_incidents st)\<rparr>))
      | None \<Rightarrow>
          (let i' = new_incident ev rule fp title svc conf deployID (ev_newid ev st) in
           ((i', True), st\<lparr>db_incidents := db_incidents st @ [i']\<rparr>)))"

definition update_id :: "string \<Rightarrow> (Incident \<Rightarrow> Incident) \<Rightarrow> store \<Rightarrow> unit \<times> store" where
  "update_id k f st = ((), st\<lparr>db_incidents := map (\<lambda>j. if i_id j = k then f j else j) (db_incidents st)\<rparr>)"

text \<open>\<open>%.2f\<close> of a finite value: rounded to hundredths, half to even.\<close>

definition fmt_2f :: "f64 \<Rightarrow> string" where
  "fmt_2f x =
     (case x of NaN \<Rightarrow> ''NaN'' | Inf s \<Rightarrow> (if s then ''-Inf'' else ''+Inf'')
      | _ \<Rightarrow> (let n = rhe (\<bar>f_val x\<bar> * 100) in
              (if f_neg x then ''-'' else []) @ show_int (n div 100) @ ''.'' @
              show_int (n mod 100 div 10) @ show_int (n mod 10)))"

definition page_message :: "string \<Rightarrow> Incident \<Rightarrow> string \<Rightarrow> string \<Rightarrow> string" where
  "page_message sev i title deployID =
     ''['' @ sev @ '' conf='' @ fmt_2f (i_confidence i) @ ''] '' @ title @ '' '' @ [CHR 0xE2, CHR 0x80, CHR 0x94] @ '' '' @
     show_int (i_signal_count i) @ '' correlated signal(s)'' @ deploySuffix deployID"

definition page_payload :: "env \<Rightarrow> AlertRule \<Rightarrow> int \<Rightarrow> string \<Rightarrow> string \<Rightarrow> string \<Rightarrow> Incident \<Rightarrow> Payload" where
  "page_payload ev rule cnt sev title deployID i =
     \<lparr>p_AlertID = i_id i, p_AlertName = title, p_TenantID = r_TenantID rule, p_Kind = r_Kind rule, p_Firing = True,
      p_Count = cnt, p_FiredAt = ev_now ev, p_Message = page_message sev i title deployID\<rparr>"

text \<open>The delivery error of a page is only logged; the row is marked paged after it.\<close>

definition page :: "env \<Rightarrow> AlertRule \<Rightarrow> int \<Rightarrow> string \<Rightarrow> string \<Rightarrow> string \<Rightarrow> Incident \<Rightarrow> unit step" where
  "page ev rule cnt sev title deployID i st =
     (let st1 = snd (Deliver ev rule (page_payload ev rule cnt sev title deployID i) st) in
      wrapS (errf ''mark paged: %w'' []) (exec ev (update_id (i_id i) (\<lambda>j. j\<lparr>i_paged := True\<rparr>))) st1)"

definition correlate :: "env \<Rightarrow> AlertRule \<Rightarrow> int \<Rightarrow> f64 \<Rightarrow> unit step" where
  "correlate ev rule cnt conf0 st =
     (let svc = serviceOf rule;
          (proxyFP, st) = neighborIncidentFP ev (r_TenantID rule) svc st;
          fp = (if proxyFP \<noteq> [] then proxyFP else Fingerprint ev (r_TenantID rule) svc);
          deployID = nearbyDeploy ev (r_TenantID rule) svc (r_WindowSeconds rule);
          title = (if svc = ''*'' then r_Name rule else svc @ '' degraded'');
          conf = clamp01 (fmul conf0 (CalibrationFactor (ev_feedback ev) (r_TenantID rule) svc))
      in bindS (wrapS (errf ''upsert incident: %w'' []) (exec ev (upsert_incident ev rule fp title svc conf deployID)))
           (\<lambda>(i, newlyOpened).
              let sev = Severity (i_confidence i) in
              bindS (wrapS (errf ''update severity: %w'' []) (exec ev (update_id (i_id i) (\<lambda>j. j\<lparr>i_severity := sev\<rparr>))))
                (\<lambda>_ st.
                   let st = (if newlyOpened then dispatchWebhook (r_TenantID rule) ''incident.opened'' svc st else st) in
                   if \<not> i_paged i \<and> fle (ev_pageMin ev) (i_confidence i)
                   then page ev rule cnt sev title deployID i st
                   else (Ok (), st))) st)"

definition resolveOpenIncident :: "env \<Rightarrow> AlertRule \<Rightarrow> unit step" where
  "resolveOpenIncident ev rule =
     (let svc = serviceOf rule; fp = Fingerprint ev (r_TenantID rule) svc in
      bindS (exec ev (\<lambda>st. (list_ex (open_fp fp) (db_incidents st),
               st\<lparr>db_incidents := map (\<lambda>j. if open_fp fp j then j\<lparr>i_status := ''resolved'', i_resolved_at := Some (ev_now ev)\<rparr> else j) (db_incidents st)\<rparr>)))
        (\<lambda>affected st. (Ok (), if affected then dispatchWebhook (r_TenantID rule) ''incident.resolved'' svc st else st)))"

section \<open>The engine (\<open>engine.go\<close>)\<close>

text \<open>The page gate of \<open>New\<close>: the parsed environment variable when it is a number in [0,1].\<close>

definition pageMin_of :: "(goerror, f64) outcome \<Rightarrow> f64" where
  "pageMin_of parsed =
     (case parsed of Ok v \<Rightarrow> if fle (lit 0) v \<and> fle v (lit 1) then v else lit (6 / 10) | _ \<Rightarrow> lit (6 / 10))"

definition poll_interval :: "int \<Rightarrow> int" where
  "poll_interval interval = (if interval \<le> 0 then 60 * 1000000000 else interval)"

definition loadRules :: "env \<Rightarrow> AlertRule list step" where
  "loadRules ev = exec ev (\<lambda>st.
     (map (\<lambda>(r, raw). r\<lparr>r_Channels := (case decodeChannels (ev_unmarshal ev) raw of Ok cs \<Rightarrow> cs | _ \<Rightarrow> [])\<rparr>)
        (sort_key (r_CreatedAt \<circ> fst) (filter (r_Enabled \<circ> fst) (db_rules st))), st))"

definition zero_state :: "string \<Rightarrow> AlertState" where
  "zero_state ruleID = \<lparr>s_RuleID = ruleID, s_TenantID = [], s_Firing = False, s_FiredAt = None, s_ResolvedAt = None, s_LastEval = 0\<rparr>"

definition loadState :: "env \<Rightarrow> string \<Rightarrow> AlertState step" where
  "loadState ev ruleID = exec ev (\<lambda>st.
     (case find (\<lambda>s. s_RuleID s = ruleID) (db_states st) of Some s \<Rightarrow> s | None \<Rightarrow> zero_state ruleID, st))"

definition merge_state :: "AlertState \<Rightarrow> AlertState \<Rightarrow> AlertState" where
  "merge_state s t = t\<lparr>s_Firing := s_Firing s,
     s_FiredAt := (case s_FiredAt s of Some x \<Rightarrow> Some x | None \<Rightarrow> s_FiredAt t),
     s_ResolvedAt := s_ResolvedAt s, s_LastEval := s_LastEval s\<rparr>"

definition upsertState :: "env \<Rightarrow> AlertState \<Rightarrow> unit step" where
  "upsertState ev s = exec ev (\<lambda>st. ((),
     if list_ex (\<lambda>t. s_RuleID t = s_RuleID s) (db_states st)
     then st\<lparr>db_states := map (\<lambda>t. if s_RuleID t = s_RuleID s then merge_state s t else t) (db_states st)\<rparr>
     else st\<lparr>db_states := db_states st @ [s]\<rparr>))"

definition touchState :: "env \<Rightarrow> string \<Rightarrow> unit step" where
  "touchState ev ruleID = exec ev (\<lambda>st. ((),
     st\<lparr>db_states := map (\<lambda>t. if s_RuleID t = ruleID then t\<lparr>s_LastEval := ev_now ev\<rparr> else t) (db_states st)\<rparr>))"

definition baselineWindows :: int where "baselineWindows = 12"
definition anomalyWindowSec :: int where "anomalyWindowSec = 300"
definition anomalyMinScore :: f64 where "anomalyMinScore = lit (1 / 2)"

definition adaptive_firing :: "Baseline option \<Rightarrow> int \<Rightarrow> bool" where
  "adaptive_firing base cnt =
     (case base of None \<Rightarrow> False
      | Some b \<Rightarrow> flt (lit 0) (b_Std b) \<and> flt (fadd (b_Mean b) (fmul (lit 3) (b_Std b))) (of_int64 cnt))"

definition resolve_payload :: "AlertRule \<Rightarrow> int \<Rightarrow> Payload" where
  "resolve_payload rule cnt =
     \<lparr>p_AlertID = r_ID rule, p_AlertName = r_Name rule, p_TenantID = r_TenantID rule, p_Kind = r_Kind rule, p_Firing = False,
      p_Count = cnt, p_FiredAt = 0, p_Message = ''Alert resolved after '' @ show_int (r_WindowSeconds rule) @ ''s''\<rparr>"

text \<open>A baseline error leaves no baseline; errors of \<open>correlate\<close>, of the resolution and of its delivery are only logged.\<close>

definition fire :: "env \<Rightarrow> AlertRule \<Rightarrow> int \<Rightarrow> Baseline option \<Rightarrow> bool \<Rightarrow> store \<Rightarrow> store" where
  "fire ev rule cnt base nowFiring st =
     (if nowFiring then snd (correlate ev rule cnt (Confidence (r_Kind rule) cnt (threshOf rule) base) st) else st)"

definition notify_resolved :: "env \<Rightarrow> AlertRule \<Rightarrow> int \<Rightarrow> bool \<Rightarrow> store \<Rightarrow> store" where
  "notify_resolved ev rule cnt nowFiring st =
     (if nowFiring then st else snd (Deliver ev rule (resolve_payload rule cnt) (snd (resolveOpenIncident ev rule st))))"

definition next_state :: "env \<Rightarrow> AlertRule \<Rightarrow> bool \<Rightarrow> AlertState" where
  "next_state ev rule nowFiring =
     \<lparr>s_RuleID = r_ID rule, s_TenantID = r_TenantID rule, s_Firing = nowFiring,
      s_FiredAt = (if nowFiring then Some (ev_now ev) else None),
      s_ResolvedAt = (if nowFiring then None else Some (ev_now ev)), s_LastEval = ev_now ev\<rparr>"

text \<open>\<open>evalRule\<close> from the load of the previous state on.\<close>

definition transition :: "env \<Rightarrow> AlertRule \<Rightarrow> int \<Rightarrow> Baseline option \<Rightarrow> bool \<Rightarrow> AlertState \<Rightarrow> unit step" where
  "transition ev rule cnt base nowFiring prev st =
     (let st = fire ev rule cnt base nowFiring st in
      if s_Firing prev \<noteq> nowFiring
      then wrapS (errf ''upsert state: %w'' []) (upsertState ev (next_state ev rule nowFiring)) (notify_resolved ev rule cnt nowFiring st)
      else (Ok (), snd (touchState ev (r_ID rule) st)))"

definition evalRule :: "env \<Rightarrow> AlertRule \<Rightarrow> unit step" where
  "evalRule ev rule st =
     (case Evaluate (ev_ch ev) (ev_oob ev) rule of
        Err e \<Rightarrow> (Err e, st)
      | Panic \<Rightarrow> (Panic, st)
      | Ok (cnt, staticFiring) \<Rightarrow>
         (let base = (case ComputeBaseline (ev_ch ev) rule baselineWindows of Ok b \<Rightarrow> b | _ \<Rightarrow> None);
              nowFiring = (staticFiring \<or> adaptive_firing base cnt)
          in bindS (wrapS (errf ''load state: %w'' []) (loadState ev (r_ID rule))) (transition ev rule cnt base nowFiring) st))"

definition anomaly_rule :: "Anomaly \<Rightarrow> AlertRule" where
  "anomaly_rule a = \<lparr>r_ID = ''anomaly:'' @ a_Service a, r_TenantID = a_TenantID a, r_Name = ''anomaly: '' @ a_Service a, r_Kind = KindAnomaly,
     r_Service = Some (a_Service a), r_Condition = None, r_Threshold = None, r_WindowSeconds = anomalyWindowSec, r_Channels = [],
     r_Enabled = False, r_CreatedAt = 0\<rparr>"

definition sweepAnomalies :: "env \<Rightarrow> store \<Rightarrow> store" where
  "sweepAnomalies ev st =
     (case Sweep (ev_ch ev) (ev_order ev) anomalyWindowSec baselineWindows anomalyMinScore of
        Ok anomalies \<Rightarrow> foldl (\<lambda>st a. snd (correlate ev (anomaly_rule a) (int64_of (ev_oob ev) (a_Current a))
                           (Confidence KindAnomaly 0 (a_Score a) None) st)) st anomalies
      | _ \<Rightarrow> st)"

definition runCycle :: "env \<Rightarrow> store \<Rightarrow> store" where
  "runCycle ev st =
     (case loadRules ev st of
        (Ok rules, st) \<Rightarrow> sweepAnomalies ev (foldl (\<lambda>st r. snd (evalRule ev r st)) st rules)
      | (_, st) \<Rightarrow> st)"

text \<open>
  \<open>Run\<close> performs one cycle at the start and one per tick until the context ends; the environment
  of each cycle is given.
\<close>

definition Run :: "env list \<Rightarrow> store \<Rightarrow> store" where
  "Run evs st = foldl (\<lambda>st ev. runCycle ev st) st evs"

end
