(* ===== verification/Alert_Invariants.thy ===== *)
theory Alert_Invariants
  imports Alert_Engine
begin

text \<open>
  Invariants of the alerting engine over whole runs. The locale \<open>incident_invariant\<close> is the
  interface between the engine and the incident table: what each statement keeps of a predicate
  on the store; \<open>store_invariant\<close> adds the state table. Their lemmas carry the predicate through
  \<open>correlate\<close>, \<open>evalRule\<close>, \<open>runCycle\<close> and \<open>Run\<close> once, for every environment the locale admits;
  the interpretations are the invariants of the incident table, of the delivery log and of the
  page gate, and the frame of the state table.
\<close>

section \<open>The interface\<close>

lemma exec_cases:
  obtains e where "exec ev f st = (Err e, st\<lparr>db_ops := Suc (db_ops st)\<rparr>)" "ev_db ev (db_ops st) = Some e"
  | a st' where "exec ev f st = (Ok a, st')" "f (st\<lparr>db_ops := Suc (db_ops st)\<rparr>) = (a, st')" "ev_db ev (db_ops st) = None"
  by (cases "ev_db ev (db_ops st)"; cases "f (st\<lparr>db_ops := Suc (db_ops st)\<rparr>)") (auto simp: exec_def)

lemma exec_snd: "(\<And>st. I st \<Longrightarrow> I (st\<lparr>db_ops := Suc (db_ops st)\<rparr>)) \<Longrightarrow> (\<And>st. I st \<Longrightarrow> I (snd (f st))) \<Longrightarrow> I st \<Longrightarrow> I (snd (exec ev f st))"
  by (cases "ev_db ev (db_ops st)") (simp_all add: exec_def Let_def split_beta)

lemma wrapS_snd [simp]: "snd (wrapS g m st) = snd (m st)"
  by (simp add: wrapS_def split: prod.split outcome.split)

definition has_row :: "Incident \<Rightarrow> store \<Rightarrow> bool" where
  "has_row i st \<longleftrightarrow> (\<exists>j \<in> set (db_incidents st). i_id j = i_id i \<and> i_paged j = i_paged i \<and> i_confidence j = i_confidence i)"

lemma upsert_row: "has_row (fst (fst (upsert_incident ev rule fp title svc conf d st))) (snd (upsert_incident ev rule fp title svc conf d st))"
proof (cases "find (open_fp fp) (db_incidents st)")
  case None
  then show ?thesis by (simp add: upsert_incident_def has_row_def Let_def)
next
  case (Some i)
  then have "i \<in> set (db_incidents st)" "open_fp fp i" by (auto simp: find_Some_iff)
  with Some show ?thesis by (auto simp: upsert_incident_def has_row_def Let_def)
qed

lemma severity_row: "has_row i st \<Longrightarrow> has_row i (snd (update_id k (\<lambda>j. j\<lparr>i_severity := s\<rparr>) st))"
proof -
  assume "has_row i st"
  then obtain j where j: "j \<in> set (db_incidents st)" "i_id j = i_id i" "i_paged j = i_paged i" "i_confidence j = i_confidence i"
    by (auto simp: has_row_def)
  then show ?thesis
    unfolding has_row_def update_id_def by (intro bexI[of _ "if i_id j = k then j\<lparr>i_severity := s\<rparr> else j"]) auto
qed

lemma has_row_ops [simp]: "has_row i (st\<lparr>db_ops := n\<rparr>) = has_row i st" "has_row i (dispatchWebhook t e s st) = has_row i st"
  by (simp_all add: has_row_def dispatchWebhook_def)

locale incident_invariant =
  fixes ok :: "env \<Rightarrow> bool" and I :: "store \<Rightarrow> bool"
  assumes ops: "I st \<Longrightarrow> I (st\<lparr>db_ops := n\<rparr>)"
    and hooks: "I st \<Longrightarrow> I (st\<lparr>out_hooks := hs\<rparr>)"
    and upsert: "ok ev \<Longrightarrow> I st \<Longrightarrow> I (snd (upsert_incident ev rule fp title svc conf d st))"
    and severity: "I st \<Longrightarrow> I (snd (update_id k (\<lambda>j. j\<lparr>i_severity := s\<rparr>) st))"
    and resolve: "I st \<Longrightarrow> I (st\<lparr>db_incidents := map (\<lambda>j. if open_fp fp j then j\<lparr>i_status := ''resolved'', i_resolved_at := t\<rparr> else j) (db_incidents st)\<rparr>)"
    and deliver_resolve: "I st \<Longrightarrow> \<not> p_Firing p \<Longrightarrow> I (snd (Deliver ev rule p st))"
    and paging: "ok ev \<Longrightarrow> I st \<Longrightarrow> has_row i st \<Longrightarrow> \<not> i_paged i \<Longrightarrow> fle (ev_pageMin ev) (i_confidence i) \<Longrightarrow>
      I (snd (page ev rule cnt sev title d i st))"
begin

lemma neighbor_keeps: "I st \<Longrightarrow> I (snd (neighborIncidentFP ev t s st))"
  by (auto simp: neighborIncidentFP_def exec_def Let_def ops split: outcome.split option.split)

lemma correlate_keeps:
  assumes "ok ev" and "I st"
  shows "I (snd (correlate ev rule cnt conf st))"
proof -
  define svc where "svc = serviceOf rule"
  obtain pf st0 where n: "neighborIncidentFP ev (r_TenantID rule) svc st = (pf, st0)" by force
  have I0: "I st0" using neighbor_keeps[OF assms(2), of ev "r_TenantID rule" svc] n by simp
  define fp where "fp = (if pf \<noteq> [] then pf else Fingerprint ev (r_TenantID rule) svc)"
  define d where "d = nearbyDeploy ev (r_TenantID rule) svc (r_WindowSeconds rule)"
  define title where "title = (if svc = ''*'' then r_Name rule else svc @ '' degraded'')"
  define cf where "cf = clamp01 (fmul conf (CalibrationFactor (ev_feedback ev) (r_TenantID rule) svc))"
  define up where "up = upsert_incident ev rule fp title svc cf d"
  show ?thesis
  proof (cases rule: exec_cases[of ev up st0])
    case (1 e)
    then show ?thesis using ops[OF I0]
      by (simp add: correlate_def svc_def[symmetric] n Let_def fp_def[symmetric] d_def[symmetric] title_def[symmetric]
          cf_def[symmetric] up_def[symmetric] bindS_def wrapS_def)
  next
    case (2 r st1)
    obtain i new where r: "r = (i, new)" by force
    have I1: "I st1" "has_row i st1"
      using upsert[OF assms(1) ops[OF I0, of "Suc (db_ops st0)"], of rule fp title svc cf d]
        upsert_row[of ev rule fp title svc cf d "st0\<lparr>db_ops := Suc (db_ops st0)\<rparr>"] 2(2) r by (simp_all add: up_def)
    define sv where "sv = update_id (i_id i) (\<lambda>j. j\<lparr>i_severity := Severity (i_confidence i)\<rparr>)"
    show ?thesis
    proof (cases rule: exec_cases[of ev sv st1])
      case 1
      then show ?thesis using 2 r ops[OF I1(1)]
        by (simp add: correlate_def svc_def[symmetric] n Let_def fp_def[symmetric] d_def[symmetric] title_def[symmetric]
            cf_def[symmetric] up_def[symmetric] sv_def[symmetric] bindS_def wrapS_def)
    next
      case (2 u st2)
      have I2: "I st2" "has_row i st2"
        using severity[OF ops[OF I1(1)]] severity_row[of i "st1\<lparr>db_ops := Suc (db_ops st1)\<rparr>"] I1(2) 2(2)
        by (simp_all add: sv_def) (metis snd_conv)+
      define st3 where "st3 = (if new then dispatchWebhook (r_TenantID rule) ''incident.opened'' svc st2 else st2)"
      have I3: "I st3" "has_row i st3" using I2 hooks by (auto simp: st3_def dispatchWebhook_def has_row_def)
      have "snd (correlate ev rule cnt conf st) =
        (if \<not> i_paged i \<and> fle (ev_pageMin ev) (i_confidence i)
         then snd (page ev rule cnt (Severity (i_confidence i)) title d i st3) else st3)"
        using \<open>exec ev up st0 = (Ok r, st1)\<close> r 2(1)
        by (simp add: correlate_def svc_def[symmetric] n Let_def fp_def[symmetric] d_def[symmetric] title_def[symmetric]
            cf_def[symmetric] up_def[symmetric] sv_def[symmetric] bindS_def wrapS_def st3_def[symmetric])
      with I3 paging[OF assms(1) I3] show ?thesis by auto
    qed
  qed
qed

lemma resolve_keeps: "I st \<Longrightarrow> I (snd (resolveOpenIncident ev rule st))"
  using resolve[OF ops] hooks[OF resolve[OF ops]] ops
  by (auto simp: resolveOpenIncident_def bindS_def exec_def dispatchWebhook_def Let_def split: option.split)

lemma fire_keeps: "ok ev \<Longrightarrow> I st \<Longrightarrow> I (fire ev rule cnt base b st)"
  by (simp add: fire_def correlate_keeps)

lemma notify_keeps: "I st \<Longrightarrow> I (notify_resolved ev rule cnt b st)"
  by (simp add: notify_resolved_def deliver_resolve resolve_keeps resolve_payload_def)

end

locale store_invariant = incident_invariant +
  assumes states: "I st \<Longrightarrow> I (st\<lparr>db_states := ss\<rparr>)"
begin

lemma states_keeps: "I st \<Longrightarrow> I (snd (upsertState ev x st))" "I st \<Longrightarrow> I (snd (touchState ev k st))" "I st \<Longrightarrow> I (snd (loadState ev k st))"
  by (auto simp: upsertState_def touchState_def loadState_def intro!: exec_snd[of I] ops states)

lemma transition_keeps: "ok ev \<Longrightarrow> I st \<Longrightarrow> I (snd (transition ev rule cnt base b prev st))"
  by (simp add: transition_def states_keeps fire_keeps notify_keeps Let_def)

lemma evalRule_keeps:
  assumes "ok ev" and "I st"
  shows "I (snd (evalRule ev rule st))"
proof -
  have "I (snd (bindS (wrapS g (loadState ev k)) (transition ev rule cnt base b) st))" for g k cnt base b
  proof -
    obtain r st' where l: "wrapS g (loadState ev k) st = (r, st')" by force
    then have "I st'" using states_keeps(3)[OF assms(2)] wrapS_snd by (metis snd_conv)
    with l show ?thesis by (cases r) (simp_all add: bindS_def transition_keeps[OF assms(1)])
  qed
  then show ?thesis using assms(2) by (simp add: evalRule_def Let_def split: outcome.split prod.split)
qed

lemma sweep_keeps:
  assumes "ok ev" and "I st"
  shows "I (sweepAnomalies ev st)"
proof -
  have "I (foldl (\<lambda>st a. snd (correlate ev (anomaly_rule a) (int64_of (ev_oob ev) (a_Current a)) (Confidence KindAnomaly 0 (a_Score a) None) st)) st as)" for as
    using assms(2) by (induction as arbitrary: st) (simp_all add: correlate_keeps[OF assms(1)])
  with assms(2) show ?thesis by (simp add: sweepAnomalies_def split: outcome.split)
qed

lemma runCycle_keeps:
  assumes "ok ev" and "I st"
  shows "I (runCycle ev st)"
proof -
  have "I (foldl (\<lambda>st r. snd (evalRule ev r st)) s rs)" if "I s" for rs s
    using that by (induction rs arbitrary: s) (simp_all add: evalRule_keeps[OF assms(1)])
  moreover have "I (snd (loadRules ev st))" using assms(2) by (auto simp: loadRules_def intro!: exec_snd[of I] ops)
  ultimately show ?thesis by (auto simp: runCycle_def intro: sweep_keeps[OF assms(1)] split: prod.split outcome.split)
qed

lemma Run_keeps: "list_all ok evs \<Longrightarrow> I st \<Longrightarrow> I (Run evs st)"
  by (induction evs arbitrary: st) (simp_all add: Run_def runCycle_keeps)

end

section \<open>One open incident per fingerprint\<close>

definition ids :: "store \<Rightarrow> string list" where
  "ids st = map i_id (db_incidents st)"

definition open_fps :: "store \<Rightarrow> string list" where
  "open_fps st = map i_fp (filter is_open (db_incidents st))"

text \<open>Postgres generates a new row identifier that no row has.\<close>

definition fresh_ids :: "env \<Rightarrow> bool" where
  "fresh_ids ev \<longleftrightarrow> (\<forall>st. ev_newid ev st \<notin> set (ids st))"

definition one_open :: "store \<Rightarrow> bool" where
  "one_open st \<longleftrightarrow> distinct (ids st) \<and> distinct (open_fps st)"

lemma one_open_map:
  assumes "one_open st" and f: "\<And>j. i_id (f j) = i_id j" "\<And>j. i_fp (f j) = i_fp j" "\<And>j. is_open (f j) \<Longrightarrow> is_open j"
    and st': "db_incidents st' = map f (db_incidents st)"
  shows "one_open st'"
proof -
  have "ids st' = ids st" by (simp add: ids_def st' f(1))
  moreover have "open_fps st' = map i_fp (filter (is_open \<circ> f) (filter is_open (db_incidents st)))"
    using f(2,3) by (auto simp: open_fps_def st' filter_map comp_def intro!: arg_cong[of _ _ "map i_fp"] filter_cong)
  moreover have "distinct (map i_fp (filter is_open (db_incidents st)))" using assms(1) by (simp add: one_open_def open_fps_def)
  ultimately show ?thesis
    using assms(1) distinct_filter_key[of i_fp "filter is_open (db_incidents st)" "is_open \<circ> f"] by (simp only: one_open_def)
qed

lemma merge_fields: "i_id (merge_incident ev c d r j) = i_id j" "i_fp (merge_incident ev c d r j) = i_fp j"
  "is_open (merge_incident ev c d r j) = is_open j" "i_paged (merge_incident ev c d r j) = i_paged j"
  "i_confidence (merge_incident ev c d r j) = pg_greatest (i_confidence j) c"
  by (simp_all add: merge_incident_def is_open_def)

lemma upsert_incidents: "db_incidents (snd (upsert_incident ev rule fp title svc conf d st)) =
  (if list_ex (open_fp fp) (db_incidents st)
   then map (\<lambda>j. if open_fp fp j then merge_incident ev conf d (r_ID rule) j else j) (db_incidents st)
   else db_incidents st @ [new_incident ev rule fp title svc conf d (ev_newid ev st)])"
  by (auto simp: upsert_incident_def Let_def list_ex_iff find_None_iff find_Some_iff split: option.split)

lemma upsert_log: "out_log (snd (upsert_incident ev rule fp title svc conf d st)) = out_log st"
  by (simp add: upsert_incident_def Let_def split: option.split)

lemma upsert_one_open:
  assumes "fresh_ids ev" and "one_open st"
  shows "one_open (snd (upsert_incident ev rule fp title svc conf d st))"
proof (cases "list_ex (open_fp fp) (db_incidents st)")
  case True
  show ?thesis
    by (rule one_open_map[OF assms(2), where f = "\<lambda>j. if open_fp fp j then merge_incident ev conf d (r_ID rule) j else j"])
       (use True in \<open>simp_all add: merge_fields upsert_incidents split: if_split_asm\<close>)
next
  case False
  then have "fp \<notin> set (open_fps st)" by (auto simp: list_ex_iff open_fps_def open_fp_def)
  moreover have "ev_newid ev st \<notin> set (ids st)" using assms(1) by (simp add: fresh_ids_def)
  ultimately show ?thesis using False assms(2)
    by (auto simp: one_open_def ids_def open_fps_def upsert_incidents new_incident_def is_open_def)
qed

lemma page_incidents: "db_incidents (snd (page ev rule cnt sev title d i st)) =
  (if ev_db ev (db_ops st) = None then map (\<lambda>j. if i_id j = i_id i then j\<lparr>i_paged := True\<rparr> else j) (db_incidents st) else db_incidents st)"
  by (auto simp: page_def Deliver_def exec_def update_id_def Let_def split: option.split)

lemma page_log: "out_log (snd (page ev rule cnt sev title d i st)) =
  out_log st @ out_log (snd (Deliver ev rule (page_payload ev rule cnt sev title d i) (st\<lparr>out_log := []\<rparr>)))"
  by (auto simp: page_def Deliver_def exec_def update_id_def Let_def split: option.split)

lemma Deliver_log: "map d_Payload (out_log (snd (Deliver ev rule p st))) = map d_Payload (out_log st) @ [p]"
  "db_incidents (snd (Deliver ev rule p st)) = db_incidents st"
  by (simp_all add: Deliver_def Let_def)

interpretation open_inv: store_invariant fresh_ids one_open
proof unfold_locales
  fix ev st rule fp title svc conf d
  show "fresh_ids ev \<Longrightarrow> one_open st \<Longrightarrow> one_open (snd (upsert_incident ev rule fp title svc conf d st))"
    by (rule upsert_one_open)
next
  fix st k s
  assume "one_open st"
  then show "one_open (snd (update_id k (\<lambda>j. j\<lparr>i_severity := s\<rparr>) st))"
    by (rule one_open_map[where f = "\<lambda>j. if i_id j = k then j\<lparr>i_severity := s\<rparr> else j"])
       (simp_all add: update_id_def is_open_def split: if_split_asm)
next
  fix st fp t
  assume "one_open st"
  then show "one_open (st\<lparr>db_incidents := map (\<lambda>j. if open_fp fp j then j\<lparr>i_status := ''resolved'', i_resolved_at := t\<rparr> else j) (db_incidents st)\<rparr>)"
    by (rule one_open_map[where f = "\<lambda>j. if open_fp fp j then j\<lparr>i_status := ''resolved'', i_resolved_at := t\<rparr> else j"])
       (simp_all add: is_open_def split: if_split_asm)
next
  fix ev st i rule cnt sev title d
  assume "one_open st"
  then show "one_open (snd (page ev rule cnt sev title d i st))"
    by (rule one_open_map[where f = "\<lambda>j. if ev_db ev (db_ops st) = None \<and> i_id j = i_id i then j\<lparr>i_paged := True\<rparr> else j"])
       (auto simp: page_incidents is_open_def map_idI split: if_split_asm)
qed (simp_all add: one_open_def ids_def open_fps_def Deliver_log)

section \<open>Pages\<close>

text \<open>The incidents a page was delivered for, in the order of the log.\<close>

definition pages :: "store \<Rightarrow> string list" where
  "pages st = map p_AlertID (filter p_Firing (map d_Payload (out_log st)))"

definition paged_ids :: "store \<Rightarrow> string set" where
  "paged_ids st = set (map i_id (filter i_paged (db_incidents st)))"

definition no_faults :: "env \<Rightarrow> bool" where
  "no_faults ev \<longleftrightarrow> fresh_ids ev \<and> ev_db ev = (\<lambda>_. None)"

definition paged_once :: "store \<Rightarrow> bool" where
  "paged_once st \<longleftrightarrow> distinct (ids st) \<and> distinct (pages st) \<and> set (pages st) = paged_ids st"

lemma pages_page: "pages (snd (page ev rule cnt sev title d i st)) = pages st @ [i_id i]"
  unfolding pages_def page_log map_append filter_append Deliver_log by (simp add: page_payload_def)

lemma pages_Deliver: "\<not> p_Firing p \<Longrightarrow> pages (snd (Deliver ev rule p st)) = pages st"
  by (simp add: pages_def Deliver_log)

lemma paged_map: "(\<And>j. i_id (f j) = i_id j) \<Longrightarrow> (\<And>j. i_paged (f j) = i_paged j) \<Longrightarrow>
  map i_id (filter i_paged (map f xs)) = map i_id (filter i_paged xs) \<and> map i_id (map f xs) = map i_id xs"
  by (induction xs) simp_all

lemma paged_mark: "set (map i_id (filter i_paged (map (\<lambda>j. if i_id j = k then j\<lparr>i_paged := True\<rparr> else j) xs))) =
  set (map i_id (filter i_paged xs)) \<union> (if k \<in> set (map i_id xs) then {k} else {})"
  by (induction xs) (simp_all del: set_map set_filter list.set_map split: if_split, auto)

lemma upsert_paged: "paged_ids (snd (upsert_incident ev rule fp title svc conf d st)) = paged_ids st"
proof -
  have "map i_id (filter i_paged (map (\<lambda>j. if open_fp fp j then merge_incident ev conf d (r_ID rule) j else j) (db_incidents st))) =
    map i_id (filter i_paged (db_incidents st))"
    by (rule paged_map[THEN conjunct1]) (simp_all add: merge_fields)
  then show ?thesis
    by (cases "list_ex (open_fp fp) (db_incidents st)") (simp_all only: paged_ids_def upsert_incidents if_True if_False, simp add: new_incident_def)
qed

lemma upsert_ids: "fresh_ids ev \<Longrightarrow> distinct (ids st) \<Longrightarrow> distinct (ids (snd (upsert_incident ev rule fp title svc conf d st)))"
  by (auto simp: ids_def upsert_incidents merge_fields new_incident_def fresh_ids_def comp_def if_distrib cong: if_cong)

lemma map_ids: "(\<And>j. i_id (f j) = i_id j) \<Longrightarrow> (\<And>j. i_paged (f j) = i_paged j) \<Longrightarrow> db_incidents st' = map f (db_incidents st) \<Longrightarrow>
  ids st' = ids st \<and> paged_ids st' = paged_ids st"
  using paged_map[of f "db_incidents st"] unfolding ids_def paged_ids_def by simp

lemma page_marks:
  "ev_db ev (db_ops st) = None \<Longrightarrow> has_row i st \<Longrightarrow>
   paged_ids (snd (page ev rule cnt sev title d i st)) = insert (i_id i) (paged_ids st) \<and>
   ids (snd (page ev rule cnt sev title d i st)) = ids st"
proof -
  assume "ev_db ev (db_ops st) = None" "has_row i st"
  moreover from this(2) have "i_id i \<in> set (map i_id (db_incidents st))" unfolding has_row_def set_map by (metis imageI)
  moreover have "map i_id (map (\<lambda>j. if i_id j = i_id i then j\<lparr>i_paged := True\<rparr> else j) (db_incidents st)) = map i_id (db_incidents st)"
    by simp
  ultimately show ?thesis
    by (simp only: paged_ids_def ids_def page_incidents simp_thms if_True paged_mark Un_insert_right Un_empty_right)
qed

lemma page_once_keeps:
  assumes "no_faults ev" and "paged_once st" and "has_row i st" and "\<not> i_paged i"
  shows "paged_once (snd (page ev rule cnt sev title d i st))"
proof -
  from assms(3,4) obtain j where j: "j \<in> set (db_incidents st)" "i_id j = i_id i" "\<not> i_paged j" by (auto simp: has_row_def)
  then have "i_id i \<notin> paged_ids st"
    using assms(2) unfolding paged_once_def ids_def paged_ids_def by (auto simp: distinct_map inj_on_def)
  then show ?thesis
    using assms page_marks[of ev st i rule cnt sev title d] by (simp add: paged_once_def pages_page no_faults_def)
qed

interpretation once_inv: store_invariant no_faults paged_once
proof unfold_locales
  fix ev st rule fp title svc conf d
  assume "no_faults ev" "paged_once st"
  then show "paged_once (snd (upsert_incident ev rule fp title svc conf d st))"
    by (simp add: paged_once_def upsert_paged upsert_ids no_faults_def pages_def upsert_log)
next
  fix st k s
  assume "paged_once st"
  then show "paged_once (snd (update_id k (\<lambda>j. j\<lparr>i_severity := s\<rparr>) st))"
    using map_ids[of "\<lambda>j. if i_id j = k then j\<lparr>i_severity := s\<rparr> else j" "snd (update_id k (\<lambda>j. j\<lparr>i_severity := s\<rparr>) st)" st]
    by (simp add: paged_once_def pages_def update_id_def)
next
  fix st fp t
  assume "paged_once st"
  then show "paged_once (st\<lparr>db_incidents := map (\<lambda>j. if open_fp fp j then j\<lparr>i_status := ''resolved'', i_resolved_at := t\<rparr> else j) (db_incidents st)\<rparr>)"
    using map_ids[of "\<lambda>j. if open_fp fp j then j\<lparr>i_status := ''resolved'', i_resolved_at := t\<rparr> else j" _ st]
    by (simp add: paged_once_def pages_def)
next
  fix ev st i rule cnt sev title d
  assume "no_faults ev" "paged_once st" "has_row i st" "\<not> i_paged i"
  then show "paged_once (snd (page ev rule cnt sev title d i st))" by (rule page_once_keeps)
qed (auto simp: paged_once_def ids_def pages_def paged_ids_def Deliver_log)

text \<open>Under any pattern of statement failures: a row marked as paged has a delivered page.\<close>

definition paged_delivered :: "store \<Rightarrow> bool" where
  "paged_delivered st \<longleftrightarrow> paged_ids st \<subseteq> set (pages st)"

interpretation delivered_inv: store_invariant "\<lambda>_. True" paged_delivered
proof unfold_locales
  fix ev st rule fp title svc conf d
  assume "paged_delivered st"
  then show "paged_delivered (snd (upsert_incident ev rule fp title svc conf d st))"
    by (simp add: paged_delivered_def upsert_paged pages_def upsert_log)
next
  fix st k s
  assume "paged_delivered st"
  then show "paged_delivered (snd (update_id k (\<lambda>j. j\<lparr>i_severity := s\<rparr>) st))"
    using map_ids[of "\<lambda>j. if i_id j = k then j\<lparr>i_severity := s\<rparr> else j" "snd (update_id k (\<lambda>j. j\<lparr>i_severity := s\<rparr>) st)" st]
    by (simp add: paged_delivered_def pages_def update_id_def)
next
  fix st fp t
  assume "paged_delivered st"
  then show "paged_delivered (st\<lparr>db_incidents := map (\<lambda>j. if open_fp fp j then j\<lparr>i_status := ''resolved'', i_resolved_at := t\<rparr> else j) (db_incidents st)\<rparr>)"
    using map_ids[of "\<lambda>j. if open_fp fp j then j\<lparr>i_status := ''resolved'', i_resolved_at := t\<rparr> else j" _ st]
    by (simp add: paged_delivered_def pages_def)
next
  fix ev st i rule cnt sev title d
  assume "paged_delivered st"
  then show "paged_delivered (snd (page ev rule cnt sev title d i st))"
    by (auto simp: paged_delivered_def paged_ids_def pages_page page_incidents split: if_split_asm)
qed (auto simp: paged_delivered_def pages_def paged_ids_def Deliver_log)

section \<open>The page gate\<close>

definition paged_gate :: "f64 \<Rightarrow> store \<Rightarrow> bool" where
  "paged_gate g st \<longleftrightarrow> distinct (ids st) \<and> (\<forall>i \<in> set (db_incidents st). i_paged i \<longrightarrow> \<not> flt (i_confidence i) g)"

lemma flt_greatest: "\<not> flt a g \<Longrightarrow> \<not> flt (pg_greatest a b) g"
  by (cases a; cases b; cases g) (auto simp: pg_greatest_def split: if_split_asm)

lemma gate_map:
  assumes "paged_gate g st" and "db_incidents st' = map f (db_incidents st)"
    and "\<And>j. j \<in> set (db_incidents st) \<Longrightarrow> i_id (f j) = i_id j"
    and "\<And>j. j \<in> set (db_incidents st) \<Longrightarrow> i_paged (f j) \<Longrightarrow> (i_paged j \<longrightarrow> \<not> flt (i_confidence j) g) \<Longrightarrow> \<not> flt (i_confidence (f j)) g"
  shows "paged_gate g st'"
proof -
  have "ids st' = ids st" using assms(2,3) by (simp add: ids_def)
  then show ?thesis using assms by (auto simp: paged_gate_def)
qed

lemma upsert_gate:
  assumes "fresh_ids ev" and "paged_gate g st"
  shows "paged_gate g (snd (upsert_incident ev rule fp title svc conf d st))"
proof (cases "list_ex (open_fp fp) (db_incidents st)")
  case True
  show ?thesis
    by (rule gate_map[OF assms(2), where f = "\<lambda>j. if open_fp fp j then merge_incident ev conf d (r_ID rule) j else j"])
       (use True in \<open>simp_all add: merge_fields upsert_incidents flt_greatest split: if_split_asm\<close>)
next
  case False
  then show ?thesis using assms upsert_ids[OF assms(1), of st rule fp title svc conf d]
    by (auto simp: paged_gate_def upsert_incidents new_incident_def)
qed

lemma page_gate:
  assumes "paged_gate g st" and "has_row i st" and "fle g (i_confidence i)"
  shows "paged_gate g (snd (page ev rule cnt sev title d i st))"
proof (rule gate_map[OF assms(1), where f = "\<lambda>j. if ev_db ev (db_ops st) = None \<and> i_id j = i_id i then j\<lparr>i_paged := True\<rparr> else j"])
  fix j assume j: "j \<in> set (db_incidents st)"
  obtain k where k: "k \<in> set (db_incidents st)" "i_id k = i_id i" "i_confidence k = i_confidence i"
    using assms(2) by (auto simp: has_row_def)
  have "j = k" if "i_id j = i_id i"
    using that j k assms(1) by (simp add: paged_gate_def ids_def distinct_map inj_on_def)
  moreover have "\<not> flt (i_confidence i) g" using assms(3) by (cases "i_confidence i"; cases g) auto
  moreover assume "i_paged j \<longrightarrow> \<not> flt (i_confidence j) g"
    "i_paged (if ev_db ev (db_ops st) = None \<and> i_id j = i_id i then j\<lparr>i_paged := True\<rparr> else j)"
  ultimately show "\<not> flt (i_confidence (if ev_db ev (db_ops st) = None \<and> i_id j = i_id i then j\<lparr>i_paged := True\<rparr> else j)) g"
    using k(3) by (auto split: if_splits)
qed (auto simp: page_incidents map_idI)

interpretation gate_inv: store_invariant "\<lambda>ev. fresh_ids ev \<and> ev_pageMin ev = g" "paged_gate g" for g
proof unfold_locales
  fix ev st rule fp title svc conf d
  show "fresh_ids ev \<and> ev_pageMin ev = g \<Longrightarrow> paged_gate g st \<Longrightarrow> paged_gate g (snd (upsert_incident ev rule fp title svc conf d st))"
    by (simp add: upsert_gate)
next
  fix st k s
  assume "paged_gate g st"
  then show "paged_gate g (snd (update_id k (\<lambda>j. j\<lparr>i_severity := s\<rparr>) st))"
    by (rule gate_map[where f = "\<lambda>j. if i_id j = k then j\<lparr>i_severity := s\<rparr> else j"]) (auto simp: update_id_def split: if_splits)
next
  fix st fp t
  assume "paged_gate g st"
  then show "paged_gate g (st\<lparr>db_incidents := map (\<lambda>j. if open_fp fp j then j\<lparr>i_status := ''resolved'', i_resolved_at := t\<rparr> else j) (db_incidents st)\<rparr>)"
    by (rule gate_map[where f = "\<lambda>j. if open_fp fp j then j\<lparr>i_status := ''resolved'', i_resolved_at := t\<rparr> else j"])
       (auto split: if_splits)
next
  fix ev st i rule cnt sev title d
  assume "fresh_ids ev \<and> ev_pageMin ev = g" "paged_gate g st" "has_row i st" "fle (ev_pageMin ev) (i_confidence i)"
  then show "paged_gate g (snd (page ev rule cnt sev title d i st))" by (simp add: page_gate)
qed (auto simp: paged_gate_def ids_def Deliver_log)

section \<open>The recorded state\<close>

interpretation frame: incident_invariant "\<lambda>_. True" "\<lambda>st. db_states st = ss" for ss
  by unfold_locales
    (simp_all add: upsert_incident_def update_id_def Deliver_def page_def exec_def Let_def split: option.split)

definition recorded :: "string \<Rightarrow> store \<Rightarrow> bool" where
  "recorded k st = (case find (\<lambda>s. s_RuleID s = k) (db_states st) of Some s \<Rightarrow> s_Firing s | None \<Rightarrow> False)"

lemma recorded_touch: "recorded k (snd (touchState ev j st)) = recorded k st"
  unfolding recorded_def touchState_def exec_def
  by (cases "ev_db ev (db_ops st)") (auto simp: find_map_same Let_def split: option.split)

lemma recorded_upsert:
  assumes "upsertState ev s st = (Ok u, st')"
  shows "recorded (s_RuleID s) st' = s_Firing s"
proof (cases "find (\<lambda>t. s_RuleID t = s_RuleID s) (db_states st)")
  case None
  then have "\<not> list_ex (\<lambda>t. s_RuleID t = s_RuleID s) (db_states st)" by (auto simp: find_None_iff list_ex_iff)
  with None assms have "db_states st' = db_states st @ [s]"
    by (cases "ev_db ev (db_ops st)") (auto simp: upsertState_def exec_def Let_def)
  with None show ?thesis by (simp add: recorded_def find_snoc)
next
  case (Some t)
  then have "list_ex (\<lambda>t. s_RuleID t = s_RuleID s) (db_states st)" by (auto simp: find_Some_iff list_ex_iff)
  with Some assms have "db_states st' = map (\<lambda>t. if s_RuleID t = s_RuleID s then merge_state s t else t) (db_states st)"
    by (cases "ev_db ev (db_ops st)") (auto simp: upsertState_def exec_def Let_def)
  moreover have "s_RuleID t = s_RuleID s" using Some by (auto simp: find_Some_iff)
  ultimately show ?thesis using Some by (simp add: recorded_def find_map_same merge_state_def)
qed

lemma recorded_frame: "recorded k (fire ev rule cnt base b st) = recorded k st"
  "recorded k (notify_resolved ev rule cnt b st) = recorded k st"
  unfolding recorded_def frame.fire_keeps[OF TrueI refl] frame.notify_keeps[OF refl] by (rule refl)+

lemma recorded_load: "loadState ev k st = (Ok s, st') \<Longrightarrow> s_Firing s = recorded k st'"
  by (auto simp: loadState_def exec_def recorded_def zero_state_def Let_def split: option.splits)

lemma transition_records:
  assumes "transition ev rule cnt base b prev st = (Ok u, st')" and "s_Firing prev = recorded (r_ID rule) st"
  shows "recorded (r_ID rule) st' = b"
proof (cases "s_Firing prev = b")
  case True
  then have "st' = snd (touchState ev (r_ID rule) (fire ev rule cnt base b st))"
    using assms(1) by (simp add: transition_def Let_def)
  with True assms(2) show ?thesis by (simp only: recorded_touch recorded_frame)
next
  case False
  then have "upsertState ev (next_state ev rule b) (notify_resolved ev rule cnt b (fire ev rule cnt base b st)) = (Ok u, st')"
    using assms(1) by (auto simp: transition_def Let_def wrapS_def split: prod.splits outcome.splits)
  from recorded_upsert[OF this] show ?thesis by (simp add: next_state_def)
qed

section \<open>A concrete environment\<close>

text \<open>An environment with an empty log store, and a store with one enabled absence rule over every service.\<close>

definition long_id :: "store \<Rightarrow> string" where
  "long_id st = replicate (Suc (sum_list (map length (ids st)))) (CHR ''x'')"

definition silent_env :: env where
  "silent_env = \<lparr>ev_ch = (\<lambda>_. Ok []), ev_oob = (\<lambda>_. 0), ev_sha1 = id, ev_feedback = (\<lambda>_ _. Ok (0, 0)), ev_unmarshal = (\<lambda>_. Ok []),
     ev_db = (\<lambda>_. None), ev_pick = hd, ev_newid = long_id, ev_now = 7, ev_http = (\<lambda>_. Status 200), ev_order = id,
     ev_notifyURL = [], ev_notifyKey = [], ev_pageMin = lit (6 / 10)\<rparr>"

definition heartbeat :: AlertRule where
  "heartbeat = \<lparr>r_ID = ''r'', r_TenantID = ''t'', r_Name = ''hb'', r_Kind = KindAbsence, r_Service = None, r_Condition = None,
     r_Threshold = None, r_WindowSeconds = 60, r_Channels = [], r_Enabled = True, r_CreatedAt = 0\<rparr>"

definition heartbeat_store :: store where
  "heartbeat_store = \<lparr>db_rules = [(heartbeat, [])], db_incidents = [], db_states = [], db_ops = 0, out_log = [], out_hooks = []\<rparr>"

lemma long_id_fresh: "long_id st \<notin> set (ids st)"
proof
  assume "long_id st \<in> set (ids st)"
  then have "length (long_id st) \<le> sum_list (map length (ids st))" by (simp add: member_le_sum_list)
  then show False by (simp add: long_id_def)
qed

lemma silent_env_ok: "no_faults silent_env" "fresh_ids silent_env" "ev_pageMin silent_env = lit (6 / 10)"
  by (simp_all add: no_faults_def fresh_ids_def silent_env_def long_id_fresh)

section \<open>Properties of the engine\<close>

text \<open>
  C11. One open incident per fingerprint, over any number of cycles: whatever the ClickHouse answers
  and whichever Postgres statements fail in each cycle, when the row identifiers are distinct and no
  two open incidents share a fingerprint before the run, so they are after it.
\<close>

theorem Run_one_open:
  assumes "list_all fresh_ids evs" and "one_open st"
  shows "one_open (Run evs st)"
  using assms by (rule open_inv.Run_keeps)

theorem Run_one_open_witness: "one_open (Run [silent_env, silent_env] heartbeat_store)"
  by (rule Run_one_open) (simp_all add: silent_env_ok one_open_def ids_def open_fps_def heartbeat_store_def)





text \<open>
  The page gate holds over any run: with a gate \<open>g\<close>, no incident marked as paged has a
  confidence below \<open>g\<close>, whatever is merged into it later.
\<close>

theorem Run_page_gate:
  assumes "list_all (\<lambda>ev. fresh_ids ev \<and> ev_pageMin ev = g) evs" and "paged_gate g st"
  shows "paged_gate g (Run evs st)"
  using assms by (rule gate_inv.Run_keeps)

theorem Run_page_gate_witness: "paged_gate (lit (6 / 10)) (Run [silent_env, silent_env] heartbeat_store)"
  by (rule Run_page_gate) (simp_all add: silent_env_ok paged_gate_def ids_def heartbeat_store_def)

text \<open>
  C26. The recorded state is the verdict: when \<open>evalRule\<close> returns without an error, the state table
  says the rule is firing exactly when the static condition or the adaptive baseline fired,
  however delivery, correlation or resolution fared.
\<close>

theorem evalRule_records:
  assumes "Evaluate (ev_ch ev) (ev_oob ev) rule = Ok (cnt, b)" and "evalRule ev rule st = (Ok u, st')"
  shows "recorded (r_ID rule) st' =
    (b \<or> adaptive_firing (case ComputeBaseline (ev_ch ev) rule baselineWindows of Ok base \<Rightarrow> base | _ \<Rightarrow> None) cnt)"
proof -
  define base where "base = (case ComputeBaseline (ev_ch ev) rule baselineWindows of Ok base \<Rightarrow> base | _ \<Rightarrow> None)"
  have ev: "bindS (wrapS (errf ''load state: %w'' []) (loadState ev (r_ID rule))) (transition ev rule cnt base (b \<or> adaptive_firing base cnt)) st = (Ok u, st')"
    using assms by (simp add: evalRule_def base_def Let_def)
  then obtain prev st1 where l: "loadState ev (r_ID rule) st = (Ok prev, st1)"
    by (auto simp: bindS_def wrapS_def split: prod.splits outcome.splits)
  with ev have "transition ev rule cnt base (b \<or> adaptive_firing base cnt) prev st1 = (Ok u, st')"
    by (simp add: bindS_def wrapS_def)
  then show ?thesis using recorded_load[OF l] unfolding base_def by (rule transition_records)
qed

theorem evalRule_records_witness: "recorded ''r'' (snd (evalRule silent_env heartbeat heartbeat_store))"
proof -
  have e: "Evaluate (ev_ch silent_env) (ev_oob silent_env) heartbeat = Ok (0, True)" by code_simp
  have r: "fst (evalRule silent_env heartbeat heartbeat_store) = Ok ()" by code_simp
  show ?thesis
    using evalRule_records[OF e, of heartbeat_store "()" "snd (evalRule silent_env heartbeat heartbeat_store)"] r
    by (simp add: heartbeat_def prod_eq_iff)
qed

end
