(* ===== verification/Lifecycle.thy ===== *)
theory Lifecycle
  imports Go_Rows "HOL-Library.List_Lexorder" "HOL-Library.Char_ord" "HOL-Library.Product_Lexorder" "HOL-Library.Multiset"
begin

text \<open>
  The storage lifecycle: the planner \<open>domains/lifecycle/lifecycle.go\<close> (which partitions move
  from the hot to the cold volume) and the mover \<open>cmd/lifecycle/main.go\<close> (snapshot, plan,
  statements). The ClickHouse client contributes the text it sends for a query
  (\<open>platform/clickhouse/clickhouse.go\<close>, \<open>Query\<close>). The tables behind the client and the
  Postgres rows are arguments. \<open>sort.Slice\<close> leaves the order of moves with equal keys open;
  the model keeps the order of the partitions, and the theorems do not depend on it.
\<close>

section \<open>Planner\<close>

definition VolumeHot :: string where "VolumeHot = ''hot''"
definition VolumeCold :: string where "VolumeCold = ''cold''"

datatype Tier = TierHot | TierCold | TierExpired

record TenantTier =
  tt_TenantID :: string
  tt_HotDays :: int
  tt_ColdDays :: int

definition Classify :: "TenantTier \<Rightarrow> int \<Rightarrow> Tier" where
  "Classify t ageDays =
     (if tt_ColdDays t > 0 \<and> ageDays \<ge> tt_ColdDays t then TierExpired
      else if ageDays \<ge> tt_HotDays t then TierCold
      else TierHot)"

record Partition =
  pt_Table :: string
  pt_Partition :: string
  pt_TenantID :: string
  pt_CurrentVolume :: string
  pt_AgeDays :: int

record Move =
  m_Table :: string
  m_Partition :: string
  m_TenantID :: string
  m_ToVolume :: string
  m_Reason :: string

text \<open>
  \<open>itoa\<close> fills a buffer of 20 bytes from the back; \<open>-n\<close> of the smallest \<open>int\<close> is itself, and
  the loop then never starts. Nineteen digits and a sign fit the buffer.
\<close>

fun itoa_loop :: "nat \<Rightarrow> int \<Rightarrow> string \<Rightarrow> string" where
  "itoa_loop 0 n buf = buf"
| "itoa_loop (Suc i) n buf = (if n > 0 then itoa_loop i (n div 10) (char_of (48 + n mod 10) # buf) else buf)"

definition itoa :: "int \<Rightarrow> string" where
  "itoa n =
     (if n = 0 then ''0''
      else let neg = n < 0; m = (if neg then wrap64 (- n) else n); buf = itoa_loop 20 m []
           in if neg then CHR ''-'' # buf else buf)"

text \<open>The text between the numbers holds the UTF-8 bytes of the sign for \<open>at least\<close>.\<close>

definition reason :: "int \<Rightarrow> int \<Rightarrow> string" where
  "reason ageDays hotDays =
     ''age '' @ itoa ageDays @ ''d '' @ [CHR 0xE2, CHR 0x89, CHR 0xA5] @ '' hot window '' @ itoa hotDays @ ''d''"

text \<open>The configuration of a partition's tenant, or the default under the tenant's name.\<close>

definition tier_for :: "(string \<rightharpoonup> TenantTier) \<Rightarrow> TenantTier \<Rightarrow> string \<Rightarrow> TenantTier" where
  "tier_for tiers def tenant = (case tiers tenant of Some cfg \<Rightarrow> cfg | None \<Rightarrow> def\<lparr>tt_TenantID := tenant\<rparr>)"

definition plan_step :: "(string \<rightharpoonup> TenantTier) \<Rightarrow> TenantTier \<Rightarrow> Partition \<Rightarrow> Move list" where
  "plan_step tiers def p =
     (if pt_CurrentVolume p = VolumeCold then []
      else let cfg = tier_for tiers def (pt_TenantID p) in
        if Classify cfg (pt_AgeDays p) = TierCold
        then [\<lparr>m_Table = pt_Table p, m_Partition = pt_Partition p, m_TenantID = pt_TenantID p, m_ToVolume = VolumeCold,
               m_Reason = reason (pt_AgeDays p) (tt_HotDays cfg)\<rparr>]
        else [])"

definition move_key :: "Move \<Rightarrow> string \<times> string \<times> string" where
  "move_key m = (m_Table m, m_Partition m, m_TenantID m)"

definition MovePlan :: "Partition list \<Rightarrow> (string \<rightharpoonup> TenantTier) \<Rightarrow> TenantTier \<Rightarrow> Move list" where
  "MovePlan parts tiers def = sort_key move_key (foldl (\<lambda>moves p. moves @ plan_step tiers def p) [] parts)"

section \<open>Mover\<close>

definition defaultTier :: TenantTier where
  "defaultTier = \<lparr>tt_TenantID = [], tt_HotDays = 3, tt_ColdDays = 30\<rparr>"

text \<open>\<open>strings.Trim\<close> with a cut set, \<open>strings.IndexByte\<close> as the text before the byte.\<close>

definition Trim :: "string \<Rightarrow> string \<Rightarrow> string" where
  "Trim s cutset = rev (dropWhile (\<lambda>c. c \<in> set cutset) (rev (dropWhile (\<lambda>c. c \<in> set cutset) s)))"

definition tenantFromPartition :: "string \<Rightarrow> string" where
  "tenantFromPartition p =
     (let p = TrimPrefix (TrimSpace p) ''(''; p = takeWhile (\<lambda>c. c \<noteq> CHR '','') p
      in Trim (TrimSpace p) [CHR 0x27])"

definition escapeID :: "string \<Rightarrow> string" where
  "escapeID s = ReplaceAll s [CHR 0x27] [CHR 0x27, CHR 0x27]"

text \<open>The value of \<open>strconv.Atoi\<close> with its error dropped: 0 on bad syntax, the nearest bound when out of range.\<close>

definition Atoi_val :: "string \<Rightarrow> int" where
  "Atoi_val s =
     (let (neg, ds) = take_sign s in
      if ds = [] \<or> \<not> list_all isDigit ds then 0
      else if neg then max (- (2 ^ 63)) (- digits_val ds) else min int64_max (digits_val ds))"

text \<open>\<open>str\<close>: the cells of the snapshot are strings, or numbers printed by \<open>fmt.Sprint\<close>; anything else stands for nil.\<close>

definition str_cell :: "(any \<Rightarrow> string) \<Rightarrow> any \<Rightarrow> string" where
  "str_cell sprint v = (case v of AnyStr s \<Rightarrow> s | AnyOther \<Rightarrow> [] | _ \<Rightarrow> sprint v)"

definition nl_tabs :: "nat \<Rightarrow> string" where
  "nl_tabs n = CHR 0x0A # replicate n (CHR 0x09)"

definition q3 :: "string \<Rightarrow> string" where
  "q3 s = [CHR 0x27] @ s @ [CHR 0x27]"

definition snapshotSQL :: string where
  "snapshotSQL =
     nl_tabs 2 @ ''SELECT table, partition_id, partition, disk_name,'' @
     nl_tabs 2 @ ''       toString(dateDiff('' @ q3 ''day'' @ '', max(max_time), now())) AS age_days'' @
     nl_tabs 2 @ ''FROM system.parts'' @
     nl_tabs 2 @ ''WHERE database = '' @ q3 ''qeet_logs'' @ '' AND active = 1'' @
     nl_tabs 2 @ ''  AND table IN ('' @ q3 ''logs'' @ '','' @ q3 ''metrics'' @ '','' @ q3 ''traces'' @ '')'' @
     nl_tabs 2 @ ''GROUP BY table, partition_id, partition, disk_name'' @
     nl_tabs 2 @ ''FORMAT JSON''"

definition part_of_row :: "(any \<Rightarrow> string) \<Rightarrow> row \<Rightarrow> Partition" where
  "part_of_row sprint r =
     \<lparr>pt_Table = str_cell sprint (cell r ''table''), pt_Partition = str_cell sprint (cell r ''partition_id''),
      pt_TenantID = tenantFromPartition (str_cell sprint (cell r ''partition'')),
      pt_CurrentVolume = (if str_cell sprint (cell r ''disk_name'') \<noteq> ''default'' then VolumeCold else VolumeHot),
      pt_AgeDays = Atoi_val (str_cell sprint (cell r ''age_days''))\<rparr>"

text \<open>The body the ClickHouse client posts for a query: the format clause is appended.\<close>

definition Query_body :: "string \<Rightarrow> string" where
  "Query_body sql = sql @ [CHR 0x0A] @ ''FORMAT JSONEachRow''"

definition snapshotParts :: "(any \<Rightarrow> string) \<Rightarrow> ch_query \<Rightarrow> (goerror, Partition list) outcome" where
  "snapshotParts sprint post = bindO (post (Query_body snapshotSQL)) (\<lambda>rows. Ok (map (part_of_row sprint) rows))"

text \<open>\<open>loadTiers\<close>: a later row of the same tenant replaces an earlier one.\<close>

definition loadTiers :: "(goerror, TenantTier list) outcome \<Rightarrow> (goerror, string \<rightharpoonup> TenantTier) outcome" where
  "loadTiers rows = bindO rows (\<lambda>ts. Ok (foldl (\<lambda>out t. out(tt_TenantID t \<mapsto> t)) Map.empty ts))"

definition move_stmt :: "Move \<Rightarrow> string" where
  "move_stmt m = ''ALTER TABLE qeet_logs.'' @ m_Table m @ '' MOVE PARTITION ID '' @ q3 (escapeID (m_Partition m)) @ '' TO VOLUME '' @ q3 ''cold''"

text \<open>
  One cycle: the statements executed and how many succeeded. \<open>ex n stmt\<close> is the error of the n-th
  statement of the cycle, if any.
\<close>

definition runOnce :: "(any \<Rightarrow> string) \<Rightarrow> (goerror, TenantTier list) outcome \<Rightarrow> ch_query \<Rightarrow> (nat \<Rightarrow> string \<Rightarrow> goerror option) \<Rightarrow> string list \<times> nat" where
  "runOnce sprint tierRows post ex =
     (case loadTiers tierRows of
        Ok tiers \<Rightarrow>
          (case snapshotParts sprint post of
             Ok parts \<Rightarrow>
               foldl (\<lambda>(sent, moved) m. (sent @ [move_stmt m], case ex (length sent) (move_stmt m) of None \<Rightarrow> moved + 1 | Some _ \<Rightarrow> moved))
                 ([], 0) (MovePlan parts tiers defaultTier)
           | _ \<Rightarrow> ([], 0))
      | _ \<Rightarrow> ([], 0))"

section \<open>The plan\<close>

definition due :: "(string \<rightharpoonup> TenantTier) \<Rightarrow> TenantTier \<Rightarrow> Partition \<Rightarrow> bool" where
  "due tiers def p \<longleftrightarrow> pt_CurrentVolume p \<noteq> VolumeCold \<and> Classify (tier_for tiers def (pt_TenantID p)) (pt_AgeDays p) = TierCold"

definition move_of :: "(string \<rightharpoonup> TenantTier) \<Rightarrow> TenantTier \<Rightarrow> Partition \<Rightarrow> Move" where
  "move_of tiers def p = \<lparr>m_Table = pt_Table p, m_Partition = pt_Partition p, m_TenantID = pt_TenantID p, m_ToVolume = VolumeCold,
     m_Reason = reason (pt_AgeDays p) (tt_HotDays (tier_for tiers def (pt_TenantID p)))\<rparr>"

lemma plan_fold: "foldl (\<lambda>moves p. moves @ plan_step tiers def p) ms parts = ms @ map (move_of tiers def) (filter (due tiers def) parts)"
  by (induction parts arbitrary: ms) (auto simp: plan_step_def due_def move_of_def Let_def)

lemma MovePlan_mset: "mset (MovePlan parts tiers def) = mset (map (move_of tiers def) (filter (due tiers def) parts))"
  by (simp add: MovePlan_def plan_fold)

lemma Classify_cold: "Classify cfg age = TierCold \<longleftrightarrow> tt_HotDays cfg \<le> age \<and> (tt_ColdDays cfg > 0 \<longrightarrow> age < tt_ColdDays cfg)"
  by (auto simp: Classify_def)

text \<open>The snapshot after the planned moves have been carried out.\<close>

definition relocate :: "Move list \<Rightarrow> Partition list \<Rightarrow> Partition list" where
  "relocate moves parts = map (\<lambda>p. if (pt_Table p, pt_Partition p, pt_TenantID p) \<in> set (map move_key moves)
     then p\<lparr>pt_CurrentVolume := VolumeCold\<rparr> else p) parts"

lemma plan_Nil: "MovePlan parts tiers def = [] \<longleftrightarrow> (\<forall>p \<in> set parts. \<not> due tiers def p)"
proof -
  have "MovePlan parts tiers def = [] \<longleftrightarrow> mset (MovePlan parts tiers def) = {#}" by simp
  then show ?thesis unfolding MovePlan_mset by (auto simp: filter_empty_conv)
qed

lemma due_planned: "p \<in> set parts \<Longrightarrow> due tiers def p \<Longrightarrow> (pt_Table p, pt_Partition p, pt_TenantID p) \<in> set (map move_key (MovePlan parts tiers def))"
proof -
  assume "p \<in> set parts" "due tiers def p"
  then have "move_of tiers def p \<in> set (MovePlan parts tiers def)"
    using mset_eq_setD[OF MovePlan_mset[of parts tiers "def"]] by auto
  then have "move_key (move_of tiers def p) \<in> set (map move_key (MovePlan parts tiers def))" by simp
  then show ?thesis by (simp add: move_key_def move_of_def)
qed

section \<open>Numbers\<close>

lemma itoa_loop_nonpos [simp]: "n \<le> 0 \<Longrightarrow> itoa_loop k n buf = buf"
  by (cases k) simp_all

lemma itoa_loop_digits:
  assumes "0 < n" and "n < 10 ^ k"
  shows "itoa_loop k n buf = show_digits n @ buf"
  using assms
proof (induction k arbitrary: n buf)
  case 0
  then show ?case by simp
next
  case (Suc k)
  show ?case
  proof (cases "n < 10")
    case True
    then have "n div 10 = 0" "n mod 10 = n" using Suc.prems by simp_all
    then show ?thesis using True Suc.prems by (subst show_digits.simps) (simp add: digit_char_def)
  next
    case False
    then have "0 < n div 10" "n div 10 < 10 ^ k" using Suc.prems by auto
    from Suc.IH[OF this] False Suc.prems show ?thesis by (subst show_digits.simps) (simp add: digit_char_def)
  qed
qed

text \<open>
  C16. The plan is exact: it holds one move to the cold volume for every partition that is not on the
  cold volume, is at least as old as its tenant's hot window and, when the tenant has a retention
  boundary, younger than it; it holds no other move and is sorted by table, partition and tenant.
\<close>

theorem MovePlan_exact:
  "mset (MovePlan parts tiers def) = image_mset (move_of tiers def) {# p \<in># mset parts. pt_CurrentVolume p \<noteq> VolumeCold \<and>
     (let cfg = tier_for tiers def (pt_TenantID p) in
      tt_HotDays cfg \<le> pt_AgeDays p \<and> (tt_ColdDays cfg \<le> 0 \<or> pt_AgeDays p < tt_ColdDays cfg)) #} \<and>
   sorted (map move_key (MovePlan parts tiers def))"
proof -
  have "due tiers def p \<longleftrightarrow> pt_CurrentVolume p \<noteq> VolumeCold \<and> (let cfg = tier_for tiers def (pt_TenantID p) in
      tt_HotDays cfg \<le> pt_AgeDays p \<and> (tt_ColdDays cfg \<le> 0 \<or> pt_AgeDays p < tt_ColdDays cfg))" for p
    unfolding due_def Classify_cold Let_def by (simp add: imp_conv_disj not_less)
  then show ?thesis unfolding MovePlan_mset by (simp add: MovePlan_def)
qed

text \<open>
  C39. The lifecycle converges in one cycle: once the planned moves are carried out, planning again
  over the same ages moves nothing.
\<close>

theorem MovePlan_converges: "MovePlan (relocate (MovePlan parts tiers def) parts) tiers def = []"
  unfolding plan_Nil
proof
  fix q assume "q \<in> set (relocate (MovePlan parts tiers def) parts)"
  then obtain p where p: "p \<in> set parts" and q: "q = (if (pt_Table p, pt_Partition p, pt_TenantID p) \<in> set (map move_key (MovePlan parts tiers def))
     then p\<lparr>pt_CurrentVolume := VolumeCold\<rparr> else p)" unfolding relocate_def set_map by (rule imageE)
  show "\<not> due tiers def q"
  proof (cases "due tiers def p")
    case True
    from due_planned[OF p this] have "pt_CurrentVolume q = VolumeCold" unfolding q by (simp only: if_True) simp
    then show ?thesis by (simp add: due_def)
  next
    case False
    then show ?thesis unfolding q due_def by (cases "(pt_Table p, pt_Partition p, pt_TenantID p) \<in> set (map move_key (MovePlan parts tiers def))") simp_all
  qed
qed

text \<open>
  The hand-written \<open>itoa\<close> prints the decimal text of every \<open>int\<close> but the smallest, whose
  negation overflows: it prints a lone minus sign.
\<close>

theorem itoa_prints:
  assumes "in_int64 n"
  shows "itoa n = (if n = - (2 ^ 63) then ''-'' else show_int n)"
proof -
  have "itoa_loop 20 m [] = show_digits m" if "0 < m" "m < 2 ^ 63" for m
    using itoa_loop_digits[of m 20 "[]"] that by simp
  moreover have "show_digits 0 = ''0''" by (subst show_digits.simps) (simp add: digit_char_def char_of_def)
  ultimately show ?thesis using assms by (auto simp: itoa_def show_int_def Let_def in_int64_def wrap64_def)
qed

theorem itoa_prints_witness: "itoa (- 17) = show_int (- 17) \<and> show_int (- 17) = ''-17''"
proof
  show "itoa (- 17) = show_int (- 17)" using itoa_prints[of "- 17"] by (simp add: in_int64_def)
  show "show_int (- 17) = ''-17''" by code_simp
qed

section \<open>The mover\<close>

lemma Trim_quoted: "CHR 0x27 \<notin> set t \<Longrightarrow> Trim ([CHR 0x27] @ t @ [CHR 0x27]) [CHR 0x27] = t"
proof -
  assume t: "CHR 0x27 \<notin> set t"
  then have "dropWhile (\<lambda>c. c = CHR 0x27) (t @ [CHR 0x27]) = (if t = [] then [] else t @ [CHR 0x27])" by (cases t) auto
  moreover from t have "dropWhile (\<lambda>c. c = CHR 0x27) (rev t) = rev t"
    by (auto simp: dropWhile_eq_self_iff hd_rev dest: last_in_set)
  ultimately show ?thesis by (simp add: Trim_def)
qed

text \<open>
  The tenant read from a partition key is the tenant that was printed: for the key text
  \<open>('t',month)\<close>, when \<open>t\<close> has no comma and no quote, \<open>tenantFromPartition\<close> gives \<open>t\<close>.
\<close>

theorem tenantFromPartition_roundtrip:
  assumes "CHR '','' \<notin> set t" and "CHR 0x27 \<notin> set t"
  shows "tenantFromPartition (''('' @ [CHR 0x27] @ t @ [CHR 0x27] @ '','' @ month @ '')'') = t"
proof -
  have sp: "\<not> is_space (CHR ''('')" "\<not> is_space (CHR 0x27)" "\<not> is_space (CHR '')'')" by (simp_all add: is_space_def)
  then have "TrimSpace (''('' @ [CHR 0x27] @ t @ [CHR 0x27] @ '','' @ month @ '')'') = ''('' @ [CHR 0x27] @ t @ [CHR 0x27] @ '','' @ month @ '')''"
    by (simp add: TrimSpace_def)
  moreover have "takeWhile (\<lambda>c. c \<noteq> CHR '','') ([CHR 0x27] @ t @ [CHR 0x27] @ '','' @ month @ '')'') = [CHR 0x27] @ t @ [CHR 0x27]"
    using assms(1) by (auto simp: takeWhile_append)
  moreover have "TrimSpace ([CHR 0x27] @ t @ [CHR 0x27]) = [CHR 0x27] @ t @ [CHR 0x27]" using sp by (simp add: TrimSpace_def)
  ultimately show ?thesis using Trim_quoted[OF assms(2)] by (simp add: tenantFromPartition_def TrimPrefix_def HasPrefix_def Let_def)
qed

theorem tenantFromPartition_roundtrip_witness:
  "tenantFromPartition (''('' @ [CHR 0x27] @ ''t1'' @ [CHR 0x27] @ '','' @ '' 202601'' @ '')'') = ''t1''"
  by (rule tenantFromPartition_roundtrip) simp_all

lemma run_fold:
  "foldl (\<lambda>(sent, moved) m. (sent @ [move_stmt m], case ex (length sent) (move_stmt m) of None \<Rightarrow> moved + 1 | Some _ \<Rightarrow> moved)) (s, k) ms =
   (s @ map move_stmt ms, k + length (filter (\<lambda>(i, q). ex i q = None) (enumerate (length s) (map move_stmt ms))))"
  by (induction ms arbitrary: s k) (auto split: option.split)

text \<open>
  A cycle is best effort: whatever statements fail, one statement is sent for every planned
  move, in the order of the plan, and the count reported is the number that succeeded.
\<close>

theorem runOnce_best_effort:
  assumes "loadTiers tierRows = Ok tiers" and "snapshotParts sprint post = Ok parts"
  shows "runOnce sprint tierRows post ex =
    (map move_stmt (MovePlan parts tiers defaultTier),
     length (filter (\<lambda>(i, q). ex i q = None) (enumerate 0 (map move_stmt (MovePlan parts tiers defaultTier)))))"
  using assms by (simp add: runOnce_def run_fold)

definition aged_row :: row where
  "aged_row = [(''table'', AnyStr ''logs''), (''partition_id'', AnyStr ''p''), (''partition'', AnyStr ([CHR ''('', CHR 0x27] @ ''t'' @ [CHR 0x27] @ '', 202601)'')),
     (''disk_name'', AnyStr ''default''), (''age_days'', AnyStr ''7'')]"

theorem runOnce_best_effort_witness:
  "runOnce (\<lambda>_. []) (Ok []) (\<lambda>_. Ok [aged_row]) (\<lambda>_ _. None) =
     (map move_stmt (MovePlan [part_of_row (\<lambda>_. []) aged_row] Map.empty defaultTier), 1)"
proof -
  have "length (MovePlan [part_of_row (\<lambda>_. []) aged_row] Map.empty defaultTier) = 1" by code_simp
  then show ?thesis
    using runOnce_best_effort[of "Ok []" Map.empty "\<lambda>_. []" "\<lambda>_. Ok [aged_row]" "[part_of_row (\<lambda>_. []) aged_row]" "\<lambda>_ _. None"]
    by (simp add: loadTiers_def snapshotParts_def length_enumerate filter_True)
qed

text \<open>
  The snapshot never succeeds against a store that accepts one format clause per statement: the
  query text already ends in one and the client appends another, so the mover issues no move.
\<close>

theorem snapshot_two_formats:
  assumes "\<forall>q. \<exists>e. post (q @ ''FORMAT JSON'' @ [CHR 0x0A] @ ''FORMAT JSONEachRow'') = Err e"
  shows "runOnce sprint tierRows post ex = ([], 0)"
proof -
  obtain q where "Query_body snapshotSQL = q @ ''FORMAT JSON'' @ [CHR 0x0A] @ ''FORMAT JSONEachRow''"
    unfolding Query_body_def snapshotSQL_def append_assoc[symmetric] by blast
  then obtain e where "post (Query_body snapshotSQL) = Err e" using assms by fastforce
  then show ?thesis by (simp add: runOnce_def snapshotParts_def split: outcome.split)
qed

definition one_format :: ch_query where
  "one_format sql = (if HasPrefix (rev sql) (rev (''FORMAT JSON'' @ [CHR 0x0A] @ ''FORMAT JSONEachRow'')) then Err (Sentinel ''syntax'') else Ok [aged_row])"

theorem snapshot_two_formats_witness: "runOnce (\<lambda>_. []) (Ok []) one_format (\<lambda>_ _. None) = ([], 0)"
  by (rule snapshot_two_formats) (simp add: one_format_def HasPrefix_def)

end
