(* ===== verification/Loki.thy ===== *)
theory Loki
  imports LogQL_Compiler Sql_Scan
begin

text \<open>
  The Grafana Loki translation (\<open>domains/grafana/loki.go\<close>): stream selectors, the window and
  direction of a range query, and the LogQL++ statement they become. The reference instant
  \<open>time.Now()\<close> is the argument \<open>clock\<close>, used when the query carries none.

  The matcher expression of the source,
  \<open>([a-zA-Z_][a-zA-Z0-9_.]*)\s*(=~|!~|!=|=)\s*"((?:[^"\\]|\\.)*)"\<close>, is matched here from left
  to right without backtracking: a shorter label or white-space run is followed by a character
  that cannot start the next part, a shorter operator by a \<open>~\<close> that is no quote, and the value
  ends at its first unescaped quote, so the leftmost-first match is the only one.
\<close>

section \<open>Data\<close>

definition Labels :: "string list" where
  "Labels = [''service'', ''level'', ''environment'', ''trace_id'', ''span_id'', ''ingested_by'']"

definition IsLabel :: "string \<Rightarrow> bool" where
  "IsLabel name \<longleftrightarrow> ToLower name \<in> set Labels"

record LokiOptions =
  lo_DefaultLimit :: int
  lo_MaxLimit :: int

record Matcher =
  m_Label :: string
  m_Op :: string
  m_Value :: string

record LokiQuery =
  q_Selector :: string
  q_StartNs :: int
  q_EndNs :: int
  q_Limit :: int
  q_Forward :: bool
  q_NowNs :: int

record Translated =
  t_LogQLPP :: string
  t_Matchers :: "Matcher list"
  t_LabelSet :: "string \<rightharpoonup> string"

definition loki_cols :: "string list" where
  "loki_cols = [''timestamp'', ''service'', ''level'', ''environment'', ''message'', ''trace_id'', ''span_id'']"

section \<open>Stream selectors\<close>

definition isLabelStart :: "char \<Rightarrow> bool" where
  "isLabelStart c \<longleftrightarrow> between CHR ''a'' CHR ''z'' c \<or> between CHR ''A'' CHR ''Z'' c \<or> c = CHR ''_''"

definition isLabelPart :: "char \<Rightarrow> bool" where
  "isLabelPart c \<longleftrightarrow> isLabelStart c \<or> between CHR ''0'' CHR ''9'' c \<or> c = CHR ''.''"

text \<open>The class \<open>\s\<close> of Go's regular expressions.\<close>

definition re_space :: "char \<Rightarrow> bool" where
  "re_space c \<longleftrightarrow> code_of c \<in> {9, 10, 12, 13, 32}"

definition match_op :: "string \<Rightarrow> (string \<times> string) option" where
  "match_op s =
     (if HasPrefix s ''=~'' then Some (''=~'', drop 2 s)
      else if HasPrefix s ''!~'' then Some (''!~'', drop 2 s)
      else if HasPrefix s ''!='' then Some (''!='', drop 2 s)
      else if HasPrefix s ''='' then Some (''='', drop 1 s)
      else None)"

text \<open>The group \<open>(?:[^"\\]|\\.)*\<close> up to the closing quote; \<open>.\<close> is any character but a newline.\<close>

fun match_value :: "string \<Rightarrow> (string \<times> string) option" where
  "match_value [] = None"
| "match_value (c # cs) =
     (if c = dquote then Some ([], cs)
      else if c = backslash then
        (case cs of
           [] \<Rightarrow> None
         | d # ds \<Rightarrow> if d = CHR 0x0A then None
                    else map_option (\<lambda>(v, r). (c # d # v, r)) (match_value ds))
      else map_option (\<lambda>(v, r). (c # v, r)) (match_value cs))"

text \<open>One match of \<open>reMatcher\<close> at the start of the text: its three groups and the text behind it.\<close>

definition match_here :: "string \<Rightarrow> (string \<times> string \<times> string \<times> string) option" where
  "match_here s =
     (if s = [] \<or> \<not> isLabelStart (hd s) then None
      else case match_op (dropWhile re_space (dropWhile isLabelPart s)) of
        None \<Rightarrow> None
      | Some (op, r) \<Rightarrow>
         (case dropWhile re_space r of
            [] \<Rightarrow> None
          | c # cs \<Rightarrow>
              if c \<noteq> dquote then None
              else map_option (\<lambda>(v, rest). (takeWhile isLabelPart s, op, v, rest)) (match_value cs)))"

text \<open>\<open>unescape\<close>: every backslash with a byte behind it gives that byte.\<close>

fun unescape_loop :: "string \<Rightarrow> string" where
  "unescape_loop [] = []"
| "unescape_loop [c] = [c]"
| "unescape_loop (c # d # r) = (if c = backslash then d # unescape_loop r else c # unescape_loop (d # r))"

definition unescape :: "string \<Rightarrow> string" where
  "unescape v = (if backslash \<notin> set v then v else unescape_loop v)"

lemma match_value_shorter: "match_value s = Some (v, r) \<Longrightarrow> length r < length s"
  by (induction s arbitrary: v r rule: match_value.induct) (fastforce split: if_splits list.splits)+

lemma match_op_shorter: "match_op s = Some (op, r) \<Longrightarrow> length r \<le> length s"
  by (auto simp: match_op_def split: if_splits)

lemma match_here_shorter:
  assumes "match_here s = Some (l, op, v, rest)" shows "length rest < length s"
proof -
  from assms obtain r cs where 1: "match_op (dropWhile re_space (dropWhile isLabelPart s)) = Some (op, r)"
    and 2: "dropWhile re_space r = dquote # cs" and 3: "match_value cs = Some (v, rest)"
    by (auto simp: match_here_def split: if_splits option.splits list.splits)
  have "length rest < length (dropWhile re_space r)" using match_value_shorter[OF 3] by (simp add: 2)
  also have "\<dots> \<le> length r" by (rule length_dropWhile_le)
  also have "\<dots> \<le> length (dropWhile re_space (dropWhile isLabelPart s))" by (rule match_op_shorter[OF 1])
  also have "\<dots> \<le> length s" by (meson le_trans length_dropWhile_le)
  finally show ?thesis .
qed

text \<open>
  \<open>FindAllStringSubmatch(inner, -1)\<close> and \<open>ReplaceAllString(inner, "")\<close> in one scan: the groups
  of the matches in order, and the text no match consumed.
\<close>

function find_all :: "string \<Rightarrow> (string \<times> string \<times> string) list \<times> string" where
  "find_all [] = ([], [])"
| "find_all (c # cs) =
     (case match_here (c # cs) of
        Some (l, op, v, rest) \<Rightarrow> (let (ms, res) = find_all rest in ((l, op, v) # ms, res))
      | None \<Rightarrow> (let (ms, res) = find_all cs in (ms, c # res)))"
  by pat_completeness auto
termination
  by (relation "measure length") (auto dest!: match_here_shorter[of "_ # _"])

declare find_all.simps(2) [simp del]

definition isFiller :: "char \<Rightarrow> bool" where
  "isFiller r \<longleftrightarrow> r = CHR '','' \<or> r = CHR '' '' \<or> r = CHR 0x09 \<or> r = CHR 0x0A \<or> r = CHR 0x0D"

definition matcher_of :: "string \<times> string \<times> string \<Rightarrow> Matcher" where
  "matcher_of g = (case g of (l, op, v) \<Rightarrow> \<lparr>m_Label = l, m_Op = op, m_Value = unescape v\<rparr>)"

fun IndexByte :: "string \<Rightarrow> char \<Rightarrow> nat option" where
  "IndexByte [] c = None"
| "IndexByte (x # xs) c = (if x = c then Some 0 else map_option Suc (IndexByte xs c))"

definition LastIndexByte :: "string \<Rightarrow> char \<Rightarrow> nat option" where
  "LastIndexByte s c = map_option (\<lambda>i. length s - 1 - i) (IndexByte (rev s) c)"

definition ParseSelector :: "string \<Rightarrow> (goerror, Matcher list) outcome" where
  "ParseSelector sel =
     (let s = TrimSpace sel in
      if s = [] then Err (Errorf ''empty selector'' [])
      else case (IndexByte s CHR ''{'', LastIndexByte s CHR ''}'') of
        (Some 0, Some closeIdx) \<Rightarrow>
          (let rest = TrimSpace (drop (closeIdx + 1) s) in
           if rest \<noteq> [] then
             Err (Errorf ''log-pipeline stages are not supported by the LogQL++ read path: %q'' [rest])
           else
             let (ms, residue) = find_all (take (closeIdx - 1) (drop 1 s)) in
             if list_all isFiller residue then Ok (map matcher_of ms)
             else Err (Errorf ''could not parse stream selector %q'' [sel]))
      | _ \<Rightarrow> Err (Errorf (''selector must be a Loki stream selector like {service='' @ [dquote] @ ''api'' @ [dquote] @ ''}'') []))"

section \<open>Translation\<close>

definition nanos :: int where
  "nanos = 1000000000"

definition relTime :: "int \<Rightarrow> int \<Rightarrow> bool \<Rightarrow> string" where
  "relTime nowNs tsNs roundUp =
     (let diff = wrap64 (nowNs - tsNs) in
      if diff \<le> 0 then ''now()''
      else let sec = diff div nanos;
               sec = (if roundUp \<and> diff mod nanos \<noteq> 0 then sec + 1 else sec)
           in if sec \<le> 0 then ''now()'' else ''now() - '' @ show_int sec @ ''s'')"

definition logqlQuote :: "string \<Rightarrow> string" where
  "logqlQuote s =
     (let s = ReplaceAll s [backslash] [backslash, backslash];
          s = ReplaceAll s [squote] [backslash, squote]
      in [squote] @ s @ [squote])"

text \<open>One pass of the matcher loop: the predicate it appends, and the label it records.\<close>

definition pred_of :: "Matcher \<Rightarrow> (goerror, string) outcome" where
  "pred_of m =
     (let col = ToLower (m_Label m) in
      if \<not> IsLabel col then
        Err (Errorf ''unknown label %q (browsable labels: %s)'' [m_Label m, Join Labels '', ''])
      else if m_Op m = ''='' then Ok (col @ '' = '' @ logqlQuote (m_Value m))
      else if m_Op m = ''!='' then Ok (col @ '' != '' @ logqlQuote (m_Value m))
      else Err (Errorf ''matcher %s%s is not supported: the LogQL++ read path handles = and != only (regex =~/!~ has no columnar equivalent)''
             [m_Label m, m_Op m]))"

definition record_label :: "(string \<rightharpoonup> string) \<Rightarrow> Matcher \<Rightarrow> (string \<rightharpoonup> string)" where
  "record_label ls m = (if m_Op m = ''='' then ls(ToLower (m_Label m) \<mapsto> m_Value m) else ls)"

text \<open>The window in nanoseconds: the reference instant, the start and the end.\<close>

definition window :: "int \<Rightarrow> LokiQuery \<Rightarrow> int \<times> int \<times> int" where
  "window clock q =
     (let now = (if q_NowNs q = 0 then clock else q_NowNs q);
          end = (if q_EndNs q = 0 then now else q_EndNs q);
          start = (if q_StartNs q = 0 then wrap64 (end - 3600 * nanos) else q_StartNs q)
      in (now, start, end))"

definition loki_limit :: "LokiQuery \<Rightarrow> LokiOptions \<Rightarrow> int" where
  "loki_limit q opts =
     (let l = (if q_Limit q \<le> 0 then lo_DefaultLimit opts else q_Limit q)
      in if lo_MaxLimit opts > 0 \<and> l > lo_MaxLimit opts then lo_MaxLimit opts else l)"

definition Translate :: "int \<Rightarrow> LokiQuery \<Rightarrow> LokiOptions \<Rightarrow> (goerror, Translated) outcome" where
  "Translate clock q opts =
     bindO (ParseSelector (q_Selector q)) (\<lambda>matchers.
       let (now, start, end) = window clock q in
       if start > end then Err (Errorf ''start (%d) must not be after end (%d)'' [show_int start, show_int end])
       else bindO (mapO pred_of matchers) (\<lambda>preds.
         let preds = preds @ [''time >= '' @ relTime now start True, ''time <= '' @ relTime now end False];
             dir = (if q_Forward q then ''ASC'' else ''DESC'')
         in Ok \<lparr>t_LogQLPP = ''SELECT '' @ Join loki_cols '', '' @ '' FROM logs WHERE '' @ Join preds '' AND '' @
                   '' ORDER BY timestamp '' @ dir @ '' LIMIT '' @ show_int (loki_limit q opts),
                t_Matchers = matchers,
                t_LabelSet = foldl record_label Map.empty matchers\<rparr>))"

section \<open>Selectors and their text\<close>

interpretation loki: literal_quoting logqlQuote
  by unfold_locales (simp add: logqlQuote_def Let_def ReplaceAll_escape read_literal_def read_body_escape)

text \<open>How Grafana writes a selector: matchers with escaped values, separated by commas.\<close>

definition esc_char :: "char \<Rightarrow> string" where
  "esc_char c = (if c = backslash \<or> c = dquote then [backslash, c] else [c])"

definition esc :: "string \<Rightarrow> string" where
  "esc v = concat (map esc_char v)"

definition wf_label :: "string \<Rightarrow> bool" where
  "wf_label l \<longleftrightarrow> l \<noteq> [] \<and> isLabelStart (hd l) \<and> list_all isLabelPart l"

definition wf_matcher :: "Matcher \<Rightarrow> bool" where
  "wf_matcher m \<longleftrightarrow> wf_label (m_Label m) \<and> m_Op m \<in> set [''='', ''!='', ''=~'', ''!~'']"

definition render :: "Matcher \<Rightarrow> string" where
  "render m = m_Label m @ m_Op m @ dquote # esc (m_Value m) @ [dquote]"

definition selector_text :: "Matcher list \<Rightarrow> string" where
  "selector_text ms = CHR ''{'' # Join (map render ms) '', '' @ ''}''"

lemma esc_simps [simp]: "esc [] = []" "esc (c # cs) = esc_char c @ esc cs"
  by (simp_all add: esc_def)

lemma match_value_esc: "match_value (esc v @ dquote # r) = Some (esc v, r)"
  by (induction v) (auto simp: esc_char_def)

lemma unescape_loop_plain: "backslash \<notin> set v \<Longrightarrow> unescape_loop v = v"
  by (induction v rule: unescape_loop.induct) auto

lemma unescape_loop_simps: "unescape_loop (backslash # d # r) = d # unescape_loop r"
  "c \<noteq> backslash \<Longrightarrow> unescape_loop (c # r) = c # unescape_loop r"
  by simp (cases r; simp)

lemma unescape_esc: "unescape (esc v) = v"
proof -
  have "unescape_loop (esc v) = v" by (induction v) (auto simp: esc_char_def unescape_loop_simps)
  then show ?thesis using unescape_loop_plain[of "esc v"] by (auto simp: unescape_def)
qed

lemma op_not_label: "op \<in> set [''='', ''!='', ''=~'', ''!~''] \<Longrightarrow>
  stops isLabelPart (op @ r) \<and> stops re_space (op @ r)"
  by (auto simp: stops_def isLabelPart_def isLabelStart_def between_def re_space_def)

lemma match_op_op: "op \<in> set [''='', ''!='', ''=~'', ''!~''] \<Longrightarrow> match_op (op @ dquote # r) = Some (op, dquote # r)"
  by (auto simp: match_op_def HasPrefix_def)

lemma match_here_render:
  assumes "wf_matcher m"
  shows "match_here (render m @ r) = Some (m_Label m, m_Op m, esc (m_Value m), r)"
proof -
  let ?t = "m_Op m @ dquote # esc (m_Value m) @ dquote # r"
  from assms have op: "m_Op m \<in> set [''='', ''!='', ''=~'', ''!~'']" and l: "list_all isLabelPart (m_Label m)"
    and h: "m_Label m \<noteq> []" "isLabelStart (hd (m_Label m))" by (auto simp: wf_matcher_def wf_label_def)
  have st: "stops isLabelPart ?t" "stops re_space ?t" using op_not_label[OF op] by blast+
  have "dropWhile re_space ?t = ?t" using st(2) by (auto simp: stops_def dropWhile_eq_self_iff)
  then have "match_op (dropWhile re_space (dropWhile isLabelPart (m_Label m @ ?t))) =
      Some (m_Op m, dquote # esc (m_Value m) @ dquote # r)"
    using match_op_op[OF op] by (simp add: dropWhile_stops[OF l st(1)])
  moreover have "takeWhile isLabelPart (m_Label m @ ?t) = m_Label m" by (rule takeWhile_stops[OF l st(1)])
  moreover have "\<not> re_space dquote" by (simp add: re_space_def)
  ultimately show ?thesis using h by (simp add: render_def match_here_def match_value_esc)
qed

lemma find_all_render:
  assumes "wf_matcher m"
  shows "find_all (render m @ r) = (let (ms, res) = find_all r in ((m_Label m, m_Op m, esc (m_Value m)) # ms, res))"
proof -
  from assms obtain c cs where "render m @ r = c # cs" by (cases "m_Label m") (auto simp: wf_matcher_def wf_label_def render_def)
  with match_here_render[OF assms, of r] show ?thesis by (simp add: find_all.simps(2))
qed

lemma find_all_filler: "isFiller c \<Longrightarrow> find_all (c # r) = (let (ms, res) = find_all r in (ms, c # res))"
  by (auto simp: find_all.simps(2) match_here_def isFiller_def isLabelStart_def between_def)

lemma find_all_rendered:
  "list_all wf_matcher ms \<Longrightarrow> \<exists>res. find_all (Join (map render ms) '', '') =
     (map (\<lambda>m. (m_Label m, m_Op m, esc (m_Value m))) ms, res) \<and> list_all isFiller res"
proof (induction ms rule: induct_list012)
  case (2 m)
  then show ?case using find_all_render[of m "[]"] by simp
next
  case (3 m n ms)
  then obtain res where "find_all (Join (map render (n # ms)) '', '') =
     (map (\<lambda>m. (m_Label m, m_Op m, esc (m_Value m))) (n # ms), res)" "list_all isFiller res" by auto
  moreover have "isFiller CHR '',''" "isFiller CHR '' ''" by (simp_all add: isFiller_def)
  ultimately show ?case using "3.prems" by (simp add: find_all_render find_all_filler)
qed simp

lemma LastIndexByte_snoc: "LastIndexByte (s @ [c]) c = Some (length s)"
  by (simp add: LastIndexByte_def)

lemma TrimSpace_selector: "TrimSpace (CHR ''{'' # s @ ''}'') = CHR ''{'' # s @ ''}''"
  by (simp add: TrimSpace_def is_space_def)

lemma matcher_of_render: "matcher_of (m_Label m, m_Op m, esc (m_Value m)) = m"
  by (simp add: matcher_of_def unescape_esc)

text \<open>
  Round trip of stream selectors: the selector text of any list of matchers, with any value
  strings, parses back to exactly these matchers.
\<close>

theorem ParseSelector_roundtrip:
  assumes "list_all wf_matcher ms"
  shows "ParseSelector (selector_text ms) = Ok ms"
proof -
  from find_all_rendered[OF assms] obtain res where
    f: "find_all (Join (map render ms) '', '') = (map (\<lambda>m. (m_Label m, m_Op m, esc (m_Value m))) ms, res)"
    and res: "list_all isFiller res" by blast
  have "LastIndexByte (selector_text ms) CHR ''}'' = Some (Suc (length (Join (map render ms) '', '')))"
    using LastIndexByte_snoc[of "CHR ''{'' # Join (map render ms) '', ''" "CHR ''}''"] by (simp add: selector_text_def)
  then show ?thesis using f res
    by (simp add: ParseSelector_def Let_def TrimSpace_selector selector_text_def comp_def matcher_of_render)
qed

theorem ParseSelector_roundtrip_witness:
  "ParseSelector (selector_text [\<lparr>m_Label = ''service'', m_Op = ''='', m_Value = ''a}b'' @ [dquote, backslash]\<rparr>]) =
     Ok [\<lparr>m_Label = ''service'', m_Op = ''='', m_Value = ''a}b'' @ [dquote, backslash]\<rparr>]"
  by (rule ParseSelector_roundtrip)
     (simp add: wf_matcher_def wf_label_def isLabelPart_def isLabelStart_def between_def)

section \<open>No filter is dropped\<close>

text \<open>
  The specification of a parsed selector body: matchers in their order, each the reading of one
  piece of the text, and nothing but commas and white space around them.
\<close>

definition piece :: "string \<Rightarrow> Matcher \<Rightarrow> bool" where
  "piece raw m \<longleftrightarrow> (\<exists>l w op w' v. raw = l @ w @ op @ w' @ dquote # v @ [dquote] \<and> wf_label l \<and>
     list_all re_space w \<and> op \<in> set [''='', ''!='', ''=~'', ''!~''] \<and> list_all re_space w' \<and>
     m = \<lparr>m_Label = l, m_Op = op, m_Value = unescape v\<rparr>)"

inductive tiles :: "string \<Rightarrow> Matcher list \<Rightarrow> bool" where
  tiles_end: "list_all isFiller f \<Longrightarrow> tiles f []"
| tiles_piece: "list_all isFiller f \<Longrightarrow> piece raw m \<Longrightarrow> tiles rest ms \<Longrightarrow> tiles (f @ raw @ rest) (m # ms)"

lemma tiles_filler: "isFiller c \<Longrightarrow> tiles s ms \<Longrightarrow> tiles (c # s) ms"
  by (erule tiles.cases) (use tiles.intros[of "c # _"] in \<open>fastforce+\<close>)

lemma HasPrefix_append: "HasPrefix s p \<Longrightarrow> s = p @ drop (length p) s"
  by (metis HasPrefix_def append_take_drop_id)

lemma match_op_split: "match_op s = Some (op, r) \<Longrightarrow> s = op @ r \<and> op \<in> set [''='', ''!='', ''=~'', ''!~'']"
  using HasPrefix_append[of s "''=~''"] HasPrefix_append[of s "''!~''"] HasPrefix_append[of s "''!=''"]
    HasPrefix_append[of s "''=''"] by (auto simp: match_op_def numeral_2_eq_2 split: if_splits)

lemma match_value_split: "match_value s = Some (v, r) \<Longrightarrow> s = v @ dquote # r"
  by (induction s arbitrary: v r rule: match_value.induct) (auto split: if_splits list.splits)

lemma takeWhile_all: "list_all P (takeWhile P s)"
  by (auto simp: list_all_iff dest: set_takeWhileD)

lemma pieceI:
  "wf_label l \<Longrightarrow> list_all re_space w \<Longrightarrow> list_all re_space w' \<Longrightarrow> op \<in> set [''='', ''!='', ''=~'', ''!~''] \<Longrightarrow>
   piece (l @ w @ op @ w' @ dquote # v @ [dquote]) (matcher_of (l, op, v))"
  unfolding piece_def matcher_of_def by (simp only: split_conv) blast

lemma match_here_piece:
  assumes "match_here s = Some (l, op, v, rest)"
  shows "\<exists>raw. s = raw @ rest \<and> piece raw (matcher_of (l, op, v))"
proof -
  define a where "a = dropWhile isLabelPart s"
  from assms obtain r cs where 1: "match_op (dropWhile re_space a) = Some (op, r)"
    and 2: "dropWhile re_space r = dquote # cs" and 3: "match_value cs = Some (v, rest)"
    and l: "l = takeWhile isLabelPart s" and h: "s \<noteq> []" "isLabelStart (hd s)"
    by (auto simp: match_here_def a_def split: if_splits option.splits list.splits)
  note ops = match_op_split[OF 1]
  have "s = l @ a" by (simp add: l a_def)
  also have "a = takeWhile re_space a @ op @ r" using ops by (metis takeWhile_dropWhile_id)
  also have "r = takeWhile re_space r @ dquote # cs" using 2 by (metis takeWhile_dropWhile_id)
  also have "cs = v @ dquote # rest" by (rule match_value_split[OF 3])
  finally have s: "s = (l @ takeWhile re_space a @ op @ takeWhile re_space r @ dquote # v @ [dquote]) @ rest" by simp
  moreover have "wf_label l" using h takeWhile_all[of isLabelPart s]
    by (cases s) (auto simp: wf_label_def l isLabelPart_def)
  ultimately show ?thesis
    using pieceI[of l "takeWhile re_space a" "takeWhile re_space r" op v] takeWhile_all[of re_space] ops by blast
qed

lemma find_all_tiles: "find_all s = (gs, res) \<Longrightarrow> list_all isFiller res \<Longrightarrow> tiles s (map matcher_of gs)"
proof (induction s arbitrary: gs res rule: find_all.induct)
  case (2 c cs)
  show ?case
  proof (cases "match_here (c # cs)")
    case None
    with "2.prems" obtain res' where "find_all cs = (gs, res')" "res = c # res'"
      by (auto simp: find_all.simps(2) split: prod.splits)
    with "2.IH"(1)[OF None] "2.prems" show ?thesis by (auto intro: tiles_filler)
  next
    case (Some g)
    then obtain l op v rest where g: "match_here (c # cs) = Some (l, op, v, rest)" by (metis prod_cases4)
    with "2.prems"(1) obtain gs' where gs: "find_all rest = (gs', res)" "gs = (l, op, v) # gs'"
      by (auto simp: find_all.simps(2) split: prod.splits)
    from match_here_piece[OF g] obtain raw where "c # cs = raw @ rest" "piece raw (matcher_of (l, op, v))" by blast
    moreover have "tiles rest (map matcher_of gs')" using "2.IH"(2)[OF g refl refl refl] gs "2.prems"(2) by blast
    ultimately show ?thesis using gs(2) tiles_piece[of "[]" raw] by simp
  qed
qed (auto intro: tiles_end)

lemma IndexByte_split: "IndexByte s c = Some i \<Longrightarrow> i < length s \<and> s ! i = c"
  by (induction s c arbitrary: i rule: IndexByte.induct) (auto split: if_splits)

lemma LastIndexByte_split:
  assumes "LastIndexByte s c = Some i" shows "i < length s \<and> s ! i = c"
proof -
  from assms obtain j where "IndexByte (rev s) c = Some j" "i = length s - 1 - j" by (auto simp: LastIndexByte_def)
  with IndexByte_split[of "rev s" c j] show ?thesis by (auto simp: rev_nth)
qed

lemma TrimSpace_Nil_all: "TrimSpace s = [] \<Longrightarrow> list_all is_space s"
  by (auto simp: TrimSpace_def dropWhile_eq_Nil_conv list_all_iff)
     (metis set_dropWhileD set_takeWhileD takeWhile_dropWhile_id Un_iff set_append)

text \<open>
  A selector that \<open>ParseSelector\<close> accepts is one braced body in which every character
  belongs to a parsed matcher, in order, or is a comma or white space: no filter the user wrote
  is silently dropped.
\<close>

theorem ParseSelector_tiles:
  assumes "ParseSelector sel = Ok ms"
  shows "\<exists>body w. TrimSpace sel = CHR ''{'' # body @ CHR ''}'' # w \<and> list_all is_space w \<and> tiles body ms"
proof -
  define s where "s = TrimSpace sel"
  from assms obtain i where i: "IndexByte s CHR ''{'' = Some 0" "LastIndexByte s CHR ''}'' = Some i"
    and w: "TrimSpace (drop (i + 1) s) = []"
    and f: "(let (gs, res) = find_all (take (i - 1) (drop 1 s)) in
      if list_all isFiller res then Ok (map matcher_of gs) else Err (Errorf ''could not parse stream selector %q'' [sel])) = Ok ms"
    by (auto simp: ParseSelector_def s_def[symmetric] Let_def split: if_splits option.splits nat.splits)
  from IndexByte_split[OF i(1)] obtain t where s: "s = CHR ''{'' # t" by (cases s) auto
  from LastIndexByte_split[OF i(2)] s have "i \<noteq> 0" "i - 1 < length t" "t ! (i - 1) = CHR ''}''"
    by (cases i; simp)+
  then have "s = CHR ''{'' # take (i - 1) t @ CHR ''}'' # drop (i + 1) s"
    using s id_take_nth_drop[of "i - 1" t] by simp
  moreover have "tiles (take (i - 1) t) ms" using f find_all_tiles[of "take (i - 1) t"]
    by (auto simp: s Let_def split: prod.splits if_splits)
  ultimately show ?thesis using TrimSpace_Nil_all[OF w] unfolding s_def by blast
qed

theorem ParseSelector_tiles_witness:
  "\<exists>body w. TrimSpace (selector_text []) = CHR ''{'' # body @ CHR ''}'' # w \<and> list_all is_space w \<and> tiles body []"
proof (rule ParseSelector_tiles)
  show "ParseSelector (selector_text []) = Ok []" by code_simp
qed

end
