(* ===== verification/Access.thy ===== *)
theory Access
  imports Go_Prelude
begin

text \<open>
  Authentication and authorisation of the query API: the key table
  (\<open>platform/database/apikeys.go\<close>, \<open>tenant.go\<close>), its admin handlers
  (\<open>platform/api/handler/apikeys.go\<close>) and the middleware \<open>APIKeyAuth\<close>, \<open>OIDCAuth\<close>, \<open>AnyAuth\<close> and
  \<open>RequireScope\<close> (\<open>platform/api/middleware\<close>). The hash, the random bytes, the JSON decoding of a
  body, the JWKS download, the signature check and the failures of Postgres are arguments. A
  middleware either answers with a status and a message, or hands the request on with the identity
  it resolved.
\<close>

section \<open>The key table\<close>

record api_key =
  k_ID :: string
  k_TenantID :: string
  k_Name :: string
  k_Hash :: string
  k_Prefix :: string
  k_Scopes :: "string list"
  k_LastUsedAt :: "int option"
  k_ExpiresAt :: "int option"
  k_RevokedAt :: "int option"
  k_CreatedAt :: int

type_synonym key_table = "api_key list"

text \<open>The surroundings of one call: the clock, the hash, the identifier of a new row, and the failure of the statement.\<close>

record kenv =
  ke_now :: int
  ke_hash :: "string \<Rightarrow> string"
  ke_newid :: "key_table \<Rightarrow> string"
  ke_fault :: "goerror option"

record APIKey =
  ak_TenantID :: string
  ak_Scopes :: "string list"

definition HashAPIKey :: "kenv \<Rightarrow> string \<Rightarrow> string" where
  "HashAPIKey env raw = ke_hash env raw"

text \<open>\<open>key_hash = h AND revoked_at IS NULL AND (expires_at IS NULL OR expires_at > now())\<close>.\<close>

definition active :: "int \<Rightarrow> api_key \<Rightarrow> bool" where
  "active now k \<longleftrightarrow> k_RevokedAt k = None \<and> (case k_ExpiresAt k of None \<Rightarrow> True | Some e \<Rightarrow> now < e)"

definition wrap_error :: "string \<Rightarrow> goerror \<Rightarrow> goerror" where
  "wrap_error fmt e = (case e of Errorf f as \<Rightarrow> Errorf fmt (f # as) | Sentinel n \<Rightarrow> Errorf fmt [n])"

definition LookupAPIKey :: "kenv \<Rightarrow> string \<Rightarrow> key_table \<Rightarrow> (goerror, APIKey option) outcome" where
  "LookupAPIKey env h db =
     (case ke_fault env of
        Some e \<Rightarrow> Err (wrap_error ''api key lookup: %w'' e)
      | None \<Rightarrow> Ok (map_option (\<lambda>k. \<lparr>ak_TenantID = k_TenantID k, ak_Scopes = k_Scopes k\<rparr>)
                     (find (\<lambda>k. k_Hash k = h \<and> active (ke_now env) k) db)))"

text \<open>\<open>generateKey\<close>: 32 random bytes in the URL-safe encoding, or the error of the random source.\<close>

definition generateKey :: "(string \<Rightarrow> string) \<Rightarrow> (goerror, string) outcome \<Rightarrow> (goerror, string) outcome" where
  "generateKey b64 bytes = bindO bytes (\<lambda>b. Ok (''qeel_'' @ b64 b))"

text \<open>The insertion fails on an error of the store or on a hash that is already taken (the column is unique).\<close>

definition CreateAPIKey :: "kenv \<Rightarrow> (string \<Rightarrow> string) \<Rightarrow> (goerror, string) outcome \<Rightarrow> string \<Rightarrow> string \<Rightarrow> string list \<Rightarrow> int option \<Rightarrow>
    key_table \<Rightarrow> (goerror, string \<times> api_key) outcome \<times> key_table" where
  "CreateAPIKey env b64 bytes tenantID name scopes expiresAt db =
     (case generateKey b64 bytes of
        Err e \<Rightarrow> (Err (wrap_error ''generate key: %w'' e), db)
      | Panic \<Rightarrow> (Panic, db)
      | Ok raw \<Rightarrow>
         (let h = HashAPIKey env raw;
              row = \<lparr>k_ID = ke_newid env db, k_TenantID = tenantID, k_Name = name, k_Hash = h, k_Prefix = take 12 raw, k_Scopes = scopes,
                     k_LastUsedAt = None, k_ExpiresAt = expiresAt, k_RevokedAt = None, k_CreatedAt = ke_now env\<rparr>
          in case ke_fault env of
               Some e \<Rightarrow> (Err (wrap_error ''insert api key: %w'' e), db)
             | None \<Rightarrow>
                if h \<in> k_Hash ` set db then (Err (Errorf ''insert api key: %w'' [''duplicate key'']), db)
                else (Ok (raw, row), db @ [row])))"

definition ListAPIKeys :: "kenv \<Rightarrow> string \<Rightarrow> key_table \<Rightarrow> (goerror, api_key list) outcome" where
  "ListAPIKeys env tenantID db =
     (case ke_fault env of
        Some e \<Rightarrow> Err (wrap_error ''list api keys: %w'' e)
      | None \<Rightarrow> Ok (sort_key (\<lambda>k. - k_CreatedAt k) (filter (\<lambda>k. k_TenantID k = tenantID \<and> k_RevokedAt k = None) db)))"

definition revocable :: "string \<Rightarrow> string \<Rightarrow> api_key \<Rightarrow> bool" where
  "revocable tenantID keyID k \<longleftrightarrow> k_ID k = keyID \<and> k_TenantID k = tenantID \<and> k_RevokedAt k = None"

definition RevokeAPIKey :: "kenv \<Rightarrow> string \<Rightarrow> string \<Rightarrow> key_table \<Rightarrow> (goerror, bool) outcome \<times> key_table" where
  "RevokeAPIKey env tenantID keyID db =
     (case ke_fault env of
        Some e \<Rightarrow> (Err (wrap_error ''revoke api key: %w'' e), db)
      | None \<Rightarrow> (Ok (length (filter (revocable tenantID keyID) db) = 1),
                 map (\<lambda>k. if revocable tenantID keyID k then k\<lparr>k_RevokedAt := Some (ke_now env)\<rparr> else k) db))"

definition TouchLastUsed :: "kenv \<Rightarrow> string \<Rightarrow> key_table \<Rightarrow> key_table" where
  "TouchLastUsed env h db =
     (if ke_fault env \<noteq> None then db else map (\<lambda>k. if k_Hash k = h then k\<lparr>k_LastUsedAt := Some (ke_now env)\<rparr> else k) db)"

section \<open>Requests and identities\<close>

text \<open>\<open>Header.Get\<close> is the empty string for a missing header, \<open>Query().Get\<close> for a missing parameter.\<close>

record http_request =
  hr_Header :: "string \<Rightarrow> string"
  hr_Query :: "string \<Rightarrow> string"

record identity =
  ctxTenant :: string
  ctxScopes :: "string list"

datatype reply = Deny int string | Pass identity

definition isWebSocketUpgrade :: "http_request \<Rightarrow> bool" where
  "isWebSocketUpgrade r = EqualFold (hr_Header r ''Upgrade'') ''websocket''"

text \<open>The touch of the key runs detached with its own environment.\<close>

definition APIKeyAuth :: "kenv \<Rightarrow> kenv \<Rightarrow> http_request \<Rightarrow> key_table \<Rightarrow> reply \<times> key_table" where
  "APIKeyAuth env touch r db =
     (let key = hr_Header r ''X-Qeet-Api-Key'';
          key = (if key = [] \<and> isWebSocketUpgrade r then hr_Query r ''api_key'' else key)
      in if key = [] then (Deny 401 ''missing X-Qeet-Api-Key'', db)
         else let h = HashAPIKey env key in
           case LookupAPIKey env h db of
             Ok (Some ak) \<Rightarrow> (Pass \<lparr>ctxTenant = ak_TenantID ak, ctxScopes = ak_Scopes ak\<rparr>, TouchLastUsed touch h db)
           | Ok None \<Rightarrow> (Deny 401 ''invalid api key'', db)
           | _ \<Rightarrow> (Deny 500 ''auth lookup failed'', db))"

fun HasScope :: "identity \<Rightarrow> string list \<Rightarrow> bool" where
  "HasScope ctx [] = False"
| "HasScope ctx (w # want) = (list_ex (\<lambda>s. s = w) (ctxScopes ctx) \<or> HasScope ctx want)"

definition RequireScope :: "string list \<Rightarrow> identity \<Rightarrow> reply" where
  "RequireScope want ctx = (if \<not> HasScope ctx want then Deny 403 ''insufficient scope'' else Pass ctx)"

section \<open>Bearer tokens\<close>

record logsClaims =
  cl_Iss :: string
  cl_Exp :: int
  cl_TenantID :: string
  cl_Scope :: string

text \<open>The key-set cache of five minutes, in nanoseconds.\<close>

record 'k jwks_cache =
  jc_keySet :: "'k list option"
  jc_fetched :: int

record 'k oenv =
  oe_now :: int
  oe_fetch :: "string \<Rightarrow> (goerror, 'k list) outcome"
  oe_fetched_at :: int
  oe_parse :: "string \<Rightarrow> bool"
  oe_verify :: "'k \<Rightarrow> string \<Rightarrow> logsClaims option"
  oe_unix :: int

definition TrimRight_slash :: "string \<Rightarrow> string" where
  "TrimRight_slash s = rev (dropWhile (\<lambda>c. c = CHR ''/'') (rev s))"

definition jwks_get :: "'k oenv \<Rightarrow> string \<Rightarrow> 'k jwks_cache \<Rightarrow> (goerror, 'k list) outcome \<times> 'k jwks_cache" where
  "jwks_get env issuer c =
     (case jc_keySet c of
        Some ks \<Rightarrow>
          if oe_now env - jc_fetched c < 5 * 60 * 1000000000 then (Ok ks, c)
          else (case oe_fetch env (TrimRight_slash issuer @ ''/.well-known/jwks.json'') of
                  Ok ks' \<Rightarrow> (Ok ks', c\<lparr>jc_keySet := Some ks', jc_fetched := oe_fetched_at env\<rparr>)
                | r \<Rightarrow> (r, c))
      | None \<Rightarrow>
          (case oe_fetch env (TrimRight_slash issuer @ ''/.well-known/jwks.json'') of
             Ok ks' \<Rightarrow> (Ok ks', c\<lparr>jc_keySet := Some ks', jc_fetched := oe_fetched_at env\<rparr>)
           | r \<Rightarrow> (r, c)))"

text \<open>\<open>strings.Fields\<close>: the maximal runs of non-space characters.\<close>

fun Fields_loop :: "string \<Rightarrow> string \<Rightarrow> string list" where
  "Fields_loop acc [] = (if acc = [] then [] else [acc])"
| "Fields_loop acc (c # cs) =
     (if is_space c then (if acc = [] then Fields_loop [] cs else acc # Fields_loop [] cs) else Fields_loop (acc @ [c]) cs)"

definition parseScope :: "string \<Rightarrow> string list" where
  "parseScope s = (if s = [] then [] else filter (\<lambda>p. p \<noteq> []) (Fields_loop [] s))"

fun first_claims :: "'k oenv \<Rightarrow> string \<Rightarrow> 'k list \<Rightarrow> logsClaims option" where
  "first_claims env raw [] = None"
| "first_claims env raw (k # ks) = (case oe_verify env k raw of Some c \<Rightarrow> Some c | None \<Rightarrow> first_claims env raw ks)"

definition OIDCAuth :: "'k oenv \<Rightarrow> string \<Rightarrow> http_request \<Rightarrow> 'k jwks_cache \<Rightarrow> reply \<times> 'k jwks_cache" where
  "OIDCAuth env issuer r c =
     (let raw = TrimPrefix (hr_Header r ''Authorization'') ''Bearer '' in
      if raw = [] then (Deny 401 ''missing Authorization header'', c)
      else case jwks_get env issuer c of
        (Ok ks, c') \<Rightarrow>
          (if \<not> oe_parse env raw then Deny 401 ''malformed JWT''
           else case first_claims env raw ks of
             None \<Rightarrow> Deny 401 ''JWT signature invalid''
           | Some cl \<Rightarrow>
               if oe_unix env > cl_Exp cl then Deny 401 ''JWT expired''
               else if \<not> EqualFold (TrimRight_slash (cl_Iss cl)) (TrimRight_slash issuer) then Deny 401 ''JWT issuer mismatch''
               else if cl_TenantID cl = [] then Deny 401 ''JWT missing tenant_id claim''
               else Pass \<lparr>ctxTenant = cl_TenantID cl, ctxScopes = parseScope (cl_Scope cl)\<rparr>, c')
      | (_, c') \<Rightarrow> (Deny 500 ''could not fetch JWKS'', c'))"

definition AnyAuth :: "kenv \<Rightarrow> kenv \<Rightarrow> 'k oenv \<Rightarrow> string \<Rightarrow> http_request \<Rightarrow> key_table \<times> 'k jwks_cache \<Rightarrow> reply \<times> key_table \<times> 'k jwks_cache" where
  "AnyAuth env touch oenv issuer r st =
     (case st of (db, c) \<Rightarrow>
        if hr_Header r ''X-Qeet-Api-Key'' \<noteq> [] then (let (v, db') = APIKeyAuth env touch r db in (v, db', c))
        else if HasPrefix (hr_Header r ''Authorization'') ''Bearer '' then (let (v, c') = OIDCAuth oenv issuer r c in (v, db, c'))
        else (Deny 401 ''missing X-Qeet-Api-Key or Authorization header'', db, c))"

section \<open>The admin handlers\<close>

record createAPIKeyRequest =
  cr_Name :: string
  cr_Scopes :: "string list"
  cr_ExpiresAt :: "int option"

definition allowedScopes :: "string list" where
  "allowedScopes = [''logs:ingest'', ''logs:read'', ''logs:query'', ''logs:export'', ''logs:admin'', ''logs:platform'']"

definition validScopes :: "string list \<Rightarrow> bool" where
  "validScopes scopes = list_all (\<lambda>s. s \<in> set allowedScopes) scopes"

datatype 'a http_answer = Answer int 'a | Error int string

text \<open>The decoded body is \<open>None\<close> when it is not the expected JSON.\<close>

definition CreateAPIKey_handler :: "kenv \<Rightarrow> (string \<Rightarrow> string) \<Rightarrow> (goerror, string) outcome \<Rightarrow> identity \<Rightarrow> createAPIKeyRequest option \<Rightarrow> key_table \<Rightarrow>
    (string \<times> api_key) http_answer \<times> key_table" where
  "CreateAPIKey_handler env b64 bytes ctx body db =
     (case body of
        None \<Rightarrow> (Error 400 ''invalid JSON body'', db)
      | Some req \<Rightarrow>
          if cr_Name req = [] then (Error 400 ''name is required'', db)
          else if cr_Scopes req = [] then (Error 400 ''at least one scope is required'', db)
          else if \<not> validScopes (cr_Scopes req) then
            (Error 400 ''invalid scope(s); allowed: logs:ingest logs:read logs:query logs:export logs:admin logs:platform'', db)
          else case CreateAPIKey env b64 bytes (ctxTenant ctx) (cr_Name req) (cr_Scopes req) (cr_ExpiresAt req) db of
            (Ok nk, db') \<Rightarrow> (Answer 201 nk, db')
          | (_, db') \<Rightarrow> (Error 500 ''failed to create api key'', db'))"

definition ListAPIKeys_handler :: "kenv \<Rightarrow> identity \<Rightarrow> key_table \<Rightarrow> api_key list http_answer" where
  "ListAPIKeys_handler env ctx db =
     (case ListAPIKeys env (ctxTenant ctx) db of Ok ks \<Rightarrow> Answer 200 ks | _ \<Rightarrow> Error 500 ''failed to list api keys'')"

definition RevokeAPIKey_handler :: "kenv \<Rightarrow> identity \<Rightarrow> string \<Rightarrow> key_table \<Rightarrow> unit http_answer \<times> key_table" where
  "RevokeAPIKey_handler env ctx keyID db =
     (case RevokeAPIKey env (ctxTenant ctx) keyID db of
        (Ok ok, db') \<Rightarrow> (if ok then Answer 204 () else Error 404 ''api key not found'', db')
      | (_, db') \<Rightarrow> (Error 500 ''failed to revoke api key'', db'))"

section \<open>The life of the key table\<close>

definition key_inv :: "key_table \<Rightarrow> bool" where
  "key_inv db \<longleftrightarrow> distinct (map k_ID db) \<and> distinct (map k_Hash db)"

text \<open>
  Every statement that changes the table: a creation or a revocation by any identity, and the touch
  of a key, each with its own surroundings; a new row has an identifier no row has.
\<close>

inductive key_step :: "key_table \<Rightarrow> key_table \<Rightarrow> bool" where
  create: "ke_newid env db \<notin> k_ID ` set db \<Longrightarrow> key_step db (snd (CreateAPIKey_handler env b64 bytes ctx body db))"
| revoke: "key_step db (snd (RevokeAPIKey_handler env ctx keyID db))"
| touch: "key_step db (TouchLastUsed env h db)"

lemma create_cases:
  obtains "snd (CreateAPIKey_handler env b64 bytes ctx body db) = db"
  | row where "snd (CreateAPIKey_handler env b64 bytes ctx body db) = db @ [row]" "k_ID row = ke_newid env db" "k_Hash row \<notin> k_Hash ` set db"
    "k_TenantID row = ctxTenant ctx" "k_RevokedAt row = None"
proof (cases "\<exists>req. body = Some req \<and> cr_Name req \<noteq> [] \<and> cr_Scopes req \<noteq> [] \<and> validScopes (cr_Scopes req)")
  case True
  then obtain req where req: "body = Some req" "cr_Name req \<noteq> []" "cr_Scopes req \<noteq> []" "validScopes (cr_Scopes req)" by blast
  obtain res db' where c: "CreateAPIKey env b64 bytes (ctxTenant ctx) (cr_Name req) (cr_Scopes req) (cr_ExpiresAt req) db = (res, db')" by force
  have db': "snd (CreateAPIKey_handler env b64 bytes ctx body db) = db'"
    using req c by (cases res) (simp_all add: CreateAPIKey_handler_def)
  show ?thesis
  proof (cases res)
    case (Ok nk)
    then show ?thesis using c that(2)[of "snd nk"] db'
      by (auto simp: CreateAPIKey_def Let_def split: outcome.splits option.splits if_splits)
  qed (use c that(1) db' in \<open>auto simp: CreateAPIKey_def Let_def split: outcome.splits option.splits if_splits\<close>)
next
  case False
  then have "snd (CreateAPIKey_handler env b64 bytes ctx body db) = db" by (cases body) (auto simp: CreateAPIKey_handler_def)
  then show ?thesis by (rule that(1))
qed

lemma revoke_snd: "snd (RevokeAPIKey_handler env ctx keyID db) = snd (RevokeAPIKey env (ctxTenant ctx) keyID db)"
  by (auto simp: RevokeAPIKey_handler_def split: prod.splits outcome.splits)

text \<open>What every statement keeps of a row: its identity, and a revocation.\<close>

definition same_key :: "api_key \<Rightarrow> api_key \<Rightarrow> bool" where
  "same_key k k' \<longleftrightarrow> k_ID k' = k_ID k \<and> k_Hash k' = k_Hash k \<and> k_TenantID k' = k_TenantID k \<and> k_Scopes k' = k_Scopes k \<and>
     k_ExpiresAt k' = k_ExpiresAt k \<and> (k_RevokedAt k \<noteq> None \<longrightarrow> k_RevokedAt k' = k_RevokedAt k)"

definition extends :: "key_table \<Rightarrow> key_table \<Rightarrow> bool" where
  "extends db db' \<longleftrightarrow> list_all2 same_key db (take (length db) db')"

lemma same_key_refl: "same_key k k"
  by (simp add: same_key_def)

lemma same_key_trans: "same_key a b \<Longrightarrow> same_key b c \<Longrightarrow> same_key a c"
  by (auto simp: same_key_def)

lemma extends_refl: "extends db db"
  by (simp add: extends_def list_all2_refl same_key_refl)

lemma extends_length: "extends db db' \<Longrightarrow> length db \<le> length db'"
  using list_all2_lengthD[of same_key db "take (length db) db'"] by (simp add: extends_def)

lemma extends_trans: "extends a b \<Longrightarrow> extends b c \<Longrightarrow> extends a c"
proof -
  assume ab: "extends a b" and bc: "extends b c"
  have la: "length a \<le> length b" using ab by (rule extends_length)
  from bc have "list_all2 same_key (take (length a) b) (take (length a) (take (length b) c))"
    unfolding extends_def by (rule list_all2_takeI)
  with la have "list_all2 same_key (take (length a) b) (take (length a) c)" by (simp add: min_def)
  from list_all2_trans[of same_key same_key same_key, OF same_key_trans ab[unfolded extends_def] this] show ?thesis
    by (simp add: extends_def)
qed

lemma extends_map: "(\<And>k. same_key k (f k)) \<Longrightarrow> extends db (map f db)"
  by (simp add: extends_def list_all2_conv_all_nth)

lemma key_step_extends: "key_step db db' \<Longrightarrow> extends db db'"
proof (induction rule: key_step.induct)
  case (create env db b64 bytes ctx body)
  show ?case by (rule create_cases[of env b64 bytes ctx body db]) (auto simp: extends_def list_all2_refl same_key_refl)
next
  case (revoke db env ctx keyID)
  have "same_key k (if revocable t i k then k\<lparr>k_RevokedAt := Some n\<rparr> else k)" for k t i n by (simp add: same_key_def revocable_def)
  then show ?case unfolding revoke_snd RevokeAPIKey_def by (auto simp: extends_refl intro: extends_map split: option.split)
next
  case (touch db env h)
  have "same_key k (if k_Hash k = h then k\<lparr>k_LastUsedAt := n\<rparr> else k)" for k n by (simp add: same_key_def)
  then show ?case unfolding TouchLastUsed_def by (auto simp: extends_refl intro: extends_map)
qed

lemma map_same: "(\<And>k. k_ID (f k) = k_ID k) \<Longrightarrow> (\<And>k. k_Hash (f k) = k_Hash k) \<Longrightarrow> key_inv db \<Longrightarrow> key_inv (map f db)"
  by (simp add: key_inv_def comp_def)

lemma key_step_inv: "key_step db db' \<Longrightarrow> key_inv db \<Longrightarrow> key_inv db'"
proof (induction rule: key_step.induct)
  case (create env db b64 bytes ctx body)
  show ?case by (rule create_cases[of env b64 bytes ctx body db]) (use create in \<open>auto simp: key_inv_def\<close>)
next
  case (revoke db env ctx keyID)
  then show ?case unfolding revoke_snd RevokeAPIKey_def by (auto intro!: map_same split: option.split)
next
  case (touch db env h)
  then show ?case unfolding TouchLastUsed_def by (auto intro!: map_same)
qed

lemma key_steps_inv: "key_step\<^sup>*\<^sup>* db db' \<Longrightarrow> key_inv db \<Longrightarrow> key_inv db' \<and> extends db db'"
  by (induction rule: rtranclp_induct) (auto intro: key_step_inv key_step_extends extends_trans extends_refl)

section \<open>Lookups\<close>

lemma find_hash:
  assumes "key_inv db" and "k \<in> set db"
  shows "find (\<lambda>x. k_Hash x = k_Hash k \<and> active now x) db = (if active now k then Some k else None)"
proof -
  have u: "x = k" if "x \<in> set db" "k_Hash x = k_Hash k" for x
    using assms that by (auto simp: key_inv_def distinct_map inj_on_def)
  show ?thesis
  proof (cases "find (\<lambda>x. k_Hash x = k_Hash k \<and> active now x) db")
    case None
    then show ?thesis using assms(2) by (auto simp: find_None_iff)
  next
    case (Some x)
    then have x: "x \<in> set db" "k_Hash x = k_Hash k" "active now x" by (auto simp: find_Some_iff)
    with u[OF x(1,2)] Some show ?thesis by simp
  qed
qed

lemma extends_row: "extends db db' \<Longrightarrow> k \<in> set db \<Longrightarrow> \<exists>k' \<in> set db'. same_key k k'"
proof -
  assume e: "extends db db'" and "k \<in> set db"
  then obtain i where i: "i < length db" "db ! i = k" by (auto simp: in_set_conv_nth)
  then have "same_key k (db' ! i)" using list_all2_nthD[OF e[unfolded extends_def] i(1)] by simp
  moreover have "db' ! i \<in> set db'" using i extends_length[OF e] by simp
  ultimately show ?thesis by blast
qed

lemma APIKeyAuth_sound:
  assumes "fst (APIKeyAuth env touch r db) = Pass ctx" and "hr_Header r ''X-Qeet-Api-Key'' \<noteq> []"
  shows "\<exists>k \<in> set db. active (ke_now env) k \<and> k_Hash k = HashAPIKey env (hr_Header r ''X-Qeet-Api-Key'') \<and>
    ctx = \<lparr>ctxTenant = k_TenantID k, ctxScopes = k_Scopes k\<rparr>"
proof -
  define h where "h = HashAPIKey env (hr_Header r ''X-Qeet-Api-Key'')"
  have "\<exists>ak. LookupAPIKey env h db = Ok (Some ak) \<and> ctx = \<lparr>ctxTenant = ak_TenantID ak, ctxScopes = ak_Scopes ak\<rparr>"
    using assms by (auto simp: APIKeyAuth_def h_def[symmetric] Let_def split: outcome.splits option.splits)
  then obtain k where "find (\<lambda>k. k_Hash k = h \<and> active (ke_now env) k) db = Some k" "ctx = \<lparr>ctxTenant = k_TenantID k, ctxScopes = k_Scopes k\<rparr>"
    by (auto simp: LookupAPIKey_def split: option.splits)
  moreover from this(1) have "k \<in> set db" "k_Hash k = h" "active (ke_now env) k" by (auto simp: find_Some_iff)
  ultimately show ?thesis unfolding h_def by blast
qed

lemma first_claims_sound: "first_claims env raw ks = Some cl \<Longrightarrow> \<exists>key \<in> set ks. oe_verify env key raw = Some cl"
  by (induction ks) (auto split: option.splits)

lemma OIDCAuth_sound:
  assumes "fst (OIDCAuth env issuer r c) = Pass ctx"
  shows "\<exists>ks key cl. fst (jwks_get env issuer c) = Ok ks \<and> key \<in> set ks \<and>
    oe_verify env key (TrimPrefix (hr_Header r ''Authorization'') ''Bearer '') = Some cl \<and> oe_unix env \<le> cl_Exp cl \<and>
    EqualFold (TrimRight_slash (cl_Iss cl)) (TrimRight_slash issuer) \<and> cl_TenantID cl = ctxTenant ctx \<and> ctxTenant ctx \<noteq> []"
proof -
  define raw where "raw = TrimPrefix (hr_Header r ''Authorization'') ''Bearer ''"
  obtain ks c' where ks: "jwks_get env issuer c = (Ok ks, c')"
    using assms by (auto simp: OIDCAuth_def Let_def raw_def[symmetric] split: if_splits prod.splits outcome.splits)
  with assms obtain cl where cl: "first_claims env raw ks = Some cl"
    by (auto simp: OIDCAuth_def Let_def raw_def[symmetric] split: if_splits option.splits)
  with assms ks have "\<not> oe_unix env > cl_Exp cl" "EqualFold (TrimRight_slash (cl_Iss cl)) (TrimRight_slash issuer)" "cl_TenantID cl \<noteq> []"
    "ctx = \<lparr>ctxTenant = cl_TenantID cl, ctxScopes = parseScope (cl_Scope cl)\<rparr>"
    by (auto simp: OIDCAuth_def Let_def raw_def[symmetric] split: if_splits)
  with first_claims_sound[OF cl] ks show ?thesis unfolding raw_def by auto
qed

text \<open>
  C10. A revoked key is dead: once \<open>RevokeAPIKey\<close> has reported success on a table with distinct
  identifiers and hashes, no sequence of creations, revocations and touches, by any tenant and under
  any failures, makes a lookup of its hash succeed again.
\<close>

theorem revoked_key_dead:
  assumes "key_inv db" and "k \<in> set db" and "RevokeAPIKey env (k_TenantID k) (k_ID k) db = (Ok True, db1)" and "key_step\<^sup>*\<^sup>* db1 db2"
  shows "\<forall>ak. LookupAPIKey env' (k_Hash k) db2 \<noteq> Ok (Some ak)"
proof -
  define f where "f = (\<lambda>x. if revocable (k_TenantID k) (k_ID k) x then x\<lparr>k_RevokedAt := Some (ke_now env)\<rparr> else x)"
  have db1: "db1 = map f db" using assms(3) by (auto simp: RevokeAPIKey_def f_def split: option.splits)
  have inv1: "key_inv db1" unfolding db1 by (rule map_same[OF _ _ assms(1)]) (simp_all add: f_def)
  have "f k \<in> set db1" using assms(2) by (simp add: db1)
  moreover have "k_RevokedAt (f k) \<noteq> None" "k_Hash (f k) = k_Hash k" by (simp_all add: f_def revocable_def)
  moreover obtain k2 where k2: "k2 \<in> set db2" "same_key (f k) k2"
    using extends_row[OF key_steps_inv[OF assms(4) inv1, THEN conjunct2]] calculation(1) by blast
  ultimately have dead: "\<not> active (ke_now env') k2" "k_Hash k2 = k_Hash k" by (auto simp: same_key_def active_def)
  have "find (\<lambda>x. k_Hash x = k_Hash k \<and> active (ke_now env') x) db2 = None"
    using find_hash[OF key_steps_inv[OF assms(4) inv1, THEN conjunct1] k2(1), of "ke_now env'"] dead by simp
  then show ?thesis by (simp add: LookupAPIKey_def split: option.split)
qed

text \<open>
  C27. A created key authenticates as its tenant: after \<open>CreateAPIKey\<close> returns a key, a request that
  carries it, before it expires, is passed on with exactly the tenant and the scopes it was
  created with.
\<close>

theorem created_key_authenticates:
  assumes "CreateAPIKey env b64 bytes tenantID name scopes expiresAt db = (Ok (raw, row), db')" and "key_inv db"
    and "hr_Header r ''X-Qeet-Api-Key'' = raw" and "ke_hash env' = ke_hash env" and "ke_fault env' = None"
    and "pred_option (\<lambda>e. ke_now env' < e) expiresAt"
  shows "fst (APIKeyAuth env' touch r db') = Pass \<lparr>ctxTenant = tenantID, ctxScopes = scopes\<rparr>"
proof -
  have raw: "raw \<noteq> []" and row: "db' = db @ [row]" "k_Hash row = ke_hash env raw" "k_Hash row \<notin> k_Hash ` set db"
    "k_TenantID row = tenantID" "k_Scopes row = scopes" "k_ExpiresAt row = expiresAt" "k_RevokedAt row = None"
    using assms(1) by (auto simp: CreateAPIKey_def generateKey_def HashAPIKey_def Let_def outcome_simps split: outcome.splits option.splits if_splits)
  have "find (\<lambda>x. k_Hash x = ke_hash env raw \<and> active (ke_now env') x) db = None"
    unfolding find_None_iff using row(2,3) by (metis imageI)
  moreover have "active (ke_now env') row" using row(6,7) assms(6) by (auto simp: active_def split: option.split)
  ultimately have "find (\<lambda>x. k_Hash x = ke_hash env raw \<and> active (ke_now env') x) db' = Some row"
    using row(2) unfolding row(1) by (simp add: find_snoc)
  then show ?thesis using raw assms(3-5) row by (simp add: APIKeyAuth_def LookupAPIKey_def HashAPIKey_def Let_def)
qed

text \<open>
  The admin gate is sound: behind \<open>AnyAuth\<close> and \<open>RequireScope(logs:admin)\<close> a handler runs only for
  an identity that holds the scope and comes from an active key of the table, or from a token that
  a key of the issuer verifies, that has not expired and that names the issuer and a tenant.
\<close>

theorem admin_gate_sound:
  assumes "AnyAuth env touch oenv issuer r (db, c) = (Pass ctx, st')" and "RequireScope [''logs:admin''] ctx = Pass ctx'"
  shows "ctx' = ctx \<and> ''logs:admin'' \<in> set (ctxScopes ctx) \<and>
    ((\<exists>k \<in> set db. active (ke_now env) k \<and> k_Hash k = HashAPIKey env (hr_Header r ''X-Qeet-Api-Key'') \<and>
        ctx = \<lparr>ctxTenant = k_TenantID k, ctxScopes = k_Scopes k\<rparr>) \<or>
     (\<exists>ks key cl. fst (jwks_get oenv issuer c) = Ok ks \<and> key \<in> set ks \<and>
        oe_verify oenv key (TrimPrefix (hr_Header r ''Authorization'') ''Bearer '') = Some cl \<and> oe_unix oenv \<le> cl_Exp cl \<and>
        EqualFold (TrimRight_slash (cl_Iss cl)) (TrimRight_slash issuer) \<and> cl_TenantID cl = ctxTenant ctx \<and> ctxTenant ctx \<noteq> []))"
proof -
  have sc: "ctx' = ctx" "''logs:admin'' \<in> set (ctxScopes ctx)"
    using assms(2) by (auto simp: RequireScope_def list_ex_iff split: if_splits)
  consider "fst (APIKeyAuth env touch r db) = Pass ctx" "hr_Header r ''X-Qeet-Api-Key'' \<noteq> []" | "fst (OIDCAuth oenv issuer r c) = Pass ctx"
    using assms(1) by (auto simp: AnyAuth_def Let_def split: if_splits prod.splits)
  then show ?thesis
  proof cases
    case 1
    with APIKeyAuth_sound show ?thesis using sc by blast
  next
    case 2
    with OIDCAuth_sound show ?thesis using sc by blast
  qed
qed

section \<open>Concrete keys\<close>

definition demo_env :: kenv where
  "demo_env = \<lparr>ke_now = 5, ke_hash = id, ke_newid = (\<lambda>db. replicate (length db) (CHR ''i'')), ke_fault = None\<rparr>"

definition demo_row :: api_key where
  "demo_row = \<lparr>k_ID = [], k_TenantID = ''acme'', k_Name = ''ci'', k_Hash = ''qeel_r'', k_Prefix = ''qeel_r'', k_Scopes = [''logs:admin''],
     k_LastUsedAt = None, k_ExpiresAt = None, k_RevokedAt = None, k_CreatedAt = 5\<rparr>"

definition demo_request :: http_request where
  "demo_request = \<lparr>hr_Header = (\<lambda>h. if h = ''X-Qeet-Api-Key'' then ''qeel_r'' else []), hr_Query = (\<lambda>_. [])\<rparr>"

definition demo_oenv :: "unit oenv" where
  "demo_oenv = \<lparr>oe_now = 0, oe_fetch = (\<lambda>_. Ok []), oe_fetched_at = 0, oe_parse = (\<lambda>_. False), oe_verify = (\<lambda>_ _. None), oe_unix = 0\<rparr>"

definition demo_cache :: "unit jwks_cache" where
  "demo_cache = \<lparr>jc_keySet = None, jc_fetched = 0\<rparr>"

lemma demo_create: "CreateAPIKey demo_env id (Ok ''r'') ''acme'' ''ci'' [''logs:admin''] None [] = (Ok (''qeel_r'', demo_row), [demo_row])"
  by code_simp

theorem revoked_key_dead_witness:
  "\<forall>ak. LookupAPIKey demo_env ''qeel_r'' (snd (RevokeAPIKey demo_env ''acme'' [] [demo_row])) \<noteq> Ok (Some ak)"
proof -
  have "RevokeAPIKey demo_env (k_TenantID demo_row) (k_ID demo_row) [demo_row] = (Ok True, snd (RevokeAPIKey demo_env ''acme'' [] [demo_row]))"
    by (simp add: RevokeAPIKey_def demo_env_def demo_row_def revocable_def)
  from revoked_key_dead[OF _ _ this rtranclp.rtrancl_refl, of demo_env] show ?thesis
    by (simp add: key_inv_def demo_row_def)
qed

theorem created_key_authenticates_witness:
  "fst (APIKeyAuth demo_env demo_env demo_request [demo_row]) = Pass \<lparr>ctxTenant = ''acme'', ctxScopes = [''logs:admin'']\<rparr>"
  by (rule created_key_authenticates[OF demo_create]) (simp_all add: key_inv_def demo_request_def demo_env_def)

theorem admin_gate_sound_witness:
  "\<exists>k \<in> set [demo_row]. active 5 k \<and> k_TenantID k = ''acme''"
proof -
  have "AnyAuth demo_env demo_env demo_oenv [] demo_request ([demo_row], demo_cache) =
      (Pass \<lparr>ctxTenant = ''acme'', ctxScopes = [''logs:admin'']\<rparr>, [demo_row\<lparr>k_LastUsedAt := Some 5\<rparr>], demo_cache)"
    by code_simp
  moreover have "RequireScope [''logs:admin''] \<lparr>ctxTenant = ''acme'', ctxScopes = [''logs:admin'']\<rparr> = Pass \<lparr>ctxTenant = ''acme'', ctxScopes = [''logs:admin'']\<rparr>"
    by (simp add: RequireScope_def)
  ultimately show ?thesis using admin_gate_sound by (fastforce simp: demo_oenv_def demo_env_def)
qed

text \<open>
  Any tenant administrator can mint an operator key: an identity that holds only \<open>logs:admin\<close> creates
  a key with the scope \<open>logs:platform\<close>, and a request with that key carries it.
\<close>

theorem admin_mints_platform:
  "\<exists>raw row db. CreateAPIKey_handler demo_env id (Ok ''r'') \<lparr>ctxTenant = ''acme'', ctxScopes = [''logs:admin'']\<rparr>
      (Some \<lparr>cr_Name = ''k'', cr_Scopes = [''logs:platform''], cr_ExpiresAt = None\<rparr>) [] = (Answer 201 (raw, row), db) \<and>
    fst (APIKeyAuth demo_env demo_env demo_request db) = Pass \<lparr>ctxTenant = ''acme'', ctxScopes = [''logs:platform'']\<rparr>"
proof -
  define row where "row = demo_row\<lparr>k_Name := ''k'', k_Scopes := [''logs:platform'']\<rparr>"
  have "CreateAPIKey_handler demo_env id (Ok ''r'') \<lparr>ctxTenant = ''acme'', ctxScopes = [''logs:admin'']\<rparr>
      (Some \<lparr>cr_Name = ''k'', cr_Scopes = [''logs:platform''], cr_ExpiresAt = None\<rparr>) [] = (Answer 201 (''qeel_r'', row), [row])"
    unfolding row_def by code_simp
  moreover have "fst (APIKeyAuth demo_env demo_env demo_request [row]) = Pass \<lparr>ctxTenant = ''acme'', ctxScopes = [''logs:platform'']\<rparr>"
    unfolding row_def by code_simp
  ultimately show ?thesis by blast
qed

end
