(* ===== verification/Routing_Sim.thy ===== *)
theory Routing_Sim
  imports Loki Access "HOL-Library.Multiset"
begin

text \<open>
  Routing simulation (\<open>domains/routingsim/routingsim.go\<close>, \<open>platform/api/handler/routing_sim.go\<close>): which
  alert rules would select a synthetic event, and the channels the handler reports. The reasons of a result are kept as the format and the arguments of \<open>fmt.Sprintf\<close>. The two
  regular expressions are written out as scanners; a condition is read after its surrounding white
  space is removed, so an operand never ends in white space.
\<close>

section \<open>Data\<close>

definition severityRank :: "string \<rightharpoonup> int" where
  "severityRank = map_of [(''trace'', 0), (''debug'', 1), (''info'', 2), (''warn'', 3), (''warning'', 3), (''error'', 4),
     (''err'', 4), (''fatal'', 5), (''critical'', 5), (''crit'', 5)]"

record Event =
  e_Service :: string
  e_Severity :: string
  e_Labels :: "string \<rightharpoonup> string"

record SimChannel =
  sc_Type :: string
  sc_Target :: string

record Rule =
  ru_ID :: string
  ru_Name :: string
  ru_Kind :: string
  ru_Service :: string
  ru_Condition :: string
  ru_Enabled :: bool
  ru_Channels :: "SimChannel list"

type_synonym why = "string \<times> string list"

record Result =
  re_RuleID :: string
  re_RuleName :: string
  re_Kind :: string
  re_Matched :: bool
  re_Reasons :: "why list"
  re_Channels :: "SimChannel list"

record clause =
  cl_field :: string
  cl_op :: string
  cl_value :: string
  cl_raw :: string

section \<open>Clauses\<close>

definition Trim_parens :: "string \<Rightarrow> string" where
  "Trim_parens s = rev (dropWhile (\<lambda>c. c = CHR ''('' \<or> c = CHR '')'') (rev (dropWhile (\<lambda>c. c = CHR ''('' \<or> c = CHR '')'') s)))"

definition unquote :: "string \<Rightarrow> string" where
  "unquote s0 =
     (let s = TrimSpace s0 in
      if 2 \<le> length s \<and> ((hd s = squote \<and> last s = squote) \<or> (hd s = dquote \<and> last s = dquote)) then tl (butlast s) else s)"

definition field_char :: "char \<Rightarrow> bool" where
  "field_char c \<longleftrightarrow> between CHR ''a'' CHR ''z'' c \<or> between CHR ''A'' CHR ''Z'' c \<or> isDigit c \<or> c = CHR ''_'' \<or> c = CHR ''.''"

definition clause_ops :: "string list" where
  "clause_ops = [''>='', ''<='', ''!='', ''=~'', ''=='', ''='', ''>'', ''<'']"

text \<open>\<open>clauseRe\<close>: the field, the first operator of the alternation that leaves an operand, and the operand, which holds no newline.\<close>

definition clause_match :: "string \<Rightarrow> (string \<times> string \<times> string) option" where
  "clause_match p =
     (let f = takeWhile field_char p; r = dropWhile re_space (dropWhile field_char p) in
      if f = [] then None
      else case find (\<lambda>op. HasPrefix r op \<and> dropWhile re_space (drop (length op) r) \<noteq> [] \<and>
                            CHR 0x0A \<notin> set (dropWhile re_space (drop (length op) r))) clause_ops of
        None \<Rightarrow> None
      | Some op \<Rightarrow> Some (f, op, dropWhile re_space (drop (length op) r)))"

text \<open>\<open>andRe.Split\<close>.\<close>

function split_and :: "string \<Rightarrow> string \<Rightarrow> string list" where
  "split_and acc [] = [acc]"
| "split_and acc (c # cs) =
     (let r = dropWhile re_space (c # cs) in
      if re_space c \<and> EqualFold (take 3 r) ''and'' \<and> drop 3 r \<noteq> [] \<and> re_space (hd (drop 3 r))
      then acc # split_and [] (dropWhile re_space (drop 3 r))
      else split_and (acc @ [c]) cs)"
  by pat_completeness auto
termination
  by (relation "measure (\<lambda>(acc, s). length s)")
     (auto intro!: le_less_trans[OF length_dropWhile_le] simp: le_imp_less_Suc length_dropWhile_le diff_le_self le_trans[OF diff_le_self])

definition clause_of :: "string \<Rightarrow> clause list" where
  "clause_of p0 =
     (let p = TrimSpace (Trim_parens (TrimSpace p0)) in
      if p = [] then []
      else case clause_match p of
        None \<Rightarrow> [\<lparr>cl_field = [], cl_op = [], cl_value = [], cl_raw = p\<rparr>]
      | Some (f, op, v) \<Rightarrow> [\<lparr>cl_field = TrimSpace f, cl_op = op, cl_value = unquote v, cl_raw = p\<rparr>])"

definition splitClauses :: "string \<Rightarrow> clause list" where
  "splitClauses cond0 =
     (let cond = TrimSpace cond0 in if cond = [] then [] else concat (map clause_of (split_and [] cond)))"

section \<open>Evaluation\<close>

definition resolveField :: "string \<Rightarrow> Event \<Rightarrow> string \<times> bool \<times> bool" where
  "resolveField fld ev =
     (let lower = ToLower fld in
      if lower = ''service'' then (e_Service ev, False, e_Service ev \<noteq> [])
      else if lower = ''level'' \<or> lower = ''severity'' then (e_Severity ev, True, e_Severity ev \<noteq> [])
      else let key = (if HasPrefix lower ''labels.'' then drop 7 fld
                      else if HasPrefix lower ''label.'' then drop 6 fld else fld)
           in case e_Labels ev key of Some v \<Rightarrow> (v, False, True) | None \<Rightarrow> ([], False, False))"

definition order_holds :: "string \<Rightarrow> int \<Rightarrow> int \<Rightarrow> bool" where
  "order_holds op a b =
     (if op = ''>'' then a > b else if op = ''<'' then a < b else if op = ''>='' then a \<ge> b else if op = ''<='' then a \<le> b else False)"

definition evalOrdering :: "clause \<Rightarrow> string \<Rightarrow> bool \<Rightarrow> bool \<times> why" where
  "evalOrdering cl actual isSeverity =
     (if \<not> isSeverity then (False, ''ordering operator %q only supported on severity/level (clause %q)'', [cl_op cl, cl_raw cl])
      else case (severityRank (ToLower actual), severityRank (ToLower (cl_value cl))) of
        (Some a, Some b) \<Rightarrow>
          (if order_holds (cl_op cl) a b then (True, ''severity %q %s %q'', [actual, cl_op cl, cl_value cl])
           else (False, ''severity %q not %s %q'', [actual, cl_op cl, cl_value cl]))
      | _ \<Rightarrow> (False, ''unknown severity in clause %q'', [cl_raw cl]))"

fun Contains :: "string \<Rightarrow> string \<Rightarrow> bool" where
  "Contains [] sub = (sub = [])"
| "Contains (c # cs) sub = (HasPrefix (c # cs) sub \<or> Contains cs sub)"

definition is_ordering :: "string \<Rightarrow> bool" where
  "is_ordering op \<longleftrightarrow> op = ''>'' \<or> op = ''<'' \<or> op = ''>='' \<or> op = ''<=''"

definition evalClause :: "clause \<Rightarrow> Event \<Rightarrow> bool \<times> why" where
  "evalClause cl ev =
     (if cl_field cl = [] \<or> cl_op cl = [] then (False, ''unparseable condition clause %q'', [cl_raw cl])
      else let (actual, isSeverity, ok) = resolveField (cl_field cl) ev in
        if \<not> ok then (False, ''event has no %q to satisfy clause %q'', [cl_field cl, cl_raw cl])
        else if cl_op cl = ''='' \<or> cl_op cl = ''=='' then
          (if EqualFold actual (cl_value cl) then (True, ''%s equals %q'', [cl_field cl, cl_value cl])
           else (False, ''%s is %q, not %q'', [cl_field cl, actual, cl_value cl]))
        else if cl_op cl = ''!='' then
          (if \<not> EqualFold actual (cl_value cl) then (True, ''%s is %q (not %q, satisfied)'', [cl_field cl, actual, cl_value cl])
           else (False, ''%s equals %q (excluded)'', [cl_field cl, cl_value cl]))
        else if cl_op cl = ''=~'' then
          (if Contains (ToLower actual) (ToLower (cl_value cl)) then (True, ''%s %q contains %q'', [cl_field cl, actual, cl_value cl])
           else (False, ''%s %q does not contain %q'', [cl_field cl, actual, cl_value cl]))
        else if is_ordering (cl_op cl) then evalOrdering cl actual isSeverity
        else (False, ''unsupported operator %q in clause %q'', [cl_op cl, cl_raw cl]))"

text \<open>The clause loop: the reasons collected and whether every clause held; it stops at the first that does not.\<close>

fun clause_loop :: "Event \<Rightarrow> clause list \<Rightarrow> why list \<Rightarrow> bool \<times> why list" where
  "clause_loop ev [] rs = (True, rs)"
| "clause_loop ev (cl # cls) rs =
     (let (ok, why) = evalClause cl ev in if \<not> ok then (False, rs @ [why]) else clause_loop ev cls (rs @ [why]))"

definition matchRule :: "Event \<Rightarrow> Rule \<Rightarrow> Result" where
  "matchRule ev r =
     (let res = \<lparr>re_RuleID = ru_ID r, re_RuleName = ru_Name r, re_Kind = ru_Kind r, re_Matched = True, re_Reasons = [], re_Channels = []\<rparr> in
      if \<not> ru_Enabled r then res\<lparr>re_Matched := False, re_Reasons := [(''rule is disabled'', [])]\<rparr>
      else if TrimSpace (ru_Service r) \<noteq> [] \<and> \<not> EqualFold (TrimSpace (ru_Service r)) (TrimSpace (e_Service ev))
      then res\<lparr>re_Matched := False, re_Reasons := [(''service %q does not match rule scope %q'', [e_Service ev, ru_Service r])]\<rparr>
      else let scope = (if TrimSpace (ru_Service r) = [] then (''rule applies to all services'', [])
                        else (''service %q matches rule scope'', [e_Service ev]));
               (ok, reasons) = clause_loop ev (splitClauses (ru_Condition r)) [scope]
           in if ok then res\<lparr>re_Reasons := reasons, re_Channels := ru_Channels r\<rparr>
              else res\<lparr>re_Matched := False, re_Reasons := reasons\<rparr>)"

definition Simulate :: "Event \<Rightarrow> Rule list \<Rightarrow> Result list" where
  "Simulate ev rules = foldl (\<lambda>out r. out @ [matchRule ev r]) [] rules"

section \<open>The handler\<close>

record routingSimRequest =
  sr_Service :: string
  sr_Severity :: string
  sr_Labels :: "(string \<times> string) list"

record alert_rule_row =
  ar_ID :: string
  ar_TenantID :: string
  ar_Name :: string
  ar_Kind :: string
  ar_Service :: "string option"
  ar_Condition :: "string option"
  ar_Channels :: string
  ar_Enabled :: bool
  ar_CreatedAt :: int

record routingSimResponse =
  sp_RuleCount :: nat
  sp_MatchedCount :: nat
  sp_Results :: "Result list"
  sp_ChannelsFired :: "SimChannel list"

text \<open>\<open>unmarshal\<close> gives what the decoder leaves in the slice, whose error is dropped.\<close>

definition rule_of_row :: "(string \<Rightarrow> SimChannel list) \<Rightarrow> alert_rule_row \<Rightarrow> Rule" where
  "rule_of_row unmarshal a =
     \<lparr>ru_ID = ar_ID a, ru_Name = ar_Name a, ru_Kind = ar_Kind a,
      ru_Service = (case ar_Service a of Some s \<Rightarrow> s | None \<Rightarrow> []), ru_Condition = (case ar_Condition a of Some s \<Rightarrow> s | None \<Rightarrow> []),
      ru_Enabled = ar_Enabled a, ru_Channels = (if ar_Channels a = [] then [] else unmarshal (ar_Channels a))\<rparr>"

definition routingSimLoadRules :: "(string \<Rightarrow> SimChannel list) \<Rightarrow> (goerror, alert_rule_row list) outcome \<Rightarrow> string \<Rightarrow> (goerror, Rule list) outcome" where
  "routingSimLoadRules unmarshal table tenant =
     bindO table (\<lambda>rows. Ok (map (rule_of_row unmarshal)
       (sort_key (\<lambda>a. - ar_CreatedAt a) (filter (\<lambda>a. ar_TenantID a = tenant) rows))))"

definition channel_key :: "SimChannel \<Rightarrow> string" where
  "channel_key c = sc_Type c @ [CHR 0x00] @ sc_Target c"

fun fire_channels :: "SimChannel list \<Rightarrow> string list \<times> SimChannel list \<Rightarrow> string list \<times> SimChannel list" where
  "fire_channels [] st = st"
| "fire_channels (c # cs) st =
     (case st of (seen, fired) \<Rightarrow>
        if channel_key c \<in> set seen then fire_channels cs (seen, fired)
        else fire_channels cs (channel_key c # seen, fired @ [c]))"

fun fire_results :: "Result list \<Rightarrow> nat \<times> string list \<times> SimChannel list \<Rightarrow> nat \<times> string list \<times> SimChannel list" where
  "fire_results [] st = st"
| "fire_results (res # rs) st =
     (case st of (matched, acc) \<Rightarrow>
        if \<not> re_Matched res then fire_results rs (matched, acc)
        else fire_results rs (matched + 1, fire_channels (re_Channels res) acc))"

definition SimulateAlertRouting :: "(string \<Rightarrow> SimChannel list) \<Rightarrow> (goerror, alert_rule_row list) outcome \<Rightarrow> identity \<Rightarrow> routingSimRequest option \<Rightarrow>
    routingSimResponse http_answer" where
  "SimulateAlertRouting unmarshal table ctx body =
     (if \<not> HasScope ctx [''logs:read''] then Error 403 ''requires logs:read scope''
      else case body of
        None \<Rightarrow> Error 400 ''invalid JSON body''
      | Some req \<Rightarrow>
          if sr_Service req = [] \<and> sr_Severity req = [] \<and> sr_Labels req = [] then Error 400 ''provide at least one of service, severity, labels''
          else case routingSimLoadRules unmarshal table (ctxTenant ctx) of
            Ok rules \<Rightarrow>
              (let results = Simulate \<lparr>e_Service = sr_Service req, e_Severity = sr_Severity req, e_Labels = map_of (sr_Labels req)\<rparr> rules;
                   (matched, _, fired) = fire_results results (0, [], [])
               in Answer 200 \<lparr>sp_RuleCount = length rules, sp_MatchedCount = matched, sp_Results = results, sp_ChannelsFired = fired\<rparr>)
          | _ \<Rightarrow> Error 500 ''failed to load alert rules'')"

section \<open>What a rule selects\<close>

text \<open>The meaning of one clause, without its reasons.\<close>

definition clause_holds :: "clause \<Rightarrow> Event \<Rightarrow> bool" where
  "clause_holds cl ev \<longleftrightarrow> cl_field cl \<noteq> [] \<and> cl_op cl \<noteq> [] \<and>
     (case resolveField (cl_field cl) ev of (actual, isSeverity, present) \<Rightarrow> present \<and>
        ((cl_op cl \<in> {''='', ''==''} \<and> ToLower actual = ToLower (cl_value cl)) \<or>
         (cl_op cl = ''!='' \<and> ToLower actual \<noteq> ToLower (cl_value cl)) \<or>
         (cl_op cl = ''=~'' \<and> (\<exists>u v. ToLower actual = u @ ToLower (cl_value cl) @ v)) \<or>
         (isSeverity \<and> (\<exists>a b. severityRank (ToLower actual) = Some a \<and> severityRank (ToLower (cl_value cl)) = Some b \<and>
            ((cl_op cl = ''>'' \<and> a > b) \<or> (cl_op cl = ''<'' \<and> a < b) \<or> (cl_op cl = ''>='' \<and> a \<ge> b) \<or> (cl_op cl = ''<='' \<and> a \<le> b))))))"

lemma Contains_iff: "Contains s sub \<longleftrightarrow> (\<exists>u v. s = u @ sub @ v)"
proof (induction s)
  case (Cons c cs)
  have "HasPrefix (c # cs) sub \<longleftrightarrow> (\<exists>v. c # cs = sub @ v)" by (metis HasPrefix_def append_eq_conv_conj append_take_drop_id)
  with Cons show ?case by (auto simp: Cons_eq_append_conv)
qed simp

lemma order_ops: "order_holds op a b \<longleftrightarrow> (op = ''>'' \<and> a > b) \<or> (op = ''<'' \<and> a < b) \<or> (op = ''>='' \<and> a \<ge> b) \<or> (op = ''<='' \<and> a \<le> b)"
  by (auto simp: order_holds_def)

lemma evalClause_iff: "fst (evalClause cl ev) \<longleftrightarrow> clause_holds cl ev"
proof -
  obtain actual sev present where r: "resolveField (cl_field cl) ev = (actual, sev, present)" by (cases "resolveField (cl_field cl) ev") auto
  have o: "fst (evalOrdering cl actual sev) \<longleftrightarrow> sev \<and> (\<exists>a b. severityRank (ToLower actual) = Some a \<and> severityRank (ToLower (cl_value cl)) = Some b \<and> order_holds (cl_op cl) a b)"
    by (auto simp: evalOrdering_def split: option.splits)
  consider "cl_op cl = ''=''" | "cl_op cl = ''==''" | "cl_op cl = ''!=''" | "cl_op cl = ''=~''" | "is_ordering (cl_op cl)"
    | "cl_op cl \<notin> {''='', ''=='', ''!='', ''=~''}" "\<not> is_ordering (cl_op cl)" by auto
  then show ?thesis
    by cases (auto simp: evalClause_def clause_holds_def r EqualFold_def Contains_iff is_ordering_def o order_ops)
qed

lemma clause_loop_fst: "fst (clause_loop ev cls rs) \<longleftrightarrow> list_all (\<lambda>cl. clause_holds cl ev) cls"
  by (induction cls arbitrary: rs) (auto simp: evalClause_iff[symmetric] Let_def split_beta)

definition selects :: "Event \<Rightarrow> Rule \<Rightarrow> bool" where
  "selects ev r \<longleftrightarrow> ru_Enabled r \<and>
     (TrimSpace (ru_Service r) = [] \<or> ToLower (TrimSpace (ru_Service r)) = ToLower (TrimSpace (e_Service ev))) \<and>
     list_all (\<lambda>cl. clause_holds cl ev) (splitClauses (ru_Condition r))"

lemma matchRule_selects: "re_Matched (matchRule ev r) = selects ev r \<and> re_Channels (matchRule ev r) = (if selects ev r then ru_Channels r else [])"
  using clause_loop_fst[of ev "splitClauses (ru_Condition r)"]
  by (auto simp: matchRule_def selects_def EqualFold_def Let_def split_beta)

lemma Simulate_map: "Simulate ev rules = map (matchRule ev) rules"
proof -
  have "foldl (\<lambda>out r. out @ [matchRule ev r]) acc rules = acc @ map (matchRule ev) rules" for acc
    by (induction rules arbitrary: acc) simp_all
  then show ?thesis by (simp add: Simulate_def)
qed


definition or_rule :: Rule where
  "or_rule = \<lparr>ru_ID = ''r'', ru_Name = ''n'', ru_Kind = ''threshold'', ru_Service = [],
     ru_Condition = ''level != '' @ [squote] @ ''error'' @ [squote] @ '' OR service = '' @ [squote] @ ''x'' @ [squote],
     ru_Enabled = True, ru_Channels = [\<lparr>sc_Type = ''webhook'', sc_Target = ''u''\<rparr>]\<rparr>"

text \<open>
  An alternative is silently read as part of an operand: with the condition
  \<open>level != 'error' OR service = 'x'\<close> an event of level error on another service, which the condition
  excludes, is matched and its channel fires.
\<close>

theorem or_condition_fires:
  "map (\<lambda>res. (re_Matched res, re_Channels res)) (Simulate \<lparr>e_Service = ''y'', e_Severity = ''error'', e_Labels = Map.empty\<rparr> [or_rule]) =
     [(True, [\<lparr>sc_Type = ''webhook'', sc_Target = ''u''\<rparr>])]"
  by code_simp

section \<open>What the handler reports\<close>

definition fired_inv :: "string list \<times> SimChannel list \<Rightarrow> bool" where
  "fired_inv acc \<longleftrightarrow> distinct (map channel_key (snd acc)) \<and> set (map channel_key (snd acc)) = set (fst acc)"

lemma fire_channels_inv: "fired_inv acc \<Longrightarrow> fired_inv (fire_channels cs acc) \<and>
    set (snd (fire_channels cs acc)) \<subseteq> set (snd acc) \<union> set cs \<and>
    channel_key ` set (snd (fire_channels cs acc)) = channel_key ` (set (snd acc) \<union> set cs)"
proof (induction cs arbitrary: acc)
  case (Cons c cs)
  obtain seen fired where acc: "acc = (seen, fired)" by force
  show ?case
  proof (cases "channel_key c \<in> set seen")
    case True
    then have "channel_key c \<in> channel_key ` set fired" using Cons.prems by (simp add: acc fired_inv_def)
    then show ?thesis using Cons.IH[OF Cons.prems] True by (auto simp: acc)
  next
    case False
    have "fired_inv (channel_key c # seen, fired @ [c])" using Cons.prems False by (auto simp: acc fired_inv_def)
    from Cons.IH[OF this] False show ?thesis by (auto simp: acc)
  qed
qed simp

lemma fire_results_inv: "fired_inv acc \<Longrightarrow>
    (let cs = concat (map re_Channels (filter re_Matched rs)); (n', acc') = fire_results rs (n, acc) in
     fired_inv acc' \<and> n' = n + length (filter re_Matched rs) \<and> set (snd acc') \<subseteq> set (snd acc) \<union> set cs \<and>
     channel_key ` set (snd acc') = channel_key ` (set (snd acc) \<union> set cs))"
proof (induction rs arbitrary: n acc)
  case (Cons r rs)
  show ?case
  proof (cases "re_Matched r")
    case True
    note f = fire_channels_inv[OF Cons.prems, of "re_Channels r"]
    show ?thesis using Cons.IH[OF f[THEN conjunct1], of "n + 1"] f True
      by (auto simp: Let_def split_beta image_Un)
  next
    case False
    then show ?thesis using Cons.IH[OF Cons.prems, of n] by (simp add: Let_def split_beta)
  qed
qed simp

text \<open>
  The handler reports the simulation of the caller's own rules: an answer needs the read scope,
  counts the rules of the tenant and those that select the event, and lists each channel of a
  selecting rule exactly once by type and target, and no other channel.
\<close>

theorem SimulateAlertRouting_fired:
  assumes "SimulateAlertRouting unmarshal (Ok rows) ctx (Some req) = Answer 200 resp"
  shows "\<exists>rules. mset rules = image_mset (rule_of_row unmarshal) {# a \<in># mset rows. ar_TenantID a = ctxTenant ctx #} \<and>
    (let ev = \<lparr>e_Service = sr_Service req, e_Severity = sr_Severity req, e_Labels = map_of (sr_Labels req)\<rparr>;
         cs = concat (map ru_Channels (filter (selects ev) rules)) in
     ''logs:read'' \<in> set (ctxScopes ctx) \<and> sp_RuleCount resp = length rules \<and> sp_MatchedCount resp = length (filter (selects ev) rules) \<and>
     distinct (map channel_key (sp_ChannelsFired resp)) \<and> set (sp_ChannelsFired resp) \<subseteq> set cs \<and>
     channel_key ` set (sp_ChannelsFired resp) = channel_key ` set cs)"
proof -
  define ev where "ev = \<lparr>e_Service = sr_Service req, e_Severity = sr_Severity req, e_Labels = map_of (sr_Labels req)\<rparr>"
  define rules where "rules = map (rule_of_row unmarshal) (sort_key (\<lambda>a. - ar_CreatedAt a) (filter (\<lambda>a. ar_TenantID a = ctxTenant ctx) rows))"
  have sc: "''logs:read'' \<in> set (ctxScopes ctx)"
    using assms by (auto simp: SimulateAlertRouting_def list_ex_iff split: if_splits)
  have resp: "resp = (let (matched, _, fired) = fire_results (Simulate ev rules) (0, [], [])
      in \<lparr>sp_RuleCount = length rules, sp_MatchedCount = matched, sp_Results = Simulate ev rules, sp_ChannelsFired = fired\<rparr>)"
    using assms by (auto simp: SimulateAlertRouting_def routingSimLoadRules_def ev_def rules_def Let_def split_beta split: if_splits)
  have m: "filter re_Matched (Simulate ev rules) = map (matchRule ev) (filter (selects ev) rules)"
    unfolding Simulate_map using matchRule_selects by (induction rules) auto
  have c: "concat (map re_Channels (map (matchRule ev) (filter (selects ev) rules))) = concat (map ru_Channels (filter (selects ev) rules))"
    using matchRule_selects by (induction rules) auto
  have "mset rules = image_mset (rule_of_row unmarshal) {# a \<in># mset rows. ar_TenantID a = ctxTenant ctx #}" by (simp add: rules_def)
  moreover have "sp_RuleCount resp = length rules \<and> sp_MatchedCount resp = length (filter (selects ev) rules) \<and>
     distinct (map channel_key (sp_ChannelsFired resp)) \<and> set (sp_ChannelsFired resp) \<subseteq> set (concat (map ru_Channels (filter (selects ev) rules))) \<and>
     channel_key ` set (sp_ChannelsFired resp) = channel_key ` set (concat (map ru_Channels (filter (selects ev) rules)))"
    using fire_results_inv[of "([], [])" "Simulate ev rules" 0] unfolding resp m c
    by (simp add: fired_inv_def Let_def split_beta del: set_concat set_map)
  ultimately show ?thesis unfolding ev_def Let_def using sc by blast
qed

definition sim_row :: alert_rule_row where
  "sim_row = \<lparr>ar_ID = ''r'', ar_TenantID = ''acme'', ar_Name = ''n'', ar_Kind = ''threshold'', ar_Service = Some ''api'', ar_Condition = None,
     ar_Channels = ''c'', ar_Enabled = True, ar_CreatedAt = 0\<rparr>"

definition sim_decode :: "string \<Rightarrow> SimChannel list" where
  "sim_decode s = [\<lparr>sc_Type = ''webhook'', sc_Target = s\<rparr>, \<lparr>sc_Type = ''webhook'', sc_Target = s\<rparr>]"

definition sim_request :: routingSimRequest where
  "sim_request = \<lparr>sr_Service = ''API'', sr_Severity = [], sr_Labels = []\<rparr>"

theorem SimulateAlertRouting_fired_witness:
  "\<exists>resp. SimulateAlertRouting sim_decode (Ok [sim_row]) \<lparr>ctxTenant = ''acme'', ctxScopes = [''logs:read'']\<rparr> (Some sim_request) = Answer 200 resp \<and>
     distinct (map channel_key (sp_ChannelsFired resp)) \<and> sp_ChannelsFired resp \<noteq> []"
proof -
  obtain resp where r: "SimulateAlertRouting sim_decode (Ok [sim_row]) \<lparr>ctxTenant = ''acme'', ctxScopes = [''logs:read'']\<rparr> (Some sim_request) = Answer 200 resp"
    and f: "sp_ChannelsFired resp = [\<lparr>sc_Type = ''webhook'', sc_Target = ''c''\<rparr>]"
  proof -
    have "case SimulateAlertRouting sim_decode (Ok [sim_row]) \<lparr>ctxTenant = ''acme'', ctxScopes = [''logs:read'']\<rparr> (Some sim_request) of
      Answer c resp \<Rightarrow> c = 200 \<and> sp_ChannelsFired resp = [\<lparr>sc_Type = ''webhook'', sc_Target = ''c''\<rparr>] | Error _ _ \<Rightarrow> False" by code_simp
    then show ?thesis using that by (auto split: http_answer.splits)
  qed
  from SimulateAlertRouting_fired[OF r] have "distinct (map channel_key (sp_ChannelsFired resp))" by (auto simp: Let_def)
  with r f show ?thesis by auto
qed

end
