(* ===== verification/Rate_Limit.thy ===== *)
theory Rate_Limit
  imports Go_Prelude
begin

text \<open>
  The per-tenant fixed-window rate limiter (\<open>platform/api/middleware/ratelimit.go\<close>). The shared
  Redis is a map from keys to a counter with an optional expiry; one request is one step on it,
  and the requests of all replicas form one sequence, since INCR is atomic. Instants are
  nanoseconds since the Unix epoch. A failing INCR leaves the counter as it is; a failing EXPIRE
  is ignored, as in the source.
\<close>

section \<open>Configuration and time\<close>

record RateLimitConfig =
  rl_Requests :: int
  rl_Window :: int

definition second :: int where "second = 1000000000"

definition DefaultRateLimit :: RateLimitConfig where
  "DefaultRateLimit = \<lparr>rl_Requests = 600, rl_Window = 60 * second\<rparr>"

text \<open>
  \<open>Time.Truncate\<close> rounds down to a multiple of the duration since the zero time, the first of
  January of the year 1; a non-positive duration changes nothing. \<open>Time.Unix\<close> rounds down to seconds.
\<close>

definition zero_time :: int where "zero_time = 62135596800 * second"

definition Truncate :: "int \<Rightarrow> int \<Rightarrow> int" where
  "Truncate t w = (if w \<le> 0 then t else t - (t + zero_time) mod w)"

definition Unix :: "int \<Rightarrow> int" where
  "Unix t = t div second"

text \<open>Division of a duration rounded toward zero, as the conversion of \<open>Duration.Seconds\<close> to an \<open>int\<close>.\<close>

definition whole_seconds :: "int \<Rightarrow> int" where
  "whole_seconds d = (if 0 \<le> d then d div second else - ((- d) div second))"

section \<open>Redis\<close>

type_synonym redis = "string \<rightharpoonup> int \<times> int option"

definition alive :: "int \<Rightarrow> int option \<Rightarrow> bool" where
  "alive now e = (case e of None \<Rightarrow> True | Some x \<Rightarrow> now < x)"

definition redis_get :: "redis \<Rightarrow> int \<Rightarrow> string \<Rightarrow> int" where
  "redis_get r now k = (case r k of Some (n, e) \<Rightarrow> if alive now e then n else 0 | None \<Rightarrow> 0)"

definition redis_ttl :: "redis \<Rightarrow> int \<Rightarrow> string \<Rightarrow> int option" where
  "redis_ttl r now k = (case r k of Some (n, e) \<Rightarrow> if alive now e then e else None | None \<Rightarrow> None)"

definition redis_incr :: "redis \<Rightarrow> int \<Rightarrow> string \<Rightarrow> int \<times> redis" where
  "redis_incr r now k = (let n = redis_get r now k + 1 in (n, r(k \<mapsto> (n, redis_ttl r now k))))"

definition redis_expire :: "redis \<Rightarrow> int \<Rightarrow> string \<Rightarrow> int \<Rightarrow> redis" where
  "redis_expire r now k d = (case r k of Some (n, _) \<Rightarrow> r(k \<mapsto> (n, Some (now + d))) | None \<Rightarrow> r)"

section \<open>The middleware\<close>

record rl_request =
  rq_tenant :: string
  rq_now :: int
  rq_later :: int
  rq_incr_err :: bool
  rq_expire_err :: bool

datatype rl_verdict = Serve "(string \<times> string) list" | TooMany "(string \<times> string) list"

definition rl_key :: "string \<Rightarrow> int \<Rightarrow> string" where
  "rl_key tenant windowStart = ''rl:'' @ tenant @ '':'' @ show_int (Unix windowStart)"

definition rl_headers :: "RateLimitConfig \<Rightarrow> int \<Rightarrow> int \<Rightarrow> (string \<times> string) list" where
  "rl_headers cfg count reset =
     (let remaining = rl_Requests cfg - count; remaining = (if remaining < 0 then 0 else remaining) in
      [(''X-RateLimit-Limit'', show_int (rl_Requests cfg)), (''X-RateLimit-Remaining'', show_int remaining),
       (''X-RateLimit-Reset'', show_int (Unix reset))])"

definition rl_config :: "RateLimitConfig \<Rightarrow> RateLimitConfig" where
  "rl_config cfg = (if rl_Requests cfg \<le> 0 then DefaultRateLimit else cfg)"

text \<open>\<open>have_rdb\<close> is false for a nil client. The second clock reading is the one of \<open>time.Until\<close>.\<close>

definition RateLimit :: "bool \<Rightarrow> RateLimitConfig \<Rightarrow> rl_request \<Rightarrow> redis \<Rightarrow> rl_verdict \<times> redis" where
  "RateLimit have_rdb cfg0 rq r =
     (let cfg = rl_config cfg0 in
      if rq_tenant rq = [] \<or> \<not> have_rdb then (Serve [], r)
      else let windowStart = Truncate (rq_now rq) (rl_Window cfg); key = rl_key (rq_tenant rq) windowStart in
        if rq_incr_err rq then (Serve [], r)
        else let (count, r1) = redis_incr r (rq_now rq) key;
                 r2 = (if count = 1 \<and> \<not> rq_expire_err rq then redis_expire r1 (rq_now rq) key (rl_Window cfg) else r1);
                 reset = windowStart + rl_Window cfg;
                 h = rl_headers cfg count reset
             in if count > rl_Requests cfg
                then (TooMany (h @ [(''Retry-After'', show_int (whole_seconds (reset - rq_later rq) + 1))]), r2)
                else (Serve h, r2))"

fun rl_run :: "bool \<Rightarrow> RateLimitConfig \<Rightarrow> rl_request list \<Rightarrow> redis \<Rightarrow> rl_verdict list \<times> redis" where
  "rl_run have_rdb cfg [] r = ([], r)"
| "rl_run have_rdb cfg (q # qs) r =
     (let (v, r1) = RateLimit have_rdb cfg q r; (vs, r2) = rl_run have_rdb cfg qs r1 in (v # vs, r2))"

section \<open>Windows and keys\<close>

lemma Truncate_bounds: "0 < w \<Longrightarrow> Truncate t w \<le> t \<and> t < Truncate t w + w"
  by (simp add: Truncate_def)

lemma Truncate_second:
  assumes "0 < s" shows "second dvd Truncate t (s * second)"
proof -
  have "Truncate t (s * second) = (t + zero_time) div (s * second) * (s * second) - 62135596800 * second"
    using assms by (simp add: Truncate_def zero_time_def second_def minus_mod_eq_div_mult[symmetric])
  then show ?thesis by (metis dvd_diff dvd_triv_right mult.assoc)
qed

lemma Unix_inj: "second dvd a \<Longrightarrow> second dvd b \<Longrightarrow> Unix a = Unix b \<Longrightarrow> a = b"
  by (auto simp: Unix_def second_def dvd_def)

lemma colon_not_digit: "list_all isDigit s \<Longrightarrow> CHR '':'' \<notin> set s"
  by (auto simp: list_all_iff isDigit_def between_def)

lemma show_int_no_colon: "CHR '':'' \<notin> set (show_int n)"
  using show_digits_digits[of n] show_digits_digits[of "- n"] by (auto simp: show_int_def dest: colon_not_digit)

lemma show_int_inj: "show_int a = show_int b \<Longrightarrow> a = b"
proof -
  assume eq: "show_int a = show_int b"
  have hd_digit: "hd (show_digits n) \<noteq> CHR ''-''" if "0 \<le> n" for n
    using show_digits_digits[OF that] by (cases "show_digits n") (auto simp: isDigit_def between_def)
  have inj: "m = n" if "show_digits m = show_digits n" "0 \<le> m" "0 \<le> n" for m n using that digits_val_show by metis
  show ?thesis
  proof (cases "a < 0"; cases "b < 0")
    assume "a < 0" "b < 0"
    with eq inj[of "- a" "- b"] show ?thesis by (simp add: show_int_def)
  next
    assume "a < 0" "\<not> b < 0"
    with eq hd_digit[of b] show ?thesis by (auto simp: show_int_def dest: arg_cong[of _ _ hd])
  next
    assume "\<not> a < 0" "b < 0"
    with eq hd_digit[of a] show ?thesis by (auto simp: show_int_def dest: arg_cong[of _ _ hd])
  next
    assume "\<not> a < 0" "\<not> b < 0"
    with eq inj[of a b] show ?thesis by (simp add: show_int_def)
  qed
qed

lemma last_colon: "CHR '':'' \<notin> set u \<Longrightarrow> CHR '':'' \<notin> set v \<Longrightarrow> s @ '':'' @ u = t @ '':'' @ v \<Longrightarrow> s = t \<and> u = v"
proof -
  assume u: "CHR '':'' \<notin> set u" and v: "CHR '':'' \<notin> set v" and eq: "s @ '':'' @ u = t @ '':'' @ v"
  have tw: "takeWhile (\<lambda>c. c \<noteq> CHR '':'') (rev (s @ '':'' @ u)) = rev u" if "CHR '':'' \<notin> set u" for s u
    using that by (auto simp: takeWhile_append)
  have "rev u = rev v" using tw[OF u, of s] tw[OF v, of t] by (simp only: eq)
  with eq show ?thesis by simp
qed

lemma rl_key_inj: "rl_key t a = rl_key u b \<Longrightarrow> t = u \<and> Unix a = Unix b"
  unfolding rl_key_def using last_colon[OF show_int_no_colon show_int_no_colon] show_int_inj by (metis same_append_eq)

section \<open>Counting\<close>

definition in_window :: "RateLimitConfig \<Rightarrow> string \<Rightarrow> int \<Rightarrow> rl_request \<Rightarrow> bool" where
  "in_window cfg t ws q \<longleftrightarrow> rq_tenant q = t \<and> Truncate (rq_now q) (rl_Window cfg) = ws"

definition served :: "rl_verdict \<Rightarrow> bool" where
  "served v = (case v of Serve _ \<Rightarrow> True | TooMany _ \<Rightarrow> False)"

text \<open>The counters of the aligned windows, and an expiry never inside its own window.\<close>

definition counts :: "RateLimitConfig \<Rightarrow> redis \<Rightarrow> (string \<Rightarrow> int \<Rightarrow> nat) \<Rightarrow> bool" where
  "counts cfg r N \<longleftrightarrow> (\<forall>t ws. second dvd ws \<longrightarrow>
     (case r (rl_key t ws) of
        None \<Rightarrow> N t ws = 0
      | Some (n, e) \<Rightarrow> n = int (N t ws) \<and> (\<forall>x. e = Some x \<longrightarrow> ws + rl_Window cfg \<le> x)))"

definition bump :: "(string \<Rightarrow> int \<Rightarrow> nat) \<Rightarrow> string \<Rightarrow> int \<Rightarrow> (string \<Rightarrow> int \<Rightarrow> nat)" where
  "bump N t ws = N(t := (N t)(ws := Suc (N t ws)))"

definition whole_window :: "RateLimitConfig \<Rightarrow> bool" where
  "whole_window cfg \<longleftrightarrow> 0 < rl_Requests cfg \<and> 0 < rl_Window cfg \<and> second dvd rl_Window cfg"

lemma window_start: "whole_window cfg \<Longrightarrow> second dvd Truncate now (rl_Window cfg) \<and> Truncate now (rl_Window cfg) \<le> now \<and> now < Truncate now (rl_Window cfg) + rl_Window cfg"
proof -
  assume w: "whole_window cfg"
  then obtain s where s: "rl_Window cfg = s * second" "0 < s"
    by (auto simp: whole_window_def dvd_def mult.commute second_def)
  then show ?thesis using Truncate_second[OF s(2), of now] Truncate_bounds[of "rl_Window cfg" now] w by (simp add: whole_window_def)
qed

lemma RateLimit_hit:
  assumes "whole_window cfg" and "counts cfg r N" and "rq_tenant q \<noteq> []" and "\<not> rq_incr_err q"
    and ws: "ws = Truncate (rq_now q) (rl_Window cfg)"
  shows "served (fst (RateLimit True cfg q r)) = (int (N (rq_tenant q) ws) < rl_Requests cfg) \<and>
    counts cfg (snd (RateLimit True cfg q r)) (bump N (rq_tenant q) ws)"
proof -
  define k where "k = rl_key (rq_tenant q) ws"
  note w = window_start[OF assms(1), of "rq_now q", folded ws]
  have cfg: "rl_config cfg = cfg" using assms(1) by (simp add: rl_config_def whole_window_def)
  have c: "case r k of None \<Rightarrow> N (rq_tenant q) ws = 0 | Some (n, e) \<Rightarrow> n = int (N (rq_tenant q) ws) \<and> (\<forall>x. e = Some x \<longrightarrow> ws + rl_Window cfg \<le> x)"
    using assms(2) w by (simp add: counts_def k_def)
  have get: "redis_get r (rq_now q) k = int (N (rq_tenant q) ws)"
    using c w by (auto simp: redis_get_def alive_def split: option.splits)
  have ttl: "redis_ttl r (rq_now q) k = Some x \<Longrightarrow> ws + rl_Window cfg \<le> x" for x
    using c by (auto simp: redis_ttl_def split: option.splits if_splits)
  define n where "n = int (N (rq_tenant q) ws) + 1"
  obtain e where res: "snd (RateLimit True cfg q r) = r(k \<mapsto> (n, e))" and e: "\<And>x. e = Some x \<Longrightarrow> ws + rl_Window cfg \<le> x"
  proof (cases "n = 1 \<and> \<not> rq_expire_err q")
    case True
    show ?thesis by (rule that[of "Some (rq_now q + rl_Window cfg)"])
      (use True assms(3,4) w get in \<open>auto simp: RateLimit_def cfg Let_def redis_incr_def redis_expire_def k_def n_def ws\<close>)
  next
    case False
    show ?thesis by (rule that[OF _ ttl])
      (use False assms(3,4) get in \<open>auto simp: RateLimit_def cfg Let_def redis_incr_def k_def n_def ws\<close>)
  qed
  have "counts cfg (r(k \<mapsto> (n, e))) (bump N (rq_tenant q) ws)"
    unfolding counts_def
  proof (intro allI impI)
    fix t ws' assume d: "second dvd ws'"
    show "case (r(k \<mapsto> (n, e))) (rl_key t ws') of None \<Rightarrow> bump N (rq_tenant q) ws t ws' = 0
      | Some (m, e) \<Rightarrow> m = int (bump N (rq_tenant q) ws t ws') \<and> (\<forall>x. e = Some x \<longrightarrow> ws' + rl_Window cfg \<le> x)"
    proof (cases "rl_key t ws' = k")
      case True
      then have "t = rq_tenant q \<and> ws' = ws" using rl_key_inj[of t ws' "rq_tenant q" ws] Unix_inj[OF d] w by (auto simp: k_def)
      with True e show ?thesis by (simp add: bump_def n_def)
    next
      case False
      then have "\<not> (t = rq_tenant q \<and> ws' = ws)" by (auto simp: k_def)
      then have b: "bump N (rq_tenant q) ws t ws' = N t ws'" by (auto simp: bump_def)
      from assms(2) d have "case r (rl_key t ws') of None \<Rightarrow> N t ws' = 0
        | Some (m, e) \<Rightarrow> m = int (N t ws') \<and> (\<forall>x. e = Some x \<longrightarrow> ws' + rl_Window cfg \<le> x)" by (simp add: counts_def)
      with False show ?thesis unfolding b by simp
    qed
  qed
  moreover have "served (fst (RateLimit True cfg q r)) = (n \<le> rl_Requests cfg)"
    using assms(3,4) get by (auto simp: RateLimit_def cfg Let_def redis_incr_def k_def n_def ws served_def split_beta)
  ultimately show ?thesis by (auto simp: res n_def)
qed

lemma RateLimit_pass: "rq_tenant q = [] \<or> rq_incr_err q \<Longrightarrow> served (fst (RateLimit True cfg q r)) \<and> snd (RateLimit True cfg q r) = r"
  by (auto simp: RateLimit_def Let_def served_def)

text \<open>The requests of a tenant's window: served, failed at the counter, counted.\<close>

definition served_in :: "RateLimitConfig \<Rightarrow> string \<Rightarrow> int \<Rightarrow> rl_request list \<Rightarrow> rl_verdict list \<Rightarrow> nat" where
  "served_in cfg t ws qs vs = length (filter (\<lambda>(q, v). in_window cfg t ws q \<and> served v) (zip qs vs))"

definition failed_in :: "RateLimitConfig \<Rightarrow> string \<Rightarrow> int \<Rightarrow> rl_request list \<Rightarrow> nat" where
  "failed_in cfg t ws qs = length (filter (\<lambda>q. in_window cfg t ws q \<and> rq_incr_err q) qs)"

definition counted_in :: "RateLimitConfig \<Rightarrow> string \<Rightarrow> int \<Rightarrow> rl_request list \<Rightarrow> nat" where
  "counted_in cfg t ws qs = length (filter (\<lambda>q. in_window cfg t ws q \<and> \<not> rq_incr_err q) qs)"

lemma rl_run_Cons: "fst (rl_run b cfg (q # qs) r) = fst (RateLimit b cfg q r) # fst (rl_run b cfg qs (snd (RateLimit b cfg q r)))"
  by (simp add: Let_def split_beta)

lemma rl_run_served:
  assumes "whole_window cfg" and "t \<noteq> []" and "counts cfg r N"
  shows "served_in cfg t ws qs (fst (rl_run True cfg qs r)) + min (nat (rl_Requests cfg)) (N t ws) =
    failed_in cfg t ws qs + min (nat (rl_Requests cfg)) (N t ws + counted_in cfg t ws qs)"
  using assms(3)
proof (induction qs arbitrary: r N)
  case Nil
  then show ?case by (simp add: served_in_def failed_in_def counted_in_def)
next
  case (Cons q qs)
  define r' where "r' = snd (RateLimit True cfg q r)"
  define b where "b = served (fst (RateLimit True cfg q r))"
  define ws0 where "ws0 = Truncate (rq_now q) (rl_Window cfg)"
  have split: "served_in cfg t ws (q # qs) (fst (rl_run True cfg (q # qs) r)) =
     (if in_window cfg t ws q \<and> b then 1 else 0) + served_in cfg t ws qs (fst (rl_run True cfg qs r'))"
    unfolding rl_run_Cons by (simp add: served_in_def b_def r'_def)
  show ?case
  proof (cases "rq_tenant q = [] \<or> rq_incr_err q")
    case True
    then have "b" "r' = r" using RateLimit_pass[of q cfg r] by (simp_all add: b_def r'_def)
    moreover have "in_window cfg t ws q \<longrightarrow> rq_incr_err q" using True assms(2) by (auto simp: in_window_def)
    ultimately show ?thesis unfolding split using Cons.IH[OF Cons.prems] by (auto simp: failed_in_def counted_in_def)
  next
    case False
    then have hit: "b = (int (N (rq_tenant q) ws0) < rl_Requests cfg)" "counts cfg r' (bump N (rq_tenant q) ws0)"
      using RateLimit_hit[OF assms(1) Cons.prems, of q ws0] by (simp_all add: b_def r'_def ws0_def)
    have N: "bump N (rq_tenant q) ws0 t ws = N t ws + (if in_window cfg t ws q then 1 else 0)"
      by (auto simp: bump_def in_window_def ws0_def)
    have b: "in_window cfg t ws q \<Longrightarrow> b = (N t ws < nat (rl_Requests cfg))"
      using hit(1) by (auto simp: in_window_def ws0_def)
    show ?thesis unfolding split using Cons.IH[OF hit(2)] False b
      by (cases "in_window cfg t ws q") (auto simp: N failed_in_def counted_in_def)
  qed
qed


definition burst :: "rl_request list" where
  "burst = replicate 3 \<lparr>rq_tenant = ''acme'', rq_now = 61 * second, rq_later = 61 * second, rq_incr_err = False, rq_expire_err = False\<rparr>"


end
