(* ===== verification/Ai_Gateway.thy ===== *)
theory Ai_Gateway
  imports Loki
begin

text \<open>
  The governed language-model gateway (\<open>domains/aigateway/aigateway.go\<close>, \<open>thread.go\<close>): masking of a
  prompt, the opt-in gate, the audit entry and the assembly of a conversation. The model behind the
  interface \<open>LLM\<close> is an argument; \<open>Govern\<close> also returns the prompts it was called with. Each
  regular expression is a matcher that gives the length of the match at the start of a text, with the
  class of the byte before it for \<open>\b\<close>; \<open>ReplaceAllString\<close> is one scan over it.
\<close>

section \<open>Patterns\<close>

definition word_byte :: "char \<Rightarrow> bool" where
  "word_byte c \<longleftrightarrow> between CHR ''a'' CHR ''z'' c \<or> between CHR ''A'' CHR ''Z'' c \<or> isDigit c \<or> c = CHR ''_''"

definition alnum :: "char \<Rightarrow> bool" where
  "alnum c \<longleftrightarrow> between CHR ''a'' CHR ''z'' c \<or> between CHR ''A'' CHR ''Z'' c \<or> isDigit c"

definition alpha :: "char \<Rightarrow> bool" where
  "alpha c \<longleftrightarrow> between CHR ''a'' CHR ''z'' c \<or> between CHR ''A'' CHR ''Z'' c"

text \<open>\<open>\b\<close> behind a word byte: the text ends or goes on with another byte.\<close>

definition at_end :: "string \<Rightarrow> bool" where
  "at_end s = (case s of [] \<Rightarrow> True | c # _ \<Rightarrow> \<not> word_byte c)"

type_synonym matcher = "bool \<Rightarrow> string \<Rightarrow> nat option"

definition bearer_char :: "char \<Rightarrow> bool" where
  "bearer_char c \<longleftrightarrow> alnum c \<or> c \<in> set ''._~+/=-''"

text \<open>
  Under \<open>(?i)\<close> the classes \<open>A-Z\<close> and \<open>a-z\<close> also fold to the long s (U+017F) and the Kelvin sign (U+212A),
  two and three bytes of UTF-8; the letters of \<open>bearer\<close> itself have no such fold.
\<close>

function bearer_token :: "string \<Rightarrow> nat" where
  "bearer_token s =
     (case s of [] \<Rightarrow> 0
      | c # cs \<Rightarrow>
          if bearer_char c then 1 + bearer_token cs
          else if HasPrefix s [CHR 0xC5, CHR 0xBF] then 2 + bearer_token (drop 2 s)
          else if HasPrefix s [CHR 0xE2, CHR 0x84, CHR 0xAA] then 3 + bearer_token (drop 3 s)
          else 0)"
  by pat_completeness auto
termination
  by (relation "measure length") auto

declare bearer_token.simps [simp del]

definition reBearer :: matcher where
  "reBearer w s =
     (let r = drop 6 s; sp = takeWhile re_space r; tok = bearer_token (dropWhile re_space r) in
      if EqualFold (take 6 s) ''bearer'' \<and> sp \<noteq> [] \<and> tok \<noteq> 0 then Some (6 + length sp + tok) else None)"

definition jwt_char :: "char \<Rightarrow> bool" where
  "jwt_char c \<longleftrightarrow> alnum c \<or> c = CHR ''_'' \<or> c = CHR ''-''"

definition reJWT :: matcher where
  "reJWT w s =
     (let a = takeWhile jwt_char (drop 3 s); r = dropWhile jwt_char (drop 3 s);
          b = takeWhile jwt_char (drop 1 r); r' = dropWhile jwt_char (drop 1 r);
          c = takeWhile jwt_char (drop 1 r')
      in if HasPrefix s ''eyJ'' \<and> a \<noteq> [] \<and> HasPrefix r ''.'' \<and> b \<noteq> [] \<and> HasPrefix r' ''.'' \<and> c \<noteq> []
         then Some (3 + length a + 1 + length b + 1 + length c) else None)"

definition local_char :: "char \<Rightarrow> bool" where
  "local_char c \<longleftrightarrow> alnum c \<or> c \<in> set ''._%+-''"

definition domain_char :: "char \<Rightarrow> bool" where
  "domain_char c \<longleftrightarrow> alnum c \<or> c = CHR ''.'' \<or> c = CHR ''-''"

text \<open>
  The end of \<open>[A-Za-z0-9.-]+\.[A-Za-z]{2,}\<close> in a run of domain characters: the greedy class gives back
  characters from the right, so the last dot with something before it and two letters behind it counts.
\<close>

fun domain_end :: "nat \<Rightarrow> string \<Rightarrow> nat option" where
  "domain_end 0 d = None"
| "domain_end (Suc k) d =
     (if HasPrefix (drop (Suc k) d) ''.'' \<and> 2 \<le> length (takeWhile alpha (drop (Suc (Suc k)) d))
      then Some (Suc (Suc k) + length (takeWhile alpha (drop (Suc (Suc k)) d)))
      else domain_end k d)"

definition reEmail :: matcher where
  "reEmail w s =
     (let l = takeWhile local_char s; r = dropWhile local_char s; d = takeWhile domain_char (drop 1 r) in
      if l \<noteq> [] \<and> HasPrefix r ''@'' then map_option (\<lambda>n. length l + 1 + n) (domain_end (length d) d) else None)"

definition octet :: "string \<Rightarrow> bool" where
  "octet d \<longleftrightarrow> d \<noteq> [] \<and> length d \<le> 3"

definition reIPv4 :: matcher where
  "reIPv4 w s =
     (let a = takeWhile isDigit s; r = dropWhile isDigit s;
          b = takeWhile isDigit (drop 1 r); r2 = dropWhile isDigit (drop 1 r);
          c = takeWhile isDigit (drop 1 r2); r3 = dropWhile isDigit (drop 1 r2);
          d = takeWhile isDigit (drop 1 r3); r4 = dropWhile isDigit (drop 1 r3)
      in if \<not> w \<and> octet a \<and> HasPrefix r ''.'' \<and> octet b \<and> HasPrefix r2 ''.'' \<and> octet c \<and> HasPrefix r3 ''.'' \<and> octet d \<and> at_end r4
         then Some (length a + 1 + length b + 1 + length c + 1 + length d) else None)"

definition reDigits :: matcher where
  "reDigits w s =
     (let d = takeWhile isDigit s in if \<not> w \<and> 7 \<le> length d \<and> at_end (dropWhile isDigit s) then Some (length d) else None)"

text \<open>\<open>ReplaceAllString\<close>: the matches are never empty.\<close>

function replace_all :: "matcher \<Rightarrow> string \<Rightarrow> bool \<Rightarrow> string \<Rightarrow> string" where
  "replace_all m rep w [] = []"
| "replace_all m rep w (c # cs) =
     (case m w (c # cs) of
        Some n \<Rightarrow> rep @ replace_all m rep (word_byte ((c # cs) ! (min n (length (c # cs)) - 1))) (drop (n - 1) cs)
      | None \<Rightarrow> c # replace_all m rep (word_byte c) cs)"
  by pat_completeness auto
termination
  by (relation "measure (\<lambda>(m, rep, w, s). length s)") auto

definition MaskPII :: "string \<Rightarrow> string" where
  "MaskPII s =
     (let s = replace_all reBearer ''Bearer [REDACTED]'' False s;
          s = replace_all reJWT ''[JWT]'' False s;
          s = replace_all reEmail ''[EMAIL]'' False s;
          s = replace_all reIPv4 ''[IP]'' False s
      in replace_all reDigits ''[NUM]'' False s)"

section \<open>Governance\<close>

record LlmResult =
  lr_LogQLPP :: string
  lr_Explanation :: string

record AuditEntry =
  ae_TenantID :: string
  ae_Feature :: string
  ae_PromptMasked :: string
  ae_ResponseSummary :: string
  ae_Model :: string

record AiRequest =
  aq_TenantID :: string
  aq_Enabled :: bool
  aq_Feature :: string
  aq_Question :: string
  aq_Context :: string
  aq_Model :: string

definition zero_AuditEntry :: AuditEntry where
  "zero_AuditEntry = \<lparr>ae_TenantID = [], ae_Feature = [], ae_PromptMasked = [], ae_ResponseSummary = [], ae_Model = []\<rparr>"

text \<open>The cut is by bytes; the ellipsis is its three UTF-8 bytes.\<close>

definition truncate_text :: "string \<Rightarrow> nat \<Rightarrow> string" where
  "truncate_text s n = (if length s \<le> n then s else take n s @ [CHR 0xE2, CHR 0x80, CHR 0xA6])"

definition summarize :: "LlmResult \<Rightarrow> string" where
  "summarize r = (let s = TrimSpace (lr_LogQLPP r); s = (if s = [] then TrimSpace (lr_Explanation r) else s) in truncate_text s 240)"

definition masked_prompt :: "AiRequest \<Rightarrow> string" where
  "masked_prompt req =
     (let masked = MaskPII (TrimSpace (aq_Question req)) in
      if TrimSpace (aq_Context req) \<noteq> [] then masked @ [CHR 0x0A, CHR 0x0A] @ ''context: '' @ MaskPII (aq_Context req) else masked)"

text \<open>The result with its error, the audit entry, and the prompts the model was called with.\<close>

definition Govern :: "AiRequest \<Rightarrow> (string \<Rightarrow> (goerror, LlmResult) outcome) \<Rightarrow> (goerror, LlmResult) outcome \<times> AuditEntry \<times> string list" where
  "Govern req llm =
     (if \<not> aq_Enabled req then (Err (Sentinel ''ErrNotEnabled''), zero_AuditEntry, [])
      else let masked = masked_prompt req;
               entry = \<lparr>ae_TenantID = aq_TenantID req, ae_Feature = aq_Feature req, ae_PromptMasked = masked, ae_ResponseSummary = [], ae_Model = aq_Model req\<rparr>
           in case llm masked of
                Ok res \<Rightarrow> (Ok res, entry\<lparr>ae_ResponseSummary := summarize res\<rparr>, [masked])
              | r \<Rightarrow> (r, entry, [masked]))"

section \<open>Conversations\<close>

record Turn =
  tu_Role :: string
  tu_Content :: string
  tu_LogQLPP :: string

definition DefaultHistoryTurns :: int where "DefaultHistoryTurns = 10"

definition turn_line :: "Turn \<Rightarrow> string" where
  "turn_line t =
     (if tu_Role t = ''assistant'' then
        (let line = TrimSpace (tu_LogQLPP t); line = (if line = [] then TrimSpace (tu_Content t) else line) in ''Assistant: '' @ line @ [CHR 0x0A])
      else ''User: '' @ TrimSpace (tu_Content t) @ [CHR 0x0A])"

definition BuildThreadPrompt :: "Turn list \<Rightarrow> string \<Rightarrow> int \<Rightarrow> string" where
  "BuildThreadPrompt history0 question maxTurns0 =
     (let maxTurns = (if maxTurns0 \<le> 0 then DefaultHistoryTurns else maxTurns0);
          history = (if int (length history0) > maxTurns then drop (length history0 - nat maxTurns) history0 else history0);
          q = TrimSpace question
      in if history = [] then q
         else ''This is a multi-turn conversation. Prior turns:'' @ [CHR 0x0A] @ concat (map turn_line history) @
              [CHR 0x0A] @ ''Build on the conversation above. New question:'' @ [CHR 0x0A] @ ''User: '' @ q)"

section \<open>No standalone digit run survives\<close>

fun clean :: "bool \<Rightarrow> string \<Rightarrow> bool" where
  "clean w [] = True"
| "clean w (c # cs) = (reDigits w (c # cs) = None \<and> clean (word_byte c) cs)"

lemma digit_word: "isDigit c \<Longrightarrow> word_byte c"
  by (simp add: word_byte_def)

lemma reDigits_word [simp]: "reDigits True s = None"
  by (simp add: reDigits_def Let_def)

lemma reDigits_other [simp]: "\<not> isDigit c \<Longrightarrow> reDigits w (c # cs) = None"
  by (simp add: reDigits_def Let_def)

lemma reDigits_Some: "reDigits w s = Some n \<longleftrightarrow> \<not> w \<and> 7 \<le> n \<and> n = length (takeWhile isDigit s) \<and> at_end (dropWhile isDigit s)"
  by (auto simp: reDigits_def Let_def)

lemma replace_in_word: "takeWhile isDigit (replace_all reDigits rep True s) = takeWhile isDigit s \<and>
    at_end (dropWhile isDigit (replace_all reDigits rep True s)) = at_end (dropWhile isDigit s)"
proof (induction s)
  case (Cons c cs)
  then show ?case by (cases "isDigit c") (simp_all add: digit_word at_end_def)
qed simp

lemma clean_at_end: "at_end s \<Longrightarrow> clean w (replace_all reDigits rep True s) = clean v (replace_all reDigits rep True s)"
proof (cases s)
  case (Cons c cs)
  moreover assume "at_end s"
  ultimately have "\<not> isDigit c" by (auto simp: at_end_def digit_word)
  with Cons show ?thesis by simp
qed simp

lemma clean_NUM: "clean w (''[NUM]'' @ s) = clean False s"
  by (simp add: isDigit_def between_def word_byte_def)

lemma replace_digits:
  assumes "reDigits w (c # cs) = Some n"
  shows "word_byte ((c # cs) ! (min n (length (c # cs)) - 1))" (is ?last)
    and "drop (n - 1) cs = dropWhile isDigit (c # cs)" (is ?rest)
proof -
  define s where "s = c # cs"
  define d where "d = takeWhile isDigit s"
  have n: "n = length d" "7 \<le> n" using assms by (auto simp: reDigits_Some d_def s_def)
  have le: "n \<le> length s" unfolding n(1) d_def by (rule length_takeWhile_le)
  have i: "n - 1 < length d" using n by simp
  then have "s ! (n - 1) = d ! (n - 1)" unfolding d_def by (rule takeWhile_nth[symmetric])
  moreover have "isDigit (d ! (n - 1))" using nth_mem[OF i] set_takeWhileD[of _ isDigit s] unfolding d_def by blast
  ultimately show ?last using le digit_word unfolding s_def[symmetric] by (simp add: min_absorb1)
  have "dropWhile isDigit s = drop n s" unfolding n(1) d_def by (rule dropWhile_eq_drop)
  moreover obtain k where "n = Suc k" using n(2) by (cases n) simp_all
  ultimately show ?rest unfolding s_def by (simp only: diff_Suc_1 drop_Suc_Cons)
qed

lemma clean_replace: "clean w (replace_all reDigits ''[NUM]'' w s)"
proof (induction reDigits "''[NUM]''" w s rule: replace_all.induct)
  case (2 w c cs)
  show ?case
  proof (cases "reDigits w (c # cs)")
    case None
    have "reDigits w (c # replace_all reDigits ''[NUM]'' (word_byte c) cs) = None"
    proof (cases "isDigit c")
      case True
      then show ?thesis using None replace_in_word[of "''[NUM]''" cs] by (simp add: reDigits_def Let_def digit_word split: if_splits)
    qed simp
    with None 2(1)[OF None] show ?thesis by simp
  next
    case (Some n)
    let ?out = "replace_all reDigits ''[NUM]'' True (dropWhile isDigit (c # cs))"
    have out: "replace_all reDigits ''[NUM]'' w (c # cs) = ''[NUM]'' @ ?out"
      using replace_digits[OF Some] by (simp only: replace_all.simps Some option.case)
    have "clean True ?out" using 2(2)[OF Some] by (simp only: replace_digits[OF Some])
    moreover have "at_end (dropWhile isDigit (c # cs))" using Some by (simp only: reDigits_Some)
    ultimately have "clean False ?out" using clean_at_end by blast
    then show ?thesis unfolding out clean_NUM .
  qed
qed simp

lemma MaskPII_clean: "clean False (MaskPII s)"
  unfolding MaskPII_def Let_def by (rule clean_replace)

lemma clean_app: "\<not> word_byte c \<Longrightarrow> clean w (a @ c # r) \<longleftrightarrow> clean w a \<and> clean False r"
proof (induction a arbitrary: w)
  case Nil
  then have "\<not> isDigit c" using digit_word by blast
  with Nil show ?case by simp
next
  case (Cons x a)
  have nd: "\<not> isDigit c" using Cons.prems digit_word by blast
  have ends: "at_end (z @ c # r) = at_end z" for z using Cons.prems by (cases z) (simp_all add: at_end_def)
  have "takeWhile isDigit (z @ c # r) = takeWhile isDigit z" for z using nd by (induction z) auto
  moreover have "dropWhile isDigit (z @ c # r) = dropWhile isDigit z @ c # r" for z using nd by (induction z) auto
  ultimately have "reDigits w ((x # a) @ c # r) = reDigits w (x # a)" by (simp only: reDigits_def Let_def ends)
  with Cons show ?case by simp
qed

lemma clean_suffix: "clean w (u @ s) \<Longrightarrow> clean (if u = [] then w else word_byte (last u)) s"
  by (induction u arbitrary: w) (auto split: if_splits)

lemma clean_excludes:
  assumes "clean False (u @ d @ v)" "\<forall>c \<in> set d. isDigit c" "7 \<le> length d"
  shows "(u \<noteq> [] \<and> word_byte (last u)) \<or> \<not> at_end v"
proof (rule ccontr)
  assume neg: "\<not> ?thesis"
  then have "clean False (d @ v)" using clean_suffix[OF assms(1)] by (auto split: if_splits)
  moreover have v: "at_end v" using neg by simp
  have "takeWhile isDigit v = []" "dropWhile isDigit v = v"
    using v digit_word by (cases v; force simp: at_end_def)+
  then have "takeWhile isDigit (d @ v) = d" "dropWhile isDigit (d @ v) = v" using assms(2) by simp_all
  then have "reDigits False (d @ v) = Some (length d)" using assms(3) v by (simp add: reDigits_Some)
  ultimately show False using assms(3) by (cases "d @ v") auto
qed

lemma masked_prompt_clean: "clean False (masked_prompt req)"
proof -
  have nw: "\<not> word_byte (CHR 0x0A)" "\<not> word_byte (CHR '' '')" by code_simp+
  have "clean False ((a @ CHR 0x0A # CHR 0x0A # ''context:'') @ CHR '' '' # b)" if "clean False a" "clean False b" for a b
  proof -
    have "clean False ''context:''" by code_simp
    then show ?thesis using that by (simp only: clean_app[OF nw(2)] clean_app[OF nw(1)] clean_app[OF nw(1), of False "[]", unfolded append_Nil] clean.simps(1) simp_thms)
  qed
  from this[OF MaskPII_clean MaskPII_clean] show ?thesis by (simp add: masked_prompt_def Let_def MaskPII_clean)
qed

text \<open>
  The language model is called at most once and only for a tenant that has opted in; the prompt it
  gets is the one the audit entry records, whatever the model answers, and in that prompt no run of
  seven or more digits stands alone (between the ends of the text or bytes that are no word bytes).
  For any other tenant the call is refused, nothing is sent and nothing recorded.
\<close>

theorem Govern_governed:
  assumes "Govern req llm = (r, e, calls)"
  shows "(if aq_Enabled req then calls = [ae_PromptMasked e] \<and> r = llm (ae_PromptMasked e) \<and> ae_TenantID e = aq_TenantID req
          else calls = [] \<and> r = Err (Sentinel ''ErrNotEnabled'') \<and> e = zero_AuditEntry) \<and>
         (\<forall>p \<in> set calls. \<forall>u d v. p = u @ d @ v \<and> (\<forall>c \<in> set d. isDigit c) \<and> 7 \<le> length d \<longrightarrow>
            (u \<noteq> [] \<and> word_byte (last u)) \<or> (v \<noteq> [] \<and> word_byte (hd v)))"
proof
  have on: "aq_Enabled req \<Longrightarrow> calls = [masked_prompt req] \<and> ae_PromptMasked e = masked_prompt req \<and> r = llm (masked_prompt req) \<and>
      ae_TenantID e = aq_TenantID req"
    using assms by (auto simp: Govern_def Let_def split: outcome.splits)
  have off: "\<not> aq_Enabled req \<Longrightarrow> calls = [] \<and> r = Err (Sentinel ''ErrNotEnabled'') \<and> e = zero_AuditEntry"
    using assms by (auto simp: Govern_def)
  show "if aq_Enabled req then calls = [ae_PromptMasked e] \<and> r = llm (ae_PromptMasked e) \<and> ae_TenantID e = aq_TenantID req
        else calls = [] \<and> r = Err (Sentinel ''ErrNotEnabled'') \<and> e = zero_AuditEntry"
    using on off by simp
  have clean: "clean False p" if "p \<in> set calls" for p
    using that on off masked_prompt_clean[of req] by (cases "aq_Enabled req") auto
  show "\<forall>p \<in> set calls. \<forall>u d v. p = u @ d @ v \<and> (\<forall>c \<in> set d. isDigit c) \<and> 7 \<le> length d \<longrightarrow>
      (u \<noteq> [] \<and> word_byte (last u)) \<or> (v \<noteq> [] \<and> word_byte (hd v))"
  proof (intro ballI allI impI)
    fix p u d v assume "p \<in> set calls" "p = u @ d @ v \<and> (\<forall>c \<in> set d. isDigit c) \<and> 7 \<le> length d"
    then have "(u \<noteq> [] \<and> word_byte (last u)) \<or> \<not> at_end v" using clean[of p] clean_excludes[of u d v] by blast
    then show "(u \<noteq> [] \<and> word_byte (last u)) \<or> (v \<noteq> [] \<and> word_byte (hd v))" by (cases v) (simp_all add: at_end_def)
  qed
qed

definition sample_request :: AiRequest where
  "sample_request = \<lparr>aq_TenantID = ''t1'', aq_Enabled = True, aq_Feature = ''copilot'', aq_Question = ''errors for 5551234567'', aq_Context = [], aq_Model = ''m''\<rparr>"

definition sample_llm :: "string \<Rightarrow> (goerror, LlmResult) outcome" where
  "sample_llm p = Ok \<lparr>lr_LogQLPP = ''level = ERROR'', lr_Explanation = []\<rparr>"

theorem Govern_governed_witness:
  "snd (snd (Govern sample_request sample_llm)) = [''errors for [NUM]''] \<and>
   ae_PromptMasked (fst (snd (Govern sample_request sample_llm))) = ''errors for [NUM]''"
proof -
  obtain r e calls where g: "Govern sample_request sample_llm = (r, e, calls)" by (metis prod_cases3)
  have "aq_Enabled sample_request" by (simp add: sample_request_def)
  then have "calls = [ae_PromptMasked e]" using Govern_governed[OF g] by simp
  moreover have "snd (snd (Govern sample_request sample_llm)) = [''errors for [NUM]'']" by code_simp
  ultimately show ?thesis using g by simp
qed

text \<open>
  A run of digits that touches a letter or an underscore is sent and recorded as it is: the \<open>\b\<close> on both
  sides of \<open>reDigits\<close> finds no boundary there, so an account number behind \<open>acct_\<close> is not masked.
\<close>

theorem MaskPII_glued_digits: "MaskPII ''acct_4111111111111111'' = ''acct_4111111111111111''"
  by code_simp

section \<open>Bounds\<close>

lemma truncate_length: "length (truncate_text s n) \<le> n + 3"
  by (simp add: truncate_text_def)

text \<open>
  A follow-up carries only the last \<open>maxTurns\<close> turns: older ones make no difference to the prompt, and
  with no history the prompt is the question of the single-shot path.
\<close>

theorem BuildThreadPrompt_window:
  "BuildThreadPrompt history q n = BuildThreadPrompt (drop (length history - nat (if n \<le> 0 then DefaultHistoryTurns else n)) history) q n \<and>
   BuildThreadPrompt [] q n = TrimSpace q"
proof
  define m where "m = nat (if n \<le> 0 then DefaultHistoryTurns else n)"
  have m: "(if n \<le> 0 then DefaultHistoryTurns else n) = int m" by (simp add: m_def DefaultHistoryTurns_def)
  show "BuildThreadPrompt history q n = BuildThreadPrompt (drop (length history - nat (if n \<le> 0 then DefaultHistoryTurns else n)) history) q n"
    unfolding BuildThreadPrompt_def m Let_def by (cases "length history > m") simp_all
qed (simp add: BuildThreadPrompt_def)

end
