(* ===== verification/Go_Time.thy ===== *)
theory Go_Time
  imports Go_Rows
begin

text \<open>
  Instants and durations of Go's \<open>time\<close> package in nanoseconds, \<open>math.Round\<close> with the helpers built
  on it, and \<open>%.nf\<close>. An instant is an integer since the Unix epoch; a duration is an \<open>int64\<close>.
\<close>

section \<open>Durations\<close>

definition int64_min :: int where "int64_min = - (2 ^ 63)"

text \<open>\<open>t.Sub(u)\<close> saturates.\<close>

definition time_Sub :: "int \<Rightarrow> int \<Rightarrow> int" where
  "time_Sub t u = max int64_min (min int64_max (t - u))"

text \<open>\<open>d / unit\<close> and \<open>d % unit\<close> round toward zero.\<close>

definition quot0 :: "int \<Rightarrow> int \<Rightarrow> int" where
  "quot0 d u = (if 0 \<le> d then d div u else - ((- d) div u))"

definition duration_in :: "int \<Rightarrow> int \<Rightarrow> f64" where
  "duration_in u d = fadd (of_int64 (quot0 d u)) (fdiv (of_int64 (d - quot0 d u * u)) (of_int64 u))"

definition Seconds :: "int \<Rightarrow> f64" where "Seconds = duration_in (10 ^ 9)"
definition Minutes :: "int \<Rightarrow> f64" where "Minutes = duration_in (60 * 10 ^ 9)"
definition Hours :: "int \<Rightarrow> f64" where "Hours = duration_in (3600 * 10 ^ 9)"

section \<open>Rounding\<close>

text \<open>Half away from zero; the result of a finite argument is exact.\<close>

definition round_away :: "rat \<Rightarrow> int" where
  "round_away q = (if 0 \<le> q then \<lfloor>q + 1 / 2\<rfloor> else - \<lfloor>- q + 1 / 2\<rfloor>)"

definition math_Round :: "f64 \<Rightarrow> f64" where
  "math_Round x = (case x of Fin q \<Rightarrow> (if round_away q = 0 then Zero (q < 0) else Fin (of_int (round_away q))) | _ \<Rightarrow> x)"

definition round_to :: "int \<Rightarrow> f64 \<Rightarrow> f64" where
  "round_to m x = fdiv (math_Round (fmul x (of_int64 m))) (of_int64 m)"

lemma round_away_mono: "p \<le> q \<Longrightarrow> round_away p \<le> round_away q"
proof -
  assume le: "p \<le> q"
  have "\<lfloor>p + 1 / 2\<rfloor> \<le> \<lfloor>q + 1 / 2\<rfloor>" "\<lfloor>- q + 1 / 2\<rfloor> \<le> \<lfloor>- p + 1 / 2\<rfloor>" using le by (intro floor_mono; simp)+
  moreover have "0 \<le> \<lfloor>q + 1 / 2\<rfloor>" if "0 \<le> q" unfolding zero_le_floor using that by simp
  moreover have "0 \<le> \<lfloor>- p + 1 / 2\<rfloor>" if "p < 0" unfolding zero_le_floor using that by simp
  ultimately show ?thesis using le unfolding round_away_def by (cases "0 \<le> p"; cases "0 \<le> q") (simp_all only: if_True if_False, linarith+)
qed

lemma round_away_int [simp]: "round_away (of_int k) = k"
proof -
  have "\<lfloor>(of_int k :: rat) + 1 / 2\<rfloor> = k" "\<lfloor>(of_int (- k) :: rat) + 1 / 2\<rfloor> = - k" by (simp_all add: floor_eq_iff)
  then show ?thesis by (auto simp: round_away_def)
qed

lemma round_away_0 [simp]: "round_away 0 = 0"
  using round_away_int[of 0] by simp

lemma math_Round_val: "is_finite x \<Longrightarrow> is_finite (math_Round x) \<and> f_val (math_Round x) = of_int (round_away (f_val x))"
  by (cases x) (auto simp: math_Round_def is_finite_def f_val_def)

section \<open>Fixed-point output\<close>

definition pad0 :: "nat \<Rightarrow> string \<Rightarrow> string" where
  "pad0 k s = replicate (k - length s) (CHR ''0'') @ s"

definition show_fixed :: "nat \<Rightarrow> f64 \<Rightarrow> string" where
  "show_fixed k x =
     (case x of NaN \<Rightarrow> ''NaN'' | Inf s \<Rightarrow> (if s then ''-Inf'' else ''+Inf'')
      | _ \<Rightarrow> let n = rhe (\<bar>f_val x\<bar> * 10 ^ k) in
          (if f_neg x then ''-'' else []) @ show_int (n div 10 ^ k) @ (if k = 0 then [] else ''.'' @ pad0 k (show_int (n mod 10 ^ k))))"

section \<open>Bounds\<close>

text \<open>Rounding to \<open>m\<close> parts keeps a finite value between bounds that are multiples of \<open>1/m\<close>.\<close>

lemma fmul_between:
  assumes "is_finite x" "is_finite y" "a \<le> f_val x * f_val y" "f_val x * f_val y \<le> b"
  shows "fbetween (round64 a) (round64 b) (fmul x y)"
  by (rule eqv_between[OF fmul_eqv[OF assms(1,2)] assms(3,4)])

lemma fdiv_between:
  assumes "is_finite x" "is_finite y" "f_val y \<noteq> 0" "a \<le> f_val x / f_val y" "f_val x / f_val y \<le> b"
  shows "fbetween (round64 a) (round64 b) (fdiv x y)"
  by (rule eqv_between[OF fdiv_eqv[OF assms(1,2,3)] assms(4,5)])

lemma fin_of_int64: "of_int64 m = Fin (of_int m) \<Longrightarrow> is_finite (of_int64 m) \<and> f_val (of_int64 m) = of_int m"
  by (simp add: is_finite_def f_val_def)

lemma between_0: "fbetween (round64 0) (Fin b) x \<Longrightarrow> is_finite x \<and> 0 \<le> f_val x \<and> f_val x \<le> b"
  using fbetween_fin[of "round64 0" "Fin b" x] by (simp add: round64_def is_finite_def f_val_def)

lemma round_to_unit:
  assumes m: "of_int64 m = Fin (of_int m)" "0 < m" and x: "is_finite x" "0 \<le> f_val x" "f_val x \<le> 1"
  shows "is_finite (round_to m x) \<and> 0 \<le> f_val (round_to m x) \<and> f_val (round_to m x) \<le> 1"
proof -
  have fm: "is_finite (of_int64 m)" "f_val (of_int64 m) = of_int m" using fin_of_int64[OF m(1)] by simp_all
  have rm: "round64 (of_int m) = Fin (of_int m)" using m(1) by (simp only: of_int64_def)
  have r1: "round64 1 = Fin 1" using lit_1 by (simp only: lit_def)
  have lo: "0 \<le> f_val x * f_val (of_int64 m)" and hi: "f_val x * f_val (of_int64 m) \<le> of_int m"
    using x(2,3) m(2) by (simp_all add: fm mult_left_le_one_le)
  define y where "y = fmul x (of_int64 m)"
  have y: "is_finite y" "0 \<le> f_val y" "f_val y \<le> of_int m"
    using between_0[OF fmul_between[OF x(1) fm(1) lo hi, unfolded rm]] by (simp_all add: y_def)
  define z where "z = math_Round y"
  have z: "is_finite z" "f_val z = of_int (round_away (f_val y))" using math_Round_val[OF y(1)] by (simp_all add: z_def)
  have "0 \<le> round_away (f_val y)" "round_away (f_val y) \<le> m"
    using round_away_mono[OF y(2)] round_away_mono[OF y(3)] by simp_all
  then have "0 \<le> f_val z / f_val (of_int64 m)" "f_val z / f_val (of_int64 m) \<le> 1" and nz: "f_val (of_int64 m) \<noteq> 0"
    using m(2) by (simp_all add: z fm)
  from between_0[OF fdiv_between[OF z(1) fm(1) nz this(1,2), unfolded r1]] show ?thesis
    by (simp add: round_to_def y_def[symmetric] z_def[symmetric])
qed

text \<open>Integers below \<open>2^53\<close> are exact.\<close>

lemma round64_small_int:
  assumes "0 < n" "n < 2 ^ 53" shows "round64 (of_int n) = Fin (of_int n)"
proof -
  let ?q = "of_int n :: rat"
  have q: "0 < ?q" using assms by simp
  have "ilog2 ?q < 53"
  proof (rule ccontr)
    assume "\<not> ilog2 ?q < 53"
    then have "pow2 53 \<le> ?q" using ilog2_bounds(1)[OF q] pow2_le[of 53 "ilog2 ?q"] by linarith
    moreover have "(pow2 53 :: rat) = of_int (2 ^ 53)" by code_simp
    ultimately show False using assms(2) by (metis not_less of_int_less_iff)
  qed
  moreover have "0 \<le> ilog2 ?q"
  proof (rule ccontr)
    assume "\<not> 0 \<le> ilog2 ?q"
    then have "?q < pow2 0" using ilog2_bounds(2)[OF q] pow2_le[of "ilog2 ?q + 1" 0] by linarith
    moreover have "pow2 0 = (1 :: rat)" by code_simp
    ultimately show False using assms(1) by simp
  qed
  ultimately have u: "ulp ?q = pow2 (ilog2 ?q - 52)" "ilog2 ?q - 52 \<le> 0" by (simp_all add: ulp_def max_def)
  obtain k where k: "pow2 0 / pow2 (ilog2 ?q - 52) = (of_int k :: rat)" using pow2_multiple[OF u(2)] by blast
  have "pow2 0 = (1 :: rat)" by code_simp
  then have "1 / ulp ?q = of_int k" using k by (simp only: u(1))
  then have "?q / ulp ?q = of_int (n * k)" by (metis divide_inverse inverse_eq_divide of_int_mult)
  then have "rnd ?q = ?q" using ulp_pos[of ?q] by (simp only: rnd_def rhe_int) (metis nonzero_eq_divide_eq order_less_irrefl)
  moreover have "\<not> pow2 1024 \<le> ?q"
  proof -
    have "?q < of_int (2 ^ 53)" using assms(2) by (simp only: of_int_less_iff)
    moreover have "of_int (2 ^ 53) \<le> (pow2 1024 :: rat)" by code_simp
    ultimately show ?thesis by linarith
  qed
  ultimately show ?thesis using assms by (simp add: round64_def Let_def)
qed

section \<open>Monotonicity\<close>

lemma of_int64_small: "0 \<le> n \<Longrightarrow> n < 2 ^ 53 \<Longrightarrow> is_finite (of_int64 n) \<and> f_val (of_int64 n) = of_int n"
  using round64_small_int[of n] by (cases "n = 0") (simp_all add: of_int64_def is_finite_def f_val_def round64_def[of 0])

lemma round64_mono_val: "p \<le> q \<Longrightarrow> is_finite (round64 p) \<Longrightarrow> is_finite (round64 q) \<Longrightarrow> f_val (round64 p) \<le> f_val (round64 q)"
  using round64_mono[of p q] fle_fin by blast

lemma eqv_mono: "f_eqv x (round64 p) \<Longrightarrow> f_eqv y (round64 q) \<Longrightarrow> p \<le> q \<Longrightarrow> fle x y"
  unfolding f_eqv_def by (meson fle_trans round64_mono)

lemma fle_val: "fle x y \<Longrightarrow> is_finite x \<Longrightarrow> is_finite y \<Longrightarrow> f_val x \<le> f_val y"
  using fle_fin by blast

lemma unit_frac:
  assumes "0 < u" "u < 2 ^ 53" "0 \<le> r" "r < u"
  shows "is_finite (fdiv (of_int64 r) (of_int64 u)) \<and> 0 \<le> f_val (fdiv (of_int64 r) (of_int64 u)) \<and> f_val (fdiv (of_int64 r) (of_int64 u)) \<le> 1"
proof -
  have r: "is_finite (of_int64 r)" "f_val (of_int64 r) = of_int r" and u: "is_finite (of_int64 u)" "f_val (of_int64 u) = of_int u"
    using of_int64_small[of r] of_int64_small[of u] assms by simp_all
  have nz: "f_val (of_int64 u) \<noteq> 0" using assms(1) by (simp add: u)
  have "0 \<le> f_val (of_int64 r) / f_val (of_int64 u)" "f_val (of_int64 r) / f_val (of_int64 u) \<le> 1"
    using assms by (simp_all add: r u)
  from between_0[OF fdiv_between[OF r(1) u(1) nz this, unfolded lit_1[unfolded lit_def]]] show ?thesis .
qed

text \<open>A longer duration never has a smaller value, for units and counts of units below \<open>2^53\<close>.\<close>

lemma duration_mono:
  assumes u: "0 < u" "u < 2 ^ 53" and d: "0 \<le> a" "a \<le> b" "b div u < 2 ^ 53"
  shows "fle (duration_in u a) (duration_in u b)"
proof -
  define q r where "q d = d div u" and "r d = d mod u" for d
  define x where "x d = fdiv (of_int64 (r d)) (of_int64 u)" for d
  have ab: "0 \<le> b" "q a \<le> q b" "0 \<le> q a" using d u by (simp_all add: q_def zdiv_mono1 pos_imp_zdiv_nonneg_iff)
  have rd: "0 \<le> r d" "r d < u" for d using u by (simp_all add: r_def)
  have x: "is_finite (x d)" "0 \<le> f_val (x d)" "f_val (x d) \<le> 1" for d using unit_frac[OF u rd] by (simp_all add: x_def)
  have qf: "is_finite (of_int64 (q d))" "f_val (of_int64 (q d)) = of_int (q d)" if "d \<in> {a, b}" for d
    using of_int64_small[of "q d"] that ab d(3) by (auto simp: q_def)
  have in': "duration_in u d = fadd (of_int64 (q d)) (x d)" if "0 \<le> d" for d
    using that by (simp add: duration_in_def quot0_def q_def r_def x_def minus_div_mult_eq_mod)
  have eqv: "f_eqv (duration_in u d) (round64 (of_int (q d) + f_val (x d)))" if "d \<in> {a, b}" for d
    using fadd_eqv[OF qf(1)[OF that] x(1)[of d]] qf(2)[OF that] in'[of d] that d(1) ab(1) by auto
  have "of_int (q a) + f_val (x a) \<le> of_int (q b) + f_val (x b)"
  proof (cases "q a = q b")
    case True
    have "a = q a * u + r a" "b = q b * u + r b" by (simp_all add: q_def r_def)
    then have "r a \<le> r b" using d(2) True by (metis add_le_cancel_left)
    have s: "is_finite (of_int64 (r d))" "f_val (of_int64 (r d)) = of_int (r d)" and su: "is_finite (of_int64 u)" "f_val (of_int64 u) = of_int u" for d
      using of_int64_small[of "r d"] of_int64_small[of u] rd[of d] u by simp_all
    have nz: "f_val (of_int64 u) \<noteq> 0" using u(1) by (simp add: su)
    have "f_val (of_int64 (r a)) / f_val (of_int64 u) \<le> f_val (of_int64 (r b)) / f_val (of_int64 u)"
      using \<open>r a \<le> r b\<close> u(1) by (simp add: s su divide_right_mono)
    from eqv_mono[OF fdiv_eqv[OF s(1) su(1) nz] fdiv_eqv[OF s(1) su(1) nz] this] show ?thesis
      using True fle_val[of "x a" "x b"] x(1) by (simp add: x_def)
  next
    case False
    then have "q a + 1 \<le> q b" using ab by simp
    then have "of_int (q a) + 1 \<le> (of_int (q b) :: rat)" by (metis of_int_1 of_int_add of_int_le_iff)
    then show ?thesis using x(3)[of a] x(2)[of b] by linarith
  qed
  from eqv_mono[OF eqv[of a] eqv[of b] this] show ?thesis by simp
qed

lemma math_Round_mono:
  assumes "fle x y" shows "fle (math_Round x) (math_Round y)"
proof (cases "is_finite x \<and> is_finite y")
  case True
  have "f_val x \<le> f_val y" using assms True fle_fin by blast
  then have "round_away (f_val x) \<le> round_away (f_val y)" by (rule round_away_mono)
  then show ?thesis using math_Round_val[of x] math_Round_val[of y] True by (simp add: fle_fin)
next
  case False
  then show ?thesis using assms by (cases x; cases y) (auto simp: math_Round_def is_finite_def)
qed

lemma round64_nat: "0 \<le> n \<Longrightarrow> n < 2 ^ 53 \<Longrightarrow> is_finite (round64 (of_int n)) \<and> f_val (round64 (of_int n)) = of_int n"
  using of_int64_small[of n] by (simp only: of_int64_def)

lemma between_ints:
  assumes "fbetween (round64 0) (round64 (of_int n)) x" "0 \<le> n" "n < 2 ^ 53"
  shows "is_finite x \<and> 0 \<le> f_val x \<and> f_val x \<le> of_int n"
  using fbetween_fin[OF assms(1)] round64_nat[OF assms(2,3)] round64_nat[of 0] by simp

lemma duration_bound:
  assumes u: "0 < u" "u < 2 ^ 53" and d: "0 \<le> d" "d div u + 1 < 2 ^ 53"
  shows "is_finite (duration_in u d) \<and> 0 \<le> f_val (duration_in u d) \<and> f_val (duration_in u d) \<le> of_int (d div u + 1)"
proof -
  have r: "0 \<le> d mod u" "d mod u < u" "0 \<le> d div u" using u d by (simp_all add: pos_imp_zdiv_nonneg_iff)
  define x where "x = fdiv (of_int64 (d mod u)) (of_int64 u)"
  have x: "is_finite x" "0 \<le> f_val x" "f_val x \<le> 1" using unit_frac[OF u r(1,2)] by (simp_all add: x_def)
  have q: "is_finite (of_int64 (d div u))" "f_val (of_int64 (d div u)) = of_int (d div u)" using of_int64_small[of "d div u"] r(3) d(2) by simp_all
  have eq: "duration_in u d = fadd (of_int64 (d div u)) x" using d(1) by (simp add: duration_in_def quot0_def x_def minus_div_mult_eq_mod)
  have lo: "0 \<le> f_val (of_int64 (d div u)) + f_val x" using r(3) x(2) by (simp add: q)
  have hi: "f_val (of_int64 (d div u)) + f_val x \<le> of_int (d div u + 1)" using x(3) by (simp add: q)
  have "0 \<le> d div u + 1" using r(3) by simp
  from between_ints[OF eqv_between[OF fadd_eqv[OF q(1) x(1)] lo hi] this d(2)] show ?thesis by (simp only: eq)
qed

lemma round_to_mono:
  assumes m: "0 < m" "B * m < 2 ^ 53" "0 < B" and x: "is_finite x" "0 \<le> f_val x" and y: "is_finite y" "f_val y \<le> of_int B" and le: "fle x y"
  shows "fle (round_to m x) (round_to m y)"
proof -
  have xy: "f_val x \<le> f_val y" using le x y fle_fin by blast
  have "m \<le> B * m" using m by (simp add: mult_le_cancel_right1)
  then have "m < 2 ^ 53" using m(2) by linarith
  then have fm: "is_finite (of_int64 m)" "f_val (of_int64 m) = of_int m" using of_int64_small[of m] m(1) by simp_all
  have prod: "is_finite (fmul z (of_int64 m)) \<and> f_val (fmul z (of_int64 m)) \<le> of_int (B * m)" if "is_finite z" "0 \<le> f_val z" "f_val z \<le> of_int B" for z
  proof -
    have "0 \<le> f_val z * f_val (of_int64 m)" "f_val z * f_val (of_int64 m) \<le> of_int (B * m)" using that m(1) by (simp_all add: fm mult_right_mono)
    from between_ints[OF fmul_between[OF that(1) fm(1) this]] m show ?thesis by simp
  qed
  have fx: "is_finite (fmul x (of_int64 m))" and fy: "is_finite (fmul y (of_int64 m))" using prod[of x] prod[of y] x y xy by simp_all
  have "fle (fmul x (of_int64 m)) (fmul y (of_int64 m))"
    by (rule eqv_mono[OF fmul_eqv[OF x(1) fm(1)] fmul_eqv[OF y(1) fm(1)]]) (use xy m(1) in \<open>simp add: fm mult_right_mono\<close>)
  then have "fle (math_Round (fmul x (of_int64 m))) (math_Round (fmul y (of_int64 m)))" by (rule math_Round_mono)
  moreover have rx: "is_finite (math_Round (fmul x (of_int64 m)))" and ry: "is_finite (math_Round (fmul y (of_int64 m)))" using math_Round_val fx fy by simp_all
  ultimately have "f_val (math_Round (fmul x (of_int64 m))) / f_val (of_int64 m) \<le> f_val (math_Round (fmul y (of_int64 m))) / f_val (of_int64 m)"
    using m(1) fle_fin by (simp add: fm divide_right_mono)
  moreover have "f_val (of_int64 m) \<noteq> 0" using m(1) by (simp add: fm)
  ultimately show ?thesis unfolding round_to_def using eqv_mono[OF fdiv_eqv[OF rx fm(1)] fdiv_eqv[OF ry fm(1)]] by blast
qed

end
