(* ===== verification/Tenant_Store.thy ===== *)
theory Tenant_Store
  imports Access
begin

text \<open>
  What the admin handlers share: each is one or two Postgres statements scoped by the tenant of the
  authenticated identity. A handler is a step that takes a request and the store and gives an answer
  and the new store. The locale \<open>tenant_service\<close> states what a family of handlers promises (a view of
  the store per tenant, an invariant, no effect on the view of another tenant, no dependence on
  another view) and derives that tenants do not interfere.

  A statement fails when the request says so (\<open>Some\<close> text of the driver's error). The random
  identifier of an inserted row and the time of the statement come with the request as well.
\<close>

section \<open>Statements\<close>

type_synonym fault = "string option"

text \<open>\<open>ORDER BY k DESC\<close>; rows with the same key keep their order.\<close>

definition order_desc :: "('a \<Rightarrow> int) \<Rightarrow> 'a list \<Rightarrow> 'a list" where
  "order_desc k rows = sort_key (\<lambda>r. - k r) rows"

text \<open>\<open>UPDATE ... WHERE P\<close> and \<open>DELETE ... WHERE P\<close>; whether a row was affected is \<open>list_ex P\<close>.\<close>

definition update_where :: "('a \<Rightarrow> bool) \<Rightarrow> ('a \<Rightarrow> 'a) \<Rightarrow> 'a list \<Rightarrow> 'a list" where
  "update_where P f rows = map (\<lambda>r. if P r then f r else r) rows"

definition delete_where :: "('a \<Rightarrow> bool) \<Rightarrow> 'a list \<Rightarrow> 'a list" where
  "delete_where P rows = filter (\<lambda>r. \<not> P r) rows"

lemma insort_key_map: "insort_key k (f x) (map f xs) = map f (insort_key (\<lambda>x. k (f x)) x xs)"
  by (induction xs) simp_all

lemma order_desc_map: "order_desc k (map f xs) = map f (order_desc (\<lambda>x. k (f x)) xs)"
  unfolding order_desc_def sort_key_def by (induction xs) (simp_all add: insort_key_map)

lemma set_order_desc [simp]: "set (order_desc k rows) = set rows"
  by (simp add: order_desc_def)

lemma set_update_where: "s \<in> set (update_where P f ss) \<longleftrightarrow> (\<exists>r \<in> set ss. s = (if P r then f r else r))"
  by (auto simp: update_where_def)

lemma image_update_where: "(\<And>r. g (f r) = g r) \<Longrightarrow> g ` set (update_where P f rows) = g ` set rows"
  by (induction rows) (auto simp: update_where_def)

lemma find_Some_mem: "find P xs = Some x \<Longrightarrow> x \<in> set xs \<and> P x"
  by (induction xs) (auto split: if_splits)

text \<open>The part of a table a tenant owns.\<close>

definition owned :: "('a \<Rightarrow> string) \<Rightarrow> string \<Rightarrow> 'a list \<Rightarrow> 'a list" where
  "owned tenant t rows = filter (\<lambda>r. tenant r = t) rows"

named_theorems owned_simps

lemma owned_append [owned_simps]: "owned tenant t (xs @ ys) = owned tenant t xs @ owned tenant t ys"
  by (simp add: owned_def)

lemma owned_single [owned_simps]: "owned tenant t [x] = (if tenant x = t then [x] else [])"
  by (simp add: owned_def)

lemma owned_idem [simp]: "owned tenant t (owned tenant t rows) = owned tenant t rows"
  by (simp add: owned_def)

lemma owned_update_other:
  "(\<And>r. P r \<Longrightarrow> tenant r \<noteq> t) \<Longrightarrow> (\<And>r. tenant (f r) = tenant r) \<Longrightarrow> owned tenant t (update_where P f rows) = owned tenant t rows"
  by (induction rows) (auto simp: owned_def update_where_def)

lemma owned_update:
  "(\<And>r. tenant (f r) = tenant r) \<Longrightarrow> owned tenant t (update_where P f rows) = update_where P f (owned tenant t rows)"
  by (induction rows) (auto simp: owned_def update_where_def)

lemma owned_delete: "owned tenant t (delete_where P rows) = delete_where P (owned tenant t rows)"
  by (induction rows) (auto simp: owned_def delete_where_def)

lemma owned_delete_other: "(\<And>r. P r \<Longrightarrow> tenant r \<noteq> t) \<Longrightarrow> owned tenant t (delete_where P rows) = owned tenant t rows"
  by (induction rows) (auto simp: owned_def delete_where_def)

lemma filter_owned: "filter (\<lambda>r. tenant r = t \<and> Q r) rows = filter Q (owned tenant t rows)"
  by (induction rows) (auto simp: owned_def)

lemma find_owned: "find (\<lambda>r. Q r \<and> tenant r = t) rows = find Q (owned tenant t rows)"
  by (induction rows) (auto simp: owned_def)

lemma list_ex_owned: "list_ex (\<lambda>r. Q r \<and> tenant r = t) rows = list_ex Q (owned tenant t rows)"
  by (induction rows) (auto simp: owned_def)

lemma update_where_owned:
  "(\<And>r. tenant (f r) = tenant r) \<Longrightarrow>
   owned tenant t (update_where (\<lambda>r. Q r \<and> tenant r = u) f rows) =
     (if t = u then update_where Q f (owned tenant t rows) else owned tenant t rows)"
  by (induction rows) (auto simp: owned_def update_where_def)

lemma delete_where_owned:
  "owned tenant t (delete_where (\<lambda>r. Q r \<and> tenant r = u) rows) =
     (if t = u then delete_where Q (owned tenant t rows) else owned tenant t rows)"
  by (induction rows) (auto simp: owned_def delete_where_def)

lemmas tenant_rows = filter_owned find_owned list_ex_owned update_where_owned delete_where_owned owned_append owned_single

section \<open>Non-interference of tenants\<close>

fun serve :: "('req \<Rightarrow> 'st \<Rightarrow> 'ans \<times> 'st) \<Rightarrow> 'req list \<Rightarrow> 'st \<Rightarrow> ('req \<times> 'ans) list \<times> 'st" where
  "serve step [] s = ([], s)"
| "serve step (r # rs) s = (let (a, s1) = step r s; (as, s2) = serve step rs s1 in ((r, a) # as, s2))"

text \<open>What a tenant sees of a run: its own requests with their answers.\<close>

definition seen :: "('req \<Rightarrow> string) \<Rightarrow> string \<Rightarrow> ('req \<times> 'ans) list \<Rightarrow> ('req \<times> 'ans) list" where
  "seen caller t log = filter (\<lambda>(r, a). caller r = t) log"

locale tenant_service =
  fixes step :: "'req \<Rightarrow> 'st \<Rightarrow> 'ans \<times> 'st"
    and caller :: "'req \<Rightarrow> string"
    and view :: "string \<Rightarrow> 'st \<Rightarrow> 'v"
    and inv :: "'st \<Rightarrow> bool"
  assumes keeps: "inv s \<Longrightarrow> inv (snd (step r s))"
    and respects: "inv s \<Longrightarrow> caller r \<noteq> t \<Longrightarrow> view t (snd (step r s)) = view t s"
    and depends: "inv s \<Longrightarrow> inv s' \<Longrightarrow> view (caller r) s = view (caller r) s' \<Longrightarrow>
      fst (step r s) = fst (step r s') \<and> view (caller r) (snd (step r s)) = view (caller r) (snd (step r s'))"
begin

lemma serve_keeps: "inv s \<Longrightarrow> inv (snd (serve step rs s))"
proof (induction rs arbitrary: s)
  case (Cons r rs)
  then show ?case using keeps[of s r] Cons.IH[of "snd (step r s)"] by (simp add: case_prod_beta)
qed simp

lemma isolated:
  assumes "inv s" "inv s'" "view t s = view t s'"
  shows "seen caller t (fst (serve step rs s)) = fst (serve step (filter (\<lambda>r. caller r = t) rs) s') \<and>
         view t (snd (serve step rs s)) = view t (snd (serve step (filter (\<lambda>r. caller r = t) rs) s'))"
  using assms
proof (induction rs arbitrary: s s')
  case Nil
  then show ?case by (simp add: seen_def)
next
  case (Cons r rs)
  define a s1 where "a = fst (step r s)" and "s1 = snd (step r s)"
  have st: "step r s = (a, s1)" by (simp add: a_def s1_def)
  have i1: "inv s1" using keeps[OF Cons.prems(1), of r] by (simp add: s1_def)
  show ?case
  proof (cases "caller r = t")
    case True
    define s1' where "s1' = snd (step r s')"
    have "fst (step r s') = a" "view t s1 = view t s1'"
      using depends[OF Cons.prems(1,2), of r] Cons.prems(3) True by (simp_all add: a_def s1_def s1'_def)
    moreover have "inv s1'" using keeps[OF Cons.prems(2), of r] by (simp add: s1'_def)
    ultimately have "step r s' = (a, s1')" and ih: "seen caller t (fst (serve step rs s1)) = fst (serve step (filter (\<lambda>r. caller r = t) rs) s1')"
        "view t (snd (serve step rs s1)) = view t (snd (serve step (filter (\<lambda>r. caller r = t) rs) s1'))"
      using Cons.IH[OF i1, of s1'] by (simp_all add: s1'_def prod_eq_iff)
    then show ?thesis using True st by (simp add: seen_def case_prod_beta)
  next
    case False
    then have "view t s1 = view t s'" using respects[OF Cons.prems(1), of r t] Cons.prems(3) by (simp add: s1_def)
    from Cons.IH[OF i1 Cons.prems(2) this] show ?thesis using False st by (simp add: seen_def case_prod_beta)
  qed
qed

text \<open>A tenant's answers are those of a system in which the other tenants never send a request.\<close>

lemma noninterference:
  "inv s \<Longrightarrow> seen caller t (fst (serve step rs s)) = fst (serve step (filter (\<lambda>r. caller r = t) rs) s)"
  using isolated by blast

end

section \<open>Two services side by side\<close>

definition par_step :: "('ra \<Rightarrow> 'sa \<Rightarrow> 'aa \<times> 'sa) \<Rightarrow> ('rb \<Rightarrow> 'sb \<Rightarrow> 'ab \<times> 'sb) \<Rightarrow> 'ra + 'rb \<Rightarrow> 'sa \<times> 'sb \<Rightarrow> ('aa + 'ab) \<times> ('sa \<times> 'sb)" where
  "par_step f g r s = (case r of
     Inl q \<Rightarrow> (case f q (fst s) of (a, sa) \<Rightarrow> (Inl a, (sa, snd s)))
   | Inr q \<Rightarrow> (case g q (snd s) of (b, sb) \<Rightarrow> (Inr b, (fst s, sb))))"

definition par_view :: "(string \<Rightarrow> 'sa \<Rightarrow> 'va) \<Rightarrow> (string \<Rightarrow> 'sb \<Rightarrow> 'vb) \<Rightarrow> string \<Rightarrow> 'sa \<times> 'sb \<Rightarrow> 'va \<times> 'vb" where
  "par_view f g t s = (f t (fst s), g t (snd s))"

definition par_inv :: "('sa \<Rightarrow> bool) \<Rightarrow> ('sb \<Rightarrow> bool) \<Rightarrow> 'sa \<times> 'sb \<Rightarrow> bool" where
  "par_inv f g s \<longleftrightarrow> f (fst s) \<and> g (snd s)"

lemmas par_defs = par_step_def par_view_def par_inv_def

locale two_services = left: tenant_service step1 caller1 view1 inv1 + right: tenant_service step2 caller2 view2 inv2
  for step1 :: "'ra \<Rightarrow> 'sa \<Rightarrow> 'aa \<times> 'sa" and caller1 :: "'ra \<Rightarrow> string" and view1 :: "string \<Rightarrow> 'sa \<Rightarrow> 'va" and inv1 :: "'sa \<Rightarrow> bool"
  and step2 :: "'rb \<Rightarrow> 'sb \<Rightarrow> 'ab \<times> 'sb" and caller2 :: "'rb \<Rightarrow> string" and view2 :: "string \<Rightarrow> 'sb \<Rightarrow> 'vb" and inv2 :: "'sb \<Rightarrow> bool"

sublocale two_services \<subseteq> both: tenant_service "par_step step1 step2" "case_sum caller1 caller2" "par_view view1 view2" "par_inv inv1 inv2"
proof (unfold_locales, goal_cases)
  case (1 s r)
  then show ?case using left.keeps[of "fst s"] right.keeps[of "snd s"] by (cases r) (simp_all add: par_defs case_prod_beta)
next
  case (2 s r t)
  then show ?case using left.respects[of "fst s"] right.respects[of "snd s"] by (cases r) (simp_all add: par_defs case_prod_beta)
next
  case (3 s s' r)
  then show ?case using left.depends[of "fst s" "fst s'"] right.depends[of "snd s" "snd s'"] by (cases r) (simp_all add: par_defs case_prod_beta)
qed

end
