(* ===== verification/War_Room.thy ===== *)
theory War_Room
  imports Go_Time Tenant_Store "HOL-Library.Multiset" "HOL-Library.List_Lexorder" "HOL-Library.Char_ord"
begin

text \<open>
  The incident war room: the hand-off assembled from a session (\<open>domains/warroom/warroom.go\<close>) and the
  handlers that open a session, extend it and resolve it (\<open>platform/api/handler/warroom.go\<close>). The
  three tables are lists of rows with the constraints of their migration: one open session per
  incident, one row per role, and the listed kinds and roles.
\<close>

section \<open>Data\<close>

record Role =
  ro_Role :: string
  ro_Assignee :: string

record Entry =
  en_Kind :: string
  en_Author :: string
  en_Body :: string
  en_CreatedAt :: int

record Session =
  se_ID :: string
  se_IncidentID :: string
  se_Commander :: string
  se_Summary :: string
  se_OpenedAt :: int

record Handoff =
  ha_IncidentID :: string
  ha_Commander :: string
  ha_DurationMinutes :: f64
  ha_Roles :: "Role list"
  ha_ActionItems :: "string list"
  ha_TimelineCount :: nat
  ha_Summary :: string
  ha_Narrative :: string

section \<open>The hand-off\<close>

text \<open>The conversion to \<open>int64\<close> outside its range is the argument \<open>oob\<close>.\<close>

definition round1 :: "(f64 \<Rightarrow> int) \<Rightarrow> f64 \<Rightarrow> f64" where
  "round1 oob x = fdiv (of_int64 (int64_of oob (fadd (fmul x (of_int64 10)) (lit (1 / 2))))) (of_int64 10)"

definition action_items :: "Entry list \<Rightarrow> string list" where
  "action_items entries = map en_Body (filter (\<lambda>e. en_Kind e = ''action'' \<and> TrimSpace (en_Body e) \<noteq> []) entries)"

definition line_break :: string where "line_break = [CHR 0x0A]"

definition middle_dot :: string where "middle_dot = '' '' @ [CHR 0xC2, CHR 0xB7] @ '' ''"

definition item_line :: "nat \<times> string \<Rightarrow> string" where
  "item_line = (\<lambda>(i, a). ''  [ ] '' @ show_int (int i + 1) @ ''. '' @ a @ line_break)"

definition narrative :: "Session \<Rightarrow> Role list \<Rightarrow> f64 \<Rightarrow> nat \<Rightarrow> string list \<Rightarrow> string" where
  "narrative s roles dur n items =
     ''Incident '' @ se_IncidentID s @ '' handoff'' @ line_break @
     (if se_Commander s \<noteq> [] then ''Commander: '' @ se_Commander s @ line_break else []) @
     ''Duration: '' @ show_fixed 1 dur @ '' min'' @ middle_dot @ show_int (int n) @ '' timeline entries'' @ middle_dot @
       show_int (int (length items)) @ '' action item(s)'' @ line_break @
     (if roles \<noteq> [] then ''Command: '' @ Join (map (\<lambda>r. ro_Role r @ ''='' @ ro_Assignee r) roles) '', '' @ line_break else []) @
     (if se_Summary s \<noteq> [] then ''Summary: '' @ se_Summary s @ line_break else []) @
     concat (map item_line (enumerate 0 items))"

definition BuildHandoff :: "(f64 \<Rightarrow> int) \<Rightarrow> Session \<Rightarrow> Role list \<Rightarrow> Entry list \<Rightarrow> int \<Rightarrow> Handoff" where
  "BuildHandoff oob s roles entries closedAt =
     (let dur = Minutes (time_Sub closedAt (se_OpenedAt s));
          dur = round1 oob (if flt dur (Zero False) then Zero False else dur);
          items = action_items entries
      in \<lparr>ha_IncidentID = se_IncidentID s, ha_Commander = se_Commander s, ha_DurationMinutes = dur, ha_Roles = roles, ha_ActionItems = items,
          ha_TimelineCount = length entries, ha_Summary = se_Summary s, ha_Narrative = narrative s roles dur (length entries) items\<rparr>)"

section \<open>Tables\<close>

record session_row =
  sr_id :: string
  sr_tenant :: string
  sr_incident :: string
  sr_status :: string
  sr_commander :: string
  sr_summary :: string
  sr_opened :: int
  sr_closed :: "int option"

record entry_row =
  ee_tenant :: string
  ee_session :: string
  ee_entry :: Entry

record role_row =
  rr_tenant :: string
  rr_session :: string
  rr_role :: Role

text \<open>Incidents are the pairs of their identifier and tenant.\<close>

record war_store =
  wr_incidents :: "(string \<times> string) list"
  wr_sessions :: "session_row list"
  wr_entries :: "entry_row list"
  wr_roles :: "role_row list"

definition entry_kinds :: "string list" where
  "entry_kinds = [''note'', ''action'', ''status_change'', ''role'']"

definition command_roles :: "string list" where
  "command_roles = [''commander'', ''comms'', ''ops'', ''scribe'', ''liaison'']"

text \<open>The surroundings of one request: the caller, the failures of its statements, the random identifier and the time.\<close>

record war_env =
  we_tenant :: string
  we_fault :: "nat \<Rightarrow> fault"
  we_newid :: string
  we_now :: int
  we_oob :: "f64 \<Rightarrow> int"

datatype war_answer =
    WError int string
  | WDeclared string string string int
  | WRoom session_row "Role list" "Entry list"
  | WEntry string
  | WRole string string
  | WHandoff Handoff

section \<open>Handlers\<close>

definition open_for :: "string \<Rightarrow> session_row \<Rightarrow> bool" where
  "open_for incidentID s \<longleftrightarrow> sr_incident s = incidentID \<and> sr_status s = ''open''"

definition nonempty_or :: "string \<Rightarrow> string \<Rightarrow> string" where
  "nonempty_or x y = (if x = [] then y else x)"

text \<open>A body that is not the expected JSON leaves both fields empty.\<close>

definition DeclareIncidentWarRoom :: "war_env \<Rightarrow> string \<Rightarrow> string \<times> string \<Rightarrow> war_store \<Rightarrow> war_answer \<times> war_store" where
  "DeclareIncidentWarRoom env incidentID body st =
     (let tenant = we_tenant env; (commander, summary) = body in
      if we_fault env 0 \<noteq> None \<or> (incidentID, tenant) \<notin> set (wr_incidents st) then (WError 404 ''incident not found'', st)
      else case we_fault env 1 of
        Some e \<Rightarrow> (WError 500 e, st)
      | None \<Rightarrow>
          (case find (open_for incidentID) (wr_sessions st) of
             Some s \<Rightarrow> (WDeclared (sr_id s) incidentID (sr_status s) (sr_opened s),
                st\<lparr>wr_sessions := update_where (open_for incidentID)
                     (\<lambda>r. r\<lparr>sr_commander := nonempty_or commander (sr_commander r), sr_summary := nonempty_or summary (sr_summary r)\<rparr>) (wr_sessions st)\<rparr>)
           | None \<Rightarrow> (WDeclared (we_newid env) incidentID ''open'' (we_now env),
                st\<lparr>wr_sessions := wr_sessions st @ [\<lparr>sr_id = we_newid env, sr_tenant = tenant, sr_incident = incidentID, sr_status = ''open'',
                     sr_commander = commander, sr_summary = summary, sr_opened = we_now env, sr_closed = None\<rparr>]\<rparr>)))"

definition warroomEntries :: "fault \<Rightarrow> string \<Rightarrow> string \<Rightarrow> war_store \<Rightarrow> Entry list" where
  "warroomEntries f tenant sessionID st =
     (if f \<noteq> None then []
      else sort_key en_CreatedAt (map ee_entry (filter (\<lambda>e. ee_tenant e = tenant \<and> ee_session e = sessionID) (wr_entries st))))"

definition warroomRoles :: "fault \<Rightarrow> string \<Rightarrow> string \<Rightarrow> war_store \<Rightarrow> Role list" where
  "warroomRoles f tenant sessionID st =
     (if f \<noteq> None then []
      else sort_key ro_Role (map rr_role (filter (\<lambda>e. rr_tenant e = tenant \<and> rr_session e = sessionID) (wr_roles st))))"

definition GetIncidentWarRoom :: "war_env \<Rightarrow> string \<Rightarrow> war_store \<Rightarrow> war_answer \<times> war_store" where
  "GetIncidentWarRoom env incidentID st =
     (let tenant = we_tenant env in
      case order_desc sr_opened (filter (\<lambda>s. sr_tenant s = tenant \<and> sr_incident s = incidentID) (wr_sessions st)) of
        s # _ \<Rightarrow>
          if we_fault env 0 \<noteq> None then (WError 404 ''no war room for this incident'', st)
          else (WRoom s (warroomRoles (we_fault env 2) tenant (sr_id s) st) (warroomEntries (we_fault env 1) tenant (sr_id s) st), st)
      | [] \<Rightarrow> (WError 404 ''no war room for this incident'', st))"

definition has_session :: "string \<Rightarrow> string \<Rightarrow> war_store \<Rightarrow> bool" where
  "has_session tenant sessionID st = list_ex (\<lambda>s. sr_id s = sessionID \<and> sr_tenant s = tenant) (wr_sessions st)"

text \<open>A kind outside the list violates the CHECK constraint when a row is inserted, and the statement fails.\<close>

definition AddWarRoomEntry :: "war_env \<Rightarrow> string \<Rightarrow> (string \<times> string \<times> string) option \<Rightarrow> war_store \<Rightarrow> war_answer \<times> war_store" where
  "AddWarRoomEntry env sessionID body st =
     (case body of
        None \<Rightarrow> (WError 400 ''invalid JSON body'', st)
      | Some (kind0, author, text) \<Rightarrow>
          let kind = (if kind0 = [] then ''note'' else kind0); tenant = we_tenant env in
          if we_fault env 0 \<noteq> None \<or> \<not> has_session tenant sessionID st \<or> kind \<notin> set entry_kinds then (WError 404 ''session not found'', st)
          else (WEntry (we_newid env),
            st\<lparr>wr_entries := wr_entries st @ [\<lparr>ee_tenant = tenant, ee_session = sessionID,
                ee_entry = \<lparr>en_Kind = kind, en_Author = author, en_Body = text, en_CreatedAt = we_now env\<rparr>\<rparr>]\<rparr>))"

definition role_of :: "string \<Rightarrow> string \<Rightarrow> string \<Rightarrow> role_row \<Rightarrow> bool" where
  "role_of tenant sessionID role r \<longleftrightarrow> (rr_session r = sessionID \<and> ro_Role (rr_role r) = role) \<and> rr_tenant r = tenant"

definition AssignWarRoomRole :: "war_env \<Rightarrow> string \<Rightarrow> (string \<times> string) option \<Rightarrow> war_store \<Rightarrow> war_answer \<times> war_store" where
  "AssignWarRoomRole env sessionID body st =
     (case body of
        None \<Rightarrow> (WError 400 ''role is required'', st)
      | Some (role, assignee) \<Rightarrow>
          let tenant = we_tenant env in
          if role = [] then (WError 400 ''role is required'', st)
          else case we_fault env 0 of
            Some e \<Rightarrow> (WError 500 e, st)
          | None \<Rightarrow>
              if \<not> has_session tenant sessionID st then (WError 404 ''session not found'', st)
              else if role \<notin> set command_roles then (WError 500 ''violates check constraint'', st)
              else (WRole role assignee,
                if list_ex (role_of tenant sessionID role) (wr_roles st)
                then st\<lparr>wr_roles := update_where (role_of tenant sessionID role) (\<lambda>r. r\<lparr>rr_role := (rr_role r)\<lparr>ro_Assignee := assignee\<rparr>\<rparr>) (wr_roles st)\<rparr>
                else st\<lparr>wr_roles := wr_roles st @ [\<lparr>rr_tenant = tenant, rr_session = sessionID, rr_role = \<lparr>ro_Role = role, ro_Assignee = assignee\<rparr>\<rparr>]\<rparr>))"

definition session_of :: "session_row \<Rightarrow> Session" where
  "session_of s = \<lparr>se_ID = sr_id s, se_IncidentID = sr_incident s, se_Commander = sr_commander s, se_Summary = sr_summary s, se_OpenedAt = sr_opened s\<rparr>"

definition HandoffWarRoom :: "war_env \<Rightarrow> string \<Rightarrow> war_store \<Rightarrow> war_answer \<times> war_store" where
  "HandoffWarRoom env sessionID st =
     (let tenant = we_tenant env in
      case find (\<lambda>s. sr_id s = sessionID \<and> sr_tenant s = tenant) (wr_sessions st) of
        None \<Rightarrow> (WError 404 ''session not found'', st)
      | Some s \<Rightarrow>
          if we_fault env 0 \<noteq> None then (WError 404 ''session not found'', st)
          else let roles = warroomRoles (we_fault env 1) tenant sessionID st;
                   entries = warroomEntries (we_fault env 2) tenant sessionID st;
                   handoff = BuildHandoff (we_oob env) (session_of s) roles entries (we_now env)
               in case we_fault env 3 of
                    Some e \<Rightarrow> (WError 500 e, st)
                  | None \<Rightarrow> (WHandoff handoff,
                      st\<lparr>wr_sessions := update_where (\<lambda>r. (sr_id r = sessionID \<and> sr_status r = ''open'') \<and> sr_tenant r = tenant)
                          (\<lambda>r. r\<lparr>sr_status := ''resolved'', sr_closed := Some (we_now env), sr_summary := ha_Summary handoff\<rparr>) (wr_sessions st)\<rparr>))"

datatype war_op =
    Declare string "string \<times> string"
  | GetRoom string
  | AddEntry string "(string \<times> string \<times> string) option"
  | AssignRole string "(string \<times> string) option"
  | HandOff string

type_synonym war_request = "war_env \<times> war_op"

definition war_step :: "war_request \<Rightarrow> war_store \<Rightarrow> war_answer \<times> war_store" where
  "war_step r = (case r of (env, op) \<Rightarrow>
     (case op of Declare i b \<Rightarrow> DeclareIncidentWarRoom env i b | GetRoom i \<Rightarrow> GetIncidentWarRoom env i
      | AddEntry s b \<Rightarrow> AddWarRoomEntry env s b | AssignRole s b \<Rightarrow> AssignWarRoomRole env s b | HandOff s \<Rightarrow> HandoffWarRoom env s))"

definition war_caller :: "war_request \<Rightarrow> string" where
  "war_caller r = we_tenant (fst r)"

section \<open>Invariant and view\<close>

definition open_incidents :: "session_row list \<Rightarrow> string list" where
  "open_incidents ss = map sr_incident (filter (\<lambda>s. sr_status s = ''open'') ss)"

definition war_inv :: "war_store \<Rightarrow> bool" where
  "war_inv st \<longleftrightarrow> distinct (map fst (wr_incidents st)) \<and>
     (\<forall>s \<in> set (wr_sessions st). (sr_incident s, sr_tenant s) \<in> set (wr_incidents st)) \<and> distinct (open_incidents (wr_sessions st))"

definition war_view :: "string \<Rightarrow> war_store \<Rightarrow> string list \<times> session_row list \<times> entry_row list \<times> role_row list" where
  "war_view t st = (map fst (filter (\<lambda>i. snd i = t) (wr_incidents st)), owned sr_tenant t (wr_sessions st), owned ee_tenant t (wr_entries st),
     owned rr_tenant t (wr_roles st))"

lemma incident_view: "(i, t) \<in> set (wr_incidents st) \<longleftrightarrow> i \<in> set (fst (war_view t st))"
  by (force simp: war_view_def)

text \<open>The open session of an incident belongs to the tenant of the incident.\<close>

lemma open_for_tenant:
  assumes "war_inv st" "(i, t) \<in> set (wr_incidents st)" "s \<in> set (wr_sessions st)" "open_for i s"
  shows "sr_tenant s = t"
proof -
  have "(i, sr_tenant s) \<in> set (wr_incidents st)" using assms by (auto simp: war_inv_def open_for_def)
  then show ?thesis using assms(1,2) by (auto simp: war_inv_def dest: eq_key_imp_eq_value)
qed

lemma find_cong_in: "(\<And>x. x \<in> set xs \<Longrightarrow> P x = Q x) \<Longrightarrow> find P xs = find Q xs"
  by (induction xs) auto

lemma update_where_cong: "(\<And>x. x \<in> set xs \<Longrightarrow> P x = Q x) \<Longrightarrow> update_where P f xs = update_where Q f xs"
  by (auto simp: update_where_def)

lemma declare_scoped:
  assumes "war_inv st" "(i, t) \<in> set (wr_incidents st)"
  shows "find (open_for i) (wr_sessions st) = find (open_for i) (owned sr_tenant t (wr_sessions st))"
    and "update_where (open_for i) f (wr_sessions st) = update_where (\<lambda>s. open_for i s \<and> sr_tenant s = t) f (wr_sessions st)"
proof -
  have c: "open_for i s = (open_for i s \<and> sr_tenant s = t)" if "s \<in> set (wr_sessions st)" for s using open_for_tenant[OF assms that] by blast
  from find_cong_in[OF c] show "find (open_for i) (wr_sessions st) = find (open_for i) (owned sr_tenant t (wr_sessions st))"
    by (simp only: find_owned)
  from update_where_cong[OF c] show "update_where (open_for i) f (wr_sessions st) = update_where (\<lambda>s. open_for i s \<and> sr_tenant s = t) f (wr_sessions st)" .
qed

lemma role_of_owned: "list_ex (role_of t s role) rows = list_ex (role_of t s role) (owned rr_tenant t rows)"
  by (induction rows) (auto simp: role_of_def owned_def)

lemmas war_reads = warroomEntries_def warroomRoles_def has_session_def role_of_def tenant_rows

lemma respects_declare:
  assumes "war_inv st" "we_tenant env \<noteq> t"
  shows "war_view t (snd (DeclareIncidentWarRoom env i b st)) = war_view t st"
proof (cases "(i, we_tenant env) \<in> set (wr_incidents st)")
  case True
  then show ?thesis using assms(2) declare_scoped(2)[OF assms(1) True]
    by (auto simp: DeclareIncidentWarRoom_def Let_def war_view_def tenant_rows split: option.split prod.split)
qed (auto simp: DeclareIncidentWarRoom_def Let_def split: prod.split)

lemma respects_other:
  assumes "we_tenant env \<noteq> t"
  shows "war_view t (snd (AddWarRoomEntry env s eb st)) = war_view t st" "war_view t (snd (AssignWarRoomRole env s rb st)) = war_view t st"
    "war_view t (snd (HandoffWarRoom env s st)) = war_view t st"
  using assms by (auto simp: AddWarRoomEntry_def AssignWarRoomRole_def HandoffWarRoom_def Let_def war_view_def role_of_def owned_append owned_single
      intro!: owned_update_other split: option.split)

lemma respects_step: "war_inv st \<Longrightarrow> war_caller r \<noteq> t \<Longrightarrow> war_view t (snd (war_step r st)) = war_view t st"
  by (cases r; cases "snd r")
    (auto simp: war_step_def war_caller_def respects_declare respects_other GetIncidentWarRoom_def Let_def split: list.split)

section \<open>Answers depend on the own view only\<close>

lemma depends_declare:
  assumes "war_inv st" "war_inv st'" and v: "war_view (we_tenant env) st = war_view (we_tenant env) st'"
  shows "fst (DeclareIncidentWarRoom env i b st) = fst (DeclareIncidentWarRoom env i b st') \<and>
    war_view (we_tenant env) (snd (DeclareIncidentWarRoom env i b st)) = war_view (we_tenant env) (snd (DeclareIncidentWarRoom env i b st'))"
proof (cases "(i, we_tenant env) \<in> set (wr_incidents st)")
  case True
  then have t': "(i, we_tenant env) \<in> set (wr_incidents st')" using v by (simp add: incident_view)
  have o: "owned sr_tenant (we_tenant env) (wr_sessions st) = owned sr_tenant (we_tenant env) (wr_sessions st')" using v by (simp add: war_view_def)
  show ?thesis
    using True t' v o by (auto simp: DeclareIncidentWarRoom_def Let_def declare_scoped[OF assms(1) True] declare_scoped[OF assms(2) t'] war_view_def tenant_rows
        split: option.split prod.split)
next
  case False
  then have "(i, we_tenant env) \<notin> set (wr_incidents st')" using v by (simp add: incident_view)
  with False show ?thesis using v by (auto simp: DeclareIncidentWarRoom_def Let_def split: prod.split)
qed

lemma view_parts:
  assumes "war_view t st = war_view t st'"
  shows "owned sr_tenant t (wr_sessions st) = owned sr_tenant t (wr_sessions st')" "owned ee_tenant t (wr_entries st) = owned ee_tenant t (wr_entries st')"
    "owned rr_tenant t (wr_roles st) = owned rr_tenant t (wr_roles st')"
    "map fst (filter (\<lambda>i. snd i = t) (wr_incidents st)) = map fst (filter (\<lambda>i. snd i = t) (wr_incidents st'))"
  using assms by (simp_all add: war_view_def)

lemma reads_view:
  assumes "war_view t st = war_view t st'"
  shows "warroomEntries f t s st = warroomEntries f t s st'" "warroomRoles f t s st = warroomRoles f t s st'" "has_session t s st = has_session t s st'"
  using view_parts[OF assms] by (simp_all add: war_reads)

definition agree :: "string \<Rightarrow> 'a \<times> war_store \<Rightarrow> 'a \<times> war_store \<Rightarrow> bool" where
  "agree t p q \<longleftrightarrow> fst p = fst q \<and> war_view t (snd p) = war_view t (snd q)"

lemma depends_rest:
  assumes v: "war_view (we_tenant env) st = war_view (we_tenant env) st'"
  shows "agree (we_tenant env) (GetIncidentWarRoom env i st) (GetIncidentWarRoom env i st')"
    and "agree (we_tenant env) (AddWarRoomEntry env s eb st) (AddWarRoomEntry env s eb st')"
    and "agree (we_tenant env) (AssignWarRoomRole env s rb st) (AssignWarRoomRole env s rb st')"
    and "agree (we_tenant env) (HandoffWarRoom env s st) (HandoffWarRoom env s st')"
proof -
  note p = view_parts[OF v] and r = reads_view[OF v]
  show "agree (we_tenant env) (GetIncidentWarRoom env i st) (GetIncidentWarRoom env i st')"
    using v by (simp add: agree_def GetIncidentWarRoom_def Let_def p r tenant_rows split: list.split)
  show "agree (we_tenant env) (AddWarRoomEntry env s eb st) (AddWarRoomEntry env s eb st')"
    by (auto simp: agree_def AddWarRoomEntry_def Let_def r war_view_def p tenant_rows split: option.split)
  show "agree (we_tenant env) (AssignWarRoomRole env s rb st) (AssignWarRoomRole env s rb st')"
    by (auto simp: agree_def AssignWarRoomRole_def Let_def r war_view_def p owned_update owned_append owned_single role_of_owned[of _ _ _ "wr_roles st"] role_of_owned[of _ _ _ "wr_roles st'"] split: option.split)
  show "agree (we_tenant env) (HandoffWarRoom env s st) (HandoffWarRoom env s st')"
    by (auto simp: agree_def HandoffWarRoom_def Let_def r war_view_def p owned_update find_owned split: option.split)
qed

lemma depends_step:
  assumes "war_inv st" "war_inv st'" "war_view (war_caller r) st = war_view (war_caller r) st'"
  shows "agree (war_caller r) (war_step r st) (war_step r st')"
proof (cases r)
  case (Pair env op)
  then have v: "war_view (we_tenant env) st = war_view (we_tenant env) st'" using assms(3) by (simp add: war_caller_def)
  show ?thesis using Pair depends_rest[OF v] depends_declare[OF assms(1,2) v]
    by (cases op) (simp_all add: war_step_def war_caller_def agree_def)
qed

section \<open>The invariant\<close>

lemma open_incidents_same:
  "(\<And>s. sr_incident (f s) = sr_incident s) \<Longrightarrow> (\<And>s. sr_status (f s) = sr_status s) \<Longrightarrow> open_incidents (update_where P f ss) = open_incidents ss"
  by (induction ss) (auto simp: open_incidents_def update_where_def)

lemma open_incidents_resolve:
  assumes "distinct (open_incidents ss)" "\<And>s. sr_status (f s) \<noteq> ''open''"
  shows "distinct (open_incidents (update_where P f ss))"
proof -
  have "open_incidents (update_where P f ss) = map sr_incident (filter (\<lambda>s. \<not> P s) (filter (\<lambda>s. sr_status s = ''open'') ss))"
    using assms(2) by (induction ss) (auto simp: open_incidents_def update_where_def)
  then show ?thesis using assms(1) by (simp add: open_incidents_def distinct_map_filter del: filter_filter)
qed

lemma inv_update:
  assumes "war_inv st" "\<And>s. sr_incident (f s) = sr_incident s \<and> sr_tenant (f s) = sr_tenant s" "distinct (open_incidents (update_where P f (wr_sessions st)))"
  shows "war_inv (st\<lparr>wr_sessions := update_where P f (wr_sessions st)\<rparr>)"
proof -
  have "(sr_incident s, sr_tenant s) \<in> set (wr_incidents st)" if s: "s \<in> set (update_where P f (wr_sessions st))" for s
  proof -
    from s obtain r where "r \<in> set (wr_sessions st)" "s = (if P r then f r else r)" unfolding set_update_where by blast
    then show ?thesis using assms(1) assms(2)[of r] by (cases "P r") (simp_all add: war_inv_def)
  qed
  then show ?thesis using assms(1,3) by (simp add: war_inv_def)
qed

lemma inv_insert:
  assumes "war_inv st" "find (open_for (sr_incident s)) (wr_sessions st) = None" "(sr_incident s, sr_tenant s) \<in> set (wr_incidents st)"
  shows "war_inv (st\<lparr>wr_sessions := wr_sessions st @ [s]\<rparr>)"
  using assms by (auto simp: war_inv_def open_incidents_def find_None_iff open_for_def)

lemma keeps_declare: "war_inv st \<Longrightarrow> war_inv (snd (DeclareIncidentWarRoom env i b st))"
  by (auto simp: DeclareIncidentWarRoom_def Let_def open_incidents_same intro!: inv_insert inv_update split: option.split prod.split) (simp_all add: war_inv_def)

lemma keeps_step: "war_inv st \<Longrightarrow> war_inv (snd (war_step r st))"
proof (cases r)
  case (Pair env op)
  assume inv: "war_inv st"
  have "war_inv (snd (AddWarRoomEntry env s eb st))" "war_inv (snd (AssignWarRoomRole env s rb st))" "war_inv (snd (GetIncidentWarRoom env i st))" for s eb rb i
    using inv by (auto simp: AddWarRoomEntry_def AssignWarRoomRole_def GetIncidentWarRoom_def war_inv_def Let_def split: option.split list.split)
  moreover have "war_inv (snd (HandoffWarRoom env s st))" for s
    using inv by (auto simp: HandoffWarRoom_def Let_def intro!: inv_update open_incidents_resolve split: option.split) (simp_all add: war_inv_def)
  ultimately show ?thesis using keeps_declare[OF inv, of env] by (cases op) (simp_all add: Pair war_step_def)
qed

interpretation war: tenant_service war_step war_caller war_view war_inv
proof (unfold_locales, goal_cases)
  case (1 s r)
  then show ?case by (rule keeps_step)
next
  case (2 s r t)
  then show ?case by (rule respects_step)
next
  case (3 s s' r)
  then show ?case using depends_step[of s s' r] by (simp add: agree_def)
qed

section \<open>Histories\<close>

text \<open>A row that is no longer open stays as it is; every row keeps its owner, incident and opening time.\<close>

definition session_keeps :: "session_row \<Rightarrow> session_row \<Rightarrow> bool" where
  "session_keeps s s' \<longleftrightarrow> sr_id s' = sr_id s \<and> sr_tenant s' = sr_tenant s \<and> sr_incident s' = sr_incident s \<and> sr_opened s' = sr_opened s \<and>
     (sr_status s \<noteq> ''open'' \<longrightarrow> s' = s)"

lemma session_keeps_refl: "session_keeps s s"
  by (simp add: session_keeps_def)

lemma session_keeps_trans: "session_keeps a b \<Longrightarrow> session_keeps b c \<Longrightarrow> session_keeps a c"
  unfolding session_keeps_def by metis

lemma update_where_keeps:
  "(\<And>s. P s \<Longrightarrow> session_keeps s (f s)) \<Longrightarrow> s \<in> set ss \<Longrightarrow> \<exists>s' \<in> set (update_where P f ss). session_keeps s s'"
  by (rule bexI[of _ "if P s then f s else s"]) (auto simp: session_keeps_refl update_where_def)

lemma step_session:
  assumes "s \<in> set (wr_sessions st)" shows "\<exists>s' \<in> set (wr_sessions (snd (war_step r st))). session_keeps s s'"
proof (cases r)
  case (Pair env op)
  have same: "\<exists>s' \<in> set (wr_sessions st). session_keeps s s'" using assms session_keeps_refl by blast
  have up: "\<exists>s' \<in> set (update_where P f (wr_sessions st)). session_keeps s s'" if "\<And>r. P r \<Longrightarrow> session_keeps r (f r)" for P f
    using update_where_keeps[OF that assms] .
  have "\<exists>s' \<in> set (wr_sessions (snd (DeclareIncidentWarRoom env i b st))). session_keeps s s'" for i b
    using same by (auto simp: DeclareIncidentWarRoom_def Let_def open_for_def intro!: up split: option.split prod.split) (simp_all add: session_keeps_def)
  moreover have "\<exists>s' \<in> set (wr_sessions (snd (HandoffWarRoom env i st))). session_keeps s s'" for i
    using same by (auto simp: HandoffWarRoom_def Let_def intro!: up split: option.split) (simp_all add: session_keeps_def)
  moreover have "wr_sessions (snd (AddWarRoomEntry env x eb st)) = wr_sessions st" "wr_sessions (snd (AssignWarRoomRole env x rb st)) = wr_sessions st"
      "wr_sessions (snd (GetIncidentWarRoom env x st)) = wr_sessions st" for x eb rb
    by (auto simp: AddWarRoomEntry_def AssignWarRoomRole_def GetIncidentWarRoom_def Let_def split: option.split list.split)
  ultimately show ?thesis using Pair same by (cases op) (simp_all add: war_step_def)
qed

lemma serve_session: "s \<in> set (wr_sessions st) \<Longrightarrow> \<exists>s' \<in> set (wr_sessions (snd (serve war_step rs st))). session_keeps s s'"
proof (induction rs arbitrary: s st)
  case Nil
  then show ?case using session_keeps_refl by auto
next
  case (Cons r rs)
  obtain s1 where s1: "s1 \<in> set (wr_sessions (snd (war_step r st)))" "session_keeps s s1" using step_session[OF Cons.prems] by blast
  from Cons.IH[OF s1(1)] obtain s2 where "s2 \<in> set (wr_sessions (snd (serve war_step rs (snd (war_step r st)))))" "session_keeps s1 s2" by blast
  then show ?case using session_keeps_trans[OF s1(2)] by (auto simp: case_prod_beta)
qed

text \<open>The entry a request with its answer has added.\<close>

definition added :: "war_request \<times> war_answer \<Rightarrow> entry_row list" where
  "added p = (case p of ((env, AddEntry s (Some (kind, author, text))), WEntry _) \<Rightarrow>
      [\<lparr>ee_tenant = we_tenant env, ee_session = s,
        ee_entry = \<lparr>en_Kind = (if kind = [] then ''note'' else kind), en_Author = author, en_Body = text, en_CreatedAt = we_now env\<rparr>\<rparr>]
    | _ \<Rightarrow> [])"

lemma step_entries: "wr_entries (snd (war_step r st)) = wr_entries st @ added (r, fst (war_step r st))"
  by (cases r; cases "snd r")
    (auto simp: added_def war_step_def DeclareIncidentWarRoom_def GetIncidentWarRoom_def AddWarRoomEntry_def AssignWarRoomRole_def HandoffWarRoom_def Let_def
      split: option.split list.split prod.split)

lemma serve_entries: "wr_entries (snd (serve war_step rs st)) = wr_entries st @ concat (map added (fst (serve war_step rs st)))"
  by (induction rs arbitrary: st) (simp_all add: case_prod_beta step_entries)

section \<open>Properties\<close>

definition demo_env :: "string \<Rightarrow> string \<Rightarrow> war_env" where
  "demo_env tenant newid = \<lparr>we_tenant = tenant, we_fault = (\<lambda>_. None), we_newid = newid, we_now = 0, we_oob = (\<lambda>_. 0)\<rparr>"

definition demo_store :: war_store where
  "demo_store = \<lparr>wr_incidents = [(''i1'', ''acme''), (''i2'', ''beta'')], wr_sessions = [], wr_entries = [], wr_roles = []\<rparr>"

definition demo_run :: "war_request list" where
  "demo_run = [(demo_env ''acme'' ''s1'', Declare ''i1'' (''ann'', [])), (demo_env ''beta'' ''x'', Declare ''i1'' (''eve'', [])),
     (demo_env ''acme'' ''e1'', AddEntry ''s1'' (Some (''action'', ''ann'', ''rotate keys''))), (demo_env ''beta'' ''x'', HandOff ''s1'')]"

text \<open>
  C32. Over any sequence of requests an incident has at most one open war room, every session keeps its
  identifier, owner, incident and opening time, and a session that is not open any more never changes.
\<close>

theorem war_room_lifecycle:
  assumes "war_inv st"
  shows "distinct (open_incidents (wr_sessions (snd (serve war_step rs st)))) \<and>
    (\<forall>s \<in> set (wr_sessions st). \<exists>s' \<in> set (wr_sessions (snd (serve war_step rs st))). session_keeps s s')"
  using war.serve_keeps[OF assms, of rs] serve_session by (auto simp: war_inv_def)

theorem war_room_lifecycle_witness:
  "distinct (open_incidents (wr_sessions (snd (serve war_step demo_run demo_store))))"
proof -
  have "war_inv demo_store" by code_simp
  from war_room_lifecycle[OF this, of demo_run] show ?thesis by blast
qed

text \<open>
  The hand-off of a session lists each action item recorded for it exactly as often as it was
  accepted, blank ones left out: whatever happened in between, none is lost and none is invented.
\<close>

theorem handoff_keeps_items:
  assumes "wr_entries st = []" "fst (war_step (env, HandOff sid) (snd (serve war_step rs st))) = WHandoff h" "we_fault env 2 = None"
  shows "mset (ha_ActionItems h) =
    mset (action_items (map ee_entry (filter (\<lambda>e. ee_tenant e = we_tenant env \<and> ee_session e = sid) (concat (map added (fst (serve war_step rs st)))))))"
proof -
  let ?st = "snd (serve war_step rs st)"
  have "ha_ActionItems h = action_items (warroomEntries None (we_tenant env) sid ?st)"
    using assms(2,3) by (auto simp: war_step_def HandoffWarRoom_def BuildHandoff_def Let_def split: option.splits if_splits)
  then show ?thesis using serve_entries[of rs st] assms(1)
    by (simp add: action_items_def warroomEntries_def filter_sort mset_map)
qed

theorem handoff_keeps_items_witness:
  "\<exists>h. fst (war_step (demo_env ''acme'' ''x'', HandOff ''s1'') (snd (serve war_step demo_run demo_store))) = WHandoff h \<and> mset (ha_ActionItems h) = {#''rotate keys''#}"
proof -
  define h where "h = (case fst (war_step (demo_env ''acme'' ''x'', HandOff ''s1'') (snd (serve war_step demo_run demo_store))) of WHandoff h \<Rightarrow> h)"
  have "fst (war_step (demo_env ''acme'' ''x'', HandOff ''s1'') (snd (serve war_step demo_run demo_store))) = WHandoff h"
    unfolding h_def by code_simp
  moreover have "action_items (map ee_entry (filter (\<lambda>e. ee_tenant e = ''acme'' \<and> ee_session e = ''s1'') (concat (map added (fst (serve war_step demo_run demo_store)))))) = [''rotate keys'']"
    by code_simp
  ultimately show ?thesis using handoff_keeps_items[of demo_store "demo_env ''acme'' ''x''" "''s1''" demo_run h] by (simp add: demo_store_def demo_env_def)
qed

text \<open>
  An entry of a kind outside the four of the CHECK constraint is answered with \<open>session not found\<close>
  although the session exists: every failure of the INSERT is reported as a missing session.
\<close>

lemma entry_kind_misreported:
  "has_session (we_tenant env) sid st \<Longrightarrow> kind \<noteq> [] \<Longrightarrow> kind \<notin> set entry_kinds \<Longrightarrow>
   AddWarRoomEntry env sid (Some (kind, author, text)) st = (WError 404 ''session not found'', st)"
  by (simp add: AddWarRoomEntry_def)

end
