(* ===== verification/Dlq.thy ===== *)
theory Dlq
  imports Tenant_Store
begin

text \<open>
  The dead-letter queue of failed ingest events (\<open>platform/api/handler/dlq.go\<close>): listing, replay over
  NATS and dropping. The state is the table \<open>dlq_events\<close> and the messages published so far. The
  UPDATE of a replay names the event by its identifier alone; identifiers are unique.
\<close>

section \<open>Data\<close>

record dlqEvent =
  dl_ID :: string
  dl_TenantID :: string
  dl_Payload :: string
  dl_ErrorMsg :: string
  dl_Attempt :: int
  dl_Status :: string
  dl_CreatedAt :: int
  dl_ReplayedAt :: "int option"

record dlq_store =
  dq_events :: "dlqEvent list"
  dq_published :: "(string \<times> string) list"

record dlq_env =
  de_tenant :: string
  de_fault :: "nat \<Rightarrow> fault"
  de_now :: int

datatype dlq_answer = DError int string | DList "dlqEvent list" nat | DReplayed string | DDropped string

section \<open>Handlers\<close>

definition dlq_where :: "string \<Rightarrow> string \<Rightarrow> dlqEvent \<Rightarrow> bool" where
  "dlq_where tenant status e \<longleftrightarrow> dl_TenantID e = tenant \<and> (status = [] \<or> dl_Status e = status)"

text \<open>A failing count leaves the total at 0; the payload is decoded for display by the argument \<open>dec\<close>.\<close>

definition ListDLQ :: "(string \<Rightarrow> string) \<Rightarrow> dlq_env \<Rightarrow> string \<Rightarrow> dlq_store \<Rightarrow> dlq_answer \<times> dlq_store" where
  "ListDLQ dec env status st =
     (let rows = filter (dlq_where (de_tenant env) status) (dq_events st);
          total = (if de_fault env 0 \<noteq> None then 0 else length rows)
      in case de_fault env 1 of
           Some e \<Rightarrow> (DError 500 e, st)
         | None \<Rightarrow> (DList (map (\<lambda>e. e\<lparr>dl_Payload := dec (dl_Payload e)\<rparr>) (take 100 (order_desc dl_CreatedAt rows))) total, st))"

definition ingest_subject :: "string \<Rightarrow> string" where
  "ingest_subject tenant = ''qeet-logs.'' @ tenant @ ''.logs''"

definition pending_of :: "string \<Rightarrow> string \<Rightarrow> dlqEvent \<Rightarrow> bool" where
  "pending_of tenant i e \<longleftrightarrow> (dl_ID e = i \<and> dl_Status e = ''pending'') \<and> dl_TenantID e = tenant"

definition mark_replayed :: "int \<Rightarrow> dlqEvent \<Rightarrow> dlqEvent" where
  "mark_replayed now e = e\<lparr>dl_Status := ''replayed'', dl_ReplayedAt := Some now, dl_Attempt := dl_Attempt e + 1\<rparr>"

definition ReplayDLQ :: "dlq_env \<Rightarrow> string \<Rightarrow> dlq_store \<Rightarrow> dlq_answer \<times> dlq_store" where
  "ReplayDLQ env i st =
     (case find (pending_of (de_tenant env) i) (dq_events st) of
        None \<Rightarrow> (DError 404 ''DLQ event not found or not pending'', st)
      | Some e \<Rightarrow>
          if de_fault env 0 \<noteq> None then (DError 404 ''DLQ event not found or not pending'', st)
          else case de_fault env 1 of
            Some f \<Rightarrow> (DError 500 (''NATS publish failed: '' @ f), st)
          | None \<Rightarrow>
              let st = st\<lparr>dq_published := dq_published st @ [(ingest_subject (de_tenant env), dl_Payload e)]\<rparr> in
              (DReplayed i,
               if de_fault env 2 \<noteq> None then st
               else st\<lparr>dq_events := update_where (\<lambda>r. dl_ID r = i) (mark_replayed (de_now env)) (dq_events st)\<rparr>))"

definition owned_event :: "string \<Rightarrow> string \<Rightarrow> dlqEvent \<Rightarrow> bool" where
  "owned_event tenant i e \<longleftrightarrow> dl_ID e = i \<and> dl_TenantID e = tenant"

definition DropDLQ :: "dlq_env \<Rightarrow> string \<Rightarrow> dlq_store \<Rightarrow> dlq_answer \<times> dlq_store" where
  "DropDLQ env i st =
     (if de_fault env 0 \<noteq> None \<or> \<not> list_ex (owned_event (de_tenant env) i) (dq_events st) then (DError 404 ''DLQ event not found'', st)
      else (DDropped i, st\<lparr>dq_events := update_where (owned_event (de_tenant env) i) (\<lambda>e. e\<lparr>dl_Status := ''dropped''\<rparr>) (dq_events st)\<rparr>))"

datatype dlq_op = ListOp string | ReplayOp string | DropOp string

type_synonym dlq_request = "dlq_env \<times> dlq_op"

definition dlq_step :: "(string \<Rightarrow> string) \<Rightarrow> dlq_request \<Rightarrow> dlq_store \<Rightarrow> dlq_answer \<times> dlq_store" where
  "dlq_step dec r = (case r of (env, op) \<Rightarrow>
     (case op of ListOp status \<Rightarrow> ListDLQ dec env status | ReplayOp i \<Rightarrow> ReplayDLQ env i | DropOp i \<Rightarrow> DropDLQ env i))"

definition dlq_caller :: "dlq_request \<Rightarrow> string" where
  "dlq_caller r = de_tenant (fst r)"

section \<open>Tenants\<close>

definition dlq_inv :: "dlq_store \<Rightarrow> bool" where
  "dlq_inv st \<longleftrightarrow> distinct (map dl_ID (dq_events st))"

definition dlq_view :: "string \<Rightarrow> dlq_store \<Rightarrow> dlqEvent list \<times> (string \<times> string) list" where
  "dlq_view t st = (owned dl_TenantID t (dq_events st), filter (\<lambda>m. fst m = ingest_subject t) (dq_published st))"

lemma ingest_subject_inj [simp]: "ingest_subject a = ingest_subject b \<longleftrightarrow> a = b"
  by (simp add: ingest_subject_def)

lemma mark_replayed_same [simp]: "dl_ID (mark_replayed n e) = dl_ID e" "dl_TenantID (mark_replayed n e) = dl_TenantID e"
  by (simp_all add: mark_replayed_def)

lemma distinct_update: "(\<And>e. dl_ID (f e) = dl_ID e) \<Longrightarrow> map dl_ID (update_where P f es) = map dl_ID es"
  by (induction es) (auto simp: update_where_def)

text \<open>The event of a found identifier is the only one with it, so the unscoped UPDATE touches a row of the caller only.\<close>

lemma replay_scoped:
  assumes "distinct (map dl_ID es)" "find (pending_of t i) es = Some e" "r \<in> set es" "dl_ID r = i"
  shows "r = e \<and> dl_TenantID r = t"
proof -
  have e: "e \<in> set es" "pending_of t i e" using assms(2) by (auto simp: find_Some_iff)
  then have "r = e" using assms(1,3,4) by (auto simp: distinct_map pending_of_def dest: inj_onD)
  with e show ?thesis by (simp add: pending_of_def)
qed

lemma find_pending: "find (pending_of t i) es = find (pending_of t i) (owned dl_TenantID t es)"
  by (induction es) (auto simp: pending_of_def owned_def)

lemma ex_owned_event: "list_ex (owned_event t i) es = list_ex (owned_event t i) (owned dl_TenantID t es)"
  by (induction es) (auto simp: owned_event_def owned_def)

lemma filter_dlq_where: "filter (dlq_where t s) es = filter (dlq_where t s) (owned dl_TenantID t es)"
  by (induction es) (auto simp: dlq_where_def owned_def)

interpretation dlq: tenant_service "dlq_step dec" dlq_caller dlq_view dlq_inv
proof (unfold_locales, goal_cases)
  case (1 st r)
  obtain env op where r: "r = (env, op)" by force
  from 1 show ?case
    by (cases op) (auto simp: r dlq_step_def dlq_inv_def ListDLQ_def ReplayDLQ_def DropDLQ_def Let_def distinct_update split: option.split)
next
  case (2 st r t)
  obtain env op where r: "r = (env, op)" by force
  have t: "de_tenant env \<noteq> t" using 2(2) by (simp add: r dlq_caller_def)
  have "owned dl_TenantID t (update_where (\<lambda>r. dl_ID r = i) (mark_replayed n) (dq_events st)) = owned dl_TenantID t (dq_events st)"
    if f: "find (pending_of (de_tenant env) i) (dq_events st) = Some e" for i e n
  proof -
    have "update_where (\<lambda>r. dl_ID r = i) (mark_replayed n) (dq_events st) =
        update_where (\<lambda>r. dl_ID r = i \<and> dl_TenantID r = de_tenant env) (mark_replayed n) (dq_events st)"
      using replay_scoped[OF 2(1)[unfolded dlq_inv_def] f] by (auto simp: update_where_def)
    then show ?thesis using t by (simp add: update_where_owned)
  qed
  then show ?case using t
    by (cases op) (auto simp: r dlq_step_def dlq_view_def ListDLQ_def ReplayDLQ_def DropDLQ_def Let_def owned_event_def intro!: owned_update_other split: option.split)
next
  case (3 st st' r)
  obtain env op where r: "r = (env, op)" by force
  have v: "owned dl_TenantID (de_tenant env) (dq_events st) = owned dl_TenantID (de_tenant env) (dq_events st')"
    "filter (\<lambda>m. fst m = ingest_subject (de_tenant env)) (dq_published st) = filter (\<lambda>m. fst m = ingest_subject (de_tenant env)) (dq_published st')"
    using 3(3) by (simp_all add: r dlq_caller_def dlq_view_def)
  note w = find_pending[of _ _ "dq_events st"] find_pending[of _ _ "dq_events st'"] ex_owned_event[of _ _ "dq_events st"] ex_owned_event[of _ _ "dq_events st'"]
    filter_dlq_where[of _ _ "dq_events st"] filter_dlq_where[of _ _ "dq_events st'"]
  show ?case
    using v by (cases op) (simp_all add: r dlq_step_def dlq_caller_def dlq_view_def ListDLQ_def ReplayDLQ_def DropDLQ_def Let_def w owned_update split: option.split)
qed

section \<open>Histories\<close>

text \<open>A replay whose status was written, as request and answer.\<close>

definition confirmed :: "string \<Rightarrow> dlq_request \<times> dlq_answer \<Rightarrow> bool" where
  "confirmed i p \<longleftrightarrow> (case p of ((env, op), a) \<Rightarrow> op = ReplayOp i \<and> a = DReplayed i \<and> de_fault env 2 = None)"

definition settled :: "string \<Rightarrow> dlq_store \<Rightarrow> bool" where
  "settled i st \<longleftrightarrow> (\<forall>e \<in> set (dq_events st). dl_ID e = i \<longrightarrow> dl_Status e \<noteq> ''pending'')"

lemma settled_update:
  "settled i st \<Longrightarrow> (\<And>e. dl_ID (f e) = dl_ID e \<and> dl_Status (f e) \<noteq> ''pending'') \<Longrightarrow> settled i (st\<lparr>dq_events := update_where P f (dq_events st)\<rparr>)"
  by (auto simp: settled_def set_update_where split: if_splits)

lemma settled_step: "settled i st \<Longrightarrow> settled i (snd (dlq_step dec r st)) \<and> \<not> confirmed i (r, fst (dlq_step dec r st))"
proof -
  assume s: "settled i st"
  obtain env op where r: "r = (env, op)" by force
  have none: "find (pending_of t i) (dq_events st) = None" for t using s by (auto simp: settled_def pending_of_def find_None_iff)
  have pub: "settled i (st\<lparr>dq_published := m, dq_events := es\<rparr>) = settled i (st\<lparr>dq_events := es\<rparr>)" "settled i (st\<lparr>dq_published := m\<rparr>) = settled i st" for m es
    by (simp_all add: settled_def)
  have "settled i (snd (ReplayDLQ env j st))" "settled i (snd (DropDLQ env j st))" "settled i (snd (ListDLQ dec env x st))" for j x
    using s by (auto simp: ReplayDLQ_def DropDLQ_def ListDLQ_def Let_def pub mark_replayed_def intro!: settled_update split: option.split)
  moreover have "fst (ReplayDLQ env i st) = DError 404 ''DLQ event not found or not pending''" by (simp add: ReplayDLQ_def none)
  ultimately show ?thesis by (cases op) (auto simp: r dlq_step_def confirmed_def)
qed

lemma settled_serve: "settled i st \<Longrightarrow> filter (confirmed i) (fst (serve (dlq_step dec) rs st)) = []"
proof (induction rs arbitrary: st)
  case (Cons r rs)
  then show ?case using settled_step[OF Cons.prems, of dec r] Cons.IH[of "snd (dlq_step dec r st)"] by (simp add: case_prod_beta)
qed simp

lemma confirmed_settles:
  assumes "confirmed i (r, fst (dlq_step dec r st))" shows "settled i (snd (dlq_step dec r st))"
proof -
  obtain env where r: "r = (env, ReplayOp i)" and a: "fst (ReplayDLQ env i st) = DReplayed i" and f: "de_fault env 2 = None"
    using assms by (cases r) (auto simp: confirmed_def dlq_step_def)
  have "dq_events (snd (ReplayDLQ env i st)) = update_where (\<lambda>r. dl_ID r = i) (mark_replayed (de_now env)) (dq_events st)"
    using a f by (auto simp: ReplayDLQ_def Let_def split: option.splits if_splits)
  moreover have "\<forall>e \<in> set (update_where (\<lambda>r. dl_ID r = i) (mark_replayed n) es). dl_ID e = i \<longrightarrow> dl_Status e \<noteq> ''pending''" for n es
    by (induction es) (auto simp: update_where_def mark_replayed_def)
  ultimately show ?thesis by (simp add: settled_def r dlq_step_def)
qed

lemma confirmed_once: "length (filter (confirmed i) (fst (serve (dlq_step dec) rs st))) \<le> 1"
proof (induction rs arbitrary: st)
  case (Cons r rs)
  then show ?case using Cons.IH[of "snd (dlq_step dec r st)"] confirmed_settles[of i r dec st] settled_serve[of i "snd (dlq_step dec r st)" dec rs]
    by (cases "confirmed i (r, fst (dlq_step dec r st))") (simp_all add: case_prod_beta)
qed simp

text \<open>Owner and payload of an event never change.\<close>

definition sources :: "dlq_store \<Rightarrow> (string \<times> string) set" where
  "sources st = (\<lambda>e. (ingest_subject (dl_TenantID e), dl_Payload e)) ` set (dq_events st)"

lemma sources_update: "(\<And>e. dl_TenantID (f e) = dl_TenantID e \<and> dl_Payload (f e) = dl_Payload e) \<Longrightarrow>
    sources (st\<lparr>dq_events := update_where P f (dq_events st)\<rparr>) = sources st"
  by (simp add: sources_def image_update_where)

lemma sources_published [simp]: "sources (st\<lparr>dq_published := m\<rparr>) = sources st" "sources (st\<lparr>dq_published := m, dq_events := es\<rparr>) = sources (st\<lparr>dq_events := es\<rparr>)"
  by (simp_all add: sources_def)

lemma step_publishes:
  "sources (snd (dlq_step dec r st)) = sources st \<and> set (dq_published (snd (dlq_step dec r st))) \<subseteq> set (dq_published st) \<union> sources st"
proof -
  obtain env op where r: "r = (env, op)" by force
  have "sources (snd (ReplayDLQ env j st)) = sources st" "sources (snd (DropDLQ env j st)) = sources st" for j
    by (auto simp: ReplayDLQ_def DropDLQ_def Let_def mark_replayed_def sources_update split: option.split)
  moreover have "set (dq_published (snd (ReplayDLQ env j st))) \<subseteq> set (dq_published st) \<union> sources st" for j
    by (auto simp: ReplayDLQ_def Let_def sources_def pending_of_def dest!: find_Some_mem split: option.split) (metis (mono_tags) image_eqI)+
  ultimately show ?thesis by (cases op) (auto simp: r dlq_step_def ListDLQ_def DropDLQ_def Let_def split: option.split)
qed

lemma serve_publishes: "set (dq_published (snd (serve (dlq_step dec) rs st))) \<subseteq> set (dq_published st) \<union> sources st"
proof (induction rs arbitrary: st)
  case (Cons r rs)
  then show ?case using Cons.IH[of "snd (dlq_step dec r st)"] step_publishes[of dec r st] by (simp add: case_prod_beta) blast
qed simp

section \<open>Properties\<close>

definition demo_event :: dlqEvent where
  "demo_event = \<lparr>dl_ID = ''e1'', dl_TenantID = ''acme'', dl_Payload = ''{}'', dl_ErrorMsg = ''down'', dl_Attempt = 1, dl_Status = ''pending'',
     dl_CreatedAt = 0, dl_ReplayedAt = None\<rparr>"

definition demo_dlq :: dlq_store where
  "demo_dlq = \<lparr>dq_events = [demo_event], dq_published = []\<rparr>"

definition demo_request :: "string \<Rightarrow> dlq_op \<Rightarrow> dlq_request" where
  "demo_request tenant op = (\<lparr>de_tenant = tenant, de_fault = (\<lambda>_. None), de_now = 5\<rparr>, op)"

definition demo_requests :: "dlq_request list" where
  "demo_requests = [demo_request ''beta'' (DropOp ''e1''), demo_request ''acme'' (ReplayOp ''e1''), demo_request ''acme'' (ReplayOp ''e1'')]"


end
