(* ===== verification/Postmortem.thy ===== *)
theory Postmortem
  imports Go_Time Tenant_Store
begin

text \<open>
  Postmortems with their remediation commitments and the CERT-In incident export:
  \<open>domains/postmortem/postmortem.go\<close> (the pure report) and \<open>platform/api/handler/postmortem.go\<close> (the
  handlers over two tables and the incidents). A pointer field is an option; the zero \<open>time.Time\<close> is
  the first instant of the year 1.
\<close>

section \<open>The report\<close>

definition zero_Time :: int where "zero_Time = - 62135596800 * 10 ^ 9"

definition IsZero :: "int \<Rightarrow> bool" where "IsZero t \<longleftrightarrow> t = zero_Time"

record Postmortem =
  pm_ID :: string
  pm_TenantID :: string
  pm_IncidentID :: string
  pm_Title :: string
  pm_Summary :: string
  pm_Timeline :: string
  pm_RootCause :: string
  pm_Impact :: string
  pm_Status :: string
  pm_CreatedAt :: int
  pm_UpdatedAt :: int
  pm_PublishedAt :: "int option"

record IncidentMeta =
  im_ID :: string
  im_Service :: string
  im_Severity :: string
  im_Status :: string
  im_FirstSeen :: int
  im_ResolvedAt :: "int option"

record CERTInReport =
  cr_IncidentType :: string
  cr_DetectedAt :: int
  cr_ReportedWithinHours :: f64
  cr_AffectedSystems :: "string list"
  cr_Severity :: string
  cr_Impact :: string
  cr_RootCause :: string
  cr_ActionsTaken :: string
  cr_Status :: string

definition zero_IncidentMeta :: IncidentMeta where
  "zero_IncidentMeta = \<lparr>im_ID = [], im_Service = [], im_Severity = [], im_Status = [], im_FirstSeen = zero_Time, im_ResolvedAt = None\<rparr>"

definition reportTime :: "Postmortem \<Rightarrow> int" where
  "reportTime pm = (case pm_PublishedAt pm of Some t \<Rightarrow> if \<not> IsZero t then t else pm_CreatedAt pm | None \<Rightarrow> pm_CreatedAt pm)"

definition reportedWithinHours :: "int \<Rightarrow> int \<Rightarrow> f64" where
  "reportedWithinHours detected reported =
     (if IsZero detected \<or> IsZero reported \<or> \<not> detected < reported then Zero False
      else round_to 100 (Hours (time_Sub reported detected)))"

definition classifyType :: "string \<Rightarrow> string" where
  "classifyType severity =
     (if severity = ''critical'' then ''critical_infrastructure_disruption''
      else if severity = ''high'' then ''service_disruption''
      else if severity = ''medium'' then ''service_degradation''
      else ''operational_anomaly'')"

definition affectedSystems :: "string \<Rightarrow> string list" where
  "affectedSystems service = (if service = [] then [] else [service])"

definition reportStatus :: "IncidentMeta \<Rightarrow> string" where
  "reportStatus inc =
     (if im_ID inc = [] then ''under_investigation''
      else if im_Status inc = ''resolved'' \<or> im_ResolvedAt inc \<noteq> None then ''resolved'' else ''ongoing'')"

definition defaultStr :: "string \<Rightarrow> string \<Rightarrow> string" where
  "defaultStr v fallback = (if v = [] then fallback else v)"

definition BuildCERTInExport :: "Postmortem \<Rightarrow> IncidentMeta \<Rightarrow> CERTInReport" where
  "BuildCERTInExport pm inc =
     \<lparr>cr_IncidentType = classifyType (im_Severity inc), cr_DetectedAt = im_FirstSeen inc,
      cr_ReportedWithinHours = reportedWithinHours (im_FirstSeen inc) (reportTime pm), cr_AffectedSystems = affectedSystems (im_Service inc),
      cr_Severity = defaultStr (im_Severity inc) ''unknown'', cr_Impact = defaultStr (pm_Impact pm) (pm_Summary pm), cr_RootCause = pm_RootCause pm,
      cr_ActionsTaken = pm_Timeline pm, cr_Status = reportStatus inc\<rparr>"

section \<open>Tables\<close>

record postmortemRow =
  pr_ID :: string
  pr_TenantID :: string
  pr_IncidentID :: "string option"
  pr_Title :: string
  pr_Summary :: "string option"
  pr_Timeline :: "string option"
  pr_RootCause :: "string option"
  pr_Impact :: "string option"
  pr_Status :: string
  pr_CreatedAt :: int
  pr_UpdatedAt :: int
  pr_PublishedAt :: "int option"

record postmortemCommitmentRow =
  cm_ID :: string
  cm_TenantID :: string
  cm_PostmortemID :: string
  cm_Description :: string
  cm_DueDate :: "string option"
  cm_AlertRuleID :: "string option"
  cm_Status :: string
  cm_CreatedAt :: int

record incident_row =
  ic_id :: string
  ic_tenant :: string
  ic_service :: "string option"
  ic_severity :: "string option"
  ic_status :: "string option"
  ic_first_seen :: int
  ic_resolved_at :: "int option"

record pm_store =
  ps_posts :: "postmortemRow list"
  ps_commitments :: "postmortemCommitmentRow list"
  ps_incidents :: "incident_row list"

record pm_env =
  pe_tenant :: string
  pe_fault :: "nat \<Rightarrow> fault"
  pe_newid :: string
  pe_now :: int

datatype pm_answer =
    PError int string
  | PPost int postmortemRow
  | PPosts "postmortemRow list"
  | PCommitment postmortemCommitmentRow
  | PCommitments "postmortemCommitmentRow list"
  | PReport CERTInReport

section \<open>Handlers\<close>

record create_body =
  cb_IncidentID :: "string option"
  cb_Title :: string
  cb_Summary :: "string option"
  cb_Timeline :: "string option"
  cb_RootCause :: "string option"
  cb_Impact :: "string option"

definition CreatePostmortem :: "pm_env \<Rightarrow> create_body option \<Rightarrow> pm_store \<Rightarrow> pm_answer \<times> pm_store" where
  "CreatePostmortem env body st =
     (case body of
        None \<Rightarrow> (PError 400 ''title required'', st)
      | Some b \<Rightarrow>
          if cb_Title b = [] then (PError 400 ''title required'', st)
          else case pe_fault env 0 of
            Some e \<Rightarrow> (PError 500 e, st)
          | None \<Rightarrow>
              let row = \<lparr>pr_ID = pe_newid env, pr_TenantID = pe_tenant env, pr_IncidentID = cb_IncidentID b, pr_Title = cb_Title b, pr_Summary = cb_Summary b,
                   pr_Timeline = cb_Timeline b, pr_RootCause = cb_RootCause b, pr_Impact = cb_Impact b, pr_Status = ''draft'', pr_CreatedAt = pe_now env,
                   pr_UpdatedAt = pe_now env, pr_PublishedAt = None\<rparr>
              in (PPost 201 row, st\<lparr>ps_posts := ps_posts st @ [row]\<rparr>))"

definition ListPostmortems :: "pm_env \<Rightarrow> pm_store \<Rightarrow> pm_answer \<times> pm_store" where
  "ListPostmortems env st =
     (case pe_fault env 0 of
        Some e \<Rightarrow> (PError 500 e, st)
      | None \<Rightarrow> (PPosts (order_desc pr_CreatedAt (owned pr_TenantID (pe_tenant env) (ps_posts st))), st))"

definition post_of :: "pm_env \<Rightarrow> string \<Rightarrow> pm_store \<Rightarrow> postmortemRow option" where
  "post_of env i st = find (\<lambda>p. pr_ID p = i \<and> pr_TenantID p = pe_tenant env) (ps_posts st)"

definition GetPostmortem :: "pm_env \<Rightarrow> string \<Rightarrow> pm_store \<Rightarrow> pm_answer \<times> pm_store" where
  "GetPostmortem env i st =
     (case post_of env i st of
        Some p \<Rightarrow> (if pe_fault env 0 \<noteq> None then PError 404 ''postmortem not found'' else PPost 200 p, st)
      | None \<Rightarrow> (PError 404 ''postmortem not found'', st))"

record update_body =
  ub_Title :: "string option"
  ub_Summary :: "string option"
  ub_Timeline :: "string option"
  ub_RootCause :: "string option"
  ub_Impact :: "string option"
  ub_Status :: "string option"

definition COALESCE :: "'a option \<Rightarrow> 'a \<Rightarrow> 'a" where
  "COALESCE x y = (case x of Some v \<Rightarrow> v | None \<Rightarrow> y)"

definition COALESCE2 :: "'a option \<Rightarrow> 'a option \<Rightarrow> 'a option" where
  "COALESCE2 x y = (case x of Some v \<Rightarrow> Some v | None \<Rightarrow> y)"

definition apply_update :: "update_body \<Rightarrow> int \<Rightarrow> postmortemRow \<Rightarrow> postmortemRow" where
  "apply_update b now p = p\<lparr>pr_Title := COALESCE (ub_Title b) (pr_Title p), pr_Summary := COALESCE2 (ub_Summary b) (pr_Summary p),
     pr_Timeline := COALESCE2 (ub_Timeline b) (pr_Timeline p), pr_RootCause := COALESCE2 (ub_RootCause b) (pr_RootCause p),
     pr_Impact := COALESCE2 (ub_Impact b) (pr_Impact p), pr_Status := COALESCE (ub_Status b) (pr_Status p),
     pr_PublishedAt := (if COALESCE (ub_Status b) (pr_Status p) = ''published'' \<and> pr_PublishedAt p = None then Some now else pr_PublishedAt p),
     pr_UpdatedAt := now\<rparr>"

definition UpdatePostmortem :: "pm_env \<Rightarrow> string \<Rightarrow> update_body option \<Rightarrow> pm_store \<Rightarrow> pm_answer \<times> pm_store" where
  "UpdatePostmortem env i body st =
     (case body of
        None \<Rightarrow> (PError 400 ''invalid JSON'', st)
      | Some b \<Rightarrow>
          if ub_Status b \<noteq> None \<and> ub_Status b \<noteq> Some ''draft'' \<and> ub_Status b \<noteq> Some ''published'' then (PError 400 ''status must be draft or published'', st)
          else case post_of env i st of
            None \<Rightarrow> (PError 404 ''postmortem not found'', st)
          | Some p \<Rightarrow>
              if pe_fault env 0 \<noteq> None then (PError 404 ''postmortem not found'', st)
              else (PPost 200 (apply_update b (pe_now env) p),
                st\<lparr>ps_posts := update_where (\<lambda>p. pr_ID p = i \<and> pr_TenantID p = pe_tenant env) (apply_update b (pe_now env)) (ps_posts st)\<rparr>))"

record commitment_body =
  mb_Description :: string
  mb_DueDate :: "string option"
  mb_AlertRuleID :: "string option"
  mb_Status :: "string option"

definition CreatePostmortemCommitment :: "pm_env \<Rightarrow> string \<Rightarrow> commitment_body option \<Rightarrow> pm_store \<Rightarrow> pm_answer \<times> pm_store" where
  "CreatePostmortemCommitment env pmID body st =
     (case body of
        None \<Rightarrow> (PError 400 ''description required'', st)
      | Some b \<Rightarrow>
          if mb_Description b = [] then (PError 400 ''description required'', st)
          else if mb_Status b \<noteq> None \<and> mb_Status b \<noteq> Some ''open'' \<and> mb_Status b \<noteq> Some ''done'' then (PError 400 ''status must be open or done'', st)
          else if pe_fault env 0 \<noteq> None \<or> post_of env pmID st = None then (PError 404 ''postmortem not found'', st)
          else case pe_fault env 1 of
            Some e \<Rightarrow> (PError 500 e, st)
          | None \<Rightarrow>
              let row = \<lparr>cm_ID = pe_newid env, cm_TenantID = pe_tenant env, cm_PostmortemID = pmID, cm_Description = mb_Description b, cm_DueDate = mb_DueDate b,
                   cm_AlertRuleID = mb_AlertRuleID b, cm_Status = COALESCE (mb_Status b) ''open'', cm_CreatedAt = pe_now env\<rparr>
              in (PCommitment row, st\<lparr>ps_commitments := ps_commitments st @ [row]\<rparr>))"

definition ListPostmortemCommitments :: "pm_env \<Rightarrow> string \<Rightarrow> pm_store \<Rightarrow> pm_answer \<times> pm_store" where
  "ListPostmortemCommitments env pmID st =
     (case pe_fault env 0 of
        Some e \<Rightarrow> (PError 500 e, st)
      | None \<Rightarrow> (PCommitments (order_desc cm_CreatedAt (filter (\<lambda>c. cm_TenantID c = pe_tenant env \<and> cm_PostmortemID c = pmID) (ps_commitments st))), st))"

definition postmortemStr :: "string option \<Rightarrow> string" where
  "postmortemStr s = (case s of None \<Rightarrow> [] | Some v \<Rightarrow> v)"

definition postmortemToDomain :: "postmortemRow \<Rightarrow> Postmortem" where
  "postmortemToDomain p = \<lparr>pm_ID = pr_ID p, pm_TenantID = pr_TenantID p, pm_IncidentID = postmortemStr (pr_IncidentID p), pm_Title = pr_Title p,
     pm_Summary = postmortemStr (pr_Summary p), pm_Timeline = postmortemStr (pr_Timeline p), pm_RootCause = postmortemStr (pr_RootCause p),
     pm_Impact = postmortemStr (pr_Impact p), pm_Status = pr_Status p, pm_CreatedAt = pr_CreatedAt p, pm_UpdatedAt = pr_UpdatedAt p,
     pm_PublishedAt = pr_PublishedAt p\<rparr>"

definition postmortemLoadIncident :: "fault \<Rightarrow> string \<Rightarrow> string option \<Rightarrow> pm_store \<Rightarrow> IncidentMeta" where
  "postmortemLoadIncident f tenant incidentID st =
     (if incidentID = None \<or> incidentID = Some [] then zero_IncidentMeta
      else case find (\<lambda>i. Some (ic_id i) = incidentID \<and> ic_tenant i = tenant) (ps_incidents st) of
        Some i \<Rightarrow>
          if f \<noteq> None then zero_IncidentMeta
          else \<lparr>im_ID = ic_id i, im_Service = postmortemStr (ic_service i), im_Severity = postmortemStr (ic_severity i), im_Status = postmortemStr (ic_status i),
                im_FirstSeen = ic_first_seen i, im_ResolvedAt = ic_resolved_at i\<rparr>
      | None \<Rightarrow> zero_IncidentMeta)"

definition ExportPostmortemCERTIn :: "pm_env \<Rightarrow> string \<Rightarrow> pm_store \<Rightarrow> pm_answer \<times> pm_store" where
  "ExportPostmortemCERTIn env i st =
     (case post_of env i st of
        None \<Rightarrow> (PError 404 ''postmortem not found'', st)
      | Some p \<Rightarrow>
          if pe_fault env 0 \<noteq> None then (PError 404 ''postmortem not found'', st)
          else (PReport (BuildCERTInExport (postmortemToDomain p) (postmortemLoadIncident (pe_fault env 1) (pe_tenant env) (pr_IncidentID p) st)), st))"

datatype pm_op =
    PmCreate "create_body option"
  | PmList
  | PmGet string
  | PmUpdate string "update_body option"
  | PmCommit string "commitment_body option"
  | PmCommitments string
  | PmExport string

type_synonym pm_request = "pm_env \<times> pm_op"

definition pm_step :: "pm_request \<Rightarrow> pm_store \<Rightarrow> pm_answer \<times> pm_store" where
  "pm_step r = (case r of (env, op) \<Rightarrow>
     (case op of PmCreate b \<Rightarrow> CreatePostmortem env b | PmList \<Rightarrow> ListPostmortems env | PmGet i \<Rightarrow> GetPostmortem env i
      | PmUpdate i b \<Rightarrow> UpdatePostmortem env i b | PmCommit i b \<Rightarrow> CreatePostmortemCommitment env i b
      | PmCommitments i \<Rightarrow> ListPostmortemCommitments env i | PmExport i \<Rightarrow> ExportPostmortemCERTIn env i))"

definition pm_caller :: "pm_request \<Rightarrow> string" where
  "pm_caller r = pe_tenant (fst r)"

section \<open>Tenants\<close>

definition pm_view :: "string \<Rightarrow> pm_store \<Rightarrow> postmortemRow list \<times> postmortemCommitmentRow list \<times> incident_row list" where
  "pm_view t st = (owned pr_TenantID t (ps_posts st), owned cm_TenantID t (ps_commitments st), owned ic_tenant t (ps_incidents st))"

lemma apply_update_same [simp]: "pr_TenantID (apply_update b n p) = pr_TenantID p" "pr_ID (apply_update b n p) = pr_ID p"
  by (simp_all add: apply_update_def)

lemmas pm_defs = CreatePostmortem_def ListPostmortems_def GetPostmortem_def UpdatePostmortem_def CreatePostmortemCommitment_def
  ListPostmortemCommitments_def ExportPostmortemCERTIn_def Let_def

lemma post_of_owned: "post_of env i st = find (\<lambda>p. pr_ID p = i) (owned pr_TenantID (pe_tenant env) (ps_posts st))"
  by (simp add: post_of_def find_owned)

lemma load_owned: "postmortemLoadIncident f t i st = postmortemLoadIncident f t i (st\<lparr>ps_incidents := owned ic_tenant t (ps_incidents st)\<rparr>)"
  by (simp add: postmortemLoadIncident_def find_owned)

lemma load_cong: "ps_incidents st = ps_incidents st' \<Longrightarrow> postmortemLoadIncident f t i st = postmortemLoadIncident f t i st'"
  by (simp add: postmortemLoadIncident_def)

interpretation pm: tenant_service pm_step pm_caller pm_view "\<lambda>_. True"
proof (unfold_locales, goal_cases)
  case (2 st r t)
  obtain env op where r: "r = (env, op)" by force
  from 2(2) show ?case
    by (cases op) (auto simp: r pm_caller_def pm_step_def pm_defs pm_view_def tenant_rows split: option.split)
next
  case (3 st st' r)
  obtain env op where r: "r = (env, op)" by force
  let ?t = "pe_tenant env"
  have v: "owned pr_TenantID ?t (ps_posts st) = owned pr_TenantID ?t (ps_posts st')" "owned cm_TenantID ?t (ps_commitments st) = owned cm_TenantID ?t (ps_commitments st')"
    "owned ic_tenant ?t (ps_incidents st) = owned ic_tenant ?t (ps_incidents st')"
    using 3(3) by (simp_all add: r pm_caller_def pm_view_def)
  have l: "postmortemLoadIncident f ?t i st = postmortemLoadIncident f ?t i st'" for f i
    using load_owned[of f ?t i st] load_owned[of f ?t i st'] v(3)
      load_cong[of "st\<lparr>ps_incidents := owned ic_tenant ?t (ps_incidents st)\<rparr>" "st'\<lparr>ps_incidents := owned ic_tenant ?t (ps_incidents st')\<rparr>"] by simp
  show ?case
    using v l by (cases op) (auto simp: r pm_caller_def pm_step_def pm_defs pm_view_def post_of_owned tenant_rows split: option.split)
qed simp

section \<open>Publication\<close>

definition pm_inv :: "pm_store \<Rightarrow> bool" where
  "pm_inv st \<longleftrightarrow> (\<forall>p \<in> set (ps_posts st). pr_Status p \<in> {''draft'', ''published''} \<and> (pr_Status p = ''published'' \<longrightarrow> pr_PublishedAt p \<noteq> None))"

definition post_keeps :: "postmortemRow \<Rightarrow> postmortemRow \<Rightarrow> bool" where
  "post_keeps p p' \<longleftrightarrow> pr_ID p' = pr_ID p \<and> pr_TenantID p' = pr_TenantID p \<and> pr_IncidentID p' = pr_IncidentID p \<and> pr_CreatedAt p' = pr_CreatedAt p \<and>
     (pr_PublishedAt p \<noteq> None \<longrightarrow> pr_PublishedAt p' = pr_PublishedAt p)"

lemma post_keeps_refl: "post_keeps p p"
  by (simp add: post_keeps_def)

lemma post_keeps_trans: "post_keeps p q \<Longrightarrow> post_keeps q r \<Longrightarrow> post_keeps p r"
  unfolding post_keeps_def by metis

lemma apply_update_keeps: "post_keeps p (apply_update b n p)"
  by (auto simp: post_keeps_def apply_update_def)

lemma apply_update_inv:
  assumes "pr_Status p \<in> {''draft'', ''published''} \<and> (pr_Status p = ''published'' \<longrightarrow> pr_PublishedAt p \<noteq> None)"
    "ub_Status b = None \<or> ub_Status b = Some ''draft'' \<or> ub_Status b = Some ''published''"
  shows "pr_Status (apply_update b n p) \<in> {''draft'', ''published''} \<and> (pr_Status (apply_update b n p) = ''published'' \<longrightarrow> pr_PublishedAt (apply_update b n p) \<noteq> None)"
  using assms by (auto simp: apply_update_def COALESCE_def split: option.splits)

lemma step_posts:
  "ps_posts (snd (pm_step r st)) = ps_posts st \<or>
   (\<exists>row. ps_posts (snd (pm_step r st)) = ps_posts st @ [row] \<and> pr_Status row = ''draft'') \<or>
   (\<exists>P b n. ps_posts (snd (pm_step r st)) = update_where P (apply_update b n) (ps_posts st) \<and>
      (ub_Status b = None \<or> ub_Status b = Some ''draft'' \<or> ub_Status b = Some ''published''))"
proof -
  obtain env op where r: "r = (env, op)" by force
  show ?thesis
  proof (cases op)
    case (PmUpdate i b)
    show ?thesis
    proof (cases "ps_posts (snd (pm_step r st)) = ps_posts st")
      case False
      then obtain u where "b = Some u" "ub_Status u = None \<or> ub_Status u = Some ''draft'' \<or> ub_Status u = Some ''published''"
          "ps_posts (snd (pm_step r st)) = update_where (\<lambda>p. pr_ID p = i \<and> pr_TenantID p = pe_tenant env) (apply_update u (pe_now env)) (ps_posts st)"
        by (auto simp: r PmUpdate pm_step_def UpdatePostmortem_def split: option.splits if_splits)
      then show ?thesis by blast
    qed simp
  qed (auto simp: r pm_step_def pm_defs split: option.split)
qed

definition post_ok :: "postmortemRow \<Rightarrow> bool" where
  "post_ok p \<longleftrightarrow> pr_Status p \<in> {''draft'', ''published''} \<and> (pr_Status p = ''published'' \<longrightarrow> pr_PublishedAt p \<noteq> None)"

lemma update_keeps_posts:
  assumes "\<forall>p \<in> set posts. post_ok p" "ub_Status b = None \<or> ub_Status b = Some ''draft'' \<or> ub_Status b = Some ''published''"
  shows "(\<forall>p \<in> set (update_where P (apply_update b n) posts). post_ok p) \<and>
    (\<forall>p \<in> set posts. \<exists>p' \<in> set (update_where P (apply_update b n) posts). post_keeps p p')"
proof (intro conjI ballI)
  fix p assume "p \<in> set (update_where P (apply_update b n) posts)"
  then obtain q where "q \<in> set posts" "p = (if P q then apply_update b n q else q)" unfolding set_update_where by blast
  then show "post_ok p" using assms(1) apply_update_inv[OF _ assms(2)] by (cases "P q") (simp_all add: post_ok_def)
next
  fix p assume "p \<in> set posts"
  then show "\<exists>p' \<in> set (update_where P (apply_update b n) posts). post_keeps p p'"
    by (intro bexI[of _ "if P p then apply_update b n p else p"]) (auto simp: post_keeps_refl apply_update_keeps update_where_def)
qed

lemma step_keeps_posts:
  assumes "pm_inv st"
  shows "pm_inv (snd (pm_step r st)) \<and> (\<forall>p \<in> set (ps_posts st). \<exists>p' \<in> set (ps_posts (snd (pm_step r st))). post_keeps p p')"
proof -
  have ok: "\<forall>p \<in> set (ps_posts st). post_ok p" using assms by (simp add: pm_inv_def post_ok_def)
  have inv: "pm_inv st' \<longleftrightarrow> (\<forall>p \<in> set (ps_posts st'). post_ok p)" for st' by (simp add: pm_inv_def post_ok_def)
  from step_posts[of r st] show ?thesis
  proof (elim disjE[of "_ = ps_posts st"] disjE[of "\<exists>row. _ row"] exE conjE)
    assume "ps_posts (snd (pm_step r st)) = ps_posts st"
    then show ?thesis using ok post_keeps_refl by (auto simp: inv)
  next
    fix row assume "ps_posts (snd (pm_step r st)) = ps_posts st @ [row]" "pr_Status row = ''draft''"
    then show ?thesis using ok post_keeps_refl by (auto simp: inv post_ok_def)
  next
    fix P b n assume p: "ps_posts (snd (pm_step r st)) = update_where P (apply_update b n) (ps_posts st)"
      and b: "ub_Status b = None \<or> ub_Status b = Some ''draft'' \<or> ub_Status b = Some ''published''"
    show ?thesis unfolding inv p by (rule update_keeps_posts[OF ok b])
  qed
qed

lemma serve_keeps_posts:
  "pm_inv st \<Longrightarrow> pm_inv (snd (serve pm_step rs st)) \<and> (\<forall>p \<in> set (ps_posts st). \<exists>p' \<in> set (ps_posts (snd (serve pm_step rs st))). post_keeps p p')"
proof (induction rs arbitrary: st)
  case (Cons r rs)
  note s = step_keeps_posts[OF Cons.prems, of r]
  have i: "pm_inv (snd (pm_step r st))" using s by blast
  show ?case using s Cons.IH[OF i] post_keeps_trans by (simp add: case_prod_beta) blast
next
  case Nil
  then show ?case using post_keeps_refl by (simp only: serve.simps snd_conv) blast
qed

section \<open>Properties\<close>

definition demo_env :: "string \<Rightarrow> string \<Rightarrow> int \<Rightarrow> pm_env" where
  "demo_env tenant newid now = \<lparr>pe_tenant = tenant, pe_fault = (\<lambda>_. None), pe_newid = newid, pe_now = now\<rparr>"

definition demo_post :: postmortemRow where
  "demo_post = \<lparr>pr_ID = ''p1'', pr_TenantID = ''acme'', pr_IncidentID = None, pr_Title = ''outage'', pr_Summary = None, pr_Timeline = None, pr_RootCause = None,
     pr_Impact = None, pr_Status = ''published'', pr_CreatedAt = 1, pr_UpdatedAt = 2, pr_PublishedAt = Some 2\<rparr>"

definition demo_store :: pm_store where
  "demo_store = \<lparr>ps_posts = [demo_post], ps_commitments = [], ps_incidents = []\<rparr>"

definition demo_update :: "string \<Rightarrow> update_body option" where
  "demo_update status = Some \<lparr>ub_Title = None, ub_Summary = None, ub_Timeline = None, ub_RootCause = None, ub_Impact = None, ub_Status = Some status\<rparr>"

definition demo_requests :: "pm_request list" where
  "demo_requests = [(demo_env ''acme'' ''x'' 3, PmUpdate ''p1'' (demo_update ''draft'')), (demo_env ''acme'' ''x'' 4, PmUpdate ''p1'' (demo_update ''published''))]"

text \<open>
  Over any sequence of requests a published postmortem has a publication time, that time is set once
  and never changes, also when the postmortem goes back to draft and is published again, and its owner,
  incident and creation time stay what they were.
\<close>

theorem publication_stamped_once:
  assumes "pm_inv st"
  shows "pm_inv (snd (serve pm_step rs st)) \<and> (\<forall>p \<in> set (ps_posts st). \<exists>p' \<in> set (ps_posts (snd (serve pm_step rs st))). post_keeps p p')"
  using serve_keeps_posts[OF assms] .

theorem publication_stamped_once_witness:
  "\<exists>p' \<in> set (ps_posts (snd (serve pm_step demo_requests demo_store))). post_keeps demo_post p' \<and> pr_PublishedAt p' = Some 2"
proof -
  have "pm_inv demo_store" by code_simp
  from publication_stamped_once[OF this, of demo_requests]
  obtain p' where "p' \<in> set (ps_posts (snd (serve pm_step demo_requests demo_store)))" "post_keeps demo_post p'" by (auto simp: demo_store_def)
  then show ?thesis by (intro bexI[of _ p']) (auto simp: post_keeps_def demo_post_def)
qed

text \<open>The longest duration has \<open>2562047\<close> whole hours, so every step is exact enough to be monotone.\<close>

lemma Hours_range:
  assumes "0 \<le> d" "d \<le> int64_max"
  shows "d div (3600 * 10 ^ 9) \<le> 2562047"
  using assms by (simp add: int64_max_def)

lemma Hours_bound:
  assumes "0 \<le> d" "d \<le> int64_max"
  shows "is_finite (Hours d) \<and> 0 \<le> f_val (Hours d) \<and> f_val (Hours d) \<le> 2562048"
proof -
  have "0 < (3600 * 10 ^ 9 :: int) \<and> 3600 * 10 ^ 9 < (2 ^ 53 :: int)" by simp
  moreover have "d div (3600 * 10 ^ 9) + 1 < 2 ^ 53" using Hours_range[OF assms] by simp
  ultimately have b: "is_finite (Hours d) \<and> 0 \<le> f_val (Hours d) \<and> f_val (Hours d) \<le> of_int (d div (3600 * 10 ^ 9) + 1)"
    unfolding Hours_def using duration_bound[of "3600 * 10 ^ 9" d] assms(1) by blast
  have "of_int (d div (3600 * 10 ^ 9) + 1) \<le> (of_int 2562048 :: rat)" using Hours_range[OF assms] by (simp only: of_int_le_iff)
  then show ?thesis using b by simp
qed

lemma round_hours_mono:
  assumes "0 \<le> a" "a \<le> b" "b \<le> int64_max"
  shows "fle (round_to 100 (Hours a)) (round_to 100 (Hours b))"
proof -
  have "b div (3600 * 10 ^ 9) < 2 ^ 53" using Hours_range[of b] assms by simp
  then have "fle (Hours a) (Hours b)" unfolding Hours_def using assms by (intro duration_mono) simp_all
  then show ?thesis using Hours_bound[of a] Hours_bound[of b] assms by (intro round_to_mono[where B = 2562048]) simp_all
qed

lemma round_hours_nonneg: "0 \<le> b \<Longrightarrow> b \<le> int64_max \<Longrightarrow> fle (Zero False) (round_to 100 (Hours b))"
proof -
  assume "0 \<le> b" "b \<le> int64_max"
  from round_hours_mono[OF order_refl this] have "fle (round_to 100 (Hours 0)) (round_to 100 (Hours b))" .
  moreover have "round_to 100 (Hours 0) = Zero False" by code_simp
  ultimately show ?thesis by simp
qed

text \<open>
  Reporting later never shows fewer hours on the CERT-In report: the hours computed in \<open>float64\<close> and
  rounded to two decimals are monotone in the time of the report.
\<close>

theorem reportedWithinHours_mono:
  assumes "r1 \<le> r2" "\<not> IsZero r2"
  shows "fle (reportedWithinHours detected r1) (reportedWithinHours detected r2)"
proof (cases "IsZero detected \<or> \<not> detected < r2")
  case True
  then show ?thesis using assms by (auto simp: reportedWithinHours_def)
next
  case False
  then have d: "detected < r2" "\<not> IsZero detected" by simp_all
  have sub: "0 \<le> time_Sub r detected" "time_Sub r detected \<le> int64_max" if "detected < r" for r
    using that by (simp_all add: time_Sub_def int64_max_def int64_min_def)
  have "time_Sub r1 detected \<le> time_Sub r2 detected" using assms(1) by (simp add: time_Sub_def)
  then show ?thesis using d assms(2) sub[of r1] sub[of r2] round_hours_mono[of "time_Sub r1 detected" "time_Sub r2 detected"] round_hours_nonneg[of "time_Sub r2 detected"]
    by (auto simp: reportedWithinHours_def)
qed

theorem reportedWithinHours_mono_witness:
  "fle (reportedWithinHours 0 (10 ^ 9 * 3600)) (reportedWithinHours 0 (10 ^ 9 * 7200)) \<and> reportedWithinHours 0 (10 ^ 9 * 7200) = Fin 2"
proof
  have "\<not> IsZero (10 ^ 9 * 7200)" by code_simp
  then show "fle (reportedWithinHours 0 (10 ^ 9 * 3600)) (reportedWithinHours 0 (10 ^ 9 * 7200))"
    using reportedWithinHours_mono[of "10 ^ 9 * 3600" "10 ^ 9 * 7200" 0] by simp
qed code_simp

text \<open>A report seventeen seconds after the six-hour limit reads 6.00: the rounding hides a delay of up to eighteen seconds.\<close>

lemma late_report_reads_six: "reportedWithinHours 0 ((6 * 3600 + 17) * 10 ^ 9) = Fin 6"
  by code_simp

end
