(* ===== verification/Admin_Tables.thy ===== *)
theory Admin_Tables
  imports Go_Float Tenant_Store
begin

text \<open>
  The admin handlers over one table each: alert rules, saved searches, dashboards with their share
  links, and webhook endpoints (\<open>platform/api/handler/alerts.go\<close>, \<open>saved_searches.go\<close>, \<open>dashboards.go\<close>,
  \<open>dashboard_share.go\<close>, \<open>webhooks.go\<close>). A JSON value that is only stored and returned is its text; a
  request body that does not decode is \<open>None\<close>.
\<close>

section \<open>Tables\<close>

record alertRuleRow =
  ar_ID :: string
  ar_TenantID :: string
  ar_Name :: string
  ar_Kind :: string
  ar_Service :: "string option"
  ar_Condition :: "string option"
  ar_Threshold :: "f64 option"
  ar_WindowSeconds :: int
  ar_Channels :: string
  ar_Enabled :: bool
  ar_CreatedAt :: int

record savedSearchRow =
  sv_ID :: string
  sv_TenantID :: string
  sv_Name :: string
  sv_QueryText :: string
  sv_CreatedBy :: "string option"
  sv_CreatedAt :: int

record dashboardRow =
  db_ID :: string
  db_TenantID :: string
  db_Name :: string
  db_Panels :: string
  db_CreatedBy :: "string option"
  db_CreatedAt :: int
  db_UpdatedAt :: int

record dashboard_row = dashboardRow +
  db_ShareToken :: "string option"

record webhook_row =
  wh_ID :: string
  wh_TenantID :: string
  wh_URL :: string
  wh_Secret :: string
  wh_Events :: "string list"
  wh_Active :: bool
  wh_Description :: string
  wh_CreatedAt :: int

record webhookView =
  wv_ID :: string
  wv_URL :: string
  wv_Events :: "string list"
  wv_Active :: bool
  wv_Description :: string
  wv_HasSecret :: bool
  wv_CreatedAt :: int

record admin_store =
  as_rules :: "alertRuleRow list"
  as_searches :: "savedSearchRow list"
  as_dashboards :: "dashboard_row list"
  as_webhooks :: "webhook_row list"

record admin_env =
  ae_tenant :: string
  ae_fault :: "nat \<Rightarrow> fault"
  ae_newid :: string
  ae_now :: int
  ae_random :: string

datatype admin_answer =
    AError int string
  | ANoContent
  | ARules "alertRuleRow list"
  | ARule alertRuleRow
  | ASearches "savedSearchRow list"
  | ASearch savedSearchRow
  | ADashboards "dashboardRow list"
  | ADashboard int dashboardRow
  | AShared string string
  | AWebhooks nat "webhookView list"
  | AWebhook string string "string list"

section \<open>Alert rules\<close>

record rule_body =
  rb_Name :: string
  rb_Kind :: string
  rb_Service :: "string option"
  rb_Condition :: "string option"
  rb_Threshold :: "f64 option"
  rb_WindowSeconds :: int
  rb_Channels :: string

definition ListAlertRules :: "admin_env \<Rightarrow> admin_store \<Rightarrow> admin_answer \<times> admin_store" where
  "ListAlertRules env st =
     (case ae_fault env 0 of Some e \<Rightarrow> (AError 500 e, st)
      | None \<Rightarrow> (ARules (order_desc ar_CreatedAt (owned ar_TenantID (ae_tenant env) (as_rules st))), st))"

definition CreateAlertRule :: "admin_env \<Rightarrow> rule_body option \<Rightarrow> admin_store \<Rightarrow> admin_answer \<times> admin_store" where
  "CreateAlertRule env body st =
     (case body of
        None \<Rightarrow> (AError 400 ''invalid JSON'', st)
      | Some b \<Rightarrow>
          if rb_Name b = [] \<or> (rb_Kind b \<noteq> ''threshold'' \<and> rb_Kind b \<noteq> ''absence'') then (AError 400 ''name and kind (threshold|absence) required'', st)
          else case ae_fault env 0 of
            Some e \<Rightarrow> (AError 500 e, st)
          | None \<Rightarrow>
              let row = \<lparr>ar_ID = ae_newid env, ar_TenantID = ae_tenant env, ar_Name = rb_Name b, ar_Kind = rb_Kind b, ar_Service = rb_Service b,
                   ar_Condition = rb_Condition b, ar_Threshold = rb_Threshold b, ar_WindowSeconds = (if rb_WindowSeconds b \<le> 0 then 300 else rb_WindowSeconds b),
                   ar_Channels = rb_Channels b, ar_Enabled = True, ar_CreatedAt = ae_now env\<rparr>
              in (ARule row, st\<lparr>as_rules := as_rules st @ [row]\<rparr>))"

definition DeleteAlertRule :: "admin_env \<Rightarrow> string \<Rightarrow> admin_store \<Rightarrow> admin_answer \<times> admin_store" where
  "DeleteAlertRule env i st =
     (case ae_fault env 0 of
        Some e \<Rightarrow> (AError 500 e, st)
      | None \<Rightarrow>
          if \<not> list_ex (\<lambda>r. ar_ID r = i \<and> ar_TenantID r = ae_tenant env) (as_rules st) then (AError 404 ''rule not found'', st)
          else (ANoContent, st\<lparr>as_rules := delete_where (\<lambda>r. ar_ID r = i \<and> ar_TenantID r = ae_tenant env) (as_rules st)\<rparr>))"

section \<open>Saved searches\<close>

definition text_or_null :: "string \<Rightarrow> string option" where
  "text_or_null s = (if s = [] then None else Some s)"

definition ListSavedSearches :: "admin_env \<Rightarrow> admin_store \<Rightarrow> admin_answer \<times> admin_store" where
  "ListSavedSearches env st =
     (case ae_fault env 0 of Some e \<Rightarrow> (AError 500 e, st)
      | None \<Rightarrow> (ASearches (order_desc sv_CreatedAt (owned sv_TenantID (ae_tenant env) (as_searches st))), st))"

text \<open>The body is name, query text and creator.\<close>

definition CreateSavedSearch :: "admin_env \<Rightarrow> (string \<times> string \<times> string) option \<Rightarrow> admin_store \<Rightarrow> admin_answer \<times> admin_store" where
  "CreateSavedSearch env body st =
     (case body of
        None \<Rightarrow> (AError 400 ''invalid JSON'', st)
      | Some (name, q, by') \<Rightarrow>
          if name = [] \<or> q = [] then (AError 400 ''name and query_text required'', st)
          else case ae_fault env 0 of
            Some e \<Rightarrow> (AError 500 e, st)
          | None \<Rightarrow>
              let row = \<lparr>sv_ID = ae_newid env, sv_TenantID = ae_tenant env, sv_Name = name, sv_QueryText = q, sv_CreatedBy = text_or_null by', sv_CreatedAt = ae_now env\<rparr>
              in (ASearch row, st\<lparr>as_searches := as_searches st @ [row]\<rparr>))"

definition DeleteSavedSearch :: "admin_env \<Rightarrow> string \<Rightarrow> admin_store \<Rightarrow> admin_answer \<times> admin_store" where
  "DeleteSavedSearch env i st =
     (case ae_fault env 0 of
        Some e \<Rightarrow> (AError 500 e, st)
      | None \<Rightarrow>
          if \<not> list_ex (\<lambda>r. sv_ID r = i \<and> sv_TenantID r = ae_tenant env) (as_searches st) then (AError 404 ''saved search not found'', st)
          else (ANoContent, st\<lparr>as_searches := delete_where (\<lambda>r. sv_ID r = i \<and> sv_TenantID r = ae_tenant env) (as_searches st)\<rparr>))"

section \<open>Dashboards\<close>

text \<open>\<open>scanDashboard\<close>: the columns a read returns, without the share token.\<close>

definition scanDashboard :: "dashboard_row \<Rightarrow> dashboardRow" where
  "scanDashboard d = dashboardRow.truncate d"

definition panels_json :: "string \<Rightarrow> string" where
  "panels_json p = (if p = [] \<or> p = ''null'' then ''[]'' else p)"

definition dash_of :: "admin_env \<Rightarrow> string \<Rightarrow> dashboard_row \<Rightarrow> bool" where
  "dash_of env i d \<longleftrightarrow> db_ID d = i \<and> db_TenantID d = ae_tenant env"

definition ListDashboards :: "admin_env \<Rightarrow> admin_store \<Rightarrow> admin_answer \<times> admin_store" where
  "ListDashboards env st =
     (case ae_fault env 0 of Some e \<Rightarrow> (AError 500 e, st)
      | None \<Rightarrow> (ADashboards (map scanDashboard (order_desc db_CreatedAt (owned db_TenantID (ae_tenant env) (as_dashboards st)))), st))"

definition GetDashboard :: "admin_env \<Rightarrow> string \<Rightarrow> admin_store \<Rightarrow> admin_answer \<times> admin_store" where
  "GetDashboard env i st =
     (case find (dash_of env i) (as_dashboards st) of
        Some d \<Rightarrow> (if ae_fault env 0 \<noteq> None then AError 404 ''dashboard not found'' else ADashboard 200 (scanDashboard d), st)
      | None \<Rightarrow> (AError 404 ''dashboard not found'', st))"

text \<open>The body is name, marshalled panels and creator.\<close>

definition CreateDashboard :: "admin_env \<Rightarrow> (string \<times> string \<times> string) option \<Rightarrow> admin_store \<Rightarrow> admin_answer \<times> admin_store" where
  "CreateDashboard env body st =
     (case body of
        None \<Rightarrow> (AError 400 ''name required'', st)
      | Some (name, panels, by') \<Rightarrow>
          if name = [] then (AError 400 ''name required'', st)
          else case ae_fault env 0 of
            Some e \<Rightarrow> (AError 500 e, st)
          | None \<Rightarrow>
              let row = \<lparr>db_ID = ae_newid env, db_TenantID = ae_tenant env, db_Name = name, db_Panels = panels_json panels, db_CreatedBy = text_or_null by',
                   db_CreatedAt = ae_now env, db_UpdatedAt = ae_now env, db_ShareToken = None\<rparr>
              in (ADashboard 201 (scanDashboard row), st\<lparr>as_dashboards := as_dashboards st @ [row]\<rparr>))"

definition set_panels :: "string \<Rightarrow> string \<Rightarrow> int \<Rightarrow> dashboard_row \<Rightarrow> dashboard_row" where
  "set_panels name panels now d = d\<lparr>db_Name := name, db_Panels := panels_json panels, db_UpdatedAt := now\<rparr>"

definition UpdateDashboard :: "admin_env \<Rightarrow> string \<Rightarrow> (string \<times> string) option \<Rightarrow> admin_store \<Rightarrow> admin_answer \<times> admin_store" where
  "UpdateDashboard env i body st =
     (case body of
        None \<Rightarrow> (AError 400 ''invalid JSON'', st)
      | Some (name, panels) \<Rightarrow>
          (case find (dash_of env i) (as_dashboards st) of
             None \<Rightarrow> (AError 404 ''dashboard not found'', st)
           | Some d \<Rightarrow>
               if ae_fault env 0 \<noteq> None then (AError 404 ''dashboard not found'', st)
               else (ADashboard 200 (scanDashboard (set_panels name panels (ae_now env) d)),
                 st\<lparr>as_dashboards := update_where (dash_of env i) (set_panels name panels (ae_now env)) (as_dashboards st)\<rparr>)))"

definition DeleteDashboard :: "admin_env \<Rightarrow> string \<Rightarrow> admin_store \<Rightarrow> admin_answer \<times> admin_store" where
  "DeleteDashboard env i st =
     (case ae_fault env 0 of
        Some e \<Rightarrow> (AError 500 e, st)
      | None \<Rightarrow>
          if \<not> list_ex (dash_of env i) (as_dashboards st) then (AError 404 ''dashboard not found'', st)
          else (ANoContent, st\<lparr>as_dashboards := delete_where (dash_of env i) (as_dashboards st)\<rparr>))"

text \<open>The second statement may fail on a token that exists already: such a failure is one of the request's faults.\<close>

definition ShareDashboard :: "admin_env \<Rightarrow> string \<Rightarrow> admin_store \<Rightarrow> admin_answer \<times> admin_store" where
  "ShareDashboard env i st =
     (case ae_fault env 0 of
        Some e \<Rightarrow> (AError 500 e, st)
      | None \<Rightarrow>
          (case find (dash_of env i) (as_dashboards st) of
             None \<Rightarrow> (AError 404 ''dashboard not found'', st)
           | Some d \<Rightarrow>
               let token = (case db_ShareToken d of Some t \<Rightarrow> t | None \<Rightarrow> []) in
               if token \<noteq> [] then (AShared token (''/shared/dashboards/'' @ token), st)
               else let token = ''dsh_'' @ ae_random env in
                 case ae_fault env 1 of
                   Some e \<Rightarrow> (AError 500 e, st)
                 | None \<Rightarrow> (AShared token (''/shared/dashboards/'' @ token),
                     st\<lparr>as_dashboards := update_where (dash_of env i) (\<lambda>d. d\<lparr>db_ShareToken := Some token\<rparr>) (as_dashboards st)\<rparr>)))"

text \<open>The public read: name and panels of the dashboard with the token; no identity is involved.\<close>

definition GetSharedDashboard :: "fault \<Rightarrow> string \<Rightarrow> admin_store \<Rightarrow> (string \<times> string) http_answer" where
  "GetSharedDashboard f token st =
     (case f of
        Some e \<Rightarrow> Error 500 e
      | None \<Rightarrow>
          (case find (\<lambda>d. db_ShareToken d = Some token) (as_dashboards st) of
             None \<Rightarrow> Error 404 ''not found''
           | Some d \<Rightarrow> Answer 200 (db_Name d, db_Panels d)))"

section \<open>Webhook endpoints\<close>

text \<open>The body is URL, events, secret and description.\<close>

definition CreateWebhook :: "admin_env \<Rightarrow> (string \<times> string list \<times> string \<times> string) option \<Rightarrow> admin_store \<Rightarrow> admin_answer \<times> admin_store" where
  "CreateWebhook env body st =
     (case body of
        None \<Rightarrow> (AError 400 ''invalid JSON body'', st)
      | Some (url, events, secret, descr) \<Rightarrow>
          if url = [] then (AError 400 ''url is required'', st)
          else case ae_fault env 0 of
            Some e \<Rightarrow> (AError 500 e, st)
          | None \<Rightarrow> (AWebhook (ae_newid env) url events,
              st\<lparr>as_webhooks := as_webhooks st @ [\<lparr>wh_ID = ae_newid env, wh_TenantID = ae_tenant env, wh_URL = url, wh_Secret = secret, wh_Events = events,
                   wh_Active = True, wh_Description = descr, wh_CreatedAt = ae_now env\<rparr>]\<rparr>))"

definition webhook_view :: "webhook_row \<Rightarrow> webhookView" where
  "webhook_view w = \<lparr>wv_ID = wh_ID w, wv_URL = wh_URL w, wv_Events = wh_Events w, wv_Active = wh_Active w, wv_Description = wh_Description w,
     wv_HasSecret = (wh_Secret w \<noteq> []), wv_CreatedAt = wh_CreatedAt w\<rparr>"

definition ListWebhooks :: "admin_env \<Rightarrow> admin_store \<Rightarrow> admin_answer \<times> admin_store" where
  "ListWebhooks env st =
     (case ae_fault env 0 of
        Some e \<Rightarrow> (AError 500 e, st)
      | None \<Rightarrow> let out = map webhook_view (order_desc wh_CreatedAt (owned wh_TenantID (ae_tenant env) (as_webhooks st))) in (AWebhooks (length out) out, st))"

definition DeleteWebhook :: "admin_env \<Rightarrow> string \<Rightarrow> admin_store \<Rightarrow> admin_answer \<times> admin_store" where
  "DeleteWebhook env i st =
     (case ae_fault env 0 of
        Some e \<Rightarrow> (AError 500 e, st)
      | None \<Rightarrow>
          if \<not> list_ex (\<lambda>w. wh_ID w = i \<and> wh_TenantID w = ae_tenant env) (as_webhooks st) then (AError 404 ''webhook not found'', st)
          else (ANoContent, st\<lparr>as_webhooks := delete_where (\<lambda>w. wh_ID w = i \<and> wh_TenantID w = ae_tenant env) (as_webhooks st)\<rparr>))"

datatype admin_op =
    RuleList | RuleCreate "rule_body option" | RuleDelete string
  | SearchList | SearchCreate "(string \<times> string \<times> string) option" | SearchDelete string
  | DashList | DashGet string | DashCreate "(string \<times> string \<times> string) option" | DashUpdate string "(string \<times> string) option" | DashDelete string | DashShare string
  | HookCreate "(string \<times> string list \<times> string \<times> string) option" | HookList | HookDelete string

type_synonym admin_request = "admin_env \<times> admin_op"

definition admin_step :: "admin_request \<Rightarrow> admin_store \<Rightarrow> admin_answer \<times> admin_store" where
  "admin_step r = (case r of (env, op) \<Rightarrow>
     (case op of RuleList \<Rightarrow> ListAlertRules env | RuleCreate b \<Rightarrow> CreateAlertRule env b | RuleDelete i \<Rightarrow> DeleteAlertRule env i
      | SearchList \<Rightarrow> ListSavedSearches env | SearchCreate b \<Rightarrow> CreateSavedSearch env b | SearchDelete i \<Rightarrow> DeleteSavedSearch env i
      | DashList \<Rightarrow> ListDashboards env | DashGet i \<Rightarrow> GetDashboard env i | DashCreate b \<Rightarrow> CreateDashboard env b | DashUpdate i b \<Rightarrow> UpdateDashboard env i b
      | DashDelete i \<Rightarrow> DeleteDashboard env i | DashShare i \<Rightarrow> ShareDashboard env i
      | HookCreate b \<Rightarrow> CreateWebhook env b | HookList \<Rightarrow> ListWebhooks env | HookDelete i \<Rightarrow> DeleteWebhook env i))"

definition admin_caller :: "admin_request \<Rightarrow> string" where
  "admin_caller r = ae_tenant (fst r)"

section \<open>Tenants\<close>

definition admin_view :: "string \<Rightarrow> admin_store \<Rightarrow> alertRuleRow list \<times> savedSearchRow list \<times> dashboard_row list \<times> webhook_row list" where
  "admin_view t st = (owned ar_TenantID t (as_rules st), owned sv_TenantID t (as_searches st), owned db_TenantID t (as_dashboards st), owned wh_TenantID t (as_webhooks st))"

lemma set_panels_tenant [simp]: "db_TenantID (set_panels n p t d) = db_TenantID d" "db_ShareToken (set_panels n p t d) = db_ShareToken d" "db_ID (set_panels n p t d) = db_ID d"
  by (simp_all add: set_panels_def)

lemma dash_owned:
  "find (dash_of env i) ds = find (\<lambda>d. db_ID d = i) (owned db_TenantID (ae_tenant env) ds)"
  "list_ex (dash_of env i) ds = list_ex (\<lambda>d. db_ID d = i) (owned db_TenantID (ae_tenant env) ds)"
  by (simp_all add: dash_of_def[abs_def] tenant_rows)

lemma dash_update:
  "(\<And>d. db_TenantID (f d) = db_TenantID d) \<Longrightarrow> owned db_TenantID t (update_where (dash_of env i) f ds) =
     (if t = ae_tenant env then update_where (\<lambda>d. db_ID d = i) f (owned db_TenantID t ds) else owned db_TenantID t ds)"
  "owned db_TenantID t (delete_where (dash_of env i) ds) =
     (if t = ae_tenant env then delete_where (\<lambda>d. db_ID d = i) (owned db_TenantID t ds) else owned db_TenantID t ds)"
  by (simp_all add: dash_of_def[abs_def] tenant_rows)

lemmas admin_defs = ListAlertRules_def CreateAlertRule_def DeleteAlertRule_def ListSavedSearches_def CreateSavedSearch_def DeleteSavedSearch_def
  ListDashboards_def GetDashboard_def CreateDashboard_def UpdateDashboard_def DeleteDashboard_def ShareDashboard_def
  CreateWebhook_def ListWebhooks_def DeleteWebhook_def Let_def

interpretation admin: tenant_service admin_step admin_caller admin_view "\<lambda>_. True"
proof (unfold_locales, goal_cases)
  case (2 st r t)
  obtain env op where r: "r = (env, op)" by force
  from 2(2) show ?case
    by (cases op) (auto simp: r admin_caller_def admin_step_def admin_defs admin_view_def dash_owned dash_update tenant_rows split: option.split prod.split)
next
  case (3 st st' r)
  obtain env op where r: "r = (env, op)" by force
  let ?t = "ae_tenant env"
  have v: "owned ar_TenantID ?t (as_rules st) = owned ar_TenantID ?t (as_rules st')" "owned sv_TenantID ?t (as_searches st) = owned sv_TenantID ?t (as_searches st')"
    "owned db_TenantID ?t (as_dashboards st) = owned db_TenantID ?t (as_dashboards st')" "owned wh_TenantID ?t (as_webhooks st) = owned wh_TenantID ?t (as_webhooks st')"
    using 3(3) by (simp_all add: r admin_caller_def admin_view_def)
  show ?case
    using v by (cases op) (auto simp: r admin_caller_def admin_step_def admin_defs admin_view_def dash_owned dash_update tenant_rows split: option.split prod.split)
qed simp

section \<open>Secrets\<close>

text \<open>A store and a request with every signing secret replaced by a mark that it exists.\<close>

definition hide :: "string \<Rightarrow> string" where
  "hide s = (if s = [] then [] else ''*'')"

definition hide_row :: "webhook_row \<Rightarrow> webhook_row" where
  "hide_row w = w\<lparr>wh_Secret := hide (wh_Secret w)\<rparr>"

definition hide_store :: "admin_store \<Rightarrow> admin_store" where
  "hide_store st = st\<lparr>as_webhooks := map hide_row (as_webhooks st)\<rparr>"

definition hide_request :: "admin_request \<Rightarrow> admin_request" where
  "hide_request r = (case r of (env, HookCreate (Some (url, events, secret, descr))) \<Rightarrow> (env, HookCreate (Some (url, events, hide secret, descr))) | _ \<Rightarrow> r)"

lemma hide_idem [simp]: "hide (hide s) = hide s" "hide s = [] \<longleftrightarrow> s = []"
  by (simp_all add: hide_def)

lemma hide_row_same [simp]: "wh_ID (hide_row w) = wh_ID w" "wh_TenantID (hide_row w) = wh_TenantID w" "wh_CreatedAt (hide_row w) = wh_CreatedAt w"
  "webhook_view (hide_row w) = webhook_view w" "hide_row (hide_row w) = hide_row w"
  by (simp_all add: hide_row_def webhook_view_def)

lemma hide_rows:
  "owned wh_TenantID t (map hide_row ws) = map hide_row (owned wh_TenantID t ws)"
  "list_ex (\<lambda>w. wh_ID w = i \<and> wh_TenantID w = t) (map hide_row ws) = list_ex (\<lambda>w. wh_ID w = i \<and> wh_TenantID w = t) ws"
  "delete_where (\<lambda>w. wh_ID w = i \<and> wh_TenantID w = t) (map hide_row ws) = map hide_row (delete_where (\<lambda>w. wh_ID w = i \<and> wh_TenantID w = t) ws)"
  by (induction ws) (auto simp: owned_def delete_where_def)

lemma hide_step:
  "fst (admin_step (hide_request r) (hide_store st)) = fst (admin_step r st) \<and> snd (admin_step (hide_request r) (hide_store st)) = hide_store (snd (admin_step r st))"
proof -
  obtain env op where r: "r = (env, op)" by force
  have same: "as_rules (hide_store st) = as_rules st" "as_searches (hide_store st) = as_searches st" "as_dashboards (hide_store st) = as_dashboards st"
    "as_webhooks (hide_store st) = map hide_row (as_webhooks st)" by (simp_all add: hide_store_def)
  show ?thesis
  proof (cases op)
    case (HookCreate b)
    then show ?thesis by (cases b) (auto simp: r hide_request_def admin_step_def CreateWebhook_def hide_store_def hide_row_def split: option.split)
  next
    case HookList
    then show ?thesis by (auto simp: r hide_request_def admin_step_def ListWebhooks_def Let_def same hide_rows order_desc_map comp_def split: option.split)
  next
    case (HookDelete i)
    then show ?thesis by (auto simp: r hide_request_def admin_step_def DeleteWebhook_def hide_store_def hide_rows split: option.split)
  qed (auto simp: r hide_request_def admin_step_def admin_defs hide_store_def split: option.split prod.split)
qed

lemma hide_serve: "map snd (fst (serve admin_step (map hide_request rs) (hide_store st))) = map snd (fst (serve admin_step rs st))"
proof (induction rs arbitrary: st)
  case (Cons r rs)
  have "admin_step (hide_request r) (hide_store st) = (fst (admin_step r st), hide_store (snd (admin_step r st)))"
    using hide_step[of r st] by (metis prod.collapse)
  then show ?case using Cons.IH[of "snd (admin_step r st)"] by (simp add: case_prod_beta)
qed simp

section \<open>Share links\<close>

definition deletes_dash :: "string \<Rightarrow> string \<Rightarrow> admin_request \<Rightarrow> bool" where
  "deletes_dash t i r \<longleftrightarrow> admin_caller r = t \<and> snd r = DashDelete i"

definition has_link :: "string \<Rightarrow> string \<Rightarrow> string \<Rightarrow> admin_store \<Rightarrow> bool" where
  "has_link t i token st \<longleftrightarrow> (\<exists>d \<in> set (as_dashboards st). db_TenantID d = t \<and> db_ID d = i \<and> db_ShareToken d = Some token)"

lemma has_link_update:
  assumes "has_link t i token st" "\<And>d. db_TenantID (f d) = db_TenantID d \<and> db_ID (f d) = db_ID d" "\<And>d. P d \<Longrightarrow> db_ShareToken d = Some token \<Longrightarrow> db_ShareToken (f d) = Some token"
  shows "has_link t i token (st\<lparr>as_dashboards := update_where P f (as_dashboards st)\<rparr>)"
proof -
  from assms(1) obtain d where "d \<in> set (as_dashboards st)" "db_TenantID d = t" "db_ID d = i" "db_ShareToken d = Some token" by (auto simp: has_link_def)
  then show ?thesis using assms(2,3) unfolding has_link_def
    by (intro bexI[of _ "if P d then f d else d"]) (auto simp: update_where_def)
qed

text \<open>
  \<open>ShareDashboard\<close> reads the token of the first row with the identifier and writes all of them, so the
  identifiers have to be unique.
\<close>

definition dash_inv :: "admin_store \<Rightarrow> bool" where
  "dash_inv st \<longleftrightarrow> distinct (map db_ID (as_dashboards st)) \<and> (\<forall>d \<in> set (as_dashboards st). db_ShareToken d \<noteq> Some [])"

lemma same_dash:
  assumes "dash_inv st" "d \<in> set (as_dashboards st)" "d' \<in> set (as_dashboards st)" "db_ID d = db_ID d'"
  shows "d = d'"
  using assms by (auto simp: dash_inv_def distinct_map dest: inj_onD)

lemma link_share:
  assumes inv: "dash_inv st" and l: "has_link t i token st" shows "has_link t i token (snd (ShareDashboard env j st))"
proof -
  from l obtain d where d: "d \<in> set (as_dashboards st)" "db_TenantID d = t" "db_ID d = i" "db_ShareToken d = Some token" by (auto simp: has_link_def)
  have "has_link t i token (st\<lparr>as_dashboards := update_where (dash_of env j) (\<lambda>d. d\<lparr>db_ShareToken := Some x\<rparr>) (as_dashboards st)\<rparr>)"
    if f: "find (dash_of env j) (as_dashboards st) = Some e" and e: "db_ShareToken e = None \<or> db_ShareToken e = Some []" for e x
  proof -
    have m: "e \<in> set (as_dashboards st)" "dash_of env j e" using find_Some_mem[OF f] by auto
    have "db_ShareToken e \<noteq> Some []" using inv m(1) by (auto simp: dash_inv_def)
    then have "\<not> dash_of env j d" using same_dash[OF inv d(1) m(1)] m(2) e d(4) by (auto simp: dash_of_def)
    then show ?thesis using d unfolding has_link_def by (intro bexI[of _ d]) (auto simp: update_where_def image_iff intro!: bexI[of _ d])
  qed
  then show ?thesis using l by (auto simp: ShareDashboard_def Let_def split: option.splits)
qed

lemma link_step:
  assumes inv: "dash_inv st" and l: "has_link t i token st" and d: "\<not> deletes_dash t i r"
  shows "has_link t i token (snd (admin_step r st))"
proof -
  obtain env op where r: "r = (env, op)" by force
  have other: "has_link t i token st'" if "as_dashboards st' = as_dashboards st" for st' using l that by (simp add: has_link_def)
  show ?thesis
  proof (cases op)
    case (DashUpdate j b)
    then show ?thesis using l by (auto simp: r admin_step_def UpdateDashboard_def intro!: has_link_update split: option.split)
  next
    case (DashCreate b)
    then show ?thesis using l by (auto simp: r admin_step_def CreateDashboard_def Let_def has_link_def split: option.split)
  next
    case (DashDelete j)
    then show ?thesis using l d by (auto simp: r admin_step_def DeleteDashboard_def has_link_def delete_where_def dash_of_def deletes_dash_def admin_caller_def split: option.split)
  next
    case (DashShare j)
    then show ?thesis using link_share[OF inv l] by (simp add: r admin_step_def)
  qed (rule other, auto simp: r admin_step_def admin_defs split: option.split)+
qed

definition creates_dash :: "admin_request \<Rightarrow> bool" where
  "creates_dash r = (case snd r of DashCreate b \<Rightarrow> True | _ \<Rightarrow> False)"

definition dash_ids :: "admin_request list \<Rightarrow> admin_store \<Rightarrow> string list" where
  "dash_ids rs st = map db_ID (as_dashboards st) @ map (\<lambda>r. ae_newid (fst r)) (filter creates_dash rs)"

lemma ids_update: "(\<And>d. db_ID (f d) = db_ID d) \<Longrightarrow> map db_ID (update_where P f ds) = map db_ID ds"
  by (auto simp: update_where_def)

lemma ids_step:
  assumes "distinct (dash_ids (r # rs) st)" shows "distinct (dash_ids rs (snd (admin_step r st)))"
proof -
  obtain env op where r: "r = (env, op)" by force
  have "map db_ID (as_dashboards (snd (admin_step r st))) = map db_ID (as_dashboards st) \<or>
      (creates_dash r \<and> map db_ID (as_dashboards (snd (admin_step r st))) = map db_ID (as_dashboards st) @ [ae_newid (fst r)]) \<or>
      (\<exists>P. as_dashboards (snd (admin_step r st)) = delete_where P (as_dashboards st))"
    by (cases op) (auto simp: r creates_dash_def admin_step_def admin_defs ids_update split: option.split)
  then show ?thesis
  proof (elim disjE exE conjE)
    fix P assume "as_dashboards (snd (admin_step r st)) = delete_where P (as_dashboards st)"
    then show ?thesis using assms by (auto simp: dash_ids_def delete_where_def distinct_map_filter split: if_splits)
  qed (use assms in \<open>auto simp: dash_ids_def split: if_splits\<close>)
qed

lemma tokens_step: "\<forall>d \<in> set (as_dashboards st). db_ShareToken d \<noteq> Some [] \<Longrightarrow> \<forall>d \<in> set (as_dashboards (snd (admin_step r st))). db_ShareToken d \<noteq> Some []"
proof -
  assume a: "\<forall>d \<in> set (as_dashboards st). db_ShareToken d \<noteq> Some []"
  have up: "\<forall>d \<in> set (update_where P f (as_dashboards st)). db_ShareToken d \<noteq> Some []" if "\<And>d. db_ShareToken d \<noteq> Some [] \<Longrightarrow> db_ShareToken (f d) \<noteq> Some []" for P f
    using a that by (auto simp: update_where_def)
  obtain env op where r: "r = (env, op)" by force
  show ?thesis
  proof (cases op)
    case (DashUpdate j b)
    then show ?thesis using a up[of "set_panels _ _ _"] by (auto simp: r admin_step_def UpdateDashboard_def split: option.split)
  next
    case (DashShare j)
    then show ?thesis using a up[of "\<lambda>d. d\<lparr>db_ShareToken := Some _\<rparr>"] by (auto simp: r admin_step_def ShareDashboard_def Let_def split: option.split)
  qed (use a in \<open>auto simp: r admin_step_def admin_defs delete_where_def split: option.split\<close>)
qed

lemma link_serve:
  assumes "distinct (dash_ids rs st)" "\<forall>d \<in> set (as_dashboards st). db_ShareToken d \<noteq> Some []" "has_link t i token st" "\<forall>r \<in> set rs. \<not> deletes_dash t i r"
  shows "dash_inv (snd (serve admin_step rs st)) \<and> has_link t i token (snd (serve admin_step rs st))"
  using assms
proof (induction rs arbitrary: st)
  case (Cons r rs)
  have inv: "dash_inv st" using Cons.prems(1,2) by (simp add: dash_inv_def dash_ids_def)
  have "has_link t i token (snd (admin_step r st))" using link_step[OF inv Cons.prems(3)] Cons.prems(4) by simp
  from Cons.IH[OF ids_step[OF Cons.prems(1)] tokens_step[OF Cons.prems(2)] this] Cons.prems(4) show ?case by (simp add: case_prod_beta)
qed (simp add: dash_inv_def dash_ids_def)

section \<open>Properties\<close>

definition demo_env :: "string \<Rightarrow> string \<Rightarrow> admin_env" where
  "demo_env tenant newid = \<lparr>ae_tenant = tenant, ae_fault = (\<lambda>_. None), ae_newid = newid, ae_now = 0, ae_random = ''00ff''\<rparr>"

definition demo_dash :: dashboard_row where
  "demo_dash = \<lparr>db_ID = ''d1'', db_TenantID = ''acme'', db_Name = ''SLO'', db_Panels = ''[]'', db_CreatedBy = None, db_CreatedAt = 0, db_UpdatedAt = 0,
     db_ShareToken = Some ''dsh_1''\<rparr>"

definition demo_store :: admin_store where
  "demo_store = \<lparr>as_rules = [], as_searches = [], as_dashboards = [demo_dash], as_webhooks = []\<rparr>"

definition demo_requests :: "admin_request list" where
  "demo_requests = [(demo_env ''beta'' ''d2'', DashCreate (Some (''x'', [], []))), (demo_env ''beta'' ''x'', DashDelete ''d1''), (demo_env ''acme'' ''x'', DashUpdate ''d1'' (Some (''SLOs'', ''[1]'')))]"

text \<open>
  The signing secret of a webhook never leaves the store: no answer to any sequence of requests
  changes when every stored and submitted secret is replaced by a mark that one is set.
\<close>

theorem webhook_secrets_write_only:
  "map snd (fst (serve admin_step (map hide_request rs) (hide_store st))) = map snd (fst (serve admin_step rs st))"
  by (rule hide_serve)

text \<open>
  A share link is stable: as long as its owner does not delete the dashboard, after any requests of any
  tenants the link still opens a dashboard, and sharing it again gives the same token.
\<close>

theorem share_link_stable:
  assumes "distinct (dash_ids rs st)" "\<forall>d \<in> set (as_dashboards st). db_ShareToken d \<noteq> Some []" "has_link t i token st" "\<forall>r \<in> set rs. \<not> deletes_dash t i r"
    "ae_tenant env = t" "ae_fault env 0 = None"
  shows "(\<exists>p. GetSharedDashboard None token (snd (serve admin_step rs st)) = Answer 200 p) \<and>
    fst (ShareDashboard env i (snd (serve admin_step rs st))) = AShared token (''/shared/dashboards/'' @ token)"
proof -
  let ?st = "snd (serve admin_step rs st)"
  have inv: "dash_inv ?st" and l: "has_link t i token ?st" using link_serve[OF assms(1-4)] by simp_all
  from l obtain d where d: "d \<in> set (as_dashboards ?st)" "db_TenantID d = t" "db_ID d = i" "db_ShareToken d = Some token" by (auto simp: has_link_def)
  obtain e where e: "find (dash_of env i) (as_dashboards ?st) = Some e"
    using d assms(5) by (cases "find (dash_of env i) (as_dashboards ?st)") (auto simp: find_None_iff dash_of_def)
  have "e = d" using same_dash[OF inv d(1), of e] find_Some_mem[OF e] d(3) by (auto simp: dash_of_def)
  moreover have "token \<noteq> []" using inv d(1,4) by (auto simp: dash_inv_def)
  ultimately have "fst (ShareDashboard env i ?st) = AShared token (''/shared/dashboards/'' @ token)" using e d(4) assms(6) by (simp add: ShareDashboard_def)
  moreover have "find (\<lambda>d. db_ShareToken d = Some token) (as_dashboards ?st) \<noteq> None" using d by (auto simp: find_None_iff)
  ultimately show ?thesis by (auto simp: GetSharedDashboard_def)
qed

theorem share_link_stable_witness:
  "(\<exists>p. GetSharedDashboard None ''dsh_1'' (snd (serve admin_step demo_requests demo_store)) = Answer 200 p) \<and>
   fst (ShareDashboard (demo_env ''acme'' ''x'') ''d1'' (snd (serve admin_step demo_requests demo_store))) = AShared ''dsh_1'' ''/shared/dashboards/dsh_1''"
proof -
  have "distinct (dash_ids demo_requests demo_store)" "\<forall>d \<in> set (as_dashboards demo_store). db_ShareToken d \<noteq> Some []" "has_link ''acme'' ''d1'' ''dsh_1'' demo_store" by code_simp+
  moreover have "\<forall>r \<in> set demo_requests. \<not> deletes_dash ''acme'' ''d1'' r"
    by (simp add: demo_requests_def deletes_dash_def admin_caller_def demo_env_def)
  moreover have "ae_tenant (demo_env ''acme'' ''x'') = ''acme''" "ae_fault (demo_env ''acme'' ''x'') 0 = None" by (simp_all add: demo_env_def)
  ultimately show ?thesis using share_link_stable by fastforce
qed

end
