(* ===== verification/Float_Mono.thy ===== *)
theory Float_Mono
  imports Go_Time
begin

text \<open>
  Order on \<open>float64\<close> values including the infinities: rounded sums, products, quotients and \<open>math.Round\<close> keep
  the order of their arguments, so a formula built from them is monotone however its steps round.
\<close>

definition nn :: "f64 \<Rightarrow> bool" where
  "nn x \<longleftrightarrow> fle (Zero False) x"

lemma nn_not_NaN: "nn x \<Longrightarrow> x \<noteq> NaN"
  by (auto simp: nn_def)

lemma nn_fin: "is_finite x \<Longrightarrow> nn x \<longleftrightarrow> 0 \<le> f_val x"
  by (cases x) (auto simp: nn_def is_finite_def f_val_def)

lemma nn_Zero [simp]: "nn (Zero b)"
  by (simp add: nn_def f_val_def)

lemma fle_top: "x \<noteq> NaN \<Longrightarrow> fle x (Inf False)"
  by (cases x) simp_all

lemma fle_bot: "x \<noteq> NaN \<Longrightarrow> fle (Inf True) x"
  by (cases x) simp_all

lemma nn_mono: "nn x \<Longrightarrow> fle x y \<Longrightarrow> nn y"
  unfolding nn_def by (rule fle_trans)

lemma finite_below: "nn x \<Longrightarrow> fle x y \<Longrightarrow> is_finite y \<Longrightarrow> is_finite x"
  by (cases x; cases y) (auto simp: nn_def is_finite_def)

lemma fle_not_NaN: "fle x y \<Longrightarrow> x \<noteq> NaN \<and> y \<noteq> NaN"
  by (cases x; cases y) auto

lemma fmul_mono:
  assumes "fle x y" "is_finite z" "0 < f_val z" shows "fle (fmul x z) (fmul y z)"
proof -
  obtain q where z: "z = Fin q" "0 < q" using assms(2,3) by (cases z) (auto simp: is_finite_def f_val_def)
  show ?thesis
  proof (cases "is_finite x \<and> is_finite y")
    case True
    then have "f_val x * f_val z \<le> f_val y * f_val z" using assms fle_fin[of x y] by (simp add: mult_right_mono)
    then show ?thesis using True assms(2) by (intro eqv_mono[OF fmul_eqv fmul_eqv]) simp_all
  next
    case False
    then show ?thesis using assms(1) z by (cases x; cases y) (auto simp: is_finite_def f_neg_def fle_top fle_bot)
  qed
qed

lemma fmul_fin_mono:
  assumes "fle x y" "is_finite x" "is_finite y" "is_finite z" "0 \<le> f_val z" shows "fle (fmul x z) (fmul y z)"
  using assms fle_fin[of x y] by (intro eqv_mono[OF fmul_eqv fmul_eqv]) (simp_all add: mult_right_mono)

lemma fdiv_mono:
  assumes "fle x y" "is_finite z" "0 < f_val z" shows "fle (fdiv x z) (fdiv y z)"
proof -
  obtain q where z: "z = Fin q" "0 < q" using assms(2,3) by (cases z) (auto simp: is_finite_def f_val_def)
  show ?thesis
  proof (cases "is_finite x \<and> is_finite y")
    case True
    then have "f_val x / f_val z \<le> f_val y / f_val z" using assms fle_fin[of x y] by (simp add: divide_right_mono)
    then show ?thesis using True assms(2,3) by (intro eqv_mono[OF fdiv_eqv fdiv_eqv]) simp_all
  next
    case False
    then show ?thesis using assms(1) z by (cases x; cases y) (auto simp: is_finite_def f_neg_def fle_top fle_bot)
  qed
qed

lemma fadd_mono:
  assumes "nn x" "fle x x'" "nn y" "fle y y'" shows "fle (fadd x y) (fadd x' y')"
proof (cases "is_finite x' \<and> is_finite y'")
  case True
  then have f: "is_finite x" "is_finite y" using assms finite_below by blast+
  have "f_val x + f_val y \<le> f_val x' + f_val y'" using assms(2,4) f True fle_fin by (meson add_mono)
  then show ?thesis using f True by (intro eqv_mono[OF fadd_eqv fadd_eqv]) simp_all
next
  case False
  have "fadd x y \<noteq> NaN" using assms(1,3) by (cases x; cases y) (auto simp: nn_def)
  moreover have "fadd x' y' = Inf False" using False assms nn_mono[OF assms(1,2)] nn_mono[OF assms(3,4)]
    by (cases x'; cases y') (auto simp: nn_def is_finite_def)
  ultimately show ?thesis by (simp add: fle_top)
qed

lemma fsub_mono:
  assumes "fle x y" "is_finite x" "is_finite y" "is_finite z" shows "fle (fsub x z) (fsub y z)"
proof -
  have "is_finite (fminus z)" using assms(4) by (simp add: is_finite_minus)
  moreover have "f_val x + f_val (fminus z) \<le> f_val y + f_val (fminus z)" using assms fle_fin by simp
  ultimately show ?thesis unfolding fsub_def using assms by (intro eqv_mono[OF fadd_eqv fadd_eqv]) simp_all
qed

lemma fadd_nn: "nn x \<Longrightarrow> nn y \<Longrightarrow> nn (fadd x y)"
  using fadd_mono[of "Zero False" x "Zero False" y] by (auto simp: nn_def)

lemma fmul_nn: "nn x \<Longrightarrow> is_finite x \<Longrightarrow> is_finite z \<Longrightarrow> nn z \<Longrightarrow> nn (fmul x z)"
  by (cases x; cases z) (auto simp: nn_def is_finite_def f_val_def f_neg_def dest: round64_mono[of 0, unfolded round64_def[of 0], simplified] mult_nonneg_nonneg intro: round64_mono[of 0, unfolded round64_def[of 0], simplified])

lemma unit_fin: "0 < m \<Longrightarrow> m < 2 ^ 53 \<Longrightarrow> is_finite (of_int64 m) \<and> 0 < f_val (of_int64 m)"
  using of_int64_small[of m] by simp

lemma round_to_order:
  assumes "fle x y" "0 < m" "m < 2 ^ 53" shows "fle (round_to m x) (round_to m y)"
  unfolding round_to_def using unit_fin[OF assms(2,3)] assms(1) by (intro fdiv_mono math_Round_mono fmul_mono) simp_all

lemma round_to_Zero:
  assumes "0 < m" "m < 2 ^ 53" shows "round_to m (Zero b) = Zero b"
proof -
  have "of_int64 m = Fin (of_int m)" using round64_small_int[OF assms] by (simp add: of_int64_def)
  then show ?thesis using assms by (simp add: round_to_def math_Round_def f_neg_def)
qed

lemma round_to_nn: "nn x \<Longrightarrow> 0 < m \<Longrightarrow> m < 2 ^ 53 \<Longrightarrow> nn (round_to m x)"
  using round_to_order[of "Zero False" x m] round_to_Zero[of m False] by (simp add: nn_def)

lemma of_int64_order: "a \<le> b \<Longrightarrow> fle (of_int64 a) (of_int64 b)"
  unfolding of_int64_def by (rule round64_mono) simp

lemma of_int64_nn: "0 \<le> a \<Longrightarrow> nn (of_int64 a)"
  using of_int64_order[of 0 a] by (simp add: nn_def of_int64_def round64_def[of 0])

lemma fmul_comm: "fmul x y = fmul y x"
  by (cases x; cases y) (auto simp: mult.commute f_neg_def)

end
