(* ===== verification/Go_Date.thy ===== *)
theory Go_Date
  imports Go_Time
begin

text \<open>
  The calendar of Go's \<open>time\<close> package as far as the billing period needs it: the year and the month of an
  instant (nanoseconds since 1970, in UTC), the first instant of a month, \<open>AddDate(0, 1, 0)\<close> on it, and its
  text. Days are counted from 1 January of the year 1.
\<close>

section \<open>The Gregorian calendar\<close>

definition is_leap :: "int \<Rightarrow> bool" where
  "is_leap y \<longleftrightarrow> y mod 4 = 0 \<and> (y mod 100 \<noteq> 0 \<or> y mod 400 = 0)"

definition days_before_year :: "int \<Rightarrow> int" where
  "days_before_year y = 365 * (y - 1) + (y - 1) div 4 - (y - 1) div 100 + (y - 1) div 400"

definition month_days :: "int \<Rightarrow> int \<Rightarrow> int" where
  "month_days y m = (if m = 2 then (if is_leap y then 29 else 28) else if m \<in> {4, 6, 9, 11} then 30 else 31)"

definition days_before_month :: "int \<Rightarrow> int \<Rightarrow> int" where
  "days_before_month y m = sum_list (map (month_days y) [1..m - 1])"

text \<open>The day on which a month begins.\<close>

definition month_day1 :: "int \<times> int \<Rightarrow> int" where
  "month_day1 = (\<lambda>(y, m). days_before_year y + days_before_month y m)"

definition next_month :: "int \<times> int \<Rightarrow> int \<times> int" where
  "next_month = (\<lambda>(y, m). if m = 12 then (y + 1, 1) else (y, m + 1))"

lemma year_length: "days_before_year (y + 1) = days_before_year y + (if is_leap y then 366 else 365)"
proof -
  have step: "y div k = (y - 1) div k + (if y mod k = 0 then 1 else 0)" if "0 < k" for k :: int
  proof (cases "y mod k = 0")
    case True
    then obtain q where y: "y = k * q" by blast
    have "(k * q - 1) div k = q - 1" using that by (intro int_div_pos_eq[of _ _ _ "k - 1"]) (simp_all add: algebra_simps)
    then show ?thesis using y that by simp
  next
    case False
    have "(y - 1) div k = y div k"
      using False that pos_mod_bound[OF that, of y] pos_mod_sign[OF that, of y]
      by (intro int_div_pos_eq[of _ _ _ "y mod k - 1"]) auto
    then show ?thesis using False by simp
  qed
  have count: "365 * y + (a + (if P then 1 else 0)) - (b + (if Q then 1 else 0)) + (c + (if R then 1 else 0)) =
      365 * (y - 1) + a - b + c + (if P \<and> (\<not> Q \<or> R) then 366 else 365)" if "Q \<longrightarrow> P" "R \<longrightarrow> Q" for a b c :: int and P Q R
    using that by (cases P; cases Q; cases R) simp_all
  have "y mod 100 = 0 \<longrightarrow> y mod 4 = 0" "y mod 400 = 0 \<longrightarrow> y mod 100 = 0"
    using dvd_trans[of 4 100 y] dvd_trans[of 100 400 y] unfolding mod_eq_0_iff_dvd by simp_all
  from count[OF this] show ?thesis
    unfolding days_before_year_def is_leap_def add_diff_cancel_right' step[of 4, simplified] step[of 100, simplified] step[of 400, simplified] by simp
qed

lemma days_before_month_table:
  "days_before_month y 1 = 0" "days_before_month y 13 = (if is_leap y then 366 else 365)"
  by (simp_all add: days_before_month_def month_days_def upto_rec1)

lemma days_before_month_Suc: "1 \<le> m \<Longrightarrow> days_before_month y (m + 1) = days_before_month y m + month_days y m"
  by (simp add: days_before_month_def upto_rec2)

lemma month_days_pos: "28 \<le> month_days y m"
  by (simp add: month_days_def)

lemma month_day1_next: "1 \<le> m \<Longrightarrow> month_day1 (next_month (y, m)) = month_day1 (y, m) + month_days y m"
  using days_before_month_Suc[of m y] days_before_month_table[of y] days_before_month_table(1)[of "y + 1"] year_length[of y]
  by (auto simp: month_day1_def next_month_def)

section \<open>The month of a day\<close>

function year_from :: "int \<Rightarrow> int \<Rightarrow> int" where
  "year_from y z = (if days_before_year (y + 1) \<le> z then year_from (y + 1) z else y)"
  by pat_completeness auto
termination
  by (relation "measure (\<lambda>(y, z). nat (z - days_before_year y))") (auto simp: year_length split: if_splits)

declare year_from.simps [simp del]

definition month_of_day :: "int \<Rightarrow> int \<times> int" where
  "month_of_day z =
     (let y = year_from (z div 366 + 1) z
      in (y, the (find (\<lambda>m. z - days_before_year y < days_before_month y (m + 1)) [1..12])))"

lemma year_from_bounds: "days_before_year y \<le> z \<Longrightarrow> days_before_year (year_from y z) \<le> z \<and> z < days_before_year (year_from y z + 1)"
proof (induction y z rule: year_from.induct)
  case (1 y z)
  then show ?case by (subst (1 2) year_from.simps) auto
qed

lemma year_guess: "0 \<le> z \<Longrightarrow> days_before_year (z div 366 + 1) \<le> z"
proof -
  assume z: "0 \<le> z"
  define n where "n = z div 366"
  have "0 \<le> n" "366 * n \<le> z" using z by (simp_all add: n_def)
  moreover from this have "n div 4 \<le> n" "n div 400 \<le> n div 100" by (simp_all add: zdiv_mono2)
  ultimately show ?thesis unfolding days_before_year_def n_def[symmetric] by simp
qed

lemma find_first:
  "find P [a..b] = Some m \<Longrightarrow> P m \<and> a \<le> m \<and> m \<le> b \<and> (\<forall>k. a \<le> k \<and> k < m \<longrightarrow> \<not> P k)"
proof (induction a b rule: upto.induct)
  case (1 a b)
  have "a \<le> b" using 1(2) by (cases "a \<le> b") simp_all
  then have f: "find P (a # [a + 1..b]) = Some m" using 1(2) by (simp add: upto_rec1)
  show ?case
  proof (cases "P a")
    case False
    then have "P m \<and> a + 1 \<le> m \<and> m \<le> b \<and> (\<forall>k. a + 1 \<le> k \<and> k < m \<longrightarrow> \<not> P k)" using 1(1) \<open>a \<le> b\<close> f by simp
    moreover have "k = a \<or> a + 1 \<le> k" if "a \<le> k" for k using that by linarith
    ultimately show ?thesis using False by fastforce
  qed (use f \<open>a \<le> b\<close> in auto)
qed

lemma month_of_day_bounds:
  assumes "0 \<le> z" shows "month_day1 (month_of_day z) \<le> z \<and> z < month_day1 (next_month (month_of_day z))"
proof -
  define y where "y = year_from (z div 366 + 1) z"
  define P where "P = (\<lambda>m. z - days_before_year y < days_before_month y (m + 1))"
  have y: "days_before_year y \<le> z" "z < days_before_year (y + 1)"
    using year_from_bounds[OF year_guess[OF assms]] by (simp_all add: y_def)
  then have "P 12" using days_before_month_table(2)[of y] year_length[of y] by (simp add: P_def)
  then have "find P [1..12] \<noteq> None" by (auto simp: find_None_iff)
  then obtain m where m: "find P [1..12] = Some m" by blast
  note f = find_first[OF m]
  have "days_before_month y m \<le> z - days_before_year y"
  proof (cases "m = 1")
    case False
    then have "\<not> P (m - 1)" using f by auto
    then show ?thesis by (simp add: P_def)
  qed (use y days_before_month_table(1) in simp)
  moreover have "month_of_day z = (y, m)" using m by (simp add: month_of_day_def y_def P_def)
  ultimately show ?thesis using f month_day1_next[of m y] days_before_month_Suc[of m y] by (simp add: P_def month_day1_def)
qed

section \<open>Instants\<close>

definition day_ns :: int where "day_ns = 86400 * 10 ^ 9"
definition epoch_day :: int where "epoch_day = 719162"

text \<open>\<open>time.Date(now.Year(), now.Month(), 1, 0, 0, 0, 0, time.UTC)\<close> as an instant, and its text.\<close>

definition month_at :: "int \<Rightarrow> int \<times> int" where
  "month_at now = month_of_day (now div day_ns + epoch_day)"

definition month_start :: "int \<times> int \<Rightarrow> int" where
  "month_start ym = (month_day1 ym - epoch_day) * day_ns"

definition month_text :: "int \<times> int \<Rightarrow> string" where
  "month_text = (\<lambda>(y, m). pad0 4 (show_int y) @ ''-'' @ pad0 2 (show_int m) @ ''-01 00:00:00'')"

lemma month_at_contains:
  assumes "- (epoch_day * day_ns) \<le> now"
  shows "month_start (month_at now) \<le> now \<and> now < month_start (next_month (month_at now))"
proof -
  have "- epoch_day \<le> now div day_ns" using assms zdiv_mono1[of "- (epoch_day * day_ns)" now day_ns] by (simp add: day_ns_def epoch_day_def)
  then have "0 \<le> now div day_ns + epoch_day" by simp
  note b = month_of_day_bounds[OF this, folded month_at_def]
  have d: "now div day_ns * day_ns \<le> now" "now < (now div day_ns + 1) * day_ns"
    using div_mult_mod_eq[of now day_ns] pos_mod_bound[of day_ns now] pos_mod_sign[of day_ns now]
    by (simp_all add: day_ns_def algebra_simps)
  have "(month_day1 (month_at now) - epoch_day) * day_ns \<le> now div day_ns * day_ns"
    using b by (intro mult_right_mono) (simp_all add: day_ns_def)
  moreover have "(now div day_ns + 1) * day_ns \<le> (month_day1 (next_month (month_at now)) - epoch_day) * day_ns"
    using b by (intro mult_right_mono) (simp_all add: day_ns_def)
  ultimately show ?thesis using d unfolding month_start_def by linarith
qed

end
