(* ===== verification/PromQL.thy ===== *)
theory PromQL
  imports LogQL_Isolation Loki
begin

text \<open>
  The PromQL surface (\<open>domains/query/promql.go\<close>): parsing of the supported subset and its
  compilation to ClickHouse SQL. The regular expressions of the source are written out as
  scanners; where a pattern leaves a choice to the matcher (the lazy group of \<open>reRate\<close>, the
  leftmost match of \<open>reBy\<close>) the scanner makes the choice of Go's \<open>regexp\<close>. The label matcher
  pattern is the one of the Loki selector (theory \<open>Loki\<close>).
\<close>

section \<open>Data\<close>

record PromParams =
  pp_StartUnix :: int
  pp_EndUnix :: int
  pp_StepSec :: int
  pp_Lookback :: int

record PromCompiled =
  pc_SQL :: string
  pc_LabelCols :: "string list"
  pc_Metric :: string
  pc_HasAttrs :: bool
  pc_Instant :: bool

record promMatcher =
  pm_label :: string
  pm_op :: string
  pm_value :: string

record promExpr =
  pe_metric :: string
  pe_matchers :: "promMatcher list"
  pe_agg :: string
  pe_by :: "string list"
  pe_rate :: bool
  pe_rangeSec :: int

definition zero_promExpr :: promExpr where
  "zero_promExpr = \<lparr>pe_metric = [], pe_matchers = [], pe_agg = [], pe_by = [], pe_rate = False, pe_rangeSec = 0\<rparr>"

section \<open>Scanners for the patterns\<close>

definition word_char :: "char \<Rightarrow> bool" where
  "word_char c \<longleftrightarrow> between CHR ''a'' CHR ''z'' c \<or> between CHR ''A'' CHR ''Z'' c \<or> isDigit c \<or> c = CHR ''_''"

definition starts_word :: "string \<Rightarrow> bool" where
  "starts_word s = (case s of [] \<Rightarrow> False | c # _ \<Rightarrow> word_char c)"

text \<open>\<open>reAggPrefix\<close>.\<close>

definition agg_prefix :: "string \<Rightarrow> string" where
  "agg_prefix s =
     (case find (\<lambda>k. HasPrefix s k \<and> \<not> starts_word (drop (length k) s)) [''sum'', ''avg'', ''min'', ''max'', ''count''] of
        Some k \<Rightarrow> k | None \<Rightarrow> [])"

text \<open>\<open>reBy\<close> at the start of the text: its group and the text behind the match.\<close>

definition by_here :: "string \<Rightarrow> (string \<times> string) option" where
  "by_here s =
     (if EqualFold (take 2 s) ''by'' then
        (case dropWhile re_space (drop 2 s) of
           [] \<Rightarrow> None
         | c # r \<Rightarrow>
             if c \<noteq> CHR ''('' then None
             else (case dropWhile (\<lambda>x. x \<noteq> CHR '')'') r of
                     [] \<Rightarrow> None
                   | _ # rest \<Rightarrow> Some (takeWhile (\<lambda>x. x \<noteq> CHR '')'') r, rest)))
      else None)"

text \<open>The argument tells whether the byte before the text is a word character.\<close>

fun find_by :: "bool \<Rightarrow> string \<Rightarrow> string option" where
  "find_by w [] = None"
| "find_by w (c # cs) =
     (case (if w then None else by_here (c # cs)) of
        Some (g, _) \<Rightarrow> Some g
      | None \<Rightarrow> find_by (word_char c) cs)"

lemma by_here_shorter: "by_here s = Some (g, r) \<Longrightarrow> length r < length s"
proof -
  assume "by_here s = Some (g, r)"
  then obtain t u where t: "dropWhile re_space (drop 2 s) = CHR ''('' # t" and u: "dropWhile (\<lambda>x. x \<noteq> CHR '')'') t = u # r"
    by (auto simp: by_here_def split: if_splits list.splits)
  have "length (u # r) \<le> length t" using length_dropWhile_le[of "\<lambda>x. x \<noteq> CHR '')''" t] by (simp add: u)
  moreover have "length (CHR ''('' # t) \<le> length (drop 2 s)" using length_dropWhile_le[of re_space "drop 2 s"] by (simp add: t)
  ultimately show ?thesis by simp
qed

function strip_by :: "bool \<Rightarrow> string \<Rightarrow> string" where
  "strip_by w [] = []"
| "strip_by w (c # cs) =
     (case (if w then None else by_here (c # cs)) of
        Some (_, rest) \<Rightarrow> strip_by False rest
      | None \<Rightarrow> c # strip_by (word_char c) cs)"
  by pat_completeness auto
termination
  by (relation "measure (\<lambda>(w, s). length s)") (auto dest!: by_here_shorter split: if_splits)

text \<open>The part of \<open>reRate\<close> behind its lazy group: the number and the unit.\<close>

definition rate_unit :: "string \<Rightarrow> (string \<times> string) option" where
  "rate_unit s =
     (if HasPrefix s ''ms'' then Some (''ms'', drop 2 s)
      else case s of [] \<Rightarrow> None
        | c # r \<Rightarrow> if c = CHR ''s'' \<or> c = CHR ''m'' \<or> c = CHR ''h'' \<or> c = CHR ''d'' then Some ([c], r) else None)"

definition rate_tail :: "string \<Rightarrow> (string \<times> string) option" where
  "rate_tail s =
     (case dropWhile re_space s of [] \<Rightarrow> None
      | c # r \<Rightarrow>
         if c \<noteq> CHR ''['' then None
         else let r = dropWhile re_space r; num = takeWhile isDigit r in
           if num = [] then None
           else case rate_unit (dropWhile isDigit r) of
             None \<Rightarrow> None
           | Some (u, r) \<Rightarrow>
              (case dropWhile re_space r of [] \<Rightarrow> None
               | d # r \<Rightarrow> if d = CHR '']'' \<and> dropWhile re_space r = '')'' then Some (num, u) else None))"

fun rate_scan :: "string \<Rightarrow> string \<Rightarrow> (string \<times> string \<times> string) option" where
  "rate_scan acc [] = None"
| "rate_scan acc (c # cs) =
     (case rate_tail (c # cs) of
        Some (num, u) \<Rightarrow> Some (acc, num, u)
      | None \<Rightarrow> if c = CHR 0x0A then None else rate_scan (acc @ [c]) cs)"

definition re_rate :: "string \<Rightarrow> (string \<times> string \<times> string) option" where
  "re_rate s = (if HasPrefix s ''rate('' then rate_scan [] (dropWhile re_space (drop 5 s)) else None)"

definition metric_start :: "char \<Rightarrow> bool" where
  "metric_start c \<longleftrightarrow> between CHR ''a'' CHR ''z'' c \<or> between CHR ''A'' CHR ''Z'' c \<or> c = CHR ''_'' \<or> c = CHR '':''"

definition metric_part :: "char \<Rightarrow> bool" where
  "metric_part c \<longleftrightarrow> metric_start c \<or> isDigit c \<or> c = CHR ''.''"

definition re_selector :: "string \<Rightarrow> (string \<times> string) option" where
  "re_selector s =
     (if s = [] \<or> \<not> metric_start (hd s) then None
      else let name = takeWhile metric_part s; r = dropWhile re_space (dropWhile metric_part s) in
        if r = [] then Some (name, [])
        else if hd r = CHR ''{'' \<and> last r = CHR ''}'' \<and> CHR 0x0A \<notin> set r then Some (name, r)
        else None)"

section \<open>Parsing\<close>

fun Split_comma :: "string \<Rightarrow> string \<Rightarrow> string list" where
  "Split_comma acc [] = [acc]"
| "Split_comma acc (c # cs) = (if c = CHR '','' then acc # Split_comma [] cs else Split_comma (acc @ [c]) cs)"

definition splitLabels :: "string \<Rightarrow> string list" where
  "splitLabels s = filter (\<lambda>t. t \<noteq> []) (map TrimSpace (Split_comma [] s))"

fun paren_loop :: "int \<Rightarrow> string \<Rightarrow> bool" where
  "paren_loop depth [] = (depth = 0)"
| "paren_loop depth (c # cs) =
     (if c = CHR ''('' then paren_loop (depth + 1) cs
      else if c = CHR '')'' then (if depth - 1 = 0 \<and> cs \<noteq> [] then False else paren_loop (depth - 1) cs)
      else paren_loop depth cs)"

definition stripOuterParens :: "string \<Rightarrow> (goerror, string) outcome" where
  "stripOuterParens s0 =
     (let s = TrimSpace s0 in
      if \<not> (HasPrefix s ''('' \<and> HasPrefix (rev s) '')'') then Err (Errorf ''expected parenthesised expression, got %q'' [s])
      else if \<not> paren_loop 0 s then Err (Errorf ''unbalanced parentheses in %q'' [s])
      else Ok (tl (butlast s)))"

text \<open>\<open>strconv.ParseInt\<close> on digits with its error dropped: the largest \<open>int64\<close> when out of range.\<close>

definition promDurationSeconds :: "string \<Rightarrow> string \<Rightarrow> int" where
  "promDurationSeconds num unit =
     (let n = min int64_max (digits_val num) in
      if unit = ''ms'' then (if n < 1000 then 1 else n div 1000)
      else if unit = ''s'' then n
      else if unit = ''m'' then wrap64 (n * 60)
      else if unit = ''h'' then wrap64 (n * 3600)
      else if unit = ''d'' then wrap64 (n * 86400)
      else n)"

definition prom_matcher :: "string \<times> string \<times> string \<Rightarrow> promMatcher" where
  "prom_matcher g = (case g of (l, op, v) \<Rightarrow> \<lparr>pm_label = l, pm_op = op, pm_value = v\<rparr>)"

definition parse_agg :: "string \<Rightarrow> (goerror, promExpr \<times> string) outcome" where
  "parse_agg s =
     (let m = agg_prefix s in
      if m = [] then Ok (zero_promExpr, s)
      else let rest = TrimSpace (drop (length m) s);
               (by, rest) = (case find_by False rest of
                               Some g \<Rightarrow> (splitLabels g, TrimSpace (strip_by False rest))
                             | None \<Rightarrow> ([], rest))
           in case stripOuterParens rest of
                Ok inner \<Rightarrow> Ok (zero_promExpr\<lparr>pe_agg := m, pe_by := by\<rparr>, TrimSpace inner)
              | Err (Errorf f as) \<Rightarrow> Err (Errorf ''aggregation %s: %w'' (m # f # as))
              | Err (Sentinel n) \<Rightarrow> Err (Errorf ''aggregation %s: %w'' [m, n])
              | Panic \<Rightarrow> Panic)"

definition parse_rate :: "promExpr \<times> string \<Rightarrow> promExpr \<times> string" where
  "parse_rate es =
     (case es of (e, s) \<Rightarrow>
        case re_rate s of
          Some (g, num, u) \<Rightarrow> (e\<lparr>pe_rate := True, pe_rangeSec := promDurationSeconds num u\<rparr>, TrimSpace g)
        | None \<Rightarrow> (e, s))"

definition parsePromQL :: "string \<Rightarrow> (goerror, promExpr) outcome" where
  "parsePromQL s =
     (if s = [] then Err (Errorf ''empty query'' [])
      else bindO (parse_agg s) (\<lambda>es.
        let (e, s) = parse_rate es in
        case re_selector s of
          None \<Rightarrow> Err (Errorf ''unsupported PromQL expression %q'' [s])
        | Some (name, sel) \<Rightarrow>
            Ok (e\<lparr>pe_metric := name, pe_matchers := (if sel \<noteq> [] then map prom_matcher (fst (find_all sel)) else [])\<rparr>)))"

section \<open>Compilation\<close>

definition labelExpr :: "string \<Rightarrow> string" where
  "labelExpr lbl =
     (let l = ToLower lbl in
      if l = ''__name__'' then ''metric_name''
      else if l = ''service'' then ''service''
      else if l = ''environment'' \<or> l = ''env'' then ''environment''
      else ''attributes['' @ quote lbl @ '']'')"

definition matcherSQL :: "promMatcher \<Rightarrow> (goerror, string) outcome" where
  "matcherSQL m =
     (let lhs = labelExpr (pm_label m); val = ReplaceAll (pm_value m) [backslash, dquote] [dquote] in
      if pm_op m = ''='' then Ok (lhs @ '' = '' @ quote val)
      else if pm_op m = ''!='' then Ok (lhs @ '' != '' @ quote val)
      else if pm_op m = ''=~'' then Ok (''match('' @ lhs @ '', '' @ quote (''^(?:'' @ val @ '')$'') @ '')'')
      else if pm_op m = ''!~'' then Ok (''NOT match('' @ lhs @ '', '' @ quote (''^(?:'' @ val @ '')$'') @ '')'')
      else Err (Errorf ''unsupported matcher op %q'' [pm_op m]))"

definition bquote :: char where "bquote = CHR 0x60"

definition quoteIdent :: "string \<Rightarrow> string" where
  "quoteIdent s = [bquote] @ filter (\<lambda>r. r \<noteq> bquote) s @ [bquote]"

text \<open>The evaluation window: whether the query is instant, the step, the start and the end.\<close>

definition prom_window :: "PromParams \<Rightarrow> (goerror, bool \<times> int \<times> int \<times> int) outcome" where
  "prom_window p =
     (if pp_StepSec p \<le> 0 then
        (let lookback = (if pp_Lookback p \<le> 0 then 300 else pp_Lookback p)
         in Ok (True, lookback, wrap64 (pp_EndUnix p - lookback), pp_EndUnix p))
      else if pp_EndUnix p \<le> pp_StartUnix p then Err (Errorf ''invalid range: need end>start and step>0'' [])
      else Ok (False, pp_StepSec p, pp_StartUnix p, pp_EndUnix p))"

definition rate_secs :: "promExpr \<Rightarrow> int \<Rightarrow> int" where
  "rate_secs e stepSec = (if pe_rangeSec e \<le> 0 then stepSec else pe_rangeSec e)"

definition innerVal :: "promExpr \<Rightarrow> int \<Rightarrow> string" where
  "innerVal e stepSec =
     (if pe_rate e then ''(max(value) - min(value)) / '' @ show_int (rate_secs e stepSec)
      else ''argMax(value, timestamp)'')"

definition prom_conjuncts :: "promExpr \<Rightarrow> string \<Rightarrow> int \<Rightarrow> int \<Rightarrow> string list \<Rightarrow> string list" where
  "prom_conjuncts e tenant startUnix endUnix preds =
     [''tenant_id = '' @ quote tenant, ''metric_name = '' @ quote (pe_metric e),
      ''timestamp >= fromUnixTimestamp('' @ show_int startUnix @ '')'',
      ''timestamp <= fromUnixTimestamp('' @ show_int endUnix @ '')''] @ preds"

definition innerSQL :: "promExpr \<Rightarrow> int \<Rightarrow> string list \<Rightarrow> string" where
  "innerSQL e stepSec cs =
     ''SELECT service, environment, attributes, toUnixTimestamp(toStartOfInterval(timestamp, INTERVAL '' @ show_int stepSec @
     '' SECOND)) AS bucket, '' @ innerVal e stepSec @ '' AS v FROM metrics WHERE '' @ Join cs '' AND '' @
     '' GROUP BY service, environment, attributes, bucket''"

definition aggFn :: "promExpr \<Rightarrow> string" where
  "aggFn e = (if pe_agg e = ''count'' then ''toFloat64(count())'' else pe_agg e @ ''(v)'')"

definition outerSQL :: "promExpr \<Rightarrow> string \<Rightarrow> string" where
  "outerSQL e inner =
     (if pe_agg e = [] then ''SELECT service, environment, attributes, bucket, v AS value FROM ('' @ inner @ '') ORDER BY bucket''
      else ''SELECT '' @ Join (map (\<lambda>l. labelExpr l @ '' AS '' @ quoteIdent l) (pe_by e) @ [''bucket'', aggFn e @ '' AS value'']) '', '' @
        '' FROM ('' @ inner @ '') GROUP BY '' @ Join (map quoteIdent (pe_by e) @ [''bucket'']) '', '' @ '' ORDER BY bucket'')"

definition compile_prom :: "promExpr \<Rightarrow> string \<Rightarrow> PromParams \<Rightarrow> (goerror, PromCompiled) outcome" where
  "compile_prom e tenant p =
     bindO (prom_window p) (\<lambda>(instant, stepSec, startUnix, endUnix).
     bindO (mapO matcherSQL (pe_matchers e)) (\<lambda>preds.
     Ok \<lparr>pc_SQL = outerSQL e (innerSQL e stepSec (prom_conjuncts e tenant startUnix endUnix preds)),
         pc_LabelCols = (if pe_agg e = [] then [''service'', ''environment''] else pe_by e),
         pc_Metric = pe_metric e, pc_HasAttrs = (pe_agg e = []), pc_Instant = instant\<rparr>))"

definition CompilePromQL :: "string \<Rightarrow> string \<Rightarrow> PromParams \<Rightarrow> (goerror, PromCompiled) outcome" where
  "CompilePromQL input tenantID p = bindO (parsePromQL (TrimSpace input)) (\<lambda>e. compile_prom e tenantID p)"

section \<open>Reading the compiled text\<close>

text \<open>
  The reader of theory \<open>Sql_Scan\<close> extended by identifiers between back quotes, in which a backslash
  escapes the next character as in literals, and by the division sign, which opens no comment.
\<close>

datatype q_state = Sql sql_state | Slash nat | InId nat | EscId nat

definition q_out :: "nat \<Rightarrow> sql_state \<Rightarrow> char \<Rightarrow> q_state" where
  "q_out d st c = (if c = bquote then InId d else if c = CHR ''/'' then Slash d else Sql (sql_step st c))"

fun q_step :: "q_state \<Rightarrow> char \<Rightarrow> q_state" where
  "q_step (Sql (Out d)) c = q_out d (Out d) c"
| "q_step (Sql (Dash d)) c = q_out d (Dash d) c"
| "q_step (Sql st) c = Sql (sql_step st c)"
| "q_step (Slash d) c = (if c = CHR ''*'' \<or> c = CHR ''/'' then Sql Bad else q_out d (Out d) c)"
| "q_step (InId d) c = (if c = backslash then EscId d else if c = bquote then Sql (Out d) else InId d)"
| "q_step (EscId d) c = InId d"

definition q_run :: "q_state \<Rightarrow> string \<Rightarrow> q_state" where
  "q_run = foldl q_step"

lemma q_run_simps [simp]:
  "q_run st [] = st" "q_run st (c # cs) = q_run (q_step st c) cs" "q_run st (s @ t) = q_run (q_run st s) t"
  by (simp_all add: q_run_def)

definition q_closed :: "string \<Rightarrow> bool" where
  "q_closed s \<longleftrightarrow> (\<forall>d. q_run (Sql (Out d)) s = Sql (Out d))"

lemma q_closedD: "q_closed s \<Longrightarrow> q_run (Sql (Out d)) s = Sql (Out d)"
  by (simp add: q_closed_def)

lemma q_closed_append [closed_intros]: "q_closed s \<Longrightarrow> q_closed t \<Longrightarrow> q_closed (s @ t)"
  by (simp add: q_closed_def)

lemma q_closed_Join [closed_intros]: "q_closed sep \<Longrightarrow> list_all q_closed xs \<Longrightarrow> q_closed (Join xs sep)"
  by (induction xs sep rule: Join.induct) (auto intro: q_closed_append simp: q_closed_def)

lemma not_plain: "\<not> sql_plain bquote" "\<not> sql_plain (CHR ''/'')"
  by (simp_all add: sql_plain_def bquote_def isIdentPart_def isIdentStart_def isDigit_def between_def)

lemma q_step_sql: "sql_step st c \<noteq> Bad \<Longrightarrow> q_step (Sql st) c = Sql (sql_step st c)"
  using not_plain by (cases st) (auto simp: q_out_def sql_out_def bquote_def)

lemma q_run_sql: "sql_run st s \<noteq> Bad \<Longrightarrow> q_run (Sql st) s = Sql (sql_run st s)"
proof (induction s arbitrary: st)
  case (Cons c cs)
  then have "sql_step st c \<noteq> Bad" by (cases "sql_step st c") auto
  with Cons show ?case by (simp add: q_step_sql)
qed simp

lemma closed_q [closed_intros]: "closed s \<Longrightarrow> q_closed s"
  by (simp add: closed_def q_closed_def q_run_sql)

lemma q_paren: "q_closed s \<Longrightarrow> q_closed (''('' @ s @ '')'')"
  by (simp add: q_closed_def q_out_def bquote_def sql_out_def)

lemma quoteIdent_q: "backslash \<notin> set l \<Longrightarrow> q_closed (quoteIdent l)"
proof -
  assume "backslash \<notin> set l"
  then have "q_run (InId d) (filter (\<lambda>r. r \<noteq> bquote) l) = InId d" for d by (induction l) auto
  then show ?thesis by (simp add: q_closed_def quoteIdent_def q_out_def bquote_def)
qed

section \<open>Closed fragments\<close>

lemma labelExpr_closed: "closed (labelExpr l)"
  unfolding labelExpr_def Let_def closed_def by (simp add: closedD[OF quote_closed] scan_simps)

lemma matcherSQL_closed: "matcherSQL m = Ok s \<Longrightarrow> closed s"
  by (auto simp: matcherSQL_def Let_def closed_def closedD[OF quote_closed] closedD[OF labelExpr_closed] scan_simps split: if_splits)

lemma preds_closed: "mapO matcherSQL ms = Ok preds \<Longrightarrow> list_all closed preds"
  unfolding mapO_Ok_iff by (induction ms preds rule: list_all2_induct) (auto dest: matcherSQL_closed)

lemma conjuncts_prom_closed: "list_all closed preds \<Longrightarrow> list_all closed (prom_conjuncts e tenant a b preds)"
  by (simp add: prom_conjuncts_def closed_def closedD[OF quote_closed] closedD[OF closed_show_int] scan_simps)

lemmas q_runs = q_closedD[OF closed_q[OF closed_show_int]]

lemma innerVal_q: "q_closed (innerVal e n)"
  by (simp add: innerVal_def q_closed_def q_out_def scan_simps bquote_def q_runs)

text \<open>The compiled text around the WHERE clause of its one subquery.\<close>

definition prom_pre :: "promExpr \<Rightarrow> int \<Rightarrow> string" where
  "prom_pre e stepSec =
     (if pe_agg e = [] then ''SELECT service, environment, attributes, bucket, v AS value FROM (''
      else ''SELECT '' @ Join (map (\<lambda>l. labelExpr l @ '' AS '' @ quoteIdent l) (pe_by e) @ [''bucket'', aggFn e @ '' AS value'']) '', '' @ '' FROM ('') @
     ''SELECT service, environment, attributes, toUnixTimestamp(toStartOfInterval(timestamp, INTERVAL '' @ show_int stepSec @
     '' SECOND)) AS bucket, '' @ innerVal e stepSec @ '' AS v''"

definition prom_post :: "promExpr \<Rightarrow> string" where
  "prom_post e = '' GROUP BY service, environment, attributes, bucket)'' @
     (if pe_agg e = [] then '' ORDER BY bucket''
      else '' GROUP BY '' @ Join (map quoteIdent (pe_by e) @ [''bucket'']) '', '' @ '' ORDER BY bucket'')"

lemma outerSQL_split: "outerSQL e (innerSQL e n cs) = prom_pre e n @ '' FROM metrics WHERE '' @ Join cs '' AND '' @ prom_post e"
  by (simp add: outerSQL_def innerSQL_def prom_pre_def prom_post_def)

lemma agg_prefix_known: "agg_prefix s \<in> {[], ''sum'', ''avg'', ''min'', ''max'', ''count''}"
  unfolding agg_prefix_def by (simp split: option.split)

lemma parse_agg_known: "parse_agg s = Ok (e, r) \<Longrightarrow> pe_agg e \<in> {[], ''sum'', ''avg'', ''min'', ''max'', ''count''}"
  using agg_prefix_known[of s]
  by (auto simp: parse_agg_def Let_def zero_promExpr_def split: if_splits outcome.splits goerror.splits prod.splits)

lemma agg_known: "parsePromQL s = Ok e \<Longrightarrow> pe_agg e \<in> {[], ''sum'', ''avg'', ''min'', ''max'', ''count''}"
proof -
  assume ok: "parsePromQL s = Ok e"
  then have s: "s \<noteq> []" by (auto simp: parsePromQL_def)
  with ok obtain e0 r where a: "parse_agg s = Ok (e0, r)"
    by (cases "parse_agg s") (auto simp: parsePromQL_def)
  obtain name sel where "re_selector (snd (parse_rate (e0, r))) = Some (name, sel)"
    using ok s a by (cases "re_selector (snd (parse_rate (e0, r)))") (auto simp: parsePromQL_def Let_def split_beta)
  then have c: "\<exists>name sel. e = (fst (parse_rate (e0, r)))\<lparr>pe_metric := name, pe_matchers := sel\<rparr>"
    using ok s a by (auto simp: parsePromQL_def Let_def split_beta)
  have "pe_agg (fst (parse_rate (e0, r))) = pe_agg e0" by (auto simp: parse_rate_def split: option.splits)
  with parse_agg_known[OF a] c show ?thesis by auto
qed

lemma aggFn_closed: "pe_agg e \<in> {[], ''sum'', ''avg'', ''min'', ''max'', ''count''} \<Longrightarrow> closed (aggFn e)"
  by (auto simp: aggFn_def closed_def scan_simps)

lemma prom_pre_q:
  assumes "\<forall>l \<in> set (pe_by e). backslash \<notin> set l" and "closed (aggFn e)"
  shows "q_run (Sql (Out 0)) (prom_pre e n) = Sql (Out 1)"
proof -
  have lit: "q_closed ''SELECT ''" "q_closed '', ''" "q_closed '' AS ''" "q_closed ''bucket''" "q_closed '' AS value''"
    "q_closed ''SELECT service, environment, attributes, bucket, v AS value FROM ''" "q_closed '' FROM ''"
    by (simp_all add: q_closed_def q_out_def scan_simps bquote_def)
  have "list_all q_closed (map (\<lambda>l. labelExpr l @ '' AS '' @ quoteIdent l) (pe_by e) @ [''bucket'', aggFn e @ '' AS value''])"
  proof -
    define f where "f = (\<lambda>l. labelExpr l @ '' AS '' @ quoteIdent l)"
    have "q_closed (f l)" if "l \<in> set (pe_by e)" for l
      unfolding f_def using that assms(1) by (intro q_closed_append closed_q[OF labelExpr_closed] quoteIdent_q lit) blast
    moreover have "q_closed (aggFn e @ '' AS value'')" by (intro q_closed_append closed_q[OF assms(2)] lit)
    ultimately show ?thesis unfolding f_def[symmetric] list_all_iff set_append set_map using lit(4) by auto
  qed
  then have j: "q_closed (Join (map (\<lambda>l. labelExpr l @ '' AS '' @ quoteIdent l) (pe_by e) @ [''bucket'', aggFn e @ '' AS value'']) '', '')"
    by (intro q_closed_Join lit)
  have i: "q_run (Sql (Out 1)) (''SELECT service, environment, attributes, toUnixTimestamp(toStartOfInterval(timestamp, INTERVAL '' @ show_int n @
     '' SECOND)) AS bucket, '' @ innerVal e n @ '' AS v'') = Sql (Out 1)"
    by (simp add: q_out_def scan_simps bquote_def q_runs q_closedD[OF innerVal_q])
  have open_sub: "q_run (Sql (Out 0)) (''SELECT service, environment, attributes, bucket, v AS value FROM ('') = Sql (Out 1)"
    "q_run (Sql (Out 0)) (''SELECT '' @ J @ '' FROM ('') = Sql (Out 1)" if "q_closed J" for J
    using q_closedD[OF that, of 0] by (simp_all add: q_out_def scan_simps bquote_def)
  note open_sub(1)[of "[]"] open_sub(2)[OF j]
  with i show ?thesis unfolding prom_pre_def by (auto simp only: q_run_simps(3) closed_q closed_Nil split: if_split)
qed

lemma prom_post_q:
  assumes "\<forall>l \<in> set (pe_by e). backslash \<notin> set l"
  shows "q_run (Sql (Out 1)) (prom_post e) = Sql (Out 0)"
proof -
  have "list_all q_closed (map quoteIdent (pe_by e) @ [''bucket''])"
    using assms by (auto simp: list_all_iff quoteIdent_q q_closed_def[of "''bucket''"] q_out_def scan_simps bquote_def)
  then have j: "q_closed (Join (map quoteIdent (pe_by e) @ [''bucket'']) '', '')"
    by (intro q_closed_Join) (simp_all add: q_closed_def q_out_def scan_simps bquote_def)
  show ?thesis unfolding prom_post_def by (simp add: q_out_def scan_simps bquote_def q_closedD[OF j])
qed

section \<open>Parentheses and windows\<close>

definition nest :: "string \<Rightarrow> int" where
  "nest s = int (length (filter (\<lambda>c. c = CHR ''('') s)) - int (length (filter (\<lambda>c. c = CHR '')'') s))"

lemma nest_simps [simp]: "nest [] = 0" "nest (c # s) = (if c = CHR ''('' then 1 else if c = CHR '')'' then - 1 else 0) + nest s"
  by (simp_all add: nest_def)

lemma paren_loop_iff: "0 < d \<Longrightarrow> s \<noteq> [] \<Longrightarrow>
  paren_loop d s \<longleftrightarrow> d + nest s = 0 \<and> (\<forall>k < length s. 0 < d + nest (take k s))"
proof (induction s arbitrary: d)
  case (Cons c cs)
  define d' where "d' = d + nest [c]"
  have rhs: "(d + nest (c # cs) = 0 \<and> (\<forall>k < length (c # cs). 0 < d + nest (take k (c # cs)))) \<longleftrightarrow>
    d' + nest cs = 0 \<and> (\<forall>k < length cs. 0 < d' + nest (take k cs))"
    using Cons.prems(1) by (simp add: All_less_Suc2 d'_def add.assoc)
  show ?case
  proof (cases "cs = []")
    case True
    then show ?thesis unfolding rhs by (simp add: d'_def)
  next
    case False
    show ?thesis
    proof (cases "d' = 0")
      case True
      then have "c = CHR '')'' \<and> d = 1" using Cons.prems(1) by (auto simp: d'_def split: if_splits)
      with False True show ?thesis unfolding rhs by (auto intro!: exI[of _ 0])
    next
      case nz: False
      then have "0 < d'" using Cons.prems(1) by (auto simp: d'_def split: if_splits)
      moreover have "paren_loop d (c # cs) = paren_loop d' cs" using nz by (auto simp: d'_def)
      ultimately show ?thesis unfolding rhs using Cons.IH[OF _ False] by simp
    qed
  qed
qed simp

lemma paren_loop_open: "u \<noteq> [] \<Longrightarrow> paren_loop 0 (CHR ''('' # u) \<longleftrightarrow>
  nest (CHR ''('' # u) = 0 \<and> (\<forall>k < length u. 0 < nest (take (Suc k) (CHR ''('' # u)))"
  using paren_loop_iff[of 1 u] by simp

lemma prom_window_pos: "prom_window p = Ok (i, step, a, b) \<Longrightarrow> 0 < step"
  by (auto simp: prom_window_def Let_def split: if_splits)

lemma CompilePromQL_shape:
  assumes "CompilePromQL input tenantID p = Ok r"
  obtains e i step a b preds where "parsePromQL (TrimSpace input) = Ok e" "prom_window p = Ok (i, step, a, b)"
    "mapO matcherSQL (pe_matchers e) = Ok preds" "pc_LabelCols r = (if pe_agg e = [] then [''service'', ''environment''] else pe_by e)"
    "pc_SQL r = outerSQL e (innerSQL e step (prom_conjuncts e tenantID a b preds))" "pc_Instant r = i"
  using assms by (auto simp: CompilePromQL_def compile_prom_def outcome_simps)

lemma prom_no_by: "pe_agg e = [] \<Longrightarrow> prom_pre e n = prom_pre (e\<lparr>pe_by := []\<rparr>) n \<and> prom_post e = prom_post (e\<lparr>pe_by := []\<rparr>)"
  by (simp add: prom_pre_def prom_post_def innerVal_def rate_secs_def)

section \<open>Properties\<close>


definition prom_query :: string where
  "prom_query = ''sum by (env) (rate(http.requests{service='' @ [dquote] @ ''a'' @ [backslash, dquote] @ ''pi'' @ [dquote] @ ''}[5m]))''"

definition prom_params :: PromParams where
  "prom_params = \<lparr>pp_StartUnix = 0, pp_EndUnix = 600, pp_StepSec = 60, pp_Lookback = 0\<rparr>"

definition prom_result :: PromCompiled where
  "prom_result = \<lparr>pc_SQL = ''SELECT environment AS `env`, bucket, sum(v) AS value FROM (SELECT service, environment, attributes, toUnixTimestamp(toStartOfInterval(timestamp, INTERVAL 60 SECOND)) AS bucket, (max(value) - min(value)) / 300 AS v FROM metrics WHERE tenant_id = '' @
       quote ''acme'' @ '' AND metric_name = '' @ quote ''http.requests'' @ '' AND timestamp >= fromUnixTimestamp(0) AND timestamp <= fromUnixTimestamp(600) AND service = '' @
       quote (''a'' @ [dquote] @ ''pi'') @ '' GROUP BY service, environment, attributes, bucket) GROUP BY `env`, bucket ORDER BY bucket'',
     pc_LabelCols = [''env''], pc_Metric = ''http.requests'', pc_HasAttrs = False, pc_Instant = False\<rparr>"

lemma prom_compiles: "CompilePromQL prom_query ''acme'' prom_params = Ok prom_result"
  by code_simp


definition label_pre :: string where
  "label_pre = ''SELECT attributes['' @ quote (''x'' @ [backslash]) @ ''] AS `x'' @ [backslash] @ ''`, attributes['' @ quote ''FROM metrics'' @ ''] AS `''"

definition label_post :: string where
  "label_post = '', sum(v) AS value FROM (SELECT service, environment, attributes, toUnixTimestamp(toStartOfInterval(timestamp, INTERVAL 60 SECOND)) AS bucket, argMax(value, timestamp) AS v FROM metrics WHERE tenant_id = '' @
     quote ''acme'' @ '' AND metric_name = '' @ quote ''m'' @ '' AND timestamp >= fromUnixTimestamp(0) AND timestamp <= fromUnixTimestamp(600) GROUP BY service, environment, attributes, bucket) GROUP BY `x'' @
     [backslash] @ ''`, `FROM metrics`, bucket ORDER BY bucket''"

text \<open>
  The guard can be escaped through a grouping label. \<open>quoteIdent\<close> drops back quotes but keeps
  backslashes, so a label that ends in a backslash leaves its identifier open up to the back quote
  that opens the next one: the text of the next label stands outside every quote, ahead of the
  guarded subquery.
\<close>

theorem quoteIdent_breaks_out:
  "\<exists>r pre post. CompilePromQL (''sum by (x'' @ [backslash] @ '', FROM metrics) (m)'') ''acme'' prom_params = Ok r \<and>
     pc_SQL r = pre @ ''FROM metrics`, bucket'' @ post \<and> q_run (Sql (Out 0)) pre = Sql (Out 0)"
proof -
  have "CompilePromQL (''sum by (x'' @ [backslash] @ '', FROM metrics) (m)'') ''acme'' prom_params =
    Ok \<lparr>pc_SQL = label_pre @ ''FROM metrics`, bucket'' @ label_post, pc_LabelCols = [''x'' @ [backslash], ''FROM metrics''],
        pc_Metric = ''m'', pc_HasAttrs = False, pc_Instant = False\<rparr>" by code_simp
  moreover have "q_run (Sql (Out 0)) label_pre = Sql (Out 0)" by code_simp
  ultimately show ?thesis by simp blast
qed

text \<open>
  No division by zero and no empty bucket: in every compiled query the bucket width and the
  divisor of \<open>rate\<close> are positive, whatever step, lookback and range the request asks for.
\<close>

theorem prom_divisors_positive:
  assumes "prom_window p = Ok (i, step, a, b)"
  shows "0 < step \<and> 0 < rate_secs e step"
  using prom_window_pos[OF assms] by (simp add: rate_secs_def)

theorem prom_divisors_positive_witness: "0 < (60::int) \<and> 0 < rate_secs (zero_promExpr\<lparr>pe_rate := True\<rparr>) 60"
  by (rule prom_divisors_positive[of prom_params False 60 0 600]) (simp add: prom_window_def prom_params_def)

text \<open>
  \<open>stripOuterParens\<close> removes exactly a pair that encloses the whole text: it succeeds when the
  trimmed text starts with a parenthesis whose partner is its last character, and returns what stands
  between them.
\<close>

theorem stripOuterParens_iff:
  "stripOuterParens s = Ok inner \<longleftrightarrow>
     TrimSpace s = ''('' @ inner @ '')'' \<and> nest (''('' @ inner @ '')'') = 0 \<and>
     (\<forall>k < length inner + 1. 0 < nest (take (Suc k) (''('' @ inner @ '')'')))"
proof -
  define t where "t = TrimSpace s"
  have "HasPrefix t ''('' \<and> HasPrefix (rev t) '')'' \<longleftrightarrow> (\<exists>m. t = ''('' @ m @ '')'')"
    by (cases t; cases t rule: rev_cases) (auto simp: HasPrefix_def append_eq_Cons_conv)
  moreover have "paren_loop 0 (''('' @ m @ '')'') \<longleftrightarrow> nest (''('' @ m @ '')'') = 0 \<and>
     (\<forall>k < length m + 1. 0 < nest (take (Suc k) (''('' @ m @ '')'')))" for m
    using paren_loop_open[of "m @ '')''"] by (simp del: paren_loop.simps nest_simps)
  moreover have "tl (butlast (''('' @ m @ '')'')) = m" for m by (simp add: butlast_append)
  ultimately show ?thesis unfolding stripOuterParens_def Let_def t_def[symmetric] by auto
qed

theorem stripOuterParens_iff_witness: "stripOuterParens '' (a(b)c) '' = Ok ''a(b)c''"
proof -
  have "TrimSpace '' (a(b)c) '' = ''('' @ ''a(b)c'' @ '')''" "nest (''('' @ ''a(b)c'' @ '')'') = 0"
    "\<forall>k < length ''a(b)c'' + 1. 0 < nest (take (Suc k) (''('' @ ''a(b)c'' @ '')''))" by code_simp+
  then show ?thesis using stripOuterParens_iff by blast
qed

end
