(* ===== verification/Sql_Confined.thy ===== *)
theory Sql_Confined
  imports PromQL
begin

text \<open>
  When a WHERE clause is confined to a tenant. A conjunct is a closed fragment with no OR at its top level:
  its skeleton is the text outside literals and parentheses. A statement is confined when it reads one table
  whose WHERE clause is the tenant guard joined with conjuncts by AND, and nothing around the clause can
  close or reopen it. The statements of both compilers are confined.
\<close>

section \<open>Skeletons and conjuncts\<close>

definition at_top :: "sql_state \<Rightarrow> bool" where
  "at_top st \<longleftrightarrow> st = Out 0 \<or> st = Dash 0"

fun skeleton :: "sql_state \<Rightarrow> string \<Rightarrow> string" where
  "skeleton st [] = []"
| "skeleton st (c # cs) =
     (let st' = sql_step st c in (if at_top st then [if at_top st' then c else CHR '' ''] else []) @ skeleton st' cs)"

fun words_loop :: "string \<Rightarrow> string \<Rightarrow> string list" where
  "words_loop w [] = (if w = [] then [] else [rev w])"
| "words_loop w (c # cs) = (if isIdentPart c then words_loop (c # w) cs else (if w = [] then [] else [rev w]) @ words_loop [] cs)"

definition conjunct :: "string \<Rightarrow> bool" where
  "conjunct s \<longleftrightarrow> closed s \<and> ''or'' \<notin> set (map ToLower (words_loop [] (skeleton (Out 0) s)))"

lemma skeleton_append: "skeleton st (s @ t) = skeleton st s @ skeleton (sql_run st s) t"
  by (induction st s rule: skeleton.induct) (simp_all add: Let_def)

text \<open>Inside a parenthesis a closed fragment never comes back to the top level.\<close>

fun deeper :: "sql_state \<Rightarrow> sql_state" where
  "deeper (Out d) = Out (Suc d)" | "deeper (Dash d) = Dash (Suc d)" | "deeper (InStr d) = InStr (Suc d)"
| "deeper (Esc d) = Esc (Suc d)" | "deeper Bad = Bad"

lemma deeper_step: "sql_step st c \<noteq> Bad \<Longrightarrow> sql_step (deeper st) c = deeper (sql_step st c)"
  by (cases st) (auto simp: sql_out_def split: nat.splits if_splits)

lemma deeper_skeleton: "sql_run st s \<noteq> Bad \<Longrightarrow> skeleton (deeper st) s = [] \<and> sql_run (deeper st) s = deeper (sql_run st s)"
proof (induction s arbitrary: st)
  case (Cons c cs)
  then have "sql_step st c \<noteq> Bad" by (cases "sql_step st c") auto
  moreover have "\<not> at_top (deeper st)" by (cases st) (auto simp: at_top_def)
  ultimately show ?case using Cons by (simp add: deeper_step)
qed simp

lemma skeleton_inner: "closed s \<Longrightarrow> skeleton (Out (Suc 0)) s = []"
  using deeper_skeleton[of "Out 0" s] by (simp add: closed_def)

lemma skeleton_escape: "skeleton (InStr d) (escape s) = []"
  by (induction s) (auto simp: escape_char_def at_top_def)

lemma skeleton_quote: "skeleton (Out 0) (quote s) = '' ''"
  by (simp add: quote_escape at_top_def sql_out_def skeleton_append skeleton_escape sql_run_escape)

lemma skeleton_quote_inner: "skeleton (Out (Suc 0)) (quote s) = []"
  by (rule skeleton_inner[OF quote_closed])

lemma skeleton_int_inner: "skeleton (Out (Suc 0)) (show_int n) = []"
  by (rule skeleton_inner[OF closed_show_int])

lemma skeleton_paren: "closed f \<Longrightarrow> skeleton (Out 0) (''('' @ f @ '')'') = '' ''"
  using skeleton_inner[of f] closedD[of f] by (simp add: skeleton_append at_top_def sql_out_def)

lemma skeleton_plain: "list_all sql_plain s \<Longrightarrow> skeleton (Out 0) s = s"
  by (induction s) (auto simp: sql_out_plain at_top_def)

lemma skeleton_closed: "closed s \<Longrightarrow> skeleton (Out 0) (s @ t) = skeleton (Out 0) s @ skeleton (Out 0) t"
  by (simp add: skeleton_append closedD)

text \<open>A plain text, a quoted literal or a parenthesis, with its skeleton: the pieces conjuncts are made of.\<close>

definition piece :: "string \<Rightarrow> string \<Rightarrow> bool" where
  "piece s sk \<longleftrightarrow> closed s \<and> skeleton (Out 0) s = sk"

lemma piece_plain: "list_all sql_plain s \<Longrightarrow> piece s s"
  by (simp add: piece_def closed_plain skeleton_plain)

lemma piece_quote: "piece (quote s) '' ''"
  by (simp add: piece_def quote_closed skeleton_quote)

lemma piece_paren: "closed f \<Longrightarrow> piece (''('' @ f @ '')'') '' ''"
  by (simp only: piece_def closed_paren skeleton_paren)

lemma piece_append: "piece s a \<Longrightarrow> piece t b \<Longrightarrow> piece (s @ t) (a @ b)"
  by (simp add: piece_def closed_append skeleton_closed)

definition no_or :: "string \<Rightarrow> bool" where
  "no_or sk \<longleftrightarrow> ''or'' \<notin> set (map ToLower (words_loop [] sk))"

lemma conjunct_piece: "piece s sk \<Longrightarrow> no_or sk \<Longrightarrow> conjunct s"
  by (simp add: piece_def conjunct_def no_or_def)

lemma conjunct_paren: "closed f \<Longrightarrow> conjunct (''('' @ f @ '')'')"
proof -
  assume "closed f"
  moreover have "no_or '' ''" by code_simp
  ultimately show ?thesis using conjunct_piece[OF piece_paren] by blast
qed

section \<open>Confined statements\<close>

definition where_of :: "string \<Rightarrow> string list \<Rightarrow> string" where
  "where_of tenant conjs = '' WHERE '' @ Join ((''tenant_id = '' @ quote tenant) # conjs) '' AND ''"

definition read_tables :: "string list" where
  "read_tables = [''logs'', ''auth_events'', ''metrics'', ''traces'', ''change_events'']"

text \<open>What may follow the clause: the end, a further clause or the end of the subquery.\<close>

definition ends_where :: "string \<Rightarrow> bool" where
  "ends_where post \<longleftrightarrow> post = [] \<or> list_ex (HasPrefix post) ['' GROUP BY '', '' ORDER BY '', '' LIMIT '']"

definition confined :: "string \<Rightarrow> string \<Rightarrow> bool" where
  "confined tenant sql \<longleftrightarrow> (\<exists>pre tbl conjs post d. sql = pre @ '' FROM '' @ tbl @ where_of tenant conjs @ post \<and> tbl \<in> set read_tables \<and>
     list_all conjunct conjs \<and> ends_where post \<and> q_run (Sql (Out 0)) pre = Sql (Out d) \<and> q_run (Sql (Out d)) post = Sql (Out 0))"

lemma confinedI:
  assumes "tbl \<in> set read_tables" "list_all conjunct conjs" "ends_where post" "q_run (Sql (Out 0)) pre = Sql (Out d)" "q_run (Sql (Out d)) post = Sql (Out 0)"
  shows "confined tenant (pre @ '' FROM '' @ tbl @ where_of tenant conjs @ post)"
  unfolding confined_def using assms by blast

lemma closed_run: "closed s \<Longrightarrow> q_run (Sql (Out d)) s = Sql (Out d)"
  by (intro q_closedD closed_q)

text \<open>A confined statement leaves no literal or parenthesis open.\<close>

lemma conjunct_closed: "conjunct s \<Longrightarrow> closed s"
  by (simp add: conjunct_def)

lemma where_closed: "list_all conjunct conjs \<Longrightarrow> closed (where_of tenant conjs)"
proof -
  assume "list_all conjunct conjs"
  then have "list_all closed conjs" using conjunct_closed by (auto simp only: list_all_iff)
  then have "closed (Join ((''tenant_id = '' @ quote tenant) # conjs) '' AND '')"
    by (intro closed_Join literal_closed) (simp only: list_all_iff list.set ball_simps closed_append literal_closed quote_closed)
  moreover have "closed '' WHERE ''" by (simp add: closed_def scan_simps)
  ultimately show ?thesis unfolding where_of_def by (rule closed_append[rotated])
qed

lemma table_closed: "tbl \<in> set read_tables \<Longrightarrow> closed tbl"
  by (auto simp: read_tables_def closed_def scan_simps)

lemma confined_balanced: "confined tenant sql \<Longrightarrow> q_run (Sql (Out 0)) sql = Sql (Out 0)"
  unfolding confined_def using where_closed table_closed by (auto simp only: q_run_simps(3) closed_run literal_closed)

section \<open>The statements of the compilers\<close>

lemma Join_guard: "Join (g # map (\<lambda>f. ''('' @ f @ '')'') fs) '' AND '' = g @ concat (map (\<lambda>f. '' AND ('' @ f @ '')'') fs)"
  by (induction fs arbitrary: g) (simp_all)

lemma ends_where_tail: "ends_where (group_sql gs @ order_sql ob @ '' LIMIT '' @ n)"
  by (auto simp: ends_where_def group_sql_def order_sql_def HasPrefix_def split: option.splits)

lemma guarded_confined:
  assumes "guarded_sql tenant sql" shows "confined tenant sql"
proof -
  from assms obtain c items filters gs ob n where t: "cc_table c \<in> set tables" and
    sql: "sql = select_sql items (cc_table c) tenant filters gs ob n" and
    parts: "list_all (sql_item c) items" "list_all closed filters" "list_all (sql_field c) gs"
     "pred_option (\<lambda>(e, _). sql_field c e) ob" unfolding guarded_sql_def by blast
  have "closed (Join items '', '')"
    using item_closed parts(1) by (intro closed_Join literal_closed) (metis list_all_iff)
  then have pre: "q_run (Sql (Out 0)) (''SELECT '' @ Join items '', '') = Sql (Out 0)" by (intro closed_run closed_append literal_closed)
  have "closed (Join gs '', '')"
    using sql_field_closed parts(3) by (intro closed_Join literal_closed) (metis list_all_iff)
  then have "closed (group_sql gs)" by (auto simp only: group_sql_def closed_append literal_closed closed_Nil split: if_split)
  moreover have "closed (order_sql ob)" using parts(4) sql_field_closed[of c]
    by (cases ob) (auto simp only: order_sql_def closed_append literal_closed closed_Nil option.case option.pred_inject split: prod.split if_split)
  ultimately have post: "q_run (Sql (Out 0)) (group_sql gs @ order_sql ob @ '' LIMIT '' @ show_int n) = Sql (Out 0)"
    by (intro closed_run closed_append literal_closed closed_show_int)
  have tbl: "cc_table c \<in> set read_tables" using t by (auto simp: tables_def read_tables_def)
  have conjs: "list_all conjunct (map (\<lambda>f. ''('' @ f @ '')'') filters)" using parts(2) conjunct_paren by (auto simp only: list_all_iff set_map)
  have "sql = (''SELECT '' @ Join items '', '') @ '' FROM '' @ cc_table c @ where_of tenant (map (\<lambda>f. ''('' @ f @ '')'') filters) @
      (group_sql gs @ order_sql ob @ '' LIMIT '' @ show_int n)"
    unfolding sql select_sql_def where_of_def Join_guard by simp
  then show ?thesis using confinedI[OF tbl conjs ends_where_tail pre post] by simp
qed

lemma Compile_confined: "Compile q tenant opts = Ok r \<Longrightarrow> confined tenant (c_SQL r)"
  by (intro guarded_confined Compile_guarded)

lemma label_piece: "\<exists>sk. piece (labelExpr l) sk \<and> sk \<in> {''metric_name'', ''service'', ''environment'', ''attributes[ ]''}"
proof -
  have "piece ''metric_name'' ''metric_name''" "piece ''service'' ''service''" "piece ''environment'' ''environment''" "piece ''attributes['' ''attributes[''" "piece '']'' '']''"
    by (rule piece_plain, code_simp)+
  then show ?thesis using piece_append[OF _ piece_append[OF piece_quote[of l]], of "''attributes[''" "''attributes[''" "'']''" "'']''"]
    by (auto simp: labelExpr_def Let_def)
qed

lemma piece_cmp: "piece '' = '' '' = ''" "piece '' != '' '' != ''" "piece ''match'' ''match''" "piece ''NOT match'' ''NOT match''"
  by (rule piece_plain, code_simp)+

lemma matcher_conjunct: "matcherSQL m = Ok s \<Longrightarrow> conjunct s"
proof -
  assume m: "matcherSQL m = Ok s"
  obtain l where l: "piece (labelExpr (pm_label m)) l" "l \<in> {''metric_name'', ''service'', ''environment'', ''attributes[ ]''}"
    using label_piece by blast
  have "conjunct (labelExpr (pm_label m) @ '' = '' @ quote v)" "conjunct (labelExpr (pm_label m) @ '' != '' @ quote v)" for v
  proof -
    have "no_or (l @ '' = '' @ '' '')" "no_or (l @ '' != '' @ '' '')" using l(2) by (elim insertE emptyE; simp only:; code_simp)+
    then show "conjunct (labelExpr (pm_label m) @ '' = '' @ quote v)" "conjunct (labelExpr (pm_label m) @ '' != '' @ quote v)"
      using conjunct_piece[OF piece_append[OF l(1) piece_append[OF piece_cmp(1) piece_quote]]]
        conjunct_piece[OF piece_append[OF l(1) piece_append[OF piece_cmp(2) piece_quote]]] by blast+
  qed
  moreover have "conjunct (''match('' @ labelExpr (pm_label m) @ '', '' @ quote v @ '')'')" "conjunct (''NOT match('' @ labelExpr (pm_label m) @ '', '' @ quote v @ '')'')" for v
  proof -
    have "closed (labelExpr (pm_label m) @ '', '' @ quote v)" by (intro closed_append labelExpr_closed literal_closed quote_closed)
    note p = piece_paren[OF this]
    have "no_or (''match'' @ '' '')" "no_or (''NOT match'' @ '' '')" by code_simp+
    then show "conjunct (''match('' @ labelExpr (pm_label m) @ '', '' @ quote v @ '')'')" "conjunct (''NOT match('' @ labelExpr (pm_label m) @ '', '' @ quote v @ '')'')"
      using conjunct_piece[OF piece_append[OF piece_cmp(3) p]] conjunct_piece[OF piece_append[OF piece_cmp(4) p]] by simp_all
  qed
  ultimately show ?thesis using m by (auto simp only: matcherSQL_def Let_def outcome.inject outcome.distinct split: if_splits)
qed

lemma conjunct_quote:
  assumes "list_all sql_plain a" "no_or (a @ '' '')" shows "conjunct (a @ quote v)"
  using assms by (intro conjunct_piece[OF piece_append[OF piece_plain piece_quote]])

lemma conjunct_call:
  assumes "list_all sql_plain a" "no_or (a @ '' '')" "closed x" shows "conjunct (a @ ''('' @ x @ '')'')"
  using assms by (intro conjunct_piece[OF piece_append[OF piece_plain piece_paren]])

lemma prom_conjs: "list_all conjunct preds \<Longrightarrow> list_all conjunct (tl (prom_conjuncts e tenant a b preds))"
proof -
  have "conjunct (''metric_name = '' @ quote (pe_metric e))" by (rule conjunct_quote) code_simp+
  moreover have "conjunct (''timestamp >= fromUnixTimestamp'' @ ''('' @ show_int a @ '')'')" "conjunct (''timestamp <= fromUnixTimestamp'' @ ''('' @ show_int b @ '')'')"
    by (rule conjunct_call, code_simp, code_simp, rule closed_show_int)+
  ultimately show "list_all conjunct preds \<Longrightarrow> ?thesis" by (simp add: prom_conjuncts_def)
qed

lemma preds_conjunct: "mapO matcherSQL ms = Ok preds \<Longrightarrow> list_all conjunct preds"
  unfolding mapO_Ok_iff by (induction ms preds rule: list_all2_induct) (auto dest: matcher_conjunct)

lemma prom_around:
  assumes "parsePromQL s = Ok e" "\<forall>l \<in> set (if pe_agg e = [] then [''service'', ''environment''] else pe_by e). backslash \<notin> set l"
  shows "q_run (Sql (Out 0)) (prom_pre e step) = Sql (Out 1) \<and> q_run (Sql (Out 1)) (prom_post e) = Sql (Out 0)"
proof -
  have "aggFn (e\<lparr>pe_by := []\<rparr>) = aggFn e" by (simp add: aggFn_def)
  then have fn: "closed (aggFn e)" "closed (aggFn (e\<lparr>pe_by := []\<rparr>))" using aggFn_closed[OF agg_known[OF assms(1)]] by simp_all
  show ?thesis
  proof (cases "pe_agg e = []")
    case True
    then show ?thesis using prom_no_by[OF True, of step] prom_pre_q[of "e\<lparr>pe_by := []\<rparr>" step] prom_post_q[of "e\<lparr>pe_by := []\<rparr>"] fn by simp
  next
    case False
    then show ?thesis using assms(2) prom_pre_q[OF _ fn(1)] prom_post_q by simp
  qed
qed

lemma CompilePromQL_confined:
  assumes "CompilePromQL input tenant p = Ok r" and "\<forall>l \<in> set (pc_LabelCols r). backslash \<notin> set l"
  shows "confined tenant (pc_SQL r)"
proof -
  obtain e i step a b preds where c: "parsePromQL (TrimSpace input) = Ok e" "mapO matcherSQL (pe_matchers e) = Ok preds"
    "pc_LabelCols r = (if pe_agg e = [] then [''service'', ''environment''] else pe_by e)"
    "pc_SQL r = outerSQL e (innerSQL e step (prom_conjuncts e tenant a b preds))"
    by (rule CompilePromQL_shape[OF assms(1)])
  define rest where "rest = tl (prom_conjuncts e tenant a b preds)"
  have cs: "prom_conjuncts e tenant a b preds = (''tenant_id = '' @ quote tenant) # rest" by (simp add: rest_def prom_conjuncts_def)
  have "list_all conjunct rest" unfolding rest_def by (rule prom_conjs[OF preds_conjunct[OF c(2)]])
  moreover have "''metrics'' \<in> set read_tables" "ends_where (prom_post e)" by (simp_all add: read_tables_def ends_where_def prom_post_def HasPrefix_def)
  moreover have "q_run (Sql (Out 0)) (prom_pre e step) = Sql (Out 1)" "q_run (Sql (Out 1)) (prom_post e) = Sql (Out 0)"
    using prom_around[OF c(1)] assms(2) c(3) by simp_all
  ultimately have "confined tenant (prom_pre e step @ '' FROM '' @ ''metrics'' @ where_of tenant rest @ prom_post e)" by (intro confinedI)
  then show ?thesis unfolding c(4) outerSQL_split cs where_of_def by simp
qed

end
