(* ===== verification/Sql_Layout.thy ===== *)
theory Sql_Layout
  imports Sql_Confined
begin

text \<open>
  Statements written as indented raw text. Outside literals ClickHouse reads any run of white space as one
  blank; \<open>flat\<close> is the statement with such runs replaced, and a laid-out statement is confined when its flat
  form is. Literals keep their characters, so that the flat form of a text with quoted arguments is computed
  piece by piece.
\<close>

fun outside :: "sql_state \<Rightarrow> bool" where
  "outside (Out d) = True" | "outside (Dash d) = True" | "outside _ = False"

fun squeeze :: "bool \<Rightarrow> sql_state \<Rightarrow> string \<Rightarrow> string" where
  "squeeze sp st [] = []"
| "squeeze sp st (c # cs) =
     (if outside st \<and> is_space c then (if sp then [] else '' '') @ squeeze True (sql_step st (CHR '' '')) cs
      else c # squeeze False (sql_step st c) cs)"

fun squeezed :: "bool \<times> sql_state \<Rightarrow> string \<Rightarrow> bool \<times> sql_state" where
  "squeezed (sp, st) [] = (sp, st)"
| "squeezed (sp, st) (c # cs) =
     squeezed (if outside st \<and> is_space c then (True, sql_step st (CHR '' '')) else (False, sql_step st c)) cs"

definition flat :: "string \<Rightarrow> string" where
  "flat sql = squeeze False (Out 0) sql"

definition laid_out :: "string \<Rightarrow> string \<Rightarrow> bool" where
  "laid_out tenant sql \<longleftrightarrow> confined tenant (flat sql)"

text \<open>A piece between two points outside literals, with its flat form and whether a blank was the last character.\<close>

definition lays :: "bool \<Rightarrow> nat \<Rightarrow> string \<Rightarrow> string \<Rightarrow> bool \<Rightarrow> nat \<Rightarrow> bool" where
  "lays sp d s t sp' d' \<longleftrightarrow> squeeze sp (Out d) s = t \<and> squeezed (sp, Out d) s = (sp', Out d')"

lemma squeeze_append: "squeeze sp st (s @ t) = squeeze sp st s @ squeeze (fst (squeezed (sp, st) s)) (snd (squeezed (sp, st) s)) t"
  by (induction s arbitrary: sp st) simp_all

lemma squeezed_append: "squeezed p (s @ t) = squeezed (squeezed p s) t"
proof (induction s arbitrary: p)
  case Nil
  then show ?case by (cases p) simp
next
  case (Cons c cs)
  then show ?case by (cases p) simp
qed

lemma lays_append: "lays sp d s t sp1 d1 \<Longrightarrow> lays sp1 d1 s' t' sp2 d2 \<Longrightarrow> lays sp d (s @ s') (t @ t') sp2 d2"
  by (simp add: lays_def squeeze_append squeezed_append)

lemma squeeze_literal: "squeeze sp (InStr d) (escape s @ squote # t) = escape s @ squote # squeeze False (Out d) t"
  by (induction s arbitrary: sp) (auto simp: escape_char_def)

lemma squeezed_literal: "squeezed (sp, InStr d) (escape s @ squote # t) = squeezed (False, Out d) t"
  by (induction s arbitrary: sp) (auto simp: escape_char_def)

lemma squote_no_space: "\<not> is_space squote"
  by code_simp

lemma lays_quote: "lays sp d (quote s) (quote s) False d"
  using squeeze_literal[of False d s "[]"] squeezed_literal[of False d s "[]"]
  by (simp add: lays_def quote_escape squote_no_space sql_out_def)

lemma lays_flat: "lays False 0 s t sp d \<Longrightarrow> flat s = t"
  by (simp add: lays_def flat_def)

lemma laid_outI: "lays False 0 sql t sp d \<Longrightarrow> confined tenant t \<Longrightarrow> laid_out tenant sql"
  by (simp add: laid_out_def lays_flat)

section \<open>Numbers and clauses\<close>

lemma words_split: "\<not> isIdentPart c \<Longrightarrow> words_loop w (xs @ c # ys) = words_loop w xs @ words_loop [] ys"
  by (induction w xs rule: words_loop.induct) simp_all

lemma no_or_split: "\<not> isIdentPart c \<Longrightarrow> no_or (xs @ c # ys) \<longleftrightarrow> no_or xs \<and> no_or ys"
  by (auto simp: no_or_def words_split)

lemma words_ident: "list_all isIdentPart s \<Longrightarrow> words_loop w s = (if rev s @ w = [] then [] else [rev w @ s])"
  by (induction s arbitrary: w) auto

lemma digit_ident: "isDigit c \<Longrightarrow> isIdentPart c"
  by (simp add: isIdentPart_def)

lemma digits_or: "list_all isDigit s \<Longrightarrow> no_or s"
proof -
  assume s: "list_all isDigit s"
  have "ToLower s \<noteq> ''or''"
  proof
    assume "ToLower s = ''or''"
    then obtain c where c: "hd s = c" "lower_char c = CHR ''o''" "isDigit c" using s by (cases s) (auto simp: ToLower_def)
    have "lower_char c = c" using c(3) by (auto simp: lower_char_def between_def isDigit_code)
    moreover have "\<not> isDigit (CHR ''o'')" by code_simp
    ultimately show False using c by simp
  qed
  moreover have "list_all isIdentPart s" using s digit_ident by (auto simp: list_all_iff)
  ultimately show ?thesis by (simp add: no_or_def words_ident)
qed

lemma show_int_shape: "\<exists>ds. list_all isDigit ds \<and> ds \<noteq> [] \<and> (show_int n = ds \<or> show_int n = CHR ''-'' # ds)"
  using show_digits_digits[of n] show_digits_nonempty[of n] show_digits_digits[of "- n"] show_digits_nonempty[of "- n"] by (auto simp: show_int_def)

lemma no_or_int: "no_or (show_int n)"
proof -
  obtain ds where ds: "list_all isDigit ds" "show_int n = ds \<or> show_int n = [] @ CHR ''-'' # ds" using show_int_shape[of n] by auto
  have "\<not> isIdentPart (CHR ''-'')" "no_or []" by code_simp+
  then show ?thesis using ds(2) digits_or[OF ds(1)] no_or_split[of "CHR ''-''" "[]" ds] by auto
qed

lemma digit_run: "isDigit c \<Longrightarrow> \<not> is_space c \<and> c \<noteq> CHR ''-'' \<and> sql_out d c = Out d"
  using digit_ident[of c] sql_out_plain[of c d] by (auto simp: is_space_def isDigit_code sql_plain_def)

lemma piece_int: "piece (show_int n) (show_int n)"
proof -
  obtain ds where ds: "list_all isDigit ds" "ds \<noteq> []" "show_int n = ds \<or> show_int n = CHR ''-'' # ds" using show_int_shape[of n] by blast
  then obtain c cs where c: "ds = c # cs" "isDigit c" by (cases ds) auto
  have "list_all sql_plain cs" using ds(1) c(1) digit_ident by (auto simp: list_all_iff sql_plain_def)
  then have "skeleton (Out 0) cs = cs" by (rule skeleton_plain)
  moreover have "sql_out 0 (CHR ''-'') = Dash 0" by code_simp
  ultimately show ?thesis using ds(3) c digit_run[OF c(2), of 0] by (auto simp: piece_def closed_show_int at_top_def)
qed

lemma lays_int: "lays sp d (show_int n) (show_int n) False d"
proof -
  have digits: "ds \<noteq> [] \<Longrightarrow> list_all isDigit ds \<Longrightarrow> lays sp d ds ds False d" for sp ds
  proof (induction ds arbitrary: sp)
    case (Cons c cs)
    then show ?case using digit_run[of c d] by (cases cs) (auto simp: lays_def)
  qed simp
  obtain ds where ds: "list_all isDigit ds" "ds \<noteq> []" "show_int n = ds \<or> show_int n = CHR ''-'' # ds" using show_int_shape[of n] by blast
  then obtain c cs where c: "ds = c # cs" "isDigit c" by (cases ds) auto
  have m: "\<not> is_space (CHR ''-'')" "sql_out d (CHR ''-'') = Dash d" by (simp_all add: is_space_def sql_out_def code_of_Char)
  show ?thesis using ds(3)
  proof
    assume "show_int n = ds"
    then show ?thesis using digits[OF ds(2,1)] by simp
  next
    assume "show_int n = CHR ''-'' # ds"
    then show ?thesis using digits[OF ds(2,1), of False] m c digit_run[OF c(2), of d] by (auto simp: lays_def)
  qed
qed

text \<open>\<open>x > now() - INTERVAL n SECOND\<close>\<close>

lemma conjunct_since:
  assumes "op \<in> {'' > '', '' >= '', '' < '', '' <= ''}"
  shows "conjunct (''timestamp'' @ op @ ''now() - INTERVAL '' @ show_int n @ '' SECOND'')"
proof -
  have i: "piece '' - INTERVAL '' '' - INTERVAL ''" unfolding piece_def closed_def by (intro conjI) (simp add: scan_simps, code_simp)
  have p: "piece (''timestamp'' @ op @ ''now'') (''timestamp'' @ op @ ''now'')" "piece '' SECOND'' '' SECOND''"
    by (rule piece_plain, use assms in \<open>(elim insertE emptyE; simp only:; code_simp)\<close>) (rule piece_plain, code_simp)
  have "piece ((''timestamp'' @ op @ ''now'') @ (''('' @ [] @ '')'') @ '' - INTERVAL '' @ show_int n @ '' SECOND'')
    ((''timestamp'' @ op @ ''now'') @ '' '' @ '' - INTERVAL '' @ show_int n @ '' SECOND'')"
    by (intro piece_append piece_int p i) (rule piece_paren[OF closed_Nil])
  moreover have "no_or (((''timestamp'' @ op @ ''now'') @ '' '' @ '' - INTERVAL'') @ CHR '' '' # (show_int n @ CHR '' '' # ''SECOND''))"
  proof -
    have w: "no_or ((''timestamp'' @ op @ ''now'') @ '' '' @ '' - INTERVAL'')" "no_or ''SECOND''" "\<not> isIdentPart (CHR '' '')"
      using assms by (elim insertE emptyE; simp only:; code_simp) code_simp+
    show ?thesis unfolding no_or_split[OF w(3)] using w(1,2) no_or_int by blast
  qed
  ultimately show ?thesis using conjunct_piece by simp
qed

lemma Join_tail: "Join (g # cs) '' AND '' = g @ concat (map (\<lambda>c. '' AND '' @ c) cs)"
  by (induction cs arbitrary: g) simp_all

lemma laid_out_select:
  assumes "lays False 0 h (pre @ '' FROM '' @ tbl @ '' WHERE tenant_id = '') sp 0"
    and "lays False 0 r (concat (map (\<lambda>c. '' AND '' @ c) conjs) @ post) sp' 0"
    and "q_run (Sql (Out 0)) pre = Sql (Out 0)" "tbl \<in> set read_tables" "list_all conjunct conjs" "ends_where post" "q_run (Sql (Out 0)) post = Sql (Out 0)"
  shows "laid_out tenant (h @ quote tenant @ r)"
proof -
  have "confined tenant (pre @ '' FROM '' @ tbl @ where_of tenant conjs @ post)" by (rule confinedI[OF assms(4,5,6,3,7)])
  then show ?thesis using laid_outI[OF lays_append[OF assms(1) lays_append[OF lays_quote assms(2)]]] by (simp add: where_of_def Join_tail)
qed

end
