(* ===== verification/Billing.thy ===== *)
theory Billing
  imports Tenant_Store Float_Mono Go_Date Sql_Layout
begin

text \<open>
  Billing and retention: \<open>domains/billing/billing.go\<close>, \<open>domains/retention/cost.go\<close> and \<open>retention.go\<close>, and the
  handlers \<open>billing.go\<close>, \<open>retention.go\<close>, \<open>retention_cost.go\<close> and \<open>quota.go\<close> over the tables \<open>tenant_plans\<close> and
  \<open>retention_config\<close>. Amounts are \<open>float64\<close>; a formula is monotone although each of its steps rounds.
\<close>

section \<open>Invoice preview\<close>

record Plan =
  bp_Plan :: string
  bp_IncludedEvents :: int
  bp_IncludedGB :: f64
  bp_OveragePerMillionEvents :: f64
  bp_OveragePerGB :: f64

record InvoicePreview =
  ip_IncludedEvents :: int
  ip_IncludedGB :: f64
  ip_OverageEvents :: int
  ip_OverageGB :: f64
  ip_OverageEventsCost :: f64
  ip_OverageGBCost :: f64
  ip_TotalCost :: f64

definition bytesPerGB :: f64 where "bytesPerGB = of_int64 (10 ^ 9)"
definition eventsPerMillion :: f64 where "eventsPerMillion = of_int64 (10 ^ 6)"

definition round2 :: "f64 \<Rightarrow> f64" where "round2 = round_to 100"
definition round3 :: "f64 \<Rightarrow> f64" where "round3 = round_to 1000"

text \<open>\<open>if x < 0 { x = 0 }\<close>\<close>

definition floor0 :: "f64 \<Rightarrow> f64" where
  "floor0 x = (if flt x (Zero False) then Zero False else x)"

definition ComputeInvoicePreview :: "Plan \<Rightarrow> int \<Rightarrow> int \<Rightarrow> InvoicePreview" where
  "ComputeInvoicePreview plan usageEvents usageBytes =
     (let usageGB = fdiv (of_int64 usageBytes) bytesPerGB;
          overageEvents = wrap64 (usageEvents - bp_IncludedEvents plan);
          overageEvents = (if overageEvents < 0 then 0 else overageEvents);
          overageGB = floor0 (fsub usageGB (bp_IncludedGB plan));
          overageEventsCost = round2 (fmul (fdiv (of_int64 overageEvents) eventsPerMillion) (bp_OveragePerMillionEvents plan));
          overageGBCost = round2 (fmul overageGB (bp_OveragePerGB plan))
      in \<lparr>ip_IncludedEvents = bp_IncludedEvents plan, ip_IncludedGB = bp_IncludedGB plan,
          ip_OverageEvents = overageEvents, ip_OverageGB = round3 overageGB,
          ip_OverageEventsCost = overageEventsCost, ip_OverageGBCost = overageGBCost,
          ip_TotalCost = round2 (fadd overageEventsCost overageGBCost)\<rparr>)"

section \<open>Retention cost\<close>

record SignalCost =
  sc_Signal :: string
  sc_DailyBytes :: int
  sc_RetainedGB :: f64
  sc_MonthlyUSD :: f64

record CostEstimate =
  ce_RetentionDays :: int
  ce_RatePerGBMonth :: f64
  ce_Signals :: "SignalCost list"
  ce_TotalGB :: f64
  ce_TotalMonthlyUSD :: f64

record WhatIf =
  wi_RetentionDays :: int
  wi_TotalGB :: f64
  wi_TotalMonthlyUSD :: f64

definition signalOrder :: "string list" where
  "signalOrder = [''logs'', ''metrics'', ''traces'']"

definition signal_cost :: "int \<Rightarrow> f64 \<Rightarrow> string \<times> int \<Rightarrow> SignalCost" where
  "signal_cost days rate = (\<lambda>(sig, daily).
     (let gb = round3 (fdiv (fmul (of_int64 daily) (of_int64 days)) bytesPerGB)
      in \<lparr>sc_Signal = sig, sc_DailyBytes = daily, sc_RetainedGB = gb, sc_MonthlyUSD = round2 (fmul gb rate)\<rparr>))"

definition add_signal :: "int \<Rightarrow> f64 \<Rightarrow> CostEstimate \<Rightarrow> string \<times> int \<Rightarrow> CostEstimate" where
  "add_signal days rate est sd =
     (let c = signal_cost days rate sd
      in est\<lparr>ce_Signals := ce_Signals est @ [c], ce_TotalGB := fadd (ce_TotalGB est) (sc_RetainedGB c),
             ce_TotalMonthlyUSD := fadd (ce_TotalMonthlyUSD est) (sc_MonthlyUSD c)\<rparr>)"

text \<open>The map of daily bytes is listed in the order Go iterates over it.\<close>

definition ordered_signals :: "(string \<times> int) list \<Rightarrow> (string \<times> int) list" where
  "ordered_signals daily =
     List.map_filter (\<lambda>sig. map_option (Pair sig) (map_of daily sig)) signalOrder @ filter (\<lambda>(sig, _). sig \<notin> set signalOrder) daily"

definition EstimateCost :: "(string \<times> int) list \<Rightarrow> int \<Rightarrow> f64 \<Rightarrow> CostEstimate" where
  "EstimateCost dailyBytes retentionDays rate =
     (let days = (if retentionDays < 0 then 0 else retentionDays);
          est = foldl (add_signal days rate)
            \<lparr>ce_RetentionDays = days, ce_RatePerGBMonth = rate, ce_Signals = [], ce_TotalGB = Zero False, ce_TotalMonthlyUSD = Zero False\<rparr>
            (ordered_signals dailyBytes)
      in est\<lparr>ce_TotalGB := round3 (ce_TotalGB est), ce_TotalMonthlyUSD := round2 (ce_TotalMonthlyUSD est)\<rparr>)"

definition WhatIfRetention :: "(string \<times> int) list \<Rightarrow> int list \<Rightarrow> f64 \<Rightarrow> WhatIf list" where
  "WhatIfRetention dailyBytes days rate =
     map (\<lambda>d. let e = EstimateCost dailyBytes d rate
              in \<lparr>wi_RetentionDays = d, wi_TotalGB = ce_TotalGB e, wi_TotalMonthlyUSD = ce_TotalMonthlyUSD e\<rparr>) days"

section \<open>The tables\<close>

text \<open>
  \<open>masking_actions\<close> is written only as the JSON of a string map, so the column is that map. \<open>be_numeric s x\<close> is
  what a \<open>NUMERIC\<close> column of scale \<open>s\<close> keeps of a value, or the error of the statement when it is out of range.
\<close>

record retention_row =
  rr_days :: int
  rr_actions :: "string \<rightharpoonup> string"
  rr_updated :: int

record billing_store =
  bs_plans :: "string \<rightharpoonup> Plan"
  bs_configs :: "string \<rightharpoonup> retention_row"

record billing_env =
  be_tenant :: string
  be_now :: int
  be_db :: "nat \<Rightarrow> fault"
  be_ch :: ch_query
  be_oob :: "f64 \<Rightarrow> int"
  be_numeric :: "nat \<Rightarrow> f64 \<Rightarrow> string + f64"
  be_rate :: string
  be_ParseFloat :: "string \<Rightarrow> f64 option"

datatype billing_answer =
    BError int string
  | BPlan Plan
  | BPreview string int int Plan int int InvoicePreview
  | BRetention int "string \<rightharpoonup> string" int
  | BRetentionSet int "string \<rightharpoonup> string"
  | BCost CostEstimate "WhatIf list"
  | BQuota string int int int int int

definition DefaultDays :: int where "DefaultDays = 7"

text \<open>\<open>retention.Get\<close>\<close>

definition retention_Get :: "billing_env \<Rightarrow> string \<Rightarrow> billing_store \<Rightarrow> string + int \<times> (string \<rightharpoonup> string)" where
  "retention_Get env tenant st =
     (case be_db env 0 of
        Some e \<Rightarrow> Inl (''read retention config: '' @ e)
      | None \<Rightarrow> (case bs_configs st tenant of
          None \<Rightarrow> Inr (DefaultDays, Map.empty)
        | Some r \<Rightarrow> Inr (rr_days r, rr_actions r)))"

section \<open>Plan handlers\<close>

definition free_plan :: Plan where
  "free_plan = \<lparr>bp_Plan = ''free'', bp_IncludedEvents = 0, bp_IncludedGB = Zero False, bp_OveragePerMillionEvents = Zero False, bp_OveragePerGB = Zero False\<rparr>"

definition validPlans :: "string list" where
  "validPlans = [''free'', ''pro'', ''enterprise'']"

definition billingLoadPlan :: "billing_env \<Rightarrow> nat \<Rightarrow> billing_store \<Rightarrow> Plan" where
  "billingLoadPlan env n st = (if be_db env n \<noteq> None then free_plan else case bs_plans st (be_tenant env) of None \<Rightarrow> free_plan | Some p \<Rightarrow> p)"

definition BillingGetPlan :: "billing_env \<Rightarrow> billing_store \<Rightarrow> billing_answer" where
  "BillingGetPlan env st = BPlan (billingLoadPlan env 0 st)"

definition negative_plan :: "Plan \<Rightarrow> bool" where
  "negative_plan b \<longleftrightarrow> bp_IncludedEvents b < 0 \<or> flt (bp_IncludedGB b) (Zero False) \<or>
     flt (bp_OveragePerMillionEvents b) (Zero False) \<or> flt (bp_OveragePerGB b) (Zero False)"

text \<open>The row the statement writes, or the error of a column.\<close>

definition plan_row :: "billing_env \<Rightarrow> Plan \<Rightarrow> string + Plan" where
  "plan_row env b =
     (case be_db env 0 of
        Some e \<Rightarrow> Inl e
      | None \<Rightarrow> case be_numeric env 3 (bp_IncludedGB b) of Inl e \<Rightarrow> Inl e | Inr g \<Rightarrow>
          case be_numeric env 4 (bp_OveragePerMillionEvents b) of Inl e \<Rightarrow> Inl e | Inr m \<Rightarrow>
          case be_numeric env 4 (bp_OveragePerGB b) of Inl e \<Rightarrow> Inl e | Inr r \<Rightarrow>
            Inr (b\<lparr>bp_IncludedGB := g, bp_OveragePerMillionEvents := m, bp_OveragePerGB := r\<rparr>))"

definition BillingSetPlan :: "billing_env \<Rightarrow> Plan option \<Rightarrow> billing_store \<Rightarrow> billing_answer \<times> billing_store" where
  "BillingSetPlan env body st =
     (case body of
        None \<Rightarrow> (BError 400 ''invalid JSON'', st)
      | Some b \<Rightarrow>
          let b = (if bp_Plan b = [] then b\<lparr>bp_Plan := ''free''\<rparr> else b) in
          if bp_Plan b \<notin> set validPlans then (BError 400 ''plan must be one of free|pro|enterprise'', st)
          else if negative_plan b then (BError 400 ''allowances and rates must be non-negative'', st)
          else case plan_row env b of
            Inl e \<Rightarrow> (BError 500 e, st)
          | Inr row \<Rightarrow> (BPlan b, st\<lparr>bs_plans := (bs_plans st)(be_tenant env \<mapsto> row)\<rparr>))"

section \<open>Usage of the month\<close>

definition eol :: string where "eol = [CHR 0x0A]"
definition tabs :: "nat \<Rightarrow> string" where "tabs n = replicate n (CHR 0x09)"

text \<open>The statement as it is laid out, indented by \<open>ind\<close> tabs; the tenant goes between quotes as it is.\<close>

definition raw_literal :: "string \<Rightarrow> string" where
  "raw_literal s = [squote] @ s @ [squote]"

definition usage_sql :: "nat \<Rightarrow> string \<Rightarrow> string \<Rightarrow> string \<Rightarrow> string" where
  "usage_sql ind tenant from to =
     ''SELECT count() AS events, sum(length(body)) AS bytes'' @ eol @ tabs ind @ '' FROM logs'' @ eol @ tabs ind @
     '' WHERE tenant_id = '' @ raw_literal tenant @ eol @ tabs ind @
     ''   AND timestamp >= toDateTime('' @ raw_literal from @ '')'' @ eol @ tabs ind @
     ''   AND timestamp < toDateTime('' @ raw_literal to @ '')''"

definition float_cell :: "billing_env \<Rightarrow> row list \<Rightarrow> string \<Rightarrow> int" where
  "float_cell env rows k =
     (case rows of [] \<Rightarrow> 0 | r # _ \<Rightarrow> (case cell r k of AnyFloat x \<Rightarrow> int64_of (be_oob env) x | _ \<Rightarrow> 0))"

definition period_start :: "billing_env \<Rightarrow> int \<times> int" where
  "period_start env = month_at (be_now env)"

definition period_end :: "billing_env \<Rightarrow> int \<times> int" where
  "period_end env = next_month (period_start env)"

definition month_sql :: "nat \<Rightarrow> billing_env \<Rightarrow> string" where
  "month_sql ind env = usage_sql ind (be_tenant env) (month_text (period_start env)) (month_text (period_end env))"

definition billingMonthUsage :: "billing_env \<Rightarrow> (int \<times> int) option" where
  "billingMonthUsage env =
     (case be_ch env (month_sql 2 env) of
        Ok rows \<Rightarrow> Some (float_cell env rows ''events'', float_cell env rows ''bytes'')
      | _ \<Rightarrow> None)"

definition BillingPreview :: "billing_env \<Rightarrow> billing_store \<Rightarrow> billing_answer" where
  "BillingPreview env st =
     (let plan = billingLoadPlan env 0 st
      in case billingMonthUsage env of
        None \<Rightarrow> BError 500 ''usage query failed''
      | Some (events, bytes) \<Rightarrow>
          BPreview (be_tenant env) (month_start (period_start env)) (month_start (period_end env)) plan events bytes
            (ComputeInvoicePreview plan events bytes))"

text \<open>\<open>retention_days\<close> as a handler reads it: a failed statement and a missing row leave the variable as it was.\<close>

definition scan_days :: "billing_env \<Rightarrow> nat \<Rightarrow> billing_store \<Rightarrow> int \<Rightarrow> int" where
  "scan_days env n st d = (if be_db env n \<noteq> None then d else case bs_configs st (be_tenant env) of None \<Rightarrow> d | Some r \<Rightarrow> rr_days r)"

definition QuotaUsage :: "billing_env \<Rightarrow> billing_store \<Rightarrow> billing_answer" where
  "QuotaUsage env st =
     (case be_ch env (month_sql 3 env) of
        Ok rows \<Rightarrow>
          let days = scan_days env 0 st 0
          in BQuota (be_tenant env) (month_start (period_start env)) (month_start (period_end env))
               (float_cell env rows ''events'') (float_cell env rows ''bytes'') (if days = 0 then 7 else days)
      | _ \<Rightarrow> BError 500 ''quota query failed'')"

section \<open>Retention handlers\<close>

definition GetRetention :: "billing_env \<Rightarrow> billing_store \<Rightarrow> billing_answer" where
  "GetRetention env st =
     (case (if be_db env 0 \<noteq> None then None else bs_configs st (be_tenant env)) of
        None \<Rightarrow> BRetention 7 Map.empty (be_now env)
      | Some r \<Rightarrow> BRetention (rr_days r) (rr_actions r) (rr_updated r))"

text \<open>The body holds \<open>masking_actions\<close> as \<open>None\<close> when the field is absent or null.\<close>

definition UpdateRetention :: "billing_env \<Rightarrow> (int \<times> (string \<rightharpoonup> string) option) option \<Rightarrow> billing_store \<Rightarrow> billing_answer \<times> billing_store" where
  "UpdateRetention env body st =
     (case body of
        None \<Rightarrow> (BError 400 ''invalid JSON'', st)
      | Some (days, acts) \<Rightarrow>
          if days < 1 \<or> days > 3650 then (BError 400 (''retention_days must be 1'' @ [CHR 0xE2, CHR 0x80, CHR 0x93] @ ''3650''), st)
          else let acts = (case acts of None \<Rightarrow> Map.empty | Some m \<Rightarrow> m) in
          case be_db env 0 of
            Some e \<Rightarrow> (BError 500 e, st)
          | None \<Rightarrow> (BRetentionSet days acts,
              st\<lparr>bs_configs := (bs_configs st)(be_tenant env \<mapsto> \<lparr>rr_days = days, rr_actions = acts, rr_updated = be_now env\<rparr>)\<rparr>))"

text \<open>The number \<open>strconv.ParseInt\<close> returns beside its error: 0 for other text, the nearest \<open>int64\<close> out of range.\<close>

definition ParseInt_value :: "string \<Rightarrow> int" where
  "ParseInt_value s =
     (let (neg, ds) = take_sign s
      in if ds = [] \<or> \<not> list_all isDigit ds then 0
         else if neg then max int64_min (- digits_val ds) else min int64_max (digits_val ds))"

text \<open>The first cell of the first row, in map order, that is a number or a text.\<close>

definition scalar_of :: "billing_env \<Rightarrow> any \<Rightarrow> int option" where
  "scalar_of env v = (case v of AnyFloat x \<Rightarrow> Some (int64_of (be_oob env) x) | AnyInt n \<Rightarrow> Some n
     | AnyStr s \<Rightarrow> Some (ParseInt_value s) | AnyOther \<Rightarrow> None)"

definition chScalar :: "billing_env \<Rightarrow> string \<Rightarrow> int" where
  "chScalar env sql =
     (case be_ch env sql of
        Ok (r # _) \<Rightarrow> (case List.map_filter (\<lambda>(_, v). scalar_of env v) r of n # _ \<Rightarrow> n | [] \<Rightarrow> 0)
      | _ \<Rightarrow> 0)"

definition observe_sql :: "string \<Rightarrow> string \<Rightarrow> string \<Rightarrow> string \<Rightarrow> string" where
  "observe_sql what tbl ws tenant =
     ''SELECT toInt64('' @ what @ '') FROM '' @ tbl @ ws @ ''WHERE tenant_id = '' @ QuoteLiteral tenant @ '' AND timestamp > now() - INTERVAL 7 DAY''"

definition observed :: "billing_env \<Rightarrow> (string \<times> int) list" where
  "observed env =
     [(''logs'', quot0 (chScalar env (observe_sql ''sum(length(message) + length(body))'' ''logs'' (eol @ tabs 3 @ '' '') (be_tenant env))) 7),
      (''metrics'', quot0 (wrap64 (chScalar env (observe_sql ''count()'' ''metrics'' '' '' (be_tenant env)) * 200)) 7),
      (''traces'', quot0 (wrap64 (chScalar env (observe_sql ''count()'' ''traces'' '' '' (be_tenant env)) * 400)) 7)]"

definition cost_rate :: "billing_env \<Rightarrow> f64" where
  "cost_rate env = (case be_ParseFloat env (be_rate env) of Some v \<Rightarrow> if fle (Zero False) v then v else lit (1 / 10) | None \<Rightarrow> lit (1 / 10))"

definition RetentionCost :: "billing_env \<Rightarrow> billing_store \<Rightarrow> billing_answer" where
  "RetentionCost env st =
     (let rate = cost_rate env; days = scan_days env 0 st DefaultDays; days = (if days \<le> 0 then DefaultDays else days); daily = observed env
      in BCost (EstimateCost daily days rate) (WhatIfRetention daily [7, 14, 30, 90, 365] rate))"

section \<open>Requests\<close>

datatype billing_kind = GetPlanR | SetPlanR "Plan option" | PreviewR | QuotaR | GetRetR | SetRetR "(int \<times> (string \<rightharpoonup> string) option) option" | CostR

type_synonym billing_request = "billing_env \<times> billing_kind"

definition billing_step :: "billing_request \<Rightarrow> billing_store \<Rightarrow> billing_answer \<times> billing_store" where
  "billing_step r st = (case r of (env, k) \<Rightarrow> case k of
     GetPlanR \<Rightarrow> (BillingGetPlan env st, st) | SetPlanR b \<Rightarrow> BillingSetPlan env b st | PreviewR \<Rightarrow> (BillingPreview env st, st)
   | QuotaR \<Rightarrow> (QuotaUsage env st, st) | GetRetR \<Rightarrow> (GetRetention env st, st) | SetRetR b \<Rightarrow> UpdateRetention env b st
   | CostR \<Rightarrow> (RetentionCost env st, st))"

definition billing_caller :: "billing_request \<Rightarrow> string" where
  "billing_caller r = be_tenant (fst r)"

definition billing_view :: "string \<Rightarrow> billing_store \<Rightarrow> Plan option \<times> retention_row option" where
  "billing_view t st = (bs_plans st t, bs_configs st t)"

lemma billing_reads:
  assumes "billing_view (be_tenant env) st = billing_view (be_tenant env) st'"
  shows "billingLoadPlan env n st = billingLoadPlan env n st'" "scan_days env n st d = scan_days env n st' d" "GetRetention env st = GetRetention env st'"
  using assms by (simp_all add: billing_view_def billingLoadPlan_def scan_days_def GetRetention_def)

text \<open>The two statements that write: an answer that does not depend on the store, and at most the caller's row replaced.\<close>

definition writes_row :: "string \<Rightarrow> (billing_store \<Rightarrow> billing_answer \<times> billing_store) \<Rightarrow> bool" where
  "writes_row t f \<longleftrightarrow> (\<exists>a p r. \<forall>st. f st = (a, st\<lparr>bs_plans := (bs_plans st)(t := case p of None \<Rightarrow> bs_plans st t | Some v \<Rightarrow> Some v),
     bs_configs := (bs_configs st)(t := case r of None \<Rightarrow> bs_configs st t | Some v \<Rightarrow> Some v)\<rparr>))"

lemma writes_none: "(\<And>st. f st = (a, st)) \<Longrightarrow> writes_row t f"
  unfolding writes_row_def by (intro exI[of _ a] exI[of _ None]) simp

lemma writes_plan: "(\<And>st. f st = (a, st\<lparr>bs_plans := (bs_plans st)(t \<mapsto> row)\<rparr>)) \<Longrightarrow> writes_row t f"
  unfolding writes_row_def by (intro exI[of _ a] exI[of _ "Some row"] exI[of _ None]) simp

lemma SetPlan_writes: "writes_row (be_tenant env) (BillingSetPlan env b)"
proof (cases b)
  case None
  then show ?thesis by (intro writes_none) (simp add: BillingSetPlan_def)
next
  case (Some q)
  define p where "p = (if bp_Plan q = [] then q\<lparr>bp_Plan := ''free''\<rparr> else q)"
  note step = BillingSetPlan_def Some option.case p_def[symmetric] Let_def
  show ?thesis
  proof (cases "bp_Plan p \<notin> set validPlans \<or> negative_plan p")
    case True
    then show ?thesis
      by (cases "bp_Plan p \<in> set validPlans") (auto simp only: step if_True if_False not_not simp_thms intro: writes_none)
  next
    case False
    then have run: "BillingSetPlan env b st = (case plan_row env p of Inl e \<Rightarrow> (BError 500 e, st)
        | Inr row \<Rightarrow> (BPlan p, st\<lparr>bs_plans := (bs_plans st)(be_tenant env \<mapsto> row)\<rparr>))" for st
      by (simp only: step if_False simp_thms de_Morgan_disj)
    show ?thesis
    proof (cases "plan_row env p")
      case (Inl e)
      show ?thesis by (rule writes_none) (simp add: run Inl)
    next
      case (Inr row)
      show ?thesis by (rule writes_plan) (simp add: run Inr)
    qed
  qed
qed

lemma writes_config: "(\<And>st. f st = (a, st\<lparr>bs_configs := (bs_configs st)(t \<mapsto> row)\<rparr>)) \<Longrightarrow> writes_row t f"
  unfolding writes_row_def by (intro exI[of _ a] exI[of _ None] exI[of _ "Some row"]) simp

lemma SetRetention_writes: "writes_row (be_tenant env) (UpdateRetention env b)"
proof (cases b)
  case None
  then show ?thesis by (intro writes_none) (simp add: UpdateRetention_def)
next
  case (Some da)
  obtain days acts where da: "da = (days, acts)" by (cases da)
  show ?thesis
  proof (cases "days < 1 \<or> days > 3650")
    case True
    then show ?thesis using Some da by (intro writes_none) (simp add: UpdateRetention_def)
  next
    case False
    then show ?thesis using Some da by (cases "be_db env 0") (auto simp: UpdateRetention_def Let_def intro: writes_none writes_config)
  qed
qed

lemma writes_view:
  assumes "writes_row u f"
  shows "t \<noteq> u \<Longrightarrow> billing_view t (snd (f st)) = billing_view t st"
    and "billing_view u st = billing_view u st' \<Longrightarrow> fst (f st) = fst (f st') \<and> billing_view u (snd (f st)) = billing_view u (snd (f st'))"
  using assms by (auto simp: writes_row_def billing_view_def split: option.split)

lemma billing_respects: "billing_caller r \<noteq> t \<Longrightarrow> billing_view t (snd (billing_step r st)) = billing_view t st"
  using writes_view(1)[OF SetPlan_writes, of t] writes_view(1)[OF SetRetention_writes, of t]
  by (cases r; cases "snd r") (simp_all add: billing_caller_def billing_step_def)

lemma billing_depends:
  assumes "billing_view (billing_caller r) st = billing_view (billing_caller r) st'"
  shows "fst (billing_step r st) = fst (billing_step r st') \<and> billing_view (billing_caller r) (snd (billing_step r st)) = billing_view (billing_caller r) (snd (billing_step r st'))"
proof -
  obtain env k where r: "r = (env, k)" by (cases r)
  note same = assms[unfolded r billing_caller_def fst_conv]
  note writes = writes_view(2)[OF SetPlan_writes same] writes_view(2)[OF SetRetention_writes same]
  show ?thesis using writes
    by (cases k) (simp_all add: r billing_caller_def billing_step_def BillingGetPlan_def BillingPreview_def QuotaUsage_def RetentionCost_def
      billing_reads[OF same] same split: outcome.splits)
qed

interpretation billing: tenant_service billing_step billing_caller billing_view "\<lambda>_. True"
  using billing_respects billing_depends by unfold_locales blast+

end
