(* ===== verification/Billing_Laws.thy ===== *)
theory Billing_Laws
  imports Billing
begin

text \<open>
  What the amounts and statements of \<open>Billing\<close> promise: the invoice preview and the retention what-if table are
  monotone however their steps round, the month of a period contains the instant it was computed at, and the
  usage statements read the rows of the tenant only.
\<close>

section \<open>Amounts are monotone\<close>

definition plan_ok :: "Plan \<Rightarrow> bool" where
  "plan_ok p \<longleftrightarrow> \<not> negative_plan p \<and> in_int64 (bp_IncludedEvents p) \<and>
     is_finite (bp_IncludedGB p) \<and> is_finite (bp_OveragePerMillionEvents p) \<and> is_finite (bp_OveragePerGB p)"

definition usage_ok :: "int \<Rightarrow> bool" where
  "usage_ok n \<longleftrightarrow> 0 \<le> n \<and> in_int64 n"

lemma plan_ok_nn: "plan_ok p \<Longrightarrow> 0 \<le> bp_IncludedEvents p \<and> nn (bp_IncludedGB p) \<and> nn (bp_OveragePerMillionEvents p) \<and> nn (bp_OveragePerGB p)"
proof -
  have "nn x" if "\<not> flt x (Zero False)" "is_finite x" for x
    using that not_flt_fle[of x "Zero False"] by (cases x) (simp_all add: nn_def is_finite_def)
  then show "plan_ok p \<Longrightarrow> ?thesis" by (simp add: plan_ok_def negative_plan_def)
qed

lemma units: "is_finite bytesPerGB \<and> 0 < f_val bytesPerGB" "is_finite eventsPerMillion \<and> 0 < f_val eventsPerMillion"
  unfolding bytesPerGB_def eventsPerMillion_def by (rule unit_fin; simp)+

lemma finite_2_64: "is_finite (round64 (2 ^ 64))" "is_finite (fdiv (round64 (2 ^ 64)) bytesPerGB)" "is_finite (fdiv (round64 (2 ^ 64)) eventsPerMillion)"
  by code_simp+

lemma usage_float:
  assumes "usage_ok n" shows "nn (of_int64 n)" "fle (of_int64 n) (round64 (2 ^ 64))" "is_finite (of_int64 n)"
proof -
  show n: "nn (of_int64 n)" using assms of_int64_nn by (simp add: usage_ok_def)
  have "rat_of_int n \<le> of_int (2 ^ 64)" using assms by (intro of_int_le_iff[THEN iffD2]) (simp add: usage_ok_def in_int64_def)
  then show f: "fle (of_int64 n) (round64 (2 ^ 64))" unfolding of_int64_def by (intro round64_mono) simp
  show "is_finite (of_int64 n)" by (rule finite_below[OF n f finite_2_64(1)])
qed

text \<open>A usage in units: finite, not negative, and in the order of the counts.\<close>

lemma in_units:
  assumes "usage_ok n" "is_finite z \<and> 0 < f_val z" "is_finite (fdiv (round64 (2 ^ 64)) z)"
  shows "nn (fdiv (of_int64 n) z)" "fle (fdiv (of_int64 n) z) (fdiv (round64 (2 ^ 64)) z)" "is_finite (fdiv (of_int64 n) z)"
proof -
  obtain q where z: "z = Fin q" using assms(2) by (cases z) (auto simp: is_finite_def f_val_def)
  have "fle (fdiv (Zero False) z) (fdiv (of_int64 n) z)" using usage_float(1)[OF assms(1)] assms(2) by (intro fdiv_mono) (simp_all add: nn_def)
  moreover have "fle (Zero False) (fdiv (Zero False) z)" using z by (simp add: f_val_def)
  ultimately show n: "nn (fdiv (of_int64 n) z)" unfolding nn_def by (rule fle_trans[rotated])
  show f: "fle (fdiv (of_int64 n) z) (fdiv (round64 (2 ^ 64)) z)" using usage_float(2)[OF assms(1)] assms(2) by (intro fdiv_mono) simp_all
  show "is_finite (fdiv (of_int64 n) z)" by (rule finite_below[OF n f assms(3)])
qed

lemma floor0_nn: "x \<noteq> NaN \<Longrightarrow> nn (floor0 x)"
  using not_flt_fle[of x "Zero False"] by (auto simp: floor0_def nn_def)

lemma floor0_mono: "fle x y \<Longrightarrow> fle (floor0 x) (floor0 y)"
  using not_flt_fle[of y "Zero False"] fle_not_NaN[of x y] flt_fle[of y "Zero False"] not_flt_fle[of x "Zero False"] fle_trans[of x y "Zero False"]
  by (auto simp: floor0_def fle_antisym_val)

text \<open>The gigabytes over the allowance and the price of an amount.\<close>

lemma overage_gb:
  assumes "usage_ok b" "is_finite g" "nn g"
  defines "x \<equiv> fsub (fdiv (of_int64 b) bytesPerGB) g"
  shows "nn (floor0 x)" "is_finite (floor0 x)"
proof -
  note u = in_units[OF assms(1) units(1) finite_2_64(2)]
  define v where "v = f_val (fdiv (of_int64 b) bytesPerGB) + f_val (fminus g)"
  have v: "v \<le> f_val (fdiv (round64 (2 ^ 64)) bytesPerGB)"
    using u assms(2,3) finite_2_64(2) nn_fin[of g] fle_fin by (cases g) (auto simp: v_def fminus_def is_finite_def f_val_def)
  have eq: "f_eqv x (round64 v)" unfolding x_def fsub_def v_def using u(3) assms(2) by (intro fadd_eqv) (simp_all add: is_finite_minus)
  have "f_eqv (round64 q) (round64 q)" for q by (simp add: f_eqv_def fle_refl)
  from eqv_mono[OF eq this v] have le: "fle x (round64 (f_val (fdiv (round64 (2 ^ 64)) bytesPerGB)))" .
  then show n: "nn (floor0 x)" using fle_not_NaN floor0_nn by blast
  have "is_finite (round64 (f_val (fdiv (round64 (2 ^ 64)) bytesPerGB)))" by code_simp
  moreover have "is_finite (Zero False)" by code_simp
  ultimately show "is_finite (floor0 x)" using n le finite_below[of x] by (auto simp: floor0_def split: if_splits)
qed

lemma price_mono:
  assumes "nn x" "fle x y" "is_finite y" "is_finite r" "nn r"
  shows "nn (round2 (fmul x r))" "fle (round2 (fmul x r)) (round2 (fmul y r))"
proof -
  have x: "is_finite x" by (rule finite_below[OF assms(1-3)])
  show "nn (round2 (fmul x r))" unfolding round2_def by (intro round_to_nn fmul_nn x assms) simp_all
  have "0 \<le> f_val r" using assms(4,5) by (simp add: nn_fin)
  then show "fle (round2 (fmul x r)) (round2 (fmul y r))" unfolding round2_def by (intro round_to_order fmul_fin_mono x assms) simp_all
qed

lemma price_zero:
  assumes "fle x (Zero False)" "nn x" "is_finite r" "nn r" shows "fle (round2 (fmul x r)) (Zero False)"
proof -
  have "fle (round2 (fmul x r)) (round2 (fmul (Zero False) r))" using assms by (intro price_mono) (simp_all add: is_finite_def)
  moreover obtain s where "fmul (Zero False) r = Zero s" using assms(3) by (cases r) (auto simp: is_finite_def)
  ultimately show ?thesis using round_to_Zero[of 100 s] fle_trans[of _ "Zero s" "Zero False"] by (simp add: round2_def f_val_def)
qed

definition total_of :: "Plan \<Rightarrow> int \<Rightarrow> int \<Rightarrow> f64" where
  "total_of p e b = ip_TotalCost (ComputeInvoicePreview p e b)"

definition over_events :: "Plan \<Rightarrow> int \<Rightarrow> int" where
  "over_events p e = (if e \<le> bp_IncludedEvents p then 0 else e - bp_IncludedEvents p)"

definition over_gb :: "Plan \<Rightarrow> int \<Rightarrow> f64" where
  "over_gb p b = floor0 (fsub (fdiv (of_int64 b) bytesPerGB) (bp_IncludedGB p))"

definition events_cost :: "Plan \<Rightarrow> int \<Rightarrow> f64" where
  "events_cost p e = round2 (fmul (fdiv (of_int64 (over_events p e)) eventsPerMillion) (bp_OveragePerMillionEvents p))"

definition gb_cost :: "Plan \<Rightarrow> int \<Rightarrow> f64" where
  "gb_cost p b = round2 (fmul (over_gb p b) (bp_OveragePerGB p))"

lemma over_events_ok: "plan_ok p \<Longrightarrow> usage_ok e \<Longrightarrow> usage_ok (over_events p e)"
  using plan_ok_nn[of p] by (auto simp: usage_ok_def over_events_def in_int64_def)

lemma invoice_total:
  assumes "plan_ok p" "usage_ok e" shows "total_of p e b = round2 (fadd (events_cost p e) (gb_cost p b))"
proof -
  have "in_int64 (e - bp_IncludedEvents p)" using plan_ok_nn[OF assms(1)] assms by (auto simp: usage_ok_def plan_ok_def in_int64_def)
  then have "(if wrap64 (e - bp_IncludedEvents p) < 0 then 0 else wrap64 (e - bp_IncludedEvents p)) = over_events p e"
    by (auto simp: over_events_def wrap64_id)
  then show ?thesis by (simp add: total_of_def ComputeInvoicePreview_def events_cost_def gb_cost_def over_gb_def Let_def)
qed

lemma events_cost_mono:
  assumes "plan_ok p" "usage_ok e" "usage_ok e'" "e \<le> e'" shows "nn (events_cost p e)" "fle (events_cost p e) (events_cost p e')"
proof -
  note u = in_units[OF over_events_ok[OF assms(1,2)] units(2) finite_2_64(3)] and u' = in_units[OF over_events_ok[OF assms(1,3)] units(2) finite_2_64(3)]
  have "over_events p e \<le> over_events p e'" using assms(4) plan_ok_nn[OF assms(1)] by (simp add: over_events_def)
  then have le: "fle (fdiv (of_int64 (over_events p e)) eventsPerMillion) (fdiv (of_int64 (over_events p e')) eventsPerMillion)"
    using units(2) by (intro fdiv_mono of_int64_order) simp_all
  show "nn (events_cost p e)" "fle (events_cost p e) (events_cost p e')"
    unfolding events_cost_def using price_mono[OF u(1) le u'(3)] plan_ok_nn[OF assms(1)] assms(1) by (simp_all add: plan_ok_def)
qed

lemma gb_cost_mono:
  assumes "plan_ok p" "usage_ok b" "usage_ok b'" "b \<le> b'" shows "nn (gb_cost p b)" "fle (gb_cost p b) (gb_cost p b')"
proof -
  have g: "is_finite (bp_IncludedGB p)" "nn (bp_IncludedGB p)" "is_finite (bp_OveragePerGB p)" "nn (bp_OveragePerGB p)"
    using assms(1) plan_ok_nn[OF assms(1)] by (simp_all add: plan_ok_def)
  note o = overage_gb[OF assms(2) g(1,2)] and o' = overage_gb[OF assms(3) g(1,2)]
  have "fle (fdiv (of_int64 b) bytesPerGB) (fdiv (of_int64 b') bytesPerGB)" using units(1) assms(4) by (intro fdiv_mono of_int64_order) simp_all
  then have le: "fle (over_gb p b) (over_gb p b')" unfolding over_gb_def
    by (intro floor0_mono fsub_mono g in_units[OF _ units(1) finite_2_64(2)] assms)
  show "nn (gb_cost p b)" "fle (gb_cost p b) (gb_cost p b')"
    unfolding gb_cost_def using price_mono[OF o(1)[folded over_gb_def] le o'(2)[folded over_gb_def] g(3,4)] by simp_all
qed

definition within_plan :: "Plan \<Rightarrow> int \<Rightarrow> int \<Rightarrow> bool" where
  "within_plan p e b \<longleftrightarrow> e \<le> bp_IncludedEvents p \<and> fle (fdiv (of_int64 b) bytesPerGB) (bp_IncludedGB p)"

lemma within_free:
  assumes "plan_ok p" "usage_ok e" "usage_ok b" "within_plan p e b" shows "fle (total_of p e b) (Zero False)"
proof -
  have g: "is_finite (bp_IncludedGB p)" "nn (bp_IncludedGB p)" "is_finite (bp_OveragePerGB p)" "nn (bp_OveragePerGB p)"
    "is_finite (bp_OveragePerMillionEvents p)" "nn (bp_OveragePerMillionEvents p)"
    using assms(1) plan_ok_nn[OF assms(1)] by (simp_all add: plan_ok_def)
  note u = in_units[OF assms(3) units(1) finite_2_64(2)]
  have "f_val (fdiv (of_int64 b) bytesPerGB) + f_val (fminus (bp_IncludedGB p)) \<le> 0"
    using assms(4) u(3) g(1) fle_fin by (cases "bp_IncludedGB p") (auto simp: within_plan_def fminus_def is_finite_def f_val_def)
  moreover have "f_eqv (fsub (fdiv (of_int64 b) bytesPerGB) (bp_IncludedGB p)) (round64 (f_val (fdiv (of_int64 b) bytesPerGB) + f_val (fminus (bp_IncludedGB p))))"
    unfolding fsub_def using u(3) g(1) by (intro fadd_eqv) (simp_all add: is_finite_minus)
  moreover have "f_eqv (Zero False) (round64 0)" by code_simp
  ultimately have "fle (fsub (fdiv (of_int64 b) bytesPerGB) (bp_IncludedGB p)) (Zero False)" using eqv_mono by blast
  then have "fle (over_gb p b) (Zero False)" using floor0_mono[of _ "Zero False"] by (simp add: over_gb_def floor0_def split: if_splits)
  then have gb: "fle (gb_cost p b) (Zero False)" unfolding gb_cost_def by (rule price_zero[OF _ overage_gb(1)[OF assms(3) g(1,2), folded over_gb_def] g(3,4)])
  have "over_events p e = 0" using assms(4) by (simp add: within_plan_def over_events_def)
  moreover have "fdiv (of_int64 0) eventsPerMillion = Zero False" by code_simp
  ultimately have ev: "fle (events_cost p e) (Zero False)" unfolding events_cost_def using g by (intro price_zero) simp_all
  have "fle (fadd (events_cost p e) (gb_cost p b)) (fadd (Zero False) (Zero False))"
    using events_cost_mono(1)[OF assms(1,2,2)] gb_cost_mono(1)[OF assms(1,3,3)] gb ev by (intro fadd_mono) simp_all
  then have "fle (total_of p e b) (round2 (Zero False))" unfolding invoice_total[OF assms(1,2)] round2_def by (intro round_to_order) simp_all
  then show ?thesis using round_to_Zero[of 100 False] by (simp add: round2_def)
qed

text \<open>
  C21. The invoice preview is fair: under a plan that BillingSetPlan accepts, with finite amounts, the total is
  never negative, more usage never costs less, and usage within the allowances costs nothing, although every
  step of the formula rounds and the counts are 64-bit.
\<close>

theorem invoice_fair:
  assumes "plan_ok p" "usage_ok e" "usage_ok b" "usage_ok e'" "usage_ok b'" "e \<le> e'" "b \<le> b'"
  shows "fle (Zero False) (ip_TotalCost (ComputeInvoicePreview p e b)) \<and>
    fle (ip_TotalCost (ComputeInvoicePreview p e b)) (ip_TotalCost (ComputeInvoicePreview p e' b')) \<and>
    (e \<le> bp_IncludedEvents p \<and> fle (fdiv (of_int64 b) bytesPerGB) (bp_IncludedGB p) \<longrightarrow>
       fle (ip_TotalCost (ComputeInvoicePreview p e b)) (Zero False))"
proof -
  note ev = events_cost_mono[OF assms(1,2,4,6)] and gb = gb_cost_mono[OF assms(1,3,5,7)]
  have "nn (total_of p e b)" unfolding invoice_total[OF assms(1,2)] round2_def by (intro round_to_nn fadd_nn ev gb) simp_all
  moreover have "fle (total_of p e b) (total_of p e' b')"
    unfolding invoice_total[OF assms(1,2)] invoice_total[OF assms(1,4)] round2_def by (intro round_to_order fadd_mono ev gb) simp_all
  ultimately show ?thesis using within_free[OF assms(1-3)] by (simp add: total_of_def nn_def within_plan_def)
qed

definition demo_plan :: Plan where
  "demo_plan = \<lparr>bp_Plan = ''pro'', bp_IncludedEvents = 1000000, bp_IncludedGB = of_int64 10, bp_OveragePerMillionEvents = lit (5 / 2), bp_OveragePerGB = lit (1 / 2)\<rparr>"

theorem invoice_fair_witness:
  "fle (Zero False) (ip_TotalCost (ComputeInvoicePreview demo_plan 900000 (10 ^ 10))) \<and>
   fle (ip_TotalCost (ComputeInvoicePreview demo_plan 900000 (10 ^ 10))) (ip_TotalCost (ComputeInvoicePreview demo_plan 3000000 (3 * 10 ^ 10))) \<and>
   ip_TotalCost (ComputeInvoicePreview demo_plan 900000 (10 ^ 10)) = Zero False \<and>
   ip_TotalCost (ComputeInvoicePreview demo_plan 3000000 (3 * 10 ^ 10)) = of_int64 15"
proof -
  have "plan_ok demo_plan" "usage_ok 900000" "usage_ok (10 ^ 10)" "usage_ok 3000000" "usage_ok (3 * 10 ^ 10)" "(900000::int) \<le> 3000000" "(10 ^ 10 :: int) \<le> 3 * 10 ^ 10"
    by code_simp+
  note f = invoice_fair[OF this]
  have "ip_TotalCost (ComputeInvoicePreview demo_plan 900000 (10 ^ 10)) = Zero False"
    "ip_TotalCost (ComputeInvoicePreview demo_plan 3000000 (3 * 10 ^ 10)) = of_int64 15" by code_simp+
  then show ?thesis using f by blast
qed

section \<open>The what-if table\<close>

lemma days_float: "usage_ok n \<Longrightarrow> 0 \<le> f_val (of_int64 n)"
  using usage_float(1,3) nn_fin by blast

definition cost_cap :: f64 where
  "cost_cap = round3 (fdiv (round64 (2 ^ 128)) bytesPerGB)"

lemma signal_cost_mono:
  fixes sig :: string
  assumes "usage_ok daily" "usage_ok d" "usage_ok d'" "d \<le> d'" "is_finite r" "nn r"
  defines "c \<equiv> signal_cost d r (sig, daily)" and "c' \<equiv> signal_cost d' r (sig, daily)"
  shows "nn (sc_RetainedGB c)" "fle (sc_RetainedGB c) (sc_RetainedGB c')" "nn (sc_MonthlyUSD c)" "fle (sc_MonthlyUSD c) (sc_MonthlyUSD c')"
proof -
  define raw where "raw n = fmul (of_int64 daily) (of_int64 n)" for n
  have eqv: "f_eqv (raw n) (round64 (f_val (of_int64 daily) * f_val (of_int64 n)))" if "usage_ok n" for n
    unfolding raw_def using usage_float(3) that assms(1) by (intro fmul_eqv)
  have rawnn: "nn (raw n)" if "usage_ok n" for n unfolding raw_def using usage_float that assms(1) by (intro fmul_nn)
  have "f_val (of_int64 d) \<le> f_val (of_int64 d')" using of_int64_order[OF assms(4)] usage_float(3) assms(2,3) fle_fin by blast
  then have raw: "fle (raw d) (raw d')" using eqv_mono[OF eqv[OF assms(2)] eqv[OF assms(3)]] days_float[OF assms(1)] by (simp add: mult_left_mono)
  define gb where "gb n = round3 (fdiv (raw n) bytesPerGB)" for n
  have gbm: "fle (gb d) (gb d')" unfolding gb_def round3_def using units(1) raw by (intro round_to_order fdiv_mono) simp_all
  have gbnn: "nn (gb n)" if "usage_ok n" for n
  proof -
    have "fle (fdiv (Zero False) bytesPerGB) (fdiv (raw n) bytesPerGB)" using units(1) rawnn[OF that] by (intro fdiv_mono) (simp_all add: nn_def)
    moreover have "fdiv (Zero False) bytesPerGB = Zero False" by code_simp
    ultimately show ?thesis unfolding gb_def round3_def by (intro round_to_nn) (simp_all add: nn_def)
  qed
  have "f_val (round64 (2 ^ 64)) = 2 ^ 64" by code_simp
  then have small: "f_val (of_int64 n) \<le> 2 ^ 64" if "usage_ok n" for n
    using usage_float[OF that] finite_2_64(1) fle_fin[of "of_int64 n" "round64 (2 ^ 64)"] by simp
  have "f_val (of_int64 daily) * f_val (of_int64 d') \<le> 2 ^ 64 * 2 ^ 64"
    by (rule mult_mono[OF small small]) (use assms(1,3) days_float in simp_all)
  then have "f_val (of_int64 daily) * f_val (of_int64 d') \<le> 2 ^ 128" by simp
  then have "fle (raw d') (round64 (2 ^ 128))" using eqv_mono[OF eqv[OF assms(3)], of "round64 (2 ^ 128)" "2 ^ 128"] by (simp add: f_eqv_def fle_refl)
  then have "fle (gb d') cost_cap" unfolding gb_def cost_cap_def round3_def using units(1) by (intro round_to_order fdiv_mono) simp_all
  moreover have "is_finite cost_cap" by code_simp
  ultimately have fin: "is_finite (gb d')" using finite_below gbnn[OF assms(3)] by blast
  have c: "sc_RetainedGB c = gb d" "sc_RetainedGB c' = gb d'" "sc_MonthlyUSD c = round2 (fmul (gb d) r)" "sc_MonthlyUSD c' = round2 (fmul (gb d') r)"
    by (simp_all add: c_def c'_def signal_cost_def gb_def raw_def Let_def)
  show "nn (sc_RetainedGB c)" "fle (sc_RetainedGB c) (sc_RetainedGB c')" "nn (sc_MonthlyUSD c)" "fle (sc_MonthlyUSD c) (sc_MonthlyUSD c')"
    unfolding c using gbnn[OF assms(2)] gbm price_mono[OF gbnn[OF assms(2)] gbm fin assms(5,6)] by simp_all
qed

definition below :: "CostEstimate \<Rightarrow> CostEstimate \<Rightarrow> bool" where
  "below a b \<longleftrightarrow> nn (ce_TotalGB a) \<and> fle (ce_TotalGB a) (ce_TotalGB b) \<and> nn (ce_TotalMonthlyUSD a) \<and> fle (ce_TotalMonthlyUSD a) (ce_TotalMonthlyUSD b)"

lemma add_signal_below:
  assumes "below a a'" "usage_ok (snd sd)" "usage_ok d" "usage_ok d'" "d \<le> d'" "is_finite r" "nn r"
  shows "below (add_signal d r a sd) (add_signal d' r a' sd)"
  using assms(1) signal_cost_mono[OF assms(2-7), of "fst sd"] fadd_mono fadd_nn by (simp add: below_def add_signal_def Let_def)

lemma fold_below:
  assumes "below a a'" "\<forall>sd \<in> set sds. usage_ok (snd sd)" "usage_ok d" "usage_ok d'" "d \<le> d'" "is_finite r" "nn r"
  shows "below (foldl (add_signal d r) a sds) (foldl (add_signal d' r) a' sds)"
  using assms(1,2) by (induction sds arbitrary: a a') (simp_all add: add_signal_below[OF _ _ assms(3-7)])

lemma ordered_signals_sub: "set (ordered_signals daily) \<subseteq> set daily"
  by (auto simp: ordered_signals_def map_filter_def map_of_SomeD)

lemma EstimateCost_mono:
  assumes "\<forall>sd \<in> set daily. usage_ok (snd sd)" "in_int64 d" "in_int64 d'" "d \<le> d'" "is_finite r" "nn r"
  shows "below (EstimateCost daily d r) (EstimateCost daily d' r)"
proof -
  define n where "n x = (if x < (0::int) then 0 else x)" for x
  define e0 where "e0 x = \<lparr>ce_RetentionDays = x, ce_RatePerGBMonth = r, ce_Signals = [], ce_TotalGB = Zero False, ce_TotalMonthlyUSD = Zero False\<rparr>" for x
  have n: "usage_ok (n d)" "usage_ok (n d')" "n d \<le> n d'" using assms(2-4) by (auto simp: n_def usage_ok_def in_int64_def)
  have "below (e0 (n d)) (e0 (n d'))" by (simp add: below_def e0_def f_val_def)
  moreover have "\<forall>sd \<in> set (ordered_signals daily). usage_ok (snd sd)" using assms(1) ordered_signals_sub by blast
  ultimately have "below (foldl (add_signal (n d) r) (e0 (n d)) (ordered_signals daily)) (foldl (add_signal (n d') r) (e0 (n d')) (ordered_signals daily))"
    using fold_below n assms(5,6) by blast
  then show ?thesis unfolding below_def EstimateCost_def Let_def n_def[symmetric] e0_def[symmetric]
    by (simp add: round2_def round3_def round_to_order round_to_nn)
qed

definition whatif_le :: "WhatIf \<Rightarrow> WhatIf \<Rightarrow> bool" where
  "whatif_le a b \<longleftrightarrow> fle (wi_TotalGB a) (wi_TotalGB b) \<and> fle (wi_TotalMonthlyUSD a) (wi_TotalMonthlyUSD b)"

text \<open>
  Retaining longer never looks cheaper: for observed counts that are not negative and a finite rate, the
  what-if table over increasing windows has increasing storage and cost, although every term is rounded.
\<close>

theorem whatif_sorted:
  assumes "sorted days" "list_all in_int64 days" "list_all (\<lambda>(_, n). 0 \<le> n \<and> in_int64 n) daily" "is_finite rate" "fle (Zero False) rate"
  shows "sorted_wrt whatif_le (WhatIfRetention daily days rate)"
proof -
  have "\<forall>sd \<in> set daily. usage_ok (snd sd)" using assms(3) by (auto simp: list_all_iff usage_ok_def)
  note m = EstimateCost_mono[OF this _ _ _ assms(4), of _ _, folded nn_def]
  have "sorted_wrt (\<lambda>a b. a \<le> b \<and> in_int64 a \<and> in_int64 b) days" using assms(1,2) by (induction days) (auto simp: list_all_iff)
  then show ?thesis unfolding WhatIfRetention_def sorted_wrt_map Let_def
    by (rule sorted_wrt_mono_rel[rotated]) (use m assms(5) in \<open>simp add: whatif_le_def below_def nn_def\<close>)
qed

theorem whatif_sorted_witness:
  "sorted_wrt whatif_le (WhatIfRetention [(''logs'', 5 * 10 ^ 9), (''traces'', 123456789)] [7, 14, 30, 90, 365] (lit (1 / 10))) \<and>
   length (WhatIfRetention [(''logs'', 5 * 10 ^ 9), (''traces'', 123456789)] [7, 14, 30, 90, 365] (lit (1 / 10))) = 5"
proof
  show "sorted_wrt whatif_le (WhatIfRetention [(''logs'', 5 * 10 ^ 9), (''traces'', 123456789)] [7, 14, 30, 90, 365] (lit (1 / 10)))"
    by (rule whatif_sorted) code_simp+
qed (simp add: WhatIfRetention_def)

section \<open>What the statements read\<close>

lemma raw_quote: "squote \<notin> set s \<Longrightarrow> backslash \<notin> set s \<Longrightarrow> raw_literal s = quote s"
proof -
  have "squote \<notin> set s \<Longrightarrow> backslash \<notin> set s \<Longrightarrow> escape s = s" by (induction s) (auto simp: escape_char_def)
  then show "squote \<notin> set s \<Longrightarrow> backslash \<notin> set s \<Longrightarrow> ?thesis" by (simp add: raw_literal_def quote_escape)
qed

definition usage_flat :: "string \<Rightarrow> string \<Rightarrow> string \<Rightarrow> string" where
  "usage_flat tenant from to =
     (''SELECT count() AS events, sum(length(body)) AS bytes'' @ '' FROM logs WHERE tenant_id = '') @ quote tenant @ '' AND timestamp >= toDateTime('' @ quote from @
     '') AND timestamp < toDateTime('' @ quote to @ '')''"

lemma usage_lays:
  assumes "i \<in> {2, 3}"
  shows "lays False 0 ((''SELECT count() AS events, sum(length(body)) AS bytes'' @ eol @ tabs i @ '' FROM logs'' @ eol @ tabs i @ '' WHERE tenant_id = '') @ quote tenant @
     (eol @ tabs i @ ''   AND timestamp >= toDateTime('') @ quote from @ ('')'' @ eol @ tabs i @ ''   AND timestamp < toDateTime('') @ quote to @ '')'')
     (usage_flat tenant from to) False 0"
proof -
  have l: "lays False 0 (''SELECT count() AS events, sum(length(body)) AS bytes'' @ eol @ tabs i @ '' FROM logs'' @ eol @ tabs i @ '' WHERE tenant_id = '')
      (''SELECT count() AS events, sum(length(body)) AS bytes'' @ '' FROM logs WHERE tenant_id = '') True 0"
    "lays False 0 (eol @ tabs i @ ''   AND timestamp >= toDateTime('') '' AND timestamp >= toDateTime('' False 1"
    "lays False 1 ('')'' @ eol @ tabs i @ ''   AND timestamp < toDateTime('') '') AND timestamp < toDateTime('' False 1"
    "lays False 1 '')'' '')'' False 0"
    using assms by (elim insertE emptyE; simp only:; code_simp)+
  show ?thesis unfolding usage_flat_def
    by (rule lays_append[OF l(1) lays_append[OF lays_quote lays_append[OF l(2) lays_append[OF lays_quote lays_append[OF l(3) lays_append[OF lays_quote l(4)]]]]]])
qed

lemma usage_confined: "confined tenant (usage_flat tenant from to)"
proof -
  have "list_all conjunct [''timestamp >= toDateTime'' @ ''('' @ quote from @ '')'', ''timestamp < toDateTime'' @ ''('' @ quote to @ '')'']"
    by (simp only: list.pred_inject simp_thms) (intro conjI; rule conjunct_call; (rule quote_closed | code_simp))
  moreover have "''logs'' \<in> set read_tables" "ends_where []" "q_run (Sql (Out 0)) ''SELECT count() AS events, sum(length(body)) AS bytes'' = Sql (Out 0)"
    "q_run (Sql (Out 0)) [] = Sql (Out 0)" by code_simp+
  ultimately have "confined tenant (''SELECT count() AS events, sum(length(body)) AS bytes'' @ '' FROM '' @ ''logs'' @
      where_of tenant [''timestamp >= toDateTime'' @ ''('' @ quote from @ '')'', ''timestamp < toDateTime'' @ ''('' @ quote to @ '')''] @ [])" by (intro confinedI)
  then show ?thesis unfolding usage_flat_def where_of_def by simp
qed

lemma month_text_plain: "squote \<notin> set (month_text ym)" "backslash \<notin> set (month_text ym)"
proof -
  have d: "\<not> isDigit squote" "\<not> isDigit backslash" "squote \<noteq> CHR ''-''" "backslash \<noteq> CHR ''-''" by code_simp+
  then have s: "squote \<notin> set (show_int n)" "backslash \<notin> set (show_int n)" for n
    using show_digits_digits[of n] show_digits_digits[of "- n"] by (auto simp: show_int_def list_all_iff)
  have f: "squote \<notin> set (CHR ''0'' # CHR ''-'' # ''-01 00:00:00'')" "backslash \<notin> set (CHR ''0'' # CHR ''-'' # ''-01 00:00:00'')" by code_simp+
  show "squote \<notin> set (month_text ym)" "backslash \<notin> set (month_text ym)"
    using s f by (auto simp: month_text_def pad0_def split: prod.splits)
qed

definition plain_id :: "string \<Rightarrow> bool" where
  "plain_id s \<longleftrightarrow> squote \<notin> set s \<and> backslash \<notin> set s"

lemma month_sql_laid:
  assumes "plain_id (be_tenant env)" "i \<in> {2, 3}" shows "laid_out (be_tenant env) (month_sql i env)"
proof -
  have "month_sql i env = (''SELECT count() AS events, sum(length(body)) AS bytes'' @ eol @ tabs i @ '' FROM logs'' @ eol @ tabs i @ '' WHERE tenant_id = '') @ quote (be_tenant env) @
     (eol @ tabs i @ ''   AND timestamp >= toDateTime('') @ quote (month_text (period_start env)) @ ('')'' @ eol @ tabs i @ ''   AND timestamp < toDateTime('') @ quote (month_text (period_end env)) @ '')''"
    using assms(1) unfolding month_sql_def usage_sql_def plain_id_def by (simp only: raw_quote month_text_plain append_assoc not_False_eq_True)
  then show ?thesis by (simp only: laid_outI[OF usage_lays[OF assms(2)] usage_confined])
qed

lemma observe_conjunct: "conjunct (''timestamp > now'' @ ''('' @ [] @ '')'' @ '' - INTERVAL 7 DAY'')"
proof -
  have "piece '' - INTERVAL 7 DAY'' '' - INTERVAL 7 DAY''" unfolding piece_def closed_def by (intro conjI) (simp add: scan_simps, code_simp)
  moreover have "piece ''timestamp > now'' ''timestamp > now''" by (rule piece_plain) code_simp
  ultimately have "piece (''timestamp > now'' @ (''('' @ [] @ '')'') @ '' - INTERVAL 7 DAY'') (''timestamp > now'' @ '' '' @ '' - INTERVAL 7 DAY'')"
    by (intro piece_append piece_paren closed_Nil)
  moreover have "no_or (''timestamp > now'' @ '' '' @ '' - INTERVAL 7 DAY'')" by code_simp
  ultimately show ?thesis using conjunct_piece by simp
qed

lemma observe_laid:
  assumes "(what, tbl, ws) \<in> {(''sum(length(message) + length(body))'', ''logs'', eol @ tabs 3 @ '' ''), (''count()'', ''metrics'', '' ''), (''count()'', ''traces'', '' '')}"
  shows "laid_out tenant (observe_sql what tbl ws tenant)"
proof -
  have pre: "lays False 0 (''SELECT toInt64('' @ what @ '') FROM '' @ tbl @ ws @ ''WHERE tenant_id = '') ((''SELECT toInt64('' @ what @ '')'') @ '' FROM '' @ tbl @ '' WHERE tenant_id = '') True 0"
    using assms by (elim insertE emptyE; simp only: prod.inject; elim conjE; simp only:; code_simp)
  have post: "lays False 0 '' AND timestamp > now() - INTERVAL 7 DAY'' '' AND timestamp > now() - INTERVAL 7 DAY'' False 0" by code_simp
  have "list_all conjunct [''timestamp > now'' @ ''('' @ [] @ '')'' @ '' - INTERVAL 7 DAY'']" using observe_conjunct by (simp only: list.pred_inject simp_thms)
  moreover have "tbl \<in> set read_tables" using assms by (elim insertE emptyE; simp only: prod.inject; elim conjE; simp only:; code_simp)
  moreover have "q_run (Sql (Out 0)) (''SELECT toInt64('' @ what @ '')'') = Sql (Out 0)"
    using assms by (elim insertE emptyE; simp only: prod.inject; elim conjE; simp only:; code_simp)
  moreover have "ends_where []" "q_run (Sql (Out 0)) [] = Sql (Out 0)" by code_simp+
  ultimately have "confined tenant ((''SELECT toInt64('' @ what @ '')'') @ '' FROM '' @ tbl @ where_of tenant [''timestamp > now'' @ ''('' @ [] @ '')'' @ '' - INTERVAL 7 DAY''] @ [])"
    by (intro confinedI)
  moreover have "lays False 0 (observe_sql what tbl ws tenant) (((''SELECT toInt64('' @ what @ '')'') @ '' FROM '' @ tbl @ '' WHERE tenant_id = '') @ quote tenant @ '' AND timestamp > now() - INTERVAL 7 DAY'') False 0"
    using lays_append[OF pre lays_append[OF lays_quote[of True 0 tenant] post]] by (simp add: observe_sql_def QuoteLiteral_def)
  ultimately show ?thesis by (intro laid_outI) (simp_all add: where_of_def)
qed

lemma env_same:
  "scalar_of (env\<lparr>be_ch := ch\<rparr>) = scalar_of env" "plan_row (env\<lparr>be_ch := ch\<rparr>) = plan_row env" "be_tenant (env\<lparr>be_ch := ch\<rparr>) = be_tenant env"
  "be_db (env\<lparr>be_ch := ch\<rparr>) = be_db env" "be_now (env\<lparr>be_ch := ch\<rparr>) = be_now env"
  "billingLoadPlan (env\<lparr>be_ch := ch\<rparr>) = billingLoadPlan env" "scan_days (env\<lparr>be_ch := ch\<rparr>) = scan_days env" "cost_rate (env\<lparr>be_ch := ch\<rparr>) = cost_rate env"
  "period_start (env\<lparr>be_ch := ch\<rparr>) = period_start env" "period_end (env\<lparr>be_ch := ch\<rparr>) = period_end env" "float_cell (env\<lparr>be_ch := ch\<rparr>) = float_cell env"
  by (simp_all add: fun_eq_iff scalar_of_def plan_row_def billingLoadPlan_def scan_days_def cost_rate_def period_start_def period_end_def float_cell_def
      split: any.split option.split sum.split list.split)

lemma observed_laid: "observed env = observed (env\<lparr>be_ch := ch\<rparr>)"
  if "\<And>sql. laid_out (be_tenant env) sql \<Longrightarrow> be_ch env sql = ch sql"
proof -
  have "chScalar env (observe_sql what tbl ws (be_tenant env)) = chScalar (env\<lparr>be_ch := ch\<rparr>) (observe_sql what tbl ws (be_tenant env))"
    if "(what, tbl, ws) \<in> {(''sum(length(message) + length(body))'', ''logs'', eol @ tabs 3 @ '' ''), (''count()'', ''metrics'', '' ''), (''count()'', ''traces'', '' '')}" for what tbl ws
    using \<open>\<And>sql. laid_out (be_tenant env) sql \<Longrightarrow> be_ch env sql = ch sql\<close>[OF observe_laid[OF that]] unfolding chScalar_def env_same by simp
  then show ?thesis unfolding observed_def by simp
qed

text \<open>
  The plan, usage and retention endpoints use nothing of the log store but rows of the caller's tenant: two
  stores that answer alike every statement confined to the tenant give the same answer and the same tables. The
  tenant identifier holds no quote and no backslash.
\<close>

theorem billing_reads_tenant:
  assumes "plain_id (be_tenant env)" "\<And>sql. laid_out (be_tenant env) sql \<Longrightarrow> be_ch env sql = ch sql"
  shows "billing_step (env, k) st = billing_step (env\<lparr>be_ch := ch\<rparr>, k) st"
proof -
  let ?env = "env\<lparr>be_ch := ch\<rparr>"
  have m: "month_sql i ?env = month_sql i env" "be_ch env (month_sql i env) = ch (month_sql i env)" if "i \<in> {2, 3}" for i
    using assms(2)[OF month_sql_laid[OF assms(1) that]] by (simp_all add: month_sql_def env_same)
  have "be_ch ?env (month_sql i ?env) = be_ch env (month_sql i env)" if "i \<in> {2, 3}" for i using m[OF that] by simp
  then have u: "billingMonthUsage ?env = billingMonthUsage env" "be_ch ?env (month_sql 3 ?env) = be_ch env (month_sql 3 env)"
    unfolding billingMonthUsage_def env_same by simp_all
  have o: "observed ?env = observed env" using observed_laid[of env ch] assms(2) by simp
  have "BillingSetPlan ?env b st = BillingSetPlan env b st" "UpdateRetention ?env c st = UpdateRetention env c st" for b c
    unfolding BillingSetPlan_def UpdateRetention_def env_same by simp_all
  moreover have "BillingGetPlan ?env st = BillingGetPlan env st" "GetRetention ?env st = GetRetention env st"
    "BillingPreview ?env st = BillingPreview env st" "QuotaUsage ?env st = QuotaUsage env st" "RetentionCost ?env st = RetentionCost env st"
    unfolding BillingGetPlan_def GetRetention_def BillingPreview_def QuotaUsage_def RetentionCost_def env_same u o by simp_all
  ultimately show ?thesis by (cases k) (simp_all add: billing_step_def)
qed

definition demo_env :: billing_env where
  "demo_env = \<lparr>be_tenant = ''acme'', be_now = 1751328000 * 10 ^ 9, be_db = (\<lambda>_. None), be_ch = (\<lambda>_. Ok [[(''events'', AnyFloat (of_int64 5)), (''bytes'', AnyStr ''7'')]]),
     be_oob = (\<lambda>_. 0), be_numeric = (\<lambda>_ x. Inr x), be_rate = [], be_ParseFloat = (\<lambda>_. None)\<rparr>"

definition demo_billing :: billing_store where
  "demo_billing = \<lparr>bs_plans = [''acme'' \<mapsto> demo_plan], bs_configs = Map.empty\<rparr>"

theorem billing_reads_tenant_witness:
  "billing_step (demo_env, PreviewR) demo_billing = billing_step (demo_env\<lparr>be_ch := (\<lambda>sql. if sql = [] then Panic else be_ch demo_env sql)\<rparr>, PreviewR) demo_billing \<and>
   be_ch demo_env [] \<noteq> Panic"
proof
  have "plain_id (be_tenant demo_env)" by code_simp
  moreover have "\<not> laid_out t []" for t by (simp add: laid_out_def flat_def confined_def)
  ultimately show "billing_step (demo_env, PreviewR) demo_billing = billing_step (demo_env\<lparr>be_ch := (\<lambda>sql. if sql = [] then Panic else be_ch demo_env sql)\<rparr>, PreviewR) demo_billing"
    by (intro billing_reads_tenant) auto
qed (simp add: demo_env_def)

section \<open>Period and usage\<close>

text \<open>The period a preview reports contains the time of the request.\<close>

lemma preview_period:
  assumes "BillingPreview env st = BPreview t s e p ev b i" "0 \<le> be_now env" shows "s \<le> be_now env \<and> be_now env < e"
proof -
  have "- (epoch_day * day_ns) \<le> be_now env" using assms(2) by (simp add: epoch_day_def day_ns_def)
  from month_at_contains[OF this] show ?thesis
    using assms(1) by (auto simp: BillingPreview_def period_start_def period_end_def Let_def split: option.splits)
qed

text \<open>A count in quotes, which the retention cost reads as a number, counts as no usage in the preview and the quota.\<close>

lemma quoted_count_unbilled:
  "float_cell env [[(''events'', AnyStr s)]] ''events'' = 0"
  "be_ch env sql = Ok [[(''events'', AnyStr ''5000000'')]] \<Longrightarrow> chScalar env sql = 5000000"
proof -
  have "ParseInt_value ''5000000'' = 5000000" by code_simp
  then show "be_ch env sql = Ok [[(''events'', AnyStr ''5000000'')]] \<Longrightarrow> chScalar env sql = 5000000"
    by (simp add: chScalar_def scalar_of_def map_filter_def)
qed (simp add: float_cell_def cell_def)

text \<open>A tenant identifier with a quote ends the literal of the guard.\<close>

lemma usage_guard_breaks_out:
  "flat (usage_sql 2 (''a'' @ [squote] @ '' OR tenant_id != '' @ [squote] @ ''a'') ''F'' ''T'') =
     ''SELECT count() AS events, sum(length(body)) AS bytes FROM logs WHERE tenant_id = '' @ quote ''a'' @ '' OR tenant_id != '' @ quote ''a'' @
     '' AND timestamp >= toDateTime('' @ quote ''F'' @ '') AND timestamp < toDateTime('' @ quote ''T'' @ '')''"
  by code_simp

end
