(* ===== verification/Go_Parse.thy ===== *)
theory Go_Parse
  imports Go_Prelude "HOL-Library.List_Lexorder" "HOL-Library.Char_ord"
begin

text \<open>
  \<open>strconv.ParseInt\<close> with a sign, string maps as sorted association lists, and the grouping idiom of the
  handlers: rows are collected under a text key of their label set, in order of first appearance. The locale
  \<open>label_key\<close> states when the key may stand for the label set; grouping by it is then grouping by label set.
\<close>

section \<open>Signed decimal numbers\<close>

definition ParseInt :: "string \<Rightarrow> int option" where
  "ParseInt s =
     (case s of [] \<Rightarrow> None
      | c # cs \<Rightarrow>
          if c = CHR ''+'' then parse_digits cs
          else if c = CHR ''-'' then (if cs \<noteq> [] \<and> list_all isDigit cs \<and> digits_val cs \<le> 2 ^ 63 then Some (- digits_val cs) else None)
          else parse_digits s)"

lemma ParseInt_in_int64: "ParseInt s = Some n \<Longrightarrow> in_int64 n"
  using digits_val_nonneg[of "tl s"] parse_digits_in_int64[of "tl s" n] parse_digits_in_int64[of s n]
  by (auto simp: ParseInt_def in_int64_def split: list.splits if_splits)

section \<open>Maps from strings to strings\<close>

type_synonym smap = "(string \<times> string) list"

text \<open>\<open>m[k] = v\<close> on a map kept sorted by key.\<close>

fun mset_at :: "string \<Rightarrow> string \<Rightarrow> smap \<Rightarrow> smap" where
  "mset_at k v [] = [(k, v)]"
| "mset_at k v ((k', v') # m) = (if k = k' then (k, v) # m else if k < k' then (k, v) # (k', v') # m else (k', v') # mset_at k v m)"

lemma map_of_mset_at: "sorted_wrt (<) (map fst m) \<Longrightarrow> map_of (mset_at k v m) = (map_of m)(k \<mapsto> v)"
  by (induction m) (auto simp: fun_eq_iff)

lemma set_mset_at: "set (map fst (mset_at k v m)) = insert k (set (map fst m))"
  by (induction k v m rule: mset_at.induct) (simp_all add: insert_commute)

lemma sorted_mset_at: "sorted_wrt (<) (map fst m) \<Longrightarrow> sorted_wrt (<) (map fst (mset_at k v m))"
proof (induction m)
  case (Cons p m)
  obtain k' v' where p: "p = (k', v')" by (cases p)
  from Cons have s: "sorted_wrt (<) (map fst m)" "\<forall>x \<in> set (map fst m). k' < x" by (simp_all add: p)
  show ?case
  proof (cases "k = k' \<or> k < k'")
    case True
    then show ?thesis using Cons.prems s by (auto simp: p)
  next
    case False
    then have "k' < k" by auto
    then show ?thesis using False Cons.IH[OF s(1)] s(2) set_mset_at[of k v m] by (auto simp: p)
  qed
qed simp

lemma mset_at_values: "(k', v') \<in> set (mset_at k v m) \<Longrightarrow> (k', v') = (k, v) \<or> (k', v') \<in> set m"
  by (induction m) (auto split: if_splits)

section \<open>Keys of label sets\<close>

text \<open>The key writes every pair as name, separator, value, terminator.\<close>

definition pair_key :: "char \<Rightarrow> char \<Rightarrow> smap \<Rightarrow> string" where
  "pair_key e t m = concat (map (\<lambda>(k, v). k @ [e] @ v @ [t]) m)"

definition key_safe :: "char \<Rightarrow> char \<Rightarrow> smap \<Rightarrow> bool" where
  "key_safe e t m \<longleftrightarrow> (\<forall>(k, v) \<in> set m. e \<notin> set k \<and> t \<notin> set v)"

lemma first_sep: "x \<notin> set a \<Longrightarrow> x \<notin> set b \<Longrightarrow> a @ x # r = b @ x # r' \<Longrightarrow> a = b \<and> r = r'"
proof (induction a arbitrary: b)
  case (Cons c cs)
  then show ?case by (cases b) auto
next
  case Nil
  then show ?case by (cases b) auto
qed

lemma pair_key_inj: "key_safe e t m \<Longrightarrow> key_safe e t m' \<Longrightarrow> pair_key e t m = pair_key e t m' \<Longrightarrow> m = m'"
proof (induction m arbitrary: m')
  case Nil
  then show ?case by (cases m') (auto simp: pair_key_def)
next
  case (Cons p m)
  then obtain p' n where m': "m' = p' # n" by (cases m') (auto simp: pair_key_def split: prod.splits)
  obtain k v k' v' where p: "p = (k, v)" "p' = (k', v')" by (cases p, cases p')
  have "k @ e # (v @ t # pair_key e t m) = k' @ e # (v' @ t # pair_key e t n)" using Cons.prems(3) by (simp add: m' p pair_key_def)
  moreover have "e \<notin> set k" "e \<notin> set k'" "t \<notin> set v" "t \<notin> set v'" using Cons.prems(1,2) by (auto simp: key_safe_def m' p)
  ultimately have "k = k'" "v = v'" "pair_key e t m = pair_key e t n" using first_sep by metis+
  moreover have "key_safe e t m" "key_safe e t n" using Cons.prems(1,2) by (auto simp: key_safe_def m')
  ultimately show ?case using Cons.IH[of n] by (simp add: m' p)
qed

section \<open>Grouping\<close>

text \<open>The three variables \<open>order\<close>, labels by key and points by key, as one list in order of first appearance.\<close>

fun group_add :: "'k \<Rightarrow> 'l \<Rightarrow> 'p \<Rightarrow> ('k \<times> 'l \<times> 'p list) list \<Rightarrow> ('k \<times> 'l \<times> 'p list) list" where
  "group_add k l p [] = [(k, l, [p])]"
| "group_add k l p ((k', l', ps) # gs) = (if k = k' then (k', l', ps @ [p]) # gs else (k', l', ps) # group_add k l p gs)"

definition group_rows :: "('l \<Rightarrow> 'k) \<Rightarrow> ('l \<times> 'p) list \<Rightarrow> ('l \<times> 'p list) list" where
  "group_rows key rows = map snd (foldl (\<lambda>gs (l, p). group_add (key l) l p gs) [] rows)"

definition firsts :: "'a list \<Rightarrow> 'a list" where
  "firsts xs = rev (remdups (rev xs))"

text \<open>Grouping by the label set itself.\<close>

definition grouped :: "('l \<times> 'p) list \<Rightarrow> ('l \<times> 'p list) list" where
  "grouped rows = map (\<lambda>l. (l, map snd (filter (\<lambda>r. fst r = l) rows))) (firsts (map fst rows))"

lemma firsts_snoc: "firsts (xs @ [x]) = (if x \<in> set xs then firsts xs else firsts xs @ [x])"
  by (simp add: firsts_def)

lemma set_firsts [simp]: "set (firsts xs) = set xs" "distinct (firsts xs)"
  by (simp_all add: firsts_def)

lemma group_add_map:
  assumes "distinct ls" "inj_on key (insert l (set ls))"
  shows "group_add (key l) l p (map (\<lambda>x. (key x, x, f x)) ls) =
    map (\<lambda>x. (key x, x, if x = l then (if l \<in> set ls then f x else []) @ [p] else f x)) (if l \<in> set ls then ls else ls @ [l])"
  using assms
proof (induction ls)
  case (Cons y ls)
  then have i: "inj_on key (insert l (set ls))" "key l = key y \<longleftrightarrow> l = y" by (auto simp: inj_on_def)
  show ?case
  proof (cases "l = y")
    case True
    then show ?thesis using Cons.prems(1) by (auto intro!: map_cong)
  next
    case False
    then show ?thesis using Cons.IH i Cons.prems(1) by auto
  qed
qed simp

lemma group_rows_grouped:
  assumes "inj_on key (fst ` set rows)"
  shows "foldl (\<lambda>gs (l, p). group_add (key l) l p gs) [] rows =
    map (\<lambda>x. (key x, x, map snd (filter (\<lambda>r. fst r = x) rows))) (firsts (map fst rows))"
  using assms
proof (induction rows rule: rev_induct)
  case (snoc r rows)
  obtain l p where r: "r = (l, p)" by (cases r)
  have i: "inj_on key (fst ` set rows)" "inj_on key (insert l (set (firsts (map fst rows))))" using snoc.prems by (auto simp: r inj_on_def)
  have none: "l \<notin> fst ` set rows \<Longrightarrow> filter (\<lambda>r. fst r = l) rows = []" by (auto simp: filter_empty_conv)
  show ?case using group_add_map[OF set_firsts(2) i(2), of p] snoc.IH[OF i(1)] none
    by (auto simp: r firsts_snoc intro!: map_cong)
qed (simp add: firsts_def)

locale label_key =
  fixes key :: "smap \<Rightarrow> string" and safe :: "smap \<Rightarrow> bool"
  assumes faithful: "safe m \<Longrightarrow> safe m' \<Longrightarrow> key m = key m' \<Longrightarrow> m = m'"
begin

lemma groups_by_labels:
  assumes "\<forall>r \<in> set rows. safe (fst r)"
  shows "group_rows key rows = grouped rows"
proof -
  have "inj_on key (fst ` set rows)" using assms faithful by (auto simp: inj_on_def)
  from group_rows_grouped[OF this] show ?thesis by (simp add: group_rows_def grouped_def)
qed

end

interpretation pair: label_key "pair_key e t" "key_safe e t"
  by unfold_locales (rule pair_key_inj)

end
