(* ===== verification/Go_Sort.thy ===== *)
theory Go_Sort
  imports Go_Float "HOL-Library.Multiset"
begin

text \<open>
  \<open>sort.SliceStable\<close> with a comparison, as a stable insertion sort, and \<open>sort.Search\<close> as the bisection it is.
  The sort is a permutation for every comparison and sorted when the comparison is a strict weak order; the
  bisection finds the first index of a monotone predicate.
\<close>

section \<open>Stable sorting\<close>

fun ins :: "('a \<Rightarrow> 'a \<Rightarrow> bool) \<Rightarrow> 'a \<Rightarrow> 'a list \<Rightarrow> 'a list" where
  "ins lt x [] = [x]"
| "ins lt x (y # ys) = (if lt y x then y # ins lt x ys else x # y # ys)"

definition SliceStable :: "('a \<Rightarrow> 'a \<Rightarrow> bool) \<Rightarrow> 'a list \<Rightarrow> 'a list" where
  "SliceStable lt xs = foldr (ins lt) xs []"

lemma SliceStable_simps [simp]: "SliceStable lt [] = []" "SliceStable lt (x # xs) = ins lt x (SliceStable lt xs)"
  by (simp_all add: SliceStable_def)

lemma mset_ins [simp]: "mset (ins lt x ys) = add_mset x (mset ys)"
  by (induction ys) simp_all

lemma mset_SliceStable [simp]: "mset (SliceStable lt xs) = mset xs"
  by (induction xs) simp_all

lemma set_SliceStable [simp]: "set (SliceStable lt xs) = set xs"
  using mset_SliceStable[of lt xs] by (metis set_mset_mset)

lemma length_SliceStable [simp]: "length (SliceStable lt xs) = length xs"
  using mset_SliceStable[of lt xs] by (metis size_mset)

lemma set_ins: "set (ins lt x ys) = insert x (set ys)"
  using mset_ins[of lt x ys] by (metis set_mset_add_mset_insert set_mset_mset)

text \<open>The laws of a comparison on the elements of \<open>A\<close>.\<close>

locale comparison =
  fixes lt :: "'a \<Rightarrow> 'a \<Rightarrow> bool" and A :: "'a set"
  assumes asym: "x \<in> A \<Longrightarrow> y \<in> A \<Longrightarrow> lt x y \<Longrightarrow> \<not> lt y x"
    and neg_trans: "x \<in> A \<Longrightarrow> y \<in> A \<Longrightarrow> z \<in> A \<Longrightarrow> \<not> lt y x \<Longrightarrow> \<not> lt z y \<Longrightarrow> \<not> lt z x"
begin

lemma sorted_ins:
  assumes "insert x (set ys) \<subseteq> A" "sorted_wrt (\<lambda>a b. \<not> lt b a) ys"
  shows "sorted_wrt (\<lambda>a b. \<not> lt b a) (ins lt x ys)"
  using assms
proof (induction ys)
  case (Cons y ys)
  show ?case
  proof (cases "lt y x")
    case True
    then show ?thesis using Cons asym by (auto simp: set_ins)
  next
    case False
    have "\<not> lt z x" if "z \<in> set ys" for z
    proof -
      have "\<not> lt z y" using Cons.prems(2) that by simp
      then show ?thesis using neg_trans[of x y z] False Cons.prems(1) that by auto
    qed
    then show ?thesis using False Cons.prems by auto
  qed
qed simp

lemma sorted_SliceStable: "set xs \<subseteq> A \<Longrightarrow> sorted_wrt (\<lambda>a b. \<not> lt b a) (SliceStable lt xs)"
  by (induction xs) (simp_all add: sorted_ins)

lemma filter_ins:
  assumes "insert x (set ys) \<subseteq> A" "\<And>a b. a \<in> A \<Longrightarrow> b \<in> A \<Longrightarrow> P a \<Longrightarrow> P b \<Longrightarrow> \<not> lt a b"
  shows "filter P (ins lt x ys) = (if P x then x # filter P ys else filter P ys)"
  using assms(1) by (induction ys) (use assms(2) in auto)

lemma stable:
  assumes "set xs \<subseteq> A" "\<And>a b. a \<in> A \<Longrightarrow> b \<in> A \<Longrightarrow> P a \<Longrightarrow> P b \<Longrightarrow> \<not> lt a b"
  shows "filter P (SliceStable lt xs) = filter P xs"
  using assms(1) by (induction xs) (simp_all add: filter_ins[OF _ assms(2)])

end

text \<open>By a \<open>float64\<close> key in descending order, on elements whose key is a number.\<close>

definition by_score :: "('a \<Rightarrow> f64) \<Rightarrow> 'a \<Rightarrow> 'a \<Rightarrow> bool" where
  "by_score k a b = flt (k b) (k a)"

interpretation score: comparison "by_score k" "{x. k x \<noteq> NaN}"
proof
  fix x y assume "x \<in> {x. k x \<noteq> NaN}" "y \<in> {x. k x \<noteq> NaN}" "by_score k x y"
  then show "\<not> by_score k y x" by (cases "k x"; cases "k y") (auto simp: by_score_def)
next
  fix x y z assume "x \<in> {x. k x \<noteq> NaN}" "y \<in> {x. k x \<noteq> NaN}" "z \<in> {x. k x \<noteq> NaN}" "\<not> by_score k y x" "\<not> by_score k z y"
  then show "\<not> by_score k z x"
    using not_flt_fle[of "k x" "k y"] not_flt_fle[of "k y" "k z"] not_flt_fle[of "k x" "k z"] fle_trans[of "k z" "k y" "k x"] by (auto simp: by_score_def)
qed

lemma score_sorted:
  assumes "\<And>x. x \<in> set xs \<Longrightarrow> k x \<noteq> NaN" shows "sorted_wrt (\<lambda>a b. fle (k b) (k a)) (SliceStable (by_score k) xs)"
proof -
  have "sorted_wrt (\<lambda>a b. \<not> by_score k b a) (SliceStable (by_score k) xs)" using assms by (intro score.sorted_SliceStable) auto
  then show ?thesis by (rule sorted_wrt_mono_rel[rotated]) (use assms not_flt_fle in \<open>auto simp: by_score_def\<close>)
qed

section \<open>Bisection\<close>

function search_loop :: "(nat \<Rightarrow> bool) \<Rightarrow> nat \<Rightarrow> nat \<Rightarrow> nat" where
  "search_loop f i j =
     (if i < j then let h = (i + j) div 2 in if \<not> f h then search_loop f (h + 1) j else search_loop f i h else i)"
  by pat_completeness auto
termination
  by (relation "measure (\<lambda>(f, i, j). j - i)") auto

declare search_loop.simps [simp del]

definition Search :: "nat \<Rightarrow> (nat \<Rightarrow> bool) \<Rightarrow> nat" where
  "Search n f = search_loop f 0 n"

lemma search_loop_bounds:
  assumes "i \<le> j" "j \<le> n" "\<forall>a b. a \<le> b \<and> b < n \<longrightarrow> f a \<longrightarrow> f b"
  shows "i \<le> search_loop f i j \<and> search_loop f i j \<le> j \<and> (\<forall>k. i \<le> k \<and> k < search_loop f i j \<longrightarrow> \<not> f k) \<and> (search_loop f i j < j \<longrightarrow> f (search_loop f i j))"
  using assms
proof (induction f i j rule: search_loop.induct)
  case (1 f i j)
  show ?case
  proof (cases "i < j")
    case True
    define h where "h = (i + j) div 2"
    have h: "i \<le> h" "h < j" using True by (auto simp: h_def)
    show ?thesis
    proof (cases "f h")
      case True
      then have e: "search_loop f i j = search_loop f i h" using \<open>i < j\<close> by (subst search_loop.simps) (simp add: h_def Let_def)
      have "\<not> \<not> f h" using True by simp
      then have "i \<le> search_loop f i h \<and> search_loop f i h \<le> h \<and> (\<forall>k. i \<le> k \<and> k < search_loop f i h \<longrightarrow> \<not> f k) \<and> (search_loop f i h < h \<longrightarrow> f (search_loop f i h))"
        using h(1) less_imp_le[OF h(2)] 1(4) by (intro 1(2)[OF \<open>i < j\<close> h_def _ h(1) _ 1(5)]) simp_all
      then show ?thesis using h True unfolding e by (cases "search_loop f i h = h") auto
    next
      case False
      then have e: "search_loop f i j = search_loop f (h + 1) j" using \<open>i < j\<close> by (subst search_loop.simps) (simp add: h_def Let_def)
      have low: "\<not> f k" if "k < h + 1" for k using False 1(5)[rule_format, of k h] h 1(4) that by auto
      have "h + 1 \<le> search_loop f (h + 1) j \<and> search_loop f (h + 1) j \<le> j \<and> (\<forall>k. h + 1 \<le> k \<and> k < search_loop f (h + 1) j \<longrightarrow> \<not> f k) \<and>
          (search_loop f (h + 1) j < j \<longrightarrow> f (search_loop f (h + 1) j))"
        using h(2) by (intro 1(1)[OF \<open>i < j\<close> h_def False _ 1(4,5)]) simp
      moreover from this have "\<not> f k" if "k < search_loop f (h + 1) j" for k using low[of k] that by (cases "k < h + 1") auto
      ultimately show ?thesis using h unfolding e by auto
    qed
  next
    case False
    then have "search_loop f i j = i" by (subst search_loop.simps) simp
    then show ?thesis using 1(3) False by auto
  qed
qed

lemma Search_first:
  assumes "\<And>a b. a \<le> b \<Longrightarrow> b < n \<Longrightarrow> f a \<Longrightarrow> f b"
  shows "Search n f \<le> n" "k < Search n f \<Longrightarrow> \<not> f k" "Search n f < n \<Longrightarrow> f (Search n f)"
  using search_loop_bounds[of 0 n n f] assms unfolding Search_def by blast+

end
