(* ===== verification/Timeline.thy ===== *)
theory Timeline
  imports Topology Access Go_Parse Go_Sort Sql_Layout
begin

text \<open>
  The unified investigation timeline, \<open>domains/timeline/timeline.go\<close> and \<open>platform/api/handler/timeline.go\<close>: log
  lines, spans and changes of a trace or a window in one chronological feed.
\<close>

section \<open>Data\<close>

record Event =
  te_Type :: string
  te_Timestamp :: string
  te_Service :: string
  te_Severity :: string
  te_Title :: string
  te_TraceID :: string
  te_SpanID :: string
  te_Fields :: row

record Params =
  tp_TenantID :: string
  tp_TraceID :: string
  tp_Service :: string
  tp_SinceSeconds :: int
  tp_Limit :: int
  tp_IncludeInfo :: bool

section \<open>Statements\<close>

definition whereScope :: "Params \<Rightarrow> string" where
  "whereScope p =
     (if tp_TraceID p \<noteq> [] then ''trace_id = '' @ QuoteLiteral (tp_TraceID p)
      else ''timestamp >= now() - INTERVAL '' @ show_int (tp_SinceSeconds p) @ '' SECOND'' @
        (if tp_Service p \<noteq> [] then '' AND service = '' @ QuoteLiteral (tp_Service p) else []))"

definition logLevel :: "Params \<Rightarrow> string" where
  "logLevel p =
     (if tp_IncludeInfo p \<or> tp_TraceID p \<noteq> [] then ''1''
      else ''level IN ('' @ quote ''warn'' @ '','' @ quote ''error'' @ '','' @ quote ''fatal'' @ '')'')"

definition feed_tail :: "Params \<Rightarrow> string" where
  "feed_tail p = '' ORDER BY timestamp DESC LIMIT '' @ show_int (tp_Limit p)"

definition tl_logSQL :: "Params \<Rightarrow> string" where
  "tl_logSQL p =
     ''SELECT toString(timestamp) AS ts, service, level, message, trace_id, span_id'' @ nl @
     ''FROM logs WHERE tenant_id = '' @ QuoteLiteral (tp_TenantID p) @ '' AND '' @ whereScope p @ '' AND ('' @ logLevel p @ '')'' @ feed_tail p"

definition spanSQL :: "Params \<Rightarrow> string" where
  "spanSQL p =
     ''SELECT toString(timestamp) AS ts, service, name, kind, status_code, duration_ns, trace_id, span_id'' @ nl @
     ''FROM traces WHERE tenant_id = '' @ QuoteLiteral (tp_TenantID p) @ '' AND '' @ whereScope p @ feed_tail p"

definition changeSQL :: "Params \<Rightarrow> string" where
  "changeSQL p =
     ''SELECT toString(timestamp) AS ts, service, kind, title, git_sha, deploy_id, pr_number, author'' @ nl @ [CHR 0x09] @
     ''FROM change_events WHERE tenant_id = '' @ QuoteLiteral (tp_TenantID p) @ '' AND '' @ whereScope p @ feed_tail p"

section \<open>Build\<close>

definition log_event :: "row \<Rightarrow> Event" where
  "log_event r =
     \<lparr>te_Type = ''log'', te_Timestamp = str_of (cell r ''ts''), te_Service = str_of (cell r ''service''), te_Severity = str_of (cell r ''level''),
      te_Title = str_of (cell r ''message''), te_TraceID = str_of (cell r ''trace_id''), te_SpanID = str_of (cell r ''span_id''), te_Fields = []\<rparr>"

definition span_event :: "row \<Rightarrow> Event" where
  "span_event r =
     \<lparr>te_Type = ''span'', te_Timestamp = str_of (cell r ''ts''), te_Service = str_of (cell r ''service''), te_Severity = str_of (cell r ''status_code''),
      te_Title = str_of (cell r ''name''), te_TraceID = str_of (cell r ''trace_id''), te_SpanID = str_of (cell r ''span_id''),
      te_Fields = map (\<lambda>k. (k, cell r k)) [''kind'', ''duration_ns'']\<rparr>"

definition change_event :: "row \<Rightarrow> Event" where
  "change_event r =
     \<lparr>te_Type = ''deploy'', te_Timestamp = str_of (cell r ''ts''), te_Service = str_of (cell r ''service''), te_Severity = str_of (cell r ''kind''),
      te_Title = str_of (cell r ''title''), te_TraceID = [], te_SpanID = [],
      te_Fields = map (\<lambda>k. (k, cell r k)) [''git_sha'', ''deploy_id'', ''pr_number'', ''author'']\<rparr>"

definition normal :: "Params \<Rightarrow> Params" where
  "normal p =
     p\<lparr>tp_SinceSeconds := (if tp_SinceSeconds p \<le> 0 then 3600 else tp_SinceSeconds p),
       tp_Limit := (if tp_Limit p \<le> 0 \<or> tp_Limit p > 1000 then 200 else tp_Limit p)\<rparr>"

definition earlier :: "Event \<Rightarrow> Event \<Rightarrow> bool" where
  "earlier a b \<longleftrightarrow> te_Timestamp a < te_Timestamp b"

definition last_n :: "nat \<Rightarrow> 'a list \<Rightarrow> 'a list" where
  "last_n n xs = (if length xs > n then drop (length xs - n) xs else xs)"

definition Build :: "ch_query \<Rightarrow> Params \<Rightarrow> (goerror, Event list) outcome" where
  "Build ch p0 =
     (let p = normal p0 in
      bindO (wrap_err ''timeline logs: %w'' (ch (tl_logSQL p))) (\<lambda>logRows.
      bindO (wrap_err ''timeline spans: %w'' (ch (spanSQL p))) (\<lambda>spanRows.
      bindO (if tp_TraceID p = [] then wrap_err ''timeline changes: %w'' (ch (changeSQL p)) else Ok []) (\<lambda>changeRows.
      let events = map log_event logRows @ map span_event spanRows @ map change_event changeRows
      in Ok (last_n (nat (tp_Limit p)) (SliceStable earlier events))))))"

text \<open>\<open>read\<close> gives the text of an error.\<close>

datatype 'a served = Refused int string | Served 'a

definition int_param :: "string \<Rightarrow> int" where
  "int_param s = (case ParseInt s of Some v \<Rightarrow> v | None \<Rightarrow> 0)"

definition Timeline_h :: "identity \<Rightarrow> (string \<Rightarrow> string) \<Rightarrow> ch_query \<Rightarrow> (goerror \<Rightarrow> string) \<Rightarrow> Event list served" where
  "Timeline_h ident q ch errtext =
     (if \<not> HasScope ident [''logs:read'', ''logs:query''] then Refused 403 ''requires logs:read or logs:query scope''
      else case Build ch
          \<lparr>tp_TenantID = ctxTenant ident, tp_TraceID = q ''trace_id'', tp_Service = q ''service'', tp_SinceSeconds = int_param (q ''since''),
           tp_Limit = int_param (q ''limit''), tp_IncludeInfo = (q ''include_info'' = ''true'')\<rparr> of
        Ok events \<Rightarrow> Served events
      | Err e \<Rightarrow> Refused 502 (errtext e)
      | Panic \<Rightarrow> Refused 500 [])"

section \<open>The statements are confined\<close>

definition scope_conjs :: "Params \<Rightarrow> string list" where
  "scope_conjs p =
     (if tp_TraceID p \<noteq> [] then [''trace_id = '' @ quote (tp_TraceID p)]
      else (''timestamp'' @ '' >= '' @ ''now() - INTERVAL '' @ show_int (tp_SinceSeconds p) @ '' SECOND'') #
        (if tp_Service p \<noteq> [] then [''service = '' @ quote (tp_Service p)] else []))"

lemma whereScope_conjs: "'' AND '' @ whereScope p = concat (map (\<lambda>c. '' AND '' @ c) (scope_conjs p))"
  by (simp add: whereScope_def scope_conjs_def QuoteLiteral_def)

lemma scope_conjunct: "list_all conjunct (scope_conjs p)"
proof -
  have "conjunct (''trace_id = '' @ quote v)" "conjunct (''service = '' @ quote v)" for v by (rule conjunct_quote; code_simp)+
  then show ?thesis using conjunct_since[of "'' >= ''"] by (simp add: scope_conjs_def)
qed

lemma lays_scope: "lays False 0 ('' AND '' @ whereScope p) ('' AND '' @ whereScope p) False 0"
proof -
  have c: "lays False 0 '' AND trace_id = '' '' AND trace_id = '' True 0" "lays False 0 '' AND service = '' '' AND service = '' True 0"
    "lays False 0 '' AND timestamp >= now() - INTERVAL '' '' AND timestamp >= now() - INTERVAL '' True 0" "lays False 0 '' SECOND'' '' SECOND'' False 0" by code_simp+
  note t = lays_append[OF c(1) lays_quote] and v = lays_append[OF c(2) lays_quote] and w = lays_append[OF c(3) lays_append[OF lays_int c(4)]]
  show ?thesis using t[of "tp_TraceID p"] w lays_append[OF w v[of "tp_Service p"]] by (simp add: whereScope_def QuoteLiteral_def)
qed

lemma lays_tail: "lays False 0 (feed_tail p) (feed_tail p) False 0"
proof -
  have "lays False 0 '' ORDER BY timestamp DESC LIMIT '' '' ORDER BY timestamp DESC LIMIT '' True 0" by code_simp
  then show ?thesis unfolding feed_tail_def by (rule lays_append[OF _ lays_int])
qed

lemma tail_ends: "ends_where (feed_tail p)" "q_run (Sql (Out 0)) (feed_tail p) = Sql (Out 0)"
proof -
  show "ends_where (feed_tail p)" by (simp add: ends_where_def feed_tail_def HasPrefix_def)
  have "closed ''timestamp DESC''" by (rule closed_plain) code_simp
  then have "closed ('' ORDER BY '' @ ''timestamp DESC'' @ '' LIMIT '' @ show_int (tp_Limit p))" by (intro closed_append literal_closed closed_show_int)
  moreover have "feed_tail p = '' ORDER BY '' @ ''timestamp DESC'' @ '' LIMIT '' @ show_int (tp_Limit p)" by (simp add: feed_tail_def)
  ultimately show "q_run (Sql (Out 0)) (feed_tail p) = Sql (Out 0)" using closed_run by metis
qed

lemma level_closed: "closed (logLevel p)"
proof -
  have "closed ''1''" "closed ''level IN ''" "closed '',''" by (rule closed_plain, code_simp)+
  then have "closed (''level IN '' @ ''('' @ (quote ''warn'' @ '','' @ quote ''error'' @ '','' @ quote ''fatal'') @ '')'')" by (intro closed_append closed_paren quote_closed)
  then show ?thesis using \<open>closed ''1''\<close> by (simp add: logLevel_def)
qed

lemma lays_level: "lays False 0 ('' AND ('' @ logLevel p @ '')'') ('' AND ('' @ logLevel p @ '')'') False 0"
proof -
  have "lays False 0 ('' AND ('' @ ''1'' @ '')'') ('' AND ('' @ ''1'' @ '')'') False 0"
    "lays False 0 ('' AND ('' @ (''level IN ('' @ quote ''warn'' @ '','' @ quote ''error'' @ '','' @ quote ''fatal'' @ '')'') @ '')'')
      ('' AND ('' @ (''level IN ('' @ quote ''warn'' @ '','' @ quote ''error'' @ '','' @ quote ''fatal'' @ '')'') @ '')'') False 0" by code_simp+
  then show ?thesis unfolding logLevel_def by (cases "tp_IncludeInfo p \<or> tp_TraceID p \<noteq> []") (simp_all only: if_True if_False)
qed

lemma timeline_laid:
  "laid_out (tp_TenantID p) (tl_logSQL p)" "laid_out (tp_TenantID p) (spanSQL p)" "laid_out (tp_TenantID p) (changeSQL p)"
proof -
  let ?t = "tp_TenantID p"
  note r = lays_append[OF lays_scope lays_tail]
  note rl = lays_append[OF lays_scope lays_append[OF lays_level lays_tail]]
  define cl where "cl = scope_conjs p @ [''('' @ logLevel p @ '')'']"
  have h: "lays False 0 (''SELECT toString(timestamp) AS ts, service, level, message, trace_id, span_id'' @ nl @ ''FROM logs WHERE tenant_id = '')
      (''SELECT toString(timestamp) AS ts, service, level, message, trace_id, span_id'' @ '' FROM '' @ ''logs'' @ '' WHERE tenant_id = '') True 0"
    "lays False 0 (''SELECT toString(timestamp) AS ts, service, name, kind, status_code, duration_ns, trace_id, span_id'' @ nl @ ''FROM traces WHERE tenant_id = '')
      (''SELECT toString(timestamp) AS ts, service, name, kind, status_code, duration_ns, trace_id, span_id'' @ '' FROM '' @ ''traces'' @ '' WHERE tenant_id = '') True 0"
    "lays False 0 (''SELECT toString(timestamp) AS ts, service, kind, title, git_sha, deploy_id, pr_number, author'' @ nl @ [CHR 0x09] @ ''FROM change_events WHERE tenant_id = '')
      (''SELECT toString(timestamp) AS ts, service, kind, title, git_sha, deploy_id, pr_number, author'' @ '' FROM '' @ ''change_events'' @ '' WHERE tenant_id = '') True 0"
    by code_simp+
  have q: "q_run (Sql (Out 0)) ''SELECT toString(timestamp) AS ts, service, level, message, trace_id, span_id'' = Sql (Out 0)"
    "q_run (Sql (Out 0)) ''SELECT toString(timestamp) AS ts, service, name, kind, status_code, duration_ns, trace_id, span_id'' = Sql (Out 0)"
    "q_run (Sql (Out 0)) ''SELECT toString(timestamp) AS ts, service, kind, title, git_sha, deploy_id, pr_number, author'' = Sql (Out 0)" by code_simp+
  have tb: "''logs'' \<in> set read_tables" "''traces'' \<in> set read_tables" "''change_events'' \<in> set read_tables" by code_simp+
  have cj: "list_all conjunct (scope_conjs p)" "list_all conjunct cl" using scope_conjunct conjunct_paren[OF level_closed[of p]] by (simp_all add: cl_def)
  have rl': "lays False 0 (('' AND '' @ whereScope p) @ ('' AND ('' @ logLevel p @ '')'') @ feed_tail p) (concat (map (\<lambda>c. '' AND '' @ c) cl) @ feed_tail p) False 0"
    using rl unfolding cl_def by (simp add: whereScope_conjs[unfolded append_Cons append_Nil])
  show "laid_out ?t (spanSQL p)" using laid_out_select[OF h(2) r[unfolded whereScope_conjs] q(2) tb(2) cj(1) tail_ends]
    unfolding whereScope_conjs[symmetric] by (simp add: spanSQL_def QuoteLiteral_def)
  show "laid_out ?t (changeSQL p)" using laid_out_select[OF h(3) r[unfolded whereScope_conjs] q(3) tb(3) cj(1) tail_ends]
    unfolding whereScope_conjs[symmetric] by (simp add: changeSQL_def QuoteLiteral_def)
  show "laid_out ?t (tl_logSQL p)" using laid_out_select[OF h(1) rl' q(1) tb(1) cj(2) tail_ends] by (simp add: tl_logSQL_def QuoteLiteral_def)
qed

section \<open>The feed\<close>

interpretation chrono: comparison earlier UNIV
  by unfold_locales (auto simp: earlier_def)

lemma feed_sorted: "sorted_wrt (\<lambda>a b. te_Timestamp a \<le> te_Timestamp b) (SliceStable earlier es)"
  by (rule sorted_wrt_mono_rel[OF _ chrono.sorted_SliceStable]) (simp_all add: earlier_def)

lemma last_n_split:
  assumes "sorted_wrt R xs"
  shows "\<exists>d. d @ last_n n xs = xs \<and> length (last_n n xs) = min n (length xs) \<and> sorted_wrt R (last_n n xs) \<and> (\<forall>a \<in> set d. \<forall>b \<in> set (last_n n xs). R a b)"
proof (cases "length xs > n")
  case True
  then have "sorted_wrt R (take (length xs - n) xs @ drop (length xs - n) xs)" using assms by simp
  then show ?thesis using True unfolding sorted_wrt_append
    by (intro exI[of _ "take (length xs - n) xs"]) (simp add: last_n_def)
next
  case False
  then show ?thesis using assms by (intro exI[of _ "[]"]) (simp add: last_n_def)
qed

lemma wrap_err_Ok [simp]: "wrap_err f m = Ok x \<longleftrightarrow> m = Ok x"
  by (cases m) (auto simp: wrap_err_def split: goerror.splits)

text \<open>
  A timeline is one chronological feed of its three sources: it has as many events as the limit allows, its
  time stamps increase, and it holds the latest of the log lines, spans and changes the statements returned;
  whatever is left out is not later than anything shown.
\<close>

theorem timeline_latest:
  assumes "Build ch p = Ok es"
  shows "\<exists>logs spans changes dropped. ch (tl_logSQL (normal p)) = Ok logs \<and> ch (spanSQL (normal p)) = Ok spans \<and>
    (if tp_TraceID p = [] then ch (changeSQL (normal p)) = Ok changes else changes = []) \<and>
    mset (dropped @ es) = mset (map log_event logs @ map span_event spans @ map change_event changes) \<and>
    length es = min (nat (tp_Limit (normal p))) (length logs + length spans + length changes) \<and>
    sorted_wrt (\<lambda>a b. te_Timestamp a \<le> te_Timestamp b) (dropped @ es)"
proof -
  have n: "tp_TraceID (normal p) = tp_TraceID p" by (simp add: normal_def)
  obtain logs spans changes where rows: "ch (tl_logSQL (normal p)) = Ok logs" "ch (spanSQL (normal p)) = Ok spans"
    "if tp_TraceID p = [] then ch (changeSQL (normal p)) = Ok changes else changes = []"
    and es: "es = last_n (nat (tp_Limit (normal p))) (SliceStable earlier (map log_event logs @ map span_event spans @ map change_event changes))"
    using assms by (auto simp: Build_def Let_def bindO_eq_Ok n split: if_splits)
  let ?all = "map log_event logs @ map span_event spans @ map change_event changes"
  obtain d where d: "d @ es = SliceStable earlier ?all" "length es = min (nat (tp_Limit (normal p))) (length ?all)"
    using last_n_split[OF feed_sorted[of ?all], of "nat (tp_Limit (normal p))"] unfolding es length_SliceStable by blast
  have "mset (d @ es) = mset ?all" "sorted_wrt (\<lambda>a b. te_Timestamp a \<le> te_Timestamp b) (d @ es)" using d(1) feed_sorted[of ?all] by (metis mset_SliceStable) (simp add: d(1) feed_sorted)
  moreover have "length es = min (nat (tp_Limit (normal p))) (length logs + length spans + length changes)" using d(2) by simp
  ultimately show ?thesis using rows by blast
qed

definition demo_feed :: ch_query where
  "demo_feed sql = Ok (map (\<lambda>t. [(''ts'', AnyStr t)]) [''2026-07-01 00:00:02'', ''2026-07-01 00:00:01''])"

definition demo_params :: Params where
  "demo_params = \<lparr>tp_TenantID = ''acme'', tp_TraceID = [], tp_Service = ''api'', tp_SinceSeconds = 60, tp_Limit = 4, tp_IncludeInfo = False\<rparr>"

theorem timeline_latest_witness:
  "\<exists>es. Build demo_feed demo_params = Ok es \<and> length es = 4 \<and> map te_Type es = [''deploy'', ''log'', ''span'', ''deploy''] \<and>
     (\<exists>dropped. length dropped = 2 \<and> sorted_wrt (\<lambda>a b. te_Timestamp a \<le> te_Timestamp b) (dropped @ es))"
proof -
  have ok: "demo_feed sql = Ok rows \<longleftrightarrow> rows = [[(''ts'', AnyStr ''2026-07-01 00:00:02'')], [(''ts'', AnyStr ''2026-07-01 00:00:01'')]]" for sql rows
    by (auto simp: demo_feed_def)
  have p: "tp_TraceID demo_params = []" "nat (tp_Limit (normal demo_params)) = 4" by code_simp+
  have "map_outcome id (map te_Type) (Build demo_feed demo_params) = Ok [''deploy'', ''log'', ''span'', ''deploy'']" by code_simp
  then obtain es where es: "Build demo_feed demo_params = Ok es" and ty: "map te_Type es = [''deploy'', ''log'', ''span'', ''deploy'']"
    by (cases "Build demo_feed demo_params") auto
  let ?rows = "[[(''ts'', AnyStr ''2026-07-01 00:00:02'')], [(''ts'', AnyStr ''2026-07-01 00:00:01'')]]"
  from timeline_latest[OF es] obtain dropped where
    m: "mset (dropped @ es) = mset (map log_event ?rows @ map span_event ?rows @ map change_event ?rows)" and
    s: "sorted_wrt (\<lambda>a b. te_Timestamp a \<le> te_Timestamp b) (dropped @ es)"
    unfolding ok p if_True by (metis (no_types, lifting))
  have len: "length es = 4" using arg_cong[OF ty, of length] by simp
  have "length dropped + length es = 6" using mset_eq_length[OF m] by simp
  with len have "length dropped = 2" by simp
  then show ?thesis by (intro exI[of _ es] exI[of _ dropped] conjI es ty s len)
qed

section \<open>What the statements read\<close>

text \<open>
  The statements of an investigation for a tenant: one table under the tenant guard, or the self-join of the
  service graph, which equates the tenants of both sides and guards one of them.
\<close>

definition tenant_sql :: "string \<Rightarrow> string \<Rightarrow> bool" where
  "tenant_sql tenant sql \<longleftrightarrow> laid_out tenant sql \<or> (\<exists>w. sql = edgeSQL tenant w)"

text \<open>Two stores that answer the statements of a tenant alike.\<close>

definition agree :: "string \<Rightarrow> ch_query \<Rightarrow> ch_query \<Rightarrow> bool" where
  "agree tenant ch ch' \<longleftrightarrow> (\<forall>sql. tenant_sql tenant sql \<longrightarrow> ch sql = ch' sql)"

lemma agreeD: "agree tenant ch ch' \<Longrightarrow> laid_out tenant sql \<Longrightarrow> ch sql = ch' sql" "agree tenant ch ch' \<Longrightarrow> ch (edgeSQL tenant w) = ch' (edgeSQL tenant w)"
  by (auto simp: agree_def tenant_sql_def)

lemma timeline_agree:
  assumes "agree (tp_TenantID p) ch ch'" shows "Build ch p = Build ch' p"
proof -
  have "tp_TenantID (normal p) = tp_TenantID p" by (simp add: normal_def)
  with timeline_laid[of "normal p"] have "laid_out (tp_TenantID p) (tl_logSQL (normal p))" "laid_out (tp_TenantID p) (spanSQL (normal p))" "laid_out (tp_TenantID p) (changeSQL (normal p))" by simp_all
  then show ?thesis unfolding Build_def Let_def by (simp only: agreeD(1)[OF assms])
qed

lemma since_conjunct: "conjunct (since w)"
  using conjunct_since[of "'' >= ''" w] by (simp add: since_def)

lemma lays_since: "lays sp 0 (since w) (since w) False 0"
proof -
  have "lays sp 0 ''timestamp >= now() - INTERVAL '' ''timestamp >= now() - INTERVAL '' True 0" by (cases sp; simp only:; code_simp)
  moreover have "lays False 0 '' SECOND'' '' SECOND'' False 0" by code_simp
  ultimately show ?thesis unfolding since_def by (intro lays_append[OF _ lays_append[OF lays_int]])
qed

lemma node_statements_laid: "laid_out tenant (traceSQL tenant w)" "laid_out tenant (Topology.logSQL tenant w)"
proof -
  let ?pre = "''SELECT service, count() AS spans, countIf(status_code='' @ [squote] @ ''error'' @ [squote] @ '') AS errors''"
  have h: "lays False 0 (?pre @ nl @ ''FROM traces WHERE tenant_id = '') (?pre @ '' FROM '' @ ''traces'' @ '' WHERE tenant_id = '') True 0"
    "lays False 0 (''SELECT service, count() AS log_count FROM logs'' @ nl @ ''WHERE tenant_id = '') (''SELECT service, count() AS log_count'' @ '' FROM '' @ ''logs'' @ '' WHERE tenant_id = '') True 0"
    "lays False 0 '' AND '' '' AND '' True 0" "lays False 0 '' GROUP BY service'' '' GROUP BY service'' False 0" by code_simp+
  have r: "lays False 0 ('' AND '' @ since w @ '' GROUP BY service'') (concat (map (\<lambda>c. '' AND '' @ c) [since w]) @ '' GROUP BY service'') False 0"
    using lays_append[OF h(3) lays_append[OF lays_since h(4)]] by simp
  have c: "list_all conjunct [since w]" using since_conjunct by (simp only: list.pred_inject simp_thms)
  have e: "q_run (Sql (Out 0)) ?pre = Sql (Out 0)" "q_run (Sql (Out 0)) ''SELECT service, count() AS log_count'' = Sql (Out 0)" "''traces'' \<in> set read_tables" "''logs'' \<in> set read_tables"
    "ends_where '' GROUP BY service''" "q_run (Sql (Out 0)) '' GROUP BY service'' = Sql (Out 0)" by code_simp+
  show "laid_out tenant (traceSQL tenant w)" using laid_out_select[OF h(1) r e(1,3) c e(5,6)] by (simp add: traceSQL_def QuoteLiteral_def)
  show "laid_out tenant (Topology.logSQL tenant w)" using laid_out_select[OF h(2) r e(2,4) c e(5,6)] by (simp add: Topology.logSQL_def QuoteLiteral_def)
qed

lemma topology_agree:
  assumes "agree tenant ch ch'" shows "Derive ch oob tenant w = Derive ch' oob tenant w"
  unfolding Derive_def Let_def by (simp only: agreeD(1)[OF assms node_statements_laid(1)] agreeD(1)[OF assms node_statements_laid(2)] agreeD(2)[OF assms])

end
