(* ===== verification/Deploy.thy ===== *)
theory Deploy
  imports Go_Time Alert_Rules Timeline Float_Mono
begin

text \<open>
  Deployment intelligence, \<open>domains/deploy/deploy.go\<close> and \<open>platform/api/handler/deploy.go\<close>: recent changes of a
  service scored by recency, kind and the error rate before and after, and a rollback suggestion for the most
  likely one. \<open>ex\<close> is \<open>math.Exp\<close>, whose last bit the library does not specify.
\<close>

section \<open>Data\<close>

record HealthDelta =
  hd_BeforeTotal :: int
  hd_BeforeErrors :: int
  hd_AfterTotal :: int
  hd_AfterErrors :: int
  hd_BeforeRate :: f64
  hd_AfterRate :: f64
  hd_Delta :: f64
  hd_Degraded :: bool

record Rollback =
  rb_TargetGitSHA :: string
  rb_TargetDeployID :: string

record Culprit =
  cu_ID :: string
  cu_Kind :: string
  cu_Title :: string
  cu_Service :: string
  cu_GitSHA :: string
  cu_DeployID :: string
  cu_PRNumber :: string
  cu_FlagKey :: string
  cu_AgeSeconds :: int
  cu_Timestamp :: string
  cu_Score :: f64
  cu_Reason :: string
  cu_Health :: "HealthDelta option"
  cu_Rollback :: "Rollback option"

definition maxCulprits :: int where "maxCulprits = 15"

definition changeTypeWeight :: "string \<Rightarrow> f64 option" where
  "changeTypeWeight = map_of [(''deploy'', lit 1), (''rollback'', lit (95 / 100)), (''config'', lit (75 / 100)), (''flag'', lit (65 / 100))]"

section \<open>Scoring\<close>

definition clamp :: "f64 \<Rightarrow> f64 \<Rightarrow> f64 \<Rightarrow> f64" where
  "clamp x lo hi = fmax lo (fmin hi x)"

definition round4 :: "f64 \<Rightarrow> f64" where "round4 = round_to 10000"

definition dep_f64 :: "any \<Rightarrow> f64" where
  "dep_f64 v = (case v of AnyFloat x \<Rightarrow> x | AnyInt n \<Rightarrow> of_int64 n | AnyStr s \<Rightarrow> scan_g s | AnyOther \<Rightarrow> Zero False)"

definition rate_of :: "int \<Rightarrow> int \<Rightarrow> f64" where
  "rate_of errs n = (if n > 0 then fdiv (of_int64 errs) (of_int64 n) else Zero False)"

definition newHealthDelta :: "int \<Rightarrow> int \<Rightarrow> int \<Rightarrow> int \<Rightarrow> HealthDelta" where
  "newHealthDelta beforeTotal beforeErr afterTotal afterErr =
     (let b = rate_of beforeErr beforeTotal; a = rate_of afterErr afterTotal; d = round4 (fsub a b)
      in \<lparr>hd_BeforeTotal = beforeTotal, hd_BeforeErrors = beforeErr, hd_AfterTotal = afterTotal, hd_AfterErrors = afterErr,
          hd_BeforeRate = round4 b, hd_AfterRate = round4 a, hd_Delta = d, hd_Degraded = (afterTotal > 0 \<and> flt (lit (2 / 100)) d)\<rparr>)"

definition kindLabel :: "string \<Rightarrow> string" where
  "kindLabel kind = (if kind = [] then ''change'' else kind @ '' change'')"

definition arrow :: string where "arrow = [CHR 0xE2, CHR 0x86, CHR 0x92]"

definition pct :: "f64 \<Rightarrow> string" where
  "pct r = show_fixed 1 (fmul r (of_int64 100)) @ ''%''"

definition structural :: "(f64 \<Rightarrow> f64) \<Rightarrow> string \<Rightarrow> int \<Rightarrow> int \<Rightarrow> f64" where
  "structural ex kind age win =
     (let recency = ex (fdiv (fminus (of_int64 age)) (of_int64 win));
          weight = (case changeTypeWeight kind of Some w \<Rightarrow> w | None \<Rightarrow> lit (70 / 100))
      in fmul recency weight)"

definition blended :: "f64 \<Rightarrow> f64 \<Rightarrow> f64" where
  "blended s delta =
     fadd (fmul (lit (55 / 100)) s) (fmul (lit (45 / 100)) (clamp (fmul delta (of_int64 5)) (Zero False) (Fin 1)))"

definition scoreCulprit :: "(f64 \<Rightarrow> f64) \<Rightarrow> string \<Rightarrow> int \<Rightarrow> int \<Rightarrow> HealthDelta option \<Rightarrow> f64 \<times> string" where
  "scoreCulprit ex kind age win h =
     (let s = structural ex kind age win; ago = kindLabel kind @ '' ~'' @ show_int age @ ''s ago''
      in case h of
        None \<Rightarrow> (round_to 100 s, ago @ '' (no post-change telemetry to correlate)'')
      | Some d \<Rightarrow>
          if hd_AfterTotal d = 0 then (round_to 100 s, ago @ '' (no post-change telemetry to correlate)'')
          else let score = round_to 100 (blended s (hd_Delta d)) in
            if hd_Degraded d then (score, ago @ ''; error rate rose '' @ pct (hd_BeforeRate d) @ arrow @ pct (hd_AfterRate d) @ '' after the change'')
            else (score, ago @ ''; error rate stable ('' @ pct (hd_BeforeRate d) @ arrow @ pct (hd_AfterRate d) @ '')''))"

section \<open>Statements\<close>

definition ago_sql :: "int \<Rightarrow> string" where
  "ago_sql n = ''now() - INTERVAL '' @ show_int n @ '' SECOND''"

definition between_sql :: "int \<Rightarrow> int \<Rightarrow> string" where
  "between_sql a b = ''timestamp BETWEEN '' @ ago_sql a @ '' AND '' @ ago_sql b"

definition error_levels :: string where
  "error_levels = ''level IN ('' @ quote ''error'' @ '','' @ quote ''fatal'' @ '')''"

definition culpritSQL :: "string \<Rightarrow> string \<Rightarrow> int \<Rightarrow> string" where
  "culpritSQL tenant service w =
     ''SELECT id, toString(timestamp) AS ts, kind, title, git_sha, deploy_id, pr_number, flag_key,'' @ nl @
     ''dateDiff('' @ quote ''second'' @ '', timestamp, now()) AS age'' @ nl @
     ''FROM change_events WHERE tenant_id = '' @ QuoteLiteral tenant @ '' AND service = '' @ QuoteLiteral service @ nl @
     ''  AND timestamp > '' @ ago_sql w @ nl @ ''ORDER BY timestamp DESC LIMIT '' @ show_int maxCulprits"

definition healthSQL :: "string \<Rightarrow> string \<Rightarrow> int \<Rightarrow> int \<Rightarrow> string" where
  "healthSQL tenant service age hw =
     (let afterEnd = (if age - hw < 0 then 0 else age - hw); start = wrap64 (age + hw)
      in ''SELECT'' @ nl @
         ''countIf('' @ between_sql start age @ '') AS before_total,'' @ nl @
         ''countIf('' @ error_levels @ '' AND '' @ between_sql start age @ '') AS before_err,'' @ nl @
         ''countIf('' @ between_sql age afterEnd @ '') AS after_total,'' @ nl @
         ''countIf('' @ error_levels @ '' AND '' @ between_sql age afterEnd @ '') AS after_err'' @ nl @
         ''FROM logs'' @ nl @
         ''WHERE tenant_id = '' @ QuoteLiteral tenant @ '' AND service = '' @ QuoteLiteral service @ nl @
         ''  AND '' @ between_sql start afterEnd)"

definition priorSQL :: "string \<Rightarrow> string \<Rightarrow> int \<Rightarrow> string" where
  "priorSQL tenant service age =
     ''SELECT git_sha, deploy_id FROM change_events'' @ nl @
     ''WHERE tenant_id = '' @ QuoteLiteral tenant @ '' AND service = '' @ QuoteLiteral service @ '' AND kind = '' @ quote ''deploy'' @ nl @
     ''  AND timestamp < '' @ ago_sql age @ nl @ ''ORDER BY timestamp DESC LIMIT 1''"

section \<open>Ranking\<close>

definition deployHealth :: "ch_query \<Rightarrow> (f64 \<Rightarrow> int) \<Rightarrow> string \<Rightarrow> string \<Rightarrow> int \<Rightarrow> int \<Rightarrow> HealthDelta option" where
  "deployHealth ch oob tenant service age hw =
     (case ch (healthSQL tenant service age hw) of
        Ok (r # _) \<Rightarrow>
          (let n = (\<lambda>k. int64_of oob (dep_f64 (cell r k)))
           in Some (newHealthDelta (n ''before_total'') (n ''before_err'') (n ''after_total'') (n ''after_err'')))
      | _ \<Rightarrow> None)"

definition priorDeployRollback :: "ch_query \<Rightarrow> string \<Rightarrow> string \<Rightarrow> int \<Rightarrow> Rollback option" where
  "priorDeployRollback ch tenant service age =
     (case ch (priorSQL tenant service age) of
        Ok (r # _) \<Rightarrow>
          (let git = str_of (cell r ''git_sha''); dep = str_of (cell r ''deploy_id'')
           in if git = [] \<and> dep = [] then None else Some \<lparr>rb_TargetGitSHA = git, rb_TargetDeployID = dep\<rparr>)
      | _ \<Rightarrow> None)"

definition culprit_of :: "ch_query \<Rightarrow> (f64 \<Rightarrow> int) \<Rightarrow> (f64 \<Rightarrow> f64) \<Rightarrow> string \<Rightarrow> string \<Rightarrow> int \<Rightarrow> row \<Rightarrow> Culprit" where
  "culprit_of ch oob ex tenant service w r =
     (let hw = quot0 w 4; hw = (if hw < 300 then 300 else hw);
          age = int64_of oob (dep_f64 (cell r ''age'')); age = (if age < 0 then 0 else age);
          kind = str_of (cell r ''kind''); health = deployHealth ch oob tenant service age hw;
          (score, reason) = scoreCulprit ex kind age w health
      in \<lparr>cu_ID = str_of (cell r ''id''), cu_Kind = kind, cu_Title = str_of (cell r ''title''), cu_Service = service,
          cu_GitSHA = str_of (cell r ''git_sha''), cu_DeployID = str_of (cell r ''deploy_id''), cu_PRNumber = str_of (cell r ''pr_number''),
          cu_FlagKey = str_of (cell r ''flag_key''), cu_AgeSeconds = age, cu_Timestamp = str_of (cell r ''ts''),
          cu_Score = score, cu_Reason = reason, cu_Health = health, cu_Rollback = None\<rparr>)"

definition degraded_deploy :: "Culprit \<Rightarrow> bool" where
  "degraded_deploy c \<longleftrightarrow> cu_Kind c = ''deploy'' \<and> (case cu_Health c of Some h \<Rightarrow> hd_Degraded h | None \<Rightarrow> False)"

definition suggest :: "ch_query \<Rightarrow> string \<Rightarrow> string \<Rightarrow> Culprit list \<Rightarrow> Culprit list" where
  "suggest ch tenant service cs =
     (case cs of [] \<Rightarrow> []
      | c # rest \<Rightarrow>
          if degraded_deploy c then
            (case priorDeployRollback ch tenant service (cu_AgeSeconds c) of
               Some rb \<Rightarrow> c\<lparr>cu_Rollback := Some rb\<rparr> # rest
             | None \<Rightarrow> cs)
          else cs)"

definition RankCulprits :: "ch_query \<Rightarrow> (f64 \<Rightarrow> int) \<Rightarrow> (f64 \<Rightarrow> f64) \<Rightarrow> string \<Rightarrow> string \<Rightarrow> int \<Rightarrow> (goerror, int \<times> Culprit list) outcome" where
  "RankCulprits ch oob ex tenant service win =
     (let w = (if win \<le> 0 then 3600 else win)
      in bindO (wrap_err ''deploy changes: %w'' (ch (culpritSQL tenant service w))) (\<lambda>rows.
         Ok (w, suggest ch tenant service (SliceStable (by_score cu_Score) (map (culprit_of ch oob ex tenant service w) rows)))))"

section \<open>The handler\<close>

text \<open>
  \<open>inc\<close> is the service of the incident row with the tenant and the identifier given, if there is one. The window
  of a request is positive.
\<close>

definition window_param :: "string \<Rightarrow> int" where
  "window_param s = (case ParseInt s of Some v \<Rightarrow> if v > 0 then v else 3600 | None \<Rightarrow> 3600)"

definition service_param :: "(string \<Rightarrow> string) \<Rightarrow> (string \<Rightarrow> string \<Rightarrow> string option) \<Rightarrow> string \<Rightarrow> string" where
  "service_param q inc tenant =
     (if q ''service'' \<noteq> [] then q ''service''
      else if q ''incident_id'' \<noteq> [] then (case inc tenant (q ''incident_id'') of Some s \<Rightarrow> s | None \<Rightarrow> [])
      else [])"

definition DeployCulprits :: "identity \<Rightarrow> (string \<Rightarrow> string) \<Rightarrow> (string \<Rightarrow> string \<Rightarrow> string option) \<Rightarrow> ch_query \<Rightarrow> (f64 \<Rightarrow> int) \<Rightarrow> (f64 \<Rightarrow> f64) \<Rightarrow> (goerror \<Rightarrow> string) \<Rightarrow> (string \<times> int \<times> Culprit list) served" where
  "DeployCulprits ident q inc ch oob ex errtext =
     (if \<not> HasScope ident [''logs:read'', ''logs:query''] then Refused 403 ''requires logs:read or logs:query scope''
      else let tenant = ctxTenant ident; service = service_param q inc tenant in
        if service = [] then Refused 400 ''service or incident_id required''
        else case RankCulprits ch oob ex tenant service (window_param (q ''since'')) of
          Ok (w, cs) \<Rightarrow> Served (service, w, cs)
        | Err e \<Rightarrow> Refused 502 (errtext e)
        | Panic \<Rightarrow> Refused 500 [])"

section \<open>Scores\<close>

text \<open>What is relied on of \<open>math.Exp\<close>: on arguments that are not positive it is between 0 and 1 and keeps the order.\<close>

definition exp_like :: "(f64 \<Rightarrow> f64) \<Rightarrow> bool" where
  "exp_like ex \<longleftrightarrow> (\<forall>x y. fle x y \<and> fle y (Zero False) \<longrightarrow> fle (Zero False) (ex x) \<and> fle (ex x) (ex y) \<and> fle (ex y) (Fin 1))"

lemma exp_likeD: "exp_like ex \<Longrightarrow> fle x y \<Longrightarrow> fle y (Zero False) \<Longrightarrow> nn (ex x) \<and> fle (ex x) (ex y) \<and> fle (ex y) (Fin 1)"
  by (simp add: exp_like_def nn_def)

definition weight_of :: "string \<Rightarrow> f64" where
  "weight_of kind = (case changeTypeWeight kind of Some w \<Rightarrow> w | None \<Rightarrow> lit (70 / 100))"

lemma weight_unit: "is_finite (weight_of k) \<and> 0 < f_val (weight_of k) \<and> fle (fmul (Fin 1) (weight_of k)) (Fin 1)"
proof -
  have "weight_of k \<in> {lit 1, lit (95 / 100), lit (75 / 100), lit (65 / 100), lit (70 / 100)}"
    by (simp add: weight_of_def changeTypeWeight_def)
  moreover have "list_all (\<lambda>w. is_finite w \<and> 0 < f_val w \<and> fle (fmul (Fin 1) w) (Fin 1)) [lit 1, lit (95 / 100), lit (75 / 100), lit (65 / 100), lit (70 / 100)]"
    by code_simp
  ultimately show ?thesis by (auto simp only: list_all_iff list.set insert_iff empty_iff)
qed

definition age_arg :: "int \<Rightarrow> int \<Rightarrow> f64" where
  "age_arg age win = fdiv (fminus (of_int64 age)) (of_int64 win)"

lemma fminus_order: "fle x y \<Longrightarrow> fle (fminus y) (fminus x)"
  by (cases x; cases y) (auto simp: fminus_def f_val_def)

lemma window_fin: "0 < w \<Longrightarrow> in_int64 w \<Longrightarrow> is_finite (of_int64 w) \<and> 0 < f_val (of_int64 w)"
  using of_int64_pos[of w] of_int64_finite[of w] by simp

lemma age_arg_mono:
  assumes "0 \<le> a" "a \<le> a'" "0 < w" "in_int64 w" shows "fle (age_arg a' w) (age_arg a w) \<and> fle (age_arg a w) (Zero False)"
proof -
  note f = window_fin[OF assms(3,4)]
  have "fle (age_arg a' w) (age_arg a w)" unfolding age_arg_def using f assms(2) by (intro fdiv_mono fminus_order of_int64_order) simp_all
  moreover have "fle (fdiv (fminus (of_int64 a)) (of_int64 w)) (fdiv (fminus (of_int64 0)) (of_int64 w))"
    using f assms(1) by (intro fdiv_mono fminus_order of_int64_order) simp_all
  moreover have "fle (fdiv (fminus (of_int64 0)) (of_int64 w)) (Zero False)" using f
    by (cases "of_int64 w") (auto simp: of_int64_def round64_def[of 0] fminus_def is_finite_def f_val_def)
  ultimately show ?thesis unfolding age_arg_def using fle_trans by blast
qed

lemma structural_mono:
  assumes "exp_like ex" "0 \<le> a" "a \<le> a'" "0 < w" "in_int64 w"
  shows "nn (structural ex k a' w)" "fle (structural ex k a' w) (structural ex k a w)" "fle (structural ex k a w) (Fin 1)"
proof -
  have s: "structural ex k n w = fmul (ex (age_arg n w)) (weight_of k)" for n by (simp add: structural_def age_arg_def weight_of_def Let_def)
  note e = exp_likeD[OF assms(1) age_arg_mono[OF assms(2-5), THEN conjunct1] age_arg_mono[OF assms(2-5), THEN conjunct2]]
  note w = weight_unit[of k]
  have fin: "is_finite (Fin 1)" by code_simp
  have "is_finite (ex (age_arg a w))" "is_finite (ex (age_arg a' w))" using e finite_below fin nn_mono fle_trans by blast+
  then show "nn (structural ex k a' w)" unfolding s using e w by (intro fmul_nn) (auto simp: nn_fin)
  show "fle (structural ex k a' w) (structural ex k a w)" unfolding s using e w by (intro fmul_mono) auto
  have "fle (fmul (ex (age_arg a w)) (weight_of k)) (fmul (Fin 1) (weight_of k))" using e w by (intro fmul_mono) auto
  then show "fle (structural ex k a w) (Fin 1)" unfolding s using w fle_trans by blast
qed

abbreviation unit01 :: "f64 \<Rightarrow> f64" where
  "unit01 x \<equiv> clamp x (Zero False) (Fin 1)"

lemma unit01_range: "x \<noteq> NaN \<Longrightarrow> nn (unit01 x) \<and> fle (unit01 x) (Fin 1)"
  by (cases x) (auto simp: clamp_def fmax_def fmin_def nn_def f_val_def)

lemma unit01_mono: "fle x y \<Longrightarrow> fle (unit01 x) (unit01 y)"
  by (cases x; cases y) (auto simp: clamp_def fmax_def fmin_def f_val_def)

lemma blended_mono:
  assumes "nn s" "fle s s'" "fle s' (Fin 1)" "fle d d'"
  shows "nn (blended s d)" "fle (blended s d) (blended s' d')" "fle (round_to 100 (blended s d)) (Fin 1)"
proof -
  have fin: "is_finite (Fin 1)" "nn (Fin 1)" by code_simp+
  have c: "is_finite (lit (55 / 100))" "0 < f_val (lit (55 / 100))" "is_finite (lit (45 / 100))" "0 < f_val (lit (45 / 100))" "is_finite (of_int64 5)" "0 < f_val (of_int64 5)"
    by code_simp+
  have cn: "nn (lit (55 / 100))" "nn (lit (45 / 100))" by code_simp+
  have s1: "fle s (Fin 1)" using assms(2,3) fle_trans by blast
  have sf: "is_finite s" "is_finite s'" using assms s1 finite_below[OF _ _ fin(1)] nn_mono by blast+
  have d5: "fle (fmul d (of_int64 5)) (fmul d' (of_int64 5))" by (rule fmul_mono[OF assms(4) c(5,6)])
  note u = unit01_range[OF fle_not_NaN[OF d5, THEN conjunct1]] and u' = unit01_mono[OF d5]
  have uf: "is_finite (unit01 (fmul d (of_int64 5)))" using u finite_below[OF _ _ fin(1)] by blast
  have p: "nn (fmul (lit (55 / 100)) s)" "nn (fmul (lit (45 / 100)) (unit01 (fmul d (of_int64 5))))"
    using fmul_nn[OF cn(1) c(1) sf(1) assms(1)] fmul_nn[OF cn(2) c(3) uf] u by simp_all
  have m: "fle (fmul (lit (55 / 100)) s) (fmul (lit (55 / 100)) t)" if "fle s t" for t
    using fmul_mono[OF that c(1,2)] by (simp only: fmul_comm)
  have n: "fle (fmul (lit (45 / 100)) (unit01 (fmul d (of_int64 5)))) (fmul (lit (45 / 100)) t)" if "fle (unit01 (fmul d (of_int64 5))) t" for t
    using fmul_mono[OF that c(3,4)] by (simp only: fmul_comm)
  show "nn (blended s d)" unfolding blended_def by (rule fadd_nn[OF p])
  show "fle (blended s d) (blended s' d')" unfolding blended_def by (rule fadd_mono[OF p(1) m[OF assms(2)] p(2) n[OF u']])
  have "fle (blended s d) (fadd (fmul (lit (55 / 100)) (Fin 1)) (fmul (lit (45 / 100)) (Fin 1)))"
    unfolding blended_def by (rule fadd_mono[OF p(1) m[OF s1] p(2) n]) (use u in simp)
  then have "fle (round_to 100 (blended s d)) (round_to 100 (fadd (fmul (lit (55 / 100)) (Fin 1)) (fmul (lit (45 / 100)) (Fin 1))))" by (rule round_to_order) simp_all
  moreover have "fle (round_to 100 (fadd (fmul (lit (55 / 100)) (Fin 1)) (fmul (lit (45 / 100)) (Fin 1)))) (Fin 1)" by code_simp
  ultimately show "fle (round_to 100 (blended s d)) (Fin 1)" by (rule fle_trans)
qed

lemma culprit_bounds:
  assumes "exp_like ex" "0 \<le> age" "age \<le> age'" "0 < w" "in_int64 w" "hd_AfterTotal h = hd_AfterTotal h'" "fle (hd_Delta h') (hd_Delta h)"
  shows "fle (Zero False) (fst (scoreCulprit ex kind age' w (Some h'))) \<and>
    fle (fst (scoreCulprit ex kind age' w (Some h'))) (fst (scoreCulprit ex kind age w (Some h))) \<and>
    fle (fst (scoreCulprit ex kind age w (Some h))) (Fin 1)"
proof -
  note s = structural_mono[OF assms(1-5), of kind]
  have one: "fle (round_to 100 x) (Fin 1)" if "fle x (Fin 1)" for x
  proof -
    have "fle (round_to 100 x) (round_to 100 (Fin 1))" by (rule round_to_order[OF that]) simp_all
    moreover have "fle (round_to 100 (Fin 1)) (Fin 1)" by code_simp
    ultimately show ?thesis by (rule fle_trans)
  qed
  show ?thesis
  proof (cases "hd_AfterTotal h = 0")
    case True
    then show ?thesis using s one[OF s(3)] round_to_nn[OF s(1), of 100] round_to_order[OF s(2), of 100] assms(6)
      by (simp add: scoreCulprit_def Let_def nn_def)
  next
    case False
    note b = blended_mono[OF s assms(7)]
    have ss: "nn (structural ex kind age w)" using nn_mono[OF s(1,2)] .
    have dd: "fle (hd_Delta h) (hd_Delta h)" using fle_refl fle_not_NaN[OF assms(7)] by blast
    have "fle (structural ex kind age w) (structural ex kind age w)" using fle_refl fle_not_NaN[OF s(3)] by blast
    from blended_mono(3)[OF ss this s(3) dd] show ?thesis using False assms(6) round_to_nn[OF b(1), of 100] round_to_order[OF b(2), of 100]
      by (simp add: scoreCulprit_def Let_def nn_def)
  qed
qed

text \<open>
  The score of a change is between 0 and 1, an older change of the same kind with the same health never
  scores higher, and a larger rise of the error rate never scores lower, although every step rounds. What is
  used of \<open>math.Exp\<close> is that it is monotone and between 0 and 1 on arguments that are not positive.
\<close>

theorem culprit_score_sound:
  assumes "exp_like ex" "0 \<le> age" "age \<le> age'" "0 < w" "in_int64 w" "hd_AfterTotal h = hd_AfterTotal h'" "fle (hd_Delta h') (hd_Delta h)"
  shows "fle (Zero False) (fst (scoreCulprit ex kind age' w (Some h'))) \<and>
    fle (fst (scoreCulprit ex kind age' w (Some h'))) (fst (scoreCulprit ex kind age w (Some h))) \<and>
    fle (fst (scoreCulprit ex kind age w (Some h))) (Fin 1)"
  by (rule culprit_bounds[OF assms])

definition demo_exp :: "f64 \<Rightarrow> f64" where
  "demo_exp x = (if flt x (Zero False) then lit (1 / 2) else Fin 1)"

lemma demo_exp_like: "exp_like demo_exp"
proof -
  have c: "fle (Zero False) (lit (1 / 2))" "fle (lit (1 / 2)) (Fin 1)" "fle (lit (1 / 2)) (lit (1 / 2))" "fle (Zero False) (Fin 1)" "fle (Fin 1) (Fin 1)" by code_simp+
  have "flt x (Zero False) \<or> \<not> flt y (Zero False)" if "fle x y" for x y using that by (cases x; cases y) (auto simp: f_val_def)
  then have "fle (Zero False) (demo_exp x) \<and> fle (demo_exp x) (demo_exp y) \<and> fle (demo_exp y) (Fin 1)" if "fle x y" for x y
    unfolding demo_exp_def using c that by (cases "flt x (Zero False)"; cases "flt y (Zero False)") (simp_all only: if_True if_False simp_thms, blast)
  then show ?thesis unfolding exp_like_def by blast
qed

lemma demo_health:
  "hd_Delta (newHealthDelta 100 1 100 20) = lit (19 / 100)" "hd_Delta (newHealthDelta 100 1 100 2) = lit (1 / 100)" "hd_AfterTotal (newHealthDelta a b c d) = c"
  "hd_Degraded (newHealthDelta 100 1 100 20)" "\<not> hd_Degraded (newHealthDelta 100 1 100 2)"
proof -
  have "round4 (fsub (rate_of 20 100) (rate_of 1 100)) = lit (19 / 100)" "round4 (fsub (rate_of 2 100) (rate_of 1 100)) = lit (1 / 100)"
    "flt (lit (2 / 100)) (lit (19 / 100))" "\<not> flt (lit (2 / 100)) (lit (1 / 100))" by code_simp+
  then show "hd_Delta (newHealthDelta 100 1 100 20) = lit (19 / 100)" "hd_Delta (newHealthDelta 100 1 100 2) = lit (1 / 100)" "hd_AfterTotal (newHealthDelta a b c d) = c"
    "hd_Degraded (newHealthDelta 100 1 100 20)" "\<not> hd_Degraded (newHealthDelta 100 1 100 2)" by (simp_all add: newHealthDelta_def Let_def)
qed

theorem culprit_score_sound_witness:
  "fle (fst (scoreCulprit demo_exp ''deploy'' 600 3600 (Some (newHealthDelta 100 1 100 2)))) (fst (scoreCulprit demo_exp ''deploy'' 60 3600 (Some (newHealthDelta 100 1 100 20)))) \<and>
   hd_Degraded (newHealthDelta 100 1 100 20) \<and> \<not> hd_Degraded (newHealthDelta 100 1 100 2)"
proof (intro conjI demo_health)
  have "(0::int) \<le> 60" "(60::int) \<le> 600" "(0::int) < 3600" "in_int64 3600" "fle (lit (1 / 100)) (lit (19 / 100))" by code_simp+
  then show "fle (fst (scoreCulprit demo_exp ''deploy'' 600 3600 (Some (newHealthDelta 100 1 100 2)))) (fst (scoreCulprit demo_exp ''deploy'' 60 3600 (Some (newHealthDelta 100 1 100 20))))"
    using culprit_score_sound[OF demo_exp_like, of 60 600 3600 "newHealthDelta 100 1 100 20" "newHealthDelta 100 1 100 2" "''deploy''"] demo_health by simp
qed

section \<open>Ranking\<close>

lemma f_eqv_refl: "f_eqv (round64 q) (round64 q)"
  by (simp add: f_eqv_def fle_refl)

lemma finite_between: "fle a x \<Longrightarrow> fle x b \<Longrightarrow> is_finite a \<Longrightarrow> is_finite b \<Longrightarrow> is_finite x"
  by (cases a; cases x; cases b) (auto simp: is_finite_def)

lemma rate_finite:
  assumes "in_int64 e" "in_int64 n" shows "is_finite (rate_of e n)"
proof (cases "0 < n")
  case True
  note n = of_int64_pos[OF True assms(2)] of_int64_finite[OF assms(2)] and e = of_int64_finite[OF assms(1)]
  have "is_finite (round64 (- (2 ^ 63)))" "is_finite (round64 (2 ^ 63))" "f_val (round64 (- (2 ^ 63))) = - (2 ^ 63)" "f_val (round64 (2 ^ 63)) = 2 ^ 63" by code_simp+
  moreover have "rat_of_int (- (2 ^ 63)) \<le> of_int e" "rat_of_int e \<le> of_int (2 ^ 63)" using assms(1) unfolding of_int_le_iff by (simp_all add: in_int64_def)
  then have "fle (round64 (- (2 ^ 63))) (of_int64 e)" "fle (of_int64 e) (round64 (2 ^ 63))" unfolding of_int64_def by (auto intro!: round64_mono)
  ultimately have b: "- (2 ^ 63) \<le> f_val (of_int64 e)" "f_val (of_int64 e) \<le> 2 ^ 63" using e fle_fin by metis+
  have "f_val (of_int64 e) / f_val (of_int64 n) \<le> 2 ^ 63" "- (2 ^ 63) \<le> f_val (of_int64 e) / f_val (of_int64 n)"
    using b n(1) by (simp_all add: divide_le_eq le_divide_eq)
  moreover have "f_eqv (rate_of e n) (round64 (f_val (of_int64 e) / f_val (of_int64 n)))"
    unfolding rate_of_def using True n e by simp (intro fdiv_eqv, auto)
  ultimately have "fle (round64 (- (2 ^ 63))) (rate_of e n)" "fle (rate_of e n) (round64 (2 ^ 63))" using eqv_mono f_eqv_refl by blast+
  then show ?thesis using finite_between \<open>is_finite (round64 (- (2 ^ 63)))\<close> \<open>is_finite (round64 (2 ^ 63))\<close> by blast
qed (simp add: rate_of_def is_finite_def)

lemma delta_number:
  assumes "in_int64 a" "in_int64 b" "in_int64 c" "in_int64 d" shows "hd_Delta (newHealthDelta a b c d) \<noteq> NaN"
proof -
  have "fsub (rate_of d c) (rate_of b a) \<noteq> NaN" using assms rate_finite by (intro fsub_not_NaN) simp_all
  then have "fle (fsub (rate_of d c) (rate_of b a)) (fsub (rate_of d c) (rate_of b a))" by (rule fle_refl)
  then have "fle (round4 (fsub (rate_of d c) (rate_of b a))) (round4 (fsub (rate_of d c) (rate_of b a)))" unfolding round4_def by (rule round_to_order) simp_all
  then show ?thesis by (auto simp: newHealthDelta_def Let_def)
qed

lemma int64_of_range: "(\<And>x. in_int64 (oob x)) \<Longrightarrow> in_int64 (int64_of oob x)"
  by (auto simp: int64_of_def Let_def in_int64_def split: f64.splits)

lemma score_unit:
  assumes "exp_like ex" "0 \<le> age" "0 < w" "in_int64 w" "\<And>d. h = Some d \<Longrightarrow> hd_Delta d \<noteq> NaN"
  shows "fle (Zero False) (fst (scoreCulprit ex kind age w h)) \<and> fle (fst (scoreCulprit ex kind age w h)) (Fin 1)"
proof (cases h)
  case None
  define d where "d = newHealthDelta 0 0 0 0"
  have "hd_AfterTotal d = 0" "hd_Delta d \<noteq> NaN" using delta_number[of 0 0 0 0] by (simp_all add: d_def newHealthDelta_def Let_def in_int64_def)
  moreover from this have "scoreCulprit ex kind age w None = scoreCulprit ex kind age w (Some d)" by (simp add: scoreCulprit_def Let_def)
  ultimately show ?thesis using culprit_bounds[OF assms(1,2) order_refl assms(3,4) refl fle_refl, of d] None by simp
next
  case (Some d)
  then show ?thesis using culprit_bounds[OF assms(1,2) order_refl assms(3,4) refl fle_refl[OF assms(5)]] by blast
qed

lemma culprit_number:
  assumes "exp_like ex" "\<And>x. in_int64 (oob x)" "0 < w" "in_int64 w"
  shows "fle (Zero False) (cu_Score (culprit_of ch oob ex tenant service w r)) \<and> fle (cu_Score (culprit_of ch oob ex tenant service w r)) (Fin 1)"
proof -
  have d: "hd_Delta d \<noteq> NaN" if "deployHealth ch oob tenant service a hw = Some d" for a hw d
    using that delta_number[OF int64_of_range[of oob, OF assms(2)] int64_of_range[of oob, OF assms(2)] int64_of_range[of oob, OF assms(2)] int64_of_range[of oob, OF assms(2)]]
    by (auto simp: deployHealth_def Let_def split: outcome.splits list.splits)
  show ?thesis unfolding culprit_of_def Let_def case_prod_beta Culprit.simps by (rule score_unit[OF assms(1) _ assms(3,4)]) (use d in auto)
qed

lemma suggest_shape:
  "map (\<lambda>c. c\<lparr>cu_Rollback := None\<rparr>) (suggest ch t s cs) = map (\<lambda>c. c\<lparr>cu_Rollback := None\<rparr>) cs"
  "map cu_Score (suggest ch t s cs) = map cu_Score cs"
  by (auto simp: suggest_def split: list.splits option.splits)

text \<open>
  C23. The ranking holds one culprit per change the statement returned, most likely first, each with a score
  between 0 and 1; a rollback is suggested only for the most likely one, only when it is a deploy after which the
  error rate rose by more than two points, and it names a target.
\<close>

theorem RankCulprits_ranked:
  assumes "RankCulprits ch oob ex tenant service n = Ok (w, cs)" "exp_like ex" "\<And>x. in_int64 (oob x)" "in_int64 n"
  shows "\<exists>rows. ch (culpritSQL tenant service w) = Ok rows \<and>
    mset (map (\<lambda>c. c\<lparr>cu_Rollback := None\<rparr>) cs) = mset (map (culprit_of ch oob ex tenant service w) rows) \<and>
    sorted_wrt (\<lambda>a b. fle (cu_Score b) (cu_Score a)) cs \<and>
    (\<forall>c \<in> set cs. fle (Zero False) (cu_Score c) \<and> fle (cu_Score c) (Fin 1)) \<and>
    (\<forall>i < length cs. \<forall>rb. cu_Rollback (cs ! i) = Some rb \<longrightarrow>
       i = 0 \<and> degraded_deploy (cs ! i) \<and> (rb_TargetGitSHA rb \<noteq> [] \<or> rb_TargetDeployID rb \<noteq> []))"
proof -
  from assms(1,4) obtain rows where w: "0 < w" "in_int64 w" and rows: "ch (culpritSQL tenant service w) = Ok rows"
    and cs: "cs = suggest ch tenant service (SliceStable (by_score cu_Score) (map (culprit_of ch oob ex tenant service w) rows))"
    by (auto simp: RankCulprits_def Let_def bindO_eq_Ok in_int64_def split: if_splits)
  define us where "us = map (culprit_of ch oob ex tenant service w) rows"
  note num = culprit_number[OF assms(2,3) w]
  have none: "cu_Rollback c = None \<and> fle (Zero False) (cu_Score c) \<and> fle (cu_Score c) (Fin 1)" if "c \<in> set us" for c
    using that num by (auto simp: us_def culprit_of_def Let_def case_prod_beta)
  have us0: "map (\<lambda>c. c\<lparr>cu_Rollback := None\<rparr>) ys = ys" if "set ys \<subseteq> set us" for ys using that none by (induction ys) auto
  have "sorted_wrt (\<lambda>a b. fle (cu_Score b) (cu_Score a)) (SliceStable (by_score cu_Score) us)" using none by (intro score_sorted) fastforce
  then have "sorted_wrt (\<lambda>x y. fle y x) (map cu_Score cs)" unfolding cs us_def[symmetric] suggest_shape(2) by (simp add: sorted_wrt_map)
  then have sorted: "sorted_wrt (\<lambda>a b. fle (cu_Score b) (cu_Score a)) cs" by (simp add: sorted_wrt_map)
  have "map (\<lambda>c. c\<lparr>cu_Rollback := None\<rparr>) cs = SliceStable (by_score cu_Score) us"
    unfolding cs us_def[symmetric] suggest_shape(1) by (rule us0) simp
  then have perm: "mset (map (\<lambda>c. c\<lparr>cu_Rollback := None\<rparr>) cs) = mset us" by simp
  have "set (map cu_Score cs) = set (map cu_Score us)" unfolding cs us_def[symmetric] suggest_shape(2) by simp
  then have unit: "\<forall>c \<in> set cs. fle (Zero False) (cu_Score c) \<and> fle (cu_Score c) (Fin 1)" using none by (metis (no_types, lifting) imageE imageI set_map)
  have "\<forall>c \<in> set (SliceStable (by_score cu_Score) us). cu_Rollback c = None" using none by simp
  then have "\<forall>i < length cs. \<forall>rb. cu_Rollback (cs ! i) = Some rb \<longrightarrow> i = 0 \<and> degraded_deploy (cs ! i) \<and> (rb_TargetGitSHA rb \<noteq> [] \<or> rb_TargetDeployID rb \<noteq> [])"
    unfolding cs us_def[symmetric] suggest_def
    by (cases "SliceStable (by_score cu_Score) us")
       (auto simp: degraded_deploy_def priorDeployRollback_def Let_def nth_Cons split: option.splits outcome.splits list.splits nat.splits if_splits)
  then show ?thesis using rows perm sorted unit unfolding us_def by blast
qed

definition demo_changes :: ch_query where
  "demo_changes sql = Ok [[(''kind'', AnyStr ''deploy''), (''age'', AnyFloat (of_int64 60))], [(''kind'', AnyStr ''flag''), (''age'', AnyFloat (of_int64 600))]]"

theorem RankCulprits_ranked_witness:
  "\<exists>cs. RankCulprits demo_changes (\<lambda>_. 0) demo_exp ''acme'' ''api'' 3600 = Ok (3600, cs) \<and> length cs = 2 \<and> sorted_wrt (\<lambda>a b. fle (cu_Score b) (cu_Score a)) cs"
proof -
  obtain cs where cs: "RankCulprits demo_changes (\<lambda>_. 0) demo_exp ''acme'' ''api'' 3600 = Ok (3600, cs)"
    by (simp add: RankCulprits_def demo_changes_def wrap_err_def)
  have "in_int64 0" "in_int64 3600" by code_simp+
  from RankCulprits_ranked[OF cs demo_exp_like this] obtain rows where
    "demo_changes (culpritSQL ''acme'' ''api'' 3600) = Ok rows" and
    m: "mset (map (\<lambda>c. c\<lparr>cu_Rollback := None\<rparr>) cs) = mset (map (culprit_of demo_changes (\<lambda>_. 0) demo_exp ''acme'' ''api'' 3600) rows)" and
    s: "sorted_wrt (\<lambda>a b. fle (cu_Score b) (cu_Score a)) cs" by blast
  then have "length rows = 2" by (auto simp: demo_changes_def)
  with mset_eq_length[OF m] cs s show ?thesis by auto
qed

section \<open>The statements are confined\<close>

lemma between_conjunct: "conjunct (between_sql a b)"
proof -
  have i: "piece '' - INTERVAL '' '' - INTERVAL ''" unfolding piece_def closed_def by (intro conjI) (simp add: scan_simps, code_simp)
  have p: "piece ''timestamp BETWEEN now'' ''timestamp BETWEEN now''" "piece '' SECOND'' '' SECOND''" "piece '' SECOND AND now'' '' SECOND AND now''"
    by (rule piece_plain, code_simp)+
  have e: "piece (''('' @ [] @ '')'') '' ''" by (rule piece_paren[OF closed_Nil])
  have "piece (''timestamp BETWEEN now'' @ (''('' @ [] @ '')'') @ '' - INTERVAL '' @ show_int a @ '' SECOND AND now'' @ (''('' @ [] @ '')'') @ '' - INTERVAL '' @ show_int b @ '' SECOND'')
      (''timestamp BETWEEN now'' @ '' '' @ '' - INTERVAL '' @ show_int a @ '' SECOND AND now'' @ '' '' @ '' - INTERVAL '' @ show_int b @ '' SECOND'')"
    by (intro piece_append piece_int p i e)
  moreover have "no_or ((''timestamp BETWEEN now'' @ '' '' @ '' - INTERVAL'') @ CHR '' '' # (show_int a @ CHR '' '' # ((''SECOND AND now'' @ '' '' @ '' - INTERVAL'') @ CHR '' '' # (show_int b @ CHR '' '' # ''SECOND''))))"
  proof -
    have w: "no_or (''timestamp BETWEEN now'' @ '' '' @ '' - INTERVAL'')" "no_or (''SECOND AND now'' @ '' '' @ '' - INTERVAL'')" "no_or ''SECOND''" "\<not> isIdentPart (CHR '' '')" by code_simp+
    show ?thesis unfolding no_or_split[OF w(4)] using w no_or_int by blast
  qed
  ultimately show ?thesis using conjunct_piece by (simp add: between_sql_def ago_sql_def)
qed

lemma between_closed: "closed (between_sql a b)"
  by (rule conjunct_closed[OF between_conjunct])

lemma lays_ago: "lays sp d (ago_sql n) (ago_sql n) False d"
proof -
  have "lays sp d ''now() - INTERVAL '' ''now() - INTERVAL '' True d" "lays False d '' SECOND'' '' SECOND'' False d"
    by (simp_all add: lays_def scan_simps is_space_def code_of_Char)
  then show ?thesis unfolding ago_sql_def by (intro lays_append[OF _ lays_append[OF lays_int]])
qed

lemma lays_between: "lays sp d (between_sql a b) (between_sql a b) False d"
proof -
  have "lays sp d ''timestamp BETWEEN '' ''timestamp BETWEEN '' True d" "lays False d '' AND '' '' AND '' True d"
    by (simp_all add: lays_def scan_simps is_space_def code_of_Char)
  then show ?thesis unfolding between_sql_def by (intro lays_append[OF _ lays_append[OF lays_ago lays_append[OF _ lays_ago]]])
qed

lemma service_conjunct: "conjunct (''service = '' @ quote v)"
  by (rule conjunct_quote; code_simp)

lemma culprit_laid: "laid_out tenant (culpritSQL tenant service w)"
proof -
  let ?pre = "''SELECT id, toString(timestamp) AS ts, kind, title, git_sha, deploy_id, pr_number, flag_key, dateDiff('' @ quote ''second'' @ '', timestamp, now()) AS age''"
  let ?post = "'' ORDER BY timestamp DESC LIMIT 15''"
  have h: "lays False 0 (''SELECT id, toString(timestamp) AS ts, kind, title, git_sha, deploy_id, pr_number, flag_key,'' @ nl @ ''dateDiff('' @ quote ''second'' @ '', timestamp, now()) AS age'' @ nl @
      ''FROM change_events WHERE tenant_id = '') (?pre @ '' FROM '' @ ''change_events'' @ '' WHERE tenant_id = '') True 0" by code_simp
  have l: "lays False 0 '' AND service = '' '' AND service = '' True 0" "lays False 0 (nl @ ''  AND timestamp > '') '' AND timestamp > '' True 0"
    "lays False 0 (nl @ ''ORDER BY timestamp DESC LIMIT 15'') ?post False 0" by code_simp+
  note r = lays_append[OF l(1) lays_append[OF lays_quote lays_append[OF l(2) lays_append[OF lays_ago l(3)]]]]
  have c: "list_all conjunct [''service = '' @ quote service, ''timestamp'' @ '' > '' @ ''now() - INTERVAL '' @ show_int w @ '' SECOND'']"
    using service_conjunct conjunct_since[of "'' > ''" w] by (simp only: list.pred_inject simp_thms insert_iff)
  have e: "q_run (Sql (Out 0)) ?pre = Sql (Out 0)" "''change_events'' \<in> set read_tables" "ends_where ?post" "q_run (Sql (Out 0)) ?post = Sql (Out 0)" by code_simp+
  have r': "lays False 0 ('' AND service = '' @ quote service @ (nl @ ''  AND timestamp > '') @ ago_sql w @ nl @ ''ORDER BY timestamp DESC LIMIT 15'')
      (concat (map (\<lambda>c. '' AND '' @ c) [''service = '' @ quote service, ''timestamp'' @ '' > '' @ ''now() - INTERVAL '' @ show_int w @ '' SECOND'']) @ ?post) False 0"
    using r[of service w] by (simp add: ago_sql_def)
  have "show_int maxCulprits = ''15''" by code_simp
  then show ?thesis using laid_out_select[OF h r' e(1,2) c e(3,4)] by (simp add: culpritSQL_def QuoteLiteral_def)
qed

lemma prior_laid: "laid_out tenant (priorSQL tenant service age)"
proof -
  let ?post = "'' ORDER BY timestamp DESC LIMIT 1''"
  have h: "lays False 0 (''SELECT git_sha, deploy_id FROM change_events'' @ nl @ ''WHERE tenant_id = '') (''SELECT git_sha, deploy_id'' @ '' FROM '' @ ''change_events'' @ '' WHERE tenant_id = '') True 0" by code_simp
  have l: "lays False 0 '' AND service = '' '' AND service = '' True 0" "lays False 0 ('' AND kind = '' @ quote ''deploy'' @ nl @ ''  AND timestamp < '') ('' AND kind = '' @ quote ''deploy'' @ '' AND timestamp < '') True 0"
    "lays False 0 (nl @ ''ORDER BY timestamp DESC LIMIT 1'') ?post False 0" by code_simp+
  note r = lays_append[OF l(1) lays_append[OF lays_quote lays_append[OF l(2) lays_append[OF lays_ago l(3)]]]]
  have "conjunct (''kind = '' @ quote ''deploy'')" by (rule conjunct_quote; code_simp)
  then have c: "list_all conjunct [''service = '' @ quote service, ''kind = '' @ quote ''deploy'', ''timestamp'' @ '' < '' @ ''now() - INTERVAL '' @ show_int age @ '' SECOND'']"
    using service_conjunct conjunct_since[of "'' < ''" age] by (simp only: list.pred_inject simp_thms insert_iff)
  have e: "q_run (Sql (Out 0)) ''SELECT git_sha, deploy_id'' = Sql (Out 0)" "''change_events'' \<in> set read_tables" "ends_where ?post" "q_run (Sql (Out 0)) ?post = Sql (Out 0)" by code_simp+
  have r': "lays False 0 ('' AND service = '' @ quote service @ ('' AND kind = '' @ quote ''deploy'' @ nl @ ''  AND timestamp < '') @ ago_sql age @ nl @ ''ORDER BY timestamp DESC LIMIT 1'')
      (concat (map (\<lambda>c. '' AND '' @ c) [''service = '' @ quote service, ''kind = '' @ quote ''deploy'', ''timestamp'' @ '' < '' @ ''now() - INTERVAL '' @ show_int age @ '' SECOND'']) @ ?post) False 0"
    using r[of service age] by (simp add: ago_sql_def)
  show ?thesis using laid_out_select[OF h r' e(1,2) c e(3,4)] by (simp add: priorSQL_def QuoteLiteral_def)
qed

lemma levels_closed: "closed error_levels"
proof -
  have "closed ''level IN ''" "closed '',''" by (rule closed_plain, code_simp)+
  then have "closed (''level IN '' @ ''('' @ (quote ''error'' @ '','' @ quote ''fatal'') @ '')'')" by (intro closed_append closed_paren quote_closed)
  then show ?thesis by (simp add: error_levels_def)
qed

definition count_if :: "string \<Rightarrow> string \<Rightarrow> string" where
  "count_if x name = ''countIf'' @ (''('' @ x @ '')'') @ '' AS '' @ name"

lemma count_if_closed: "closed x \<Longrightarrow> list_all sql_plain name \<Longrightarrow> closed (count_if x name)"
proof -
  have c: "closed ''countIf''" by (rule closed_plain) code_simp
  show "closed x \<Longrightarrow> list_all sql_plain name \<Longrightarrow> ?thesis"
    unfolding count_if_def by (rule closed_append[OF c closed_append[OF closed_paren closed_append[OF literal_closed(4) closed_plain]]])
qed

lemma health_laid: "laid_out tenant (healthSQL tenant service age hw)"
proof -
  define n where "n = (if age - hw < 0 then 0 else age - hw)"
  define m where "m = wrap64 (age + hw)"
  let ?pre = "''SELECT '' @ count_if (between_sql m age) ''before_total'' @ '', '' @ count_if (error_levels @ '' AND '' @ between_sql m age) ''before_err'' @ '', '' @
      count_if (between_sql age n) ''after_total'' @ '', '' @ count_if (error_levels @ '' AND '' @ between_sql age n) ''after_err''"
  have "list_all (list_all sql_plain) [''before_total'', ''before_err'', ''after_total'', ''after_err'']" by code_simp
  then have "closed ?pre"
    by (intro closed_append literal_closed count_if_closed between_closed levels_closed) (simp_all only: list.pred_inject)
  then have q: "q_run (Sql (Out 0)) ?pre = Sql (Out 0)" by (rule closed_run)
  have l: "lays False 0 (''SELECT'' @ nl @ ''countIf('') (''SELECT '' @ ''countIf('') False 1"
    "lays False 1 ('') AS before_total,'' @ nl @ ''countIf('' @ error_levels @ '' AND '') ('') AS before_total, countIf('' @ error_levels @ '' AND '') True 1"
    "lays False 1 ('') AS before_err,'' @ nl @ ''countIf('') '') AS before_err, countIf('' False 1"
    "lays False 1 ('') AS after_total,'' @ nl @ ''countIf('' @ error_levels @ '' AND '') ('') AS after_total, countIf('' @ error_levels @ '' AND '') True 1"
    "lays False 1 ('') AS after_err'' @ nl @ ''FROM logs'' @ nl @ ''WHERE tenant_id = '') '') AS after_err FROM logs WHERE tenant_id = '' True 0"
    "lays False 0 '' AND service = '' '' AND service = '' True 0" "lays False 0 (nl @ ''  AND '') '' AND '' True 0" by code_simp+
  have h: "lays False 0 ((''SELECT'' @ nl @ ''countIf('') @ between_sql m age @ ('') AS before_total,'' @ nl @ ''countIf('' @ error_levels @ '' AND '') @ between_sql m age @
      ('') AS before_err,'' @ nl @ ''countIf('') @ between_sql age n @ ('') AS after_total,'' @ nl @ ''countIf('' @ error_levels @ '' AND '') @ between_sql age n @
      ('') AS after_err'' @ nl @ ''FROM logs'' @ nl @ ''WHERE tenant_id = ''))
      (?pre @ '' FROM '' @ ''logs'' @ '' WHERE tenant_id = '') True 0"
    using lays_append[OF l(1) lays_append[OF lays_between lays_append[OF l(2) lays_append[OF lays_between lays_append[OF l(3) lays_append[OF lays_between
      lays_append[OF l(4) lays_append[OF lays_between l(5)]]]]]]], of m age m age age n age n]
    by (simp add: count_if_def)
  have r: "lays False 0 ('' AND service = '' @ quote service @ (nl @ ''  AND '') @ between_sql m n)
      (concat (map (\<lambda>c. '' AND '' @ c) [''service = '' @ quote service, between_sql m n]) @ []) False 0"
    using lays_append[OF l(6) lays_append[OF lays_quote lays_append[OF l(7) lays_between]], of service m n] by simp
  have c: "list_all conjunct [''service = '' @ quote service, between_sql m n]" using service_conjunct between_conjunct by (simp only: list.pred_inject simp_thms)
  have e: "''logs'' \<in> set read_tables" "ends_where []" "q_run (Sql (Out 0)) [] = Sql (Out 0)" by code_simp+
  show ?thesis using laid_out_select[OF h r q e(1) c e(2,3)] unfolding healthSQL_def Let_def n_def[symmetric] m_def[symmetric] QuoteLiteral_def by simp
qed

section \<open>What the statements read\<close>

lemma deploy_agree:
  assumes "agree tenant ch ch'" shows "RankCulprits ch oob ex tenant service n = RankCulprits ch' oob ex tenant service n"
proof -
  note a = agreeD(1)[OF assms]
  have "deployHealth ch oob tenant service x hw = deployHealth ch' oob tenant service x hw" for x hw
    unfolding deployHealth_def a[OF health_laid] ..
  then have "culprit_of ch oob ex tenant service w = culprit_of ch' oob ex tenant service w" for w by (simp add: culprit_of_def fun_eq_iff)
  moreover have p: "priorDeployRollback ch tenant service = priorDeployRollback ch' tenant service"
    unfolding priorDeployRollback_def a[OF prior_laid] ..
  have "suggest ch tenant service = suggest ch' tenant service" unfolding suggest_def p ..
  ultimately show ?thesis unfolding RankCulprits_def a[OF culprit_laid] by simp
qed

end
