(* ===== verification/Rca.thy ===== *)
theory Rca
  imports Deploy
begin

text \<open>
  Root-cause retrieval and ranking, \<open>domains/rca/rca.go\<close> and \<open>ranker.go\<close>, and the handlers \<open>rca.go\<close> and
  \<open>rca_feedback.go\<close>. Candidates are the changes of a service and the erroring services it calls; the linear ranker
  recomputes their scores from features of their evidence. \<open>math.Exp\<close>, \<open>math.Log10\<close> and \<open>strconv.ParseFloat\<close> are
  arguments.
\<close>

section \<open>Candidates\<close>

text \<open>A value in the evidence: a cell of a row, or an unsigned count of the service graph, which is a type of its own in a Go interface.\<close>

datatype ev = EvCell any | EvUint int

record Candidate =
  ca_Type :: string
  ca_Subject :: string
  ca_Score :: f64
  ca_Reason :: string
  ca_Evidence :: "(string \<times> ev) list"

definition deploySQL :: "string \<Rightarrow> string \<Rightarrow> int \<Rightarrow> string" where
  "deploySQL tenant service w =
     ''SELECT toString(timestamp) AS ts, title, kind, git_sha, deploy_id, pr_number,'' @ nl @
     ''dateDiff('' @ quote ''second'' @ '', timestamp, now()) AS age'' @ nl @
     ''FROM change_events WHERE tenant_id = '' @ QuoteLiteral tenant @ '' AND service = '' @ QuoteLiteral service @ nl @
     ''  AND timestamp > '' @ ago_sql w @ nl @ ''ORDER BY timestamp DESC LIMIT 10''"

text \<open>\<open>sprint\<close> prints an interface value with \<open>%v\<close>.\<close>

definition deploy_candidate :: "(f64 \<Rightarrow> f64) \<Rightarrow> (any \<Rightarrow> string) \<Rightarrow> string \<Rightarrow> int \<Rightarrow> row \<Rightarrow> Candidate" where
  "deploy_candidate ex sprint service w r =
     (let age = toF64 (cell r ''age''); score = fmul (lit (9 / 10)) (ex (fdiv (fminus age) (of_int64 w)))
      in \<lparr>ca_Type = ''deploy'', ca_Subject = sprint (cell r ''kind'') @ '' '' @ sprint (cell r ''title''), ca_Score = round_to 100 score,
          ca_Reason = str_of (cell r ''kind'') @ '' change on '' @ service @ '' ~'' @ show_fixed 0 age @ ''s before now'',
          ca_Evidence = map (\<lambda>k. (k, EvCell (cell r k))) [''git_sha'', ''deploy_id'', ''pr_number''] @ [(''timestamp'', EvCell (cell r ''ts''))]\<rparr>)"

definition dependency_candidate :: "Edge \<Rightarrow> Candidate" where
  "dependency_candidate e =
     (let errRate = (if e_Calls e > 0 then fdiv (of_int64 (e_Errors e)) (of_int64 (e_Calls e)) else Zero False);
          score = fadd (lit (4 / 10)) (fmul (lit (5 / 10)) (fmin errRate (Fin 1)))
      in \<lparr>ca_Type = ''dependency'', ca_Subject = e_Callee e, ca_Score = round_to 100 score,
          ca_Reason = ''downstream dependency '' @ e_Callee e @ '' erroring ('' @ show_int (e_Errors e) @ ''/'' @ show_int (e_Calls e) @ '' calls)'',
          ca_Evidence = [(''calls'', EvUint (e_Calls e)), (''errors'', EvUint (e_Errors e)), (''p95_ms'', EvCell (AnyFloat (e_P95Ms e)))]\<rparr>)"

definition RetrieveForService :: "ch_query \<Rightarrow> (f64 \<Rightarrow> int) \<Rightarrow> (f64 \<Rightarrow> f64) \<Rightarrow> (any \<Rightarrow> string) \<Rightarrow> string \<Rightarrow> string \<Rightarrow> int \<Rightarrow> (goerror, int \<times> Candidate list) outcome" where
  "RetrieveForService ch oob ex sprint tenant service n =
     (let w = (if n \<le> 0 then 3600 else n)
      in bindO (wrap_err ''rca deploys: %w'' (ch (deploySQL tenant service w))) (\<lambda>rows.
         bindO (wrap_err ''rca topology: %w'' (Derive ch oob tenant w)) (\<lambda>g.
         let cands = map (deploy_candidate ex sprint service w) rows @
               map dependency_candidate (filter (\<lambda>e. e_Caller e = service \<and> e_Errors e \<noteq> 0) (g_Edges g))
         in Ok (w, take 10 (SliceStable (by_score ca_Score) cands)))))"

section \<open>The ranker\<close>

record Weights =
  w_Type :: f64
  w_Recency :: f64
  w_ErrorRate :: f64
  w_Blast :: f64

definition DefaultWeights :: Weights where
  "DefaultWeights = \<lparr>w_Type = lit (35 / 100), w_Recency = lit (30 / 100), w_ErrorRate = lit (25 / 100), w_Blast = lit (10 / 100)\<rparr>"

text \<open>\<open>pf\<close> is \<open>strconv.ParseFloat\<close>, \<open>lg\<close> is \<open>math.Log10\<close>.\<close>

record maths =
  mt_Exp :: "f64 \<Rightarrow> f64"
  mt_Log10 :: "f64 \<Rightarrow> f64"
  mt_ParseFloat :: "string \<Rightarrow> f64 option"

definition envFloat :: "maths \<Rightarrow> string \<Rightarrow> f64 \<Rightarrow> f64" where
  "envFloat m v old = (case mt_ParseFloat m v of Some x \<Rightarrow> if fle (Zero False) x then x else old | None \<Rightarrow> old)"

definition WeightsFromEnv :: "maths \<Rightarrow> (string \<Rightarrow> string) \<Rightarrow> Weights" where
  "WeightsFromEnv m getenv =
     \<lparr>w_Type = envFloat m (getenv ''RCA_RANK_W_TYPE'') (w_Type DefaultWeights), w_Recency = envFloat m (getenv ''RCA_RANK_W_RECENCY'') (w_Recency DefaultWeights),
      w_ErrorRate = envFloat m (getenv ''RCA_RANK_W_ERRORRATE'') (w_ErrorRate DefaultWeights), w_Blast = envFloat m (getenv ''RCA_RANK_W_BLAST'') (w_Blast DefaultWeights)\<rparr>"

text \<open>The number of one entry; an unsigned count matches no case of the type switch.\<close>

definition ev_number :: "maths \<Rightarrow> ev \<Rightarrow> f64 option" where
  "ev_number m v = (case v of EvUint _ \<Rightarrow> None
     | EvCell c \<Rightarrow> (case c of AnyFloat x \<Rightarrow> Some x | AnyInt n \<Rightarrow> Some (of_int64 n) | AnyStr s \<Rightarrow> mt_ParseFloat m s | AnyOther \<Rightarrow> None))"

fun evNum :: "maths \<Rightarrow> (string \<times> ev) list \<Rightarrow> string list \<Rightarrow> f64 option" where
  "evNum m evd [] = None"
| "evNum m evd (k # ks) =
     (case map_of evd k of
        None \<Rightarrow> evNum m evd ks
      | Some v \<Rightarrow> (case ev_number m v of Some x \<Rightarrow> Some x | None \<Rightarrow> evNum m evd ks))"

definition typeFeature :: "Candidate \<Rightarrow> f64" where
  "typeFeature c = (if ca_Type c = ''deploy'' then Fin 1 else if ca_Type c = ''dependency'' then lit (6 / 10) else lit (4 / 10))"

definition recencyFeature :: "maths \<Rightarrow> Candidate \<Rightarrow> f64" where
  "recencyFeature m c =
     (case evNum m (ca_Evidence c) [''age'', ''age_seconds''] of
        Some age \<Rightarrow> unit01 (mt_Exp m (fdiv (fminus (if flt age (Zero False) then Zero False else age)) (of_int64 3600)))
      | None \<Rightarrow> if ca_Type c = ''deploy'' then unit01 (ca_Score c) else Zero False)"

definition errorRateFeature :: "maths \<Rightarrow> Candidate \<Rightarrow> f64" where
  "errorRateFeature m c =
     (case (evNum m (ca_Evidence c) [''errors''], evNum m (ca_Evidence c) [''calls'']) of
        (Some errs, Some n) \<Rightarrow> if fle n (Zero False) then Zero False else unit01 (fdiv errs n)
      | _ \<Rightarrow> Zero False)"

definition blastFeature :: "maths \<Rightarrow> Candidate \<Rightarrow> f64" where
  "blastFeature m c =
     (case evNum m (ca_Evidence c) [''calls''] of
        Some n \<Rightarrow> if fle n (Zero False) then Zero False else unit01 (fdiv (mt_Log10 m (fadd (Fin 1) n)) (of_int64 4))
      | None \<Rightarrow> Zero False)"

definition total_weight :: "Weights \<Rightarrow> f64" where
  "total_weight w = fadd (fadd (fadd (w_Type w) (w_Recency w)) (w_ErrorRate w)) (w_Blast w)"

definition rank_score :: "maths \<Rightarrow> Weights \<Rightarrow> Candidate \<Rightarrow> f64" where
  "rank_score m w c =
     (let t = total_weight w; t = (if fle t (Zero False) then Fin 1 else t);
          weighted = fadd (fadd (fadd (fmul (w_Type w) (typeFeature c)) (fmul (w_Recency w) (recencyFeature m c)))
            (fmul (w_ErrorRate w) (errorRateFeature m c))) (fmul (w_Blast w) (blastFeature m c))
      in round_to 100 (unit01 (fdiv weighted t)))"

definition Rank :: "maths \<Rightarrow> Weights \<Rightarrow> Candidate list \<Rightarrow> Candidate list" where
  "Rank m w cands = SliceStable (by_score ca_Score) (map (\<lambda>c. c\<lparr>ca_Score := rank_score m w c\<rparr>) cands)"

definition AboveGate :: "Candidate \<Rightarrow> f64 \<Rightarrow> bool" where
  "AboveGate c gate = fle gate (ca_Score c)"

section \<open>Handlers\<close>

definition RCA_h :: "identity \<Rightarrow> (string \<Rightarrow> string) \<Rightarrow> (string \<Rightarrow> string \<Rightarrow> string option) \<Rightarrow> ch_query \<Rightarrow> (f64 \<Rightarrow> int) \<Rightarrow> (f64 \<Rightarrow> f64) \<Rightarrow> (any \<Rightarrow> string) \<Rightarrow> (goerror \<Rightarrow> string) \<Rightarrow> (string \<times> int \<times> Candidate list) served" where
  "RCA_h ident q inc ch oob ex sprint errtext =
     (if \<not> HasScope ident [''logs:read'', ''logs:query''] then Refused 403 ''requires logs:read or logs:query scope''
      else let tenant = ctxTenant ident; service = service_param q inc tenant in
        if service = [] then Refused 400 ''service or incident_id required''
        else case RetrieveForService ch oob ex sprint tenant service (window_param (q ''since'')) of
          Ok (w, cs) \<Rightarrow> Served (service, w, cs)
        | Err e \<Rightarrow> Refused 502 (errtext e)
        | Panic \<Rightarrow> Refused 500 [])"

definition Topology_h :: "identity \<Rightarrow> (string \<Rightarrow> string) \<Rightarrow> ch_query \<Rightarrow> (f64 \<Rightarrow> int) \<Rightarrow> (goerror \<Rightarrow> string) \<Rightarrow> Graph served" where
  "Topology_h ident q ch oob errtext =
     (if \<not> HasScope ident [''logs:read'', ''logs:query''] then Refused 403 ''requires logs:read or logs:query scope''
      else case Derive ch oob (ctxTenant ident) (window_param (q ''since'')) of
          Ok g \<Rightarrow> Served (if q ''service'' \<noteq> [] then FocusBlastRadius g (q ''service'') else g)
        | Err e \<Rightarrow> Refused 502 (errtext e)
        | Panic \<Rightarrow> Refused 500 [])"

section \<open>Scores\<close>

text \<open>Weights as \<open>envFloat\<close> lets them be, with a finite total.\<close>

definition weights_ok :: "Weights \<Rightarrow> bool" where
  "weights_ok w \<longleftrightarrow> (\<forall>x \<in> {w_Type w, w_Recency w, w_ErrorRate w, w_Blast w}. nn x \<and> is_finite x) \<and> is_finite (total_weight w)"

text \<open>What is relied on of the library: \<open>exp_like\<close>, and a logarithm and parsed numbers that are not NaN.\<close>

definition maths_ok :: "maths \<Rightarrow> bool" where
  "maths_ok m \<longleftrightarrow> exp_like (mt_Exp m) \<and> (\<forall>x. fle (Fin 1) x \<longrightarrow> mt_Log10 m x \<noteq> NaN) \<and> (\<forall>s x. mt_ParseFloat m s = Some x \<longrightarrow> is_finite x)"

definition cell_ok :: "ev \<Rightarrow> bool" where
  "cell_ok v = (case v of EvCell (AnyFloat x) \<Rightarrow> is_finite x | EvCell (AnyInt n) \<Rightarrow> in_int64 n | _ \<Rightarrow> True)"

definition cand_ok :: "Candidate \<Rightarrow> bool" where
  "cand_ok c \<longleftrightarrow> ca_Score c \<noteq> NaN \<and> (\<forall>kv \<in> set (ca_Evidence c). cell_ok (snd kv))"

lemma ev_number_finite: "maths_ok m \<Longrightarrow> cell_ok v \<Longrightarrow> ev_number m v = Some x \<Longrightarrow> is_finite x"
  by (auto simp: ev_number_def cell_ok_def maths_ok_def of_int64_finite split: ev.splits any.splits)

lemma evNum_finite: "maths_ok m \<Longrightarrow> \<forall>kv \<in> set evd. cell_ok (snd kv) \<Longrightarrow> evNum m evd ks = Some x \<Longrightarrow> is_finite x"
proof (induction m evd ks rule: evNum.induct)
  case (2 m evd k ks)
  have "cell_ok v" if "map_of evd k = Some v" for v using map_of_SomeD[OF that] 2(4) by fastforce
  then show ?case using 2 ev_number_finite[OF 2(3)] by (auto split: option.splits)
qed simp

lemma unit01_ok: "x \<noteq> NaN \<Longrightarrow> nn (unit01 x) \<and> is_finite (unit01 x) \<and> fle (unit01 x) (Fin 1)"
  using unit01_range[of x] finite_below[of "unit01 x" "Fin 1"] by (auto simp: is_finite_def)

definition feature_ok :: "f64 \<Rightarrow> bool" where
  "feature_ok x \<longleftrightarrow> nn x \<and> is_finite x"

lemma feature_const: "feature_ok (Zero False)" "feature_ok (Fin 1)" "feature_ok (lit (6 / 10))" "feature_ok (lit (4 / 10))"
  by code_simp+

lemma feature_unit: "x \<noteq> NaN \<Longrightarrow> feature_ok (unit01 x)"
  using unit01_ok by (simp add: feature_ok_def)

lemma typeFeature_ok: "feature_ok (typeFeature c)"
  using feature_const by (simp add: typeFeature_def)

lemma fdiv_number: "is_finite x \<Longrightarrow> is_finite y \<Longrightarrow> \<not> fle y (Zero False) \<Longrightarrow> fdiv x y \<noteq> NaN"
  by (cases x; cases y) (auto simp: is_finite_def f_val_def)

lemma recency_ok: "maths_ok m \<Longrightarrow> cand_ok c \<Longrightarrow> feature_ok (recencyFeature m c)"
proof -
  assume m: "maths_ok m" and c: "cand_ok c"
  have e: "mt_Exp m (fdiv (fminus (if flt a (Zero False) then Zero False else a)) (of_int64 3600)) \<noteq> NaN" if "is_finite a" for a
  proof -
    define b where "b = (if flt a (Zero False) then Zero False else a)"
    have "fle (Zero False) b" using that by (cases a) (auto simp: b_def is_finite_def f_val_def)
    then have "fle (fminus b) (fminus (Zero False))" by (rule fminus_order)
    then have "fle (fdiv (fminus b) (of_int64 3600)) (fdiv (fminus (Zero False)) (of_int64 3600))" using unit_fin[of 3600] by (intro fdiv_mono) simp_all
    moreover have "fle (fdiv (fminus (Zero False)) (of_int64 3600)) (Zero False)" by code_simp
    ultimately have z: "fle (fdiv (fminus b) (of_int64 3600)) (Zero False)" by (rule fle_trans)
    from m have "exp_like (mt_Exp m)" by (simp add: maths_ok_def)
    then have "fle (mt_Exp m (fdiv (fminus b) (of_int64 3600))) (Fin 1)" using z fle_refl fle_not_NaN[OF z] exp_likeD by blast
    then show ?thesis using fle_not_NaN unfolding b_def by blast
  qed
  show ?thesis
  proof (cases "evNum m (ca_Evidence c) [''age'', ''age_seconds'']")
    case None
    then show ?thesis using c feature_const feature_unit by (simp del: evNum.simps add: recencyFeature_def cand_ok_def)
  next
    case (Some a)
    have "is_finite a" using evNum_finite[OF m _ Some] c by (simp add: cand_ok_def)
    from feature_unit[OF e[OF this]] show ?thesis by (simp only: recencyFeature_def Some option.case)
  qed
qed

lemma errorRate_ok: "maths_ok m \<Longrightarrow> cand_ok c \<Longrightarrow> feature_ok (errorRateFeature m c)"
proof -
  assume m: "maths_ok m" and c: "cand_ok c"
  have f: "is_finite x" if "evNum m (ca_Evidence c) ks = Some x" for ks x using evNum_finite[OF m _ that] c by (simp add: cand_ok_def)
  show ?thesis
  proof (cases "\<exists>x n. evNum m (ca_Evidence c) [''errors''] = Some x \<and> evNum m (ca_Evidence c) [''calls''] = Some n \<and> \<not> fle n (Zero False)")
    case True
    then obtain x n where e: "evNum m (ca_Evidence c) [''errors''] = Some x" "evNum m (ca_Evidence c) [''calls''] = Some n" "\<not> fle n (Zero False)" by blast
    from feature_unit[OF fdiv_number[OF f[OF e(1)] f[OF e(2)] e(3)]] e show ?thesis by (simp del: evNum.simps add: errorRateFeature_def)
  next
    case False
    then show ?thesis using feature_const by (auto simp del: evNum.simps simp add: errorRateFeature_def split: option.splits)
  qed
qed

lemma blast_ok: "maths_ok m \<Longrightarrow> cand_ok c \<Longrightarrow> feature_ok (blastFeature m c)"
proof -
  assume m: "maths_ok m" and c: "cand_ok c"
  have e: "fdiv (mt_Log10 m (fadd (Fin 1) n)) (of_int64 4) \<noteq> NaN" if "is_finite n" "\<not> fle n (Zero False)" for n
  proof -
    have n: "nn n" "n \<noteq> NaN" using that by (cases n; auto simp: nn_def is_finite_def f_val_def)+
    have "fle (fadd (Fin 1) (Zero False)) (fadd (Fin 1) n)" using n by (intro fadd_mono) (auto simp: nn_def f_val_def)
    moreover have "fadd (Fin 1) (Zero False) = Fin 1" by code_simp
    ultimately have "mt_Log10 m (fadd (Fin 1) n) \<noteq> NaN" using m unfolding maths_ok_def by metis
    moreover have "is_finite (of_int64 4)" "flt (Zero False) (of_int64 4)" by code_simp+
    ultimately show ?thesis by (rule fdiv_not_NaN)
  qed
  show ?thesis
  proof (cases "evNum m (ca_Evidence c) [''calls'']")
    case None
    then show ?thesis using feature_const by (simp del: evNum.simps add: blastFeature_def)
  next
    case (Some n)
    have "is_finite n" using evNum_finite[OF m _ Some] c by (simp add: cand_ok_def)
    from feature_unit[OF e[OF this]] Some show ?thesis using feature_const by (simp del: evNum.simps add: blastFeature_def)
  qed
qed

lemma rank_score_unit:
  assumes "maths_ok m" "weights_ok w" "cand_ok c" shows "fle (Zero False) (rank_score m w c) \<and> fle (rank_score m w c) (Fin 1)"
proof -
  define t where "t = (if fle (total_weight w) (Zero False) then Fin 1 else total_weight w)"
  define x where "x = fadd (fadd (fadd (fmul (w_Type w) (typeFeature c)) (fmul (w_Recency w) (recencyFeature m c)))
            (fmul (w_ErrorRate w) (errorRateFeature m c))) (fmul (w_Blast w) (blastFeature m c))"
  have wn: "nn (w_Type w)" "nn (w_Recency w)" "nn (w_ErrorRate w)" "nn (w_Blast w)" "is_finite (w_Type w)" "is_finite (w_Recency w)" "is_finite (w_ErrorRate w)" "is_finite (w_Blast w)"
    "is_finite (total_weight w)" using assms(2) by (simp_all add: weights_ok_def)
  have "nn x" unfolding x_def using typeFeature_ok recency_ok[OF assms(1,3)] errorRate_ok[OF assms(1,3)] blast_ok[OF assms(1,3)]
    by (intro fadd_nn fmul_nn wn) (simp_all add: feature_ok_def)
  moreover have "is_finite t" "flt (Zero False) t" using wn(9) by (cases "total_weight w"; auto simp: t_def is_finite_def f_val_def)+
  ultimately have "fdiv x t \<noteq> NaN" using fdiv_not_NaN nn_not_NaN by blast
  note u = unit01_ok[OF this]
  have "nn (round_to 100 (unit01 (fdiv x t)))" using u by (intro round_to_nn) simp_all
  moreover have "fle (round_to 100 (unit01 (fdiv x t))) (round_to 100 (Fin 1))" using u by (intro round_to_order) simp_all
  moreover have "fle (round_to 100 (Fin 1)) (Fin 1)" by code_simp
  ultimately show ?thesis unfolding rank_score_def Let_def t_def[symmetric] x_def[symmetric] nn_def using fle_trans by blast
qed

end
