(* ===== verification/Rca_Laws.thy ===== *)
theory Rca_Laws
  imports Rca
begin

text \<open>
  What the rankers of \<open>domains/rca\<close> compute: the bounds of the retrieved scores, the order and the bounds of the linear
  ranker, and that its statement is confined to the tenant.
\<close>

section \<open>Retrieval and ranking\<close>

definition count_ok :: "int \<Rightarrow> bool" where
  "count_ok n \<longleftrightarrow> 0 \<le> n \<and> n \<le> 2 ^ 64"

lemma count_float: "count_ok n \<Longrightarrow> nn (of_int64 n) \<and> is_finite (of_int64 n)"
proof -
  assume n: "count_ok n"
  have "rat_of_int n \<le> of_int (2 ^ 64)" using n unfolding of_int_le_iff by (simp add: count_ok_def)
  then have "fle (of_int64 n) (round64 (2 ^ 64))" unfolding of_int64_def by (intro round64_mono) simp
  moreover have "is_finite (round64 (2 ^ 64))" by code_simp
  ultimately show ?thesis using n of_int64_nn[of n] finite_below by (auto simp: count_ok_def)
qed

lemma count_pos: "0 < n \<Longrightarrow> flt (Zero False) (of_int64 n)"
proof -
  assume n: "0 < n"
  then have "fle (of_int64 1) (of_int64 n)" by (intro of_int64_order) simp
  moreover have "flt (Zero False) (of_int64 1)" by code_simp
  ultimately show ?thesis by (cases "of_int64 1"; cases "of_int64 n") (auto simp: f_val_def)
qed

definition dep_score :: "Edge \<Rightarrow> f64" where
  "dep_score e = fadd (lit (4 / 10)) (fmul (lit (5 / 10)) (fmin (if e_Calls e > 0 then fdiv (of_int64 (e_Errors e)) (of_int64 (e_Calls e)) else Zero False) (Fin 1)))"

lemma dependency_score: "ca_Score (dependency_candidate e) = round_to 100 (dep_score e)"
  by (simp add: dependency_candidate_def dep_score_def Let_def)

definition nine_tenths :: f64 where "nine_tenths = lit (9 / 10)"

lemma fdiv_nn: "nn x \<Longrightarrow> is_finite y \<Longrightarrow> flt (Zero False) y \<Longrightarrow> nn (fdiv x y)"
proof -
  assume a: "nn x" "is_finite y" "flt (Zero False) y"
  then have "0 < f_val y" by (cases y) (auto simp: f_val_def is_finite_def)
  with a have "fle (fdiv (Zero False) y) (fdiv x y)" by (intro fdiv_mono) (simp_all add: nn_def)
  moreover have "fle (Zero False) (fdiv (Zero False) y)" using a by (cases y) (auto simp: is_finite_def f_val_def)
  ultimately show ?thesis unfolding nn_def using fle_trans by blast
qed

lemma dependency_range:
  assumes "count_ok (e_Calls e)" "count_ok (e_Errors e)"
  shows "nn (round_to 100 (dep_score e))" "fle (round_to 100 (dep_score e)) nine_tenths"
proof -
  define r where "r = (if e_Calls e > 0 then fdiv (of_int64 (e_Errors e)) (of_int64 (e_Calls e)) else Zero False)"
  have "nn r" using count_float[OF assms(1)] count_float[OF assms(2)] count_pos[of "e_Calls e"] by (auto simp: r_def intro: fdiv_nn)
  then have x: "nn (fmin r (Fin 1))" "is_finite (fmin r (Fin 1))" "fle (fmin r (Fin 1)) (Fin 1)"
    by (cases r; auto simp: fmin_def nn_def is_finite_def f_val_def)+
  have c: "nn (lit (5 / 10))" "is_finite (lit (5 / 10))" "0 < f_val (lit (5 / 10))" "nn (lit (4 / 10))" "fle (lit (4 / 10)) (lit (4 / 10))" by code_simp+
  have p: "nn (fmul (lit (5 / 10)) (fmin r (Fin 1)))" using x c by (intro fmul_nn) simp_all
  have q: "fle (fmul (lit (5 / 10)) (fmin r (Fin 1))) (fmul (lit (5 / 10)) (Fin 1))" using fmul_mono[OF x(3) c(2,3)] by (simp only: fmul_comm)
  have "nn (dep_score e)" unfolding dep_score_def r_def[symmetric] by (rule fadd_nn[OF c(4) p])
  then show "nn (round_to 100 (dep_score e))" by (intro round_to_nn) simp_all
  have "fle (dep_score e) (fadd (lit (4 / 10)) (fmul (lit (5 / 10)) (Fin 1)))" unfolding dep_score_def r_def[symmetric] by (rule fadd_mono[OF c(4,5) p q])
  then have "fle (round_to 100 (dep_score e)) (round_to 100 (fadd (lit (4 / 10)) (fmul (lit (5 / 10)) (Fin 1))))" by (intro round_to_order) simp_all
  moreover have "fle (round_to 100 (fadd (lit (4 / 10)) (fmul (lit (5 / 10)) (Fin 1)))) nine_tenths" by code_simp
  ultimately show "fle (round_to 100 (dep_score e)) nine_tenths" by (rule fle_trans)
qed

lemma deploy_range:
  assumes "exp_like ex" "nn (toF64 (cell r ''age''))" "is_finite (toF64 (cell r ''age''))" "0 < w" "in_int64 w"
  shows "nn (ca_Score (deploy_candidate ex sp s w r))" "fle (ca_Score (deploy_candidate ex sp s w r)) nine_tenths"
proof -
  define a where "a = fdiv (fminus (toF64 (cell r ''age''))) (of_int64 w)"
  note f = window_fin[OF assms(4,5)]
  have "fle (fminus (toF64 (cell r ''age''))) (fminus (Zero False))" using assms(2) unfolding nn_def by (rule fminus_order)
  then have "fle a (fdiv (fminus (Zero False)) (of_int64 w))" unfolding a_def using f by (intro fdiv_mono) simp_all
  moreover have "fle (fdiv (fminus (Zero False)) (of_int64 w)) (Zero False)" using f by (cases "of_int64 w") (auto simp: fminus_def is_finite_def f_val_def)
  ultimately have a: "fle a (Zero False)" by (rule fle_trans)
  have e: "nn (ex a)" "fle (ex a) (Fin 1)" using exp_likeD[OF assms(1) fle_refl a] fle_not_NaN[OF a] by blast+
  have c: "nn nine_tenths" "is_finite nine_tenths" "0 < f_val nine_tenths" "is_finite (Fin 1)" by code_simp+
  have s: "ca_Score (deploy_candidate ex sp s w r) = round_to 100 (fmul nine_tenths (ex a))" by (simp add: deploy_candidate_def Let_def a_def nine_tenths_def)
  have "is_finite (ex a)" by (rule finite_below[OF e c(4)])
  then have "nn (fmul nine_tenths (ex a))" using c e by (intro fmul_nn) simp_all
  then show "nn (ca_Score (deploy_candidate ex sp s w r))" unfolding s by (intro round_to_nn) simp_all
  have "fle (fmul nine_tenths (ex a)) (fmul nine_tenths (Fin 1))" using fmul_mono[OF e(2) c(2,3)] by (simp only: fmul_comm)
  then have "fle (round_to 100 (fmul nine_tenths (ex a))) (round_to 100 (fmul nine_tenths (Fin 1)))" by (intro round_to_order) simp_all
  moreover have "fle (round_to 100 (fmul nine_tenths (Fin 1))) nine_tenths" by code_simp
  ultimately show "fle (ca_Score (deploy_candidate ex sp s w r)) nine_tenths" unfolding s by (rule fle_trans)
qed


text \<open>
  The ranker is blind to the error rate of a dependency: the counts of the service graph are unsigned, the
  type switch of \<open>evNum\<close> has no case for them, and so every erroring dependency that retrieval returns gets the same
  score, whatever its errors and calls.
\<close>

theorem Rank_ignores_error_rate:
  "rank_score m w (dependency_candidate e) = rank_score m w (dependency_candidate e')"
proof -
  have "errorRateFeature m (dependency_candidate x) = Zero False" "blastFeature m (dependency_candidate x) = Zero False"
    "recencyFeature m (dependency_candidate x) = Zero False" "typeFeature (dependency_candidate x) = lit (6 / 10)" for x
    by (simp_all add: errorRateFeature_def blastFeature_def recencyFeature_def typeFeature_def dependency_candidate_def Let_def ev_number_def)
  then show ?thesis by (simp add: rank_score_def)
qed

definition demo_maths :: maths where
  "demo_maths = \<lparr>mt_Exp = demo_exp, mt_Log10 = (\<lambda>_. Fin 1), mt_ParseFloat = (\<lambda>_. None)\<rparr>"

definition demo_cands :: "Candidate list" where
  "demo_cands =
     [\<lparr>ca_Type = ''dependency'', ca_Subject = ''payments'', ca_Score = lit (85 / 100), ca_Reason = [], ca_Evidence = [(''calls'', EvUint 1000), (''errors'', EvUint 900)]\<rparr>,
      \<lparr>ca_Type = ''deploy'', ca_Subject = ''deploy v2'', ca_Score = lit (88 / 100), ca_Reason = [], ca_Evidence = []\<rparr>]"


text \<open>
  Retrieval returns at most ten candidates, the best first, each a change the statement returned or a service
  the failing one calls with errors, with a structural score between 0 and 0.9. The ages the store reports are
  not negative and its counts are unsigned 64-bit numbers.
\<close>

theorem Retrieve_ranked:
  assumes "RetrieveForService ch oob ex sprint tenant service n = Ok (w, cs)" "exp_like ex" "in_int64 n"
    and "\<And>rows r. ch (deploySQL tenant service w) = Ok rows \<Longrightarrow> r \<in> set rows \<Longrightarrow> is_finite (toF64 (cell r ''age'')) \<and> fle (Zero False) (toF64 (cell r ''age''))"
    and "\<And>g e. Derive ch oob tenant w = Ok g \<Longrightarrow> e \<in> set (g_Edges g) \<Longrightarrow> count_ok (e_Calls e) \<and> count_ok (e_Errors e)"
  shows "length cs \<le> 10 \<and> sorted_wrt (\<lambda>a b. fle (ca_Score b) (ca_Score a)) cs \<and>
    (\<exists>rows g. ch (deploySQL tenant service w) = Ok rows \<and> Derive ch oob tenant w = Ok g \<and>
       set cs \<subseteq> deploy_candidate ex sprint service w ` set rows \<union> dependency_candidate ` {e \<in> set (g_Edges g). e_Caller e = service \<and> e_Errors e \<noteq> 0}) \<and>
    list_all (\<lambda>c. fle (Zero False) (ca_Score c) \<and> fle (ca_Score c) (lit (9 / 10))) cs"
proof -
  obtain rows g where w: "0 < w" "in_int64 w" and rows: "ch (deploySQL tenant service w) = Ok rows" and g: "Derive ch oob tenant w = Ok g"
    and cs: "cs = take 10 (SliceStable (by_score ca_Score) (map (deploy_candidate ex sprint service w) rows @
      map dependency_candidate (filter (\<lambda>e. e_Caller e = service \<and> e_Errors e \<noteq> 0) (g_Edges g))))"
    using assms(1,3) by (auto simp: RetrieveForService_def Let_def bindO_eq_Ok in_int64_def split: if_splits)
  define all where "all = map (deploy_candidate ex sprint service w) rows @ map dependency_candidate (filter (\<lambda>e. e_Caller e = service \<and> e_Errors e \<noteq> 0) (g_Edges g))"
  have "nn (ca_Score c) \<and> fle (ca_Score c) nine_tenths" if "c \<in> set all" for c
    using that deploy_range[OF assms(2) _ _ w] dependency_range dependency_score assms(4)[OF rows] assms(5)[OF g] by (auto simp: all_def nn_def)
  then have range: "fle (Zero False) (ca_Score c) \<and> fle (ca_Score c) (lit (9 / 10))" if "c \<in> set all" for c using that by (simp add: nn_def nine_tenths_def)
  have "sorted_wrt (\<lambda>a b. fle (ca_Score b) (ca_Score a)) (SliceStable (by_score ca_Score) all)" using range fle_not_NaN by (intro score_sorted) fastforce
  then have sorted: "sorted_wrt (\<lambda>a b. fle (ca_Score b) (ca_Score a)) cs" unfolding cs all_def[symmetric] by (rule sorted_wrt_take)
  have sub: "set cs \<subseteq> set all" unfolding cs all_def[symmetric] using set_take_subset[of 10 "SliceStable (by_score ca_Score) all"] by simp
  then have "set cs \<subseteq> deploy_candidate ex sprint service w ` set rows \<union> dependency_candidate ` {e \<in> set (g_Edges g). e_Caller e = service \<and> e_Errors e \<noteq> 0}"
    by (auto simp: all_def)
  moreover have "length cs \<le> 10" by (simp add: cs)
  moreover have "list_all (\<lambda>c. fle (Zero False) (ca_Score c) \<and> fle (ca_Score c) (lit (9 / 10))) cs" using range sub by (auto simp: list_all_iff)
  ultimately show ?thesis using rows g sorted by blast
qed

definition demo_rca_store :: ch_query where
  "demo_rca_store sql = (if sql = deploySQL ''acme'' ''api'' 3600 then Ok [[(''kind'', AnyStr ''deploy''), (''age'', AnyFloat (of_int64 60))]]
     else if sql = edgeSQL ''acme'' 3600 then Ok [[(''caller'', AnyStr ''api''), (''callee'', AnyStr ''db''), (''calls'', AnyFloat (of_int64 10)), (''errors'', AnyFloat (of_int64 5))]]
     else Ok [])"

theorem Retrieve_ranked_witness:
  "\<exists>cs. RetrieveForService demo_rca_store (\<lambda>_. 0) demo_exp str_of ''acme'' ''api'' 3600 = Ok (3600, cs) \<and> length cs \<le> 10 \<and>
     sorted_wrt (\<lambda>a b. fle (ca_Score b) (ca_Score a)) cs \<and> list_all (\<lambda>c. fle (ca_Score c) (lit (9 / 10))) cs"
proof -
  have d: "demo_rca_store (deploySQL ''acme'' ''api'' 3600) = Ok [[(''kind'', AnyStr ''deploy''), (''age'', AnyFloat (of_int64 60))]]" by (simp add: demo_rca_store_def)
  have "edgeSQL ''acme'' 3600 \<noteq> deploySQL ''acme'' ''api'' 3600" by code_simp
  then have e: "demo_rca_store (edgeSQL ''acme'' 3600) = Ok [[(''caller'', AnyStr ''api''), (''callee'', AnyStr ''db''), (''calls'', AnyFloat (of_int64 10)), (''errors'', AnyFloat (of_int64 5))]]"
    by (simp add: demo_rca_store_def)
  have "traceSQL ''acme'' 3600 \<noteq> deploySQL ''acme'' ''api'' 3600 \<and> traceSQL ''acme'' 3600 \<noteq> edgeSQL ''acme'' 3600"
    "Topology.logSQL ''acme'' 3600 \<noteq> deploySQL ''acme'' ''api'' 3600 \<and> Topology.logSQL ''acme'' 3600 \<noteq> edgeSQL ''acme'' 3600" by code_simp+
  then have n: "demo_rca_store (traceSQL ''acme'' 3600) = Ok []" "demo_rca_store (Topology.logSQL ''acme'' 3600) = Ok []" by (simp_all add: demo_rca_store_def)
  have g: "\<exists>g. Derive demo_rca_store (\<lambda>_. 0) ''acme'' 3600 = Ok g \<and>
      g_Edges g = [edge_of (\<lambda>_. 0) [(''caller'', AnyStr ''api''), (''callee'', AnyStr ''db''), (''calls'', AnyFloat (of_int64 10)), (''errors'', AnyFloat (of_int64 5))]]"
    by (simp add: Derive_def e n Let_def wrap_err_def)
  then obtain g where g: "Derive demo_rca_store (\<lambda>_. 0) ''acme'' 3600 = Ok g" and
    ge: "g_Edges g = [edge_of (\<lambda>_. 0) [(''caller'', AnyStr ''api''), (''callee'', AnyStr ''db''), (''calls'', AnyFloat (of_int64 10)), (''errors'', AnyFloat (of_int64 5))]]" by blast
  obtain cs where cs: "RetrieveForService demo_rca_store (\<lambda>_. 0) demo_exp str_of ''acme'' ''api'' 3600 = Ok (3600, cs)"
    by (simp add: RetrieveForService_def d g wrap_err_def)
  have ok: "in_int64 3600" "is_finite (of_int64 60) \<and> fle (Zero False) (of_int64 60)" by code_simp+
  have "count_ok (u64 (\<lambda>_. 0) (AnyFloat (of_int64 10)))" "count_ok (u64 (\<lambda>_. 0) (AnyFloat (of_int64 5)))" by code_simp+
  then have c: "\<And>e. e \<in> set (g_Edges g) \<Longrightarrow> count_ok (e_Calls e) \<and> count_ok (e_Errors e)" by (simp add: ge edge_of_def cell_def)
  have p: "is_finite (toF64 (cell r ''age'')) \<and> fle (Zero False) (toF64 (cell r ''age''))" if "demo_rca_store (deploySQL ''acme'' ''api'' 3600) = Ok rows" "r \<in> set rows" for rows r
    using that d ok(2) by (auto simp: toF64_def cell_def)
  have q: "count_ok (e_Calls e) \<and> count_ok (e_Errors e)" if "Derive demo_rca_store (\<lambda>_. 0) ''acme'' 3600 = Ok g'" "e \<in> set (g_Edges g')" for g' e
    using that g c by simp
  note R = Retrieve_ranked[OF cs demo_exp_like ok(1)]
  have "length cs \<le> 10" by (rule R[THEN conjunct1]) (erule p, assumption, erule q, assumption)
  moreover have "sorted_wrt (\<lambda>a b. fle (ca_Score b) (ca_Score a)) cs" by (rule R[THEN conjunct2, THEN conjunct1]) (erule p, assumption, erule q, assumption)
  moreover have "list_all (\<lambda>c. fle (Zero False) (ca_Score c) \<and> fle (ca_Score c) (lit (9 / 10))) cs"
    by (rule R[THEN conjunct2, THEN conjunct2, THEN conjunct2]) (erule p, assumption, erule q, assumption)
  ultimately show ?thesis using cs by (auto simp: list_all_iff)
qed

section \<open>What the statements read\<close>

lemma rca_deploy_laid: "laid_out tenant (deploySQL tenant service w)"
proof -
  let ?pre = "''SELECT toString(timestamp) AS ts, title, kind, git_sha, deploy_id, pr_number, dateDiff('' @ quote ''second'' @ '', timestamp, now()) AS age''"
  let ?post = "'' ORDER BY timestamp DESC LIMIT 10''"
  have h: "lays False 0 (''SELECT toString(timestamp) AS ts, title, kind, git_sha, deploy_id, pr_number,'' @ nl @ ''dateDiff('' @ quote ''second'' @ '', timestamp, now()) AS age'' @ nl @
      ''FROM change_events WHERE tenant_id = '') (?pre @ '' FROM '' @ ''change_events'' @ '' WHERE tenant_id = '') True 0" by code_simp
  have l: "lays False 0 '' AND service = '' '' AND service = '' True 0" "lays False 0 (nl @ ''  AND timestamp > '') '' AND timestamp > '' True 0"
    "lays False 0 (nl @ ''ORDER BY timestamp DESC LIMIT 10'') ?post False 0" by code_simp+
  note r = lays_append[OF l(1) lays_append[OF lays_quote lays_append[OF l(2) lays_append[OF lays_ago l(3)]]]]
  have c: "list_all conjunct [''service = '' @ quote service, ''timestamp'' @ '' > '' @ ''now() - INTERVAL '' @ show_int w @ '' SECOND'']"
    using service_conjunct conjunct_since[of "'' > ''" w] by (simp only: list.pred_inject simp_thms insert_iff)
  have e: "q_run (Sql (Out 0)) ?pre = Sql (Out 0)" "''change_events'' \<in> set read_tables" "ends_where ?post" "q_run (Sql (Out 0)) ?post = Sql (Out 0)" by code_simp+
  have r': "lays False 0 ('' AND service = '' @ quote service @ (nl @ ''  AND timestamp > '') @ ago_sql w @ nl @ ''ORDER BY timestamp DESC LIMIT 10'')
      (concat (map (\<lambda>c. '' AND '' @ c) [''service = '' @ quote service, ''timestamp'' @ '' > '' @ ''now() - INTERVAL '' @ show_int w @ '' SECOND'']) @ ?post) False 0"
    using r[of service w] by (simp add: ago_sql_def)
  show ?thesis using laid_out_select[OF h r' e(1,2) c e(3,4)] by (simp add: deploySQL_def QuoteLiteral_def)
qed

lemma rca_agree:
  assumes "agree tenant ch ch'" shows "RetrieveForService ch oob ex sprint tenant service n = RetrieveForService ch' oob ex sprint tenant service n"
  unfolding RetrieveForService_def Let_def by (simp only: agreeD(1)[OF assms rca_deploy_laid] topology_agree[OF assms])

end
