(* ===== verification/Forecast.thy ===== *)
theory Forecast
  imports Rca
begin

text \<open>
  Predictive observability, \<open>domains/forecast/forecast.go\<close> and \<open>platform/api/handler/forecast.go\<close>: the least-squares
  trend of a metric, its projection and the time to a threshold, the smoothed level and the seasonal baseline,
  with the history before the last deploy left out. \<open>strconv.ParseFloat\<close> is an argument.
\<close>

section \<open>The statistics\<close>

definition feq :: "f64 \<Rightarrow> f64 \<Rightarrow> bool" where
  "feq x y \<longleftrightarrow> fle x y \<and> fle y x"

record tally =
  s_X :: f64
  s_Y :: f64
  s_XY :: f64
  s_XX :: f64

definition add_point :: "nat \<Rightarrow> f64 \<Rightarrow> tally \<Rightarrow> tally" where
  "add_point i y s =
     (let x = of_int64 (int i)
      in \<lparr>s_X = fadd (s_X s) x, s_Y = fadd (s_Y s) y, s_XY = fadd (s_XY s) (fmul x y), s_XX = fadd (s_XX s) (fmul x x)\<rparr>)"

fun tally_from :: "nat \<Rightarrow> f64 list \<Rightarrow> tally \<Rightarrow> tally" where
  "tally_from i [] s = s"
| "tally_from i (y # ys) s = tally_from (Suc i) ys (add_point i y s)"

definition no_tally :: tally where
  "no_tally = \<lparr>s_X = Zero False, s_Y = Zero False, s_XY = Zero False, s_XX = Zero False\<rparr>"

definition LinearForecast :: "f64 list \<Rightarrow> f64 \<times> f64" where
  "LinearForecast points =
     (let n = length points in
      if n = 0 then (Zero False, Zero False)
      else if n = 1 then (Zero False, points ! 0)
      else let s = tally_from 0 points no_tally; fn = of_int64 (int n);
               denom = fsub (fmul fn (s_XX s)) (fmul (s_X s) (s_X s))
        in if feq denom (Zero False) then (Zero False, fdiv (s_Y s) fn)
           else let slope = fdiv (fsub (fmul fn (s_XY s)) (fmul (s_X s) (s_Y s))) denom
             in (slope, fdiv (fsub (s_Y s) (fmul slope (s_X s))) fn))"

definition Project :: "int \<Rightarrow> f64 \<Rightarrow> f64 \<Rightarrow> int \<Rightarrow> f64" where
  "Project n slope intercept stepsAhead =
     (if n \<le> 0 then intercept
      else fadd (fmul slope (fadd (of_int64 (n - 1)) (of_int64 stepsAhead))) intercept)"

definition TimeToThreshold :: "f64 \<Rightarrow> f64 \<Rightarrow> f64 \<Rightarrow> f64 \<times> bool" where
  "TimeToThreshold current slope threshold =
     (let gap = fsub threshold current in
      if feq gap (Zero False) then (Zero False, True)
      else if feq slope (Zero False) \<or> flt (Zero False) gap \<noteq> flt (Zero False) slope then (Inf False, False)
      else (fdiv gap slope, True))"

definition smooth :: "f64 \<Rightarrow> f64 \<Rightarrow> f64 \<Rightarrow> f64" where
  "smooth alpha x s = fadd (fmul alpha x) (fmul (fsub (Fin 1) alpha) s)"

definition EWMA :: "f64 list \<Rightarrow> f64 \<Rightarrow> f64" where
  "EWMA points alpha =
     (case points of [] \<Rightarrow> Zero False
      | p # ps \<Rightarrow>
          let alpha = (if fle alpha (Zero False) then lit (3 / 10) else alpha);
              alpha = (if flt (Fin 1) alpha then Fin 1 else alpha)
          in fold (smooth alpha) ps p)"

definition AfterReset :: "'a list \<Rightarrow> int \<Rightarrow> 'a list" where
  "AfterReset points resetIdx = (if resetIdx \<le> 0 \<or> resetIdx \<ge> int (length points) then points else drop (nat resetIdx) points)"

text \<open>The loop of the seasonal baseline, which steps back by a period; an index out of range would panic.\<close>

function seasonal_loop :: "f64 list \<Rightarrow> int \<Rightarrow> int \<Rightarrow> int \<Rightarrow> f64 \<Rightarrow> int \<Rightarrow> (goerror, f64 \<times> int) outcome" where
  "seasonal_loop points period start i acc cnt =
     (if 0 < period \<and> start \<le> i then
        (if 0 \<le> i \<and> i < int (length points) then seasonal_loop points period start (i - period) (fadd acc (points ! nat i)) (cnt + 1) else Panic)
      else Ok (acc, cnt))"
  by pat_completeness auto
termination
  by (relation "measure (\<lambda>(points, period, start, i, acc, cnt). nat (i - start + 1))") auto

declare seasonal_loop.simps [simp del]

definition SeasonalBaseline :: "f64 list \<Rightarrow> int \<Rightarrow> int \<Rightarrow> (goerror, f64 option) outcome" where
  "SeasonalBaseline points period resetIdx =
     (if period \<le> 0 then Ok None
      else bindO (seasonal_loop points period (if resetIdx > 0 then resetIdx else 0) (int (length points) - period) (Zero False) 0) (\<lambda>(acc, cnt).
        Ok (if cnt = 0 then None else Some (fdiv acc (of_int64 cnt)))))"

definition Deviation :: "f64 \<Rightarrow> f64 \<Rightarrow> f64" where
  "Deviation actual baseline =
     (let denom = (if f_neg baseline then fminus baseline else baseline);
          denom = (if flt denom (Fin 1) then Fin 1 else denom)
      in fdiv (fsub actual baseline) denom)"

section \<open>The handler\<close>

definition forecastMaxBuckets :: int where "forecastMaxBuckets = 288"
definition forecastDaySeconds :: int where "forecastDaySeconds = 86400"
definition forecastEWMAAlpha :: f64 where "forecastEWMAAlpha = lit (3 / 10)"

definition forecastNum :: "any \<Rightarrow> f64" where
  "forecastNum v = (case v of AnyFloat x \<Rightarrow> x | AnyInt n \<Rightarrow> of_int64 n | AnyStr s \<Rightarrow> scan_g s | AnyOther \<Rightarrow> Zero False)"

definition forecastStr :: "any \<Rightarrow> string" where
  "forecastStr v = (case v of AnyStr s \<Rightarrow> s | _ \<Rightarrow> [])"

definition forecastRound :: "f64 \<Rightarrow> nat \<Rightarrow> f64" where
  "forecastRound x places = (case x of Inf _ \<Rightarrow> x | NaN \<Rightarrow> x | _ \<Rightarrow> round_to (10 ^ places) x)"

definition tab :: string where "tab = [CHR 0x09]"

definition forecastSQL :: "string \<Rightarrow> string \<Rightarrow> string \<Rightarrow> int \<Rightarrow> int \<Rightarrow> string" where
  "forecastSQL tenant service metric w lookback =
     ''SELECT toStartOfInterval(timestamp, INTERVAL '' @ show_int w @ '' SECOND) AS bucket,'' @ nl @ tab @
     ''toUnixTimestamp(toStartOfInterval(timestamp, INTERVAL '' @ show_int w @ '' SECOND)) AS bts,'' @ nl @ tab @
     ''avg(value) AS v'' @ nl @ tab @ ''FROM metrics'' @ nl @ tab @
     ''WHERE tenant_id = '' @ QuoteLiteral tenant @ '' AND service = '' @ QuoteLiteral service @ '' AND metric_name = '' @ QuoteLiteral metric @ nl @ tab @
     ''  AND timestamp > '' @ ago_sql lookback @ nl @ tab @ ''GROUP BY bucket ORDER BY bucket ASC''"

definition resetSQL :: "string \<Rightarrow> string \<Rightarrow> int \<Rightarrow> string" where
  "resetSQL tenant service lookback =
     ''SELECT max(toUnixTimestamp(timestamp)) AS d FROM change_events'' @ nl @
     ''WHERE tenant_id = '' @ QuoteLiteral tenant @ '' AND service = '' @ QuoteLiteral service @ '' AND kind = '' @ quote ''deploy'' @ nl @
     ''  AND timestamp > '' @ ago_sql lookback"

fun reset_loop :: "f64 \<Rightarrow> int \<Rightarrow> f64 list \<Rightarrow> int" where
  "reset_loop d i [] = - 1"
| "reset_loop d i (t # ts) = (if fle d t then (if i = 0 then - 1 else i) else reset_loop d (i + 1) ts)"

definition forecastDeployReset :: "ch_query \<Rightarrow> string \<Rightarrow> string \<Rightarrow> int \<Rightarrow> f64 list \<Rightarrow> int" where
  "forecastDeployReset ch tenant service lookback bts =
     (case ch (resetSQL tenant service lookback) of
        Ok (r # _) \<Rightarrow>
          (let d = forecastNum (cell r ''d'') in if fle d (Zero False) then - 1 else reset_loop d 0 bts)
      | _ \<Rightarrow> - 1)"

record forecastResponse =
  fr_Service :: string
  fr_Metric :: string
  fr_WindowSeconds :: int
  fr_Horizon :: int
  fr_Points :: int
  fr_Series :: "(string \<times> f64) list"
  fr_Slope :: f64
  fr_Intercept :: f64
  fr_Current :: f64
  fr_Threshold :: "f64 option"
  fr_ProjectedValue :: f64
  fr_TimeToThreshold :: "f64 option"
  fr_TimeToThresholdSeconds :: "f64 option"
  fr_WillBreach :: bool
  fr_EWMA :: f64
  fr_SeasonalBaseline :: "f64 option"
  fr_Deviation :: "f64 option"
  fr_DeployResetIndex :: int
  fr_Note :: string

definition fc_window :: "string \<Rightarrow> int" where
  "fc_window s = (case ParseInt s of Some v \<Rightarrow> if v \<ge> 10 then v else 300 | None \<Rightarrow> 300)"

definition fc_horizon :: "string \<Rightarrow> int" where
  "fc_horizon s = (case ParseInt s of Some v \<Rightarrow> if v > 0 \<and> v \<le> 100000 then v else 12 | None \<Rightarrow> 12)"

definition blank_response :: "string \<Rightarrow> string \<Rightarrow> int \<Rightarrow> int \<Rightarrow> f64 option \<Rightarrow> (string \<times> f64) list \<Rightarrow> forecastResponse" where
  "blank_response service metric w horizon threshold series =
     \<lparr>fr_Service = service, fr_Metric = metric, fr_WindowSeconds = w, fr_Horizon = horizon, fr_Points = int (length series),
      fr_Series = series, fr_Slope = Zero False, fr_Intercept = Zero False, fr_Current = Zero False, fr_Threshold = threshold,
      fr_ProjectedValue = Zero False, fr_TimeToThreshold = None, fr_TimeToThresholdSeconds = None, fr_WillBreach = False,
      fr_EWMA = Zero False, fr_SeasonalBaseline = None, fr_Deviation = None, fr_DeployResetIndex = - 1, fr_Note = []\<rparr>"

text \<open>The response when there are fewer than two windows.\<close>

definition withheld :: "forecastResponse \<Rightarrow> f64 list \<Rightarrow> forecastResponse" where
  "withheld resp vals =
     (let resp = (if length vals = 1 then resp\<lparr>fr_Current := vals ! 0, fr_ProjectedValue := vals ! 0, fr_Intercept := vals ! 0\<rparr> else resp)
      in resp\<lparr>fr_Note := ''insufficient history for a trend (need >= 2 windows)''\<rparr>)"

definition trend :: "forecastResponse \<Rightarrow> f64 list \<Rightarrow> int \<Rightarrow> forecastResponse" where
  "trend resp vals resetIdx =
     (let sub = AfterReset vals resetIdx; (slope, intercept) = LinearForecast sub
      in resp\<lparr>fr_DeployResetIndex := resetIdx, fr_Slope := forecastRound slope 6, fr_Intercept := forecastRound intercept 6,
          fr_Current := last vals, fr_EWMA := forecastRound (EWMA sub forecastEWMAAlpha) 6,
          fr_ProjectedValue := forecastRound (Project (int (length sub)) slope intercept (fr_Horizon resp)) 6\<rparr>)"

definition seasonal :: "forecastResponse \<Rightarrow> f64 list \<Rightarrow> int \<Rightarrow> (goerror, forecastResponse) outcome" where
  "seasonal resp vals resetIdx =
     (let period = quot0 forecastDaySeconds (fr_WindowSeconds resp) in
      if period \<ge> 2 then
        bindO (SeasonalBaseline vals period resetIdx) (\<lambda>base.
          Ok (case base of None \<Rightarrow> resp
              | Some b \<Rightarrow> resp\<lparr>fr_SeasonalBaseline := Some (forecastRound b 6), fr_Deviation := Some (forecastRound (Deviation (last vals) b) 4)\<rparr>))
      else Ok resp)"

definition exhaustion :: "forecastResponse \<Rightarrow> f64 list \<Rightarrow> f64 \<Rightarrow> forecastResponse" where
  "exhaustion resp vals slope =
     (case fr_Threshold resp of None \<Rightarrow> resp
      | Some t \<Rightarrow>
          let (steps, breach) = TimeToThreshold (last vals) slope t; resp = resp\<lparr>fr_WillBreach := breach\<rparr>
          in if breach \<and> (case steps of Inf _ \<Rightarrow> False | _ \<Rightarrow> True)
             then resp\<lparr>fr_TimeToThreshold := Some (forecastRound steps 4),
                       fr_TimeToThresholdSeconds := Some (forecastRound (fmul steps (of_int64 (fr_WindowSeconds resp))) 2)\<rparr>
             else resp)"

definition Forecast_h :: "identity \<Rightarrow> (string \<Rightarrow> string) \<Rightarrow> ch_query \<Rightarrow> (string \<Rightarrow> f64 option) \<Rightarrow> (goerror \<Rightarrow> string) \<Rightarrow> forecastResponse served" where
  "Forecast_h ident q ch pf errtext =
     (if \<not> HasScope ident [''logs:read'', ''logs:query''] then Refused 403 ''requires logs:read or logs:query scope''
      else let tenant = ctxTenant ident; service = q ''service''; metric = q ''metric'' in
        if service = [] \<or> metric = [] then Refused 400 ''service and metric are required''
        else let w = fc_window (q ''window''); horizon = fc_horizon (q ''horizon'');
                 threshold = (if q ''threshold'' \<noteq> [] then pf (q ''threshold'') else None);
                 lookback = wrap64 (w * forecastMaxBuckets)
          in case ch (forecastSQL tenant service metric w lookback) of
               Err e \<Rightarrow> Refused 502 (errtext e)
             | Panic \<Rightarrow> Refused 500 []
             | Ok rows \<Rightarrow>
                 let series = map (\<lambda>r. (forecastStr (cell r ''bucket''), forecastNum (cell r ''v''))) rows;
                     vals = map (\<lambda>r. forecastNum (cell r ''v'')) rows; bts = map (\<lambda>r. forecastNum (cell r ''bts'')) rows;
                     resp = blank_response service metric w horizon threshold series
                 in if length vals < 2 then Served (withheld resp vals)
                    else let resetIdx = forecastDeployReset ch tenant service lookback bts;
                             slope = fst (LinearForecast (AfterReset vals resetIdx))
                      in case seasonal (trend resp vals resetIdx) vals resetIdx of
                           Ok resp \<Rightarrow> Served (exhaustion resp vals slope)
                         | Err e \<Rightarrow> Refused 500 []
                         | Panic \<Rightarrow> Refused 500 [])"

end
