(* ===== verification/Float_Int.thy ===== *)
theory Float_Int
  imports Float_Mono
begin

text \<open>
  Exact arithmetic: sums, differences, products and exact quotients of integers below \<open>2^53\<close> are computed without
  an error, up to the sign of a zero.
\<close>

definition ival :: "f64 \<Rightarrow> int \<Rightarrow> bool" where
  "ival x k \<longleftrightarrow> is_finite x \<and> f_val x = of_int k"

lemma round64_uminus: "q \<noteq> 0 \<Longrightarrow> round64 (- q) = fminus (round64 q)"
  by (auto simp: round64_def fminus_def Let_def)

lemma ival_round: "\<bar>k\<bar> < 2 ^ 53 \<Longrightarrow> ival (round64 (of_int k)) k"
proof (cases "0 \<le> k")
  case False
  assume "\<bar>k\<bar> < 2 ^ 53"
  then have "round64 (of_int (- k)) = Fin (of_int (- k))" using False by (intro round64_small_int) simp_all
  then have "round64 (of_int k) = Fin (of_int k)" using False round64_uminus[of "of_int (- k)"] by (simp add: fminus_def)
  then show ?thesis by (simp add: ival_def is_finite_def f_val_def)
qed (use round64_nat[of k] in \<open>simp add: ival_def\<close>)

lemma ival_of_int64 [intro]: "\<bar>k\<bar> < 2 ^ 53 \<Longrightarrow> ival (of_int64 k) k"
  unfolding of_int64_def by (rule ival_round)

lemma eqv_ival: "f_eqv x (round64 (of_int k)) \<Longrightarrow> \<bar>k\<bar> < 2 ^ 53 \<Longrightarrow> ival x k"
proof -
  assume e: "f_eqv x (round64 (of_int k))" and k: "\<bar>k\<bar> < 2 ^ 53"
  from ival_round[OF k] have r: "is_finite (round64 (of_int k))" "f_val (round64 (of_int k)) = of_int k" by (simp_all add: ival_def)
  have "is_finite x" using e r(1) by (cases x; cases "round64 (of_int k)") (auto simp: f_eqv_def is_finite_def)
  moreover have "f_val (round64 (of_int k)) = f_val x" using e r(1) unfolding f_eqv_def by (intro fle_antisym_val) blast+
  ultimately show ?thesis using r(2) by (simp add: ival_def)
qed

lemma ival_add: "ival x a \<Longrightarrow> ival y b \<Longrightarrow> \<bar>a + b\<bar> < 2 ^ 53 \<Longrightarrow> ival (fadd x y) (a + b)"
  using fadd_eqv[of x y] by (intro eqv_ival) (simp_all add: ival_def)

lemma ival_minus: "ival x a \<Longrightarrow> ival (fminus x) (- a)"
  by (cases x) (auto simp: ival_def fminus_def is_finite_def f_val_def)

lemma ival_sub: "ival x a \<Longrightarrow> ival y b \<Longrightarrow> \<bar>a - b\<bar> < 2 ^ 53 \<Longrightarrow> ival (fsub x y) (a - b)"
  unfolding fsub_def using ival_add[OF _ ival_minus] by simp

lemma ival_mul: "ival x a \<Longrightarrow> ival y b \<Longrightarrow> \<bar>a * b\<bar> < 2 ^ 53 \<Longrightarrow> ival (fmul x y) (a * b)"
  using fmul_eqv[of x y] by (intro eqv_ival) (simp_all add: ival_def)

lemma ival_div: "ival x (a * b) \<Longrightarrow> ival y b \<Longrightarrow> b \<noteq> 0 \<Longrightarrow> \<bar>a\<bar> < 2 ^ 53 \<Longrightarrow> ival (fdiv x y) a"
  using fdiv_eqv[of x y] by (intro eqv_ival) (simp_all add: ival_def)

lemma ival_Zero [simp]: "ival (Zero s) k \<longleftrightarrow> k = 0"
  by (auto simp: ival_def is_finite_def f_val_def)

lemma ival_le: "ival x a \<Longrightarrow> ival y b \<Longrightarrow> fle x y \<longleftrightarrow> a \<le> b"
  by (simp add: ival_def fle_fin)

section \<open>Rounding twice\<close>

lemma rnd_multiple: "0 < v \<Longrightarrow> v = of_int k * pow2 c \<Longrightarrow> max (ilog2 v - 52) (- 1074) \<le> c \<Longrightarrow> rnd v = v"
proof -
  assume v: "0 < v" "v = of_int k * pow2 c" and c: "max (ilog2 v - 52) (- 1074) \<le> c"
  obtain m where "pow2 c / ulp v = of_int m" using pow2_multiple[OF c] unfolding ulp_def by blast
  then have "v / ulp v = of_int (k * m)" using v(2) by (metis times_divide_eq_right of_int_mult)
  then have "rnd v = v / ulp v * ulp v" by (simp only: rnd_def rhe_int)
  then show ?thesis using ulp_pos[of v] by (metis nonzero_eq_divide_eq order_less_irrefl)
qed

lemma rnd_idem: assumes "0 < a" "rnd a \<noteq> 0" shows "rnd (rnd a) = rnd a"
proof -
  define k where "k = rhe (a / ulp a)"
  have r: "rnd a = of_int k * ulp a" by (simp add: rnd_def k_def)
  have pos: "0 < rnd a" using rnd_nonneg[OF assms(1)] assms(2) by simp
  define e where "e = max (ilog2 a + 1) (- 1073)"
  have "a \<le> pow2 e" using ilog2_bounds(2)[OF assms(1)] pow2_le[of "ilog2 a + 1" e] by (simp add: e_def)
  then have le: "rnd a \<le> pow2 e" using assms(1) by (intro rnd_le_pow2) (simp_all add: e_def)
  show ?thesis
  proof (cases "rnd a = pow2 e")
    case True
    have "ilog2 (pow2 e) \<le> e" using ilog2_bounds(1)[OF pow2_pos[of e]] pow2_less_iff[of e "ilog2 (pow2 e)"] by linarith
    then show ?thesis using pos by (intro rnd_multiple[of _ 1 e]) (simp_all add: True e_def)
  next
    case False
    then have "ilog2 (rnd a) < e" using le ilog2_bounds(1)[OF pos] pow2_less_iff[of "ilog2 (rnd a)" e] by linarith
    then have "max (ilog2 (rnd a) - 52) (- 1074) \<le> max (ilog2 a - 52) (- 1074)" by (simp add: e_def)
    then show ?thesis using pos r by (intro rnd_multiple[of _ k "max (ilog2 a - 52) (- 1074)"]) (simp_all add: ulp_def)
  qed
qed

text \<open>A value that some operation has rounded.\<close>

definition rounded :: "f64 \<Rightarrow> bool" where
  "rounded x \<longleftrightarrow> (case x of Fin q \<Rightarrow> round64 q = Fin q | _ \<Rightarrow> True)"

lemma rounded_round [simp]: "rounded (round64 q)"
proof (cases "round64 q")
  case (Fin v)
  have q: "q \<noteq> 0" "rnd \<bar>q\<bar> \<noteq> 0" "\<not> pow2 1024 \<le> rnd \<bar>q\<bar>" "v = (if q < 0 then - rnd \<bar>q\<bar> else rnd \<bar>q\<bar>)"
    using Fin by (auto simp: round64_def Let_def split: if_splits)
  have p: "0 < rnd \<bar>q\<bar>" using rnd_nonneg[of "\<bar>q\<bar>"] q by simp
  have "rnd (rnd \<bar>q\<bar>) = rnd \<bar>q\<bar>" using q by (intro rnd_idem) simp_all
  then have "round64 (rnd \<bar>q\<bar>) = Fin (rnd \<bar>q\<bar>)" using p q(3) by (simp add: round64_def Let_def)
  then show ?thesis using p q(4) round64_uminus[of "rnd \<bar>q\<bar>"] by (auto simp: Fin rounded_def fminus_def)
qed (simp_all add: rounded_def)

lemma rounded_add: "rounded (fadd x y)"
  by (cases x; cases y) (simp_all add: rounded_def[of "Zero _"] rounded_def[of "Inf _"] rounded_def[of NaN])

lemma fmul_1: "rounded x \<Longrightarrow> fmul x (Fin 1) = x"
  by (cases x) (simp_all add: rounded_def f_neg_def)

end
