(* ===== verification/Forecast_Laws.thy ===== *)
theory Forecast_Laws
  imports Forecast Float_Int
begin

text \<open>
  Laws of \<open>domains/forecast\<close>: a linear series is fitted and projected without an error, the seasonal baseline is the
  mean of the values whole periods back, the history before a deploy is dropped, and the statements are confined.
\<close>

section \<open>The fit of a line\<close>

lemma abs_mult_le: "\<bar>a\<bar> \<le> A \<Longrightarrow> \<bar>b\<bar> \<le> B \<Longrightarrow> \<bar>a * b\<bar> \<le> A * (B :: int)"
  by (simp add: abs_mult mult_mono)

text \<open>What the running sums hold after \<open>n\<close> points of integers.\<close>

definition tally_is :: "(nat \<Rightarrow> int) \<Rightarrow> nat \<Rightarrow> tally \<Rightarrow> bool" where
  "tally_is v n s \<longleftrightarrow> ival (s_X s) (\<Sum>j<n. int j) \<and> ival (s_Y s) (\<Sum>j<n. v j) \<and> ival (s_XY s) (\<Sum>j<n. int j * v j) \<and> ival (s_XX s) (\<Sum>j<n. int j * int j)"

lemma sum_bound: "(\<And>j. j < n \<Longrightarrow> \<bar>f j\<bar> \<le> (B :: int)) \<Longrightarrow> \<bar>\<Sum>j<n. f j\<bar> \<le> int n * B"
  by (induction n) (fastforce simp: algebra_simps intro: order_trans[OF abs_triangle_ineq])+

lemma add_point_tally:
  assumes "tally_is v n s" "ival y (v n)" "Suc n \<le> 289" "\<And>j. j \<le> n \<Longrightarrow> \<bar>v j\<bar> \<le> 2 ^ 33"
  shows "tally_is v (Suc n) (add_point n y s)"
proof -
  have n: "int n \<le> 288" "ival (of_int64 (int n)) (int n)" using assms(3) by auto
  have b: "\<bar>\<Sum>j<Suc n. int j\<bar> \<le> int (Suc n) * 288" "\<bar>\<Sum>j<Suc n. v j\<bar> \<le> int (Suc n) * 2 ^ 33"
    "\<bar>\<Sum>j<Suc n. int j * v j\<bar> \<le> int (Suc n) * (288 * 2 ^ 33)" "\<bar>\<Sum>j<Suc n. int j * int j\<bar> \<le> int (Suc n) * (288 * 288)"
    using assms(3,4) by (intro sum_bound abs_mult_le; simp)+
  have m: "int (Suc n) * B \<le> 289 * B" if "0 \<le> B" for B :: int using assms(3) that by (intro mult_right_mono) simp_all
  have p: "\<bar>int n * v n\<bar> \<le> 288 * 2 ^ 33" "\<bar>int n * int n\<bar> \<le> 288 * 288" using n(1) assms(4) by (intro abs_mult_le; simp)+
  have c: "\<bar>\<Sum>j<Suc n. int j\<bar> < 2 ^ 53" "\<bar>\<Sum>j<Suc n. v j\<bar> < 2 ^ 53" "\<bar>\<Sum>j<Suc n. int j * v j\<bar> < 2 ^ 53" "\<bar>\<Sum>j<Suc n. int j * int j\<bar> < 2 ^ 53"
    by (rule le_less_trans[OF b(1) le_less_trans[OF m]], simp, simp) (rule le_less_trans[OF b(2) le_less_trans[OF m]], simp, simp,
      rule le_less_trans[OF b(3) le_less_trans[OF m]], simp, simp, rule le_less_trans[OF b(4) le_less_trans[OF m]], simp, simp)
  have q: "ival (fmul (of_int64 (int n)) y) (int n * v n)" "ival (fmul (of_int64 (int n)) (of_int64 (int n))) (int n * int n)"
    using p by (intro ival_mul[OF n(2)] assms(2) n(2); simp)+
  show ?thesis using assms(1,2) c n(2) q unfolding tally_is_def add_point_def Let_def
    by (auto intro!: ival_add)
qed

lemma tally_from_are:
  assumes "tally_is v i s" "\<forall>k < length ys. ival (ys ! k) (v (i + k))" "i + length ys \<le> 289" "\<And>j. j < 289 \<Longrightarrow> \<bar>v j\<bar> \<le> 2 ^ 33"
  shows "tally_is v (i + length ys) (tally_from i ys s)"
  using assms
proof (induction ys arbitrary: i s)
  case (Cons y ys)
  have "tally_is v (Suc i) (add_point i y s)" using Cons.prems by (intro add_point_tally) (auto dest: spec[of _ 0])
  moreover have "ival (ys ! k) (v (Suc i + k))" if "k < length ys" for k using Cons.prems(2)[rule_format, of "Suc k"] that by simp
  ultimately show ?case using Cons.IH[of "Suc i" "add_point i y s"] Cons.prems(3,4) by simp
qed simp

lemma closed_forms: "2 * (\<Sum>j<n. int j) = int n * (int n - 1)" "6 * (\<Sum>j<n. int j * int j) = int n * (int n - 1) * (2 * int n - 1)"
  by (induction n) (simp_all add: algebra_simps)

definition line :: "int \<Rightarrow> int \<Rightarrow> nat \<Rightarrow> f64" where
  "line a b i = of_int64 (a * int i + b)"

lemma fit_line:
  assumes "2 \<le> n" "n \<le> 289" "\<bar>a\<bar> \<le> 2 ^ 20" "\<bar>b\<bar> \<le> 2 ^ 26"
  shows "ival (fst (LinearForecast (map (line a b) [0..<n]))) a \<and> ival (snd (LinearForecast (map (line a b) [0..<n]))) b"
proof -
  define s where "s = tally_from 0 (map (line a b) [0..<n]) no_tally"
  define X XX where "X = (\<Sum>j<n. int j)" and "XX = (\<Sum>j<n. int j * int j)"
  define v where "v j = a * int j + b" for j :: nat
  have vb: "\<bar>v j\<bar> \<le> 2 ^ 20 * 288 + 2 ^ 26" if "j < 289" for j
  proof -
    have "\<bar>a * int j\<bar> \<le> 2 ^ 20 * 288" using assms(3) that by (intro abs_mult_le) simp_all
    then show ?thesis unfolding v_def using assms(4) by linarith
  qed
  have "tally_is v 0 no_tally" by (simp add: tally_is_def no_tally_def)
  moreover have "\<forall>k < length (map (line a b) [0..<n]). ival (map (line a b) [0..<n] ! k) (v (0 + k))"
  proof (intro allI impI)
    fix k assume "k < length (map (line a b) [0..<n])"
    then have "k < n" by simp
    then show "ival (map (line a b) [0..<n] ! k) (v (0 + k))" using vb[of k] assms(2) by (auto simp: line_def v_def[symmetric])
  qed
  moreover have "0 + length (map (line a b) [0..<n]) \<le> 289" using assms(2) by simp
  moreover have "\<bar>v j\<bar> \<le> 2 ^ 33" if "j < 289" for j using vb[OF that] by simp
  ultimately have "tally_is v (0 + length (map (line a b) [0..<n])) s" unfolding s_def by (rule tally_from_are)
  then have s: "ival (s_X s) X" "ival (s_Y s) (\<Sum>j<n. v j)" "ival (s_XY s) (\<Sum>j<n. int j * v j)" "ival (s_XX s) XX"
    by (simp_all add: tally_is_def X_def XX_def)
  have Y: "(\<Sum>j<n. v j) = a * X + b * int n" by (simp add: v_def X_def sum.distrib sum_distrib_left)
  have XY: "(\<Sum>j<n. int j * v j) = a * XX + b * X" by (simp add: v_def X_def XX_def sum.distrib sum_distrib_left algebra_simps)
  define D where "D = int n * XX - X * X"
  have cf: "2 * X = int n * (int n - 1)" "6 * XX = int n * (int n - 1) * (2 * int n - 1)" using closed_forms by (simp_all add: X_def XX_def)
  have "12 * D = 2 * int n * (6 * XX) - 3 * (2 * X) * (2 * X)" by (simp add: D_def algebra_simps)
  also have "\<dots> = int n * int n * (int n - 1) * (int n + 1)" unfolding cf by (simp add: algebra_simps)
  finally have D12: "12 * D = int n * int n * (int n - 1) * (int n + 1)" .
  moreover have "0 < int n * int n * (int n - 1) * (int n + 1)" using assms(1) by (intro mult_pos_pos) simp_all
  ultimately have D: "0 < D" by linarith
  have N: "0 < int n" "int n \<le> 289" using assms by simp_all
  have X: "\<bar>X\<bar> \<le> 289 * 288" "\<bar>XX\<bar> \<le> 289 * (288 * 288)"
  proof -
    have "\<bar>X\<bar> \<le> int n * 288" "\<bar>XX\<bar> \<le> int n * (288 * 288)" unfolding X_def XX_def using assms(2) by (intro sum_bound abs_mult_le; simp)+
    then show "\<bar>X\<bar> \<le> 289 * 288" "\<bar>XX\<bar> \<le> 289 * (288 * 288)" using N(2) by linarith+
  qed
  have X2: "0 \<le> X" "X \<le> 41616" "0 \<le> XX" using cf N X_def XX_def mult_mono[of "int n" 289 "int n - 1" 288] by (simp_all add: sum_nonneg)
  have nXX: "\<bar>int n * XX\<bar> \<le> 289 * (289 * (288 * 288))" "\<bar>X * X\<bar> \<le> 41616 * 41616" "\<bar>int n * X\<bar> \<le> 289 * 41616" using N X X2 by (intro abs_mult_le; simp)+
  note aX = abs_mult_le[OF assms(3) nXX(1)] abs_mult_le[OF assms(4) nXX(3)] abs_mult_le[OF assms(3) nXX(2)]
  have num: "int n * (a * XX + b * X) = a * (int n * XX) + b * (int n * X)" "X * (a * X + b * int n) = a * (X * X) + b * (int n * X)" by (simp_all add: algebra_simps)
  have diff: "int n * (a * XX + b * X) - X * (a * X + b * int n) = a * D" by (simp add: D_def algebra_simps)
  have Db: "\<bar>D\<bar> \<le> 289 * (289 * (288 * 288))" using D nXX(1) zero_le_square[of X] unfolding D_def by linarith
  then have aD: "\<bar>a * D\<bar> \<le> 2 ^ 20 * (289 * (289 * (288 * 288)))" using assms(3) by (intro abs_mult_le)
  have fn: "ival (of_int64 (int n)) (int n)" using N by auto
  have den: "ival (fsub (fmul (of_int64 (int n)) (s_XX s)) (fmul (s_X s) (s_X s))) D" unfolding D_def
    by (rule ival_sub[OF ival_mul[OF fn s(4)] ival_mul[OF s(1) s(1)]]; rule le_less_trans[OF nXX(1)] le_less_trans[OF nXX(2)] le_less_trans[OF Db[unfolded D_def]]; simp)
  have top: "ival (fsub (fmul (of_int64 (int n)) (s_XY s)) (fmul (s_X s) (s_Y s))) (a * D)" unfolding diff[symmetric]
  proof (rule ival_sub[OF ival_mul[OF fn s(3)[unfolded XY]] ival_mul[OF s(1) s(2)[unfolded Y]]])
    show "\<bar>int n * (a * XX + b * X)\<bar> < 2 ^ 53" unfolding num using aX(1,2) by simp
    show "\<bar>X * (a * X + b * int n)\<bar> < 2 ^ 53" unfolding num using aX(2,3) by simp
    show "\<bar>int n * (a * XX + b * X) - X * (a * X + b * int n)\<bar> < 2 ^ 53" unfolding diff using aD by simp
  qed
  define slope where "slope = fdiv (fsub (fmul (of_int64 (int n)) (s_XY s)) (fmul (s_X s) (s_Y s))) (fsub (fmul (of_int64 (int n)) (s_XX s)) (fmul (s_X s) (s_X s)))"
  have slope: "ival slope a" unfolding slope_def using D assms(3) by (intro ival_div[OF top den]) simp_all
  have bn: "\<bar>b * int n\<bar> \<le> 2 ^ 26 * 289" "\<bar>a * X\<bar> \<le> 2 ^ 20 * (289 * 288)" using assms(3,4) N X by (intro abs_mult_le; simp)+
  have "ival (fsub (s_Y s) (fmul slope (s_X s))) (a * X + b * int n - a * X)"
    by (rule ival_sub[OF s(2)[unfolded Y] ival_mul[OF slope s(1)]]; use bn in simp)
  then have icpt: "ival (fdiv (fsub (s_Y s) (fmul slope (s_X s))) (of_int64 (int n))) b" using N assms(4) by (intro ival_div[OF _ fn]) simp_all
  have "\<not> feq (fsub (fmul (of_int64 (int n)) (s_XX s)) (fmul (s_X s) (s_X s))) (Zero False)"
    using D ival_le[OF den ival_Zero[THEN iffD2, OF refl]] by (simp add: feq_def)
  then have "LinearForecast (map (line a b) [0..<n]) = (slope, fdiv (fsub (s_Y s) (fmul slope (s_X s))) (of_int64 (int n)))"
    using assms(1) by (simp add: LinearForecast_def Let_def s_def slope_def)
  then show ?thesis using slope icpt by simp
qed

lemma Project_line:
  assumes "ival slope a" "ival icpt b" "0 < n" "n \<le> 289" "0 \<le> h" "h \<le> 100000" "\<bar>a\<bar> \<le> 2 ^ 20" "\<bar>b\<bar> \<le> 2 ^ 26"
  shows "ival (Project n slope icpt h) (a * (n - 1 + h) + b)"
proof -
  have "\<bar>a * (n - 1 + h)\<bar> \<le> 2 ^ 20 * 100288" using assms by (intro abs_mult_le) simp_all
  then show ?thesis unfolding Project_def using assms
    by (simp) (intro ival_add ival_mul ival_of_int64 assms(1,2); simp)
qed




section \<open>Thresholds\<close>

text \<open>
  A ceiling that is already exceeded by a rising metric is reported as no breach: when the current value lies
  past the threshold in the direction the slope points to, the gap and the slope differ in sign, and the answer is
  an infinite time and no breach, where the comment on the function promises zero steps and a breach.
\<close>

theorem exceeded_ceiling_is_no_breach:
  assumes "t < c" "\<bar>t\<bar> < 2 ^ 51" "\<bar>c\<bar> < 2 ^ 51" "flt (Zero False) slope"
  shows "TimeToThreshold (of_int64 c) slope (of_int64 t) = (Inf False, False)"
proof -
  have g: "ival (fsub (of_int64 t) (of_int64 c)) (t - c)" using assms(2,3) by (intro ival_sub ival_of_int64) simp_all
  note z = ival_Zero[of False 0, THEN iffD2, OF refl]
  have "\<not> feq (fsub (of_int64 t) (of_int64 c)) (Zero False)" using ival_le[OF z g] assms(1) by (simp add: feq_def)
  moreover have "\<not> flt (Zero False) (fsub (of_int64 t) (of_int64 c))" using g assms(1) by (cases "fsub (of_int64 t) (of_int64 c)") (auto simp: ival_def is_finite_def f_val_def)
  moreover have "\<not> feq slope (Zero False)" using assms(4) by (cases slope) (auto simp: feq_def f_val_def)
  ultimately show ?thesis using assms(4) by (simp add: TimeToThreshold_def Let_def)
qed

theorem exceeded_ceiling_is_no_breach_witness:
  "TimeToThreshold (of_int64 95) (Fin 2) (of_int64 90) = (Inf False, False)"
proof -
  have "flt (Zero False) (Fin 2)" by code_simp
  then show ?thesis by (intro exceeded_ceiling_is_no_breach) simp_all
qed

section \<open>The seasonal baseline\<close>

lemma seasonal_loop_sum:
  assumes "0 < p" "0 \<le> start" "i < int (length ps)"
  shows "seasonal_loop ps p start i acc cnt =
    Ok (foldl fadd acc (map (\<lambda>k. ps ! nat (i - int k * p)) [0..<nat ((i - start) div p + 1)]), cnt + int (nat ((i - start) div p + 1)))"
  using assms
proof (induction ps p start i acc cnt rule: seasonal_loop.induct)
  case (1 ps p start i acc cnt)
  show ?case
  proof (cases "start \<le> i")
    case True
    define m where "m = nat ((i - p - start) div p + 1)"
    have "(i - start) div p = (i - p - start) div p + 1" using 1(2) div_add_self2[of p "i - p - start"] by simp
    moreover have "0 \<le> (i - start) div p" using True 1(2) by (simp add: pos_imp_zdiv_nonneg_iff)
    ultimately have m: "nat ((i - start) div p + 1) = Suc m" by (simp add: m_def)
    have i: "map (\<lambda>k. ps ! nat (i - int k * p)) [0..<Suc m] = ps ! nat i # map (\<lambda>k. ps ! nat (i - p - int k * p)) [0..<m]"
      by (simp add: map_upt_Suc algebra_simps del: upt_Suc)
    have "seasonal_loop ps p start i acc cnt = seasonal_loop ps p start (i - p) (fadd acc (ps ! nat i)) (cnt + 1)"
      using True 1(2,3,4) by (subst seasonal_loop.simps) simp
    also have "\<dots> = Ok (foldl fadd (fadd acc (ps ! nat i)) (map (\<lambda>k. ps ! nat (i - p - int k * p)) [0..<m]), cnt + 1 + int m)"
      unfolding m_def using True 1(2,3,4) by (intro 1(1)) simp_all
    finally show ?thesis unfolding m i by simp
  next
    case False
    then have "(i - start) div p + 1 \<le> 0" using 1(2) pos_imp_zdiv_neg_iff[of p "i - start"] by linarith
    then show ?thesis using False by (subst seasonal_loop.simps) simp
  qed
qed

text \<open>
  The seasonal baseline is the mean of the values one, two and more whole periods back that lie after the reset,
  or withheld when there is none; every index read lies in the series, so the loop ends without a panic for every
  period and reset index.
\<close>

theorem SeasonalBaseline_mean:
  "SeasonalBaseline ps p r =
    Ok (let m = nat ((int (length ps) - max 0 r) div p)
        in if p \<le> 0 \<or> m = 0 then None
           else Some (fdiv (foldl fadd (Zero False) (map (\<lambda>k. ps ! nat (int (length ps) - int k * p)) [1..<Suc m])) (of_int64 (int m))))"
proof (cases "p \<le> 0")
  case False
  define s where "s = max 0 r"
  have s: "(if r > 0 then r else 0) = s" by (simp add: s_def)
  have "(int (length ps) - p - s) div p + 1 = (int (length ps) - s) div p" using False div_add_self2[of p "int (length ps) - p - s"] by simp
  moreover have "seasonal_loop ps p s (int (length ps) - p) (Zero False) 0 =
      Ok (foldl fadd (Zero False) (map (\<lambda>k. ps ! nat (int (length ps) - p - int k * p)) [0..<nat ((int (length ps) - p - s) div p + 1)]),
        0 + int (nat ((int (length ps) - p - s) div p + 1)))"
    using False by (intro seasonal_loop_sum) (simp_all add: s_def)
  moreover have "map (\<lambda>k. ps ! nat (int (length ps) - p - int k * p)) [0..<m] = map (\<lambda>k. ps ! nat (int (length ps) - int k * p)) [1..<Suc m]" for m
    by (simp add: map_Suc_upt[symmetric] comp_def algebra_simps del: upt_Suc)
  ultimately show ?thesis using False unfolding SeasonalBaseline_def s by (simp add: s_def[symmetric] Let_def)
qed (simp add: SeasonalBaseline_def)

section \<open>The history after a deploy\<close>

lemma reset_loop_first:
  assumes "0 \<le> i"
  shows "reset_loop d i ts = (if list_ex (fle d) ts then let k = i + int (length (takeWhile (\<lambda>t. \<not> fle d t) ts)) in if k = 0 then - 1 else k else - 1)"
  using assms by (induction ts arbitrary: i) (auto simp: Let_def)

lemma dropWhile_length: "dropWhile P xs = drop (length (takeWhile P xs)) xs"
  by (induction xs) simp_all

lemma deploy_aware:
  "AfterReset ts (reset_loop d 0 ts) = (if list_ex (fle d) ts then dropWhile (\<lambda>t. \<not> fle d t) ts else ts)"
proof (cases "list_ex (fle d) ts")
  case True
  then have "length (takeWhile (\<lambda>t. \<not> fle d t) ts) < length ts" by (induction ts) auto
  then show ?thesis using True by (auto simp: reset_loop_first AfterReset_def dropWhile_length Let_def)
qed (simp add: reset_loop_first AfterReset_def)

section \<open>What the statements read\<close>

lemma forecast_laid: "laid_out tenant (forecastSQL tenant service metric w lookback)"
proof -
  let ?a = "''SELECT toStartOfInterval(timestamp, INTERVAL ''"
  let ?b = "'' SECOND) AS bucket, toUnixTimestamp(toStartOfInterval(timestamp, INTERVAL ''"
  let ?c = "'' SECOND)) AS bts, avg(value) AS v''"
  let ?pre = "?a @ show_int w @ ?b @ show_int w @ ?c"
  let ?post = "'' GROUP BY bucket ORDER BY bucket ASC''"
  have q: "q_run (Sql (Out 0)) ?a = Sql (Out 1)" "q_run (Sql (Out 1)) ?b = Sql (Out 2)" "q_run (Sql (Out 2)) ?c = Sql (Out 0)" by code_simp+
  have pre: "q_run (Sql (Out 0)) ?pre = Sql (Out 0)" by (simp only: q_run_simps(3) q closed_run[OF closed_show_int])
  have l: "lays False 0 ?a ?a True 1"
    "lays False 1 ('' SECOND) AS bucket,'' @ nl @ tab @ ''toUnixTimestamp(toStartOfInterval(timestamp, INTERVAL '') ?b True 2"
    "lays False 2 ('' SECOND)) AS bts,'' @ nl @ tab @ ''avg(value) AS v'' @ nl @ tab @ ''FROM metrics'' @ nl @ tab @ ''WHERE tenant_id = '') (?c @ '' FROM '' @ ''metrics'' @ '' WHERE tenant_id = '') True 0"
    "lays False 0 '' AND service = '' '' AND service = '' True 0" "lays False 0 '' AND metric_name = '' '' AND metric_name = '' True 0"
    "lays False 0 (nl @ tab @ ''  AND timestamp > '') '' AND timestamp > '' True 0" "lays False 0 (nl @ tab @ ''GROUP BY bucket ORDER BY bucket ASC'') ?post False 0" by code_simp+
  have h: "lays False 0 (?a @ show_int w @ ('' SECOND) AS bucket,'' @ nl @ tab @ ''toUnixTimestamp(toStartOfInterval(timestamp, INTERVAL '') @ show_int w @
      ('' SECOND)) AS bts,'' @ nl @ tab @ ''avg(value) AS v'' @ nl @ tab @ ''FROM metrics'' @ nl @ tab @ ''WHERE tenant_id = '')) (?pre @ '' FROM '' @ ''metrics'' @ '' WHERE tenant_id = '') True 0"
    using lays_append[OF l(1) lays_append[OF lays_int lays_append[OF l(2) lays_append[OF lays_int l(3)]]], of w w] by (simp only: append_assoc)
  have m: "conjunct (''metric_name = '' @ quote metric)" by (rule conjunct_quote; code_simp)
  have c: "list_all conjunct [''service = '' @ quote service, ''metric_name = '' @ quote metric, ''timestamp'' @ '' > '' @ ''now() - INTERVAL '' @ show_int lookback @ '' SECOND'']"
    using service_conjunct m conjunct_since[of "'' > ''" lookback] by (simp only: list.pred_inject simp_thms insert_iff)
  have e: "''metrics'' \<in> set read_tables" "ends_where ?post" "q_run (Sql (Out 0)) ?post = Sql (Out 0)" by code_simp+
  note r = lays_append[OF l(4) lays_append[OF lays_quote lays_append[OF l(5) lays_append[OF lays_quote lays_append[OF l(6) lays_append[OF lays_ago l(7)]]]]]]
  have r': "lays False 0 ('' AND service = '' @ quote service @ '' AND metric_name = '' @ quote metric @ (nl @ tab @ ''  AND timestamp > '') @ ago_sql lookback @ nl @ tab @ ''GROUP BY bucket ORDER BY bucket ASC'')
      (concat (map (\<lambda>c. '' AND '' @ c) [''service = '' @ quote service, ''metric_name = '' @ quote metric, ''timestamp'' @ '' > '' @ ''now() - INTERVAL '' @ show_int lookback @ '' SECOND'']) @ ?post) False 0"
    using r[of service metric lookback] by (simp add: ago_sql_def)
  show ?thesis using laid_out_select[OF h r' pre e(1) c e(2,3)] unfolding forecastSQL_def QuoteLiteral_def by (simp only: append_assoc)
qed

lemma reset_laid: "laid_out tenant (resetSQL tenant service lookback)"
proof -
  let ?pre = "''SELECT max(toUnixTimestamp(timestamp)) AS d''"
  have l: "lays False 0 (?pre @ '' FROM change_events'' @ nl @ ''WHERE tenant_id = '') (?pre @ '' FROM '' @ ''change_events'' @ '' WHERE tenant_id = '') True 0"
    "lays False 0 '' AND service = '' '' AND service = '' True 0" "lays False 0 ('' AND kind = '' @ quote ''deploy'' @ nl @ ''  AND timestamp > '') ('' AND kind = '' @ quote ''deploy'' @ '' AND timestamp > '') True 0" by code_simp+
  have "conjunct (''kind = '' @ quote ''deploy'')" by (rule conjunct_quote; code_simp)
  then have c: "list_all conjunct [''service = '' @ quote service, ''kind = '' @ quote ''deploy'', ''timestamp'' @ '' > '' @ ''now() - INTERVAL '' @ show_int lookback @ '' SECOND'']"
    using service_conjunct conjunct_since[of "'' > ''" lookback] by (simp only: list.pred_inject simp_thms insert_iff)
  have e: "q_run (Sql (Out 0)) ?pre = Sql (Out 0)" "''change_events'' \<in> set read_tables" "ends_where []" "q_run (Sql (Out 0)) [] = Sql (Out 0)" by code_simp+
  have r: "lays False 0 ('' AND service = '' @ quote service @ ('' AND kind = '' @ quote ''deploy'' @ nl @ ''  AND timestamp > '') @ ago_sql lookback)
      (concat (map (\<lambda>c. '' AND '' @ c) [''service = '' @ quote service, ''kind = '' @ quote ''deploy'', ''timestamp'' @ '' > '' @ ''now() - INTERVAL '' @ show_int lookback @ '' SECOND'']) @ []) False 0"
    using lays_append[OF l(2) lays_append[OF lays_quote lays_append[OF l(3) lays_ago]], of service lookback] by (simp add: ago_sql_def)
  show ?thesis using laid_out_select[OF l(1) r e(1,2) c e(3,4)] by (simp add: resetSQL_def QuoteLiteral_def)
qed

lemma forecast_agree:
  assumes "agree (ctxTenant ident) ch ch'" shows "Forecast_h ident q ch pf errtext = Forecast_h ident q ch' pf errtext"
  unfolding Forecast_h_def forecastDeployReset_def Let_def by (simp only: agreeD(1)[OF assms forecast_laid] agreeD(1)[OF assms reset_laid])

end
