(* ===== verification/Bus_Context.thy ===== *)
theory Bus_Context
  imports Float_Int Go_Rows "HOL-Library.List_Lexorder" "HOL-Library.Char_ord"
begin

text \<open>
  The business impact of an incident, \<open>domains/buscontext/buscontext.go\<close>: from the mappings of the affected service
  to the affected customers and plan tiers, the revenue at risk as a range, and the strictest SLA. The tables and
  the handlers are in \<open>Ops_Tables\<close>.
\<close>

section \<open>The estimate\<close>

definition defaultBudgetFraction :: f64 where "defaultBudgetFraction = lit (5 / 100)"
definition defaultCurrency :: string where "defaultCurrency = ''USD''"

record Mapping =
  mp_ID :: string
  mp_Service :: string
  mp_Customer :: string
  mp_PlanTier :: string
  mp_MonthlyRevenue :: f64
  mp_SLATarget :: f64

record RevenueRange =
  rr_Low :: f64
  rr_High :: f64
  rr_Currency :: string
  rr_Basis :: string

record Exposure =
  xp_AffectedServices :: "string list"
  xp_AffectedCustomers :: "string list"
  xp_AffectedPlanTiers :: "string list"
  xp_RevenueAtRisk :: RevenueRange
  xp_WorstSLATarget :: "f64 option"
  xp_MappingCount :: int

text \<open>The variables of the loop; the sets of names are lists without repetition.\<close>

record impact =
  im_Services :: "string list"
  im_Customers :: "string list"
  im_Tiers :: "string list"
  im_Total :: f64
  im_Worst :: f64
  im_HaveSLA :: bool

definition keep :: "string \<Rightarrow> string list \<Rightarrow> string list" where
  "keep s names = (if s \<noteq> [] then List.insert s names else names)"

definition add_mapping :: "Mapping \<Rightarrow> impact \<Rightarrow> impact" where
  "add_mapping m s =
     \<lparr>im_Services = keep (mp_Service m) (im_Services s), im_Customers = keep (mp_Customer m) (im_Customers s),
      im_Tiers = keep (mp_PlanTier m) (im_Tiers s),
      im_Total = (if flt (Zero False) (mp_MonthlyRevenue m) then fadd (im_Total s) (mp_MonthlyRevenue m) else im_Total s),
      im_Worst = (if flt (Zero False) (mp_SLATarget m) \<and> flt (im_Worst s) (mp_SLATarget m) then mp_SLATarget m else im_Worst s),
      im_HaveSLA = (im_HaveSLA s \<or> flt (Zero False) (mp_SLATarget m))\<rparr>"

definition no_impact :: impact where
  "no_impact = \<lparr>im_Services = [], im_Customers = [], im_Tiers = [], im_Total = Zero False, im_Worst = Zero False, im_HaveSLA = False\<rparr>"

definition sortedKeys :: "string list \<Rightarrow> string list" where
  "sortedKeys names = sort names"

definition round2 :: "f64 \<Rightarrow> f64" where
  "round2 = round_to 100"

definition budget_of :: "impact \<Rightarrow> f64" where
  "budget_of s =
     (if im_HaveSLA s then
        (let b = fdiv (fsub (Fin 100) (im_Worst s)) (Fin 100) in if flt b (Zero False) then Zero False else b)
      else defaultBudgetFraction)"

definition basis_of :: "impact \<Rightarrow> string" where
  "basis_of s =
     (if im_HaveSLA s then ''monthly revenue of affected customers; low = strictest-SLA ('' @ show_fixed 3 (im_Worst s) @
        ''%) error-budget share, high = full sustained-outage exposure''
      else ''monthly revenue of affected customers; low = 5% partial-impact floor (no SLA declared), high = full sustained-outage exposure'')"

definition EstimateExposure :: "Mapping list \<Rightarrow> Exposure" where
  "EstimateExposure rows =
     (let s = fold add_mapping rows no_impact
      in \<lparr>xp_AffectedServices = sortedKeys (im_Services s), xp_AffectedCustomers = sortedKeys (im_Customers s),
          xp_AffectedPlanTiers = sortedKeys (im_Tiers s),
          xp_RevenueAtRisk = \<lparr>rr_Low = round2 (fmul (im_Total s) (budget_of s)), rr_High = round2 (im_Total s),
            rr_Currency = defaultCurrency, rr_Basis = basis_of s\<rparr>,
          xp_WorstSLATarget = (if im_HaveSLA s then Some (im_Worst s) else None),
          xp_MappingCount = int (length rows)\<rparr>)"

section \<open>Laws\<close>

definition named :: "(Mapping \<Rightarrow> string) \<Rightarrow> Mapping list \<Rightarrow> string set" where
  "named f rows = f ` set rows - {[]}"

lemma fold_names:
  "set (im_Services (fold add_mapping rows s)) = set (im_Services s) \<union> named mp_Service rows"
  "set (im_Customers (fold add_mapping rows s)) = set (im_Customers s) \<union> named mp_Customer rows"
  "set (im_Tiers (fold add_mapping rows s)) = set (im_Tiers s) \<union> named mp_PlanTier rows"
  by (induction rows arbitrary: s) (auto simp: add_mapping_def keep_def named_def)

lemma fold_distinct:
  assumes "distinct (im_Services s)" "distinct (im_Customers s)" "distinct (im_Tiers s)"
  shows "distinct (im_Services (fold add_mapping rows s)) \<and> distinct (im_Customers (fold add_mapping rows s)) \<and> distinct (im_Tiers (fold add_mapping rows s))"
  using assms by (induction rows arbitrary: s) (auto simp: add_mapping_def keep_def)

lemma fold_total: "nn (im_Total s) \<and> rounded (im_Total s) \<Longrightarrow> nn (im_Total (fold add_mapping rows s)) \<and> rounded (im_Total (fold add_mapping rows s))"
proof (induction rows arbitrary: s)
  case (Cons m rows)
  have "nn (mp_MonthlyRevenue m)" if "flt (Zero False) (mp_MonthlyRevenue m)" using flt_fle[OF that] by (simp add: nn_def)
  then have "nn (im_Total (add_mapping m s)) \<and> rounded (im_Total (add_mapping m s))" using Cons.prems by (auto simp: add_mapping_def rounded_add intro: fadd_nn)
  then show ?case using Cons.IH by simp
qed simp

text \<open>The strictest SLA so far is not below any positive target seen, and is one of them.\<close>

lemma fold_worst:
  assumes "nn (im_Worst s)" "im_HaveSLA s \<longleftrightarrow> flt (Zero False) (im_Worst s)"
  shows "nn (im_Worst (fold add_mapping rows s)) \<and> (im_HaveSLA (fold add_mapping rows s) \<longleftrightarrow> flt (Zero False) (im_Worst (fold add_mapping rows s))) \<and>
    fle (im_Worst s) (im_Worst (fold add_mapping rows s)) \<and>
    (\<forall>m \<in> set rows. flt (Zero False) (mp_SLATarget m) \<longrightarrow> fle (mp_SLATarget m) (im_Worst (fold add_mapping rows s))) \<and>
    im_Worst (fold add_mapping rows s) \<in> insert (im_Worst s) (mp_SLATarget ` set rows)"
  using assms
proof (induction rows arbitrary: s)
  case Nil
  then show ?case using fle_refl[OF nn_not_NaN] by simp
next
  case (Cons m rows)
  define s' where "s' = add_mapping m s"
  have w: "nn (im_Worst s')" "im_HaveSLA s' \<longleftrightarrow> flt (Zero False) (im_Worst s')" "fle (im_Worst s) (im_Worst s')"
    "flt (Zero False) (mp_SLATarget m) \<longrightarrow> fle (mp_SLATarget m) (im_Worst s')" "im_Worst s' \<in> {im_Worst s, mp_SLATarget m}"
  proof -
    consider (new) "flt (Zero False) (mp_SLATarget m)" "flt (im_Worst s) (mp_SLATarget m)" | (same) "flt (Zero False) (mp_SLATarget m)" "\<not> flt (im_Worst s) (mp_SLATarget m)"
      | (none) "\<not> flt (Zero False) (mp_SLATarget m)" by blast
    then have "nn (im_Worst s') \<and> (im_HaveSLA s' \<longleftrightarrow> flt (Zero False) (im_Worst s')) \<and> fle (im_Worst s) (im_Worst s') \<and>
      (flt (Zero False) (mp_SLATarget m) \<longrightarrow> fle (mp_SLATarget m) (im_Worst s')) \<and> im_Worst s' \<in> {im_Worst s, mp_SLATarget m}"
    proof cases
      case new
      then have "im_Worst s' = mp_SLATarget m" "im_HaveSLA s'" by (simp_all add: s'_def add_mapping_def)
      moreover have "nn (mp_SLATarget m)" using flt_fle[OF new(1)] by (simp add: nn_def)
      moreover from this have "fle (mp_SLATarget m) (mp_SLATarget m)" by (intro fle_refl nn_not_NaN)
      ultimately show ?thesis using new flt_fle[OF new(2)] by simp
    next
      case same
      then have e: "im_Worst s' = im_Worst s" "im_HaveSLA s'" by (simp_all add: s'_def add_mapping_def)
      have n: "im_Worst s \<noteq> NaN" "mp_SLATarget m \<noteq> NaN" using Cons.prems(1) nn_not_NaN fle_not_NaN[OF flt_fle[OF same(1)]] by blast+
      have "fle (mp_SLATarget m) (im_Worst s)" using same(2) not_flt_fle[OF n] by blast
      moreover have "flt (Zero False) (im_Worst s)" using same(1) \<open>fle (mp_SLATarget m) (im_Worst s)\<close>
        by (cases "mp_SLATarget m"; cases "im_Worst s") (auto simp: f_val_def)
      ultimately show ?thesis using e Cons.prems(1) fle_refl[OF n(1)] by simp
    next
      case none
      then have "im_Worst s' = im_Worst s" "im_HaveSLA s' = im_HaveSLA s" by (simp_all add: s'_def add_mapping_def)
      then show ?thesis using none Cons.prems fle_refl[OF nn_not_NaN[OF Cons.prems(1)]] by simp
    qed
    then show "nn (im_Worst s')" "im_HaveSLA s' \<longleftrightarrow> flt (Zero False) (im_Worst s')" "fle (im_Worst s) (im_Worst s')"
      "flt (Zero False) (mp_SLATarget m) \<longrightarrow> fle (mp_SLATarget m) (im_Worst s')" "im_Worst s' \<in> {im_Worst s, mp_SLATarget m}" by blast+
  qed
  from Cons.IH[OF w(1,2)] have ih: "nn (im_Worst (fold add_mapping rows s'))" "im_HaveSLA (fold add_mapping rows s') \<longleftrightarrow> flt (Zero False) (im_Worst (fold add_mapping rows s'))"
    "fle (im_Worst s') (im_Worst (fold add_mapping rows s'))"
    "\<forall>m \<in> set rows. flt (Zero False) (mp_SLATarget m) \<longrightarrow> fle (mp_SLATarget m) (im_Worst (fold add_mapping rows s'))"
    "im_Worst (fold add_mapping rows s') \<in> insert (im_Worst s') (mp_SLATarget ` set rows)" by blast+
  have "flt (Zero False) (mp_SLATarget m) \<longrightarrow> fle (mp_SLATarget m) (im_Worst (fold add_mapping rows s'))" using w(4) ih(3) fle_trans by blast
  moreover have "fle (im_Worst s) (im_Worst (fold add_mapping rows s'))" using w(3) ih(3) by (rule fle_trans)
  ultimately show ?case using ih w(5) by (auto simp: s'_def)
qed

lemma budget_unit:
  assumes "im_HaveSLA s \<longleftrightarrow> flt (Zero False) (im_Worst s)" "is_finite (im_Worst s)"
  shows "nn (budget_of s) \<and> is_finite (budget_of s) \<and> fle (budget_of s) (Fin 1)"
proof (cases "im_HaveSLA s")
  case False
  have "nn defaultBudgetFraction \<and> is_finite defaultBudgetFraction \<and> fle defaultBudgetFraction (Fin 1)" by code_simp
  then show ?thesis using False by (simp add: budget_of_def)
next
  case True
  define b where "b = fdiv (fsub (Fin 100) (im_Worst s)) (Fin 100)"
  have c: "is_finite (Fin 100)" "0 < f_val (Fin 100)" by (simp_all add: is_finite_def f_val_def)
  have p: "is_finite (fminus (im_Worst s))" "f_val (fminus (im_Worst s)) \<le> 0" using True assms
    by (cases "im_Worst s"; auto simp: fminus_def is_finite_def f_val_def)+
  have "fle (fadd (Fin 100) (fminus (im_Worst s))) (round64 100)" using fadd_eqv[OF c(1) p(1)] round64_mono[of "f_val (Fin 100) + f_val (fminus (im_Worst s))" 100] p(2)
    by (auto simp: f_eqv_def f_val_def[of "Fin _"] intro: fle_trans)
  then have "fle b (fdiv (round64 100) (Fin 100))" unfolding b_def fsub_def using c by (intro fdiv_mono)
  moreover have "fdiv (round64 100) (Fin 100) = Fin 1" by code_simp
  ultimately have le: "fle b (Fin 1)" by simp
  have r: "budget_of s = (if flt b (Zero False) then Zero False else b)" using True by (simp add: budget_of_def b_def Let_def)
  show ?thesis
  proof (cases "flt b (Zero False)")
    case True
    then show ?thesis by (simp add: r is_finite_def f_val_def)
  next
    case False
    then have "nn b" using not_flt_fle[of b "Zero False"] fle_not_NaN[OF le] by (simp add: nn_def)
    moreover have "is_finite (Fin 1)" by (simp add: is_finite_def)
    ultimately show ?thesis using finite_below[OF _ le] le False by (simp add: r)
  qed
qed

lemma sorted_names:
  assumes "set names = A" "distinct names" shows "sortedKeys names = sorted_list_of_set A"
  using assms by (auto simp: sortedKeys_def sorted_list_of_set_sort_remdups distinct_remdups_id)

text \<open>
  C34. The revenue at risk of an incident is a range: for all mappings with finite SLA targets whose revenue adds up
  to a finite number the lower end is not negative and not above the upper end, however the sums and the
  products round. The affected services, customers and tiers are the non-empty names of the mappings, each once
  and in order, and the SLA reported is the strictest declared one.
\<close>

theorem exposure_range:
  assumes "list_all (\<lambda>m. is_finite (mp_SLATarget m)) rows" "is_finite (rr_High (xp_RevenueAtRisk (EstimateExposure rows)))"
  shows "fle (Zero False) (rr_Low (xp_RevenueAtRisk (EstimateExposure rows))) \<and>
    fle (rr_Low (xp_RevenueAtRisk (EstimateExposure rows))) (rr_High (xp_RevenueAtRisk (EstimateExposure rows))) \<and>
    xp_AffectedServices (EstimateExposure rows) = sorted_list_of_set (mp_Service ` set rows - {[]}) \<and>
    xp_AffectedCustomers (EstimateExposure rows) = sorted_list_of_set (mp_Customer ` set rows - {[]}) \<and>
    xp_AffectedPlanTiers (EstimateExposure rows) = sorted_list_of_set (mp_PlanTier ` set rows - {[]}) \<and>
    (case xp_WorstSLATarget (EstimateExposure rows) of
       None \<Rightarrow> \<not> list_ex (\<lambda>m. flt (Zero False) (mp_SLATarget m)) rows
     | Some w \<Rightarrow> w \<in> mp_SLATarget ` set rows \<and> flt (Zero False) w \<and> \<not> list_ex (\<lambda>m. flt w (mp_SLATarget m)) rows)"
proof -
  define s where "s = fold add_mapping rows no_impact"
  have t: "nn (im_Total s)" "rounded (im_Total s)" using fold_total[of no_impact rows] by (simp_all add: s_def no_impact_def rounded_def)
  note w = fold_worst[of no_impact rows, folded s_def]
  have w0: "nn (im_Worst no_impact)" "im_HaveSLA no_impact \<longleftrightarrow> flt (Zero False) (im_Worst no_impact)" by (simp_all add: no_impact_def f_val_def)
  have have_iff: "im_HaveSLA s \<longleftrightarrow> flt (Zero False) (im_Worst s)" using w[OF w0] by blast
  have mem: "im_Worst s \<in> insert (Zero False) (mp_SLATarget ` set rows)" using w[OF w0] by (simp add: no_impact_def)
  then have fw: "is_finite (im_Worst s)" using assms(1) by (auto simp: list_all_iff is_finite_def)
  note b = budget_unit[OF have_iff fw]
  have e: "rr_Low (xp_RevenueAtRisk (EstimateExposure rows)) = round2 (fmul (im_Total s) (budget_of s))"
    "rr_High (xp_RevenueAtRisk (EstimateExposure rows)) = round2 (im_Total s)" by (simp_all add: EstimateExposure_def Let_def s_def)
  have ft: "is_finite (im_Total s)"
  proof (rule ccontr)
    assume "\<not> is_finite (im_Total s)"
    then have i: "im_Total s = Inf False" using t(1) by (cases "im_Total s") (auto simp: is_finite_def nn_def)
    have "\<not> is_finite (round2 (Inf False))" by code_simp
    then show False using assms(2) i by (simp add: e)
  qed
  have "nn (fmul (im_Total s) (budget_of s))" using t ft b by (intro fmul_nn) simp_all
  then have low: "nn (round2 (fmul (im_Total s) (budget_of s)))" unfolding round2_def by (intro round_to_nn) simp_all
  have "fle (fmul (budget_of s) (im_Total s)) (fmul (Fin 1) (im_Total s))" using b ft t(1) nn_fin[OF ft]
    by (intro fmul_fin_mono) (simp_all add: is_finite_def[of "Fin 1"])
  then have "fle (fmul (im_Total s) (budget_of s)) (im_Total s)" using fmul_1[OF t(2)] by (simp only: fmul_comm)
  then have le: "fle (round2 (fmul (im_Total s) (budget_of s))) (round2 (im_Total s))" unfolding round2_def by (intro round_to_order) simp_all
  have names: "xp_AffectedServices (EstimateExposure rows) = sorted_list_of_set (mp_Service ` set rows - {[]})"
    "xp_AffectedCustomers (EstimateExposure rows) = sorted_list_of_set (mp_Customer ` set rows - {[]})"
    "xp_AffectedPlanTiers (EstimateExposure rows) = sorted_list_of_set (mp_PlanTier ` set rows - {[]})"
    using fold_names[of rows no_impact] fold_distinct[of no_impact rows]
    by (simp_all add: EstimateExposure_def Let_def sorted_names named_def no_impact_def)
  have above: "\<not> flt (im_Worst s) (mp_SLATarget m)" if "m \<in> set rows" for m
  proof
    assume l: "flt (im_Worst s) (mp_SLATarget m)"
    have "nn (im_Worst s)" using w[OF w0] by blast
    then have "flt (Zero False) (mp_SLATarget m)" using l by (cases "im_Worst s"; cases "mp_SLATarget m") (auto simp: nn_def f_val_def)
    then have "fle (mp_SLATarget m) (im_Worst s)" using w[OF w0] that by blast
    then show False using l not_flt_fle fle_not_NaN by blast
  qed
  have worst: "case xp_WorstSLATarget (EstimateExposure rows) of
       None \<Rightarrow> \<not> list_ex (\<lambda>m. flt (Zero False) (mp_SLATarget m)) rows
     | Some w \<Rightarrow> w \<in> mp_SLATarget ` set rows \<and> flt (Zero False) w \<and> \<not> list_ex (\<lambda>m. flt w (mp_SLATarget m)) rows"
  proof (cases "im_HaveSLA s")
    case True
    then have p: "flt (Zero False) (im_Worst s)" using have_iff by simp
    then have "im_Worst s \<in> mp_SLATarget ` set rows" using mem by (auto simp: f_val_def)
    then show ?thesis using True p above by (simp add: EstimateExposure_def Let_def s_def[symmetric] list_ex_iff)
  next
    case False
    have "\<not> flt (Zero False) (mp_SLATarget m)" if "m \<in> set rows" for m
    proof
      assume l: "flt (Zero False) (mp_SLATarget m)"
      then have "fle (mp_SLATarget m) (im_Worst s)" using w[OF w0] that by blast
      then have "flt (Zero False) (im_Worst s)" using l by (cases "mp_SLATarget m"; cases "im_Worst s") (auto simp: f_val_def)
      then show False using False have_iff by simp
    qed
    then show ?thesis using False by (simp add: EstimateExposure_def Let_def s_def[symmetric] list_ex_iff)
  qed
  show ?thesis using low le names worst by (simp add: e nn_def)
qed

lemma high_of: "rr_High (xp_RevenueAtRisk (EstimateExposure rows)) = round2 (im_Total (fold add_mapping rows no_impact))"
  "xp_WorstSLATarget (EstimateExposure rows) = (if im_HaveSLA (fold add_mapping rows no_impact) then Some (im_Worst (fold add_mapping rows no_impact)) else None)"
  by (simp_all add: EstimateExposure_def Let_def)

definition demo_mappings :: "Mapping list" where
  "demo_mappings =
     [\<lparr>mp_ID = ''1'', mp_Service = ''pay'', mp_Customer = ''zeta'', mp_PlanTier = ''pro'', mp_MonthlyRevenue = Fin 1200, mp_SLATarget = lit (999 / 10)\<rparr>,
      \<lparr>mp_ID = ''2'', mp_Service = ''pay'', mp_Customer = ''acme'', mp_PlanTier = ''pro'', mp_MonthlyRevenue = Fin 800, mp_SLATarget = Fin 99\<rparr>]"

theorem exposure_range_witness:
  "fle (rr_Low (xp_RevenueAtRisk (EstimateExposure demo_mappings))) (Fin 2000) \<and>
   xp_AffectedCustomers (EstimateExposure demo_mappings) = [''acme'', ''zeta''] \<and>
   xp_WorstSLATarget (EstimateExposure demo_mappings) = Some (lit (999 / 10))"
proof -
  have f: "list_all (\<lambda>m. is_finite (mp_SLATarget m)) demo_mappings" by code_simp
  have h: "rr_High (xp_RevenueAtRisk (EstimateExposure demo_mappings)) = Fin 2000" unfolding high_of by code_simp
  then have "is_finite (rr_High (xp_RevenueAtRisk (EstimateExposure demo_mappings)))" by (simp add: is_finite_def)
  note r = exposure_range[OF f this]
  have "sorted_list_of_set (mp_Customer ` set demo_mappings - {[]}) = [''acme'', ''zeta'']" by code_simp
  moreover have "xp_WorstSLATarget (EstimateExposure demo_mappings) = Some (lit (999 / 10))" unfolding high_of by code_simp
  ultimately show ?thesis using r h by simp
qed

text \<open>The revenue is added in the order of the rows, and the sum of \<open>float64\<close> values depends on it.\<close>

definition rev_mapping :: "f64 \<Rightarrow> Mapping" where
  "rev_mapping r = \<lparr>mp_ID = [], mp_Service = [], mp_Customer = [], mp_PlanTier = [], mp_MonthlyRevenue = r, mp_SLATarget = Zero False\<rparr>"

lemma exposure_order_matters:
  "rr_High (xp_RevenueAtRisk (EstimateExposure (map rev_mapping [Fin (2 ^ 53), Fin 1, Fin 1]))) \<noteq>
   rr_High (xp_RevenueAtRisk (EstimateExposure (map rev_mapping [Fin 1, Fin 1, Fin (2 ^ 53)])))"
  unfolding high_of by code_simp

end
