(* ===== verification/Ttfiq.thy ===== *)
theory Ttfiq
  imports Go_Sort Float_Int
begin

text \<open>
  Time to first independent query, \<open>domains/ttfiq/ttfiq.go\<close>: the delay from a tenant's first key to its first query,
  and the median delay over the keys. Instants are nanoseconds; \<open>sort.Slice\<close> on instants leaves nothing open, since
  equal instants are equal values.
\<close>

section \<open>The computation\<close>

record Summary =
  ts_OnboardedAt :: "int option"
  ts_FirstQueryAt :: "int option"
  ts_TTFIQSeconds :: "f64 option"
  ts_CohortCount :: int
  ts_MedianTTFIQSeconds :: "f64 option"

definition sortedCopy :: "int list \<Rightarrow> int list" where
  "sortedCopy ts = SliceStable (<) ts"

definition firstAtOrAfter :: "int list \<Rightarrow> int \<Rightarrow> int option" where
  "firstAtOrAfter ts t =
     (let i = Search (length ts) (\<lambda>i. \<not> ts ! i < t) in if i < length ts then Some (ts ! i) else None)"

definition median :: "f64 list \<Rightarrow> f64 option" where
  "median vals =
     (if length vals = 0 then None
      else let s = SliceStable flt vals; n = length s in
        if n mod 2 = 1 then Some (s ! (n div 2))
        else Some (fdiv (fadd (s ! (n div 2 - 1)) (s ! (n div 2))) (Fin 2)))"

definition cohort_delays :: "int list \<Rightarrow> int list \<Rightarrow> f64 list" where
  "cohort_delays qs ks = List.map_filter (\<lambda>k. map_option (\<lambda>q. Seconds (time_Sub q k)) (firstAtOrAfter qs k)) ks"

definition Compute :: "int list \<Rightarrow> int list \<Rightarrow> Summary" where
  "Compute keyTimes queryTimes =
     (let ks = sortedCopy keyTimes; qs = sortedCopy queryTimes;
          onboarded = (case ks of [] \<Rightarrow> None | t # _ \<Rightarrow> Some t);
          queried = (case qs of [] \<Rightarrow> None | t # _ \<Rightarrow> Some t);
          ttfiq = (case (onboarded, queried) of
             (Some o1, Some q1) \<Rightarrow> (let d = Seconds (time_Sub q1 o1) in if fle (Zero False) d then Some d else None)
           | _ \<Rightarrow> None)
      in \<lparr>ts_OnboardedAt = onboarded, ts_FirstQueryAt = queried, ts_TTFIQSeconds = ttfiq, ts_CohortCount = int (length ks),
          ts_MedianTTFIQSeconds = (if length ks > 1 then median (cohort_delays qs ks) else None)\<rparr>)"

section \<open>Order and search\<close>

interpretation instants: comparison "(<) :: int \<Rightarrow> int \<Rightarrow> bool" UNIV
  by unfold_locales auto

lemma sortedCopy_sort: "sortedCopy ts = sort ts"
proof -
  have "sorted_wrt (\<lambda>a b. \<not> b < a) (sortedCopy ts)" unfolding sortedCopy_def by (rule instants.sorted_SliceStable) simp
  then have "sorted (sortedCopy ts)" by (rule sorted_wrt_mono_rel[rotated]) simp
  then show ?thesis by (intro properties_for_sort[symmetric]) (simp_all add: sortedCopy_def)
qed

lemma firstAtOrAfter_find:
  assumes "sorted ts" shows "firstAtOrAfter ts t = find (\<lambda>x. t \<le> x) ts"
proof -
  define i where "i = Search (length ts) (\<lambda>i. \<not> ts ! i < t)"
  have m: "\<not> ts ! b < t" if "a \<le> b" "b < length ts" "\<not> ts ! a < t" for a b using assms that sorted_nth_mono[of ts a b] by simp
  let ?f = "\<lambda>i. \<not> ts ! i < t"
  have low: "ts ! k < t" if "k < i" for k
  proof -
    have "\<not> ?f k" by (rule Search_first(2)[of "length ts" ?f]) (use m that in \<open>simp_all add: i_def\<close>)
    then show ?thesis by simp
  qed
  have le: "i \<le> length ts" unfolding i_def by (rule Search_first(1)) (use m in simp)
  have hi: "t \<le> ts ! i" if "i < length ts"
  proof -
    have "?f i" unfolding i_def by (rule Search_first(3)) (use m that in \<open>simp_all add: i_def\<close>)
    then show ?thesis by simp
  qed
  show ?thesis
  proof (cases "i < length ts")
    case True
    note hi = hi[OF True]
    have "find (\<lambda>x. t \<le> x) ts = Some (ts ! i)" unfolding find_Some_iff using True hi low by (intro exI[of _ i]) (auto simp: not_le)
    then show ?thesis using True by (simp add: firstAtOrAfter_def i_def Let_def)
  next
    case False
    then have "i = length ts" using le by simp
    then have "find (\<lambda>x. t \<le> x) ts = None" unfolding find_None_iff in_set_conv_nth using low by (auto simp: not_le)
    then show ?thesis using False by (simp add: firstAtOrAfter_def i_def Let_def)
  qed
qed

lemma seconds_neg:
  assumes "d < 0" "- (2 ^ 63) \<le> d" shows "\<not> fle (Zero False) (Seconds d)"
proof -
  define q r where "q = (- d) div 10 ^ 9" and "r = (- d) mod 10 ^ 9"
  have "q \<le> 2 ^ 63 div 10 ^ 9" unfolding q_def using assms(2) by (intro zdiv_mono1) simp_all
  then have qr: "0 \<le> q" "q < 2 ^ 53" "0 \<le> r" "r < 10 ^ 9" "- d = q * 10 ^ 9 + r"
    using assms(1) by (simp_all add: q_def r_def pos_imp_zdiv_nonneg_iff)
  define x where "x = fdiv (of_int64 (- r)) (of_int64 (10 ^ 9))"
  have "d - (- q) * 10 ^ 9 = - r" using qr(5) by linarith
  then have S: "Seconds d = fadd (of_int64 (- q)) x" using assms(1) unfolding Seconds_def duration_in_def x_def by (simp add: quot0_def q_def)
  have i: "ival (of_int64 (- q)) (- q)" "ival (of_int64 (- r)) (- r)" "ival (of_int64 (10 ^ 9)) (10 ^ 9)" using qr by (auto intro!: ival_of_int64)
  then have e: "f_eqv x (round64 (of_int (- r) / of_int (10 ^ 9)))" unfolding x_def using fdiv_eqv[of "of_int64 (- r)" "of_int64 (10 ^ 9)"] by (simp add: ival_def)
  have "- 1 \<le> (of_int (- r) / of_int (10 ^ 9) :: rat)" "(of_int (- r) / of_int (10 ^ 9) :: rat) \<le> 0" using qr(3,4) by (simp_all add: field_simps)
  note b = eqv_between[OF e this]
  have "is_finite (round64 (- 1))" "is_finite (round64 0)" "f_val (round64 0) = 0" by code_simp+
  with fbetween_fin[OF b] have x: "is_finite x" "f_val x \<le> 0" by simp_all
  have s: "f_eqv (Seconds d) (round64 (of_int (- q) + f_val x))" unfolding S using fadd_eqv[of "of_int64 (- q)" x] i(1) x(1) by (simp add: ival_def)
  have low: "fle (Seconds d) (round64 c)" if "of_int (- q) + f_val x \<le> c" for c
    using s round64_mono[OF that] fle_trans unfolding f_eqv_def by blast
  show ?thesis
  proof (cases "q = 0")
    case True
    then have "1 \<le> r" using qr assms(1) by simp
    then have "(of_int (- r) / of_int (10 ^ 9) :: rat) \<le> - 1 / 10 ^ 9" by (simp add: field_simps)
    then have "fle x (round64 (- 1 / 10 ^ 9))" using e round64_mono fle_trans unfolding f_eqv_def by blast
    moreover have "is_finite (round64 (- 1 / 10 ^ 9))" by code_simp
    ultimately have "f_val x \<le> f_val (round64 (- 1 / 10 ^ 9))" using x(1) by (intro fle_val)
    then have "fle (Seconds d) (round64 (f_val (round64 (- 1 / 10 ^ 9))))" using True by (intro low) simp
    moreover have "\<not> fle (Zero False) (round64 (f_val (round64 (- 1 / 10 ^ 9))))" by code_simp
    ultimately show ?thesis using fle_trans by blast
  next
    case False
    then have "1 \<le> q" using qr(1) by simp
    then have "(of_int (- q) :: rat) \<le> - 1" by simp
    then have "fle (Seconds d) (round64 (- 1))" using x(2) by (intro low) linarith
    moreover have "\<not> fle (Zero False) (round64 (- 1))" by code_simp
    ultimately show ?thesis using fle_trans by blast
  qed
qed

lemma seconds_nonneg_iff: "in_int64 d \<Longrightarrow> fle (Zero False) (Seconds d) \<longleftrightarrow> 0 \<le> d"
proof (cases "0 \<le> d")
  case True
  assume "in_int64 d"
  then have "d < 2 ^ 63" by (simp add: in_int64_def int64_max_def)
  moreover from this have "d div 10 ^ 9 + 1 < 2 ^ 53" using zdiv_mono1[of d "2 ^ 63" "10 ^ 9"] by simp
  ultimately have "is_finite (Seconds d)" "0 \<le> f_val (Seconds d)" using duration_bound[of "10 ^ 9" d] True unfolding Seconds_def by simp_all
  then show ?thesis using True by (cases "Seconds d") (auto simp: is_finite_def f_val_def)
next
  case False
  assume "in_int64 d"
  then show ?thesis using seconds_neg[of d] False by (simp add: in_int64_def)
qed

section \<open>The summary without the sorting\<close>

lemma find_sorted:
  assumes "sorted xs" shows "find (\<lambda>x. (k :: int) \<le> x) xs = (if \<exists>x \<in> set xs. k \<le> x then Some (Min {x \<in> set xs. k \<le> x}) else None)"
  using assms
proof (induction xs)
  case (Cons x xs)
  show ?case
  proof (cases "k \<le> x")
    case True
    then have "Min {y \<in> set (x # xs). k \<le> y} = x" using Cons.prems by (intro Min_eqI) auto
    then show ?thesis using True by auto
  next
    case False
    then have "{y \<in> set (x # xs). k \<le> y} = {y \<in> set xs. k \<le> y}" by auto
    then show ?thesis using Cons False by auto
  qed
qed simp

definition earliest :: "int list \<Rightarrow> int option" where
  "earliest ts = (if ts = [] then None else Some (Min (set ts)))"

lemma sort_earliest: "(case sort ts of [] \<Rightarrow> None | t # _ \<Rightarrow> Some t) = earliest ts"
proof (cases "sort ts")
  case Nil
  then have "ts = []" by (metis length_0_conv length_sort)
  then show ?thesis by (simp add: earliest_def)
next
  case (Cons x xs)
  then have "sorted (x # xs)" "set (x # xs) = set ts" by (metis sorted_sort, metis set_sort)
  moreover from this have "Min (set ts) = x" by (intro Min_eqI) auto
  ultimately show ?thesis using Cons by (auto simp: earliest_def)
qed

lemma sub_sign: "in_int64 (time_Sub q k)" "0 \<le> time_Sub q k \<longleftrightarrow> k \<le> q"
  by (auto simp: time_Sub_def in_int64_def int64_min_def int64_max_def)

lemma cohort_delays_sorted:
  "cohort_delays (sort qs) ks = map (\<lambda>k. Seconds (time_Sub (Min {q \<in> set qs. k \<le> q}) k)) (filter (\<lambda>k. \<exists>q \<in> set qs. k \<le> q) ks)"
  by (induction ks) (auto simp: cohort_delays_def List.map_filter_simps firstAtOrAfter_find find_sorted)

text \<open>
  The summary does not depend on the order of the keys or the queries: the tenant is onboarded at its earliest
  key, the first query is the earliest one, the delay is reported exactly when the query is not before the key, and
  the median is over the keys that have a query at or after them, each with the delay to the first such query. The
  bisection finds that query, and a negative delay is never reported.
\<close>

theorem Compute_spec:
  "Compute keys queries =
    \<lparr>ts_OnboardedAt = earliest keys, ts_FirstQueryAt = earliest queries,
     ts_TTFIQSeconds = (case (earliest keys, earliest queries) of
        (Some k, Some q) \<Rightarrow> if k \<le> q then Some (Seconds (time_Sub q k)) else None | _ \<Rightarrow> None),
     ts_CohortCount = int (length keys),
     ts_MedianTTFIQSeconds = (if length keys > 1
        then median (map (\<lambda>k. Seconds (time_Sub (Min {q \<in> set queries. k \<le> q}) k)) (filter (\<lambda>k. \<exists>q \<in> set queries. k \<le> q) (sort keys)))
        else None)\<rparr>"
  by (simp add: Compute_def sortedCopy_sort sort_earliest Let_def seconds_nonneg_iff[OF sub_sign(1)] sub_sign(2) cohort_delays_sorted split: option.split)

end
