(* ===== verification/Ops_Tables.thy ===== *)
theory Ops_Tables
  imports Tenant_Store Go_Parse Bus_Context Ttfiq "HOL-Library.Product_Lexorder"
begin

text \<open>
  The operator handlers over Postgres: incidents and their feedback (\<open>incidents.go\<close>, \<open>incident_feedback.go\<close>,
  \<open>rca_feedback.go\<close>), the business context (\<open>buscontext.go\<close>), the remap program (\<open>transforms.go\<close>), the delivery locale
  (\<open>notify_prefs.go\<close>, \<open>domains/notify/notify.go\<close>), the audit trail (\<open>audit_admin.go\<close>) and the adoption analytic
  (\<open>ttfiq.go\<close>). As in \<open>Admin_Tables\<close> a statement fails when the request says so, and a body that does not decode is
  \<open>None\<close>. \<open>oe_numeric s\<close> is what a \<open>NUMERIC\<close> column of scale \<open>s\<close> keeps of a value, \<open>oe_rank\<close> the rank of a text in the
  collation of the database, \<open>oe_ilike p\<close> the match of an \<open>ILIKE\<close> pattern.
\<close>

section \<open>Locales\<close>

definition DefaultLocale :: string where "DefaultLocale = ''en''"

definition SupportedLocales :: "string list" where
  "SupportedLocales = [''en'', ''hi'', ''bn'', ''ta'', ''te'', ''mr'', ''gu'', ''kn'', ''ml'', ''pa'', ''or'', ''as'', ''ur'']"

definition normalize :: "string \<Rightarrow> string" where
  "normalize locale = takeWhile (\<lambda>c. c \<notin> {CHR ''-'', CHR ''_''}) (ToLower (TrimSpace locale))"

definition IsSupported :: "string \<Rightarrow> bool" where
  "IsSupported locale \<longleftrightarrow> normalize locale \<in> set SupportedLocales"

definition ResolveLocale :: "string \<Rightarrow> string \<Rightarrow> string" where
  "ResolveLocale tenantDefault recipientPref =
     (if normalize recipientPref \<in> set SupportedLocales then normalize recipientPref
      else if normalize tenantDefault \<in> set SupportedLocales then normalize tenantDefault
      else DefaultLocale)"

section \<open>The client of the notification service\<close>

record notify_client =
  nc_url :: string
  nc_apiKey :: string

record notify_call =
  ncl_URL :: string
  ncl_Key :: string
  ncl_Recipient :: string
  ncl_Template :: string
  ncl_Locale :: string
  ncl_Variables :: string

definition notify_New :: "string \<Rightarrow> string \<Rightarrow> notify_client" where
  "notify_New url key = \<lparr>nc_url = TrimRight_slash url, nc_apiKey = key\<rparr>"

definition Configured :: "notify_client \<Rightarrow> bool" where
  "Configured c \<longleftrightarrow> nc_url c \<noteq> [] \<and> nc_apiKey c \<noteq> []"

text \<open>
  One delivery; \<open>post\<close> gives the status of the call or its error, and the second result is the calls made. The
  variables are the text of their JSON, or the error of marshalling them.
\<close>

definition Trigger :: "(notify_call \<Rightarrow> (goerror, int) outcome) \<Rightarrow> notify_client \<Rightarrow> string \<Rightarrow> string \<Rightarrow> string \<Rightarrow> (goerror, string) outcome \<Rightarrow> (goerror, unit) outcome \<times> notify_call list" where
  "Trigger post c template recipient locale variables =
     (if \<not> Configured c then (Err (Sentinel ''ErrNotConfigured''), [])
      else case variables of Err e \<Rightarrow> (Err e, []) | Panic \<Rightarrow> (Panic, [])
      | Ok vs \<Rightarrow>
          let call = \<lparr>ncl_URL = nc_url c @ ''/v1/channels/in-app'', ncl_Key = nc_apiKey c, ncl_Recipient = recipient, ncl_Template = template, ncl_Locale = locale, ncl_Variables = vs\<rparr>
          in (bindO (post call) (\<lambda>status. if quot0 status 100 \<noteq> 2 then Err (Errorf ''qeet notify non-2xx %d'' [show_int status]) else Ok ()), [call]))"

section \<open>Tables\<close>

record incident =
  ic_ID :: string
  ic_Title :: string
  ic_Service :: "string option"
  ic_Severity :: string
  ic_Confidence :: f64
  ic_Status :: string
  ic_SignalCount :: int
  ic_DeployID :: "string option"
  ic_CorrelatedRules :: string
  ic_Paged :: bool
  ic_FirstSeen :: int
  ic_LastSeen :: int
  ic_ResolvedAt :: "int option"

record incident_row = incident +
  ic_TenantID :: string
  ic_Fingerprint :: string

record feedback_row =
  fb_ID :: string
  fb_TenantID :: string
  fb_IncidentID :: string
  fb_Fingerprint :: string
  fb_Service :: string
  fb_Verdict :: string
  fb_Note :: string

record rcaFeedbackRequest =
  rf_IncidentID :: string
  rf_CandidateSubject :: string
  rf_CandidateType :: string
  rf_WasRootCause :: "bool option"
  rf_Note :: string

record rca_label =
  rl_ID :: string
  rl_TenantID :: string
  rl_IncidentID :: "string option"
  rl_Subject :: string
  rl_Type :: string
  rl_WasRootCause :: bool
  rl_Note :: string

record context_row =
  cx_ID :: string
  cx_TenantID :: string
  cx_Service :: string
  cx_Customer :: "string option"
  cx_PlanTier :: "string option"
  cx_MonthlyRevenue :: "f64 option"
  cx_SLATarget :: "f64 option"
  cx_Owner :: "string option"
  cx_Notes :: "string option"
  cx_CreatedAt :: int
  cx_UpdatedAt :: int

text \<open>\<open>buscontext.Row\<close>, the row with its NULL columns replaced, and \<open>buscontext.Input\<close>.\<close>

record ContextRow =
  cr_ID :: string
  cr_TenantID :: string
  cr_Service :: string
  cr_Customer :: string
  cr_PlanTier :: string
  cr_MonthlyRevenue :: f64
  cr_SLATarget :: f64
  cr_Owner :: string
  cr_Notes :: string
  cr_CreatedAt :: int
  cr_UpdatedAt :: int

record ContextInput =
  ci_Service :: string
  ci_Customer :: string
  ci_PlanTier :: string
  ci_MonthlyRevenue :: f64
  ci_SLATarget :: f64
  ci_Owner :: string
  ci_Notes :: string

record transform_row =
  tr_Program :: string
  tr_Version :: int
  tr_Enabled :: bool

record locale_row =
  lr_Locale :: string
  lr_UpdatedAt :: int

record auditEntry =
  au_ID :: int
  au_TenantID :: string
  au_Actor :: "string option"
  au_Action :: string
  au_Resource :: "string option"
  au_ResourceID :: "string option"
  au_Status :: string
  au_IP :: "string option"
  au_UserAgent :: "string option"
  au_CreatedAt :: int

text \<open>The tables; a table with one row per tenant is a map, of the keys only the tenant and the creation matter here.\<close>

record ops_store =
  os_incidents :: "incident_row list"
  os_feedback :: "feedback_row list"
  os_labels :: "rca_label list"
  os_context :: "context_row list"
  os_transforms :: "string \<Rightarrow> transform_row option"
  os_locales :: "string \<Rightarrow> locale_row option"
  os_audit :: "auditEntry list"
  os_keys :: "(string \<times> int) list"

record ops_env =
  oe_ident :: identity
  oe_fault :: "nat \<Rightarrow> fault"
  oe_newid :: string
  oe_now :: int
  oe_numeric :: "nat \<Rightarrow> f64 \<Rightarrow> string + f64"
  oe_rank :: "string \<Rightarrow> int"
  oe_ilike :: "string \<Rightarrow> string \<Rightarrow> bool"

datatype ops_answer =
    OError int string
  | ONoContent
  | OIncidents nat "incident list"
  | OFeedback string string string
  | OLabel string bool
  | OContext ContextRow
  | OContexts nat "ContextRow list"
  | OExposure "string option" string nat "ContextRow list" Exposure
  | OTransform string int bool
  | OTransformSaved int bool
  | OLocale string "string list" int
  | OAudit "auditEntry list" int
  | OAdoption Summary string "string option"

abbreviation oe_tenant :: "ops_env \<Rightarrow> string" where
  "oe_tenant env \<equiv> ctxTenant (oe_ident env)"

definition may_read :: "ops_env \<Rightarrow> bool" where
  "may_read env \<longleftrightarrow> HasScope (oe_ident env) [''logs:read'', ''logs:query'']"

section \<open>Incidents and feedback\<close>

definition ListIncidents :: "ops_env \<Rightarrow> string \<Rightarrow> ops_store \<Rightarrow> ops_answer \<times> ops_store" where
  "ListIncidents env status st =
     (if \<not> may_read env then (OError 403 ''requires logs:read or logs:query scope'', st)
      else case oe_fault env 0 of Some e \<Rightarrow> (OError 500 e, st)
      | None \<Rightarrow>
          let mine = owned ic_TenantID (oe_tenant env) (os_incidents st);
              rows = (if status = ''open'' \<or> status = ''resolved'' then filter (\<lambda>i. ic_Status i = status) mine else mine);
              out = map incident.truncate (take 200 (order_desc ic_LastSeen rows))
          in (OIncidents (length out) out, st))"

definition tenant_incident :: "ops_env \<Rightarrow> string \<Rightarrow> ops_store \<Rightarrow> incident_row option" where
  "tenant_incident env i st = find (\<lambda>r. ic_ID r = i \<and> ic_TenantID r = oe_tenant env) (os_incidents st)"

text \<open>The body is the verdict and the note.\<close>

definition SubmitIncidentFeedback :: "ops_env \<Rightarrow> string \<Rightarrow> (string \<times> string) option \<Rightarrow> ops_store \<Rightarrow> ops_answer \<times> ops_store" where
  "SubmitIncidentFeedback env i body st =
     (case body of
        None \<Rightarrow> (OError 400 ''invalid JSON body'', st)
      | Some (verdict, note) \<Rightarrow>
          if verdict \<noteq> ''actionable'' \<and> verdict \<noteq> ''noise'' then (OError 400 (''verdict must be '' @ [CHR 0x27] @ ''actionable'' @ [CHR 0x27] @ '' or '' @ [CHR 0x27] @ ''noise'' @ [CHR 0x27]), st)
          else case (if oe_fault env 0 = None then tenant_incident env i st else None) of
            None \<Rightarrow> (OError 404 ''incident not found'', st)
          | Some r \<Rightarrow>
              (case oe_fault env 1 of Some e \<Rightarrow> (OError 500 e, st)
               | None \<Rightarrow> (OFeedback (oe_newid env) i verdict,
                   st\<lparr>os_feedback := os_feedback st @ [\<lparr>fb_ID = oe_newid env, fb_TenantID = oe_tenant env, fb_IncidentID = i, fb_Fingerprint = ic_Fingerprint r,
                     fb_Service = (case ic_Service r of Some s \<Rightarrow> s | None \<Rightarrow> []), fb_Verdict = verdict, fb_Note = note\<rparr>]\<rparr>)))"

definition RCAFeedback :: "ops_env \<Rightarrow> rcaFeedbackRequest option \<Rightarrow> ops_store \<Rightarrow> ops_answer \<times> ops_store" where
  "RCAFeedback env body st =
     (case body of
        None \<Rightarrow> (OError 400 ''invalid JSON body'', st)
      | Some b \<Rightarrow>
          if rf_CandidateSubject b = [] then (OError 400 ''candidate_subject is required'', st)
          else case rf_WasRootCause b of
            None \<Rightarrow> (OError 400 ''was_root_cause is required'', st)
          | Some w \<Rightarrow>
              (case oe_fault env 0 of Some e \<Rightarrow> (OError 500 e, st)
               | None \<Rightarrow> (OLabel (oe_newid env) w,
                   st\<lparr>os_labels := os_labels st @ [\<lparr>rl_ID = oe_newid env, rl_TenantID = oe_tenant env,
                     rl_IncidentID = (if rf_IncidentID b \<noteq> [] then Some (rf_IncidentID b) else None), rl_Subject = rf_CandidateSubject b,
                     rl_Type = rf_CandidateType b, rl_WasRootCause = w, rl_Note = rf_Note b\<rparr>]\<rparr>)))"

section \<open>The business context\<close>

definition textOrNil :: "string \<Rightarrow> string option" where
  "textOrNil s = (if s = [] then None else Some s)"

definition coalesce :: "'a \<Rightarrow> 'a option \<Rightarrow> 'a" where
  "coalesce d v = (case v of Some x \<Rightarrow> x | None \<Rightarrow> d)"

definition scan_context :: "context_row \<Rightarrow> ContextRow" where
  "scan_context r =
     \<lparr>cr_ID = cx_ID r, cr_TenantID = cx_TenantID r, cr_Service = cx_Service r, cr_Customer = coalesce [] (cx_Customer r),
      cr_PlanTier = coalesce [] (cx_PlanTier r), cr_MonthlyRevenue = coalesce (Zero False) (cx_MonthlyRevenue r),
      cr_SLATarget = coalesce (Zero False) (cx_SLATarget r), cr_Owner = coalesce [] (cx_Owner r), cr_Notes = coalesce [] (cx_Notes r),
      cr_CreatedAt = cx_CreatedAt r, cr_UpdatedAt = cx_UpdatedAt r\<rparr>"

definition ToMappings :: "ContextRow list \<Rightarrow> Mapping list" where
  "ToMappings rows = map (\<lambda>r. \<lparr>mp_ID = cr_ID r, mp_Service = cr_Service r, mp_Customer = cr_Customer r, mp_PlanTier = cr_PlanTier r,
     mp_MonthlyRevenue = cr_MonthlyRevenue r, mp_SLATarget = cr_SLATarget r\<rparr>) rows"

text \<open>\<open>monthly_revenue DESC\<close> puts the rows without a revenue first, \<open>customer\<close> those without a customer last.\<close>

definition revenue_key :: "context_row \<Rightarrow> int \<times> rat" where
  "revenue_key r = (case cx_MonthlyRevenue r of None \<Rightarrow> (0, 0) | Some x \<Rightarrow> (1, - f_val x))"

definition customer_key :: "ops_env \<Rightarrow> context_row \<Rightarrow> int \<times> int" where
  "customer_key env r = (case cx_Customer r of None \<Rightarrow> (1, 0) | Some c \<Rightarrow> (0, oe_rank env c))"

definition LoadByService :: "ops_env \<Rightarrow> nat \<Rightarrow> string \<Rightarrow> ops_store \<Rightarrow> string + ContextRow list" where
  "LoadByService env n service st =
     (case oe_fault env n of Some e \<Rightarrow> Inl e
      | None \<Rightarrow> Inr (map scan_context (sort_key (\<lambda>r. (revenue_key r, customer_key env r))
          (filter (\<lambda>r. cx_Service r = service) (owned cx_TenantID (oe_tenant env) (os_context st))))))"

definition LoadAll :: "ops_env \<Rightarrow> ops_store \<Rightarrow> string + ContextRow list" where
  "LoadAll env st =
     (case oe_fault env 0 of Some e \<Rightarrow> Inl e
      | None \<Rightarrow> Inr (map scan_context (sort_key (\<lambda>r. (oe_rank env (cx_Service r), revenue_key r)) (owned cx_TenantID (oe_tenant env) (os_context st)))))"

definition context_Create :: "ops_env \<Rightarrow> ContextInput \<Rightarrow> ops_store \<Rightarrow> (string + ContextRow) \<times> ops_store" where
  "context_Create env b st =
     (let sla = (if flt (Zero False) (ci_SLATarget b) then map_sum id Some (oe_numeric env 3 (ci_SLATarget b)) else Inr None) in
      case oe_fault env 0 of Some e \<Rightarrow> (Inl e, st)
      | None \<Rightarrow> case oe_numeric env 2 (ci_MonthlyRevenue b) of Inl e \<Rightarrow> (Inl e, st)
      | Inr revenue \<Rightarrow> case sla of Inl e \<Rightarrow> (Inl e, st)
      | Inr target \<Rightarrow>
          let row = \<lparr>cx_ID = oe_newid env, cx_TenantID = oe_tenant env, cx_Service = ci_Service b, cx_Customer = textOrNil (ci_Customer b),
               cx_PlanTier = textOrNil (ci_PlanTier b), cx_MonthlyRevenue = Some revenue, cx_SLATarget = target, cx_Owner = textOrNil (ci_Owner b),
               cx_Notes = textOrNil (ci_Notes b), cx_CreatedAt = oe_now env, cx_UpdatedAt = oe_now env\<rparr>
          in (Inr (scan_context row), st\<lparr>os_context := os_context st @ [row]\<rparr>))"

definition BusContextCreate :: "ops_env \<Rightarrow> ContextInput option \<Rightarrow> ops_store \<Rightarrow> ops_answer \<times> ops_store" where
  "BusContextCreate env body st =
     (case body of
        None \<Rightarrow> (OError 400 ''invalid JSON body'', st)
      | Some b \<Rightarrow>
          if ci_Service b = [] then (OError 400 ''service is required'', st)
          else case context_Create env b st of (Inl e, st') \<Rightarrow> (OError 500 e, st') | (Inr row, st') \<Rightarrow> (OContext row, st'))"

definition BusContextList :: "ops_env \<Rightarrow> ops_store \<Rightarrow> ops_answer \<times> ops_store" where
  "BusContextList env st = (case LoadAll env st of Inl e \<Rightarrow> (OError 500 e, st) | Inr rows \<Rightarrow> (OContexts (length rows) rows, st))"

definition BusContextDelete :: "ops_env \<Rightarrow> string \<Rightarrow> ops_store \<Rightarrow> ops_answer \<times> ops_store" where
  "BusContextDelete env i st =
     (case oe_fault env 0 of Some e \<Rightarrow> (OError 500 e, st)
      | None \<Rightarrow>
          if \<not> list_ex (\<lambda>r. cx_ID r = i \<and> cx_TenantID r = oe_tenant env) (os_context st) then (OError 404 ''business-context mapping not found'', st)
          else (ONoContent, st\<lparr>os_context := delete_where (\<lambda>r. cx_ID r = i \<and> cx_TenantID r = oe_tenant env) (os_context st)\<rparr>))"

definition BusContextByService :: "ops_env \<Rightarrow> string \<Rightarrow> ops_store \<Rightarrow> ops_answer \<times> ops_store" where
  "BusContextByService env service st =
     (if \<not> may_read env then (OError 403 ''requires logs:read or logs:query scope'', st)
      else if service = [] then (OError 400 ''service query parameter is required'', st)
      else case LoadByService env 0 service st of
        Inl e \<Rightarrow> (OError 500 e, st)
      | Inr rows \<Rightarrow> (OExposure None service (length rows) rows (EstimateExposure (ToMappings rows)), st))"

definition BusContextForIncident :: "ops_env \<Rightarrow> string \<Rightarrow> ops_store \<Rightarrow> ops_answer \<times> ops_store" where
  "BusContextForIncident env i st =
     (if \<not> may_read env then (OError 403 ''requires logs:read or logs:query scope'', st)
      else case oe_fault env 0 of Some e \<Rightarrow> (OError 500 e, st)
      | None \<Rightarrow> case tenant_incident env i st of
        None \<Rightarrow> (OError 404 ''incident not found'', st)
      | Some r \<Rightarrow>
          let svc = coalesce [] (ic_Service r) in
          (case LoadByService env 1 svc st of
             Inl e \<Rightarrow> (OError 500 e, st)
           | Inr rows \<Rightarrow> (OExposure (Some i) svc (length rows) rows (EstimateExposure (ToMappings rows)), st)))"

section \<open>The remap program\<close>

definition GetTransform :: "ops_env \<Rightarrow> ops_store \<Rightarrow> ops_answer \<times> ops_store" where
  "GetTransform env st =
     (case oe_fault env 0 of Some e \<Rightarrow> (OError 500 e, st)
      | None \<Rightarrow> case os_transforms st (oe_tenant env) of
        None \<Rightarrow> (OTransform [] 0 False, st)
      | Some r \<Rightarrow> (OTransform (tr_Program r) (tr_Version r) (tr_Enabled r), st))"

text \<open>The body is the program and the flag; the version of a new row is 1.\<close>

definition UpsertTransform :: "ops_env \<Rightarrow> (string \<times> bool option) option \<Rightarrow> ops_store \<Rightarrow> ops_answer \<times> ops_store" where
  "UpsertTransform env body st =
     (case body of
        None \<Rightarrow> (OError 400 ''invalid JSON body'', st)
      | Some (program, flag) \<Rightarrow>
          let enabled = coalesce True flag in
          case oe_fault env 0 of Some e \<Rightarrow> (OError 500 e, st)
          | None \<Rightarrow>
              let v = (case os_transforms st (oe_tenant env) of None \<Rightarrow> 1 | Some r \<Rightarrow> tr_Version r + 1)
              in (OTransformSaved v enabled,
                  st\<lparr>os_transforms := (os_transforms st)(oe_tenant env \<mapsto> \<lparr>tr_Program = program, tr_Version = v, tr_Enabled = enabled\<rparr>)\<rparr>))"

section \<open>The delivery locale\<close>

definition GetNotifyLocale :: "ops_env \<Rightarrow> ops_store \<Rightarrow> ops_answer \<times> ops_store" where
  "GetNotifyLocale env st =
     (case oe_fault env 0 of Some e \<Rightarrow> (OError 500 e, st)
      | None \<Rightarrow> case os_locales st (oe_tenant env) of
        None \<Rightarrow> (OLocale DefaultLocale SupportedLocales (oe_now env), st)
      | Some r \<Rightarrow> (OLocale (lr_Locale r) SupportedLocales (lr_UpdatedAt r), st))"

definition SetNotifyLocale :: "ops_env \<Rightarrow> string option \<Rightarrow> ops_store \<Rightarrow> ops_answer \<times> ops_store" where
  "SetNotifyLocale env body st =
     (case body of
        None \<Rightarrow> (OError 400 ''invalid JSON body'', st)
      | Some locale \<Rightarrow>
          if \<not> IsSupported locale then (OError 422 ''unsupported locale (not in the Qeet Notify catalogue)'', st)
          else case oe_fault env 0 of Some e \<Rightarrow> (OError 500 e, st)
          | None \<Rightarrow> (OLocale locale SupportedLocales (oe_now env),
              st\<lparr>os_locales := (os_locales st)(oe_tenant env \<mapsto> \<lparr>lr_Locale = locale, lr_UpdatedAt = oe_now env\<rparr>)\<rparr>))"

section \<open>The audit trail and the adoption analytic\<close>

definition matches :: "ops_env \<Rightarrow> string \<Rightarrow> string option \<Rightarrow> bool" where
  "matches env part v \<longleftrightarrow> (case v of None \<Rightarrow> False | Some s \<Rightarrow> oe_ilike env (''%'' @ part @ ''%'') s)"

text \<open>An error of the count is ignored and leaves a total of 0.\<close>

definition ListAudit :: "ops_env \<Rightarrow> string \<Rightarrow> string \<Rightarrow> ops_store \<Rightarrow> ops_answer \<times> ops_store" where
  "ListAudit env actor action st =
     (let rows = filter (\<lambda>e. (actor = [] \<or> matches env actor (au_Actor e)) \<and> (action = [] \<or> matches env action (Some (au_Action e))))
            (owned au_TenantID (oe_tenant env) (os_audit st));
          all = (if oe_fault env 0 = None then int (length rows) else 0)
      in case oe_fault env 1 of Some e \<Rightarrow> (OError 500 e, st)
         | None \<Rightarrow> (OAudit (take 200 (order_desc au_CreatedAt rows)) all, st))"

definition ttfiqStatus :: "Summary \<Rightarrow> string" where
  "ttfiqStatus s =
     (if ts_OnboardedAt s = None then ''no onboarding record (no api keys for tenant)''
      else if ts_FirstQueryAt s = None then ''onboarded but no query activity recorded yet''
      else if ts_TTFIQSeconds s = None then ''first query event predates onboarding (anomaly); ttfiq omitted''
      else ''ok'')"

text \<open>\<open>time.Duration.String\<close>: a fraction without its trailing zeros, and hours and minutes when there are any.\<close>

definition frac_text :: "int \<Rightarrow> nat \<Rightarrow> string" where
  "frac_text v prec =
     (let ds = rev (dropWhile (\<lambda>c. c = CHR ''0'') (rev (pad0 prec (show_int (v mod 10 ^ prec))))) in if ds = [] then [] else CHR ''.'' # ds)"

definition Duration_String :: "int \<Rightarrow> string" where
  "Duration_String d =
     (let u = \<bar>d\<bar>;
          body = (if u = 0 then ''0s'' else if u < 1000 then show_int u @ ''ns''
            else if u < 10 ^ 6 then show_int (u div 1000) @ frac_text u 3 @ [CHR 0xC2, CHR 0xB5] @ ''s''
            else if u < 10 ^ 9 then show_int (u div 10 ^ 6) @ frac_text u 6 @ ''ms''
            else let s = u div 10 ^ 9; m = s div 60; h = m div 60; secs = show_int (s mod 60) @ frac_text u 9 @ ''s''
              in if m = 0 then secs else if h = 0 then show_int m @ ''m'' @ secs else show_int h @ ''h'' @ show_int (m mod 60) @ ''m'' @ secs)
      in if d < 0 then CHR ''-'' # body else body)"

lemma duration_texts:
  "Duration_String 5400000000000 = ''1h30m0s''" "Duration_String 1500000000 = ''1.5s''" "Duration_String 61000000007 = ''1m1.000000007s''" "Duration_String 2500000 = ''2.5ms''"
  by code_simp+

definition TTFIQ :: "ops_env \<Rightarrow> (f64 \<Rightarrow> int) \<Rightarrow> ops_store \<Rightarrow> ops_answer \<times> ops_store" where
  "TTFIQ env oob st =
     (if \<not> HasScope (oe_ident env) [''logs:read''] then (OError 403 ''requires logs:read scope'', st)
      else if oe_fault env 0 \<noteq> None then (OError 500 ''failed to read api keys'', st)
      else if oe_fault env 1 \<noteq> None then (OError 500 ''failed to read audit log'', st)
      else let keyTimes = sort (map snd (owned fst (oe_tenant env) (os_keys st)));
               queryTimes = sort (map au_CreatedAt (filter (\<lambda>e. au_Action e \<in> {''query'', ''export'', ''auth-events''}) (owned au_TenantID (oe_tenant env) (os_audit st))));
               s = Compute keyTimes queryTimes
        in (OAdoption s (ttfiqStatus s) (map_option (\<lambda>x. Duration_String (int64_of oob (fmul x (of_int64 (10 ^ 9))))) (ts_TTFIQSeconds s)), st))"

section \<open>Requests\<close>

datatype ops_op =
    OpIncidents string | OpFeedback string "(string \<times> string) option" | OpLabel "rcaFeedbackRequest option"
  | OpContextCreate "ContextInput option" | OpContextList | OpContextDelete string | OpContextService string | OpContextIncident string
  | OpGetTransform | OpPutTransform "(string \<times> bool option) option" | OpGetLocale | OpPutLocale "string option"
  | OpAudit string string | OpAdoption "f64 \<Rightarrow> int"

type_synonym ops_request = "ops_env \<times> ops_op"

definition ops_step :: "ops_request \<Rightarrow> ops_store \<Rightarrow> ops_answer \<times> ops_store" where
  "ops_step r = (case r of (env, op) \<Rightarrow>
     (case op of OpIncidents s \<Rightarrow> ListIncidents env s | OpFeedback i b \<Rightarrow> SubmitIncidentFeedback env i b | OpLabel b \<Rightarrow> RCAFeedback env b
      | OpContextCreate b \<Rightarrow> BusContextCreate env b | OpContextList \<Rightarrow> BusContextList env | OpContextDelete i \<Rightarrow> BusContextDelete env i
      | OpContextService s \<Rightarrow> BusContextByService env s | OpContextIncident i \<Rightarrow> BusContextForIncident env i
      | OpGetTransform \<Rightarrow> GetTransform env | OpPutTransform b \<Rightarrow> UpsertTransform env b | OpGetLocale \<Rightarrow> GetNotifyLocale env
      | OpPutLocale b \<Rightarrow> SetNotifyLocale env b | OpAudit a x \<Rightarrow> ListAudit env a x | OpAdoption oob \<Rightarrow> TTFIQ env oob))"

definition ops_caller :: "ops_request \<Rightarrow> string" where
  "ops_caller r = oe_tenant (fst r)"

section \<open>Tenants\<close>

definition ops_view :: "string \<Rightarrow> ops_store \<Rightarrow>
    (incident_row list \<times> feedback_row list \<times> rca_label list \<times> context_row list) \<times> (transform_row option \<times> locale_row option \<times> auditEntry list \<times> (string \<times> int) list)" where
  "ops_view t st =
     ((owned ic_TenantID t (os_incidents st), owned fb_TenantID t (os_feedback st), owned rl_TenantID t (os_labels st), owned cx_TenantID t (os_context st)),
      (os_transforms st t, os_locales st t, owned au_TenantID t (os_audit st), owned fst t (os_keys st)))"

lemmas ops_defs = ListIncidents_def SubmitIncidentFeedback_def RCAFeedback_def BusContextCreate_def BusContextList_def BusContextDelete_def
  BusContextByService_def BusContextForIncident_def GetTransform_def UpsertTransform_def GetNotifyLocale_def SetNotifyLocale_def ListAudit_def TTFIQ_def
  LoadByService_def LoadAll_def context_Create_def tenant_incident_def Let_def

lemmas ops_split = option.split sum.split prod.split if_splits(1)

interpretation ops: tenant_service ops_step ops_caller ops_view "\<lambda>_. True"
proof (unfold_locales, goal_cases)
  case (2 st r t)
  obtain env op where r: "r = (env, op)" by force
  from 2(2) show ?case
    by (cases op) (auto simp: r ops_caller_def ops_step_def ops_defs ops_view_def tenant_rows split: ops_split)
next
  case (3 st st' r)
  obtain env op where r: "r = (env, op)" by force
  let ?t = "oe_tenant env"
  have v: "owned ic_TenantID ?t (os_incidents st) = owned ic_TenantID ?t (os_incidents st')" "owned fb_TenantID ?t (os_feedback st) = owned fb_TenantID ?t (os_feedback st')"
    "owned rl_TenantID ?t (os_labels st) = owned rl_TenantID ?t (os_labels st')" "owned cx_TenantID ?t (os_context st) = owned cx_TenantID ?t (os_context st')"
    "os_transforms st ?t = os_transforms st' ?t" "os_locales st ?t = os_locales st' ?t" "owned au_TenantID ?t (os_audit st) = owned au_TenantID ?t (os_audit st')"
    "owned fst ?t (os_keys st) = owned fst ?t (os_keys st')"
    using 3(3) by (simp_all add: r ops_caller_def ops_view_def)
  show ?case
    using v by (cases op) (auto simp: r ops_caller_def ops_step_def ops_defs ops_view_def tenant_rows split: ops_split)
qed simp

section \<open>Stored locales\<close>

lemma ResolveLocale_supported: "ResolveLocale d p \<in> set SupportedLocales"
proof -
  have "DefaultLocale \<in> set SupportedLocales" by code_simp
  then show ?thesis by (simp add: ResolveLocale_def)
qed

text \<open>
  A default locale that is accepted is the one a later read returns, and it can be delivered: without a
  recipient's preference the notification carries its language tag, with one it carries a tag of the catalogue.
\<close>

theorem locale_roundtrip:
  assumes "SetNotifyLocale env (Some l) st = (OLocale l' cat t, st')" "oe_tenant env' = oe_tenant env" "oe_fault env' 0 = None"
  shows "GetNotifyLocale env' st' = (OLocale l SupportedLocales (oe_now env), st') \<and>
    ResolveLocale l [] = normalize l \<and> normalize l \<in> set SupportedLocales \<and> ResolveLocale l pref \<in> set SupportedLocales"
proof -
  have s: "IsSupported l" and st: "st' = st\<lparr>os_locales := (os_locales st)(oe_tenant env \<mapsto> \<lparr>lr_Locale = l, lr_UpdatedAt = oe_now env\<rparr>)\<rparr>"
    using assms(1) by (auto simp: SetNotifyLocale_def split: if_splits option.splits)
  have "normalize [] \<notin> set SupportedLocales" by code_simp
  then have "ResolveLocale l [] = normalize l" using s by (simp add: ResolveLocale_def IsSupported_def)
  then show ?thesis using s st assms(2,3) ResolveLocale_supported by (simp add: GetNotifyLocale_def IsSupported_def)
qed

definition ops_demo_env :: "string \<Rightarrow> ops_env" where
  "ops_demo_env t = \<lparr>oe_ident = \<lparr>ctxTenant = t, ctxScopes = [''logs:read'']\<rparr>, oe_fault = (\<lambda>_. None), oe_newid = ''id1'', oe_now = 7,
     oe_numeric = (\<lambda>_. Inr), oe_rank = (\<lambda>_. 0), oe_ilike = (\<lambda>_ _. True)\<rparr>"

definition ops_demo :: ops_store where
  "ops_demo = \<lparr>os_incidents = [], os_feedback = [], os_labels = [], os_context = [], os_transforms = (\<lambda>_. None), os_locales = (\<lambda>_. None), os_audit = [], os_keys = []\<rparr>"

theorem locale_roundtrip_witness:
  "fst (GetNotifyLocale (ops_demo_env ''acme'') (snd (SetNotifyLocale (ops_demo_env ''acme'') (Some ''hi-IN'') ops_demo))) = OLocale ''hi-IN'' SupportedLocales 7 \<and>
   ResolveLocale ''hi-IN'' [] = ''hi''"
proof -
  have "IsSupported ''hi-IN''" by code_simp
  then have "SetNotifyLocale (ops_demo_env ''acme'') (Some ''hi-IN'') ops_demo = (OLocale ''hi-IN'' SupportedLocales 7, snd (SetNotifyLocale (ops_demo_env ''acme'') (Some ''hi-IN'') ops_demo))"
    by (simp add: SetNotifyLocale_def ops_demo_env_def)
  note r = locale_roundtrip[OF this refl, of "[]"]
  have "normalize ''hi-IN'' = ''hi''" by code_simp
  then show ?thesis using r by (simp add: ops_demo_env_def)
qed

end
