(* ===== verification/Live_Match.thy ===== *)
theory Live_Match
  imports LogQL_Isolation Go_Float "HOL-Library.List_Lexorder" "HOL-Library.Char_ord"
begin

text \<open>
  The live-tail filter (\<open>domains/query/matcher.go\<close>): the evaluation of a WHERE expression on one
  decoded record. A record is a map from names to decoded JSON values. The decoders and printers
  of Go's library the filter calls are the record \<open>lib\<close>: \<open>json.Unmarshal\<close>, \<open>time.Parse\<close> (by
  layout, in nanoseconds), \<open>strconv.ParseFloat\<close>, the printing of numbers and of other values, and the clock.
  An index out of range is the outcome \<open>Panic\<close>.
\<close>

datatype json = JNull | JBool bool | JNum f64 | JStr string | JArr "json list" | JObj "(string \<times> json) list"

type_synonym rec = "string \<rightharpoonup> json"

record lib =
  lib_Unmarshal :: "string \<Rightarrow> json option"
  lib_ParseTime :: "string \<Rightarrow> string \<Rightarrow> int option"
  lib_ParseFloat :: "string \<Rightarrow> f64 option"
  lib_FormatFloat :: "f64 \<Rightarrow> string"
  lib_Sprint :: "json \<Rightarrow> string"
  lib_Now :: int

section \<open>The filter\<close>

definition applyOp :: "string \<Rightarrow> int \<Rightarrow> bool" where
  "applyOp op cmp =
     (if op = ''='' then cmp = 0
      else if op = ''!='' then cmp \<noteq> 0
      else if op = ''<'' then cmp < 0
      else if op = ''>'' then cmp > 0
      else if op = ''<='' then cmp \<le> 0
      else if op = ''>='' then cmp \<ge> 0
      else False)"

definition level_names :: "string list" where
  "level_names = [''trace'', ''debug'', ''info'', ''warn'', ''error'', ''fatal'']"

fun rank_from :: "int \<Rightarrow> string list \<Rightarrow> string \<Rightarrow> int" where
  "rank_from i [] level = - 1"
| "rank_from i (l # ls) level = (if EqualFold level l then i else rank_from (i + 1) ls level)"

definition levelRank :: "string \<Rightarrow> int" where
  "levelRank level = rank_from 0 level_names level"

definition stringify :: "lib \<Rightarrow> json \<Rightarrow> string" where
  "stringify L v = (case v of JNull \<Rightarrow> [] | JStr x \<Rightarrow> x | JNum x \<Rightarrow> lib_FormatFloat L x | _ \<Rightarrow> lib_Sprint L v)"

fun walk :: "json \<Rightarrow> string list \<Rightarrow> json option" where
  "walk v [] = Some v"
| "walk (JObj m) (key # path) = (case map_of m key of Some w \<Rightarrow> walk w path | None \<Rightarrow> None)"
| "walk v (key # path) = None"

definition extractJSON :: "lib \<Rightarrow> json option \<Rightarrow> string list \<Rightarrow> string option" where
  "extractJSON L raw path =
     (case raw of
        Some (JStr s) \<Rightarrow>
          if s = [] then None
          else (case lib_Unmarshal L s of
                  None \<Rightarrow> None
                | Some v \<Rightarrow> map_option (stringify L) (walk v path))
      | _ \<Rightarrow> None)"

definition field_name :: "string \<Rightarrow> string" where
  "field_name p =
     (let name = ToLower p in
      if name = ''time'' \<or> name = ''timestamp'' then ''timestamp'' else if name = ''tenant'' then ''tenant_id'' else name)"

definition fieldString :: "lib \<Rightarrow> Field \<Rightarrow> rec \<Rightarrow> (goerror, string option) outcome" where
  "fieldString L f r =
     (case fld_Parts f of
        [] \<Rightarrow> Panic
      | [p] \<Rightarrow> Ok (map_option (stringify L) (r (field_name p)))
      | p # path \<Rightarrow>
         (let h = ToLower p in
          if h = ''body'' then Ok (extractJSON L (r ''body'') path)
          else if h = ''resource'' then Ok (extractJSON L (r ''resource'') path)
          else if h = ''auth'' then
            Ok (case path of [x] \<Rightarrow> map_option (stringify L) (r (ToLower x)) | _ \<Rightarrow> None)
          else Ok None))"

definition parseTime :: "lib \<Rightarrow> string \<Rightarrow> int option" where
  "parseTime L s =
     (case lib_ParseTime L ''RFC3339Nano'' s of Some t \<Rightarrow> Some t | None \<Rightarrow> lib_ParseTime L ''RFC3339'' s)"

definition three_way :: "'a::linorder \<Rightarrow> 'a \<Rightarrow> int" where
  "three_way x y = (if x < y then - 1 else if y < x then 1 else 0)"

definition is_level :: "Field \<Rightarrow> bool" where
  "is_level f = (case fld_Parts f of [p] \<Rightarrow> EqualFold p ''level'' | _ \<Rightarrow> False)"

text \<open>\<open>time.Duration\<close> multiplies and negates in \<open>int64\<close>.\<close>

definition time_base :: "lib \<Rightarrow> Value \<Rightarrow> int" where
  "time_base L v =
     (let off = wrap64 (val_TimeSeconds v * 1000000000)
      in if val_TimeSub v then lib_Now L + wrap64 (- off) else lib_Now L + off)"

definition float_cmp :: "f64 \<Rightarrow> f64 \<Rightarrow> int" where
  "float_cmp x y = (if flt x y then - 1 else if flt y x then 1 else 0)"

definition compare_value :: "lib \<Rightarrow> string \<Rightarrow> Value \<Rightarrow> string \<Rightarrow> bool" where
  "compare_value L op v lhs =
     (case val_Kind v of
        ValTime \<Rightarrow> (case parseTime L lhs of None \<Rightarrow> False | Some lt \<Rightarrow> applyOp op (three_way lt (time_base L v)))
      | ValNumber \<Rightarrow>
          (case (lib_ParseFloat L lhs, lib_ParseFloat L (val_Num v)) of
             (Some x, Some y) \<Rightarrow> applyOp op (float_cmp x y)
           | _ \<Rightarrow> False)
      | ValString \<Rightarrow> applyOp op (three_way lhs (val_Str v)))"

definition evalComparison :: "lib \<Rightarrow> Field \<Rightarrow> string \<Rightarrow> Value \<Rightarrow> rec \<Rightarrow> (goerror, bool) outcome" where
  "evalComparison L f op v r =
     (if is_tenant_field f then Ok True
      else bindO (fieldString L f r) (\<lambda>found.
        case found of
          None \<Rightarrow> Ok False
        | Some lhs \<Rightarrow>
            if is_level f \<and> val_Kind v = ValString \<and> isOrdering op
            then Ok (applyOp op (levelRank lhs - levelRank (val_Str v)))
            else Ok (compare_value L op v lhs)))"

fun eval_expr :: "lib \<Rightarrow> Expr \<Rightarrow> rec \<Rightarrow> (goerror, bool) outcome" where
  "eval_expr L (Paren e) r = eval_expr L e r"
| "eval_expr L (Binary op l m) r =
     (if EqualFold op ''AND''
      then bindO (eval_expr L l r) (\<lambda>b. if b then eval_expr L m r else Ok False)
      else bindO (eval_expr L l r) (\<lambda>b. if b then Ok True else eval_expr L m r))"
| "eval_expr L (Comparison f op v) r = evalComparison L f op v r"

definition Match :: "lib \<Rightarrow> Expr option \<Rightarrow> rec \<Rightarrow> (goerror, bool) outcome" where
  "Match L e r = (case e of None \<Rightarrow> Ok True | Some x \<Rightarrow> eval_expr L x r)"

section \<open>Totality\<close>

lemma fieldString_total:
  assumes "fld_Parts f \<noteq> []"
  obtains b where "fieldString L f r = Ok b"
proof -
  have "\<exists>b. fieldString L f r = Ok b"
    using assms by (cases "fld_Parts f" rule: remdups_adj.cases) (simp_all add: fieldString_def Let_def)
  then show ?thesis using that by blast
qed

lemma evalComparison_total: "fld_Parts f \<noteq> [] \<Longrightarrow> \<exists>b. evalComparison L f op v r = Ok b"
  by (rule fieldString_total[of f L r]) (auto simp: evalComparison_def split: option.split)

lemma eval_expr_total: "wf_Expr e \<Longrightarrow> \<exists>b. eval_expr L e r = Ok b"
proof (induction e)
  case (Binary op l m)
  then obtain x y where "eval_expr L l r = Ok x" "eval_expr L m r = Ok y" by auto
  then show ?case by auto
next
  case (Comparison f op v)
  then show ?case using evalComparison_total by (simp add: wf_Field_def)
qed simp

section \<open>Comparison operators\<close>

lemma applyOp_ops [simp]: "applyOp ''='' n = (n = 0)" "applyOp ''!='' n = (n \<noteq> 0)" "applyOp ''<'' n = (n < 0)"
  "applyOp ''>'' n = (n > 0)" "applyOp ''<='' n = (n \<le> 0)" "applyOp ''>='' n = (n \<ge> 0)" "applyOp ''=='' n = False"
  by (simp_all add: applyOp_def)

text \<open>A comparison outside the tenant guard and the severity order is one three-way result read by every operator, or false throughout.\<close>

lemma compare_value_cmp: "\<exists>n. \<forall>op. compare_value L op v lhs = (case n of None \<Rightarrow> False | Some k \<Rightarrow> applyOp op k)"
proof (cases "val_Kind v")
  case ValString
  then show ?thesis by (intro exI[of _ "Some (three_way lhs (val_Str v))"]) (simp add: compare_value_def)
next
  case ValNumber
  then show ?thesis
    by (intro exI[of _ "case (lib_ParseFloat L lhs, lib_ParseFloat L (val_Num v)) of (Some x, Some y) \<Rightarrow> Some (float_cmp x y) | _ \<Rightarrow> None"])
       (simp add: compare_value_def split: option.split)
next
  case ValTime
  then show ?thesis
    by (intro exI[of _ "map_option (\<lambda>t. three_way t (time_base L v)) (parseTime L lhs)"])
       (simp add: compare_value_def split: option.split)
qed

lemma evalComparison_cmp:
  assumes "\<not> is_tenant_field f" and "\<not> (is_level f \<and> val_Kind v = ValString)" and "fld_Parts f \<noteq> []"
  shows "\<exists>n. \<forall>op. evalComparison L f op v r = Ok (case n of None \<Rightarrow> False | Some k \<Rightarrow> applyOp op k)"
proof -
  obtain b where b: "fieldString L f r = Ok b" by (rule fieldString_total[OF assms(3)])
  show ?thesis
  proof (cases b)
    case None
    then show ?thesis using b assms by (intro exI[of _ None]) (simp add: evalComparison_def)
  next
    case (Some lhs)
    obtain n where "\<forall>op. compare_value L op v lhs = (case n of None \<Rightarrow> False | Some k \<Rightarrow> applyOp op k)" using compare_value_cmp by blast
    then show ?thesis using b Some assms by (intro exI[of _ n]) (auto simp: evalComparison_def)
  qed
qed

section \<open>Severity\<close>

text \<open>ClickHouse's \<open>indexOf\<close>: the position from 1 of the first equal element, 0 when there is none.\<close>

fun index_of :: "string list \<Rightarrow> string \<Rightarrow> int" where
  "index_of [] x = 0"
| "index_of (y # ys) x = (if x = y then 1 else let k = index_of ys x in if k = 0 then 0 else k + 1)"

lemma index_of_nonneg: "0 \<le> index_of ys x"
  by (induction ys) (simp_all add: Let_def)

lemma rank_index: "ToLower x = x \<Longrightarrow> list_all (\<lambda>y. ToLower y = y) ys \<Longrightarrow>
  rank_from i ys x = (if index_of ys x = 0 then - 1 else i + index_of ys x - 1)"
proof (induction ys arbitrary: i)
  case (Cons y ys)
  then have "EqualFold x y = (x = y)" by (simp add: EqualFold_def)
  moreover have "rank_from (i + 1) ys x = (if index_of ys x = 0 then - 1 else i + 1 + index_of ys x - 1)" using Cons by simp
  ultimately show ?case using index_of_nonneg[of ys x] by (simp add: Let_def)
qed simp

lemma levelRank_index: "ToLower x = x \<Longrightarrow> levelRank x = index_of level_names x - 1"
proof -
  assume "ToLower x = x"
  moreover have "list_all (\<lambda>y. ToLower y = y) level_names" by code_simp
  ultimately show ?thesis using rank_index[of x level_names 0] by (simp add: levelRank_def split: if_splits)
qed

lemma applyOp_shift: "applyOp op (a - 1 - (b - 1)) = applyOp op (a - b)" for a b :: int
  by simp

lemma ToLower_names: "ToLower ''level'' = ''level''" "ToLower ''service'' = ''service''"
  by code_simp+

definition plain_lib :: lib where
  "plain_lib = \<lparr>lib_Unmarshal = (\<lambda>_. None), lib_ParseTime = (\<lambda>_ _. None), lib_ParseFloat = (\<lambda>_. None), lib_FormatFloat = (\<lambda>_. []),
     lib_Sprint = (\<lambda>_. []), lib_Now = 0\<rparr>"

definition service_field :: Field where "service_field = \<lparr>fld_Parts = [''service'']\<rparr>"
definition level_field :: Field where "level_field = \<lparr>fld_Parts = [''level'']\<rparr>"

section \<open>Properties\<close>

text \<open>
  The live filter never panics on a query that parses: on every record, whatever the library
  decoders return, the WHERE clause of a parsed statement evaluates to a boolean.
\<close>

theorem Match_total:
  assumes "Parse input = Ok s"
  shows "\<exists>b. Match L (stmt_Where s) r = Ok b"
  using Parse_wf[OF assms] eval_expr_total
  by (cases "stmt_Where s") (auto simp: Match_def wf_Stmt_def)

theorem Match_total_witness: "\<exists>b. Match plain_lib (stmt_Where example_stmt) Map.empty = Ok b"
  by (rule Match_total[OF example_search_parses])

text \<open>
  The six operators of a comparison are consistent: for a field other than the tenant and, with
  a string, the level, on every record either no operator matches (the field is missing or a value
  does not convert), or exactly one of less, equal and greater matches, and the other three are
  their disjunctions and the negation of equal.
\<close>

theorem evalComparison_trichotomy:
  assumes "\<not> is_tenant_field f" and "\<not> (is_level f \<and> val_Kind v = ValString)" and "fld_Parts f \<noteq> []"
  shows "(\<forall>op. evalComparison L f op v r = Ok False) \<or>
    (\<exists>lt eq gt. evalComparison L f ''<'' v r = Ok lt \<and> evalComparison L f ''='' v r = Ok eq \<and> evalComparison L f ''>'' v r = Ok gt \<and>
      [lt, eq, gt] \<in> {[True, False, False], [False, True, False], [False, False, True]} \<and>
      evalComparison L f ''<='' v r = Ok (lt \<or> eq) \<and> evalComparison L f ''>='' v r = Ok (gt \<or> eq) \<and>
      evalComparison L f ''!='' v r = Ok (\<not> eq))"
proof -
  obtain n where n: "\<forall>op. evalComparison L f op v r = Ok (case n of None \<Rightarrow> False | Some k \<Rightarrow> applyOp op k)"
    using evalComparison_cmp[OF assms] by blast
  then show ?thesis by (cases n) (auto simp: neq_iff)
qed

theorem evalComparison_trichotomy_witness:
  "(\<forall>op. evalComparison plain_lib service_field op zero_Value Map.empty = Ok False) \<or>
    (\<exists>lt eq gt. evalComparison plain_lib service_field ''<'' zero_Value Map.empty = Ok lt \<and> evalComparison plain_lib service_field ''='' zero_Value Map.empty = Ok eq \<and>
      evalComparison plain_lib service_field ''>'' zero_Value Map.empty = Ok gt \<and>
      [lt, eq, gt] \<in> {[True, False, False], [False, True, False], [False, False, True]} \<and>
      evalComparison plain_lib service_field ''<='' zero_Value Map.empty = Ok (lt \<or> eq) \<and> evalComparison plain_lib service_field ''>='' zero_Value Map.empty = Ok (gt \<or> eq) \<and>
      evalComparison plain_lib service_field ''!='' zero_Value Map.empty = Ok (\<not> eq))"
  by (rule evalComparison_trichotomy)
     (simp_all add: is_tenant_field_def is_level_def service_field_def ToLower_names EqualFold_def)

text \<open>
  The live filter and the compiled SQL order severities alike: for a level in lower case, known or
  not, and a lower-case literal, the filter gives the comparison of the positions in the severity
  array that the compiled predicate computes with \<open>indexOf\<close>.
\<close>

theorem level_order_agrees:
  assumes "fld_Parts f = [p]" and "ToLower p = ''level''" and "isOrdering op" and "val_Kind v = ValString"
    and "ToLower (val_Str v) = val_Str v" and "r ''level'' = Some (JStr l)" and "ToLower l = l" and "cc_table c = ''logs''"
  shows "evalComparison L f op v r = Ok (applyOp op (index_of level_names l - index_of level_names (val_Str v))) \<and>
    compileComparison c f op v = Ok (''indexOf('' @ levelArr @ '', level) '' @ op @ '' indexOf('' @ levelArr @ '', '' @ quote (val_Str v) @ '')'')"
proof
  have nt: "\<not> is_tenant_field f" using assms(1,2) by (simp add: is_tenant_field_def)
  have lv: "is_level f" using assms(1,2) ToLower_names(1) by (simp add: is_level_def EqualFold_def)
  have "fieldString L f r = Ok (Some l)"
    using assms(1,2,6) by (simp add: fieldString_def field_name_def stringify_def Let_def)
  then show "evalComparison L f op v r = Ok (applyOp op (index_of level_names l - index_of level_names (val_Str v)))"
    using nt lv assms(3,4) by (simp add: evalComparison_def levelRank_index[OF assms(7)] levelRank_index[OF assms(5)])
  have "mapField1 c p = Ok (''level'', True)" using assms(2,8) by (simp add: mapField1_def columns_def logsColumns_def Let_def)
  then show "compileComparison c f op v = Ok (''indexOf('' @ levelArr @ '', level) '' @ op @ '' indexOf('' @ levelArr @ '', '' @ quote (val_Str v) @ '')'')"
    using nt assms(1,3,4) by (simp add: compileComparison_def mapField_def)
qed

theorem level_order_agrees_witness:
  "evalComparison plain_lib level_field ''>='' (zero_Value\<lparr>val_Str := ''warn''\<rparr>) [''level'' \<mapsto> JStr ''error''] = Ok (applyOp ''>='' (5 - 4))"
proof -
  have i: "index_of level_names ''error'' = 5" "index_of level_names ''warn'' = 4" "ToLower ''error'' = ''error''" "ToLower ''warn'' = ''warn''"
    by code_simp+
  show ?thesis
    using level_order_agrees[of level_field "''level''" "''>=''" "zero_Value\<lparr>val_Str := ''warn''\<rparr>" "[''level'' \<mapsto> JStr ''error'']" "''error''"
      "\<lparr>cc_tenant = ''t'', cc_table = ''logs''\<rparr>" plain_lib] i
    by (simp add: level_field_def ToLower_names isOrdering_def zero_Value_def)
qed

text \<open>
  Where filter and SQL disagree. The parser accepts \<open>==\<close> and the compiler passes it on, but the
  filter matches nothing with it; a level in upper case passes the filter's severity order while the
  array lookup of the SQL does not know it; and a field whose text reads as NaN equals every number.
\<close>

theorem filter_divergences:
  "(\<exists>s. Parse (''TAIL FROM logs WHERE service == '' @ [CHR 0x27] @ ''api'' @ [CHR 0x27]) = Ok s \<and>
     stmt_Where s = Some (Comparison service_field ''=='' (zero_Value\<lparr>val_Str := ''api''\<rparr>)) \<and>
     Match L (stmt_Where s) [''service'' \<mapsto> JStr ''api''] = Ok False) \<and>
   evalComparison L level_field ''>='' (zero_Value\<lparr>val_Str := ''error''\<rparr>) [''level'' \<mapsto> JStr ''ERROR''] = Ok True \<and>
   index_of level_names ''ERROR'' < index_of level_names ''error'' \<and>
   compare_value (L\<lparr>lib_ParseFloat := (\<lambda>s. if s = ''NaN'' then Some NaN else Some x)\<rparr>) ''='' (zero_Value\<lparr>val_Kind := ValNumber, val_Num := ''5''\<rparr>) ''NaN''"
proof (intro conjI)
  have "Parse (''TAIL FROM logs WHERE service == '' @ [CHR 0x27] @ ''api'' @ [CHR 0x27]) =
    Ok (zero_Stmt\<lparr>stmt_Kind := KindTail, stmt_Table := ''logs'', stmt_Where := Some (Comparison service_field ''=='' (zero_Value\<lparr>val_Str := ''api''\<rparr>))\<rparr>)"
    by code_simp
  moreover have "fieldString L service_field [''service'' \<mapsto> JStr ''api''] = Ok (Some ''api'')"
    by (simp add: fieldString_def service_field_def field_name_def stringify_def ToLower_names)
  then have "Match L (Some (Comparison service_field ''=='' (zero_Value\<lparr>val_Str := ''api''\<rparr>))) [''service'' \<mapsto> JStr ''api''] = Ok False"
    by (simp add: Match_def evalComparison_def is_tenant_field_def service_field_def ToLower_names isOrdering_def compare_value_def zero_Value_def)
  ultimately show "\<exists>s. Parse (''TAIL FROM logs WHERE service == '' @ [CHR 0x27] @ ''api'' @ [CHR 0x27]) = Ok s \<and>
     stmt_Where s = Some (Comparison service_field ''=='' (zero_Value\<lparr>val_Str := ''api''\<rparr>)) \<and>
     Match L (stmt_Where s) [''service'' \<mapsto> JStr ''api''] = Ok False" by (simp add: zero_Stmt_def)
  have r: "levelRank ''ERROR'' - levelRank ''error'' = 0" by code_simp
  have "fieldString L level_field [''level'' \<mapsto> JStr ''ERROR''] = Ok (Some ''ERROR'')"
    by (simp add: fieldString_def level_field_def field_name_def stringify_def ToLower_names)
  then show "evalComparison L level_field ''>='' (zero_Value\<lparr>val_Str := ''error''\<rparr>) [''level'' \<mapsto> JStr ''ERROR''] = Ok True"
    using r by (simp add: evalComparison_def is_tenant_field_def is_level_def level_field_def ToLower_names isOrdering_def zero_Value_def EqualFold_def)
  show "index_of level_names ''ERROR'' < index_of level_names ''error''" by code_simp
  show "compare_value (L\<lparr>lib_ParseFloat := (\<lambda>s. if s = ''NaN'' then Some NaN else Some x)\<rparr>) ''='' (zero_Value\<lparr>val_Kind := ValNumber, val_Num := ''5''\<rparr>) ''NaN''"
    by (cases x) (simp_all add: compare_value_def float_cmp_def zero_Value_def)
qed

end
