(* ===== verification/Query_Api.thy ===== *)
theory Query_Api
  imports Sql_Confined Live_Match Access
begin

text \<open>
  The query endpoints \<open>platform/api/handler/query.go\<close>, \<open>export.go\<close> and \<open>tail.go\<close>. A handler gets the resolved
  identity, the request parameters and what is outside the sources (the record \<open>api_env\<close>: ClickHouse, the
  clock, the text of an error, the JSON and number formats) and gives its answer, the SQL it sent and the
  audit rows it inserted. A row is a decoded JSON object. A panic is the 500 of the recovery middleware.
\<close>

section \<open>Requests and effects\<close>

type_synonym jrow = "(string \<times> json) list"

record api_env =
  qe_id :: identity
  qe_form :: "string \<Rightarrow> string"
  qe_ch :: "string \<Rightarrow> string + jrow list"
  qe_now :: "nat \<Rightarrow> int"
  qe_latency :: int
  qe_errtext :: "goerror \<Rightarrow> string"
  qe_marshal :: "json \<Rightarrow> string"
  qe_lib :: lib
  qe_oob :: "f64 \<Rightarrow> int"

definition jcell :: "jrow \<Rightarrow> string \<Rightarrow> json" where
  "jcell r k = (case map_of r k of Some v \<Rightarrow> v | None \<Rightarrow> JNull)"

record audit_row =
  au_tenant :: string
  au_action :: string
  au_query :: string
  au_count :: nat
  au_latency :: int

datatype api_answer =
    AErr int string
  | ARows "string list" nat "jrow list"
  | ACsv "string list list"
  | ANdjson "jrow list"

type_synonym 'a handled = "'a \<times> string list \<times> audit_row list"

text \<open>An answer with no statement sent.\<close>

definition plain :: "'a \<Rightarrow> 'a handled" where
  "plain a = (a, [], [])"

section \<open>Query\<close>

definition queryOpts :: Options where
  "queryOpts = \<lparr>opt_DefaultLimit = 100, opt_MaxLimit = 1000\<rparr>"

definition read_scopes :: "string list" where
  "read_scopes = [''logs:read'', ''logs:query'']"

definition csv_cell :: "api_env \<Rightarrow> json \<Rightarrow> string" where
  "csv_cell env v = (case v of JNull \<Rightarrow> [] | JStr x \<Rightarrow> x | _ \<Rightarrow> qe_marshal env v)"

definition writeCSV :: "api_env \<Rightarrow> string list \<Rightarrow> jrow list \<Rightarrow> string list list" where
  "writeCSV env cols rows = cols # map (\<lambda>row. map (\<lambda>c. csv_cell env (jcell row c)) cols) rows"

definition respond :: "api_env \<Rightarrow> string \<Rightarrow> string list \<Rightarrow> jrow list \<Rightarrow> api_answer" where
  "respond env format cols rows =
     (if format = ''csv'' then ACsv (writeCSV env cols rows)
      else if format = ''ndjson'' then ANdjson rows
      else ARows cols (length rows) rows)"

definition writeAudit :: "string \<Rightarrow> string \<Rightarrow> string \<Rightarrow> nat \<Rightarrow> int \<Rightarrow> audit_row" where
  "writeAudit tenant action q n latency = \<lparr>au_tenant = tenant, au_action = action, au_query = q, au_count = n, au_latency = latency\<rparr>"

definition runAndRespond :: "api_env \<Rightarrow> string \<Rightarrow> string \<Rightarrow> string \<Rightarrow> Compiled \<Rightarrow> api_answer handled" where
  "runAndRespond env tenant action q compiled =
     (case qe_ch env (c_SQL compiled) of
        Inl e \<Rightarrow> (AErr 502 (''query execution failed: '' @ e), [c_SQL compiled], [])
      | Inr rows \<Rightarrow>
          (respond env (qe_form env ''format'') (c_Columns compiled) rows, [c_SQL compiled],
           [writeAudit tenant action q (length rows) (qe_latency env)]))"

definition use_tail :: string where
  "use_tail = ''use the live-tail endpoint /v1/query/tail for TAIL''"

definition Query :: "api_env \<Rightarrow> api_answer handled" where
  "Query env =
     (if \<not> HasScope (qe_id env) [''logs:read'', ''logs:query''] then plain (AErr 403 ''requires logs:read or logs:query scope'')
      else let tenant = ctxTenant (qe_id env); q = qe_form env ''q'' in
        if q = [] then plain (AErr 400 ''missing query parameter q'')
        else case Compile q tenant queryOpts of
            Err e \<Rightarrow> plain (AErr 400 (if e = Sentinel ''ErrTail'' then use_tail else qe_errtext env e))
          | Panic \<Rightarrow> plain (AErr 500 [])
          | Ok compiled \<Rightarrow> runAndRespond env tenant ''query'' q compiled)"

definition auth_query :: string where
  "auth_query = ''SELECT * FROM auth_events''"

definition AuthEvents :: "api_env \<Rightarrow> api_answer handled" where
  "AuthEvents env =
     (if \<not> HasScope (qe_id env) [''logs:read'', ''logs:query''] then plain (AErr 403 ''requires logs:read or logs:query scope'')
      else let tenant = ctxTenant (qe_id env) in
        case Compile auth_query tenant queryOpts of
            Err e \<Rightarrow> plain (AErr 500 (qe_errtext env e))
          | Panic \<Rightarrow> plain (AErr 500 [])
          | Ok compiled \<Rightarrow> runAndRespond env tenant ''auth-events'' auth_query compiled)"

section \<open>Export\<close>

definition exportOpts :: Options where
  "exportOpts = \<lparr>opt_DefaultLimit = 100000, opt_MaxLimit = 1000000\<rparr>"

definition exportFormat :: "string \<Rightarrow> string" where
  "exportFormat v = (if v = ''csv'' then ''csv'' else if v = ''ndjson'' then ''ndjson'' else ''json'')"

text \<open>The name of the download; \<open>stamp\<close> is the time in the layout of the code.\<close>

definition exportFilename :: "string \<Rightarrow> string \<Rightarrow> string" where
  "exportFilename stamp format = ''qeet-logs-export-'' @ stamp @ ''.'' @ format"

definition Export :: "string \<Rightarrow> api_env \<Rightarrow> (string option \<times> api_answer) handled" where
  "Export stamp env =
     (if \<not> HasScope (qe_id env) [''logs:export'', ''logs:read''] then plain (None, AErr 403 ''requires logs:export or logs:read scope'')
      else let tenant = ctxTenant (qe_id env); q = qe_form env ''q'' in
        if q = [] then plain (None, AErr 400 ''missing query parameter q'')
        else let format = exportFormat (qe_form env ''format'') in
          case Compile q tenant exportOpts of
            Err e \<Rightarrow> plain (None, AErr 400 (if e = Sentinel ''ErrTail'' then use_tail else qe_errtext env e))
          | Panic \<Rightarrow> plain (None, AErr 500 [])
          | Ok compiled \<Rightarrow>
              (case qe_ch env (c_SQL compiled) of
                 Inl e \<Rightarrow> ((None, AErr 502 (''query execution failed: '' @ e)), [c_SQL compiled], [])
               | Inr rows \<Rightarrow>
                   ((Some (''attachment; filename='' @ exportFilename stamp format), respond env format (c_Columns compiled) rows),
                    [c_SQL compiled], [writeAudit tenant ''export'' q (length rows) (qe_latency env)])))"

section \<open>Live tail\<close>

text \<open>
  The messages of a subscription in order of arrival, each with whether writing it to the socket fails. A
  payload that is not a JSON object is skipped; the first failing write ends the stream.
\<close>

fun tail_loop :: "lib \<Rightarrow> Expr option \<Rightarrow> (string \<times> bool) list \<Rightarrow> string list" where
  "tail_loop L wh [] = []"
| "tail_loop L wh ((payload, fails) # ms) =
     (case lib_Unmarshal L payload of
        Some (JObj fs) \<Rightarrow>
          (case Match L wh (map_of fs) of
             Ok True \<Rightarrow> if fails then [] else payload # tail_loop L wh ms
           | _ \<Rightarrow> tail_loop L wh ms)
      | Some JNull \<Rightarrow>
          (case Match L wh Map.empty of
             Ok True \<Rightarrow> if fails then [] else payload # tail_loop L wh ms
           | _ \<Rightarrow> tail_loop L wh ms)
      | _ \<Rightarrow> tail_loop L wh ms)"

datatype tail_answer = TErr int string | TNone | TStream string "string list"

definition tail_pattern :: "string \<Rightarrow> string" where
  "tail_pattern tenant = ''tail.'' @ tenant @ ''.*''"

text \<open>\<open>accepted\<close>: the WebSocket upgrade succeeds; \<open>sub\<close>: what Redis delivers for a pattern until the client leaves.\<close>

definition Tail :: "bool \<Rightarrow> (string \<Rightarrow> (string \<times> bool) list) \<Rightarrow> api_env \<Rightarrow> tail_answer" where
  "Tail accepted sub env =
     (if \<not> HasScope (qe_id env) [''logs:read'', ''logs:query''] then TErr 403 ''requires logs:read or logs:query scope''
      else case Parse (qe_form env ''q'') of
          Err e \<Rightarrow> TErr 400 (qe_errtext env e)
        | Panic \<Rightarrow> TErr 500 []
        | Ok stmt \<Rightarrow>
            if stmt_Kind stmt \<noteq> KindTail then TErr 400 ''tail endpoint requires a TAIL statement''
            else if stmt_Table stmt \<noteq> ''logs'' then TErr 400 ''live tail supports the logs table only''
            else if \<not> accepted then TNone
            else let pattern = tail_pattern (ctxTenant (qe_id env)) in
              TStream pattern (tail_loop (qe_lib env) (stmt_Where stmt) (sub pattern)))"

section \<open>What reaches the store\<close>

text \<open>A handler keeps to its tenant: every statement is confined to it, nothing is sent without a scope, and the audit rows are its own.\<close>

definition keeps_tenant :: "string list \<Rightarrow> identity \<Rightarrow> string list \<times> audit_row list \<Rightarrow> bool" where
  "keeps_tenant scopes i eff \<longleftrightarrow>
     (\<forall>sql \<in> set (fst eff). confined (ctxTenant i) sql \<and> HasScope i scopes) \<and> (\<forall>a \<in> set (snd eff). au_tenant a = ctxTenant i \<and> fst eff \<noteq> [])"

lemma keeps_plain [simp]: "keeps_tenant scopes i (snd (plain a))"
  by (simp add: keeps_tenant_def plain_def)

lemma runAndRespond_keeps:
  "confined (ctxTenant (qe_id env)) (c_SQL c) \<Longrightarrow> HasScope (qe_id env) scopes \<Longrightarrow>
   keeps_tenant scopes (qe_id env) (snd (runAndRespond env (ctxTenant (qe_id env)) action q c))"
  by (simp add: keeps_tenant_def runAndRespond_def writeAudit_def split: sum.splits)

lemma Query_keeps: "keeps_tenant [''logs:read'', ''logs:query''] (qe_id env) (snd (Query env))"
  using runAndRespond_keeps[of env] Compile_confined[of "qe_form env ''q''"] by (auto simp: Query_def Let_def split: outcome.splits simp del: HasScope.simps)

lemma AuthEvents_keeps: "keeps_tenant [''logs:read'', ''logs:query''] (qe_id env) (snd (AuthEvents env))"
  using runAndRespond_keeps[of env] Compile_confined[of auth_query] by (auto simp: AuthEvents_def Let_def split: outcome.splits simp del: HasScope.simps)

lemma Export_keeps: "keeps_tenant [''logs:export'', ''logs:read''] (qe_id env) (snd (Export stamp env))"
  using Compile_confined[of "qe_form env ''q''" "ctxTenant (qe_id env)" exportOpts]
  by (auto simp: Export_def Let_def keeps_tenant_def writeAudit_def plain_def split: outcome.splits sum.splits simp del: HasScope.simps)

section \<open>The live tail\<close>

text \<open>A payload passes when it is a JSON object (or null) that satisfies the WHERE clause.\<close>

definition passes :: "lib \<Rightarrow> Expr option \<Rightarrow> string \<Rightarrow> bool" where
  "passes L wh payload =
     (case lib_Unmarshal L payload of
        Some (JObj fs) \<Rightarrow> Match L wh (map_of fs) = Ok True
      | Some JNull \<Rightarrow> Match L wh Map.empty = Ok True
      | _ \<Rightarrow> False)"

lemma tail_loop_step:
  "tail_loop L wh (m # ms) = (if passes L wh (fst m) then (if snd m then [] else fst m # tail_loop L wh ms) else tail_loop L wh ms)"
  by (cases m) (simp add: passes_def split: option.splits json.splits outcome.splits bool.splits)

lemma tail_loop_exact: "tail_loop L wh ms = map fst (takeWhile (\<lambda>m. \<not> snd m) (filter (\<lambda>m. passes L wh (fst m)) ms))"
proof (induction ms)
  case (Cons m ms)
  then show ?case unfolding tail_loop_step by simp
qed simp

text \<open>
  C35. A live tail needs a read scope and a TAIL statement on the logs, subscribes only to the channels of the
  caller's tenant, and writes exactly the messages that satisfy the WHERE clause, in their order and unchanged,
  until the first write that fails.
\<close>

theorem Tail_exact:
  assumes "Tail accepted sub env = TStream pattern written"
  shows "HasScope (qe_id env) [''logs:read'', ''logs:query''] \<and> pattern = ''tail.'' @ ctxTenant (qe_id env) @ ''.*'' \<and>
    (\<exists>stmt. Parse (qe_form env ''q'') = Ok stmt \<and> stmt_Kind stmt = KindTail \<and> stmt_Table stmt = ''logs'' \<and>
      written = map fst (takeWhile (\<lambda>m. \<not> snd m) (filter (\<lambda>m. passes (qe_lib env) (stmt_Where stmt) (fst m)) (sub pattern))))"
  using assms by (auto simp: Tail_def Let_def tail_pattern_def tail_loop_exact split: if_splits outcome.splits simp del: HasScope.simps)

definition demo_tail_env :: api_env where
  "demo_tail_env = \<lparr>qe_id = \<lparr>ctxTenant = ''acme'', ctxScopes = [''logs:read'']\<rparr>, qe_form = (\<lambda>_. ''TAIL FROM logs''), qe_ch = (\<lambda>_. Inr []), qe_now = (\<lambda>_. 0), qe_latency = 0,
     qe_errtext = (\<lambda>_. []), qe_marshal = (\<lambda>_. []), qe_lib = plain_lib\<lparr>lib_Unmarshal := (\<lambda>s. if s = ''x'' then None else Some (JObj []))\<rparr>, qe_oob = (\<lambda>_. 0)\<rparr>"

theorem Tail_exact_witness:
  "\<exists>w. Tail True (\<lambda>_. [(''a'', False), (''x'', False), (''b'', False), (''c'', True), (''d'', False)]) demo_tail_env = TStream ''tail.acme.*'' w \<and> w = [''a'', ''b'']"
proof -
  let ?sub = "\<lambda>_. [(''a'', False), (''x'', False), (''b'', False), (''c'', True), (''d'', False)]"
  have t: "Tail True ?sub demo_tail_env = TStream ''tail.acme.*'' [''a'', ''b'']" by code_simp
  from Tail_exact[OF t] t show ?thesis by blast
qed

end
