(* ===== verification/Changes.thy ===== *)
theory Changes
  imports Query_Api Tenant_Store
begin

text \<open>
  Change events: the provider payloads of \<open>domains/changesource/changesource.go\<close> and the handlers
  \<open>platform/api/handler/change_connectors.go\<close> and \<open>changes.go\<close>. The JSON decoders of the payloads are arguments; a
  decoded payload is a record with the fields the code reads, absent fields at their zero value and absent objects
  \<open>None\<close>. The table of changes is the list of its rows.
\<close>

section \<open>Payloads\<close>

record ChangeEvent =
  ce_Service :: string
  ce_Environment :: string
  ce_Kind :: string
  ce_Title :: string
  ce_GitSHA :: string
  ce_DeployID :: string
  ce_PRNumber :: string
  ce_FlagKey :: string
  ce_ConfigDiff :: string
  ce_Author :: string

definition no_event :: ChangeEvent where
  "no_event = \<lparr>ce_Service = [], ce_Environment = [], ce_Kind = [], ce_Title = [], ce_GitSHA = [], ce_DeployID = [], ce_PRNumber = [], ce_FlagKey = [], ce_ConfigDiff = [], ce_Author = []\<rparr>"

record gh_deployment =
  hd_ID :: string
  hd_SHA :: string
  hd_Ref :: string
  hd_Environment :: string
  hd_Creator :: string

record gh_run =
  hr_ID :: string
  hr_Name :: string
  hr_HeadSHA :: string
  hr_HeadBranch :: string
  hr_Conclusion :: string
  hr_Actor :: string

record gh_payload =
  gh_Ref :: string
  gh_After :: string
  gh_Repository :: string
  gh_Pusher :: string
  gh_HeadCommit :: "string option"
  gh_Deployment :: "gh_deployment option"
  gh_WorkflowRun :: "gh_run option"

record gl_attributes =
  ga_SHA :: string
  ga_Ref :: string
  ga_Status :: string

record gl_payload =
  gl_ObjectKind :: string
  gl_Status :: string
  gl_SHA :: string
  gl_Environment :: string
  gl_DeployableID :: string
  gl_Project :: string
  gl_User :: string
  gl_ObjectAttributes :: "gl_attributes option"

record ld_payload =
  ld_Name :: string
  ld_Title :: string
  ld_TitleVerb :: string
  ld_Member :: string

text \<open>\<open>json.Unmarshal\<close> into the three structures; \<open>Inl\<close> is the text of its error.\<close>

record decoders =
  dc_github :: "string \<Rightarrow> string + gh_payload"
  dc_gitlab :: "string \<Rightarrow> string + gl_payload"
  dc_launchdarkly :: "string \<Rightarrow> string + ld_payload"

section \<open>Parsers\<close>

definition refName :: "string \<Rightarrow> string" where
  "refName ref = (let ref = TrimPrefix ref ''refs/heads/''; ref = TrimPrefix ref ''refs/tags/'' in if ref = [] then ''(unknown)'' else ref)"

definition orDash :: "string \<Rightarrow> string" where
  "orDash s = (if s = [] then ''(default)'' else s)"

text \<open>The verb \<open>%q\<close> on a text of printable characters: quotes and backslashes are escaped.\<close>

definition quoted :: "string \<Rightarrow> string" where
  "quoted s = CHR 0x22 # concat (map (\<lambda>c. if c = CHR 0x22 \<or> c = CHR 0x5C then [CHR 0x5C, c] else [c]) s) @ [CHR 0x22]"

definition parseGitHub :: "(string \<Rightarrow> string + gh_payload) \<Rightarrow> string \<Rightarrow> string \<Rightarrow> (goerror, ChangeEvent list) outcome" where
  "parseGitHub dec eventType payload =
     (case dec payload of Inl e \<Rightarrow> Err (Errorf ''github payload: %w'' [e])
      | Inr p \<Rightarrow>
          if eventType = ''deployment'' then
            (case gh_Deployment p of None \<Rightarrow> Ok []
             | Some d \<Rightarrow> Ok [no_event\<lparr>ce_Service := gh_Repository p, ce_Environment := hd_Environment d, ce_Kind := ''deploy'', ce_GitSHA := hd_SHA d,
                 ce_DeployID := hd_ID d, ce_Author := hd_Creator d,
                 ce_Title := ''Deployment of '' @ refName (hd_Ref d) @ '' to '' @ orDash (hd_Environment d)\<rparr>])
          else if eventType = ''workflow_run'' then
            (case gh_WorkflowRun p of None \<Rightarrow> Ok []
             | Some wr \<Rightarrow>
                 if hr_Conclusion wr \<noteq> ''success'' then Ok []
                 else Ok [no_event\<lparr>ce_Service := gh_Repository p, ce_Kind := ''deploy'', ce_GitSHA := hr_HeadSHA wr, ce_DeployID := hr_ID wr, ce_Author := hr_Actor wr,
                   ce_Title := ''Workflow '' @ quoted (hr_Name wr) @ '' succeeded on '' @ refName (hr_HeadBranch wr)\<rparr>])
          else if eventType = ''push'' then
            (let sha = (if gh_After p = [] then (case gh_HeadCommit p of Some i \<Rightarrow> i | None \<Rightarrow> []) else gh_After p) in
             if sha = [] then Ok []
             else Ok [no_event\<lparr>ce_Service := gh_Repository p, ce_Kind := ''deploy'', ce_GitSHA := sha, ce_Author := gh_Pusher p,
               ce_Title := ''Push to '' @ refName (gh_Ref p)\<rparr>])
          else Ok [])"

definition parseGitLab :: "(string \<Rightarrow> string + gl_payload) \<Rightarrow> string \<Rightarrow> (goerror, ChangeEvent list) outcome" where
  "parseGitLab dec payload =
     (case dec payload of Inl e \<Rightarrow> Err (Errorf ''gitlab payload: %w'' [e])
      | Inr p \<Rightarrow>
          if gl_ObjectKind p = ''pipeline'' then
            (case gl_ObjectAttributes p of None \<Rightarrow> Ok []
             | Some oa \<Rightarrow>
                 if ga_Status oa \<noteq> ''success'' then Ok []
                 else Ok [no_event\<lparr>ce_Service := gl_Project p, ce_Kind := ''deploy'', ce_GitSHA := ga_SHA oa, ce_Author := gl_User p,
                   ce_Title := ''Pipeline succeeded on '' @ refName (ga_Ref oa)\<rparr>])
          else if gl_ObjectKind p = ''deployment'' then
            (if gl_Status p \<noteq> ''success'' then Ok []
             else Ok [no_event\<lparr>ce_Service := gl_Project p, ce_Environment := gl_Environment p, ce_Kind := ''deploy'', ce_GitSHA := gl_SHA p,
               ce_DeployID := gl_DeployableID p, ce_Author := gl_User p, ce_Title := ''Deployment to '' @ orDash (gl_Environment p)\<rparr>])
          else Ok [])"

definition parseLaunchDarkly :: "(string \<Rightarrow> string + ld_payload) \<Rightarrow> string \<Rightarrow> (goerror, ChangeEvent list) outcome" where
  "parseLaunchDarkly dec payload =
     (case dec payload of Inl e \<Rightarrow> Err (Errorf ''launchdarkly payload: %w'' [e])
      | Inr p \<Rightarrow>
          let title = (if ld_Title p = [] then TrimSpace (''Flag '' @ ld_Name p @ '' '' @ ld_TitleVerb p) else ld_Title p)
          in Ok [no_event\<lparr>ce_Kind := ''flag'', ce_FlagKey := ld_Name p, ce_Title := title, ce_Author := ld_Member p\<rparr>])"

definition change_Parse :: "decoders \<Rightarrow> string \<Rightarrow> string \<Rightarrow> string \<Rightarrow> (goerror, ChangeEvent list) outcome" where
  "change_Parse dec provider eventType payload =
     (let p = ToLower provider in
      if p = ''github'' then parseGitHub (dc_github dec) eventType payload
      else if p = ''gitlab'' then parseGitLab (dc_gitlab dec) payload
      else if p = ''launchdarkly'' \<or> p = ''ld'' then parseLaunchDarkly (dc_launchdarkly dec) payload
      else Err (Errorf ''unknown change-event provider %q'' [provider]))"

section \<open>The handlers\<close>

record change_row = ChangeEvent +
  cw_ID :: string
  cw_Timestamp :: string
  cw_TenantID :: string
  cw_Metadata :: string

text \<open>
  The request: identity, the random identifiers in the order they are drawn, the present instant, RFC 3339 of an
  instant, the error of the insertion if it fails, and the text of an error.
\<close>

record change_env =
  he_ident :: identity
  he_newid :: "nat \<Rightarrow> string"
  he_now :: int
  he_stamp :: "int \<Rightarrow> string"
  he_insert :: fault
  he_text :: "goerror \<Rightarrow> string"

datatype change_answer =
    HError int string
  | HAccepted nat string "string list"
  | HCreated string string int

definition row_of :: "change_env \<Rightarrow> string \<Rightarrow> string \<Rightarrow> string \<Rightarrow> ChangeEvent \<Rightarrow> change_row" where
  "row_of env i ts metadata e =
     ChangeEvent.extend e \<lparr>cw_ID = i, cw_Timestamp = ts, cw_TenantID = ctxTenant (he_ident env), cw_Metadata = metadata\<rparr>"

text \<open>The body, at most a MiB of it, or the error of reading it.\<close>

definition ChangeConnector :: "change_env \<Rightarrow> decoders \<Rightarrow> string \<Rightarrow> string \<Rightarrow> string + string \<Rightarrow> change_row list \<Rightarrow> change_answer \<times> change_row list" where
  "ChangeConnector env dec provider eventType body tbl =
     (if \<not> HasScope (he_ident env) [''logs:ingest''] then (HError 403 ''requires logs:ingest scope'', tbl)
      else case body of Inl e \<Rightarrow> (HError 400 (''read body: '' @ e), tbl)
      | Inr payload \<Rightarrow>
          (case change_Parse dec provider eventType (take (2 ^ 20) payload) of
             Err e \<Rightarrow> (HError 400 (he_text env e), tbl)
           | Panic \<Rightarrow> (HError 500 [], tbl)
           | Ok events \<Rightarrow>
               if events = [] then (HAccepted 0 provider [], tbl)
               else let ids = map (he_newid env) [0..<length events];
                        rows = map (\<lambda>(i, e). row_of env i (he_stamp env (he_now env)) ''{}'' e) (zip ids events)
                 in (case he_insert env of Some e \<Rightarrow> (HError 502 (''insert failed: '' @ e), tbl)
                     | None \<Rightarrow> (HAccepted (length rows) provider ids, tbl @ rows))))"

record change_body =
  hb_Event :: ChangeEvent
  hb_Timestamp :: "int option"
  hb_Metadata :: string

definition CreateChange :: "change_env \<Rightarrow> change_body option \<Rightarrow> change_row list \<Rightarrow> change_answer \<times> change_row list" where
  "CreateChange env body tbl =
     (if \<not> HasScope (he_ident env) [''logs:ingest''] then (HError 403 ''requires logs:ingest scope'', tbl)
      else case body of None \<Rightarrow> (HError 400 ''invalid JSON body'', tbl)
      | Some b \<Rightarrow>
          let e = hb_Event b; kind = (if ce_Kind e = [] then ''deploy'' else ce_Kind e);
              ts = (case hb_Timestamp b of Some t \<Rightarrow> t | None \<Rightarrow> he_now env);
              metadata = (if hb_Metadata b \<noteq> [] then hb_Metadata b else ''{}''); i = he_newid env 0
          in (case he_insert env of Some x \<Rightarrow> (HError 502 (''insert failed: '' @ x), tbl)
              | None \<Rightarrow> (HCreated i kind ts, tbl @ [row_of env i (he_stamp env ts) metadata (e\<lparr>ce_Kind := kind\<rparr>)])))"

definition ListChanges :: "api_env \<Rightarrow> api_answer handled" where
  "ListChanges env =
     (if \<not> HasScope (qe_id env) [''logs:read'', ''logs:query''] then plain (AErr 403 ''requires logs:read or logs:query scope'')
      else let tenant = ctxTenant (qe_id env); svc = qe_form env ''service'';
               q = ''SELECT * FROM change_events'' @ (if svc \<noteq> [] then '' WHERE service = '' @ QuoteLiteral svc else []) @ '' ORDER BY timestamp DESC LIMIT 200''
        in case Compile q tenant queryOpts of
            Err e \<Rightarrow> plain (AErr 400 (qe_errtext env e))
          | Panic \<Rightarrow> plain (AErr 500 [])
          | Ok compiled \<Rightarrow> runAndRespond env tenant ''changes'' q compiled)"

section \<open>Laws\<close>

lemma ListChanges_keeps: "keeps_tenant [''logs:read'', ''logs:query''] (qe_id env) (snd (ListChanges env))"
  using runAndRespond_keeps[of env] Compile_confined by (auto simp: ListChanges_def Let_def split: outcome.splits simp del: HasScope.simps)

lemma parsed_shape: "change_Parse dec provider et payload = Ok es \<Longrightarrow> length es \<le> 1 \<and> list_all (\<lambda>e. ce_Kind e = ''deploy'' \<or> ce_Kind e = ''flag'') es"
  by (auto simp: change_Parse_def parseGitHub_def parseGitLab_def parseLaunchDarkly_def Let_def split: if_splits sum.splits option.splits)

datatype change_op = FromProvider decoders string string "string + string" | Posted "change_body option"

type_synonym change_request = "change_env \<times> change_op"

definition change_step :: "change_request \<Rightarrow> change_row list \<Rightarrow> change_answer \<times> change_row list" where
  "change_step r = (case r of (env, op) \<Rightarrow>
     (case op of FromProvider dec p et body \<Rightarrow> ChangeConnector env dec p et body | Posted b \<Rightarrow> CreateChange env b))"

definition change_caller :: "change_request \<Rightarrow> string" where
  "change_caller r = ctxTenant (he_ident (fst r))"

lemma change_appends:
  "\<exists>rows. snd (change_step (env, op) tbl) = tbl @ rows \<and> list_all (\<lambda>r. cw_TenantID r = ctxTenant (he_ident env)) rows \<and>
     (rows = [] \<or> HasScope (he_ident env) [''logs:ingest''] \<and> he_insert env = None)"
  by (cases op) (auto simp: change_step_def ChangeConnector_def CreateChange_def row_of_def ChangeEvent.extend_def Let_def list_all_iff
      split: if_splits sum.split option.split outcome.split)

lemma change_answer_same: "fst (change_step r tbl) = fst (change_step r tbl')"
  by (cases r; cases "snd r") (auto simp: change_step_def ChangeConnector_def CreateChange_def Let_def split: sum.split option.split outcome.split)

lemma change_append_same: "\<exists>rows. snd (change_step r tbl) = tbl @ rows \<and> snd (change_step r tbl') = tbl' @ rows"
  by (cases r; cases "snd r") (auto simp: change_step_def ChangeConnector_def CreateChange_def Let_def split: sum.split option.split outcome.split)

lemma owned_none: "list_all (\<lambda>r. tn r = u) rows \<Longrightarrow> u \<noteq> t \<Longrightarrow> owned tn t rows = []"
  by (induction rows) (auto simp: owned_def)

interpretation changes: tenant_service change_step change_caller "owned cw_TenantID" "\<lambda>_. True"
proof (unfold_locales, goal_cases)
  case (2 st r t)
  obtain env op where r: "r = (env, op)" by force
  obtain rows where "snd (change_step r st) = st @ rows" "list_all (\<lambda>x. cw_TenantID x = change_caller r) rows"
    using change_appends[of env op st] unfolding r change_caller_def fst_conv by blast
  then show ?case using owned_none[of cw_TenantID _ rows] 2(2) by (simp add: owned_append)
next
  case (3 st st' r)
  obtain rows where "snd (change_step r st) = st @ rows" "snd (change_step r st') = st' @ rows" using change_append_same by blast
  then show ?case using 3(3) change_answer_same[of r st st'] by (simp add: owned_append)
qed simp

text \<open>
  C31. What the change endpoints write: rows are only added, only for a caller with the ingest scope, and each
  carries the tenant of the caller, whatever the payload says. A provider payload gives at most one row, a deploy
  or a flag, and the answer counts and names exactly the rows written.
\<close>

theorem change_rows_owned:
  assumes "change_step (env, op) tbl = (a, tbl')"
  shows "\<exists>rows. tbl' = tbl @ rows \<and> list_all (\<lambda>r. cw_TenantID r = ctxTenant (he_ident env)) rows \<and>
    (rows = [] \<or> HasScope (he_ident env) [''logs:ingest''] \<and> he_insert env = None) \<and>
    (case a of HAccepted n p ids \<Rightarrow> n = length rows \<and> ids = map cw_ID rows \<and> n \<le> 1 \<and> list_all (\<lambda>r. ce_Kind r = ''deploy'' \<or> ce_Kind r = ''flag'') rows
     | HCreated i k ts \<Rightarrow> length rows = 1 \<and> cw_ID (hd rows) = i \<and> ce_Kind (hd rows) = k \<and> cw_Timestamp (hd rows) = he_stamp env ts
     | HError c x \<Rightarrow> rows = [])"
proof (cases op)
  case (FromProvider dec p et body)
  show ?thesis
  proof (cases "HasScope (he_ident env) [''logs:ingest'']")
    case False
    then show ?thesis using assms FromProvider by (auto simp: change_step_def ChangeConnector_def)
  next
    case scope: True
    show ?thesis
    proof (cases body)
      case (Inl e)
      then show ?thesis using assms FromProvider scope by (auto simp: change_step_def ChangeConnector_def)
    next
      case (Inr payload)
      show ?thesis
      proof (cases "change_Parse dec p et (take (2 ^ 20) payload)")
        case (Ok es)
        then consider "es = []" | e where "es = [e]" "ce_Kind e = ''deploy'' \<or> ce_Kind e = ''flag''" using parsed_shape[OF Ok] by (cases es) auto
        then show ?thesis using assms FromProvider scope Inr Ok
          by cases (auto simp: change_step_def ChangeConnector_def row_of_def ChangeEvent.extend_def Let_def split: option.splits)
      qed (use assms FromProvider scope Inr in \<open>auto simp: change_step_def ChangeConnector_def\<close>)
    qed
  qed
next
  case (Posted b)
  then show ?thesis using assms
    by (auto simp: change_step_def CreateChange_def row_of_def ChangeEvent.extend_def Let_def split: if_splits option.splits)
qed

definition change_demo_env :: change_env where
  "change_demo_env = \<lparr>he_ident = \<lparr>ctxTenant = ''acme'', ctxScopes = [''logs:ingest'']\<rparr>, he_newid = (\<lambda>_. ''i1''), he_now = 5, he_stamp = (\<lambda>_. ''now''),
     he_insert = None, he_text = (\<lambda>_. [])\<rparr>"

definition demo_decoders :: decoders where
  "demo_decoders = \<lparr>dc_github = (\<lambda>_. Inl ''x''), dc_gitlab = (\<lambda>_. Inl ''x''),
     dc_launchdarkly = (\<lambda>_. Inr \<lparr>ld_Name = ''dark'', ld_Title = [], ld_TitleVerb = ''turned on'', ld_Member = ''a@b''\<rparr>)\<rparr>"

theorem change_rows_owned_witness:
  "\<exists>row. change_step (change_demo_env, FromProvider demo_decoders ''LD'' [] (Inr ''{}'')) [] = (HAccepted 1 ''LD'' [''i1''], [row]) \<and>
     cw_TenantID row = ''acme'' \<and> ce_Title row = ''Flag dark turned on''"
proof -
  define es where "es = [no_event\<lparr>ce_Kind := ''flag'', ce_FlagKey := ''dark'', ce_Title := ''Flag dark turned on'', ce_Author := ''a@b''\<rparr>]"
  have "ToLower ''LD'' = ''ld''" "TrimSpace (''Flag '' @ ''dark'' @ '' '' @ ''turned on'') = ''Flag dark turned on''" by code_simp+
  then have "change_Parse demo_decoders ''LD'' [] b = Ok es" for b
    by (simp add: change_Parse_def parseLaunchDarkly_def demo_decoders_def Let_def es_def)
  then obtain row where s: "change_step (change_demo_env, FromProvider demo_decoders ''LD'' [] (Inr ''{}'')) [] = (HAccepted 1 ''LD'' [''i1''], [row])"
    and row: "ce_Title row = ''Flag dark turned on''"
    by (simp add: change_step_def ChangeConnector_def change_demo_env_def es_def row_of_def ChangeEvent.extend_def)
  from change_rows_owned[OF s] have "cw_TenantID row = ctxTenant (he_ident change_demo_env)" by auto
  then show ?thesis using s row by (simp add: change_demo_env_def)
qed

text \<open>A flag event of LaunchDarkly carries no service.\<close>

lemma flags_without_service:
  "ToLower provider = ''launchdarkly'' \<Longrightarrow> change_Parse dec provider et payload = Ok es \<Longrightarrow> e \<in> set es \<Longrightarrow> ce_Service e = []"
  by (auto simp: change_Parse_def parseLaunchDarkly_def no_event_def Let_def split: sum.splits)

end
