(* ===== verification/Investigate.thy ===== *)
theory Investigate
  imports Rca_Laws Forecast_Laws Ops_Tables Changes
begin

text \<open>
  The investigation endpoints together: the timeline, the culprits of a regression, the root causes, the topology, the
  forecast and the chart overlays (\<open>platform/api/handler/overlays.go\<close>). Each reads ClickHouse through statements of
  the caller's tenant and the incidents of that tenant; what it answers depends on nothing else in the stores.
\<close>

section \<open>Overlays\<close>

definition overlaySQL :: "string \<Rightarrow> int \<Rightarrow> string \<Rightarrow> string" where
  "overlaySQL tenant w service =
     ''SELECT toString(timestamp) AS ts, kind, title, service, git_sha, deploy_id FROM change_events WHERE tenant_id = '' @
     QuoteLiteral tenant @ '' AND timestamp > '' @ ago_sql w @
     (if service \<noteq> [] then '' AND service = '' @ QuoteLiteral service else []) @ '' ORDER BY timestamp DESC LIMIT 200''"

record overlay =
  ov_Title :: string
  ov_Service :: "string option"
  ov_Severity :: string
  ov_Start :: int
  ov_End :: int
  ov_Status :: string

definition overlay_of :: "incident_row \<Rightarrow> overlay" where
  "overlay_of r = \<lparr>ov_Title = ic_Title r, ov_Service = ic_Service r, ov_Severity = ic_Severity r, ov_Start = ic_FirstSeen r, ov_End = ic_LastSeen r, ov_Status = ic_Status r\<rparr>"

text \<open>\<open>f\<close> is the error of the incident statement if it fails, \<open>now\<close> the time of the database.\<close>

definition Overlays :: "identity \<Rightarrow> (string \<Rightarrow> string) \<Rightarrow> ch_query \<Rightarrow> incident_row list \<Rightarrow> fault \<Rightarrow> int \<Rightarrow> (goerror \<Rightarrow> string) \<Rightarrow> (row list \<times> overlay list) served" where
  "Overlays ident q ch incidents f now errtext =
     (if \<not> HasScope ident [''logs:read'', ''logs:query''] then Refused 403 ''requires logs:read or logs:query scope''
      else let tenant = ctxTenant ident; w = window_param (q ''since''); service = q ''service'' in
        case ch (overlaySQL tenant w service) of
          Err e \<Rightarrow> Refused 502 (errtext e)
        | Panic \<Rightarrow> Refused 500 []
        | Ok rows \<Rightarrow>
            (case f of Some e \<Rightarrow> Refused 500 e
             | None \<Rightarrow> Served (rows, map overlay_of (take 200 (order_desc ic_LastSeen
                 (filter (\<lambda>r. ic_LastSeen r > now - w * 10 ^ 9 \<and> (service = [] \<or> ic_Service r = Some service)) (owned ic_TenantID tenant incidents)))))))"

lemma overlay_laid: "laid_out tenant (overlaySQL tenant w service)"
proof -
  let ?pre = "''SELECT toString(timestamp) AS ts, kind, title, service, git_sha, deploy_id''"
  let ?post = "'' ORDER BY timestamp DESC LIMIT 200''"
  let ?cs = "(''timestamp'' @ '' > '' @ ''now() - INTERVAL '' @ show_int w @ '' SECOND'') # (if service \<noteq> [] then [''service = '' @ quote service] else [])"
  have l: "lays False 0 ''SELECT toString(timestamp) AS ts, kind, title, service, git_sha, deploy_id FROM change_events WHERE tenant_id = '' (?pre @ '' FROM '' @ ''change_events'' @ '' WHERE tenant_id = '') True 0"
    "lays False 0 '' AND timestamp > '' '' AND timestamp > '' True 0" "lays False 0 '' AND service = '' '' AND service = '' True 0" "lays False 0 ?post ?post False 0" by code_simp+
  have s: "lays False 0 (if service \<noteq> [] then '' AND service = '' @ quote service else []) (if service \<noteq> [] then '' AND service = '' @ quote service else []) False 0"
    using lays_append[OF l(3) lays_quote] by (simp add: lays_def)
  have r: "lays False 0 ('' AND timestamp > '' @ ago_sql w @ (if service \<noteq> [] then '' AND service = '' @ quote service else []) @ ?post)
      (concat (map (\<lambda>c. '' AND '' @ c) ?cs) @ ?post) False 0"
    using lays_append[OF l(2) lays_append[OF lays_ago lays_append[OF s l(4)]], of w] by (cases "service = []") (simp_all add: ago_sql_def)
  have c: "list_all conjunct ?cs" using conjunct_since[of "'' > ''" w] service_conjunct
    by (cases "service = []") (simp_all only: list.pred_inject simp_thms insert_iff if_True if_False)
  have e: "q_run (Sql (Out 0)) ?pre = Sql (Out 0)" "''change_events'' \<in> set read_tables" "ends_where ?post" "q_run (Sql (Out 0)) ?post = Sql (Out 0)" by code_simp+
  show ?thesis using laid_out_select[OF l(1) r e(1,2) c e(3,4)] unfolding overlaySQL_def QuoteLiteral_def by (simp only: append_assoc)
qed

section \<open>The endpoints together\<close>

text \<open>The service of an incident, as the handlers look it up.\<close>

definition incident_service :: "incident_row list \<Rightarrow> string \<Rightarrow> string \<Rightarrow> string option" where
  "incident_service incidents tenant i = (case find (\<lambda>r. ic_ID r = i \<and> ic_TenantID r = tenant) incidents of Some r \<Rightarrow> ic_Service r | None \<Rightarrow> None)"

text \<open>The library functions the endpoints share: out-of-range conversions, \<open>math.Exp\<close>, \<open>fmt.Sprint\<close>, \<open>strconv.ParseFloat\<close> and the text of an error.\<close>

record libs =
  li_Oob :: "f64 \<Rightarrow> int"
  li_Exp :: "f64 \<Rightarrow> f64"
  li_Sprint :: "any \<Rightarrow> string"
  li_Float :: "string \<Rightarrow> f64 option"
  li_Text :: "goerror \<Rightarrow> string"

datatype probe = ProbeTimeline | ProbeCulprits | ProbeCauses | ProbeTopology | ProbeForecast | ProbeOverlays fault int

datatype finding = Events "Event list served" | Culprits "(string \<times> int \<times> Culprit list) served"
  | Causes "(string \<times> int \<times> Candidate list) served" | Picture "Graph served" | Outlook "forecastResponse served" | Markers "(row list \<times> overlay list) served"

definition investigate :: "probe \<Rightarrow> identity \<Rightarrow> (string \<Rightarrow> string) \<Rightarrow> libs \<Rightarrow> incident_row list \<Rightarrow> ch_query \<Rightarrow> finding" where
  "investigate p ident q l incidents ch = (case p of
     ProbeTimeline \<Rightarrow> Events (Timeline_h ident q ch (li_Text l))
   | ProbeCulprits \<Rightarrow> Culprits (DeployCulprits ident q (incident_service incidents) ch (li_Oob l) (li_Exp l) (li_Text l))
   | ProbeCauses \<Rightarrow> Causes (RCA_h ident q (incident_service incidents) ch (li_Oob l) (li_Exp l) (li_Sprint l) (li_Text l))
   | ProbeTopology \<Rightarrow> Picture (Topology_h ident q ch (li_Oob l) (li_Text l))
   | ProbeForecast \<Rightarrow> Outlook (Forecast_h ident q ch (li_Float l) (li_Text l))
   | ProbeOverlays f now \<Rightarrow> Markers (Overlays ident q ch incidents f now (li_Text l)))"


definition demo_reader :: identity where "demo_reader = \<lparr>ctxTenant = ''acme'', ctxScopes = [''logs:read'']\<rparr>"

definition demo_libs :: libs where
  "demo_libs = \<lparr>li_Oob = (\<lambda>_. 0), li_Exp = demo_exp, li_Sprint = str_of, li_Float = (\<lambda>_. None), li_Text = (\<lambda>_. [])\<rparr>"

definition demo_incident :: "string \<Rightarrow> incident_row" where
  "demo_incident t = \<lparr>ic_ID = ''i1'', ic_Title = ''x'', ic_Service = Some ''api'', ic_Severity = ''high'', ic_Confidence = Fin 1, ic_Status = ''open'', ic_SignalCount = 1,
     ic_DeployID = None, ic_CorrelatedRules = [], ic_Paged = True, ic_FirstSeen = 1, ic_LastSeen = 2, ic_ResolvedAt = None, ic_TenantID = t, ic_Fingerprint = []\<rparr>"

text \<open>A store that differs from the empty one on a statement that is not one of the tenant.\<close>

definition other_tenant_store :: "ch_query" where
  "other_tenant_store sql = (if sql = [] then Ok [[(''service'', AnyStr ''x'')]] else Ok [])"

lemma no_empty_read: "\<not> tenant_sql t []"
proof
  assume "tenant_sql t []"
  then have "confined t [] \<or> (\<exists>w. [] = edgeSQL t w)" by (auto simp: tenant_sql_def laid_out_def flat_def)
  then show False by (auto simp: confined_def edgeSQL_def)
qed


section \<open>Flags are no culprits\<close>

text \<open>
  A LaunchDarkly flag change is never ranked: its event carries no service, and the ranking of culprits is only
  ever served for a service that is not empty, so no answer is for the service of the event. The comment on the
  connectors says a flag flip is ranked as a potential culprit of any regression that follows.
\<close>

theorem flag_events_never_ranked:
  assumes "ToLower provider = ''launchdarkly''" "change_Parse dec provider et payload = Ok es" "e \<in> set es"
    and "DeployCulprits ident q inc ch oob ex errtext = Served (service, w, cs)"
  shows "service \<noteq> ce_Service e"
proof -
  have "ce_Service e = []" by (rule flags_without_service[OF assms(1-3)])
  moreover have "service \<noteq> []" using assms(4) by (auto simp: DeployCulprits_def Let_def split: if_splits outcome.splits)
  ultimately show ?thesis by simp
qed

theorem flag_events_never_ranked_witness:
  "\<exists>e w cs. change_Parse demo_decoders ''launchdarkly'' [] [] = Ok [e] \<and> ce_Kind e = ''flag'' \<and>
     DeployCulprits demo_reader (\<lambda>k. if k = ''service'' then ''api'' else []) (\<lambda>_ _. None) (\<lambda>_. Ok []) (\<lambda>_. 0) demo_exp (\<lambda>_. []) = Served (''api'', w, cs) \<and>
     ''api'' \<noteq> ce_Service e"
proof -
  have l: "ToLower ''launchdarkly'' = ''launchdarkly''" by code_simp
  obtain e where e: "change_Parse demo_decoders ''launchdarkly'' [] [] = Ok [e]" "ce_Kind e = ''flag''"
    using l by (simp add: change_Parse_def parseLaunchDarkly_def demo_decoders_def Let_def)
  obtain w cs where d: "DeployCulprits demo_reader (\<lambda>k. if k = ''service'' then ''api'' else []) (\<lambda>_ _. None) (\<lambda>_. Ok []) (\<lambda>_. 0) demo_exp (\<lambda>_. []) = Served (''api'', w, cs)"
    by (simp add: DeployCulprits_def demo_reader_def service_param_def RankCulprits_def wrap_err_def Let_def)
  show ?thesis using flag_events_never_ranked[OF l e(1) _ d] e d by auto
qed

end
