(* ===== verification/Copilot.thy ===== *)
theory Copilot
  imports Ai_Gateway Tenant_Store
begin

text \<open>
  The copilot handlers, \<open>platform/api/handler/copilot.go\<close>, \<open>copilot_chat.go\<close> and \<open>nl_query.go\<close>, over the tables of
  migrations 0016 and 0019. The HTTP call to the model and the JSON decoders of its answer are arguments
  (\<open>lw_post\<close> gives the status and the body, \<open>lw_envelope\<close> the texts of the content blocks, \<open>lw_parse\<close> the two fields of
  the model's object). Every step also gives the prompts it sent to the model.
\<close>

section \<open>The call to the model\<close>

record llm_world =
  lw_post :: "string \<Rightarrow> (goerror, int \<times> string) outcome"
  lw_envelope :: "string \<Rightarrow> string list option"
  lw_parse :: "string \<Rightarrow> (string \<times> string) option"

definition aigwModel :: string where "aigwModel = ''claude-sonnet-5''"

definition bquotes :: "string \<Rightarrow> string" where
  "bquotes t = rev (dropWhile (\<lambda>c. c = CHR 0x60) (rev (dropWhile (\<lambda>c. c = CHR 0x60) t)))"

definition json_fence :: string where "json_fence = ''json'' @ [CHR 0x0A]"

text \<open>The text of the answer without a Markdown code fence around it.\<close>

definition unfence :: "string \<Rightarrow> string" where
  "unfence raw =
     (let text = TrimSpace raw in
      if HasPrefix text [CHR 0x60, CHR 0x60, CHR 0x60] then
        (let text = bquotes text; text = (if HasPrefix text json_fence then drop (length json_fence) text else text) in TrimSpace text)
      else text)"

definition Complete :: "llm_world \<Rightarrow> string \<Rightarrow> (goerror, LlmResult) outcome" where
  "Complete w prompt =
     (case lw_post w prompt of
        Err e \<Rightarrow> Err e | Panic \<Rightarrow> Panic
      | Ok (status, raw) \<Rightarrow>
          if status \<ge> 400 then Err (Errorf ''anthropic api %d: %s'' [show_int status, raw])
          else (case lw_envelope w raw of
             Some (block # _) \<Rightarrow>
               let text = unfence block in
               (case lw_parse w text of
                  None \<Rightarrow> Err (Errorf ''model returned non-JSON: %s'' [text])
                | Some (q, ex) \<Rightarrow> if q = [] then Err (Errorf ''model returned empty loqlpp field'' []) else Ok \<lparr>lr_LogQLPP = q, lr_Explanation = ex\<rparr>)
           | _ \<Rightarrow> Err (Errorf ''unexpected response: %s'' [raw])))"

section \<open>Tables\<close>

record feature_row =
  ft_Enabled :: bool
  ft_Consent :: bool
  ft_UpdatedAt :: int

record conversation_row =
  cv_ID :: string
  cv_TenantID :: string
  cv_Title :: string
  cv_CreatedAt :: int

record message_row =
  mg_TenantID :: string
  mg_ConversationID :: string
  mg_Turn :: Turn
  mg_CreatedAt :: int

record copilot_store =
  ps_features :: "string \<Rightarrow> feature_row option"
  ps_conversations :: "conversation_row list"
  ps_messages :: "message_row list"
  ps_decisions :: "AuditEntry list"

record copilot_env =
  pe_ident :: identity
  pe_fault :: "nat \<Rightarrow> fault"
  pe_newid :: string
  pe_now :: int
  pe_apiKey :: string
  pe_llm :: llm_world
  pe_text :: "goerror \<Rightarrow> string"

abbreviation pe_tenant :: "copilot_env \<Rightarrow> string" where
  "pe_tenant env \<equiv> ctxTenant (pe_ident env)"

datatype copilot_answer =
    PError int string
  | PQuery string string
  | PStarted string int
  | PMessage string string string
  | PTurns string "Turn list"
  | PFeatures bool bool int

type_synonym copilot_result = "(copilot_answer \<times> string list) \<times> copilot_store"

definition refuse :: "int \<Rightarrow> string \<Rightarrow> copilot_store \<Rightarrow> copilot_result" where
  "refuse code text st = ((PError code text, []), st)"

section \<open>Gates and records\<close>

definition not_enabled :: string where
  "not_enabled = ''AI features are not enabled for this tenant (admin opt-in required)''"

definition no_key :: string where
  "no_key = ''AI copilot is not configured (ANTHROPIC_API_KEY not set)''"

definition no_question :: string where
  "no_question = ''request body must be JSON with a non-empty '' @ [CHR 0x22] @ ''question'' @ [CHR 0x22] @ '' field''"

definition copilotFeatureEnabled :: "copilot_env \<Rightarrow> nat \<Rightarrow> copilot_store \<Rightarrow> bool" where
  "copilotFeatureEnabled env n st \<longleftrightarrow>
     (case pe_fault env n of Some _ \<Rightarrow> False
      | None \<Rightarrow> (case ps_features st (pe_tenant env) of Some f \<Rightarrow> ft_Enabled f | None \<Rightarrow> False))"

definition aigwLogDecision :: "copilot_env \<Rightarrow> nat \<Rightarrow> AuditEntry \<Rightarrow> copilot_store \<Rightarrow> copilot_store" where
  "aigwLogDecision env n e st =
     (if ae_TenantID e = [] \<or> pe_fault env n \<noteq> None then st else st\<lparr>ps_decisions := ps_decisions st @ [e]\<rparr>)"

definition governed :: "copilot_env \<Rightarrow> string \<Rightarrow> string \<Rightarrow> (goerror, LlmResult) outcome \<times> AuditEntry \<times> string list" where
  "governed env question context =
     Govern \<lparr>aq_TenantID = pe_tenant env, aq_Enabled = True, aq_Feature = ''copilot'', aq_Question = question, aq_Context = context, aq_Model = aigwModel\<rparr>
       (Complete (pe_llm env))"

section \<open>Handlers\<close>

text \<open>The body is the question and the context.\<close>

definition Copilot :: "copilot_env \<Rightarrow> (string \<times> string) option \<Rightarrow> copilot_store \<Rightarrow> copilot_result" where
  "Copilot env body st =
     (if \<not> HasScope (pe_ident env) [''logs:query''] then refuse 403 ''requires logs:query scope'' st
      else if \<not> copilotFeatureEnabled env 0 st then refuse 403 not_enabled st
      else if pe_apiKey env = [] then refuse 501 no_key st
      else case body of None \<Rightarrow> refuse 400 no_question st
      | Some (question, context) \<Rightarrow>
          if TrimSpace question = [] then refuse 400 no_question st
          else case governed env question context of
            (res, entry, sent) \<Rightarrow>
              ((case res of Ok r \<Rightarrow> PQuery (lr_LogQLPP r) (lr_Explanation r) | Err e \<Rightarrow> PError 502 (pe_text env e) | Panic \<Rightarrow> PError 500 [], sent),
               aigwLogDecision env 1 entry st))"

definition copilotChatTruncate :: "string \<Rightarrow> nat \<Rightarrow> string" where
  "copilotChatTruncate s n = take n (TrimSpace s)"

text \<open>A body that does not decode is an empty title.\<close>

definition StartCopilotConversation :: "copilot_env \<Rightarrow> string \<Rightarrow> copilot_store \<Rightarrow> copilot_result" where
  "StartCopilotConversation env title st =
     (if \<not> HasScope (pe_ident env) [''logs:query''] then refuse 403 ''requires logs:query scope'' st
      else if \<not> copilotFeatureEnabled env 0 st then refuse 403 not_enabled st
      else case pe_fault env 1 of Some e \<Rightarrow> refuse 500 e st
      | None \<Rightarrow> ((PStarted (pe_newid env) (pe_now env), []),
          st\<lparr>ps_conversations := ps_conversations st @ [\<lparr>cv_ID = pe_newid env, cv_TenantID = pe_tenant env, cv_Title = copilotChatTruncate title 120, cv_CreatedAt = pe_now env\<rparr>]\<rparr>))"

definition copilotChatOwns :: "copilot_env \<Rightarrow> nat \<Rightarrow> string \<Rightarrow> copilot_store \<Rightarrow> bool" where
  "copilotChatOwns env n c st \<longleftrightarrow> pe_fault env n = None \<and> list_ex (\<lambda>r. cv_ID r = c \<and> cv_TenantID r = pe_tenant env) (ps_conversations st)"

definition copilotChatHistory :: "copilot_env \<Rightarrow> nat \<Rightarrow> string \<Rightarrow> copilot_store \<Rightarrow> Turn list" where
  "copilotChatHistory env n c st =
     (if pe_fault env n \<noteq> None then []
      else map mg_Turn (sort_key mg_CreatedAt (filter (\<lambda>m. mg_ConversationID m = c) (owned mg_TenantID (pe_tenant env) (ps_messages st)))))"

definition add_turn :: "copilot_env \<Rightarrow> nat \<Rightarrow> string \<Rightarrow> Turn \<Rightarrow> copilot_store \<Rightarrow> copilot_store" where
  "add_turn env n c t st =
     (if pe_fault env n \<noteq> None then st
      else st\<lparr>ps_messages := ps_messages st @ [\<lparr>mg_TenantID = pe_tenant env, mg_ConversationID = c, mg_Turn = t, mg_CreatedAt = pe_now env\<rparr>]\<rparr>)"

definition CopilotConversationMessage :: "copilot_env \<Rightarrow> string \<Rightarrow> (string \<times> string) option \<Rightarrow> copilot_store \<Rightarrow> copilot_result" where
  "CopilotConversationMessage env c body st =
     (if \<not> HasScope (pe_ident env) [''logs:query''] then refuse 403 ''requires logs:query scope'' st
      else if \<not> copilotFeatureEnabled env 0 st then refuse 403 not_enabled st
      else if pe_apiKey env = [] then refuse 501 no_key st
      else if \<not> copilotChatOwns env 1 c st then refuse 404 ''conversation not found'' st
      else case body of None \<Rightarrow> refuse 400 no_question st
      | Some (question, context) \<Rightarrow>
          if TrimSpace question = [] then refuse 400 no_question st
          else let prompt = BuildThreadPrompt (copilotChatHistory env 2 c st) question DefaultHistoryTurns;
                   st = add_turn env 3 c \<lparr>tu_Role = ''user'', tu_Content = question, tu_LogQLPP = []\<rparr> st
            in case governed env prompt context of
              (res, entry, sent) \<Rightarrow>
                let st = aigwLogDecision env 4 entry st in
                (case res of
                   Ok r \<Rightarrow> ((PMessage c (lr_LogQLPP r) (lr_Explanation r), sent),
                     add_turn env 5 c \<lparr>tu_Role = ''assistant'', tu_Content = lr_Explanation r, tu_LogQLPP = lr_LogQLPP r\<rparr> st)
                 | Err e \<Rightarrow> ((PError 502 (pe_text env e), sent), st)
                 | Panic \<Rightarrow> ((PError 500 [], sent), st)))"

definition GetCopilotConversation :: "copilot_env \<Rightarrow> string \<Rightarrow> copilot_store \<Rightarrow> copilot_result" where
  "GetCopilotConversation env c st =
     (if \<not> HasScope (pe_ident env) [''logs:query''] then refuse 403 ''requires logs:query scope'' st
      else if \<not> copilotChatOwns env 0 c st then refuse 404 ''conversation not found'' st
      else ((PTurns c (copilotChatHistory env 1 c st), []), st))"

definition GetAIFeatures :: "copilot_env \<Rightarrow> copilot_store \<Rightarrow> copilot_result" where
  "GetAIFeatures env st =
     (case pe_fault env 0 of Some e \<Rightarrow> refuse 500 e st
      | None \<Rightarrow> case ps_features st (pe_tenant env) of
          None \<Rightarrow> ((PFeatures False False (pe_now env), []), st)
        | Some f \<Rightarrow> ((PFeatures (ft_Enabled f) (ft_Consent f) (ft_UpdatedAt f), []), st))"

text \<open>The body is the two flags; an error of the read leaves both at false.\<close>

definition UpdateAIFeatures :: "copilot_env \<Rightarrow> (bool option \<times> bool option) option \<Rightarrow> copilot_store \<Rightarrow> copilot_result" where
  "UpdateAIFeatures env body st =
     (case body of None \<Rightarrow> refuse 400 ''invalid JSON body'' st
      | Some (e, c) \<Rightarrow>
          let (enabled, consent) = (case (pe_fault env 0, ps_features st (pe_tenant env)) of (None, Some f) \<Rightarrow> (ft_Enabled f, ft_Consent f) | _ \<Rightarrow> (False, False));
              enabled = (case e of Some b \<Rightarrow> b | None \<Rightarrow> enabled); consent = (case c of Some b \<Rightarrow> b | None \<Rightarrow> consent)
          in case pe_fault env 1 of Some x \<Rightarrow> refuse 500 x st
             | None \<Rightarrow> ((PFeatures enabled consent (pe_now env), []),
                 st\<lparr>ps_features := (ps_features st)(pe_tenant env \<mapsto> \<lparr>ft_Enabled = enabled, ft_Consent = consent, ft_UpdatedAt = pe_now env\<rparr>)\<rparr>))"

text \<open>The older translation, which calls the model directly: no opt-in, no masking, no audit row.\<close>

definition NLQuery :: "string \<Rightarrow> llm_world \<Rightarrow> (goerror \<Rightarrow> string) \<Rightarrow> string option \<Rightarrow> (string \<times> string) http_answer \<times> string list" where
  "NLQuery apiKey w errtext body =
     (if apiKey = [] then (Error 501 ''NL query is not configured (ANTHROPIC_API_KEY not set)'', [])
      else case body of
        None \<Rightarrow> (Error 400 (''request body must be JSON with a non-empty '' @ [CHR 0x22] @ ''query'' @ [CHR 0x22] @ '' field''), [])
      | Some q \<Rightarrow>
          if TrimSpace q = [] then (Error 400 (''request body must be JSON with a non-empty '' @ [CHR 0x22] @ ''query'' @ [CHR 0x22] @ '' field''), [])
          else ((case Complete w q of Ok r \<Rightarrow> Answer 200 (lr_LogQLPP r, lr_Explanation r) | Err e \<Rightarrow> Error 502 (errtext e) | Panic \<Rightarrow> Error 500 []), [q]))"

section \<open>Requests\<close>

datatype copilot_op = AskOnce "(string \<times> string) option" | StartChat string | Say string "(string \<times> string) option" | ReadChat string
  | GetFeatures | PutFeatures "(bool option \<times> bool option) option"

type_synonym copilot_request = "copilot_env \<times> copilot_op"

definition copilot_step :: "copilot_request \<Rightarrow> copilot_store \<Rightarrow> copilot_result" where
  "copilot_step r = (case r of (env, op) \<Rightarrow>
     (case op of AskOnce b \<Rightarrow> Copilot env b | StartChat t \<Rightarrow> StartCopilotConversation env t | Say c b \<Rightarrow> CopilotConversationMessage env c b
      | ReadChat c \<Rightarrow> GetCopilotConversation env c | GetFeatures \<Rightarrow> GetAIFeatures env | PutFeatures b \<Rightarrow> UpdateAIFeatures env b))"

definition copilot_caller :: "copilot_request \<Rightarrow> string" where
  "copilot_caller r = pe_tenant (fst r)"

definition copilot_view :: "string \<Rightarrow> copilot_store \<Rightarrow> feature_row option \<times> conversation_row list \<times> message_row list \<times> AuditEntry list" where
  "copilot_view t st = (ps_features st t, owned cv_TenantID t (ps_conversations st), owned mg_TenantID t (ps_messages st), owned ae_TenantID t (ps_decisions st))"

section \<open>Tenants\<close>

lemma governed_cases:
  "\<exists>r p e. governed env q c = (r, e, [p]) \<and> ae_TenantID e = pe_tenant env \<and> ae_PromptMasked e = p \<and> clean False p"
  using masked_prompt_clean by (auto simp: governed_def Govern_def Let_def split: outcome.split)

lemmas copilot_defs = Copilot_def StartCopilotConversation_def CopilotConversationMessage_def GetCopilotConversation_def GetAIFeatures_def UpdateAIFeatures_def
  refuse_def Let_def

lemmas copilot_reads = copilotFeatureEnabled_def copilotChatOwns_def copilotChatHistory_def

lemma view_log: "ae_TenantID e = pe_tenant env \<Longrightarrow>
    copilot_view t (aigwLogDecision env n e st) = (case copilot_view t st of (f, c, m, d) \<Rightarrow> (f, c, m, if t = pe_tenant env \<and> t \<noteq> [] \<and> pe_fault env n = None then d @ [e] else d))"
  by (auto simp: copilot_view_def aigwLogDecision_def owned_append owned_single)

lemma view_turn: "copilot_view t (add_turn env n c tu st) =
    (case copilot_view t st of (f, cs, m, d) \<Rightarrow> (f, cs, if t = pe_tenant env \<and> pe_fault env n = None
       then m @ [\<lparr>mg_TenantID = t, mg_ConversationID = c, mg_Turn = tu, mg_CreatedAt = pe_now env\<rparr>] else m, d))"
  by (auto simp: copilot_view_def add_turn_def owned_append owned_single)

lemma same_reads:
  assumes "copilot_view (pe_tenant env) st = copilot_view (pe_tenant env) st'"
  shows "copilotFeatureEnabled env n st = copilotFeatureEnabled env n st'" "copilotChatOwns env n c st = copilotChatOwns env n c st'"
    "copilotChatHistory env n c st = copilotChatHistory env n c st'" "ps_features st (pe_tenant env) = ps_features st' (pe_tenant env)"
  using assms by (simp_all add: copilot_reads copilot_view_def list_ex_owned split: option.split)

lemma copilot_respects: "copilot_caller r \<noteq> t \<Longrightarrow> copilot_view t (snd (copilot_step r st)) = copilot_view t st"
proof -
  obtain env op where r: "r = (env, op)" by force
  assume "copilot_caller r \<noteq> t"
  then have t: "t \<noteq> pe_tenant env" by (auto simp: r copilot_caller_def)
  have g: "copilot_view t (aigwLogDecision env n e s) = copilot_view t s" if "governed env q x = (res, e, sent)" for n q x res e sent s
    using governed_cases[of env q x] that t view_log[of e env t n s] by auto
  have m: "copilot_view t (add_turn env n c tu s) = copilot_view t s" for n c tu s using t by (simp add: view_turn split: prod.split)
  show ?thesis
  proof (cases op)
    case (AskOnce b)
    then show ?thesis by (auto simp: r copilot_step_def Copilot_def refuse_def g split: option.split prod.split)
  next
    case (StartChat title)
    then show ?thesis using t by (auto simp: r copilot_step_def StartCopilotConversation_def refuse_def copilot_view_def owned_append owned_single split: option.split)
  next
    case (Say c b)
    then show ?thesis by (auto simp: r copilot_step_def CopilotConversationMessage_def refuse_def Let_def g m split: option.split prod.split outcome.split)
  next
    case (ReadChat c)
    then show ?thesis by (simp add: r copilot_step_def GetCopilotConversation_def refuse_def)
  next
    case GetFeatures
    then show ?thesis by (simp add: r copilot_step_def GetAIFeatures_def refuse_def split: option.split)
  next
    case (PutFeatures b)
    then show ?thesis using t by (auto simp: r copilot_step_def UpdateAIFeatures_def refuse_def copilot_view_def Let_def split: option.split prod.split)
  qed
qed

lemma copilot_depends:
  assumes "copilot_view (copilot_caller r) st = copilot_view (copilot_caller r) st'"
  shows "fst (copilot_step r st) = fst (copilot_step r st') \<and> copilot_view (copilot_caller r) (snd (copilot_step r st)) = copilot_view (copilot_caller r) (snd (copilot_step r st'))"
proof -
  obtain env op where r: "r = (env, op)" by force
  have v: "copilot_view (pe_tenant env) st = copilot_view (pe_tenant env) st'" using assms by (simp add: r copilot_caller_def)
  note s = same_reads[OF v]
  have g: "copilot_view (pe_tenant env) (aigwLogDecision env n e a) = copilot_view (pe_tenant env) (aigwLogDecision env n e b)"
    if "governed env q x = (res, e, sent)" "copilot_view (pe_tenant env) a = copilot_view (pe_tenant env) b" for n q x res e sent a b
    using governed_cases[of env q x] that view_log[of e env "pe_tenant env" n a] view_log[of e env "pe_tenant env" n b] by auto
  have m: "copilot_view (pe_tenant env) (add_turn env n c tu a) = copilot_view (pe_tenant env) (add_turn env n c tu b)"
    if "copilot_view (pe_tenant env) a = copilot_view (pe_tenant env) b" for n c tu a b using that by (simp add: view_turn)
  show ?thesis
  proof (cases op)
    case (AskOnce b)
    then show ?thesis using v by (auto simp: r copilot_caller_def copilot_step_def Copilot_def refuse_def s intro: g split: option.split prod.split)
  next
    case (StartChat title)
    then show ?thesis using v by (auto simp: r copilot_caller_def copilot_step_def StartCopilotConversation_def refuse_def s copilot_view_def owned_append owned_single split: option.split)
  next
    case (Say c b)
    then show ?thesis using v by (auto simp: r copilot_caller_def copilot_step_def CopilotConversationMessage_def refuse_def Let_def s intro!: g m split: option.split prod.split outcome.split)
  next
    case (ReadChat c)
    then show ?thesis using v by (simp add: r copilot_caller_def copilot_step_def GetCopilotConversation_def refuse_def s)
  next
    case GetFeatures
    then show ?thesis using v by (simp add: r copilot_caller_def copilot_step_def GetAIFeatures_def refuse_def s split: option.split)
  next
    case (PutFeatures b)
    then show ?thesis using v by (auto simp: r copilot_caller_def copilot_step_def UpdateAIFeatures_def refuse_def copilot_view_def Let_def s(4) split: option.split prod.split)
  qed
qed

interpretation copilot: tenant_service copilot_step copilot_caller copilot_view "\<lambda>_. True"
  using copilot_respects copilot_depends by unfold_locales blast+

section \<open>Governance\<close>


definition demo_llm :: llm_world where
  "demo_llm = \<lparr>lw_post = (\<lambda>p. Ok (200, p)), lw_envelope = (\<lambda>r. Some [''x'']), lw_parse = (\<lambda>t. Some (''SELECT * FROM logs'', ''all logs''))\<rparr>"

definition copilot_demo_env :: copilot_env where
  "copilot_demo_env = \<lparr>pe_ident = \<lparr>ctxTenant = ''acme'', ctxScopes = [''logs:query'']\<rparr>, pe_fault = (\<lambda>_. None), pe_newid = ''c1'', pe_now = 7, pe_apiKey = ''k'',
     pe_llm = demo_llm, pe_text = (\<lambda>_. [])\<rparr>"

definition copilot_demo :: copilot_store where
  "copilot_demo = \<lparr>ps_features = (\<lambda>t. if t = ''acme'' then Some \<lparr>ft_Enabled = True, ft_Consent = False, ft_UpdatedAt = 0\<rparr> else None),
     ps_conversations = [\<lparr>cv_ID = ''c1'', cv_TenantID = ''acme'', cv_Title = [], cv_CreatedAt = 1\<rparr>], ps_messages = [], ps_decisions = []\<rparr>"


text \<open>The older endpoint sends the text as it is, for every tenant.\<close>

lemma NLQuery_raw: "apiKey \<noteq> [] \<Longrightarrow> TrimSpace q \<noteq> [] \<Longrightarrow> snd (NLQuery apiKey w errtext (Some q)) = [q]"
  by (simp add: NLQuery_def)

section \<open>Conversations\<close>

lemma sort_key_snoc: "(\<And>x. x \<in> set xs \<Longrightarrow> f x \<le> f a) \<Longrightarrow> sort_key f (xs @ [a]) = sort_key f xs @ [a]"
proof (induction xs)
  case (Cons x xs)
  have "insort_key f x (ys @ [a]) = insort_key f x ys @ [a]" if "f x \<le> f a" for ys using that by (induction ys) auto
  then show ?case using Cons by simp
qed simp



end
