(* ===== verification/Go_Url.thy ===== *)
theory Go_Url
  imports Go_Prelude "HOL-Library.List_Lexorder" "HOL-Library.Char_ord"
begin

text \<open>
  Query strings of Go's \<open>net/url\<close>: \<open>QueryEscape\<close>, \<open>Values.Encode\<close> and, as the reader on the other side,
  \<open>QueryUnescape\<close> and \<open>ParseQuery\<close>. Reading an encoded query gives the parameters back, so no value
  can add or change a parameter. A value set is a list of keys with one value each.
\<close>

section \<open>Escaping\<close>

definition hex_digit :: "int \<Rightarrow> char" where
  "hex_digit n = (if n < 10 then char_of (48 + n) else char_of (55 + n))"

definition hex_val :: "char \<Rightarrow> int option" where
  "hex_val c =
     (if isDigit c then Some (code_of c - 48)
      else if between CHR ''A'' CHR ''F'' c then Some (code_of c - 55)
      else if between CHR ''a'' CHR ''f'' c then Some (code_of c - 87)
      else None)"

definition unreserved :: "char \<Rightarrow> bool" where
  "unreserved c \<longleftrightarrow> between CHR ''a'' CHR ''z'' c \<or> between CHR ''A'' CHR ''Z'' c \<or> isDigit c \<or> c \<in> set ''-_.~''"

definition escape_byte :: "char \<Rightarrow> string" where
  "escape_byte c =
     (if unreserved c then [c] else if c = CHR '' '' then ''+''
      else [CHR ''%'', hex_digit (code_of c div 16), hex_digit (code_of c mod 16)])"

definition QueryEscape :: "string \<Rightarrow> string" where
  "QueryEscape s = concat (map escape_byte s)"

definition Encode :: "(string \<times> string) list \<Rightarrow> string" where
  "Encode vs = Join (map (\<lambda>(k, v). QueryEscape k @ ''='' @ QueryEscape v) (sort_key fst vs)) ''&''"

section \<open>Reading\<close>

fun QueryUnescape :: "string \<Rightarrow> string option" where
  "QueryUnescape [] = Some []"
| "QueryUnescape (c # cs) =
     (if c = CHR ''%'' then
        (case cs of
           a # b # ds \<Rightarrow> (case (hex_val a, hex_val b) of
              (Some x, Some y) \<Rightarrow> map_option ((#) (char_of (16 * x + y))) (QueryUnescape ds)
            | _ \<Rightarrow> None)
         | _ \<Rightarrow> None)
      else map_option ((#) (if c = CHR ''+'' then CHR '' '' else c)) (QueryUnescape cs))"

text \<open>The pieces between separators, and a piece cut at its first \<open>=\<close>.\<close>

fun split_on :: "char \<Rightarrow> string \<Rightarrow> string list" where
  "split_on x [] = [[]]"
| "split_on x (c # cs) = (if c = x then [] # split_on x cs else (case split_on x cs of p # ps \<Rightarrow> (c # p) # ps | [] \<Rightarrow> [[c]]))"

definition read_pair :: "string \<Rightarrow> (string \<times> string) option" where
  "read_pair p =
     (let k = takeWhile (\<lambda>c. c \<noteq> CHR ''='') p; v = drop (length k + 1) p in
      case (QueryUnescape k, QueryUnescape v) of (Some a, Some b) \<Rightarrow> Some (a, b) | _ \<Rightarrow> None)"

text \<open>\<open>ParseQuery\<close> skips empty pieces and pieces that do not decode.\<close>

definition ParseQuery :: "string \<Rightarrow> (string \<times> string) list" where
  "ParseQuery q = List.map_filter (\<lambda>p. if p = [] then None else read_pair p) (split_on CHR ''&'' q)"

section \<open>Round trip\<close>

lemma hex_digit_val: "0 \<le> n \<Longrightarrow> n < 16 \<Longrightarrow> hex_val (hex_digit n) = Some n"
proof -
  assume "0 \<le> n" "n < 16"
  then have "n \<in> set [0..15]" by simp
  moreover have "list_all (\<lambda>n. hex_val (hex_digit n) = Some n) [0..15]" by code_simp
  ultimately show ?thesis by (simp add: list_all_iff)
qed

lemma unescape_byte: "QueryUnescape (escape_byte c @ s) = map_option ((#) c) (QueryUnescape s)"
proof -
  have n: "0 \<le> code_of c div 16" "code_of c div 16 < 16" "0 \<le> code_of c mod 16" "code_of c mod 16 < 16" using code_of_bounds[of c] by auto
  have "char_of (16 * (code_of c div 16) + code_of c mod 16) = c"
  proof -
    have "16 * (code_of c div 16) + code_of c mod 16 = code_of c" by simp
    then show ?thesis by (simp add: code_of_def)
  qed
  moreover have "c \<noteq> CHR ''%'' \<and> c \<noteq> CHR ''+''" if "unreserved c" using that by (auto simp: unreserved_def isDigit_def between_def)
  ultimately show ?thesis by (auto simp: escape_byte_def hex_digit_val n)
qed

lemma unescape_escape_app: "QueryUnescape r = Some x \<Longrightarrow> QueryUnescape (QueryEscape s @ r) = Some (s @ x)"
  by (induction s) (simp_all add: QueryEscape_def unescape_byte)

lemma unescape_escape: "QueryUnescape (QueryEscape s) = Some s"
  using unescape_escape_app[of "[]" "[]" s] by simp

lemma hex_digit_plain: "0 \<le> n \<Longrightarrow> n < 16 \<Longrightarrow> hex_digit n \<noteq> CHR ''&'' \<and> hex_digit n \<noteq> CHR ''=''"
proof -
  assume "0 \<le> n" "n < 16"
  then have "n \<in> set [0..15]" by simp
  moreover have "list_all (\<lambda>n. hex_digit n \<noteq> CHR ''&'' \<and> hex_digit n \<noteq> CHR ''='') [0..15]" by code_simp
  ultimately show ?thesis by (simp add: list_all_iff)
qed

lemma escape_plain: "c \<in> set (QueryEscape s) \<Longrightarrow> c \<noteq> CHR ''&'' \<and> c \<noteq> CHR ''=''"
proof -
  have "c \<noteq> CHR ''&'' \<and> c \<noteq> CHR ''=''" if "c \<in> set (escape_byte x)" for x
  proof -
    have n: "0 \<le> code_of x div 16" "code_of x div 16 < 16" "0 \<le> code_of x mod 16" "code_of x mod 16 < 16" using code_of_bounds[of x] by auto
    show ?thesis using that hex_digit_plain[OF n(1,2)] hex_digit_plain[OF n(3,4)]
      by (auto simp: escape_byte_def unreserved_def isDigit_def between_def split: if_splits)
  qed
  then show "c \<in> set (QueryEscape s) \<Longrightarrow> ?thesis" by (auto simp: QueryEscape_def)
qed

lemma split_on_plain: "x \<notin> set p \<Longrightarrow> split_on x p = [p]"
  by (induction p) auto

lemma split_on_app: "x \<notin> set p \<Longrightarrow> split_on x (p @ x # q) = p # split_on x q"
  by (induction p) auto

lemma split_Join: "ps \<noteq> [] \<Longrightarrow> (\<And>p. p \<in> set ps \<Longrightarrow> x \<notin> set p) \<Longrightarrow> split_on x (Join ps [x]) = ps"
proof (induction ps)
  case (Cons p ps)
  then show ?case by (cases ps) (simp_all add: split_on_plain split_on_app)
qed simp

definition pair_text :: "string \<times> string \<Rightarrow> string" where
  "pair_text = (\<lambda>(k, v). QueryEscape k @ ''='' @ QueryEscape v)"

lemma read_pair_text: "read_pair (pair_text (k, v)) = Some (k, v)"
proof -
  have "takeWhile (\<lambda>c. c \<noteq> CHR ''='') (QueryEscape k @ ''='' @ QueryEscape v) = QueryEscape k"
    using escape_plain[of _ k] by (simp add: takeWhile_append2)
  then show ?thesis by (simp add: read_pair_def pair_text_def Let_def unescape_escape)
qed

lemma pair_text_plain: "CHR ''&'' \<notin> set (pair_text p)" "pair_text p \<noteq> []"
  using escape_plain by (auto simp: pair_text_def split: prod.splits)

theorem ParseQuery_Encode: "ParseQuery (Encode vs) = sort_key fst vs"
proof (cases "sort_key fst vs = []")
  case True
  then show ?thesis by (simp add: Encode_def ParseQuery_def map_filter_def)
next
  case False
  have e: "Encode vs = Join (map pair_text (sort_key fst vs)) ''&''" by (simp add: Encode_def pair_text_def)
  have "split_on CHR ''&'' (Encode vs) = map pair_text (sort_key fst vs)" unfolding e
    by (rule split_Join) (use False pair_text_plain in auto)
  moreover have "List.map_filter (\<lambda>p. if p = [] then None else read_pair p) (map pair_text ps) = ps" for ps
    by (induction ps) (auto simp: map_filter_def read_pair_text pair_text_plain)
  ultimately show ?thesis by (simp add: ParseQuery_def)
qed

end
