(* ===== verification/Ch_Client.thy ===== *)
theory Ch_Client
  imports Go_Url Go_Time Access
begin

text \<open>
  The client of the ClickHouse HTTP interface, \<open>platform/clickhouse/clickhouse.go\<close>. Sending a request, the check of its
  URL and the JSON of a row are arguments; the requests a call makes are part of its result.
\<close>

section \<open>Requests\<close>

record ch_client =
  cc_baseURL :: string
  cc_database :: string
  cc_user :: string
  cc_password :: string

record ch_request =
  cq_Method :: string
  cq_URL :: string
  cq_Headers :: "(string \<times> string) list"
  cq_Body :: string

text \<open>\<open>'r\<close> is the type of a row.\<close>

record 'r ch_world =
  cw_badURL :: "string \<Rightarrow> goerror option"
  cw_send :: "ch_request \<Rightarrow> (string, int \<times> string) outcome"
  cw_encode :: "'r \<Rightarrow> string + string"
  cw_decode :: "string \<Rightarrow> string + 'r"

definition client_New :: "string \<Rightarrow> string \<Rightarrow> string \<Rightarrow> string \<Rightarrow> ch_client" where
  "client_New url database user password = \<lparr>cc_baseURL = TrimRight_slash url, cc_database = database, cc_user = user, cc_password = password\<rparr>"

definition auth_headers :: "ch_client \<Rightarrow> (string \<times> string) list" where
  "auth_headers c =
     (if cc_user c \<noteq> [] then [(''X-ClickHouse-User'', cc_user c)] else []) @ (if cc_password c \<noteq> [] then [(''X-ClickHouse-Key'', cc_password c)] else [])"

definition newline :: string where "newline = [CHR 0x0A]"

text \<open>One call: the answer of the server, and the request when one was sent.\<close>

definition round_trip :: "'r ch_world \<Rightarrow> string \<Rightarrow> ch_request \<Rightarrow> (goerror, int \<times> string) outcome \<times> ch_request list" where
  "round_trip w fmt req =
     (case cw_badURL w (cq_URL req) of Some e \<Rightarrow> (Err e, [])
      | None \<Rightarrow> (case cw_send w req of Ok a \<Rightarrow> Ok a | Err e \<Rightarrow> Err (Errorf fmt [e]) | Panic \<Rightarrow> Panic, [req]))"

definition status_ok :: "int \<Rightarrow> bool" where
  "status_ok s \<longleftrightarrow> quot0 s 100 = 2"

definition Ping :: "'r ch_world \<Rightarrow> ch_client \<Rightarrow> (goerror, unit) outcome \<times> ch_request list" where
  "Ping w c =
     (case round_trip w ''clickhouse ping: %w'' \<lparr>cq_Method = ''GET'', cq_URL = cc_baseURL c @ ''/ping'', cq_Headers = [], cq_Body = []\<rparr> of
        (a, sent) \<Rightarrow> (bindO a (\<lambda>(status, body). if status \<noteq> 200 then Err (Errorf ''clickhouse ping: status %d'' [show_int status]) else Ok ()), sent))"

definition database_URL :: "ch_client \<Rightarrow> (string \<times> string) list \<Rightarrow> string" where
  "database_URL c params = cc_baseURL c @ ''/?'' @ Encode ((''database'', cc_database c) # params)"

definition posted :: "ch_client \<Rightarrow> (string \<times> string) list \<Rightarrow> string \<Rightarrow> ch_request" where
  "posted c params body = \<lparr>cq_Method = ''POST'', cq_URL = database_URL c params, cq_Headers = auth_headers c, cq_Body = body\<rparr>"

definition Exec :: "'r ch_world \<Rightarrow> ch_client \<Rightarrow> string \<Rightarrow> (goerror, unit) outcome \<times> ch_request list" where
  "Exec w c sql =
     (case round_trip w ''clickhouse exec: %w'' (posted c [] sql) of
        (a, sent) \<Rightarrow> (bindO a (\<lambda>(status, body).
          if \<not> status_ok status then Err (Errorf ''clickhouse exec: status %d: %s'' [show_int status, TrimSpace body]) else Ok ()), sent))"

fun decode_lines :: "(string \<Rightarrow> string + 'r) \<Rightarrow> string list \<Rightarrow> (goerror, 'r list) outcome" where
  "decode_lines dec [] = Ok []"
| "decode_lines dec (l # ls) =
     (if l = [] then decode_lines dec ls
      else case dec l of Inl e \<Rightarrow> Err (Errorf ''decode row: %w'' [e])
      | Inr r \<Rightarrow> bindO (decode_lines dec ls) (\<lambda>rs. Ok (r # rs)))"

definition client_Query :: "'r ch_world \<Rightarrow> ch_client \<Rightarrow> string \<Rightarrow> (goerror, 'r list) outcome \<times> ch_request list" where
  "client_Query w c sql =
     (case round_trip w ''clickhouse query: %w'' (posted c [] (sql @ newline @ ''FORMAT JSONEachRow'')) of
        (a, sent) \<Rightarrow> (bindO a (\<lambda>(status, body).
          if \<not> status_ok status then Err (Errorf ''clickhouse query: status %d: %s'' [show_int status, TrimSpace body])
          else decode_lines (cw_decode w) (split_on CHR 0x0A (TrimSpace body))), sent))"

text \<open>The encoder ends every row with a newline.\<close>

fun encode_rows :: "('r \<Rightarrow> string + string) \<Rightarrow> 'r list \<Rightarrow> (goerror, string) outcome" where
  "encode_rows enc [] = Ok []"
| "encode_rows enc (r # rs) =
     (case enc r of Inl e \<Rightarrow> Err (Errorf ''encode row: %w'' [e]) | Inr s \<Rightarrow> bindO (encode_rows enc rs) (\<lambda>t. Ok (s @ newline @ t)))"

definition Insert :: "'r ch_world \<Rightarrow> ch_client \<Rightarrow> string \<Rightarrow> 'r list \<Rightarrow> (goerror, unit) outcome \<times> ch_request list" where
  "Insert w c table rows =
     (if rows = [] then (Ok (), [])
      else case encode_rows (cw_encode w) rows of Err e \<Rightarrow> (Err e, []) | Panic \<Rightarrow> (Panic, [])
      | Ok buf \<Rightarrow>
          (case round_trip w ''clickhouse insert: %w''
              (posted c [(''query'', ''INSERT INTO '' @ table @ '' FORMAT JSONEachRow''), (''date_time_input_format'', ''best_effort'')] buf) of
             (a, sent) \<Rightarrow> (bindO a (\<lambda>(status, body).
               if \<not> status_ok status then Err (Errorf ''clickhouse insert: status %d: %s'' [show_int status, TrimSpace body]) else Ok ()), sent)))"

section \<open>Rows on the wire\<close>

text \<open>A line of the format: an object on one line.\<close>

definition row_line :: "string \<Rightarrow> bool" where
  "row_line l \<longleftrightarrow> l \<noteq> [] \<and> \<not> is_space (hd l) \<and> \<not> is_space (last l) \<and> CHR 0x0A \<notin> set l"

lemma trim_lines:
  assumes "ls \<noteq> []" "list_all row_line ls" shows "TrimSpace (concat (map (\<lambda>l. l @ newline) ls)) = Join ls newline"
proof -
  have j: "concat (map (\<lambda>l. l @ newline) ls) = Join ls newline @ newline" if "ls \<noteq> []" for ls
    using that by (induction ls "newline" rule: Join.induct) simp_all
  have h: "Join ls newline \<noteq> [] \<and> \<not> is_space (hd (Join ls newline)) \<and> \<not> is_space (last (Join ls newline))" using assms
    by (induction ls "newline" rule: Join.induct) (auto simp: row_line_def newline_def)
  have "is_space (CHR 0x0A)" by code_simp
  moreover have "dropWhile is_space (a @ newline) = a @ newline" if "a \<noteq> []" "\<not> is_space (hd a)" for a using that by (cases a) simp_all
  moreover have "dropWhile is_space (rev a) = rev a" if "a \<noteq> []" "\<not> is_space (last a)" for a using that by (cases a rule: rev_cases) simp_all
  ultimately show ?thesis using h unfolding j[OF assms(1)] by (simp add: TrimSpace_def newline_def)
qed

lemma decode_encoded:
  assumes "list_all (\<lambda>r. enc r = Inr (line r) \<and> line r \<noteq> [] \<and> dec (line r) = Inr r) rows"
  shows "decode_lines dec (map line rows) = Ok rows" "encode_rows enc rows = Ok (concat (map (\<lambda>r. line r @ newline) rows))"
  using assms by (induction rows) simp_all


definition demo_client :: ch_client where
  "demo_client = client_New ''http://ch:8123/'' ''qeet'' ''u'' []"

definition demo_wire :: "string ch_world" where
  "demo_wire = \<lparr>cw_badURL = (\<lambda>_. None), cw_send = (\<lambda>_. Ok (200, ''{a}'' @ newline @ ''{b}'' @ newline)), cw_encode = Inr, cw_decode = Inr\<rparr>"


end
