(* ===== verification/Erasure.thy ===== *)
theory Erasure
  imports Sql_Confined Tenant_Store
begin

text \<open>
  Erasure requests, \<open>platform/api/handler/erasure.go\<close>: the DELETE mutations a request submits to ClickHouse, the
  row that records it, and the listing. Every mutation is confined to the tenant and carries a further condition,
  and the recorded status tells whether ClickHouse accepted all of them.
\<close>

section \<open>Data\<close>

record erasureRequest =
  eq_UserLinkageKey :: string
  eq_TimeFrom :: string
  eq_TimeTo :: string

record erasureReceipt =
  rc_TablesAffected :: "string list"
  rc_Filters :: "string list"
  rc_SubmittedAt :: string
  rc_Note :: string

record erasure_row =
  er_id :: string
  er_tenant :: string
  er_key :: string
  er_status :: string
  er_requested :: int
  er_completed :: "int option"
  er_receipt :: "erasureReceipt option"

text \<open>\<open>ee_exec\<close> is the error ClickHouse gives for a statement, \<open>ee_rfc3339\<close> whether a text is an RFC 3339 time.\<close>

record erasure_env =
  ee_tenant :: string
  ee_exec :: "string \<Rightarrow> string option"
  ee_db :: "nat \<Rightarrow> fault"
  ee_newid :: string
  ee_now :: int
  ee_stamp :: string
  ee_rfc3339 :: "string \<Rightarrow> bool"

datatype erasure_answer = EError int string | ESubmitted int string string erasureReceipt | EList "erasure_row list"

section \<open>Statements\<close>

definition escapeCH :: "string \<Rightarrow> string" where
  "escapeCH s =
     (let s = ReplaceAll s [backslash] [backslash, backslash]
      in ReplaceAll s [squote] [backslash, squote])"

definition sq_of :: "string \<Rightarrow> string" where
  "sq_of s = [squote] @ escapeCH s @ [squote]"

definition time_preds :: "erasureRequest \<Rightarrow> string list" where
  "time_preds b =
     (if eq_TimeFrom b \<noteq> [] then [''timestamp >= parseDateTime64BestEffort('' @ sq_of (eq_TimeFrom b) @ '')''] else []) @
     (if eq_TimeTo b \<noteq> [] then [''timestamp <= parseDateTime64BestEffort('' @ sq_of (eq_TimeTo b) @ '')''] else [])"

definition erasure_preds :: "string \<Rightarrow> erasureRequest \<Rightarrow> string list" where
  "erasure_preds tenant b =
     [''tenant_id = '' @ sq_of tenant] @
     (if eq_UserLinkageKey b \<noteq> [] then [''JSONExtractString(extra_fields, '' @ [squote] @ ''user_id'' @ [squote] @ '') = '' @ sq_of (eq_UserLinkageKey b)] else []) @
     time_preds b"

definition metric_preds :: "string \<Rightarrow> erasureRequest \<Rightarrow> string list" where
  "metric_preds tenant b =
     [''tenant_id = '' @ sq_of tenant] @
     (if eq_UserLinkageKey b \<noteq> [] then [''attributes['' @ [squote] @ ''user_id'' @ [squote] @ ''] = '' @ sq_of (eq_UserLinkageKey b)] else []) @
     time_preds b"

definition delete_sql :: "string \<Rightarrow> string list \<Rightarrow> string" where
  "delete_sql tbl preds = ''ALTER TABLE '' @ tbl @ '' DELETE WHERE '' @ Join preds '' AND ''"

text \<open>The mutations of a request, each with the table it names in an error.\<close>

definition mutations :: "string \<Rightarrow> erasureRequest \<Rightarrow> (string \<times> string) list" where
  "mutations tenant b =
     map (\<lambda>tbl. (tbl, delete_sql tbl (erasure_preds tenant b))) [''logs'', ''traces''] @ [(''metrics'', delete_sql ''metrics'' (metric_preds tenant b))]"

section \<open>Handlers\<close>

definition mut_errors :: "erasure_env \<Rightarrow> (string \<times> string) list \<Rightarrow> string list" where
  "mut_errors env muts = List.map_filter (\<lambda>(tbl, sql). map_option (\<lambda>e. tbl @ '': '' @ e) (ee_exec env sql)) muts"

lemma mut_errors_empty: "mut_errors env ms = [] \<longleftrightarrow> (\<forall>sql \<in> set (map snd ms). ee_exec env sql = None)"
  by (induction ms) (auto simp: mut_errors_def map_filter_def)

definition status_of :: "string list \<Rightarrow> string" where
  "status_of mutErrs = (if mutErrs \<noteq> [] then ''failed'' else ''completed'')"

definition note_of :: "string list \<Rightarrow> string" where
  "note_of mutErrs =
     (if mutErrs \<noteq> [] then ''mutation errors: '' @ Join mutErrs ''; ''
      else ''ClickHouse mutations submitted; deletions are applied asynchronously'')"

definition pending_row :: "erasure_env \<Rightarrow> erasureRequest \<Rightarrow> erasure_row" where
  "pending_row env b =
     \<lparr>er_id = ee_newid env, er_tenant = ee_tenant env, er_key = (if eq_UserLinkageKey b = [] then ''(time-range only)'' else eq_UserLinkageKey b),
      er_status = ''pending'', er_requested = ee_now env, er_completed = None, er_receipt = None\<rparr>"

text \<open>The part behind the checks: register, submit, record, answer.\<close>

definition submit_erasure :: "erasure_env \<Rightarrow> erasureRequest \<Rightarrow> erasure_row list \<Rightarrow> erasure_answer \<times> string list \<times> erasure_row list" where
  "submit_erasure env b rows =
     (let muts = mutations (ee_tenant env) b; mutErrs = mut_errors env muts; status = status_of mutErrs;
          receipt = \<lparr>rc_TablesAffected = [''logs'', ''traces'', ''metrics''], rc_Filters = erasure_preds (ee_tenant env) b, rc_SubmittedAt = ee_stamp env, rc_Note = note_of mutErrs\<rparr>;
          rows1 = rows @ [pending_row env b];
          rows2 = (if ee_db env 1 = None
            then update_where (\<lambda>r. er_id r = ee_newid env) (\<lambda>r. r\<lparr>er_status := status, er_completed := Some (ee_now env), er_receipt := Some receipt\<rparr>) rows1
            else rows1)
      in (ESubmitted (if status = ''failed'' then 500 else 202) (ee_newid env) status receipt, map snd muts, rows2))"

definition CreateErasure :: "erasure_env \<Rightarrow> erasureRequest option \<Rightarrow> erasure_row list \<Rightarrow> erasure_answer \<times> string list \<times> erasure_row list" where
  "CreateErasure env body rows =
     (case body of
        None \<Rightarrow> (EError 400 ''invalid JSON'', [], rows)
      | Some b \<Rightarrow>
          if eq_UserLinkageKey b = [] \<and> eq_TimeFrom b = [] \<and> eq_TimeTo b = [] then
            (EError 400 ''at least one of user_linkage_key, time_from, or time_to is required'', [], rows)
          else if eq_TimeFrom b \<noteq> [] \<and> \<not> ee_rfc3339 env (eq_TimeFrom b) then (EError 400 ''time_from must be RFC3339'', [], rows)
          else if eq_TimeTo b \<noteq> [] \<and> \<not> ee_rfc3339 env (eq_TimeTo b) then (EError 400 ''time_to must be RFC3339'', [], rows)
          else case ee_db env 0 of
            Some e \<Rightarrow> (EError 500 (''db error: '' @ e), [], rows)
          | None \<Rightarrow> submit_erasure env b rows)"

definition ListErasure :: "erasure_env \<Rightarrow> erasure_row list \<Rightarrow> erasure_answer" where
  "ListErasure env rows =
     (if ee_db env 0 \<noteq> None then EError 500 ''db error''
      else EList (take 100 (order_desc er_requested (owned er_tenant (ee_tenant env) rows))))"

section \<open>Quoting\<close>

lemma sq_of_quote: "sq_of s = quote s"
  by (simp add: sq_of_def escapeCH_def quote_def Let_def)

interpretation erasure: literal_quoting sq_of
  by unfold_locales (simp add: sq_of_quote lq.reads_back)

lemma user_id_quote: "[squote] @ ''user_id'' @ [squote] = quote ''user_id''"
  by code_simp

lemma time_preds_conjunct: "list_all conjunct (time_preds b)"
proof -
  have "conjunct (''timestamp >= parseDateTime64BestEffort'' @ ''('' @ quote v @ '')'')" "conjunct (''timestamp <= parseDateTime64BestEffort'' @ ''('' @ quote v @ '')'')" for v
    by (rule conjunct_call, code_simp, code_simp, rule quote_closed)+
  then show ?thesis by (simp add: time_preds_def sq_of_quote)
qed

lemma json_conjunct: "conjunct (''JSONExtractString(extra_fields, '' @ [squote] @ ''user_id'' @ [squote] @ '') = '' @ sq_of v)"
proof -
  have a: "piece ''JSONExtractString'' ''JSONExtractString''" "piece '' = '' '' = ''" by (rule piece_plain, code_simp)+
  have "closed ''extra_fields, ''" by (simp add: closed_def scan_simps)
  then have "closed (''extra_fields, '' @ quote ''user_id'')" by (intro closed_append quote_closed)
  from conjunct_piece[OF piece_append[OF a(1) piece_append[OF piece_paren[OF this] piece_append[OF a(2) piece_quote]]], of v]
  have "no_or (''JSONExtractString'' @ '' '' @ '' = '' @ '' '') \<Longrightarrow> conjunct (''JSONExtractString'' @ (''('' @ (''extra_fields, '' @ quote ''user_id'') @ '')'') @ '' = '' @ quote v)" .
  moreover have "no_or (''JSONExtractString'' @ '' '' @ '' = '' @ '' '')" by code_simp
  ultimately show ?thesis unfolding sq_of_quote user_id_quote[symmetric] by simp
qed

lemma attr_conjunct: "conjunct (''attributes['' @ [squote] @ ''user_id'' @ [squote] @ ''] = '' @ sq_of v)"
proof -
  have a: "piece ''attributes['' ''attributes[''" "piece ''] = '' ''] = ''" by (rule piece_plain, code_simp)+
  have "no_or (''attributes['' @ '' '' @ ''] = '' @ '' '')" by code_simp
  from conjunct_piece[OF piece_append[OF a(1) piece_append[OF piece_quote piece_append[OF a(2) piece_quote]]] this]
  have "conjunct (''attributes['' @ quote ''user_id'' @ ''] = '' @ quote v)" .
  then show ?thesis unfolding sq_of_quote user_id_quote[symmetric] by simp
qed

text \<open>A mutation deletes from one of the three tables, under the tenant guard and at least one further conjunct.\<close>

definition confined_delete :: "string \<Rightarrow> string \<Rightarrow> string \<Rightarrow> bool" where
  "confined_delete tenant tbl sql \<longleftrightarrow> (\<exists>conjs. conjs \<noteq> [] \<and> list_all conjunct conjs \<and> sql = ''ALTER TABLE '' @ tbl @ '' DELETE'' @ where_of tenant conjs)"

lemma mutations_confined:
  assumes "\<not> (eq_UserLinkageKey b = [] \<and> eq_TimeFrom b = [] \<and> eq_TimeTo b = [])"
  shows "list_all2 (confined_delete tenant) [''logs'', ''traces'', ''metrics''] (map snd (mutations tenant b))"
proof -
  define js ms where "js = tl (erasure_preds tenant b)" and "ms = tl (metric_preds tenant b)"
  have "list_all conjunct js" "list_all conjunct ms" "js \<noteq> []" "ms \<noteq> []" using assms time_preds_conjunct[of b] json_conjunct attr_conjunct
    by (auto simp: js_def ms_def erasure_preds_def metric_preds_def time_preds_def)
  moreover have "delete_sql tbl (erasure_preds tenant b) = ''ALTER TABLE '' @ tbl @ '' DELETE'' @ where_of tenant js"
    "delete_sql tbl (metric_preds tenant b) = ''ALTER TABLE '' @ tbl @ '' DELETE'' @ where_of tenant ms" for tbl
    by (simp_all add: js_def ms_def erasure_preds_def metric_preds_def delete_sql_def where_of_def sq_of_quote)
  ultimately have "confined_delete tenant tbl (delete_sql tbl (erasure_preds tenant b))" "confined_delete tenant tbl (delete_sql tbl (metric_preds tenant b))" for tbl
    unfolding confined_delete_def by blast+
  then show ?thesis by (simp add: mutations_def)
qed

section \<open>Properties\<close>

text \<open>
  C17. An erasure deletes nothing of another tenant and never a whole tenant: whatever the request, the handler
  either sends no statement, or exactly one DELETE for each of the three signal tables, each under the guard on the
  caller's tenant joined with at least one closed condition that no text of the request can leave.
\<close>

theorem erasure_confined:
  "fst (snd (CreateErasure env body rows)) = [] \<or>
   list_all2 (confined_delete (ee_tenant env)) [''logs'', ''traces'', ''metrics''] (fst (snd (CreateErasure env body rows)))"
proof -
  have "CreateErasure env body rows = submit_erasure env b rows \<and> \<not> (eq_UserLinkageKey b = [] \<and> eq_TimeFrom b = [] \<and> eq_TimeTo b = [])"
    if "fst (snd (CreateErasure env body rows)) \<noteq> []" "body = Some b" for b
    using that by (auto simp: CreateErasure_def split: if_split_asm option.split_asm)
  moreover have "fst (snd (submit_erasure env b rows)) = map snd (mutations (ee_tenant env) b)" for b by (simp add: submit_erasure_def Let_def)
  moreover have "body = None \<Longrightarrow> fst (snd (CreateErasure env body rows)) = []" by (simp add: CreateErasure_def)
  ultimately show ?thesis using mutations_confined[of _ "ee_tenant env"] by (metis not_None_eq)
qed


definition demo_erasure :: erasure_env where
  "demo_erasure = \<lparr>ee_tenant = ''acme'', ee_exec = (\<lambda>_. None), ee_db = (\<lambda>_. None), ee_newid = ''r1'', ee_now = 0, ee_stamp = [], ee_rfc3339 = (\<lambda>_. True)\<rparr>"


text \<open>
  Neither the logs nor the traces table has a column \<open>extra_fields\<close> (\<open>clickhouse/migrations/0001\_logs.sql\<close>,
  \<open>0005\_traces.sql\<close>): a store that refuses a mutation on them that names it fails every erasure by key.
\<close>

lemma keyed_erasure_fails:
  assumes "\<And>tbl conj rest. tbl \<in> {''logs'', ''traces''} \<Longrightarrow> \<exists>e. ee_exec env (''ALTER TABLE '' @ tbl @ '' DELETE WHERE '' @ conj @ '' AND JSONExtractString(extra_fields'' @ rest) = Some e"
    and "eq_UserLinkageKey b \<noteq> []"
  shows "\<forall>code i receipt. fst (CreateErasure env (Some b) rows) \<noteq> ESubmitted code i ''completed'' receipt"
proof -
  have "delete_sql ''logs'' (erasure_preds (ee_tenant env) b) = ''ALTER TABLE '' @ ''logs'' @ '' DELETE WHERE '' @ (''tenant_id = '' @ sq_of (ee_tenant env)) @ '' AND JSONExtractString(extra_fields'' @
      ('', '' @ [squote] @ ''user_id'' @ [squote] @ '') = '' @ sq_of (eq_UserLinkageKey b) @ concat (map (\<lambda>p. '' AND '' @ p) (time_preds b)))"
    using assms(2) by (simp add: delete_sql_def erasure_preds_def time_preds_def)
  then have "ee_exec env (delete_sql ''logs'' (erasure_preds (ee_tenant env) b)) \<noteq> None" using assms(1)[of "''logs''"] by (metis insertI1 option.distinct(1))
  then have "mut_errors env (mutations (ee_tenant env) b) \<noteq> []" by (auto simp: mut_errors_def mutations_def map_filter_def)
  then show ?thesis by (simp add: CreateErasure_def submit_erasure_def status_of_def Let_def split: option.splits)
qed

end
