(* ===== verification/Mcp.thy ===== *)
theory Mcp
  imports Go_Url Access
begin

text \<open>
  The Model Context Protocol server of \<open>cmd/mcp\<close>: \<open>jsonrpc.go\<close>, \<open>client.go\<close>, \<open>tools.go\<close> and \<open>server.go\<close>. It reads
  one JSON-RPC message per line, answers on its output and turns each tool call into one GET on the query
  API. The JSON decoders and the HTTP exchange are arguments (\<open>mcp_lib\<close>); what a handler does is its reply
  together with the HTTP requests it sends. A JSON value kept raw is its text, empty when absent.
\<close>

section \<open>JSON-RPC\<close>

record Request =
  rq_ID :: string
  rq_Method :: string
  rq_Params :: string

record RPCError =
  re_Code :: int
  re_Message :: string

record mcpTool_info =
  ti_Name :: string
  ti_Description :: string
  ti_Properties :: "(string \<times> string) list"
  ti_Required :: "string list"

text \<open>The result objects: of the handshake (with the version), of a ping, of the listing, and a tool's text with its error mark.\<close>

datatype mcp_result = RInitialize string | REmpty | RTools "mcpTool_info list" | RContent string bool

record Response =
  rs_ID :: "string option"
  rs_Result :: "mcp_result option"
  rs_Error :: "RPCError option"

definition codeParseError :: int where "codeParseError = -32700"
definition codeMethodNotFound :: int where "codeMethodNotFound = -32601"
definition codeInvalidParams :: int where "codeInvalidParams = -32602"

definition IsNotification :: "Request \<Rightarrow> bool" where
  "IsNotification r \<longleftrightarrow> length (rq_ID r) = 0"

definition normalizeID :: "string \<Rightarrow> string option" where
  "normalizeID i = (if length i = 0 then None else Some i)"

definition newResult :: "string \<Rightarrow> mcp_result \<Rightarrow> Response" where
  "newResult i r = \<lparr>rs_ID = normalizeID i, rs_Result = Some r, rs_Error = None\<rparr>"

definition newError :: "string \<Rightarrow> int \<Rightarrow> string \<Rightarrow> Response" where
  "newError i c m = \<lparr>rs_ID = normalizeID i, rs_Result = None, rs_Error = Some \<lparr>re_Code = c, re_Message = m\<rparr>\<rparr>"

section \<open>HTTP client\<close>

record queryClient =
  qc_baseURL :: string
  qc_apiKey :: string

record http_get =
  hg_url :: string
  hg_headers :: "(string \<times> string) list"

text \<open>An argument of a tool call: a JSON string, or any other JSON value.\<close>

datatype json_arg = JText string | JOther

text \<open>
  The decoders of a message, of the handshake parameters and of the parameters of a call (name and arguments);
  \<open>lib_url\<close> is the error of building a request for a URL, \<open>lib_do\<close> the exchange: a network error, or a status
  with the body or the error of reading it.
\<close>

record mcp_lib =
  lib_request :: "string \<Rightarrow> string + Request"
  lib_version :: "string \<Rightarrow> string + string"
  lib_call :: "string \<Rightarrow> string + (string \<times> (string \<Rightarrow> json_arg option))"
  lib_url :: "string \<Rightarrow> string option"
  lib_do :: "http_get \<Rightarrow> string + (int \<times> (string + string))"

definition defaultBaseURL :: string where "defaultBaseURL = ''http://localhost:8100''"

definition newQueryClient :: "string \<Rightarrow> string \<Rightarrow> queryClient" where
  "newQueryClient baseURL apiKey =
     \<lparr>qc_baseURL = TrimRight_slash (if baseURL = [] then defaultBaseURL else baseURL), qc_apiKey = apiKey\<rparr>"

text \<open>The outcome of a call (\<open>Inl\<close> an error text, \<open>Inr\<close> the body) and the requests it sent.\<close>

type_synonym called = "(string + string) \<times> http_get list"

definition get :: "mcp_lib \<Rightarrow> queryClient \<Rightarrow> string \<Rightarrow> (string \<times> string) list \<Rightarrow> called" where
  "get lib c path params =
     (let u = qc_baseURL c @ path @ (if params \<noteq> [] then ''?'' @ Encode params else []) in
      case lib_url lib u of
        Some e \<Rightarrow> (Inl (''build request: '' @ e), [])
      | None \<Rightarrow>
          let req = \<lparr>hg_url = u, hg_headers = [(''X-Qeet-Api-Key'', qc_apiKey c), (''Accept'', ''application/json'')]\<rparr> in
          (case lib_do lib req of
             Inl e \<Rightarrow> Inl (''http: '' @ e)
           | Inr (status, Inl e) \<Rightarrow> Inl (''read response: '' @ e)
           | Inr (status, Inr body) \<Rightarrow>
               if 400 \<le> status then Inl (''qeet-logs API error '' @ show_int status @ '': '' @ TrimSpace body) else Inr body,
           [req]))"

section \<open>Tools\<close>

type_synonym mcp_args = "string \<Rightarrow> json_arg option"

definition dquoted :: "string \<Rightarrow> string" where
  "dquoted k = CHR 0x22 # k @ [CHR 0x22]"

definition requireString :: "mcp_args \<Rightarrow> string \<Rightarrow> string + string" where
  "requireString args key =
     (case args key of
        None \<Rightarrow> Inl (''missing required argument '' @ dquoted key)
      | Some JOther \<Rightarrow> Inl (''argument '' @ dquoted key @ '' must be a string'')
      | Some (JText s) \<Rightarrow> if s = [] then Inl (''argument '' @ dquoted key @ '' must not be empty'') else Inr s)"

definition optString :: "mcp_args \<Rightarrow> string \<Rightarrow> string" where
  "optString args key = (case args key of Some (JText s) \<Rightarrow> s | _ \<Rightarrow> [])"

text \<open>\<open>params.Set(key, s)\<close> when the optional argument is given.\<close>

definition set_opt :: "mcp_args \<Rightarrow> string \<Rightarrow> (string \<times> string) list \<Rightarrow> (string \<times> string) list" where
  "set_opt args key params =
     (let s = optString args key in if s \<noteq> [] then filter (\<lambda>p. fst p \<noteq> key) params @ [(key, s)] else params)"

record mcpTool = mcpTool_info +
  ti_call :: "mcp_lib \<Rightarrow> queryClient \<Rightarrow> mcp_args \<Rightarrow> called"

definition query_tool :: mcpTool where
  "query_tool =
     \<lparr>ti_Name = ''qeet_logs_query'',
      ti_Description = ''Run a LogQL++ query against Qeet Logs and return matching log records for the authenticated tenant.'',
      ti_Properties = [(''q'', ''LogQL++ query string, e.g. {service='' @ dquoted ''api'' @ ''} |= '' @ dquoted ''error'' @ ''.'')],
      ti_Required = [''q''],
      ti_call = (\<lambda>lib c args.
        case requireString args ''q'' of
          Inl e \<Rightarrow> (Inl e, [])
        | Inr q \<Rightarrow> get lib c ''/v1/query'' [(''q'', q)])\<rparr>"

definition incidents_tool :: mcpTool where
  "incidents_tool =
     \<lparr>ti_Name = ''qeet_logs_incidents'',
      ti_Description = ''List incidents detected by Qeet Logs, optionally filtered by status.'',
      ti_Properties = [(''status'', ''Optional incident status filter, e.g. open, acknowledged, resolved.'')],
      ti_Required = [],
      ti_call = (\<lambda>lib c args. get lib c ''/v1/incidents'' (set_opt args ''status'' []))\<rparr>"

definition rca_tool :: mcpTool where
  "rca_tool =
     \<lparr>ti_Name = ''qeet_logs_rca'',
      ti_Description = ''Run automated root-cause analysis for a service over a time window.'',
      ti_Properties = [(''service'', ''Service name to analyze.''), (''since'', ''Optional lookback window, e.g. 15m, 1h, 24h.'')],
      ti_Required = [''service''],
      ti_call = (\<lambda>lib c args.
        case requireString args ''service'' of
          Inl e \<Rightarrow> (Inl e, [])
        | Inr service \<Rightarrow> get lib c ''/v1/rca'' (set_opt args ''since'' [(''service'', service)]))\<rparr>"

definition topology_tool :: mcpTool where
  "topology_tool =
     \<lparr>ti_Name = ''qeet_logs_topology'',
      ti_Description = ''Return the observed service dependency topology, optionally scoped to a service and time window.'',
      ti_Properties = [(''service'', ''Optional service name to center the topology on.''), (''since'', ''Optional lookback window, e.g. 1h, 24h.'')],
      ti_Required = [],
      ti_call = (\<lambda>lib c args. get lib c ''/v1/topology'' (set_opt args ''since'' (set_opt args ''service'' [])))\<rparr>"

definition culprits_tool :: mcpTool where
  "culprits_tool =
     \<lparr>ti_Name = ''qeet_logs_deploy_culprits'',
      ti_Description = ''Identify recent deploys likely responsible for a service'' @ [CHR 0x27] @ ''s error spike.'',
      ti_Properties = [(''service'', ''Service name to investigate.''), (''since'', ''Optional lookback window, e.g. 1h, 24h.'')],
      ti_Required = [''service''],
      ti_call = (\<lambda>lib c args.
        case requireString args ''service'' of
          Inl e \<Rightarrow> (Inl e, [])
        | Inr service \<Rightarrow> get lib c ''/v1/deploy/culprits'' (set_opt args ''since'' [(''service'', service)]))\<rparr>"

definition buildTools :: "mcpTool list" where
  "buildTools = [query_tool, incidents_tool, rca_tool, topology_tool, culprits_tool]"

section \<open>Server\<close>

record mcp_server =
  ms_client :: queryClient
  ms_tools :: "mcpTool list"

definition newServer :: "queryClient \<Rightarrow> mcp_server" where
  "newServer c = \<lparr>ms_client = c, ms_tools = buildTools\<rparr>"

definition protocolVersion :: string where "protocolVersion = ''2024-11-05''"

definition initializeResult :: "mcp_lib \<Rightarrow> string \<Rightarrow> mcp_result" where
  "initializeResult lib params =
     RInitialize
       (if length params > 0 then
          (case lib_version lib params of
             Inr v \<Rightarrow> if v \<noteq> [] then v else protocolVersion
           | Inl _ \<Rightarrow> protocolVersion)
        else protocolVersion)"

definition toolsListResult :: "mcp_server \<Rightarrow> mcp_result" where
  "toolsListResult s = RTools (map mcpTool_info.truncate (ms_tools s))"

definition findTool :: "mcp_server \<Rightarrow> string \<Rightarrow> mcpTool option" where
  "findTool s name = find (\<lambda>t. ti_Name t = name) (ms_tools s)"

definition toolTextContent :: "string \<Rightarrow> mcp_result" where
  "toolTextContent text = RContent text False"

definition toolErrorContent :: "string \<Rightarrow> mcp_result" where
  "toolErrorContent text = RContent text True"

definition handleToolsCall :: "mcp_lib \<Rightarrow> mcp_server \<Rightarrow> Request \<Rightarrow> Response \<times> http_get list" where
  "handleToolsCall lib s req =
     (case (if length (rq_Params req) > 0 then lib_call lib (rq_Params req) else Inr ([], \<lambda>_. None)) of
        Inl e \<Rightarrow> (newError (rq_ID req) codeInvalidParams (''invalid params: '' @ e), [])
      | Inr (name, args) \<Rightarrow>
          (case findTool s name of
             None \<Rightarrow> (newError (rq_ID req) codeInvalidParams (''unknown tool: '' @ name), [])
           | Some tool \<Rightarrow>
               (case ti_call tool lib (ms_client s) args of
                  (Inl e, sent) \<Rightarrow> (newResult (rq_ID req) (toolErrorContent e), sent)
                | (Inr raw, sent) \<Rightarrow> (newResult (rq_ID req) (toolTextContent raw), sent))))"

definition handle :: "mcp_lib \<Rightarrow> mcp_server \<Rightarrow> Request \<Rightarrow> Response option \<times> http_get list" where
  "handle lib s req =
     (if rq_Method req = ''initialize'' then (Some (newResult (rq_ID req) (initializeResult lib (rq_Params req))), [])
      else if rq_Method req = ''notifications/initialized'' then (None, [])
      else if rq_Method req = ''ping'' then (Some (newResult (rq_ID req) REmpty), [])
      else if rq_Method req = ''tools/list'' then (Some (newResult (rq_ID req) (toolsListResult s)), [])
      else if rq_Method req = ''tools/call'' then (case handleToolsCall lib s req of (r, sent) \<Rightarrow> (Some r, sent))
      else if IsNotification req then (None, [])
      else (Some (newError (rq_ID req) codeMethodNotFound (''method not found: '' @ rq_Method req)), []))"

definition handleLine :: "mcp_lib \<Rightarrow> mcp_server \<Rightarrow> string \<Rightarrow> Response option \<times> http_get list" where
  "handleLine lib s l =
     (case lib_request lib l of
        Inl e \<Rightarrow> (Some (newError [] codeParseError (''parse error: '' @ e)), [])
      | Inr req \<Rightarrow> handle lib s req)"

text \<open>
  \<open>run\<close> reads the chunks \<open>ReadBytes\<close> delivers, each up to and including a line feed, the last one with the
  error that ended the input (none for end of file). \<open>wr n\<close> is the error of writing the n-th reply. It gives
  the replies written, the HTTP requests sent and the error returned.
\<close>

fun run :: "mcp_lib \<Rightarrow> (nat \<Rightarrow> string option) \<Rightarrow> string option \<Rightarrow> mcp_server \<Rightarrow> string list \<Rightarrow> Response list \<times> http_get list \<times> string option" where
  "run lib wr rdErr s [] = ([], [], rdErr)"
| "run lib wr rdErr s (l # ls) =
     (let trimmed = TrimSpace l in
      if length trimmed > 0 then
        (case handleLine lib s trimmed of
           (None, sent) \<Rightarrow> (case run lib wr rdErr s ls of (rs, sents, e) \<Rightarrow> (rs, sent @ sents, e))
         | (Some r, sent) \<Rightarrow>
             (case wr 0 of
                Some e \<Rightarrow> ([], sent, Some e)
              | None \<Rightarrow> (case run lib (\<lambda>n. wr (Suc n)) rdErr s ls of (rs, sents, e) \<Rightarrow> (r # rs, sent @ sents, e))))
      else run lib wr rdErr s ls)"

section \<open>Replies\<close>

text \<open>Whether a message is answered: all but the initialized notification and unknown methods without an id.\<close>

definition known_methods :: "string list" where
  "known_methods = [''initialize'', ''ping'', ''tools/list'', ''tools/call'']"

definition wants_reply :: "mcp_lib \<Rightarrow> string \<Rightarrow> bool" where
  "wants_reply lib l =
     (case lib_request lib l of
        Inl _ \<Rightarrow> True
      | Inr q \<Rightarrow> rq_Method q \<in> set known_methods \<or> (rq_Method q \<noteq> ''notifications/initialized'' \<and> rq_ID q \<noteq> []))"

definition reply_to :: "mcp_lib \<Rightarrow> string \<Rightarrow> Response \<Rightarrow> bool" where
  "reply_to lib l r \<longleftrightarrow>
     rs_ID r = (case lib_request lib l of Inl _ \<Rightarrow> None | Inr q \<Rightarrow> if rq_ID q = [] then None else Some (rq_ID q)) \<and>
     (rs_Result r = None) = (rs_Error r \<noteq> None)"

lemma new_fields [simp]:
  "rs_ID (newResult i x) = normalizeID i" "rs_Result (newResult i x) = Some x" "rs_Error (newResult i x) = None"
  "rs_ID (newError i c m) = normalizeID i" "rs_Result (newError i c m) = None" "rs_Error (newError i c m) = Some \<lparr>re_Code = c, re_Message = m\<rparr>"
  by (simp_all add: newResult_def newError_def)

lemma call_replies: "rs_ID (fst (handleToolsCall lib s q)) = normalizeID (rq_ID q) \<and>
    (rs_Result (fst (handleToolsCall lib s q)) = None) = (rs_Error (fst (handleToolsCall lib s q)) \<noteq> None)"
  by (auto simp: handleToolsCall_def split: sum.splits option.splits prod.splits)

lemma handleLine_replies:
  "case fst (handleLine lib s l) of None \<Rightarrow> \<not> wants_reply lib l | Some r \<Rightarrow> wants_reply lib l \<and> reply_to lib l r"
proof (cases "lib_request lib l")
  case (Inl e)
  then show ?thesis by (simp add: handleLine_def wants_reply_def reply_to_def normalizeID_def)
next
  case (Inr q)
  show ?thesis
  proof (cases "rq_Method q = ''tools/call''")
    case True
    then show ?thesis using Inr call_replies[of lib s q]
      by (simp add: handleLine_def handle_def wants_reply_def reply_to_def known_methods_def normalizeID_def case_prod_beta)
  next
    case False
    then show ?thesis using Inr
      by (simp add: handleLine_def handle_def wants_reply_def reply_to_def known_methods_def normalizeID_def IsNotification_def)
  qed
qed

lemma run_replies:
  "run lib (\<lambda>_. None) rdErr s ls = (rs, sent, e) \<Longrightarrow>
   list_all2 (reply_to lib) (filter (wants_reply lib) (filter (\<lambda>l. l \<noteq> []) (map TrimSpace ls))) rs \<and> e = rdErr"
proof (induction ls arbitrary: rs sent e)
  case (Cons l ls)
  obtain rs' sent' where r: "run lib (\<lambda>_. None) rdErr s ls = (rs', sent', rdErr)" 
    and i: "list_all2 (reply_to lib) (filter (wants_reply lib) (filter (\<lambda>l. l \<noteq> []) (map TrimSpace ls))) rs'"
    using Cons.IH by (cases "run lib (\<lambda>_. None) rdErr s ls") auto
  show ?case using Cons.prems r i handleLine_replies[of lib "TrimSpace l" s]
    by (auto simp: Let_def split: if_splits prod.splits option.splits)
qed simp

section \<open>Tool calls\<close>

text \<open>The parameters a call has to send by the declared schema: the declared arguments given as non-empty strings.\<close>

definition given_params :: "mcpTool \<Rightarrow> mcp_args \<Rightarrow> (string \<times> string) list" where
  "given_params t args = List.map_filter (\<lambda>(k, _). if optString args k = [] then None else Some (k, optString args k)) (ti_Properties t)"

definition tool_path :: "string \<Rightarrow> string" where
  "tool_path name =
     (if name = ''qeet_logs_query'' then ''/v1/query'' else if name = ''qeet_logs_incidents'' then ''/v1/incidents''
      else if name = ''qeet_logs_rca'' then ''/v1/rca'' else if name = ''qeet_logs_topology'' then ''/v1/topology'' else ''/v1/deploy/culprits'')"

definition lacks :: "mcpTool \<Rightarrow> mcp_args \<Rightarrow> bool" where
  "lacks t args \<longleftrightarrow> list_ex (\<lambda>k. optString args k = []) (ti_Required t)"

text \<open>A GET of a client: its fixed path, its key, and a query that reads back as the given parameters.\<close>

definition is_get :: "queryClient \<Rightarrow> string \<Rightarrow> (string \<times> string) list \<Rightarrow> http_get \<Rightarrow> bool" where
  "is_get c path params r \<longleftrightarrow>
     (\<exists>q. hg_url r = qc_baseURL c @ path @ q \<and> (if params = [] then q = [] else (\<exists>t. q = CHR ''?'' # t \<and> ParseQuery t = params))) \<and>
     hg_headers r = [(''X-Qeet-Api-Key'', qc_apiKey c), (''Accept'', ''application/json'')]"

lemma get_sends:
  assumes "sort_key fst params = params"
  shows "(\<exists>r. snd (get lib c path params) = [r] \<and> is_get c path params r) \<or>
    (\<exists>e. get lib c path params = (Inl (''build request: '' @ e), []))"
proof -
  have "ParseQuery (Encode params) = params" using assms by (simp add: ParseQuery_Encode)
  then show ?thesis by (auto simp: get_def is_get_def Let_def split: option.splits)
qed

lemma requireString_opt: "requireString args k = Inr s \<longleftrightarrow> s = optString args k \<and> s \<noteq> []"
  by (auto simp: requireString_def optString_def split: option.splits json_arg.splits)

lemma requireString_fails: "optString args k = [] \<Longrightarrow> \<exists>e. requireString args k = Inl e"
  by (cases "requireString args k") (auto simp: requireString_opt)

lemma requireString_given: "optString args k \<noteq> [] \<Longrightarrow> requireString args k = Inr (optString args k)"
  by (simp add: requireString_opt)

lemmas tool_defs = query_tool_def incidents_tool_def rca_tool_def topology_tool_def culprits_tool_def

lemma service_since: "sort_key fst [(''service'', a), (''since'', b :: string)] = [(''service'', a), (''since'', b)]"
  by (simp add: sort_key_def)

lemma call_lacking:
  assumes "t \<in> set buildTools" "lacks t args"
  shows "\<exists>e. ti_call t lib c args = (Inl e, [])"
proof -
  from assms(1) consider "t = query_tool" | "t = incidents_tool" | "t = rca_tool" | "t = topology_tool" | "t = culprits_tool" by (auto simp: buildTools_def)
  then show ?thesis using assms(2) requireString_fails[of args]
    by cases (force simp: tool_defs lacks_def)+
qed

lemma call_given:
  assumes "t \<in> set buildTools" "\<not> lacks t args"
  shows "ti_call t lib c args = get lib c (tool_path (ti_Name t)) (given_params t args) \<and> sort_key fst (given_params t args) = given_params t args"
proof -
  from assms(1) consider "t = query_tool" | "t = incidents_tool" | "t = rca_tool" | "t = topology_tool" | "t = culprits_tool" by (auto simp: buildTools_def)
  then show ?thesis using assms(2) requireString_given[of args]
    by cases (simp_all add: tool_defs lacks_def tool_path_def given_params_def set_opt_def map_filter_def Let_def sort_key_def)
qed

section \<open>Properties\<close>

text \<open>
  As long as its output can be written, the server answers the messages of its input in order, one
  reply each: a reply carries the id of its message (null when it has none or does not decode) and exactly
  one of a result and an error. Left out are blank lines, the initialized notification and unknown methods
  without an id. The input is read to its end.
\<close>

theorem run_one_reply_each:
  assumes "run lib (\<lambda>_. None) rdErr s ls = (rs, sent, e)"
  shows "list_all2 (reply_to lib) (filter (wants_reply lib) (filter (\<lambda>l. l \<noteq> []) (map TrimSpace ls))) rs \<and> e = rdErr"
  using assms by (rule run_replies)

definition demo_lib :: mcp_lib where
  "demo_lib = \<lparr>lib_request = (\<lambda>l. if l = ''ping'' then Inr \<lparr>rq_ID = ''7'', rq_Method = ''ping'', rq_Params = []\<rparr>
       else if l = ''call'' then Inr \<lparr>rq_ID = ''8'', rq_Method = ''tools/call'', rq_Params = ''{}''\<rparr>
       else if l = ''note'' then Inr \<lparr>rq_ID = [], rq_Method = ''x/y'', rq_Params = []\<rparr> else Inl ''unexpected''),
     lib_version = (\<lambda>_. Inl ''none''), lib_call = (\<lambda>_. Inr (''qeet_logs_query'', [''q'' \<mapsto> JText ''a&tenant_id=b''])),
     lib_url = (\<lambda>_. None), lib_do = (\<lambda>_. Inr (200, Inr ''[]''))\<rparr>"

definition demo_server :: mcp_server where
  "demo_server = newServer (newQueryClient ''http://h/'' ''k'')"

theorem run_one_reply_each_witness:
  "\<exists>rs sent. run demo_lib (\<lambda>_. None) None demo_server [''ping'', '' '', ''note'', '' call''] = (rs, sent, None) \<and>
     map rs_ID rs = [Some ''7'', Some ''8''] \<and> list_all2 (reply_to demo_lib) [''ping'', ''call''] rs"
proof -
  let ?r = "run demo_lib (\<lambda>_. None) None demo_server [''ping'', '' '', ''note'', '' call'']"
  obtain rs sent e where r: "?r = (rs, sent, e)" by (cases ?r) auto
  have "filter (wants_reply demo_lib) (filter (\<lambda>l. l \<noteq> []) (map TrimSpace [''ping'', '' '', ''note'', '' call''])) = [''ping'', ''call'']" by code_simp
  moreover have "map rs_ID (fst ?r) = [Some ''7'', Some ''8'']" by code_simp
  ultimately show ?thesis using run_one_reply_each[OF r] r by simp
qed

text \<open>
  C30. A tool call honours the schema its tool declares: without a required argument it sends nothing and
  fails; otherwise, unless the URL is refused, it is one GET on the fixed path of the tool with the configured
  key, whose query string reads back as exactly the declared arguments given, so no argument text can add a
  parameter or leave the path.
\<close>

theorem tool_call_exact:
  assumes "t \<in> set buildTools"
  shows "if lacks t args then \<exists>e. ti_call t lib c args = (Inl e, [])
    else (\<exists>r. snd (ti_call t lib c args) = [r] \<and> is_get c (tool_path (ti_Name t)) (given_params t args) r) \<or>
      (\<exists>e. ti_call t lib c args = (Inl (''build request: '' @ e), []))"
proof (cases "lacks t args")
  case True
  then show ?thesis using call_lacking[OF assms] by simp
next
  case False
  from call_given[OF assms this, of lib c] get_sends[of "given_params t args" lib c "tool_path (ti_Name t)"] False
  show ?thesis by simp
qed

theorem tool_call_exact_witness:
  "\<exists>r. snd (ti_call query_tool demo_lib (newQueryClient ''http://h/'' ''k'') [''q'' \<mapsto> JText ''a&tenant_id=b'']) = [r] \<and>
     hg_url r = ''http://h/v1/query?q=a%26tenant_id%3Db'' \<and> is_get (newQueryClient ''http://h/'' ''k'') ''/v1/query'' [(''q'', ''a&tenant_id=b'')] r"
proof -
  let ?c = "newQueryClient ''http://h/'' ''k''" and ?a = "[''q'' \<mapsto> JText ''a&tenant_id=b'']"
  have "query_tool \<in> set buildTools" by (simp add: buildTools_def)
  moreover have "\<not> lacks query_tool ?a" by code_simp
  moreover have "given_params query_tool ?a = [(''q'', ''a&tenant_id=b'')]" by code_simp
  moreover have "tool_path (ti_Name query_tool) = ''/v1/query''" by code_simp
  moreover have "map hg_url (snd (ti_call query_tool demo_lib ?c ?a)) = [''http://h/v1/query?q=a%26tenant_id%3Db'']" by code_simp
  ultimately show ?thesis using tool_call_exact[of query_tool ?a demo_lib ?c] by auto
qed

text \<open>
  A message without an id is a notification and is never to be answered, but the four methods the server
  knows are answered without one, with a null id.
\<close>

lemma notification_answered:
  "handle lib s \<lparr>rq_ID = [], rq_Method = ''ping'', rq_Params = []\<rparr> = (Some \<lparr>rs_ID = None, rs_Result = Some REmpty, rs_Error = None\<rparr>, [])"
  by (simp add: handle_def newResult_def normalizeID_def)

end
