(* ===== verification/Secrets.thy ===== *)
theory Secrets
  imports Go_Prelude
begin

text \<open>
  Secrets at rest, \<open>platform/security/crypto.go\<close>. The record \<open>secrets_lib\<close> holds what is outside the sources:
  the configured key text, base64, AES-GCM and the random nonce. A stored secret is read back as it was; how it is
  stored depends on the key alone.
\<close>

record secrets_lib =
  sl_getenv :: string
  sl_b64dec :: "string \<Rightarrow> string option"
  sl_b64enc :: "string \<Rightarrow> string"
  sl_seal :: "string \<Rightarrow> string \<Rightarrow> string \<Rightarrow> string"
  sl_open :: "string \<Rightarrow> string \<Rightarrow> string \<Rightarrow> string option"
  sl_nonce :: "string option"

definition secretVersionPrefix :: string where "secretVersionPrefix = ''v1:''"

definition nonceSize :: nat where "nonceSize = 12"

definition errNoKey :: goerror where "errNoKey = Sentinel ''errNoKey''"

definition loadSecretsKey :: "secrets_lib \<Rightarrow> (goerror, string) outcome" where
  "loadSecretsKey L =
     (let raw = sl_getenv L in
      if raw = [] then Err errNoKey
      else case sl_b64dec L (TrimSpace raw) of
        None \<Rightarrow> Err (Errorf ''QEET_LOGS_SECRETS_KEY is not valid base64: %w'' [])
      | Some key \<Rightarrow>
          if length key \<noteq> 32 then Err (Errorf ''QEET_LOGS_SECRETS_KEY must decode to 32 bytes, got %d'' [show_int (int (length key))])
          else Ok key)"

definition SecretsConfigured :: "secrets_lib \<Rightarrow> bool" where
  "SecretsConfigured L \<longleftrightarrow> (case loadSecretsKey L of Ok _ \<Rightarrow> True | _ \<Rightarrow> False)"

text \<open>A key of 32 bytes always gives a cipher; \<open>Seal\<close> appends the ciphertext to the nonce.\<close>

definition EncryptSecret :: "secrets_lib \<Rightarrow> string \<Rightarrow> (goerror, string) outcome" where
  "EncryptSecret L plaintext =
     (if plaintext = [] then Ok []
      else case loadSecretsKey L of
        Err e \<Rightarrow> if e = errNoKey then Ok plaintext else Err e
      | Panic \<Rightarrow> Panic
      | Ok key \<Rightarrow>
          (case sl_nonce L of
             None \<Rightarrow> Err (Errorf ''EOF'' [])
           | Some nonce \<Rightarrow> Ok (secretVersionPrefix @ sl_b64enc L (nonce @ sl_seal L key nonce plaintext))))"

definition DecryptSecret :: "secrets_lib \<Rightarrow> string \<Rightarrow> (goerror, string) outcome" where
  "DecryptSecret L stored =
     (if \<not> HasPrefix stored secretVersionPrefix then Ok stored
      else case loadSecretsKey L of
        Err e \<Rightarrow> Err (Errorf ''cannot decrypt secret: %w'' [])
      | Panic \<Rightarrow> Panic
      | Ok key \<Rightarrow>
          (case sl_b64dec L (TrimPrefix stored secretVersionPrefix) of
             None \<Rightarrow> Err (Errorf ''secret is not valid base64: %w'' [])
           | Some sealed \<Rightarrow>
               if length sealed < nonceSize then Err (Errorf ''secret ciphertext too short'' [])
               else case sl_open L key (take nonceSize sealed) (drop nonceSize sealed) of
                 None \<Rightarrow> Err (Errorf ''secret decryption failed: %w'' [])
               | Some plain \<Rightarrow> Ok plain))"

text \<open>The documented behaviour of the libraries: base64 and AES-GCM invert themselves, the nonce has its size.\<close>

definition faithful_lib :: "secrets_lib \<Rightarrow> bool" where
  "faithful_lib L \<longleftrightarrow> (\<forall>x. sl_b64dec L (sl_b64enc L x) = Some x) \<and> (\<forall>k n x. sl_open L k n (sl_seal L k n x) = Some x) \<and>
     (\<forall>n. sl_nonce L = Some n \<longrightarrow> length n = nonceSize)"

lemma prefixed: "HasPrefix (secretVersionPrefix @ s) secretVersionPrefix" "TrimPrefix (secretVersionPrefix @ s) secretVersionPrefix = s"
  by (simp_all add: HasPrefix_def TrimPrefix_def)

text \<open>
  A secret that was stored is read back unchanged: with a configured key any text that could be encrypted
  decrypts to itself under every later nonce, and without a key every text that does not itself start with the
  version prefix.
\<close>

theorem secret_roundtrip:
  assumes "faithful_lib L" "EncryptSecret L p = Ok s" "SecretsConfigured L \<or> \<not> HasPrefix p secretVersionPrefix"
  shows "DecryptSecret (L\<lparr>sl_nonce := n\<rparr>) s = Ok p"
proof -
  have same: "loadSecretsKey (L\<lparr>sl_nonce := n\<rparr>) = loadSecretsKey L" by (simp add: loadSecretsKey_def Let_def cong: if_cong)
  show ?thesis
  proof (cases "p = []")
    case True
    then show ?thesis using assms(2) by (simp add: EncryptSecret_def DecryptSecret_def HasPrefix_def secretVersionPrefix_def)
  next
    case False
    show ?thesis
    proof (cases "loadSecretsKey L")
      case (Ok key)
      then obtain k where "sl_nonce L = Some k" "s = secretVersionPrefix @ sl_b64enc L (k @ sl_seal L key k p)"
        using assms(2) False by (auto simp: EncryptSecret_def split: option.splits)
      then show ?thesis using Ok assms(1) by (simp add: DecryptSecret_def same prefixed faithful_lib_def)
    qed (use assms(2,3) False in \<open>auto simp: EncryptSecret_def DecryptSecret_def SecretsConfigured_def split: if_splits\<close>)
  qed
qed

definition demo_secrets :: secrets_lib where
  "demo_secrets = \<lparr>sl_getenv = replicate 32 CHR ''k'', sl_b64dec = Some, sl_b64enc = id, sl_seal = (\<lambda>k n x. rev x @ ''tag''),
     sl_open = (\<lambda>k n x. Some (rev (take (length x - 3) x))), sl_nonce = Some (replicate 12 CHR ''n'')\<rparr>"

theorem secret_roundtrip_witness:
  "\<exists>s. EncryptSecret demo_secrets ''xoxb'' = Ok s \<and> s \<noteq> ''xoxb'' \<and> DecryptSecret (demo_secrets\<lparr>sl_nonce := None\<rparr>) s = Ok ''xoxb''"
proof -
  have f: "faithful_lib demo_secrets" by (simp add: faithful_lib_def demo_secrets_def nonceSize_def)
  have e: "EncryptSecret demo_secrets ''xoxb'' = Ok (''v1:'' @ replicate 12 CHR ''n'' @ ''bxoxtag'')" by code_simp
  have c: "SecretsConfigured demo_secrets" by code_simp
  from secret_roundtrip[OF f e] c e show ?thesis by simp
qed

text \<open>Without a key a text that starts with the prefix is stored as it is and cannot be read back.\<close>

lemma prefix_without_key:
  "sl_getenv L = [] \<Longrightarrow> EncryptSecret L ''v1:x'' = Ok ''v1:x'' \<and> DecryptSecret L ''v1:x'' = Err (Errorf ''cannot decrypt secret: %w'' [])"
  by (simp add: EncryptSecret_def DecryptSecret_def loadSecretsKey_def Let_def HasPrefix_def secretVersionPrefix_def)

end
