(* ===== verification/Chat_Ops.thy ===== *)
theory Chat_Ops
  imports Go_Time Go_Parse Go_Url Secrets Query_Api
begin

text \<open>
  ChatOps: the notification formats of \<open>domains/chatops/chatops.go\<close>, the slash-command parser of \<open>commands.go\<close>,
  the delivery test of \<open>handler/chatops.go\<close> and the Slack application of \<open>handler/chatops_oauth.go\<close>. Wire messages
  are the structures the code marshals. HMAC, HTTP, the form decoder and the environment variables come with the
  record \<open>slack_env\<close>; the table of installations is explicit.
\<close>

section \<open>Notification formats\<close>

record ChatEvent =
  en_Title :: string
  en_Service :: string
  en_Severity :: string
  en_Message :: string
  en_URL :: string
  en_Kind :: string

record slackText =
  st_Type :: string
  st_Text :: string

record slackButton =
  sb_Type :: string
  sb_Text :: slackText
  sb_URL :: string

record slackBlock =
  bl_Type :: string
  bl_Text :: "slackText option"
  bl_Fields :: "slackText list"
  bl_Elements :: "slackButton list"

record slackAttachment =
  at_Color :: string
  at_Blocks :: "slackBlock list"

record slackPayload =
  sp_Text :: string
  sp_Attachments :: "slackAttachment list"

record teamsFact =
  tf_Name :: string
  tf_Value :: string

record teamsSection =
  ts_ActivityTitle :: string
  ts_Facts :: "teamsFact list"
  ts_Text :: string
  ts_Markdown :: bool

record teamsTarget =
  tt_OS :: string
  tt_URI :: string

record teamsAction =
  ta_Type :: string
  ta_Name :: string
  ta_Targets :: "teamsTarget list"

record teamsCard =
  tc_Type :: string
  tc_Context :: string
  tc_ThemeColor :: string
  tc_Summary :: string
  tc_Title :: string
  tc_Sections :: "teamsSection list"
  tc_Actions :: "teamsAction list"

definition severityColor :: "string \<Rightarrow> string" where
  "severityColor sev =
     (let s = ToLower (TrimSpace sev) in
      if s \<in> set [''critical'', ''fatal'', ''emergency'', ''alert''] then ''#D64545''
      else if s \<in> set [''error'', ''err''] then ''#E8590C''
      else if s \<in> set [''warning'', ''warn''] then ''#F59F0B''
      else if s \<in> set [''info'', ''notice'', ''information''] then ''#2F80ED''
      else ''#8A94A6'')"

definition orNA :: "string \<Rightarrow> string" where
  "orNA s = (if TrimSpace s = [] then ''n/a'' else s)"

definition title_of :: "ChatEvent \<Rightarrow> string" where
  "title_of ev = (if en_Title ev = [] then ''Qeet Logs notification'' else en_Title ev)"

definition mrkdwn :: "string \<Rightarrow> slackText" where
  "mrkdwn s = \<lparr>st_Type = ''mrkdwn'', st_Text = s\<rparr>"

definition newline :: string where "newline = [CHR 0x0A]"

definition FormatSlack :: "ChatEvent \<Rightarrow> slackPayload" where
  "FormatSlack ev =
     (let title = title_of ev;
          blocks =
            [\<lparr>bl_Type = ''section'', bl_Text = Some (mrkdwn (''*'' @ title @ ''*'')), bl_Fields = [], bl_Elements = []\<rparr>,
             \<lparr>bl_Type = ''section'', bl_Text = None,
              bl_Fields = [mrkdwn (''*Service:*'' @ newline @ orNA (en_Service ev)), mrkdwn (''*Severity:*'' @ newline @ orNA (en_Severity ev)),
                           mrkdwn (''*Kind:*'' @ newline @ orNA (en_Kind ev))], bl_Elements = []\<rparr>] @
            (if en_Message ev \<noteq> [] then [\<lparr>bl_Type = ''section'', bl_Text = Some (mrkdwn (en_Message ev)), bl_Fields = [], bl_Elements = []\<rparr>] else []) @
            (if en_URL ev \<noteq> [] then
               [\<lparr>bl_Type = ''actions'', bl_Text = None, bl_Fields = [],
                 bl_Elements = [\<lparr>sb_Type = ''button'', sb_Text = \<lparr>st_Type = ''plain_text'', st_Text = ''View in Qeet Logs''\<rparr>, sb_URL = en_URL ev\<rparr>]\<rparr>]
             else [])
      in \<lparr>sp_Text = title, sp_Attachments = [\<lparr>at_Color = severityColor (en_Severity ev), at_Blocks = blocks\<rparr>]\<rparr>)"

definition FormatTeams :: "ChatEvent \<Rightarrow> teamsCard" where
  "FormatTeams ev =
     (let title = title_of ev;
          sect = \<lparr>ts_ActivityTitle = orNA (en_Service ev),
            ts_Facts = [\<lparr>tf_Name = ''Service'', tf_Value = orNA (en_Service ev)\<rparr>, \<lparr>tf_Name = ''Severity'', tf_Value = orNA (en_Severity ev)\<rparr>,
                        \<lparr>tf_Name = ''Kind'', tf_Value = orNA (en_Kind ev)\<rparr>],
            ts_Text = en_Message ev, ts_Markdown = True\<rparr>
      in \<lparr>tc_Type = ''MessageCard'', tc_Context = ''http://schema.org/extensions'', tc_ThemeColor = TrimPrefix (severityColor (en_Severity ev)) ''#'',
          tc_Summary = title, tc_Title = title, tc_Sections = [sect],
          tc_Actions = (if en_URL ev \<noteq> [] then
             [\<lparr>ta_Type = ''OpenUri'', ta_Name = ''View in Qeet Logs'', ta_Targets = [\<lparr>tt_OS = ''default'', tt_URI = en_URL ev\<rparr>]\<rparr>] else [])\<rparr>)"

section \<open>Delivery test\<close>

record chatopsTestRequest =
  ct_Provider :: string
  ct_WebhookURL :: string
  ct_Event :: ChatEvent

datatype chat_payload = ToSlack slackPayload | ToTeams teamsCard

datatype test_answer = CErr int string | CFailed string string | CReport int string bool int

text \<open>The upstream status or the error of the POST, for a URL and a payload.\<close>

type_synonym chat_post = "string \<Rightarrow> chat_payload \<Rightarrow> string + int"

definition chatopsDeliver :: "chat_post \<Rightarrow> string \<Rightarrow> chat_payload \<Rightarrow> string + int" where
  "chatopsDeliver post url payload = post url payload"

definition ChatOpsTest :: "chat_post \<Rightarrow> identity \<Rightarrow> chatopsTestRequest option \<Rightarrow> test_answer \<times> (string \<times> chat_payload) list" where
  "ChatOpsTest post i body =
     (if \<not> HasScope i [''logs:admin''] then (CErr 403 ''requires logs:admin scope'', [])
      else case body of
        None \<Rightarrow> (CErr 400 ''invalid JSON body'', [])
      | Some b \<Rightarrow>
          if ct_WebhookURL b = [] then (CErr 400 ''webhook_url is required'', [])
          else let send = (\<lambda>payload.
              (case chatopsDeliver post (ct_WebhookURL b) payload of
                 Inl e \<Rightarrow> CFailed (''delivery failed: '' @ e) (ct_Provider b)
               | Inr status \<Rightarrow>
                   let delivered = (quot0 status 100 = 2) in CReport (if delivered then 200 else 502) (ct_Provider b) delivered status,
               [(ct_WebhookURL b, payload)])) in
            if ct_Provider b = ''slack'' then send (ToSlack (FormatSlack (ct_Event b)))
            else if ct_Provider b = ''teams'' then send (ToTeams (FormatTeams (ct_Event b)))
            else (CErr 400 ''provider must be slack or teams'', []))"

section \<open>Commands\<close>

datatype Action = ActionQuery | ActionIncidents | ActionRCA | ActionHelp

record Command =
  co_Action :: Action
  co_Arg :: string

definition upper_char :: "char \<Rightarrow> char" where
  "upper_char c = (if between CHR ''a'' CHR ''z'' c then char_of (code_of c - 32) else c)"

definition ToUpper :: "string \<Rightarrow> string" where
  "ToUpper s = map upper_char s"

fun ContainsStr :: "string \<Rightarrow> string \<Rightarrow> bool" where
  "ContainsStr [] p = (p = [])"
| "ContainsStr (c # cs) p = (HasPrefix (c # cs) p \<or> ContainsStr cs p)"

definition looks_like_query :: "string \<Rightarrow> bool" where
  "looks_like_query text \<longleftrightarrow> list_ex (\<lambda>c. c \<in> set ''={}|'') text \<or> ContainsStr (ToUpper text) ''SELECT''"

definition ParseCommand :: "string \<Rightarrow> Command" where
  "ParseCommand text =
     (case Fields_loop [] (TrimSpace text) of
        [] \<Rightarrow> \<lparr>co_Action = ActionHelp, co_Arg = []\<rparr>
      | f # _ \<Rightarrow>
          let verb = ToLower f; arg = TrimSpace (TrimPrefix (TrimSpace text) f) in
          if verb \<in> set [''query'', ''q'', ''search''] then \<lparr>co_Action = ActionQuery, co_Arg = arg\<rparr>
          else if verb \<in> set [''incidents'', ''incident'', ''inc''] then \<lparr>co_Action = ActionIncidents, co_Arg = []\<rparr>
          else if verb = ''rca'' then \<lparr>co_Action = ActionRCA, co_Arg = arg\<rparr>
          else if verb \<in> set [''help'', ''?''] then \<lparr>co_Action = ActionHelp, co_Arg = []\<rparr>
          else if looks_like_query text then \<lparr>co_Action = ActionQuery, co_Arg = TrimSpace text\<rparr>
          else \<lparr>co_Action = ActionHelp, co_Arg = []\<rparr>)"

definition bullet :: string where "bullet = [CHR 0xE2, CHR 0x80, CHR 0xA2] @ '' ''"
definition em_dash :: string where "em_dash = '' '' @ [CHR 0xE2, CHR 0x80, CHR 0x94] @ '' ''"
definition tick :: string where "tick = [CHR 0x60]"

definition HelpText :: string where
  "HelpText = ''*Qeet Logs* commands:'' @ newline @
     bullet @ tick @ ''/qeetlogs query <LogQL++>'' @ tick @ em_dash @ ''run a query, e.g. '' @ tick @ ''query level=error service=checkout'' @ tick @ newline @
     bullet @ tick @ ''/qeetlogs incidents'' @ tick @ em_dash @ ''list open incidents'' @ newline @
     bullet @ tick @ ''/qeetlogs rca <service>'' @ tick @ em_dash @ ''open root-cause analysis for a service'' @ newline @
     bullet @ tick @ ''/qeetlogs help'' @ tick @ em_dash @ ''this message''"

record slashResponse =
  sr_ResponseType :: string
  sr_Text :: string

definition SlashReply :: "string \<Rightarrow> bool \<Rightarrow> slashResponse" where
  "SlashReply text inChannel = \<lparr>sr_ResponseType = (if inChannel then ''in_channel'' else ''ephemeral''), sr_Text = text\<rparr>"

section \<open>The Slack application\<close>

record installation =
  in_tenant :: string
  in_provider :: string
  in_team :: string
  in_name :: string
  in_token :: string
  in_by :: string

record chat_incident =
  ci_tenant :: string
  ci_status :: string
  ci_title :: "string option"
  ci_service :: "string option"
  ci_severity :: "string option"
  ci_seen :: int

text \<open>A decoded token answer: ok, error, access token, team id and name, user.\<close>

record slack_token =
  tk_OK :: bool
  tk_Error :: string
  tk_Access :: string
  tk_Team :: string
  tk_TeamName :: string
  tk_User :: string

text \<open>
  \<open>sv_exchange\<close> posts the encoded form to the token URL (network error, or the body), \<open>sv_token\<close> decodes a body (the
  second component tells whether decoding succeeded), \<open>sv_mac\<close> is the hexadecimal HMAC-SHA256 of a text under a
  key, \<open>sv_parse\<close> the form decoder, \<open>sv_db\<close> the failures of the Postgres statements.
\<close>

record slack_env =
  sv_clientID :: string
  sv_clientSecret :: string
  sv_signingSecret :: string
  sv_redirect :: string
  sv_console :: string
  sv_exchange :: "string \<Rightarrow> string + string"
  sv_token :: "string \<Rightarrow> slack_token \<times> bool"
  sv_mac :: "string \<Rightarrow> string \<Rightarrow> string"
  sv_parse :: "string \<Rightarrow> (string \<Rightarrow> string) option"
  sv_now :: int
  sv_db :: "nat \<Rightarrow> string option"
  sv_secrets :: secrets_lib
  sv_ch :: "string \<Rightarrow> string + jrow list"
  sv_lib :: lib
  sv_errtext :: "goerror \<Rightarrow> string"

datatype slack_answer = SErr int string | SRedirect string | SInstalled string | SReply slashResponse | SAck

definition slackAuthorizeURL :: string where "slackAuthorizeURL = ''https://slack.com/oauth/v2/authorize''"
definition slackScopes :: string where "slackScopes = ''commands,chat:write''"
definition slackMaxSkew :: int where "slackMaxSkew = 5 * 60 * 10 ^ 9"

definition ChatOpsSlackInstall :: "slack_env \<Rightarrow> string \<Rightarrow> slack_answer" where
  "ChatOpsSlackInstall env tenant =
     (if sv_clientID env = [] then SErr 501 ''Slack app not configured (SLACK_CLIENT_ID unset)''
      else if tenant = [] then SErr 400 ''tenant query parameter is required''
      else SRedirect (slackAuthorizeURL @ ''?'' @
        Encode ([(''client_id'', sv_clientID env), (''scope'', slackScopes), (''state'', tenant)] @
          (if sv_redirect env \<noteq> [] then [(''redirect_uri'', sv_redirect env)] else []))))"

definition same_installation :: "string \<Rightarrow> string \<Rightarrow> installation \<Rightarrow> bool" where
  "same_installation tenant team i \<longleftrightarrow> in_tenant i = tenant \<and> in_provider i = ''slack'' \<and> in_team i = team"

text \<open>INSERT ... ON CONFLICT (tenant\_id, provider, team\_id) DO UPDATE.\<close>

definition upsert_installation :: "string \<Rightarrow> slack_token \<Rightarrow> string \<Rightarrow> installation list \<Rightarrow> installation list" where
  "upsert_installation tenant tok enc is =
     (if list_ex (same_installation tenant (tk_Team tok)) is
      then map (\<lambda>i. if same_installation tenant (tk_Team tok) i then i\<lparr>in_name := tk_TeamName tok, in_token := enc, in_by := tk_User tok\<rparr> else i) is
      else is @ [\<lparr>in_tenant = tenant, in_provider = ''slack'', in_team = tk_Team tok, in_name = tk_TeamName tok, in_token = enc, in_by = tk_User tok\<rparr>])"

definition ChatOpsSlackCallback :: "slack_env \<Rightarrow> string \<Rightarrow> string \<Rightarrow> installation list \<Rightarrow> slack_answer \<times> installation list" where
  "ChatOpsSlackCallback env code tenant is =
     (if sv_clientID env = [] \<or> sv_clientSecret env = [] then (SErr 501 ''Slack app not configured (SLACK_CLIENT_ID / SLACK_CLIENT_SECRET unset)'', is)
      else if code = [] \<or> tenant = [] then (SErr 400 ''code and state are required'', is)
      else let form = [(''client_id'', sv_clientID env), (''client_secret'', sv_clientSecret env), (''code'', code)] @
                 (if sv_redirect env \<noteq> [] then [(''redirect_uri'', sv_redirect env)] else []) in
        case sv_exchange env (Encode form) of
          Inl e \<Rightarrow> (SErr 502 (''slack token exchange failed: '' @ e), is)
        | Inr raw \<Rightarrow>
            (let (tok, decoded) = sv_token env raw in
             if \<not> decoded \<or> \<not> tk_OK tok then
               (SErr 502 (''slack oauth: '' @ (if tk_Error tok = [] then ''unexpected response from slack'' else tk_Error tok)), is)
             else case EncryptSecret (sv_secrets env) (tk_Access tok) of
                 Err e \<Rightarrow> (SErr 500 (''cannot secure bot token: '' @ sv_errtext env e), is)
               | Panic \<Rightarrow> (SErr 500 [], is)
               | Ok enc \<Rightarrow>
                   (case sv_db env 0 of
                      Some e \<Rightarrow> (SErr 500 e, is)
                    | None \<Rightarrow> (SInstalled (tk_TeamName tok), upsert_installation tenant tok enc is))))"

text \<open>\<open>time.Unix(ts, 0)\<close> keeps the seconds since year one in an \<open>int64\<close>.\<close>

definition unix_time :: "int \<Rightarrow> int" where
  "unix_time ts = (wrap64 (ts + 62135596800) - 62135596800) * 10 ^ 9"

definition verifySlackSignature :: "slack_env \<Rightarrow> string \<Rightarrow> string \<Rightarrow> string \<Rightarrow> bool" where
  "verifySlackSignature env timestamp signature body =
     (if sv_signingSecret env = [] \<or> timestamp = [] \<or> signature = [] then False
      else case ParseInt timestamp of
        None \<Rightarrow> False
      | Some ts \<Rightarrow>
          let d = time_Sub (sv_now env) (unix_time ts) in
          if d > slackMaxSkew \<or> d < - slackMaxSkew then False
          else ''v0='' @ sv_mac env (sv_signingSecret env) (''v0:'' @ timestamp @ '':'' @ body) = signature)"

text \<open>A request of Slack: the two headers, and the body or the failure of reading it.\<close>

record slack_request =
  rq_Timestamp :: string
  rq_Signature :: string
  rq_Body :: "string option"

definition slackVerifiedBody :: "slack_env \<Rightarrow> slack_request \<Rightarrow> slack_answer + string" where
  "slackVerifiedBody env r =
     (case map_option (take (2 ^ 20)) (rq_Body r) of
        None \<Rightarrow> Inl (SErr 400 ''cannot read body'')
      | Some body \<Rightarrow>
          if \<not> verifySlackSignature env (rq_Timestamp r) (rq_Signature r) body then Inl (SErr 401 ''invalid slack signature'')
          else Inr body)"

definition chatopsResolveTenant :: "slack_env \<Rightarrow> installation list \<Rightarrow> string \<Rightarrow> string" where
  "chatopsResolveTenant env is teamID =
     (if teamID = [] then []
      else if sv_db env 0 \<noteq> None then []
      else case find (\<lambda>i. in_provider i = ''slack'' \<and> in_team i = teamID) is of Some i \<Rightarrow> in_tenant i | None \<Rightarrow> [])"

definition row_line :: "lib \<Rightarrow> string list \<Rightarrow> jrow \<Rightarrow> string" where
  "row_line L cols row =
     bullet @ Join (List.map_filter (\<lambda>c. case map_of row c of None \<Rightarrow> None | Some JNull \<Rightarrow> None | Some v \<Rightarrow> Some (c @ ''='' @ lib_Sprint L v)) cols) ''  '' @ newline"

definition chatopsRenderRows :: "lib \<Rightarrow> string list \<Rightarrow> jrow list \<Rightarrow> string" where
  "chatopsRenderRows L cols rows =
     (if rows = [] then ''No results.''
      else ''*'' @ show_int (int (length rows)) @ '' row(s)* (showing up to 5):'' @ newline @ concat (map (row_line L cols) (take 5 rows)))"

definition incident_line :: "chat_incident \<Rightarrow> string option" where
  "incident_line i =
     (case (ci_title i, ci_service i, ci_severity i) of
        (Some title, Some service, Some severity) \<Rightarrow> Some (bullet @ ''['' @ ToUpper severity @ ''] '' @ title @ '' ('' @ service @ '')'' @ newline)
      | _ \<Rightarrow> None)"

definition party :: string where "party = [CHR 0xF0, CHR 0x9F, CHR 0x8E, CHR 0x89]"

definition chatopsRenderIncidents :: "slack_env \<Rightarrow> chat_incident list \<Rightarrow> string \<Rightarrow> string" where
  "chatopsRenderIncidents env incidents tenant =
     (case sv_db env 1 of
        Some e \<Rightarrow> ''Could not fetch incidents: '' @ e
      | None \<Rightarrow>
          let rows = take 5 (sort_key (\<lambda>i. - ci_seen i) (filter (\<lambda>i. ci_tenant i = tenant \<and> ci_status i = ''open'') incidents));
              ls = List.map_filter incident_line rows in
          if ls = [] then ''No open incidents. '' @ party else ''*Open incidents:*'' @ newline @ concat ls)"

definition chatopsConsoleURL :: "slack_env \<Rightarrow> string" where
  "chatopsConsoleURL env = (if sv_console env \<noteq> [] then TrimRight_slash (sv_console env) else ''https://logs.qeet.in'')"

definition chatopsExecute :: "slack_env \<Rightarrow> chat_incident list \<Rightarrow> string \<Rightarrow> Command \<Rightarrow> slashResponse \<times> string list" where
  "chatopsExecute env incidents tenant cmd =
     (case co_Action cmd of
        ActionQuery \<Rightarrow>
          if TrimSpace (co_Arg cmd) = [] then (SlashReply (''Usage: '' @ tick @ ''/qeetlogs query <LogQL++>'' @ tick) False, [])
          else (case Compile (co_Arg cmd) tenant queryOpts of
              Err e \<Rightarrow> (SlashReply (''Query error: '' @ sv_errtext env e) False, [])
            | Panic \<Rightarrow> (SlashReply [] False, [])
            | Ok compiled \<Rightarrow>
                (case sv_ch env (c_SQL compiled) of
                   Inl e \<Rightarrow> SlashReply (''Query execution failed: '' @ e) False
                 | Inr rows \<Rightarrow> SlashReply (chatopsRenderRows (sv_lib env) (c_Columns compiled) rows) False, [c_SQL compiled]))
      | ActionIncidents \<Rightarrow> (SlashReply (chatopsRenderIncidents env incidents tenant) False, [])
      | ActionRCA \<Rightarrow>
          let svc = TrimSpace (co_Arg cmd) in
          if svc = [] then (SlashReply (''Usage: '' @ tick @ ''/qeetlogs rca <service>'' @ tick) False, [])
          else (SlashReply (''Root-cause analysis for *'' @ svc @ ''*: '' @ chatopsConsoleURL env @ ''/incidents?service='' @ QueryEscape svc) False, [])
      | ActionHelp \<Rightarrow> (SlashReply HelpText False, []))"

definition not_linked :: string where
  "not_linked = ''This Slack workspace is not linked to a Qeet Logs tenant. Ask an admin to install the app.''"

definition ChatOpsSlackCommands :: "slack_env \<Rightarrow> installation list \<Rightarrow> chat_incident list \<Rightarrow> slack_request \<Rightarrow> slack_answer \<times> string list" where
  "ChatOpsSlackCommands env is incidents r =
     (if sv_signingSecret env = [] then (SErr 501 ''Slack app not configured (SLACK_SIGNING_SECRET unset)'', [])
      else case slackVerifiedBody env r of
        Inl a \<Rightarrow> (a, [])
      | Inr body \<Rightarrow>
          (case sv_parse env body of
             None \<Rightarrow> (SErr 400 ''invalid form body'', [])
           | Some form \<Rightarrow>
               let tenant = chatopsResolveTenant env is (form ''team_id'') in
               if tenant = [] then (SReply (SlashReply not_linked False), [])
               else (case chatopsExecute env incidents tenant (ParseCommand (form ''text'')) of (reply, sent) \<Rightarrow> (SReply reply, sent))))"

definition ChatOpsSlackInteractivity :: "slack_env \<Rightarrow> slack_request \<Rightarrow> slack_answer" where
  "ChatOpsSlackInteractivity env r =
     (if sv_signingSecret env = [] then SErr 501 ''Slack app not configured (SLACK_SIGNING_SECRET unset)''
      else case slackVerifiedBody env r of Inl a \<Rightarrow> a | Inr _ \<Rightarrow> SAck)"

section \<open>Properties\<close>

lemma unix_time_near:
  assumes "in_int64 now" "in_int64 ts"
  shows "\<bar>time_Sub now (unix_time ts)\<bar> \<le> slackMaxSkew \<longleftrightarrow> \<bar>now - ts * 10 ^ 9\<bar> \<le> slackMaxSkew"
proof (cases "in_int64 (ts + 62135596800)")
  case True
  then have "unix_time ts = ts * 10 ^ 9" by (simp add: unix_time_def wrap64_id)
  then show ?thesis by (auto simp: time_Sub_def slackMaxSkew_def int64_min_def int64_max_def)
next
  case False
  then have "2 ^ 63 \<le> ts + 62135596800" using assms(2) by (auto simp: in_int64_def)
  moreover have "ts + 62135596800 < 2 ^ 63 + 2 ^ 36" using assms(2) by (simp add: in_int64_def)
  ultimately have "(ts + 62135596800 + 2 ^ 63 - 2 ^ 64) mod 2 ^ 64 = ts + 62135596800 + 2 ^ 63 - 2 ^ 64" by (intro mod_pos_pos_trivial) simp_all
  then have "wrap64 (ts + 62135596800) = ts + 62135596800 - 2 ^ 64" unfolding wrap64_def minus_mod_self2 by simp
  then have "unix_time ts = (ts - 2 ^ 64) * 10 ^ 9" by (simp add: unix_time_def)
  then show ?thesis using assms False by (auto simp: time_Sub_def slackMaxSkew_def int64_min_def int64_max_def in_int64_def)
qed

lemma ParseInt_range: "ParseInt t = Some ts \<Longrightarrow> in_int64 ts"
  by (rule ParseInt_in_int64)

text \<open>
  A Slack request is accepted exactly when its signature is the HMAC of its own timestamp and body under the
  signing secret and the timestamp lies within five minutes of the clock, in both directions: a captured request
  cannot be replayed later, and no timestamp text, however large, wraps into the window.
\<close>

theorem slack_signature_exact:
  assumes "in_int64 (sv_now env)"
  shows "verifySlackSignature env timestamp signature body \<longleftrightarrow>
    sv_signingSecret env \<noteq> [] \<and> timestamp \<noteq> [] \<and> signature = ''v0='' @ sv_mac env (sv_signingSecret env) (''v0:'' @ timestamp @ '':'' @ body) \<and>
    (\<exists>ts. ParseInt timestamp = Some ts \<and> \<bar>sv_now env - ts * 10 ^ 9\<bar> \<le> 300 * 10 ^ 9)"
proof (cases "ParseInt timestamp")
  case None
  then show ?thesis by (simp add: verifySlackSignature_def)
next
  case (Some ts)
  have "\<bar>time_Sub (sv_now env) (unix_time ts)\<bar> \<le> slackMaxSkew \<longleftrightarrow> \<bar>sv_now env - ts * 10 ^ 9\<bar> \<le> 300 * 10 ^ 9"
    using unix_time_near[OF assms ParseInt_range[OF Some]] by (simp add: slackMaxSkew_def)
  then show ?thesis using Some by (auto simp: verifySlackSignature_def Let_def abs_le_iff)
qed

definition demo_slack :: slack_env where
  "demo_slack = \<lparr>sv_clientID = ''c'', sv_clientSecret = ''s'', sv_signingSecret = ''k'', sv_redirect = [], sv_console = [], sv_exchange = (\<lambda>_. Inl ''down''),
     sv_token = (\<lambda>_. (\<lparr>tk_OK = False, tk_Error = [], tk_Access = [], tk_Team = [], tk_TeamName = [], tk_User = []\<rparr>, False)), sv_mac = (\<lambda>k m. rev m @ k),
     sv_parse = (\<lambda>b. Some ((\<lambda>_. [])(''team_id'' := ''T1'', ''text'' := b))), sv_now = 1000 * 10 ^ 9, sv_db = (\<lambda>_. None), sv_secrets = demo_secrets,
     sv_ch = (\<lambda>_. Inr []), sv_lib = plain_lib, sv_errtext = (\<lambda>_. [])\<rparr>"

theorem slack_signature_exact_witness:
  "verifySlackSignature demo_slack ''900'' (''v0='' @ sv_mac demo_slack ''k'' ''v0:900:help'') ''help'' \<and>
   \<not> verifySlackSignature (demo_slack\<lparr>sv_now := 1201 * 10 ^ 9\<rparr>) ''900'' (''v0='' @ sv_mac demo_slack ''k'' ''v0:900:help'') ''help''"
proof -
  have p: "ParseInt ''900'' = Some 900" by code_simp
  have "in_int64 (sv_now demo_slack)" "in_int64 (sv_now (demo_slack\<lparr>sv_now := 1201 * 10 ^ 9\<rparr>))" by (simp_all add: in_int64_def demo_slack_def)
  from this[THEN slack_signature_exact] p show ?thesis by (simp add: demo_slack_def)
qed


definition demo_slack_query :: string where "demo_slack_query = ''query SELECT * FROM logs''"

definition demo_slack_request :: slack_request where
  "demo_slack_request = \<lparr>rq_Timestamp = ''1000'', rq_Signature = ''v0='' @ rev (''v0:1000:'' @ demo_slack_query) @ ''k'', rq_Body = Some demo_slack_query\<rparr>"

definition demo_installs :: "installation list" where
  "demo_installs = [\<lparr>in_tenant = ''acme'', in_provider = ''slack'', in_team = ''T1'', in_name = [], in_token = [], in_by = []\<rparr>]"


text \<open>The consent redirect carries exactly its parameters, whatever the tenant text.\<close>

lemma install_redirect:
  assumes "sv_clientID env \<noteq> []" "tenant \<noteq> []" "sv_redirect env = []"
  shows "\<exists>q. ChatOpsSlackInstall env tenant = SRedirect (slackAuthorizeURL @ ''?'' @ q) \<and>
    ParseQuery q = [(''client_id'', sv_clientID env), (''scope'', slackScopes), (''state'', tenant)]"
proof -
  have "sort_key fst [(''client_id'', sv_clientID env), (''scope'', slackScopes), (''state'', tenant)] =
      [(''client_id'', sv_clientID env), (''scope'', slackScopes), (''state'', tenant)]" by (simp add: sort_key_def)
  then show ?thesis using assms ParseQuery_Encode by (auto simp: ChatOpsSlackInstall_def)
qed

text \<open>
  A text with no known verb is a query as soon as it holds one of four characters, although unknown verbs are
  documented to give the help text.
\<close>

lemma unknown_verb_queries: "ParseCommand ''delete x=1'' = \<lparr>co_Action = ActionQuery, co_Arg = ''delete x=1''\<rparr>"
  by code_simp

end
