(* ===== verification/Prom_Api.thy ===== *)
theory Prom_Api
  imports Go_Time Go_Parse Query_Api
begin

text \<open>
  The Prometheus endpoints of \<open>platform/api/handler/promql.go\<close>: instant and range queries over the compiled
  PromQL, the cardinality check that runs first, and the vectors and matrices built from the rows. Parsers of
  floats, times and durations are those of the library (\<open>lib\<close>, \<open>prom_env\<close>).
\<close>

section \<open>Parameters\<close>

text \<open>\<open>pe_duration\<close> is \<open>time.ParseDuration\<close>, \<open>pe_maxcard\<close> the text of METRIC\_MAX\_LABEL\_CARDINALITY.\<close>

record prom_env = api_env +
  pv_duration :: "string \<Rightarrow> int option"
  pv_maxcard :: string

definition rfc3339 :: string where "rfc3339 = ''2006-01-02T15:04:05Z07:00''"

text \<open>\<open>t.Unix()\<close> of an instant in nanoseconds.\<close>

definition Unix :: "int \<Rightarrow> int" where
  "Unix t = t div 10 ^ 9"

definition parseUnixTime :: "'a api_env_scheme \<Rightarrow> string \<Rightarrow> int \<Rightarrow> int" where
  "parseUnixTime env s def =
     (if s = [] then Unix def
      else case lib_ParseFloat (qe_lib env) s of
        Some f \<Rightarrow> int64_of (qe_oob env) f
      | None \<Rightarrow> (case lib_ParseTime (qe_lib env) rfc3339 s of Some t \<Rightarrow> Unix t | None \<Rightarrow> Unix def))"

definition parseStep :: "prom_env \<Rightarrow> string \<Rightarrow> int" where
  "parseStep env s =
     (if s = [] then 60
      else case lib_ParseFloat (qe_lib env) s of
        Some f \<Rightarrow> if flt f (Fin 1) then 1 else int64_of (qe_oob env) f
      | None \<Rightarrow> (case pv_duration env s of
            Some d \<Rightarrow> let sec = int64_of (qe_oob env) (Seconds d) in if 1 \<le> sec then sec else 60
          | None \<Rightarrow> 60))"

definition toFloat :: "lib \<Rightarrow> json \<Rightarrow> f64 option" where
  "toFloat L v =
     (case v of JNum x \<Rightarrow> (case x of NaN \<Rightarrow> None | Inf _ \<Rightarrow> None | _ \<Rightarrow> Some x)
      | JStr x \<Rightarrow> lib_ParseFloat L x
      | _ \<Rightarrow> None)"

definition toFloatDefault :: "lib \<Rightarrow> json \<Rightarrow> f64 \<Rightarrow> f64" where
  "toFloatDefault L v def = (case toFloat L v of Some f \<Rightarrow> f | None \<Rightarrow> def)"

section \<open>Series\<close>

definition set_text :: "smap \<Rightarrow> string \<times> json \<Rightarrow> smap" where
  "set_text labels kv = (case snd kv of JStr s \<Rightarrow> if s \<noteq> [] then mset_at (fst kv) s labels else labels | _ \<Rightarrow> labels)"

definition labelsOf :: "PromCompiled \<Rightarrow> jrow \<Rightarrow> smap" where
  "labelsOf c row =
     (let labels = foldl set_text (mset_at ''__name__'' (pc_Metric c) []) (map (\<lambda>col. (col, jcell row col)) (pc_LabelCols c)) in
      if pc_HasAttrs c then (case jcell row ''attributes'' of JObj attrs \<Rightarrow> foldl set_text labels attrs | _ \<Rightarrow> labels) else labels)"

definition seriesKey :: "smap \<Rightarrow> string" where
  "seriesKey labels = concat (map (\<lambda>(k, v). k @ ''='' @ v @ '';'') labels)"

datatype prom_answer =
    PErr string
  | PVector "(smap \<times> f64 \<times> string) list"
  | PMatrix "(smap \<times> (f64 \<times> string) list) list"

definition promErr :: "string \<Rightarrow> prom_answer" where
  "promErr msg = PErr msg"

text \<open>The label set and the point of every row whose value is a number.\<close>

definition points :: "lib \<Rightarrow> PromCompiled \<Rightarrow> f64 \<Rightarrow> jrow list \<Rightarrow> (smap \<times> f64 \<times> string) list" where
  "points L c def rows =
     List.map_filter (\<lambda>row. map_option (\<lambda>v. (labelsOf c row, toFloatDefault L (jcell row ''bucket'') def, lib_FormatFloat L v)) (toFloat L (jcell row ''value''))) rows"

definition writeVector :: "'a api_env_scheme \<Rightarrow> PromCompiled \<Rightarrow> jrow list \<Rightarrow> prom_answer" where
  "writeVector env c rows = PVector (points (qe_lib env) c (of_int64 (Unix (qe_now env 1))) rows)"

definition writeMatrix :: "'a api_env_scheme \<Rightarrow> PromCompiled \<Rightarrow> jrow list \<Rightarrow> prom_answer" where
  "writeMatrix env c rows = PMatrix (group_rows seriesKey (points (qe_lib env) c (Zero False) rows))"

section \<open>Cardinality\<close>

definition maxLabelCardinality :: "prom_env \<Rightarrow> int" where
  "maxLabelCardinality env = (case ParseInt (pv_maxcard env) of Some v \<Rightarrow> if v > 0 then v else 50000 | None \<Rightarrow> 50000)"

definition cardinalitySQL :: "string \<Rightarrow> string \<Rightarrow> string" where
  "cardinalitySQL tenant metric =
     ''SELECT uniqExact(attributes) AS c FROM metrics WHERE tenant_id = '' @ QuoteLiteral tenant @ '' AND metric_name = '' @ QuoteLiteral metric @
     '' AND timestamp >= now() - INTERVAL 1 HOUR''"

text \<open>The error of the check and the statements it sent; a failing statement does not block the query.\<close>

definition checkCardinality :: "prom_env \<Rightarrow> string \<Rightarrow> string \<Rightarrow> goerror option \<times> string list" where
  "checkCardinality env tenant metric =
     (if metric = [] then (None, [])
      else let sql = cardinalitySQL tenant metric in
        (case qe_ch env sql of
           Inl _ \<Rightarrow> None
         | Inr [] \<Rightarrow> None
         | Inr (row # _) \<Rightarrow>
             let card = (case jcell row ''c'' of JNum v \<Rightarrow> int64_of (qe_oob env) v | JStr v \<Rightarrow> scan_d v | _ \<Rightarrow> 0) in
             if card > maxLabelCardinality env then
               Some (Errorf ''label cardinality %d exceeds limit %d for metric %q; add label matchers to reduce cardinality''
                 [show_int card, show_int (maxLabelCardinality env), metric])
             else None, [sql]))"

section \<open>Handlers\<close>

text \<open>What both queries do with a compiled expression.\<close>

definition prom_execute :: "prom_env \<Rightarrow> string \<Rightarrow> string \<Rightarrow> PromCompiled \<Rightarrow> (jrow list \<Rightarrow> prom_answer) \<Rightarrow> prom_answer handled" where
  "prom_execute env action expr c write =
     (let tenant = ctxTenant (qe_id env) in
      case checkCardinality env tenant (pc_Metric c) of
        (Some e, sent) \<Rightarrow> (promErr (qe_errtext env e), sent, [])
      | (None, sent) \<Rightarrow>
          (case qe_ch env (pc_SQL c) of
             Inl e \<Rightarrow> (promErr (''query execution failed: '' @ e), sent @ [pc_SQL c], [])
           | Inr rows \<Rightarrow> (write rows, sent @ [pc_SQL c], [writeAudit tenant action expr (length rows) 0])))"

definition prom_query_with :: "prom_env \<Rightarrow> string \<Rightarrow> PromParams \<Rightarrow> (PromCompiled \<Rightarrow> jrow list \<Rightarrow> prom_answer) \<Rightarrow> string \<Rightarrow> prom_answer handled" where
  "prom_query_with env action p write expr =
     (case CompilePromQL expr (ctxTenant (qe_id env)) p of
        Err e \<Rightarrow> plain (promErr (qe_errtext env e))
      | Panic \<Rightarrow> plain (PErr [])
      | Ok c \<Rightarrow> prom_execute env action expr c (write c))"

definition PromInstantQuery :: "prom_env \<Rightarrow> prom_answer handled" where
  "PromInstantQuery env =
     (if \<not> HasScope (qe_id env) [''logs:read'', ''logs:query''] then plain (promErr ''requires logs:read or logs:query scope'')
      else let expr = qe_form env ''query'' in
        if expr = [] then plain (promErr ''missing query'')
        else let end = parseUnixTime env (qe_form env ''time'') (qe_now env 0) in
          prom_query_with env ''promql'' \<lparr>pp_StartUnix = 0, pp_EndUnix = end, pp_StepSec = 0, pp_Lookback = 300\<rparr> (writeVector env) expr)"

definition PromRangeQuery :: "prom_env \<Rightarrow> prom_answer handled" where
  "PromRangeQuery env =
     (if \<not> HasScope (qe_id env) [''logs:read'', ''logs:query''] then plain (promErr ''requires logs:read or logs:query scope'')
      else let expr = qe_form env ''query'' in
        if expr = [] then plain (promErr ''missing query'')
        else let start = parseUnixTime env (qe_form env ''start'') (qe_now env 0 - 3600 * 10 ^ 9);
                 end = parseUnixTime env (qe_form env ''end'') (qe_now env 1);
                 step = parseStep env (qe_form env ''step'') in
          prom_query_with env ''promql_range'' \<lparr>pp_StartUnix = start, pp_EndUnix = end, pp_StepSec = step, pp_Lookback = 0\<rparr> (writeMatrix env) expr)"

section \<open>What reaches the store\<close>

lemma cardinality_confined: "confined tenant (cardinalitySQL tenant metric)"
proof -
  have "conjunct (''metric_name = '' @ quote metric)" by (rule conjunct_quote) code_simp+
  moreover have "conjunct ''timestamp >= now() - INTERVAL 1 HOUR''"
  proof -
    have "closed ''timestamp >= now() - INTERVAL 1 HOUR''" by (simp add: closed_def scan_simps)
    moreover have "no_or (skeleton (Out 0) ''timestamp >= now() - INTERVAL 1 HOUR'')" by code_simp
    ultimately show ?thesis unfolding conjunct_def no_or_def by blast
  qed
  ultimately have c: "list_all conjunct [''metric_name = '' @ quote metric, ''timestamp >= now() - INTERVAL 1 HOUR'']" by simp
  have t: "''metrics'' \<in> set read_tables" by (simp add: read_tables_def)
  have e: "ends_where []" by (simp add: ends_where_def)
  have q: "q_run (Sql (Out 0)) ''SELECT uniqExact(attributes) AS c'' = Sql (Out 0)" by (simp add: q_out_def scan_simps bquote_def)
  from confinedI[OF t c e q, of tenant] show ?thesis by (simp add: cardinalitySQL_def where_of_def QuoteLiteral_def)
qed

text \<open>A grouping label with a backslash escapes the guard; the queries are confined for all others.\<close>

definition plain_labels :: "string \<Rightarrow> string \<Rightarrow> bool" where
  "plain_labels tenant expr \<longleftrightarrow> (\<forall>p c. CompilePromQL expr tenant p = Ok c \<longrightarrow> (\<forall>l \<in> set (pc_LabelCols c). backslash \<notin> set l))"

lemma prom_query_keeps:
  assumes "plain_labels (ctxTenant (qe_id env)) expr" "HasScope (qe_id env) scopes"
  shows "keeps_tenant scopes (qe_id env) (snd (prom_query_with env action p write expr))"
proof (cases "CompilePromQL expr (ctxTenant (qe_id env)) p")
  case (Ok c)
  then have "confined (ctxTenant (qe_id env)) (pc_SQL c)" using assms(1) CompilePromQL_confined[OF Ok] by (auto simp: plain_labels_def)
  moreover have "\<forall>sql \<in> set (snd (checkCardinality env (ctxTenant (qe_id env)) (pc_Metric c))). confined (ctxTenant (qe_id env)) sql"
    by (simp add: checkCardinality_def cardinality_confined Let_def)
  ultimately show ?thesis using Ok assms(2)
    by (auto simp: prom_query_with_def prom_execute_def keeps_tenant_def writeAudit_def Let_def split: prod.splits option.splits sum.splits)
qed (simp_all add: prom_query_with_def)

lemma Prom_keeps:
  assumes "plain_labels (ctxTenant (qe_id env)) (qe_form env ''query'')"
  shows "keeps_tenant [''logs:read'', ''logs:query''] (qe_id env) (snd (PromInstantQuery env))"
    "keeps_tenant [''logs:read'', ''logs:query''] (qe_id env) (snd (PromRangeQuery env))"
  using prom_query_keeps[OF assms, of "[''logs:read'', ''logs:query'']"]
  by (simp_all add: PromInstantQuery_def PromRangeQuery_def Let_def del: HasScope.simps)

section \<open>Grouping of a range query\<close>

lemma seriesKey_pair: "seriesKey = pair_key (CHR ''='') (CHR '';'')"
  by (simp add: seriesKey_def pair_key_def fun_eq_iff)

text \<open>
  A matrix groups the points by label set: as long as no label name holds an equals sign and no label value
  a semicolon, there is one series for every label set of the rows, in order of first appearance, with exactly
  the points of its rows in their order.
\<close>

theorem writeMatrix_groups:
  assumes "\<forall>pt \<in> set (points (qe_lib env) c (Zero False) rows). key_safe (CHR ''='') (CHR '';'') (fst pt)"
  shows "writeMatrix env c rows = PMatrix (grouped (points (qe_lib env) c (Zero False) rows))"
  using pair.groups_by_labels[OF assms] by (simp add: writeMatrix_def seriesKey_pair)

definition demo_rows :: "jrow list" where
  "demo_rows = [[(''service'', JStr ''api''), (''value'', JNum (Fin 1))], [(''service'', JStr ''db''), (''value'', JNum (Fin 2))],
     [(''service'', JStr ''api''), (''value'', JNum (Fin 3))], [(''value'', JNum NaN)]]"

definition demo_compiled :: PromCompiled where
  "demo_compiled = \<lparr>pc_SQL = [], pc_LabelCols = [''service''], pc_Metric = ''m'', pc_HasAttrs = False, pc_Instant = False\<rparr>"

definition demo_env :: api_env where
  "demo_env = \<lparr>qe_id = \<lparr>ctxTenant = ''acme'', ctxScopes = [''logs:read'']\<rparr>, qe_form = (\<lambda>_. []), qe_ch = (\<lambda>_. Inr []), qe_now = (\<lambda>_. 0), qe_latency = 0,
     qe_errtext = (\<lambda>_. []), qe_marshal = (\<lambda>_. []), qe_lib = plain_lib, qe_oob = (\<lambda>_. 0)\<rparr>"

theorem writeMatrix_groups_witness:
  "writeMatrix demo_env demo_compiled demo_rows = PMatrix (grouped (points plain_lib demo_compiled (Zero False) demo_rows)) \<and>
   writeMatrix demo_env demo_compiled demo_rows =
     PMatrix [([(''__name__'', ''m''), (''service'', ''api'')], [(Zero False, []), (Zero False, [])]), ([(''__name__'', ''m''), (''service'', ''db'')], [(Zero False, [])])]"
proof
  have "list_all (\<lambda>pt. key_safe (CHR ''='') (CHR '';'') (fst pt)) (points (qe_lib demo_env) demo_compiled (Zero False) demo_rows)" by code_simp
  then have "writeMatrix demo_env demo_compiled demo_rows = PMatrix (grouped (points (qe_lib demo_env) demo_compiled (Zero False) demo_rows))"
    using writeMatrix_groups by (simp add: list_all_iff)
  then show "writeMatrix demo_env demo_compiled demo_rows = PMatrix (grouped (points plain_lib demo_compiled (Zero False) demo_rows))"
    by (simp add: demo_env_def)
qed code_simp

text \<open>The key does not escape its separators: two different label sets share one key, and their series are merged.\<close>

lemma seriesKey_collides:
  "seriesKey [(''a'', ''1;b=2'')] = seriesKey [(''a'', ''1''), (''b'', ''2'')]"
  by code_simp

end
