(* ===== verification/Loki_Compile.thy ===== *)
theory Loki_Compile
  imports Loki LogQL_Grammar
begin

text \<open>
  The LogQL++ text of a Loki translation read back: it lexes, parses and compiles. The
  predicates a translation emits are given as data (\<open>lpred\<close>) with their text, their tokens,
  their syntax tree and their SQL, and the four views are related by the lexer, the grammar and
  the compiler.
\<close>

section \<open>The emitted predicates\<close>

datatype lval = LStr string | LNow int
datatype lpred = LPred (lp_col: string) (lp_op: string) (lp_val: lval)

fun lval_text :: "lval \<Rightarrow> string" where
  "lval_text (LStr s) = logqlQuote s"
| "lval_text (LNow n) = (if n \<le> 0 then ''now()'' else ''now() - '' @ show_int n @ ''s'')"

fun lval_toks :: "lval \<Rightarrow> token list" where
  "lval_toks (LStr s) = [Tok tString s]"
| "lval_toks (LNow n) = [Tok tIdent ''now'', Tok tLParen ''('', Tok tRParen '')''] @
     (if n \<le> 0 then [] else [Tok tMinus ''-'', Tok tDuration (show_int n @ ''s'')])"

fun lval_value :: "lval \<Rightarrow> Value" where
  "lval_value (LStr s) = zero_Value\<lparr>val_Kind := ValString, val_Str := s\<rparr>"
| "lval_value (LNow n) = (if n \<le> 0 then zero_Value\<lparr>val_Kind := ValTime\<rparr>
     else zero_Value\<lparr>val_Kind := ValTime, val_TimeSeconds := n, val_TimeSub := True\<rparr>)"

fun lval_sql :: "lval \<Rightarrow> string" where
  "lval_sql (LStr s) = quote s"
| "lval_sql (LNow n) = (if n \<le> 0 then ''now()'' else ''now() - INTERVAL '' @ show_int n @ '' SECOND'')"

fun lpred_text :: "lpred \<Rightarrow> string" where
  "lpred_text (LPred c op v) = c @ '' '' @ op @ '' '' @ lval_text v"

fun lpred_toks :: "lpred \<Rightarrow> token list" where
  "lpred_toks (LPred c op v) = [Tok tIdent c, Tok tOp op] @ lval_toks v"

fun lpred_expr :: "lpred \<Rightarrow> Expr" where
  "lpred_expr (LPred c op v) = Comparison \<lparr>fld_Parts = [c]\<rparr> op (lval_value v)"

fun lpred_sql :: "lpred \<Rightarrow> string" where
  "lpred_sql (LPred c op v) = (if c = ''time'' then ''timestamp'' else c) @ '' '' @ op @ '' '' @ lval_sql v"

definition lcols :: "string list" where
  "lcols = ''time'' # Labels"

fun wf_lpred :: "lpred \<Rightarrow> bool" where
  "wf_lpred (LPred c op v) = (c \<in> set lcols \<and>
     (case v of LStr s \<Rightarrow> op = ''='' \<or> op = ''!='' | LNow n \<Rightarrow> (op = ''>='' \<or> op = ''<='') \<and> n \<le> int64_max))"

section \<open>Lexing\<close>

definition emits :: "token list \<Rightarrow> (goerror, token list) outcome \<Rightarrow> (goerror, token list) outcome" where
  "emits ts m = bindO m (\<lambda>us. Ok (ts @ us))"

lemma emit_emits: "emit t m = emits [t] m" "emits ts (emits us m) = emits (ts @ us) m" "emits [] m = m"
  by (cases m; simp add: emit_def emits_def)+

lemma emits_Ok: "emits ts (Ok us) = Ok (ts @ us)"
  by (simp add: emits_def)

lemma logqlQuote_escape: "logqlQuote s = squote # escape s @ [squote]"
  by (simp add: logqlQuote_def Let_def ReplaceAll_escape)

lemma show_int_number: "0 < n \<Longrightarrow> wf_number (show_int n)"
  by (simp add: wf_number_def show_int_def show_digits_digits)

lemma lex_space: "lex_loop (CHR '' '' # r) = lex_loop r"
  by (rule lex_loop_blank) (simp add: isBlank_def)

lemma lex_now: "lex_loop (''now()'' @ r) = emits [Tok tIdent ''now'', Tok tLParen ''('', Tok tRParen '')''] (lex_loop r)"
proof -
  have "lex_loop (''now'' @ ''()'' @ r) = emit (Tok tIdent ''now'') (lex_loop (''()'' @ r))"
    by (rule lex_loop_ident) (simp_all add: wf_ident_def stops_def isIdentPart_def isIdentStart_def isDigit_def between_def)
  then show ?thesis by (simp add: lex_loop_single[of _ "Tok tLParen ''(''"] lex_loop_single[of _ "Tok tRParen '')''"]
      single_tok_def emit_emits)
qed

lemma lex_lval:
  assumes "stops isIdentPart r"
  shows "lex_loop (lval_text v @ r) = emits (lval_toks v) (lex_loop r)"
proof (cases v)
  case (LStr s)
  then show ?thesis using lex_loop_quoted[of s r] by (simp add: logqlQuote_escape emit_emits)
next
  case (LNow n)
  show ?thesis
  proof (cases "n \<le> 0")
    case True
    with LNow lex_now[of r] show ?thesis by simp
  next
    case False
    then have "lex_loop (show_int n @ CHR ''s'' # r) = emit (Tok tDuration (show_int n @ ''s'')) (lex_loop r)"
      using lex_loop_duration[OF show_int_number _ assms, of n "CHR ''s''"] by (simp add: isUnit_def)
    with LNow False lex_now[of "'' - '' @ show_int n @ CHR ''s'' # r"] show ?thesis
      by (simp add: lex_space lex_loop_single[of _ "Tok tMinus ''-''"] single_tok_def emit_emits)
  qed
qed

lemma lcols_ident: "c \<in> set lcols \<Longrightarrow> wf_ident c"
  by (auto simp: lcols_def Labels_def wf_ident_def isIdentPart_def isIdentStart_def isDigit_def between_def)

lemma wf_lpred_op: "wf_lpred (LPred c op v) \<Longrightarrow> op \<in> set lex_ops"
  by (auto simp: lex_ops_def split: lval.splits)

lemma stops_space: "stops isIdentPart (CHR '' '' # r)" "stops isOpStart (CHR '' '' # r)"
  by (simp_all add: stops_def isIdentPart_def isIdentStart_def isDigit_def between_def isOpStart_def)

lemma lex_lpred:
  assumes "wf_lpred p" and "stops isIdentPart r"
  shows "lex_loop (lpred_text p @ r) = emits (lpred_toks p) (lex_loop r)"
proof (cases p)
  case (LPred c op v)
  with assms have "wf_ident c" "op \<in> set lex_ops" using lcols_ident wf_lpred_op by auto
  then show ?thesis
    using LPred lex_loop_ident[of c "'' '' @ op @ '' '' @ lval_text v @ r"]
      lex_loop_op[of op "'' '' @ lval_text v @ r"] lex_lval[OF assms(2), of v]
    by (simp add: stops_space lex_space emit_emits)
qed

fun conj_toks :: "lpred list \<Rightarrow> token list" where
  "conj_toks [] = []"
| "conj_toks [p] = lpred_toks p"
| "conj_toks (p # q # ps) = lpred_toks p @ Tok tIdent ''AND'' # conj_toks (q # ps)"

lemma lex_conj:
  "ps \<noteq> [] \<Longrightarrow> list_all wf_lpred ps \<Longrightarrow> stops isIdentPart r \<Longrightarrow>
   lex_loop (Join (map lpred_text ps) '' AND '' @ r) = emits (conj_toks ps) (lex_loop r)"
proof (induction ps rule: conj_toks.induct)
  case (3 p q ps)
  have "wf_ident ''AND''" by (simp add: wf_ident_def isIdentPart_def isIdentStart_def isDigit_def between_def)
  from lex_loop_ident[OF this stops_space(1)]
  have "lex_loop (CHR '' '' # ''AND'' @ CHR '' '' # s) = emit (Tok tIdent ''AND'') (lex_loop s)" for s
    by (simp add: lex_space)
  with 3 show ?case
    using lex_lpred[of p "'' AND '' @ Join (map lpred_text (q # ps)) '' AND '' @ r"]
    by (simp add: stops_space emit_emits)
qed (simp_all add: lex_lpred)

section \<open>Parsing\<close>

definition and_toks :: "lpred list \<Rightarrow> token list" where
  "and_toks ps = concat (map (\<lambda>p. Tok tIdent ''AND'' # lpred_toks p) ps)"

definition conj_expr :: "lpred \<Rightarrow> lpred list \<Rightarrow> Expr" where
  "conj_expr p ps = foldl (\<lambda>l q. Binary ''AND'' l (lpred_expr q)) (lpred_expr p) ps"

lemma conj_toks_Cons: "conj_toks (p # ps) = lpred_toks p @ and_toks ps"
  by (induction ps arbitrary: p) (simp_all add: and_toks_def)

lemma kw_tok: "kw s (Tok tIdent w) \<longleftrightarrow> EqualFold w s"
  by (simp add: kw_def)

lemma show_digits_s:
  assumes "0 \<le> n" and "n \<le> int64_max"
  shows "durationSeconds (show_digits n @ ''s'') = Ok n"
proof -
  have "\<not> length (show_digits n @ ''s'') < 2" by (cases "show_digits n") simp_all
  then show ?thesis using parse_show_digits[OF assms] by (simp add: durationSeconds_def)
qed

lemma lval_g: "(case v of LStr s \<Rightarrow> True | LNow n \<Rightarrow> n \<le> int64_max) \<Longrightarrow> value_g (lval_toks v) (lval_value v)"
proof (cases v)
  case (LStr s)
  then show ?thesis using value_string[of "Tok tString s"] by simp
next
  case (LNow n)
  assume "case v of LStr s \<Rightarrow> True | LNow n \<Rightarrow> n \<le> int64_max"
  with LNow have n: "n \<le> int64_max" by simp
  have k: "kw ''now'' (Tok tIdent ''now'')" by (simp add: kw_def EqualFold_def)
  show ?thesis
  proof (cases "n \<le> 0")
    case True
    with LNow value_now[OF k, of "Tok tLParen ''(''" "Tok tRParen '')''"] show ?thesis by simp
  next
    case False
    then have "durationSeconds (show_int n @ ''s'') = Ok n" using n by (simp add: show_int_def show_digits_s)
    with LNow False value_offset[OF k, of "Tok tLParen ''(''" "Tok tRParen '')''" "Tok tMinus ''-''"
        "Tok tDuration (show_int n @ ''s'')" n] show ?thesis by simp
  qed
qed

lemma lpred_g: 
  assumes "wf_lpred p" shows "prim_g (lpred_toks p) (lpred_expr p)"
proof (cases p)
  case (LPred c op v)
  with assms have "value_g (lval_toks v) (lval_value v)" by (intro lval_g) (auto split: lval.splits)
  from prim_cmp[OF field_one[of "Tok tIdent c"] _ this, of "Tok tOp op"] LPred show ?thesis by simp
qed

lemma and_g_toks:
  "and_g ts l \<Longrightarrow> list_all wf_lpred ps \<Longrightarrow>
   and_g (ts @ and_toks ps) (foldl (\<lambda>l q. Binary ''AND'' l (lpred_expr q)) l ps)"
proof (induction ps arbitrary: ts l)
  case (Cons p ps)
  have "kw ''AND'' (Tok tIdent ''AND'')" by (simp add: kw_def EqualFold_def)
  then have "and_g (ts @ Tok tIdent ''AND'' # lpred_toks p) (Binary ''AND'' l (lpred_expr p))"
    using Cons.prems by (auto intro: and_and lpred_g)
  from Cons.IH[OF this] Cons.prems show ?case by (simp add: and_toks_def)
qed (simp add: and_toks_def)

lemma conj_g: "list_all wf_lpred (p # ps) \<Longrightarrow> or_g (conj_toks (p # ps)) (conj_expr p ps)"
  unfolding conj_toks_Cons conj_expr_def
  by (intro or_and and_g_toks and_prim lpred_g) simp_all

definition head_toks :: "token list" where
  "head_toks = [Tok tIdent ''SELECT'', Tok tIdent ''timestamp'', Tok tComma '','', Tok tIdent ''service'', Tok tComma '','',
     Tok tIdent ''level'', Tok tComma '','', Tok tIdent ''environment'', Tok tComma '','', Tok tIdent ''message'',
     Tok tComma '','', Tok tIdent ''trace_id'', Tok tComma '','', Tok tIdent ''span_id'',
     Tok tIdent ''FROM'', Tok tIdent ''logs'', Tok tIdent ''WHERE'']"

definition tail_toks :: "bool \<Rightarrow> int \<Rightarrow> token list" where
  "tail_toks desc n = [Tok tIdent ''ORDER'', Tok tIdent ''BY'', Tok tIdent ''timestamp'',
     Tok tIdent (if desc then ''DESC'' else ''ASC''), Tok tIdent ''LIMIT'', Tok tNumber (show_int n), Tok tEOF []]"

lemma lex_head: "lex_loop (''SELECT '' @ Join loki_cols '', '' @ '' FROM logs WHERE '' @ r) = emits head_toks (lex_loop r)"
  by (simp add: loki_cols_def lex_loop.simps(2) class_codes emit_emits head_toks_def)

lemma lex_tail: "0 \<le> n \<Longrightarrow> lex_loop ('' ORDER BY timestamp '' @ (if desc then ''DESC'' else ''ASC'') @ '' LIMIT '' @ show_int n) =
  Ok (tail_toks desc n)"
proof -
  assume n: "0 \<le> n"
  then have "wf_number (show_int n)" by (simp add: wf_number_def show_int_def show_digits_digits)
  from lex_loop_number[OF this, of "[]"]
  have "lex_loop (show_int n) = Ok [Tok tNumber (show_int n), Tok tEOF []]" by (simp add: stops_def emit_def)
  then show ?thesis
    by (simp add: lex_loop.simps(2) class_codes emit_emits emits_Ok tail_toks_def)
qed

definition loki_items :: "SelectItem list" where
  "loki_items = map (\<lambda>c. zero_SelectItem\<lparr>sel_Field := \<lparr>fld_Parts = [c]\<rparr>\<rparr>) loki_cols"

lemmas step_simps = cur_def nextTok_def isKw_def expectKw_def peek1_def EqualFold_def ToLower_def lower_char_def between_def

lemma kw_kind: "kw s t \<Longrightarrow> tok_kind t = tIdent"
  by (simp add: kw_def)

lemma adv_fields: "p_pos (adv p n) = p_pos p + n" "p_toks (adv p n) = p_toks p"
  by (simp_all add: adv_def)

lemma parse_elem:
  assumes "at p (Tok tIdent c # t # r)" and "tok_kind t = tComma \<or> kw ''FROM'' t"
  shows "selectElem p = Ok (zero_SelectItem\<lparr>sel_Field := \<lparr>fld_Parts = [c]\<rparr>\<rparr>, adv p 1)"
proof -
  note a1 = at_adv1[OF assms(1)]
  have "ToLower ''FROM'' \<noteq> ToLower ''AS''" by code_simp
  then have as: "kw ''FROM'' t \<Longrightarrow> \<not> kw ''AS'' t" by (rule kw_disjoint[rotated])
  have "tok_kind t = tComma \<or> tok_kind t = tIdent" using assms(2) kw_kind by blast
  then have t: "tok_kind t \<noteq> tLParen" "tok_kind t \<noteq> tDot" by auto
  have as: "\<not> kw ''AS'' t"
  proof
    assume "kw ''AS'' t"
    with kw_kind[OF this] assms(2) as show False by simp
  qed
  have "peek1 p = Ok t" using at_cur[OF a1] by (simp add: peek1_def cur_Ok adv_fields)
  then have agg: "aggNext p = Ok False" using t by (simp add: aggNext_def at_cur[OF assms(1)])
  have "field p = Ok (\<lparr>fld_Parts = [c]\<rparr>, adv p 1)"
    using field_complete[OF field_one[of "Tok tIdent c"], of p t r] assms(1) t by simp
  then show ?thesis using agg as a1 assms(1)
    by (simp add: selectElem_def selectItem_def optAlias_def at_cur at_isKw)
qed

lemma parse_elem_comma:
  assumes "at p (Tok tIdent c # Tok tComma '','' # r)"
  shows "selectList_loop items p = selectList_loop (items @ [zero_SelectItem\<lparr>sel_Field := \<lparr>fld_Parts = [c]\<rparr>\<rparr>]) (adv p 2) \<and>
    at (adv p 2) r"
proof -
  note a1 = at_adv1[OF assms]
  have "selectElem p = Ok (zero_SelectItem\<lparr>sel_Field := \<lparr>fld_Parts = [c]\<rparr>\<rparr>, adv p 1)"
    by (rule parse_elem[OF assms]) simp
  then show ?thesis using a1 at_adv1[OF a1]
    by (subst selectList_loop.simps) (simp add: at_cur at_next numeral_2_eq_2)
qed

lemma parse_elem_last:
  assumes "at p (Tok tIdent c # t # r)" and "kw ''FROM'' t"
  shows "selectList_loop items p = Ok (items @ [zero_SelectItem\<lparr>sel_Field := \<lparr>fld_Parts = [c]\<rparr>\<rparr>], adv p 1)"
proof -
  have "tok_kind t \<noteq> tComma" using assms(2) by (simp add: kw_def)
  then show ?thesis using parse_elem[OF assms(1)] assms(2) at_adv1[OF assms(1)]
    by (subst selectList_loop.simps) (simp add: at_cur)
qed

lemma parse_plain_list:
  "cs \<noteq> [] \<Longrightarrow> at p (butlast (concat (map (\<lambda>c. [Tok tIdent c, Tok tComma '','']) cs)) @ t # r) \<Longrightarrow> kw ''FROM'' t \<Longrightarrow>
   selectList_loop items p = Ok (items @ map (\<lambda>c. zero_SelectItem\<lparr>sel_Field := \<lparr>fld_Parts = [c]\<rparr>\<rparr>) cs, adv p (2 * length cs - 1))"
proof (induction cs arbitrary: items p rule: induct_list012)
  case (2 c)
  then show ?case using parse_elem_last[of p c t r items] by simp
next
  case (3 c d cs)
  then have "at p (Tok tIdent c # Tok tComma '','' # butlast (concat (map (\<lambda>c. [Tok tIdent c, Tok tComma '','']) (d # cs))) @ t # r)"
    by simp
  from parse_elem_comma[OF this, of items] "3.IH"(2)[of "adv p 2" "items @ [zero_SelectItem\<lparr>sel_Field := \<lparr>fld_Parts = [c]\<rparr>\<rparr>]"] "3.prems"(3)
  show ?case by simp
qed simp

lemma bindO_assoc: "bindO (bindO m f) g = bindO m (\<lambda>(a, b). bindO (f (a, b)) g)"
  by (cases m) auto

lemma orExpr_at:
  assumes "or_g ts e" and "ends_expr t" and "at p (ts @ t # r)"
  shows "orExpr p = Ok (e, adv p (length ts))"
proof -
  have "orExpr p = orLoop e (adv p (length ts))"
    by (rule exprs_complete(1)[OF assms(1,3)]) (use assms(2) in \<open>simp_all add: ends_expr_def\<close>)
  moreover have "isKw ''OR'' (adv p (length ts)) = Ok False"
    using at_isKw[OF at_adv[OF assms(3) refl], of "''OR''"] assms(2) by (simp add: ends_expr_def)
  ultimately show ?thesis by (simp add: orLoop.simps)
qed

lemmas kw_simps = kw_def EqualFold_def ToLower_def lower_char_def between_def

lemma parse_from_where:
  assumes "at p (Tok tIdent ''FROM'' # Tok tIdent ''logs'' # Tok tIdent ''WHERE'' # ts @ t # r)"
    and "or_g ts e" and "ends_expr t"
  shows "bindO (fromClause s p) (\<lambda>(s, p). optWhere s p) =
    Ok (s\<lparr>stmt_Table := ''logs'', stmt_Where := Some e\<rparr>, adv p (3 + length ts))"
proof -
  note a1 = at_adv1[OF assms(1)] note a2 = at_adv1[OF a1] note a3 = at_adv1[OF a2]
  have "kw ''FROM'' (Tok tIdent ''FROM'')" "kw ''WHERE'' (Tok tIdent ''WHERE'')" "ToLower ''logs'' = ''logs''"
    by (simp_all add: kw_simps)
  moreover note at_isKw[OF assms(1)] at_next[OF assms(1)] at_next[OF a1] at_cur[OF a1] at_isKw[OF a2] at_next[OF a2]
    orExpr_at[OF assms(2,3) a3]
  ultimately show ?thesis by (simp add: fromClause_def optWhere_def expectKw_def numeral_3_eq_3)
qed

lemma parse_tail:
  assumes "at p (tail_toks desc n)" and "0 \<le> n" and "n \<le> int64_max"
  shows "bindO (optGroupBy s p) (\<lambda>(s, p). bindO (optOrderBy s p) (\<lambda>(s, p). optLimit s p)) =
     Ok (s\<lparr>stmt_OrderBy := Some \<lparr>ord_Field = \<lparr>fld_Parts = [''timestamp'']\<rparr>, ord_Desc = desc\<rparr>, stmt_Limit := n\<rparr>, adv p 6) \<and>
    at (adv p 6) [Tok tEOF []]"
proof -
  note a0 = assms(1)[unfolded tail_toks_def]
  note a1 = at_adv1[OF a0] note a2 = at_adv1[OF a1] note a3 = at_adv1[OF a2] note a4 = at_adv1[OF a3]
  note a5 = at_adv1[OF a4] note a6 = at_adv1[OF a5]
  have k: "\<not> kw ''GROUP'' (Tok tIdent ''ORDER'')" "kw ''ORDER'' (Tok tIdent ''ORDER'')" "kw ''BY'' (Tok tIdent ''BY'')"
    "kw ''DESC'' (Tok tIdent (if desc then ''DESC'' else ''ASC'')) \<longleftrightarrow> desc"
    "\<not> desc \<Longrightarrow> kw ''ASC'' (Tok tIdent ''ASC'')" "kw ''LIMIT'' (Tok tIdent ''LIMIT'')"
    by (auto simp: kw_simps)
  have f: "field (adv p (1 + 1)) = Ok (\<lparr>fld_Parts = [''timestamp'']\<rparr>, adv p (1 + 1 + 1))"
    using field_complete[OF field_one[of "Tok tIdent ''timestamp''"], of "adv p (1 + 1)"] a2 by simp
  have d: "parse_digits (show_int n) = Some n" using assms(2,3) by (simp add: show_int_def parse_show_digits)
  note facts = at_isKw[OF a0] at_next[OF a0] at_isKw[OF a1] at_next[OF a1] f at_isKw[OF a3] at_next[OF a3]
    at_isKw[OF a4] at_next[OF a4] at_cur[OF a5] at_next[OF a5]
  have "optGroupBy s p = Ok (s, p)" using k(1) facts by (simp add: optGroupBy_def)
  moreover have "optOrderBy s p = Ok (s\<lparr>stmt_OrderBy := Some \<lparr>ord_Field = \<lparr>fld_Parts = [''timestamp'']\<rparr>, ord_Desc = desc\<rparr>\<rparr>, adv p 4)"
    using k facts by (cases desc) (simp_all add: optOrderBy_def expectKw_def eval_nat_numeral)
  moreover have "optLimit s' (adv p 4) = Ok (s'\<lparr>stmt_Limit := n\<rparr>, adv p 6)" for s'
    using k facts d by (simp add: optLimit_def eval_nat_numeral)
  ultimately show ?thesis using a6 by (simp add: eval_nat_numeral)
qed

definition loki_text :: "lpred list \<Rightarrow> bool \<Rightarrow> int \<Rightarrow> string" where
  "loki_text ps desc n = ''SELECT '' @ Join loki_cols '', '' @ '' FROM logs WHERE '' @ Join (map lpred_text ps) '' AND '' @
     '' ORDER BY timestamp '' @ (if desc then ''DESC'' else ''ASC'') @ '' LIMIT '' @ show_int n"

definition loki_stmt :: "lpred \<Rightarrow> lpred list \<Rightarrow> bool \<Rightarrow> int \<Rightarrow> Stmt" where
  "loki_stmt p ps desc n = zero_Stmt\<lparr>stmt_Kind := KindSelect, stmt_Select := loki_items, stmt_Table := ''logs'',
     stmt_Where := Some (conj_expr p ps),
     stmt_OrderBy := Some \<lparr>ord_Field = \<lparr>fld_Parts = [''timestamp'']\<rparr>, ord_Desc = desc\<rparr>, stmt_Limit := n\<rparr>"

lemma lex_loki:
  assumes "list_all wf_lpred (p # ps)" and "0 \<le> n"
  shows "lex (loki_text (p # ps) desc n) = Ok (head_toks @ conj_toks (p # ps) @ tail_toks desc n)"
proof -
  have "lex_loop (Join (map lpred_text (p # ps)) '' AND '' @ '' ORDER BY timestamp '' @ (if desc then ''DESC'' else ''ASC'') @ '' LIMIT '' @ show_int n)
     = emits (conj_toks (p # ps)) (Ok (tail_toks desc n))"
    unfolding lex_tail[OF assms(2), symmetric] using lex_conj[OF _ assms(1)] stops_space(1) by simp
  then show ?thesis unfolding lex_def loki_text_def lex_head by (simp only: emits_Ok)
qed

lemma ends_ORDER: "ends_expr (Tok tIdent ''ORDER'')"
  by (simp add: ends_expr_def no_sign_def kw_simps)

lemma parse_loki:
  assumes "list_all wf_lpred (p # ps)" and "0 \<le> n" and "n \<le> int64_max"
  shows "Parse (loki_text (p # ps) desc n) = Ok (loki_stmt p ps desc n)"
proof -
  define W where "W = conj_toks (p # ps)"
  define p0 where "p0 = \<lparr>p_toks = head_toks @ W @ tail_toks desc n, p_pos = 0\<rparr>"
  define r where "r = Tok tIdent ''logs'' # Tok tIdent ''WHERE'' # W @ tail_toks desc n"
  have g: "or_g W (conj_expr p ps)" unfolding W_def by (rule conj_g[OF assms(1)])
  have a0: "at p0 (Tok tIdent ''SELECT'' # butlast (concat (map (\<lambda>c. [Tok tIdent c, Tok tComma '','']) loki_cols)) @ Tok tIdent ''FROM'' # r)"
    by (simp add: at_def p0_def head_toks_def loki_cols_def r_def)
  note a1 = at_adv1[OF a0]
  have "kw ''FROM'' (Tok tIdent ''FROM'')" by (simp add: kw_simps)
  from parse_plain_list[OF _ a1 this, of "[]"]
  have sl: "selectList (adv p0 1) = Ok (loki_items, adv p0 14)"
    by (simp add: selectList_def loki_items_def loki_cols_def)
  have "at (adv p0 14) (Tok tIdent ''FROM'' # r)"
    using at_adv[OF a1, of 13] by (simp add: loki_cols_def)
  then have a14: "at (adv p0 14) (Tok tIdent ''FROM'' # Tok tIdent ''logs'' # Tok tIdent ''WHERE'' # W @ Tok tIdent ''ORDER'' # tl (tail_toks desc n))"
    by (simp add: r_def tail_toks_def)
  note fw = parse_from_where[OF a14 g ends_ORDER]
  define q where "q = adv p0 (17 + length W)"
  have "at p0 ((head_toks @ W) @ tail_toks desc n)" by (simp add: p0_def at_def)
  from at_adv[OF this, of "17 + length W"] have "at q (tail_toks desc n)" by (simp add: q_def head_toks_def)
  note tl = parse_tail[OF this assms(2,3)]
  have st: "statement p0 = selectStmt p0" using at_isKw[OF a0]
    by (simp add: statement_def kw_simps)
  have "selectStmt p0 = bindO (bindO (fromClause (zero_Stmt\<lparr>stmt_Kind := KindSelect, stmt_Select := loki_items\<rparr>) (adv p0 14)) (\<lambda>(s, p). optWhere s p))
     (\<lambda>(s, p). bindO (optGroupBy s p) (\<lambda>(s, p). bindO (optOrderBy s p) (\<lambda>(s, p). optLimit s p)))"
    using at_next[OF a0] sl by (simp add: selectStmt_def bindO_assoc)
  also have "\<dots> = Ok (loki_stmt p ps desc n, adv q 6)"
    unfolding fw using tl by (simp add: q_def loki_stmt_def zero_Stmt_def add.commute add.left_commute)
  finally show ?thesis
    using lex_loki[OF assms(1,2), of desc] st at_cur[OF conjunct2[OF tl]]
    by (simp add: Parse_def W_def[symmetric] p0_def[symmetric])
qed

section \<open>Compiling\<close>

definition conj_sql :: "lpred \<Rightarrow> lpred list \<Rightarrow> string" where
  "conj_sql p ps = foldl (\<lambda>l q. ''('' @ l @ '' AND '' @ lpred_sql q @ '')'') (lpred_sql p) ps"

definition loki_compiler :: "string \<Rightarrow> compiler" where
  "loki_compiler tenant = \<lparr>cc_tenant = tenant, cc_table = ''logs''\<rparr>"

lemma lower_names: "c \<in> set (lcols @ loki_cols) \<Longrightarrow> ToLower c = c"
  by (auto simp: lcols_def Labels_def loki_cols_def ToLower_def lower_char_def between_def)

lemma columns_logs: "columns (loki_compiler tenant) = logsColumns"
  by (simp add: columns_def loki_compiler_def)

lemma mapField_col:
  assumes "c \<in> set (Labels @ loki_cols)"
  shows "mapField (loki_compiler tenant) \<lparr>fld_Parts = [c]\<rparr> = Ok (c, c = ''level'')"
proof -
  have "ToLower c = c" using assms lower_names[of c] by (auto simp: lcols_def)
  moreover have "c \<noteq> ''time''" "c \<noteq> ''tenant''" "c \<in> set logsColumns"
    using assms by (auto simp: Labels_def loki_cols_def logsColumns_def)
  ultimately show ?thesis by (simp add: mapField_def mapField1_def columns_logs)
qed

lemma mapField_time: "mapField (loki_compiler tenant) \<lparr>fld_Parts = [''time'']\<rparr> = Ok (''timestamp'', False)"
  by (simp add: mapField_def mapField1_def ToLower_def lower_char_def between_def)

lemma compileValue_lval: "compileValue (lval_value v) = Ok (lval_sql v)"
  by (cases v) (auto simp: compileValue_def zero_Value_def)

lemma compile_lpred:
  assumes "wf_lpred p"
  shows "compileExpr (loki_compiler tenant) (lpred_expr p) = Ok (lpred_sql p)"
proof (cases p)
  case (LPred c op v)
  with assms have c: "c = ''time'' \<or> c \<in> set Labels" by (simp add: lcols_def)
  have "ToLower c = c" using c lower_names[of c] by (auto simp: lcols_def)
  then have nt: "\<not> is_tenant_field \<lparr>fld_Parts = [c]\<rparr>"
    using c by (auto simp: is_tenant_field_def Labels_def)
  have "val_Kind (lval_value v) = ValString \<Longrightarrow> \<not> isOrdering op"
    using assms LPred by (auto simp: isOrdering_def zero_Value_def split: lval.splits if_splits)
  moreover have "\<exists>l. mapField (loki_compiler tenant) \<lparr>fld_Parts = [c]\<rparr> = Ok (if c = ''time'' then ''timestamp'' else c, l)"
    using c mapField_col[of c tenant] mapField_time[of tenant] by (cases "c = ''time''") auto
  ultimately show ?thesis using nt LPred by (auto simp: compileComparison_def compileValue_lval)
qed

lemma compile_conj:
  "list_all wf_lpred ps \<Longrightarrow> compileExpr (loki_compiler tenant) e = Ok s \<Longrightarrow>
   compileExpr (loki_compiler tenant) (foldl (\<lambda>l q. Binary ''AND'' l (lpred_expr q)) e ps) =
   Ok (foldl (\<lambda>l q. ''('' @ l @ '' AND '' @ lpred_sql q @ '')'') s ps)"
  by (induction ps arbitrary: e s) (simp_all add: compile_lpred)

lemma compile_items: "mapO (selectCols (loki_compiler tenant)) loki_items = Ok (map (\<lambda>c. [(c @ '' AS '' @ c, c)]) loki_cols)"
proof -
  have "selectCols (loki_compiler tenant) (zero_SelectItem\<lparr>sel_Field := \<lparr>fld_Parts = [c]\<rparr>\<rparr>) = Ok [(c @ '' AS '' @ c, c)]"
    if "c \<in> set loki_cols" for c
    using mapField_col[of c tenant] that
    by (simp add: selectCols_def compileSelectItem_def zero_SelectItem_def last_part_def aliasOr_def)
  then have "mapO (selectCols (loki_compiler tenant)) (map (\<lambda>c. zero_SelectItem\<lparr>sel_Field := \<lparr>fld_Parts = [c]\<rparr>\<rparr>) cs) = Ok (map (\<lambda>c. [(c @ '' AS '' @ c, c)]) cs)"
    if "set cs \<subseteq> set loki_cols" for cs
    using that by (induction cs) simp_all
  then show ?thesis by (simp add: loki_items_def)
qed

definition loki_sql :: "string \<Rightarrow> lpred \<Rightarrow> lpred list \<Rightarrow> bool \<Rightarrow> int \<Rightarrow> string" where
  "loki_sql tenant p ps desc n =
     ''SELECT '' @ Join (map (\<lambda>c. c @ '' AS '' @ c) loki_cols) '', '' @ '' FROM logs WHERE tenant_id = '' @ quote tenant @
     '' AND ('' @ conj_sql p ps @ '') ORDER BY timestamp '' @ (if desc then ''DESC'' else ''ASC'') @ '' LIMIT '' @ show_int n"

lemma compile_loki:
  assumes "list_all wf_lpred (p # ps)"
  shows "compileSelect (loki_compiler tenant) (loki_stmt p ps desc n) opts =
    Ok \<lparr>c_SQL = loki_sql tenant p ps desc (limit (loki_stmt p ps desc n) opts), c_Columns = loki_cols, c_Kind = KindSelect\<rparr>"
proof -
  have proj: "concat (map (\<lambda>c. [(c @ '' AS '' @ c, c)]) loki_cols) = map (\<lambda>c. (c @ '' AS '' @ c, c)) loki_cols"
    by (induction loki_cols) simp_all
  have "compileExpr (loki_compiler tenant) (conj_expr p ps) = Ok (conj_sql p ps)"
    unfolding conj_expr_def conj_sql_def using assms by (intro compile_conj) (simp_all add: compile_lpred)
  then have wh: "whereSQL (loki_compiler tenant) (loki_stmt p ps desc n) = Ok (''tenant_id = '' @ quote tenant @ '' AND ('' @ conj_sql p ps @ '')'')"
    by (simp add: whereSQL_def loki_stmt_def zero_Stmt_def tenant_guard_def loki_compiler_def)
  have "''timestamp'' \<in> set (Labels @ loki_cols)" by (simp add: loki_cols_def)
  from mapField_col[OF this] have ob: "orderBySQL (loki_compiler tenant) (stmt_OrderBy (loki_stmt p ps desc n)) =
      Ok ('' ORDER BY timestamp '' @ (if desc then ''DESC'' else ''ASC''))"
    by (simp add: orderBySQL_def loki_stmt_def)
  have st: "stmt_Select (loki_stmt p ps desc n) = loki_items" "stmt_GroupBy (loki_stmt p ps desc n) = []"
    by (simp_all add: loki_stmt_def zero_Stmt_def)
  have "map fst (map (\<lambda>c. (c @ '' AS '' @ c, c)) loki_cols) \<noteq> []" by (simp add: loki_cols_def)
  then show ?thesis
    unfolding compileSelect_def st compile_items bindO.simps(1) proj Let_def if_not_P wh ob
    by (simp add: groupBySQL_def loki_sql_def loki_compiler_def comp_def)
qed

section \<open>The translation\<close>

definition rel_secs :: "int \<Rightarrow> int \<Rightarrow> bool \<Rightarrow> int" where
  "rel_secs now ts roundUp =
     (let diff = wrap64 (now - ts) in
      if diff \<le> 0 then 0 else diff div nanos + (if roundUp \<and> diff mod nanos \<noteq> 0 then 1 else 0))"

lemma relTime_text: "relTime now ts up = lval_text (LNow (rel_secs now ts up))"
  by (simp add: relTime_def rel_secs_def Let_def)

lemma rel_secs_le: "rel_secs now ts up \<le> int64_max"
proof -
  define d where "d = wrap64 (now - ts)"
  have "d < 2 ^ 63" using wrap64_in_range[of "now - ts"] by (simp add: in_int64_def d_def)
  then have "0 < d \<Longrightarrow> d div nanos + 1 \<le> int64_max" by (simp add: nanos_def int64_max_def)
  then show ?thesis by (auto simp: rel_secs_def d_def[symmetric] Let_def int64_max_def)
qed

lemma rel_secs_bounds:
  assumes "in_int64 (now - ts)" and "ts \<le> now"
  shows "rel_secs now ts True * nanos - nanos < now - ts" "now - ts \<le> rel_secs now ts True * nanos"
    "rel_secs now ts False * nanos \<le> now - ts" "now - ts < rel_secs now ts False * nanos + nanos"
proof -
  have n: "0 < nanos" by (simp add: nanos_def)
  have d: "(now - ts) div nanos * nanos = now - ts - (now - ts) mod nanos" by (simp add: minus_mod_eq_div_mult)
  have m: "0 \<le> (now - ts) mod nanos" "(now - ts) mod nanos < nanos" using n by simp_all
  have w: "wrap64 (now - ts) = now - ts" by (rule wrap64_id[OF assms(1)])
  show "rel_secs now ts True * nanos - nanos < now - ts" "now - ts \<le> rel_secs now ts True * nanos"
    "rel_secs now ts False * nanos \<le> now - ts" "now - ts < rel_secs now ts False * nanos + nanos"
    using assms(2) n m d unfolding rel_secs_def w Let_def by (auto simp: distrib_right)
qed

definition lpred_of :: "Matcher \<Rightarrow> lpred" where
  "lpred_of m = LPred (ToLower (m_Label m)) (m_Op m) (LStr (m_Value m))"

definition window_preds :: "int \<times> int \<times> int \<Rightarrow> lpred list" where
  "window_preds w = (case w of (now, start, end) \<Rightarrow>
     [LPred ''time'' ''>='' (LNow (rel_secs now start True)), LPred ''time'' ''<='' (LNow (rel_secs now end False))])"

lemma pred_of_Ok: "pred_of m = Ok s \<Longrightarrow> wf_lpred (lpred_of m) \<and> s = lpred_text (lpred_of m)"
  by (auto simp: pred_of_def lpred_of_def lcols_def IsLabel_def Let_def split: if_splits)

lemma preds_Ok: "mapO pred_of ms = Ok ss \<Longrightarrow> list_all wf_lpred (map lpred_of ms) \<and> ss = map lpred_text (map lpred_of ms)"
proof -
  assume "mapO pred_of ms = Ok ss"
  then have "list_all2 (\<lambda>m s. pred_of m = Ok s) ms ss" by (simp add: mapO_Ok_iff)
  then show ?thesis by (induction rule: list_all2_induct) (auto dest: pred_of_Ok)
qed

lemma window_preds_wf: "list_all wf_lpred (window_preds w)"
  by (auto simp: window_preds_def lcols_def rel_secs_le split: prod.splits)

lemma Translate_text:
  assumes "Translate clock q lopts = Ok tr"
  shows "t_LogQLPP tr = loki_text (map lpred_of (t_Matchers tr) @ window_preds (window clock q)) (\<not> q_Forward q) (loki_limit q lopts)
    \<and> list_all wf_lpred (map lpred_of (t_Matchers tr))"
proof -
  obtain now start end' where w: "window clock q = (now, start, end')" by (metis prod_cases3)
  with assms obtain ms ss where "mapO pred_of ms = Ok ss" "t_Matchers tr = ms"
    "t_LogQLPP tr = ''SELECT '' @ Join loki_cols '', '' @ '' FROM logs WHERE '' @
       Join (ss @ [''time >= '' @ relTime now start True, ''time <= '' @ relTime now end' False]) '' AND '' @
       '' ORDER BY timestamp '' @ (if q_Forward q then ''ASC'' else ''DESC'') @ '' LIMIT '' @ show_int (loki_limit q lopts)"
    by (auto simp: Translate_def outcome_simps Let_def split: if_split_asm)
  with preds_Ok[of ms ss] show ?thesis
    by (simp add: loki_text_def window_preds_def w relTime_text)
qed

lemma loki_compiles:
  assumes "list_all wf_lpred ps" and "ps \<noteq> []" and "0 \<le> n" and "n \<le> int64_max"
  shows "Compile (loki_text ps desc n) tenant opts =
    Ok \<lparr>c_SQL = loki_sql tenant (hd ps) (tl ps) desc (limit (zero_Stmt\<lparr>stmt_Limit := n\<rparr>) opts), c_Columns = loki_cols, c_Kind = KindSelect\<rparr>"
proof -
  obtain p qs where ps: "ps = p # qs" using assms(2) by (cases ps) auto
  have "stmt_Table (loki_stmt p qs desc n) = ''logs''" "stmt_Kind (loki_stmt p qs desc n) = KindSelect"
    "limit (loki_stmt p qs desc n) opts = limit (zero_Stmt\<lparr>stmt_Limit := n\<rparr>) opts"
    by (simp_all add: loki_stmt_def limit_def)
  with parse_loki[of p qs n desc] compile_loki[of p qs tenant desc n opts] assms(1,3,4)
  show ?thesis by (simp add: Compile_def ps tables_def loki_compiler_def[symmetric])
qed

text \<open>
  C14. Every Loki query the translator accepts compiles: for any selector, window, direction and
  non-negative limit, the LogQL++ text parses and compiles to one SELECT over the logs of the
  authenticated tenant, filtered by exactly the selector's matchers (in order, with their exact
  values) and the two window bounds, in the requested direction.
\<close>

theorem Translate_compiles:
  assumes "Translate clock q lopts = Ok tr" and "0 \<le> loki_limit q lopts" and "loki_limit q lopts \<le> int64_max"
  shows "let ps = map lpred_of (t_Matchers tr) @ window_preds (window clock q) in
    Compile (t_LogQLPP tr) tenant opts =
      Ok \<lparr>c_SQL = loki_sql tenant (hd ps) (tl ps) (\<not> q_Forward q) (limit (zero_Stmt\<lparr>stmt_Limit := loki_limit q lopts\<rparr>) opts),
          c_Columns = loki_cols, c_Kind = KindSelect\<rparr>"
proof -
  have "window_preds (window clock q) \<noteq> []" by (simp add: window_preds_def split: prod.splits)
  then show ?thesis
    using Translate_text[OF assms(1)] window_preds_wf loki_compiles[OF _ _ assms(2,3)]
    by (simp add: Let_def)
qed

definition example_loki :: LokiQuery where
  "example_loki = \<lparr>q_Selector = selector_text [\<lparr>m_Label = ''service'', m_Op = ''='', m_Value = ''api''\<rparr>],
     q_StartNs = 1000 * nanos, q_EndNs = 2000 * nanos, q_Limit = 0, q_Forward = False, q_NowNs = 2000 * nanos\<rparr>"

definition example_lopts :: LokiOptions where
  "example_lopts = \<lparr>lo_DefaultLimit = 1000, lo_MaxLimit = 5000\<rparr>"

theorem Translate_compiles_witness:
  "\<exists>tr c. Translate 0 example_loki example_lopts = Ok tr \<and>
    Compile (t_LogQLPP tr) ''tenant-xyz'' \<lparr>opt_DefaultLimit = 1000, opt_MaxLimit = 5000\<rparr> = Ok c \<and> c_Columns c = loki_cols"
proof -
  have "case Translate 0 example_loki example_lopts of Ok tr \<Rightarrow> True | _ \<Rightarrow> False" by code_simp
  then obtain tr where "Translate 0 example_loki example_lopts = Ok tr" by (auto split: outcome.splits)
  moreover have "loki_limit example_loki example_lopts = 1000" by code_simp
  ultimately show ?thesis
    using Translate_compiles[of 0 example_loki example_lopts tr "''tenant-xyz''" "\<lparr>opt_DefaultLimit = 1000, opt_MaxLimit = 5000\<rparr>"]
    by (simp add: int64_max_def Let_def)
qed

text \<open>
  The relative bounds cover the requested window: while the nanosecond difference fits
  \<open>int64\<close>, the older edge is moved back by less than one second to a whole second and the newer
  edge forward by less than one second, so no entry of the window is cut off.
\<close>

theorem relTime_covers:
  assumes "in_int64 (now - ts)" and "ts \<le> now"
  shows "\<exists>up down. relTime now ts True = lval_text (LNow up) \<and> relTime now ts False = lval_text (LNow down) \<and>
    now - up * nanos \<le> ts \<and> ts < now - up * nanos + nanos \<and>
    ts \<le> now - down * nanos \<and> now - down * nanos - nanos < ts"
  using rel_secs_bounds[OF assms]
  by (intro exI[of _ "rel_secs now ts True"] exI[of _ "rel_secs now ts False"]) (simp add: relTime_text)

theorem relTime_covers_witness:
  "\<exists>up down. relTime 2500000000 1 True = lval_text (LNow up) \<and> relTime 2500000000 1 False = lval_text (LNow down) \<and>
    2500000000 - up * nanos \<le> 1 \<and> 1 < 2500000000 - up * nanos + nanos \<and>
    1 \<le> 2500000000 - down * nanos \<and> 2500000000 - down * nanos - nanos < 1"
  using relTime_covers[of 2500000000 1] by (simp add: in_int64_def)

end
