(* ===== verification/Loki_Api.thy ===== *)
theory Loki_Api
  imports Go_Rows Loki_Compile Go_Parse Query_Api
begin

text \<open>
  The Grafana Loki endpoints of \<open>platform/api/handler/grafana.go\<close>: range queries through the translator and
  the compiler, label names and values, series, and the streams built from the rows.
\<close>

section \<open>Parameters\<close>

definition grafanaTranslateOpts :: LokiOptions where
  "grafanaTranslateOpts = \<lparr>lo_DefaultLimit = 1000, lo_MaxLimit = 5000\<rparr>"

definition grafanaQueryOpts :: Options where
  "grafanaQueryOpts = \<lparr>opt_DefaultLimit = 1000, opt_MaxLimit = 5000\<rparr>"

definition rfc3339nano :: string where "rfc3339nano = ''2006-01-02T15:04:05.999999999Z07:00''"

definition ch_layout :: string where "ch_layout = ''2006-01-02 15:04:05.999999999''"

text \<open>The selectors of \<open>match[]\<close>, and the error of parsing the form.\<close>

record loki_env = api_env +
  lv_matches :: "string list"
  lv_form_err :: "string option"

definition lokiParseTimeNs :: "'a api_env_scheme \<Rightarrow> string \<Rightarrow> int \<Rightarrow> int" where
  "lokiParseTimeNs env s def =
     (if s = [] then def
      else case ParseInt s of
        Some n \<Rightarrow> n
      | None \<Rightarrow> (case lib_ParseFloat (qe_lib env) s of
            Some f \<Rightarrow> int64_of (qe_oob env) (fmul f (Fin (10 ^ 9)))
          | None \<Rightarrow> (case lib_ParseTime (qe_lib env) rfc3339nano s of Some t \<Rightarrow> wrap64 t | None \<Rightarrow> def)))"

definition lokiParseInt :: "string \<Rightarrow> int" where
  "lokiParseInt s = (case ParseInt s of Some n \<Rightarrow> n | None \<Rightarrow> 0)"

definition lokiQuoteLiteral :: "string \<Rightarrow> string" where
  "lokiQuoteLiteral s =
     (let s = ReplaceAll s [backslash] [backslash, backslash];
          s = ReplaceAll s [squote] [backslash, squote]
      in [squote] @ s @ [squote])"

definition lokiString :: "'a api_env_scheme \<Rightarrow> json \<Rightarrow> string" where
  "lokiString env v =
     (case v of JNull \<Rightarrow> [] | JStr x \<Rightarrow> x | JNum x \<Rightarrow> lib_FormatFloat (qe_lib env) x | _ \<Rightarrow> qe_marshal env v)"

section \<open>Streams\<close>

definition stream_labels :: "string list" where
  "stream_labels = [''service'', ''level'', ''environment'', ''trace_id'', ''span_id'']"

definition set_nonempty :: "(string \<Rightarrow> string) \<Rightarrow> smap \<Rightarrow> string \<Rightarrow> smap" where
  "set_nonempty value m k = (if value k \<noteq> [] then mset_at k (value k) m else m)"

definition lokiStreamLabels :: "'a api_env_scheme \<Rightarrow> jrow \<Rightarrow> smap" where
  "lokiStreamLabels env row = foldl (set_nonempty (\<lambda>k. lokiString env (jcell row k))) [] stream_labels"

definition lokiStreamKey :: "smap \<Rightarrow> string" where
  "lokiStreamKey m = concat (map (\<lambda>(k, v). k @ ''='' @ v @ [CHR 0x00]) m)"

definition lokiTimestampNs :: "'a api_env_scheme \<Rightarrow> json \<Rightarrow> string" where
  "lokiTimestampNs env v =
     (let s = lokiString env v in
      if s = [] then ''0''
      else case lib_ParseTime (qe_lib env) ch_layout s of
        Some t \<Rightarrow> show_int (wrap64 t)
      | None \<Rightarrow> (case lib_ParseTime (qe_lib env) rfc3339nano s of Some t \<Rightarrow> show_int (wrap64 t) | None \<Rightarrow> s))"

datatype loki_answer =
    LErr int string
  | LStreams "(smap \<times> (string \<times> string) list) list"
  | LNames "string list"
  | LSeries "smap list"
  | LBuild "(string \<times> string) list"

definition stream_points :: "'a api_env_scheme \<Rightarrow> jrow list \<Rightarrow> (smap \<times> string \<times> string) list" where
  "stream_points env rows = map (\<lambda>row. (lokiStreamLabels env row, lokiTimestampNs env (jcell row ''timestamp''), lokiString env (jcell row ''message''))) rows"

definition lokiWriteStreams :: "'a api_env_scheme \<Rightarrow> jrow list \<Rightarrow> loki_answer" where
  "lokiWriteStreams env rows = LStreams (group_rows lokiStreamKey (stream_points env rows))"

section \<open>Direct statements\<close>

definition matcher_sql :: "Matcher \<Rightarrow> (goerror, string) outcome" where
  "matcher_sql m =
     (let col = ToLower (m_Label m) in
      if \<not> IsLabel col then Err (Errorf ''unknown label %q'' [m_Label m])
      else if m_Op m = ''='' then Ok (col @ '' = '' @ lokiQuoteLiteral (m_Value m))
      else if m_Op m = ''!='' then Ok (col @ '' != '' @ lokiQuoteLiteral (m_Value m))
      else Err (Errorf ''unsupported matcher operator %q (use = or !=)'' [m_Op m]))"

definition lokiMatchersSQL :: "Matcher list \<Rightarrow> (goerror, string list) outcome" where
  "lokiMatchersSQL ms = mapO matcher_sql ms"

definition lokiTimeBoundsSQL :: "int \<Rightarrow> int \<Rightarrow> string" where
  "lokiTimeBoundsSQL startNs endNs =
     (if startNs > 0 then '' AND timestamp >= fromUnixTimestamp64Nano('' @ show_int startNs @ '')'' else []) @
     (if endNs > 0 then '' AND timestamp <= fromUnixTimestamp64Nano('' @ show_int endNs @ '')'' else [])"

definition valuesSQL :: "string \<Rightarrow> string \<Rightarrow> int \<Rightarrow> int \<Rightarrow> string" where
  "valuesSQL name tenant startNs endNs =
     ''SELECT DISTINCT '' @ name @ '' AS v FROM logs WHERE tenant_id = '' @ lokiQuoteLiteral tenant @ '' AND '' @ name @ '' != '' @ [squote, squote] @
     lokiTimeBoundsSQL startNs endNs @ '' ORDER BY v LIMIT 1000''"

definition seriesSQL :: "string list \<Rightarrow> int \<Rightarrow> int \<Rightarrow> string" where
  "seriesSQL preds startNs endNs =
     ''SELECT DISTINCT service, level, environment FROM logs WHERE '' @ Join preds '' AND '' @ lokiTimeBoundsSQL startNs endNs @
     '' ORDER BY service, level, environment LIMIT 1000''"

text \<open>The predicates of all selectors, or the first error.\<close>

fun series_preds :: "string list \<Rightarrow> (goerror, string list) outcome" where
  "series_preds [] = Ok []"
| "series_preds (sel # sels) =
     bindO (ParseSelector sel) (\<lambda>matchers. bindO (lokiMatchersSQL matchers) (\<lambda>ms. bindO (series_preds sels) (\<lambda>rest. Ok (ms @ rest))))"

section \<open>Handlers\<close>

definition no_scope :: loki_answer where
  "no_scope = LErr 403 ''requires logs:read or logs:query scope''"

definition GrafanaLokiQueryRange :: "'a api_env_scheme \<Rightarrow> loki_answer handled" where
  "GrafanaLokiQueryRange env =
     (if \<not> HasScope (qe_id env) [''logs:read'', ''logs:query''] then plain no_scope
      else let tenant = ctxTenant (qe_id env); expr = qe_form env ''query'' in
        if expr = [] then plain (LErr 400 ''missing query'')
        else let now = qe_now env 0 in
          case Translate (qe_now env 1)
              \<lparr>q_Selector = expr, q_StartNs = lokiParseTimeNs env (qe_form env ''start'') (wrap64 (now - 3600 * 10 ^ 9)),
               q_EndNs = lokiParseTimeNs env (qe_form env ''end'') now, q_Limit = lokiParseInt (qe_form env ''limit''),
               q_Forward = EqualFold (qe_form env ''direction'') ''forward'', q_NowNs = now\<rparr> grafanaTranslateOpts of
            Err e \<Rightarrow> plain (LErr 400 (qe_errtext env e))
          | Panic \<Rightarrow> plain (LErr 500 [])
          | Ok tr \<Rightarrow>
              (case Compile (t_LogQLPP tr) tenant grafanaQueryOpts of
                 Err e \<Rightarrow> plain (LErr 400 (qe_errtext env e))
               | Panic \<Rightarrow> plain (LErr 500 [])
               | Ok compiled \<Rightarrow>
                   (case qe_ch env (c_SQL compiled) of
                      Inl e \<Rightarrow> (LErr 502 (''query execution failed: '' @ e), [c_SQL compiled], [])
                    | Inr rows \<Rightarrow> (lokiWriteStreams env rows, [c_SQL compiled], [writeAudit tenant ''loki_query_range'' expr (length rows) 0]))))"

definition GrafanaLokiLabels :: "'a api_env_scheme \<Rightarrow> loki_answer handled" where
  "GrafanaLokiLabels env =
     (if \<not> HasScope (qe_id env) [''logs:read'', ''logs:query''] then plain no_scope else plain (LNames Labels))"

definition GrafanaLokiLabelValues :: "'a api_env_scheme \<Rightarrow> string \<Rightarrow> loki_answer handled" where
  "GrafanaLokiLabelValues env param =
     (if \<not> HasScope (qe_id env) [''logs:read'', ''logs:query''] then plain no_scope
      else let name = ToLower param in
        if \<not> IsLabel name then plain (LErr 400 (''unknown label '' @ name))
        else let now = qe_now env 0;
                 startNs = lokiParseTimeNs env (qe_form env ''start'') (wrap64 (now - 6 * 3600 * 10 ^ 9));
                 endNs = lokiParseTimeNs env (qe_form env ''end'') now;
                 sql = valuesSQL name (ctxTenant (qe_id env)) startNs endNs in
          case qe_ch env sql of
            Inl e \<Rightarrow> (LErr 502 (''query execution failed: '' @ e), [sql], [])
          | Inr rows \<Rightarrow> (LNames (filter (\<lambda>s. s \<noteq> []) (map (\<lambda>row. lokiString env (jcell row ''v'')) rows)), [sql], []))"

definition GrafanaLokiSeries :: "loki_env \<Rightarrow> loki_answer handled" where
  "GrafanaLokiSeries env =
     (if \<not> HasScope (qe_id env) [''logs:read'', ''logs:query''] then plain no_scope
      else case lv_form_err env of
        Some e \<Rightarrow> plain (LErr 400 (''invalid form: '' @ e))
      | None \<Rightarrow>
          (case series_preds (lv_matches env) of
             Err e \<Rightarrow> plain (LErr 400 (qe_errtext env e))
           | Panic \<Rightarrow> plain (LErr 500 [])
           | Ok ms \<Rightarrow>
               let now = qe_now env 0;
                   startNs = lokiParseTimeNs env (qe_form env ''start'') (wrap64 (now - 6 * 3600 * 10 ^ 9));
                   endNs = lokiParseTimeNs env (qe_form env ''end'') now;
                   sql = seriesSQL ((''tenant_id = '' @ lokiQuoteLiteral (ctxTenant (qe_id env))) # ms) startNs endNs in
               case qe_ch env sql of
                 Inl e \<Rightarrow> (LErr 502 (''query execution failed: '' @ e), [sql], [])
               | Inr rows \<Rightarrow>
                   (LSeries (map (\<lambda>row. foldl (set_nonempty (\<lambda>k. lokiString env (jcell row k))) [] [''service'', ''level'', ''environment'']) rows), [sql], [])))"

definition GrafanaLokiBuildInfo :: "string \<Rightarrow> loki_answer" where
  "GrafanaLokiBuildInfo goVersion =
     LBuild [(''version'', ''2.9.0''), (''revision'', ''qeet-logs''), (''branch'', ''main''), (''buildUser'', ''qeet-logs''),
             (''buildDate'', ''2026-01-01T00:00:00Z''), (''goVersion'', goVersion)]"

section \<open>What reaches the store\<close>

lemma lokiQuote_quote: "lokiQuoteLiteral s = quote s"
  by (simp add: lokiQuoteLiteral_def quote_def)

interpretation loki_direct: literal_quoting lokiQuoteLiteral
  by unfold_locales (simp add: lokiQuote_quote lq.reads_back)

definition time_conjs :: "int \<Rightarrow> int \<Rightarrow> string list" where
  "time_conjs startNs endNs =
     (if startNs > 0 then [''timestamp >= fromUnixTimestamp64Nano'' @ ''('' @ show_int startNs @ '')''] else []) @
     (if endNs > 0 then [''timestamp <= fromUnixTimestamp64Nano'' @ ''('' @ show_int endNs @ '')''] else [])"

lemma time_conjs_conjunct: "list_all conjunct (time_conjs startNs endNs)"
proof -
  have "conjunct (''timestamp >= fromUnixTimestamp64Nano'' @ ''('' @ show_int n @ '')'')" "conjunct (''timestamp <= fromUnixTimestamp64Nano'' @ ''('' @ show_int n @ '')'')" for n
    by (rule conjunct_call, code_simp, code_simp, rule closed_show_int)+
  then show ?thesis unfolding time_conjs_def by (auto simp only: list_all_iff set_append list.set if_True if_False split: if_splits)
qed

lemma Join_Cons: "Join (x # ys) sep = x @ concat (map ((@) sep) ys)"
  by (induction ys arbitrary: x) simp_all

lemma time_bounds: "lokiTimeBoundsSQL a b = concat (map ((@) '' AND '') (time_conjs a b))"
  by (simp add: lokiTimeBoundsSQL_def time_conjs_def)

lemma where_time: "'' WHERE tenant_id = '' @ quote tenant @ concat (map ((@) '' AND '') cs) @ lokiTimeBoundsSQL a b = where_of tenant (cs @ time_conjs a b)"
  by (simp add: where_of_def Join_Cons time_bounds)

lemma label_pieces:
  assumes "IsLabel name" "name = ToLower name"
  shows "list_all sql_plain name" "no_or ((name @ '' = '') @ '' '')" "no_or ((name @ '' != '') @ '' '')"
proof -
  have "list_all (\<lambda>n. list_all sql_plain n \<and> no_or ((n @ '' = '') @ '' '') \<and> no_or ((n @ '' != '') @ '' '')) Labels" by code_simp
  moreover have "name \<in> set Labels" using assms by (simp add: IsLabel_def)
  ultimately show "list_all sql_plain name" "no_or ((name @ '' = '') @ '' '')" "no_or ((name @ '' != '') @ '' '')" by (auto simp only: list_all_iff)
qed

lemma label_conjunct:
  assumes "IsLabel name" "name = ToLower name"
  shows "conjunct (name @ '' = '' @ quote v)" "conjunct (name @ '' != '' @ quote v)"
proof -
  have "list_all sql_plain (name @ '' = '')" "list_all sql_plain (name @ '' != '')"
    using label_pieces(1)[OF assms] by (simp_all add: sql_plain_def)
  then show "conjunct (name @ '' = '' @ quote v)" "conjunct (name @ '' != '' @ quote v)"
    using conjunct_quote[of "name @ '' = ''" v] conjunct_quote[of "name @ '' != ''" v] label_pieces(2,3)[OF assms] by (simp_all only: append_assoc)
qed

lemma values_confined:
  assumes "IsLabel name" "name = ToLower name" shows "confined tenant (valuesSQL name tenant a b)"
proof -
  have c: "list_all conjunct ([name @ '' != '' @ quote []] @ time_conjs a b)"
    using label_conjunct(2)[OF assms, of "[]"] time_conjs_conjunct[of a b] by (auto simp only: list_all_iff set_append list.set)
  have "closed (''SELECT DISTINCT '' @ name @ '' AS v'')" using closed_plain[OF label_pieces(1)[OF assms]] by (simp add: closed_def scan_simps)
  then have q: "q_run (Sql (Out 0)) (''SELECT DISTINCT '' @ name @ '' AS v'') = Sql (Out 0)" by (rule closed_run)
  have t: "''logs'' \<in> set read_tables" by (simp add: read_tables_def)
  have e: "ends_where '' ORDER BY v LIMIT 1000''" by (simp add: ends_where_def HasPrefix_def)
  have p: "q_run (Sql (Out 0)) '' ORDER BY v LIMIT 1000'' = Sql (Out 0)" by (simp add: q_out_def scan_simps bquote_def)
  have "valuesSQL name tenant a b = (''SELECT DISTINCT '' @ name @ '' AS v'') @ '' FROM '' @ ''logs'' @
      where_of tenant ([name @ '' != '' @ quote []] @ time_conjs a b) @ '' ORDER BY v LIMIT 1000''"
    unfolding where_time[symmetric] by (simp add: valuesSQL_def lokiQuote_quote quote_escape escape_def)
  then show ?thesis using confinedI[OF t c e q p, of tenant] by simp
qed

lemma matcher_sql_conjunct: "matcher_sql m = Ok s \<Longrightarrow> conjunct s"
  using label_conjunct[of "ToLower (m_Label m)" "m_Value m"] by (auto simp: matcher_sql_def Let_def lokiQuote_quote split: if_splits)

lemma series_preds_conjunct: "series_preds sels = Ok ms \<Longrightarrow> list_all conjunct ms"
proof (induction sels arbitrary: ms)
  case (Cons sel sels)
  then obtain matchers ps rest where p: "lokiMatchersSQL matchers = Ok ps" "series_preds sels = Ok rest" "ms = ps @ rest" by (auto simp: outcome_simps)
  have "list_all conjunct ps" using p(1) unfolding lokiMatchersSQL_def mapO_Ok_iff
    by (induction matchers ps rule: list_all2_induct) (auto dest: matcher_sql_conjunct)
  then show ?case using Cons.IH[OF p(2)] p(3) by simp
qed simp

lemma series_confined:
  assumes "list_all conjunct ms"
  shows "confined tenant (seriesSQL ((''tenant_id = '' @ lokiQuoteLiteral tenant) # ms) a b)"
proof -
  have c: "list_all conjunct (ms @ time_conjs a b)" using assms time_conjs_conjunct by simp
  have q: "q_run (Sql (Out 0)) ''SELECT DISTINCT service, level, environment'' = Sql (Out 0)" by (simp add: q_out_def scan_simps bquote_def)
  have t: "''logs'' \<in> set read_tables" by (simp add: read_tables_def)
  have e: "ends_where '' ORDER BY service, level, environment LIMIT 1000''" by (simp add: ends_where_def HasPrefix_def)
  have p: "q_run (Sql (Out 0)) '' ORDER BY service, level, environment LIMIT 1000'' = Sql (Out 0)" by (simp add: q_out_def scan_simps bquote_def)
  have "seriesSQL ((''tenant_id = '' @ lokiQuoteLiteral tenant) # ms) a b = ''SELECT DISTINCT service, level, environment'' @ '' FROM '' @ ''logs'' @
      where_of tenant (ms @ time_conjs a b) @ '' ORDER BY service, level, environment LIMIT 1000''"
    unfolding where_time[symmetric] by (simp add: seriesSQL_def lokiQuote_quote Join_Cons)
  then show ?thesis using confinedI[OF t c e q p, of tenant] by simp
qed

lemma QueryRange_keeps: "keeps_tenant [''logs:read'', ''logs:query''] (qe_id env) (snd (GrafanaLokiQueryRange env))"
  using Compile_confined[of _ "ctxTenant (qe_id env)" grafanaQueryOpts]
  by (auto simp: GrafanaLokiQueryRange_def Let_def keeps_tenant_def writeAudit_def plain_def split: outcome.splits sum.splits simp del: HasScope.simps)

lemma LabelValues_keeps: "keeps_tenant [''logs:read'', ''logs:query''] (qe_id env) (snd (GrafanaLokiLabelValues env param))"
  using values_confined[of "ToLower param" "ctxTenant (qe_id env)"]
  by (auto simp: GrafanaLokiLabelValues_def Let_def keeps_tenant_def plain_def split: sum.splits simp del: HasScope.simps)

lemma Series_keeps: "keeps_tenant [''logs:read'', ''logs:query''] (qe_id env) (snd (GrafanaLokiSeries env))"
  using series_confined[OF series_preds_conjunct, of "lv_matches env" _ "ctxTenant (qe_id env)"]
  by (auto simp: GrafanaLokiSeries_def Let_def keeps_tenant_def plain_def split: outcome.splits sum.splits option.splits simp del: HasScope.simps)

section \<open>Streams\<close>

lemma streamKey_pair: "lokiStreamKey = pair_key (CHR ''='') (CHR 0x00)"
  by (simp add: lokiStreamKey_def pair_key_def fun_eq_iff)

lemma stream_labels_from:
  "(k, v) \<in> set (foldl (set_nonempty value) m ks) \<Longrightarrow> (k, v) \<in> set m \<or> (k \<in> set ks \<and> v = value k)"
  by (induction ks arbitrary: m) (force simp: set_nonempty_def dest: mset_at_values split: if_splits)+

lemma stream_safe:
  assumes "\<forall>k \<in> set stream_labels. CHR 0x00 \<notin> set (lokiString env (jcell row k))"
  shows "key_safe (CHR ''='') (CHR 0x00) (lokiStreamLabels env row)"
proof -
  have "\<forall>k \<in> set stream_labels. CHR ''='' \<notin> set k" by (simp add: stream_labels_def)
  then show ?thesis using assms stream_labels_from[of _ _ "\<lambda>k. lokiString env (jcell row k)" "[]" stream_labels]
    by (auto simp: key_safe_def lokiStreamLabels_def)
qed

text \<open>
  A Loki answer groups the rows by label set: as long as no label value holds a NUL byte, there is one
  stream for every label set of the rows, in order of first appearance, with exactly the entries of its rows
  in their order.
\<close>

theorem streams_by_labels:
  assumes "\<forall>row \<in> set rows. \<forall>k \<in> set stream_labels. CHR 0x00 \<notin> set (lokiString env (jcell row k))"
  shows "lokiWriteStreams env rows = LStreams (grouped (stream_points env rows))"
proof -
  have "\<forall>r \<in> set (stream_points env rows). key_safe (CHR ''='') (CHR 0x00) (fst r)"
    using assms stream_safe[of env] by (auto simp: stream_points_def)
  from pair.groups_by_labels[OF this] show ?thesis by (simp add: lokiWriteStreams_def streamKey_pair)
qed

definition demo_loki_env :: api_env where
  "demo_loki_env = \<lparr>qe_id = \<lparr>ctxTenant = ''acme'', ctxScopes = [''logs:read'']\<rparr>, qe_form = (\<lambda>_. []), qe_ch = (\<lambda>_. Inr []), qe_now = (\<lambda>_. 0), qe_latency = 0,
     qe_errtext = (\<lambda>_. []), qe_marshal = (\<lambda>_. []), qe_lib = plain_lib, qe_oob = (\<lambda>_. 0)\<rparr>"

definition demo_logs :: "jrow list" where
  "demo_logs = [[(''service'', JStr ''api''), (''message'', JStr ''a'')], [(''service'', JStr ''db''), (''message'', JStr ''b'')], [(''service'', JStr ''api''), (''message'', JStr ''c'')]]"

theorem streams_by_labels_witness:
  "lokiWriteStreams demo_loki_env demo_logs = LStreams (grouped (stream_points demo_loki_env demo_logs)) \<and>
   lokiWriteStreams demo_loki_env demo_logs =
     LStreams [([(''service'', ''api'')], [(''0'', ''a''), (''0'', ''c'')]), ([(''service'', ''db'')], [(''0'', ''b'')])]"
proof
  have "list_all (\<lambda>row. list_all (\<lambda>k. CHR 0x00 \<notin> set (lokiString demo_loki_env (jcell row k))) stream_labels) demo_logs" by code_simp
  then show "lokiWriteStreams demo_loki_env demo_logs = LStreams (grouped (stream_points demo_loki_env demo_logs))"
    using streams_by_labels by (simp add: list_all_iff)
qed code_simp

end
