(* ===== verification/Api_Server.thy ===== *)
theory Api_Server
  imports Access Rate_Limit Go_Parse Go_Url
begin

text \<open>
  The query API process, \<open>cmd/query/main.go\<close>: its route table, the middleware in front of every group of routes, the
  header and body-size middleware of \<open>middleware/secure.go\<close> and the probes of \<open>handler/health.go\<close>. The router is the
  chi library: an argument, of which only the documented choice of a mounted group and of a route is used. CORS,
  request identifiers, panic recovery, tracing and metrics run in front of every group alike and are left out.
\<close>

section \<open>Probes\<close>

record healthResponse =
  hp_Status :: string
  hp_Checks :: "(string \<times> string) list"

definition Health :: "int \<times> healthResponse" where
  "Health = (200, \<lparr>hp_Status = ''ok'', hp_Checks = []\<rparr>)"

definition check_text :: "string option \<Rightarrow> string" where
  "check_text err = (case err of Some e \<Rightarrow> ''error: '' @ e | None \<Rightarrow> ''ok'')"

text \<open>The errors of the four backing services, in the order they are asked.\<close>

definition Ready :: "string option \<Rightarrow> string option \<Rightarrow> string option \<Rightarrow> string option \<Rightarrow> int \<times> healthResponse" where
  "Ready postgres redis clickhouse nats =
     (let asked = [(''postgres'', postgres), (''redis'', redis), (''clickhouse'', clickhouse), (''nats'', nats)];
          checks = map (\<lambda>(name, err). (name, check_text err)) asked; healthy = list_all (\<lambda>(name, err). err = None) asked
      in if \<not> healthy then (503, \<lparr>hp_Status = ''degraded'', hp_Checks = checks\<rparr>) else (200, \<lparr>hp_Status = ''ready'', hp_Checks = checks\<rparr>))"

definition Version :: "string \<Rightarrow> int \<times> (string \<times> string) list" where
  "Version v = (200, [(''version'', v)])"

section \<open>Header and body-size middleware\<close>

type_synonym headers = "string \<rightharpoonup> string"

definition DefaultMaxBodyBytes :: int where "DefaultMaxBodyBytes = push_bit 20 4"

definition isHTTPS :: "bool \<Rightarrow> http_request \<Rightarrow> bool" where
  "isHTTPS tls r \<longleftrightarrow> tls \<or> hr_Header r ''X-Forwarded-Proto'' = ''https''"

definition SecureHeaders :: "bool \<Rightarrow> http_request \<Rightarrow> headers \<Rightarrow> headers" where
  "SecureHeaders tls r h =
     (let h = h(''X-Content-Type-Options'' \<mapsto> ''nosniff'', ''X-Frame-Options'' \<mapsto> ''DENY'', ''Referrer-Policy'' \<mapsto> ''no-referrer'',
            ''Content-Security-Policy'' \<mapsto> ''default-src '' @ [CHR 0x27] @ ''none'' @ [CHR 0x27] @ ''; frame-ancestors '' @ [CHR 0x27] @ ''none'' @ [CHR 0x27],
            ''Cross-Origin-Resource-Policy'' \<mapsto> ''same-origin'')
      in if isHTTPS tls r then h(''Strict-Transport-Security'' \<mapsto> ''max-age=31536000; includeSubDomains'') else h)"

text \<open>What a handler gets when it reads the whole body: a body over the limit is an error.\<close>

definition MaxBodyBytes :: "int \<Rightarrow> string \<Rightarrow> string + string" where
  "MaxBodyBytes n body = (if n > 0 \<and> int (length body) > n then Inl ''http: request body too large'' else Inr body)"

section \<open>The route table\<close>

text \<open>Method, pattern and handler; no method stands for every method. The pattern of a group is relative to its prefix.\<close>

type_synonym route = "string \<times> string \<times> string"

datatype gate = Open | KeyGate | AdminGate

record mount =
  mn_Prefix :: string
  mn_Gate :: gate
  mn_Routes :: "route list"

definition root_routes :: "route list" where
  "root_routes =
     [(''GET'', ''/healthz'', ''Health''), (''GET'', ''/readyz'', ''Ready''), (''GET'', ''/version'', ''Version''),
      ([], ''/metrics'', ''MetricsHandler''), (''GET'', ''/shared/dashboards/{token}'', ''GetSharedDashboard'')]"

definition v1_routes :: "route list" where
  "v1_routes =
     [(''GET'', ''/query'', ''Query''), (''GET'', ''/query/tail'', ''Tail''), (''GET'', ''/auth-events'', ''AuthEvents''),
      (''POST'', ''/changes'', ''CreateChange''), (''GET'', ''/changes'', ''ListChanges''),
      (''POST'', ''/changes/{provider}'', ''ChangeConnector''), (''GET'', ''/topology'', ''Topology''),
      (''GET'', ''/timeline'', ''Timeline''), (''GET'', ''/incidents'', ''ListIncidents''), (''GET'', ''/rca'', ''RCA''),
      (''GET'', ''/deploy/culprits'', ''DeployCulprits''), (''GET'', ''/business-context'', ''BusContextByService''),
      (''GET'', ''/incidents/{id}/context'', ''BusContextForIncident''), (''GET'', ''/export'', ''Export''),
      (''POST'', ''/alerts/simulate'', ''SimulateAlertRouting''), (''GET'', ''/analytics/ttfiq'', ''TTFIQ''),
      (''GET'', ''/forecast'', ''Forecast''), (''POST'', ''/query/copilot'', ''Copilot''),
      (''POST'', ''/query/copilot/conversations'', ''StartCopilotConversation''),
      (''POST'', ''/query/copilot/conversations/{id}/messages'', ''CopilotConversationMessage''),
      (''GET'', ''/query/copilot/conversations/{id}'', ''GetCopilotConversation''), (''GET'', ''/overlays'', ''Overlays''),
      (''POST'', ''/query/nl'', ''NLQuery'')]"

definition prom_routes :: "route list" where
  "prom_routes =
     [(''GET'', ''/query'', ''PromInstantQuery''), (''POST'', ''/query'', ''PromInstantQuery''),
      (''GET'', ''/query_range'', ''PromRangeQuery''), (''POST'', ''/query_range'', ''PromRangeQuery'')]"

definition loki_routes :: "route list" where
  "loki_routes =
     [(''GET'', ''/query_range'', ''GrafanaLokiQueryRange''), (''GET'', ''/labels'', ''GrafanaLokiLabels''),
      (''GET'', ''/label/{name}/values'', ''GrafanaLokiLabelValues''), (''GET'', ''/series'', ''GrafanaLokiSeries''),
      (''GET'', ''/status/buildinfo'', ''GrafanaLokiBuildInfo'')]"

definition chatops_routes :: "route list" where
  "chatops_routes =
     [(''GET'', ''/slack/install'', ''ChatOpsSlackInstall''), (''GET'', ''/slack/callback'', ''ChatOpsSlackCallback''),
      (''POST'', ''/slack/commands'', ''ChatOpsSlackCommands''), (''POST'', ''/slack/interactivity'', ''ChatOpsSlackInteractivity'')]"

definition admin_routes :: "route list" where
  "admin_routes =
     [(''POST'', ''/api-keys'', ''CreateAPIKey''), (''GET'', ''/api-keys'', ''ListAPIKeys''),
      (''DELETE'', ''/api-keys/{id}'', ''RevokeAPIKey''), (''GET'', ''/alert-rules'', ''ListAlertRules''),
      (''POST'', ''/alert-rules'', ''CreateAlertRule''), (''DELETE'', ''/alert-rules/{id}'', ''DeleteAlertRule''),
      (''GET'', ''/retention'', ''GetRetention''), (''PUT'', ''/retention'', ''UpdateRetention''),
      (''GET'', ''/retention/cost'', ''RetentionCost''), (''GET'', ''/ai-features'', ''GetAIFeatures''),
      (''PUT'', ''/ai-features'', ''UpdateAIFeatures''), (''POST'', ''/chatops/test'', ''ChatOpsTest''),
      (''GET'', ''/notify-locale'', ''GetNotifyLocale''), (''PUT'', ''/notify-locale'', ''SetNotifyLocale''),
      (''GET'', ''/plan'', ''BillingGetPlan''), (''PUT'', ''/plan'', ''BillingSetPlan''), (''GET'', ''/billing/preview'', ''BillingPreview''),
      (''POST'', ''/rca/feedback'', ''RCAFeedback''), (''POST'', ''/webhooks'', ''CreateWebhook''),
      (''GET'', ''/webhooks'', ''ListWebhooks''), (''DELETE'', ''/webhooks/{id}'', ''DeleteWebhook''),
      (''POST'', ''/incidents/{id}/feedback'', ''SubmitIncidentFeedback''),
      (''POST'', ''/incidents/{id}/declare'', ''DeclareIncidentWarRoom''), (''GET'', ''/incidents/{id}/session'', ''GetIncidentWarRoom''),
      (''POST'', ''/sessions/{id}/entries'', ''AddWarRoomEntry''), (''POST'', ''/sessions/{id}/roles'', ''AssignWarRoomRole''),
      (''POST'', ''/sessions/{id}/handoff'', ''HandoffWarRoom''), (''POST'', ''/business-context'', ''BusContextCreate''),
      (''GET'', ''/business-context'', ''BusContextList''), (''DELETE'', ''/business-context/{id}'', ''BusContextDelete''),
      (''POST'', ''/postmortems'', ''CreatePostmortem''), (''GET'', ''/postmortems'', ''ListPostmortems''),
      (''GET'', ''/postmortems/{id}'', ''GetPostmortem''), (''PATCH'', ''/postmortems/{id}'', ''UpdatePostmortem''),
      (''POST'', ''/postmortems/{id}/commitments'', ''CreatePostmortemCommitment''),
      (''GET'', ''/postmortems/{id}/commitments'', ''ListPostmortemCommitments''),
      (''GET'', ''/postmortems/{id}/cert-in-export'', ''ExportPostmortemCERTIn''), (''GET'', ''/transform'', ''GetTransform''),
      (''PUT'', ''/transform'', ''UpsertTransform''), (''GET'', ''/audit'', ''ListAudit''), (''GET'', ''/dashboards'', ''ListDashboards''),
      (''POST'', ''/dashboards'', ''CreateDashboard''), (''GET'', ''/dashboards/{id}'', ''GetDashboard''),
      (''PUT'', ''/dashboards/{id}'', ''UpdateDashboard''), (''DELETE'', ''/dashboards/{id}'', ''DeleteDashboard''),
      (''POST'', ''/dashboards/{id}/share'', ''ShareDashboard''), (''GET'', ''/saved-searches'', ''ListSavedSearches''),
      (''POST'', ''/saved-searches'', ''CreateSavedSearch''), (''DELETE'', ''/saved-searches/{id}'', ''DeleteSavedSearch''),
      (''GET'', ''/dlq'', ''ListDLQ''), (''POST'', ''/dlq/{id}/replay'', ''ReplayDLQ''), (''DELETE'', ''/dlq/{id}'', ''DropDLQ''),
      (''GET'', ''/quota/usage'', ''QuotaUsage''), (''POST'', ''/erasure'', ''CreateErasure''), (''GET'', ''/erasure'', ''ListErasure'')]"

definition mounts :: "mount list" where
  "mounts =
     [\<lparr>mn_Prefix = [], mn_Gate = Open, mn_Routes = root_routes\<rparr>,
      \<lparr>mn_Prefix = ''/v1'', mn_Gate = KeyGate, mn_Routes = v1_routes\<rparr>,
      \<lparr>mn_Prefix = ''/api/v1'', mn_Gate = KeyGate, mn_Routes = prom_routes\<rparr>,
      \<lparr>mn_Prefix = ''/loki/api/v1'', mn_Gate = KeyGate, mn_Routes = loki_routes\<rparr>,
      \<lparr>mn_Prefix = ''/v1/chatops'', mn_Gate = Open, mn_Routes = chatops_routes\<rparr>,
      \<lparr>mn_Prefix = ''/v1/admin'', mn_Gate = AdminGate, mn_Routes = admin_routes\<rparr>]"

section \<open>The router\<close>

definition below :: "string \<Rightarrow> string \<Rightarrow> bool" where
  "below prefix path \<longleftrightarrow> prefix = [] \<or> path = prefix \<or> HasPrefix path (prefix @ ''/'')"

definition segments :: "string \<Rightarrow> string list" where
  "segments path = split_on CHR ''/'' path"

definition is_param :: "string \<Rightarrow> bool" where
  "is_param seg = (case seg of c # _ \<Rightarrow> c = CHR 0x7B | [] \<Rightarrow> False)"

definition seg_fits :: "string \<Rightarrow> string \<Rightarrow> bool" where
  "seg_fits pat seg \<longleftrightarrow> is_param pat \<or> pat = seg"

definition fits :: "mount \<Rightarrow> route \<Rightarrow> string \<Rightarrow> string \<Rightarrow> bool" where
  "fits g r method path = (case r of (m, pat, h) \<Rightarrow>
     (m = [] \<or> m = method) \<and> list_all2 seg_fits (segments (mn_Prefix g @ pat)) (segments path))"

text \<open>
  What is relied on of the router: the group is the one mounted at the longest prefix of the path, a route that is
  chosen is one of the group with the method and the pattern of the request, and none is chosen only if none has
  them, or if the path has an empty segment, where a placeholder may or may not match.
\<close>

type_synonym router = "string \<Rightarrow> string \<Rightarrow> mount \<times> route option"

definition chosen :: "string \<Rightarrow> string \<Rightarrow> mount \<Rightarrow> route option \<Rightarrow> bool" where
  "chosen method path g ro \<longleftrightarrow> g \<in> set mounts \<and> below (mn_Prefix g) path \<and>
     (\<forall>g' \<in> set mounts. below (mn_Prefix g') path \<longrightarrow> length (mn_Prefix g') \<le> length (mn_Prefix g)) \<and>
     (case ro of Some r \<Rightarrow> r \<in> set (mn_Routes g) \<and> fits g r method path
      | None \<Rightarrow> list_ex (\<lambda>s. s = []) (tl (segments path)) \<or> \<not> list_ex (\<lambda>r. fits g r method path) (mn_Routes g))"

definition chi_like :: "router \<Rightarrow> bool" where
  "chi_like mux \<longleftrightarrow> (\<forall>method path. chosen method path (fst (mux method path)) (snd (mux method path)))"

section \<open>A request\<close>

record 'k server_env =
  se_key :: kenv
  se_touch :: kenv
  se_oidc :: "'k oenv"
  se_issuer :: string
  se_limit :: string
  se_now :: int
  se_later :: int
  se_incr_err :: bool
  se_expire_err :: bool
  se_tls :: bool

record 'k server_state =
  ss_keys :: key_table
  ss_redis :: redis
  ss_jwks :: "'k jwks_cache"

text \<open>The handler that runs, with the identity the middleware resolved, or an answer of the middleware.\<close>

datatype verdict = Refuse int string | NoRoute | Run string "identity option"

definition rate_config :: "string \<Rightarrow> RateLimitConfig" where
  "rate_config v =
     (case ParseInt v of
        Some n \<Rightarrow> if n > 0 then \<lparr>rl_Requests = n, rl_Window = 60 * second\<rparr> else DefaultRateLimit
      | None \<Rightarrow> DefaultRateLimit)"

definition put_all :: "headers \<Rightarrow> (string \<times> string) list \<Rightarrow> headers" where
  "put_all h kvs = foldl (\<lambda>h (k, v). h(k \<mapsto> v)) h kvs"

definition key_gate :: "'k server_env \<Rightarrow> http_request \<Rightarrow> headers \<Rightarrow> 'k server_state \<Rightarrow> (headers \<times> reply) \<times> 'k server_state" where
  "key_gate env r h st =
     (case APIKeyAuth (se_key env) (se_touch env) r (ss_keys st) of
        (Deny c m, db) \<Rightarrow> ((h, Deny c m), st\<lparr>ss_keys := db\<rparr>)
      | (Pass i, db) \<Rightarrow>
          (case RateLimit True (rate_config (se_limit env))
              \<lparr>rq_tenant = ctxTenant i, rq_now = se_now env, rq_later = se_later env, rq_incr_err = se_incr_err env, rq_expire_err = se_expire_err env\<rparr>
              (ss_redis st) of
             (Serve hs, rd) \<Rightarrow> ((put_all h hs, Pass i), st\<lparr>ss_keys := db, ss_redis := rd\<rparr>)
           | (TooMany hs, rd) \<Rightarrow> ((put_all h hs, Deny 429 ''rate limit exceeded''), st\<lparr>ss_keys := db, ss_redis := rd\<rparr>)))"

definition admin_gate :: "'k server_env \<Rightarrow> http_request \<Rightarrow> headers \<Rightarrow> 'k server_state \<Rightarrow> (headers \<times> reply) \<times> 'k server_state" where
  "admin_gate env r h st =
     (case AnyAuth (se_key env) (se_touch env) (se_oidc env) (se_issuer env) r (ss_keys st, ss_jwks st) of
        (v, db, c) \<Rightarrow>
          ((h, (case v of Deny code m \<Rightarrow> Deny code m | Pass i \<Rightarrow> RequireScope [''logs:admin''] i)), st\<lparr>ss_keys := db, ss_jwks := c\<rparr>))"

definition dispatch :: "router \<Rightarrow> 'k server_env \<Rightarrow> http_request \<Rightarrow> string \<Rightarrow> string \<Rightarrow> 'k server_state \<Rightarrow> (headers \<times> verdict) \<times> 'k server_state" where
  "dispatch mux env r method path st =
     (let h = SecureHeaders (se_tls env) r Map.empty; (g, ro) = mux method path;
          found = (\<lambda>who. case ro of None \<Rightarrow> NoRoute | Some (m, pat, f) \<Rightarrow> Run f who);
          behind = (\<lambda>((h, v), st). ((h, (case v of Deny c m \<Rightarrow> Refuse c m | Pass i \<Rightarrow> found (Some i))), st))
      in case mn_Gate g of
           Open \<Rightarrow> ((h, found None), st)
         | KeyGate \<Rightarrow> behind (key_gate env r h st)
         | AdminGate \<Rightarrow> behind (admin_gate env r h st))"

section \<open>Gates\<close>

definition presented :: "http_request \<Rightarrow> string" where
  "presented r = (if hr_Header r ''X-Qeet-Api-Key'' = [] \<and> isWebSocketUpgrade r then hr_Query r ''api_key'' else hr_Header r ''X-Qeet-Api-Key'')"

text \<open>The identity of a live row of the key table that the request names by its key.\<close>

definition live_key :: "kenv \<Rightarrow> key_table \<Rightarrow> http_request \<Rightarrow> identity \<Rightarrow> bool" where
  "live_key env db r i \<longleftrightarrow> presented r \<noteq> [] \<and>
     list_ex (\<lambda>k. active (ke_now env) k \<and> k_Hash k = HashAPIKey env (presented r) \<and> i = \<lparr>ctxTenant = k_TenantID k, ctxScopes = k_Scopes k\<rparr>) db"

text \<open>The identity of a bearer token that a key of the issuer verifies, before its expiry.\<close>

definition live_token :: "'k oenv \<Rightarrow> string \<Rightarrow> 'k jwks_cache \<Rightarrow> http_request \<Rightarrow> identity \<Rightarrow> bool" where
  "live_token env issuer c r i \<longleftrightarrow> (\<exists>ks key cl. fst (jwks_get env issuer c) = Ok ks \<and> key \<in> set ks \<and>
     oe_verify env key (TrimPrefix (hr_Header r ''Authorization'') ''Bearer '') = Some cl \<and> oe_unix env \<le> cl_Exp cl \<and>
     EqualFold (TrimRight_slash (cl_Iss cl)) (TrimRight_slash issuer) \<and> cl_TenantID cl = ctxTenant i \<and> ctxTenant i \<noteq> [])"

lemma APIKeyAuth_live:
  assumes "APIKeyAuth env touch r db = (Pass i, db')" shows "live_key env db r i"
proof -
  define h where "h = HashAPIKey env (presented r)"
  have p: "presented r \<noteq> []" and "\<exists>ak. LookupAPIKey env h db = Ok (Some ak) \<and> i = \<lparr>ctxTenant = ak_TenantID ak, ctxScopes = ak_Scopes ak\<rparr>"
    using assms by (auto simp: APIKeyAuth_def presented_def h_def Let_def split: outcome.splits option.splits if_splits)
  then obtain k where "find (\<lambda>k. k_Hash k = h \<and> active (ke_now env) k) db = Some k" "i = \<lparr>ctxTenant = k_TenantID k, ctxScopes = k_Scopes k\<rparr>"
    by (auto simp: LookupAPIKey_def split: option.splits)
  then show ?thesis using p unfolding live_key_def h_def by (auto simp: find_Some_iff list_ex_iff)
qed

lemma AnyAuth_live:
  assumes "AnyAuth env touch oenv issuer r (db, c) = (Pass i, st')"
  shows "live_key env db r i \<or> live_token oenv issuer c r i"
proof -
  consider db' where "APIKeyAuth env touch r db = (Pass i, db')" | "fst (OIDCAuth oenv issuer r c) = Pass i"
    using assms by (auto simp: AnyAuth_def Let_def split: if_splits prod.splits)
  then show ?thesis
    by cases (use APIKeyAuth_live OIDCAuth_sound[of oenv issuer r c i] in \<open>auto simp: live_token_def\<close>)
qed

lemma key_gate_live:
  assumes "key_gate env r h st = ((h', Pass i), st')" shows "live_key (se_key env) (ss_keys st) r i"
  using assms APIKeyAuth_live[of "se_key env" "se_touch env" r "ss_keys st" i]
  by (auto simp: key_gate_def split: prod.splits reply.splits rl_verdict.splits)

lemma admin_gate_live:
  assumes "admin_gate env r h st = ((h', Pass i), st')"
  shows "(live_key (se_key env) (ss_keys st) r i \<or> live_token (se_oidc env) (se_issuer env) (ss_jwks st) r i) \<and> ''logs:admin'' \<in> set (ctxScopes i) \<and> ss_redis st' = ss_redis st"
  using assms AnyAuth_live[of "se_key env" "se_touch env" "se_oidc env" "se_issuer env" r "ss_keys st" "ss_jwks st" i]
  by (auto simp: admin_gate_def RequireScope_def list_ex_iff split: prod.splits reply.splits if_splits)

section \<open>The table\<close>

text \<open>Two patterns that some path fits both.\<close>

definition overlap :: "string list \<Rightarrow> string list \<Rightarrow> bool" where
  "overlap p q \<longleftrightarrow> list_all2 (\<lambda>a b. is_param a \<or> is_param b \<or> a = b) p q"

definition clash :: "string \<times> string list \<Rightarrow> string \<times> string list \<Rightarrow> bool" where
  "clash a b \<longleftrightarrow> (fst a = [] \<or> fst b = [] \<or> fst a = fst b) \<and> overlap (snd a) (snd b)"

fun no_clash :: "(string \<times> string list) list \<Rightarrow> bool" where
  "no_clash [] = True"
| "no_clash (a # as) = (\<not> list_ex (clash a) as \<and> no_clash as)"

definition shape :: "mount \<Rightarrow> route \<Rightarrow> string \<times> string list" where
  "shape g r = (fst r, segments (mn_Prefix g @ fst (snd r)))"

lemma fits_overlap: "list_all2 seg_fits p s \<Longrightarrow> list_all2 seg_fits q s \<Longrightarrow> overlap p q"
  by (induction p s arbitrary: q rule: list_all2_induct) (auto simp: overlap_def list_all2_Cons2 seg_fits_def)

lemma fits_clash: "fits g r m p \<Longrightarrow> fits g r' m p \<Longrightarrow> clash (shape g r) (shape g r')"
  using fits_overlap by (auto simp: fits_def clash_def shape_def split: prod.splits)

lemma no_clash_unique:
  assumes "no_clash (map (shape g) rs)" "r \<in> set rs" "r' \<in> set rs" "fits g r m p" "fits g r' m p"
  shows "r = r'"
  using assms fits_clash[OF assms(4,5)] fits_clash[OF assms(5,4)]
  by (induction rs) (auto simp: list_ex_iff)

lemma mounts_no_clash: "list_all (\<lambda>g. no_clash (map (shape g) (mn_Routes g))) mounts"
  by code_simp

lemma below_take: "below p path \<Longrightarrow> take (length p) path = p"
  by (auto simp: below_def HasPrefix_def append_eq_conv_conj dest: arg_cong[where f = "take (length p)"])

lemma mount_unique:
  assumes "g \<in> set mounts" "g' \<in> set mounts" "below (mn_Prefix g) p" "below (mn_Prefix g') p" "length (mn_Prefix g) = length (mn_Prefix g')"
  shows "g = g'"
proof -
  have "mn_Prefix g = mn_Prefix g'" using assms(3-5) below_take by metis
  moreover have "distinct (map mn_Prefix mounts)" by (simp add: mounts_def)
  ultimately show ?thesis using assms(1,2) by (meson distinct_map inj_onD)
qed

text \<open>The group of a path does not depend on the router, nor does the route of a path without empty segments.\<close>

lemma chi_like_unique:
  assumes "chi_like mux" "chi_like mux'" "\<not> list_ex (\<lambda>s. s = []) (tl (segments p))"
  shows "mux m p = mux' m p"
proof -
  obtain g ro g' ro' where mm: "mux m p = (g, ro)" "mux' m p = (g', ro')" by (cases "mux m p"; cases "mux' m p") blast
  have c: "chosen m p g ro" "chosen m p g' ro'" using assms(1,2) mm unfolding chi_like_def by (metis fst_conv snd_conv)+
  have g: "g = g'" using c by (intro mount_unique[of g g' p]) (auto simp: chosen_def intro: le_antisym)
  have "no_clash (map (shape g) (mn_Routes g))" using mounts_no_clash c(1) by (simp add: list_all_iff chosen_def)
  from no_clash_unique[OF this] have "ro = ro'" using c assms(3) unfolding g by (cases ro; cases ro') (auto simp: chosen_def list_ex_iff)
  then show ?thesis by (simp add: mm g)
qed

text \<open>
  The answer of the API does not depend on how the router breaks ties: on a path without empty segments every
  router that keeps to the table runs the same handler for the same identity, with the same headers and the same
  effects on keys, counters and key sets, since no two routes of a group share a request.
\<close>

theorem routing_deterministic:
  assumes "chi_like mux" "chi_like mux'" "\<not> list_ex (\<lambda>s. s = []) (tl (segments p))"
  shows "dispatch mux env r m p st = dispatch mux' env r m p st"
  unfolding dispatch_def by (simp only: chi_like_unique[OF assms])

text \<open>A router of this kind.\<close>

definition demo_router :: router where
  "demo_router method path =
     (let g = (case find (\<lambda>g. below (mn_Prefix g) path) [mounts ! 3, mounts ! 4, mounts ! 5, mounts ! 2, mounts ! 1] of Some g \<Rightarrow> g | None \<Rightarrow> mounts ! 0)
      in (g, find (\<lambda>r. fits g r method path) (mn_Routes g)))"

lemma demo_router_chi: "chi_like demo_router"
proof -
  have "chosen m p (fst (demo_router m p)) (snd (demo_router m p))" for m p
  proof -
    define g where "g = fst (demo_router m p)"
    have d: "demo_router m p = (g, find (\<lambda>r. fits g r m p) (mn_Routes g))" by (simp add: g_def demo_router_def Let_def)
    have "g \<in> set mounts \<and> below (mn_Prefix g) p \<and> (\<forall>g' \<in> set mounts. below (mn_Prefix g') p \<longrightarrow> length (mn_Prefix g') \<le> length (mn_Prefix g))"
      unfolding g_def demo_router_def Let_def fst_conv mounts_def by (simp add: below_def[of "[]"])
    moreover have "case find Q rs of Some r \<Rightarrow> r \<in> set rs \<and> Q r | None \<Rightarrow> \<not> list_ex Q rs" for Q and rs :: "route list"
      by (induction rs) (auto split: option.splits)
    from this[of "\<lambda>r. fits g r m p" "mn_Routes g"] calculation show ?thesis unfolding d fst_conv snd_conv chosen_def
      by (cases "find (\<lambda>r. fits g r m p) (mn_Routes g)") simp_all
  qed
  then show ?thesis by (simp add: chi_like_def)
qed

theorem routing_deterministic_witness:
  "dispatch demo_router env (req :: http_request) ''GET'' ''/v1/incidents/i1/context'' st = dispatch demo_router env req ''GET'' ''/v1/incidents/i1/context'' st"
  by (rule routing_deterministic[OF demo_router_chi demo_router_chi]) code_simp

section \<open>No route is lost\<close>

lemma split_on_ne [simp]: "split_on x p \<noteq> []"
  by (induction p) (auto split: list.splits)

lemma segments_ne [simp]: "segments p \<noteq> []"
  by (simp add: segments_def)

lemma segments_append: "segments (a @ CHR ''/'' # b) = segments a @ segments b"
  unfolding segments_def by (induction a) (auto split: list.splits)

lemma Join_first: "Join ((c # w) # ws) s = c # Join (w # ws) s"
  by (cases ws) simp_all

lemma segments_Join: "Join (segments p) ''/'' = p"
  unfolding segments_def
proof (induction p)
  case (Cons c p)
  then show ?case by (cases "split_on CHR ''/'' p") (simp_all add: Join_first)
qed simp

lemma Join_append: "as \<noteq> [] \<Longrightarrow> Join (as @ b # bs) ''/'' = Join as ''/'' @ CHR ''/'' # Join (b # bs) ''/''"
  by (induction as rule: list_nonempty_induct) (auto simp: neq_Nil_conv)

lemma below_cases:
  assumes "prefix \<noteq> []" shows "below prefix p \<longleftrightarrow> p = prefix \<or> (\<exists>q. p = prefix @ CHR ''/'' # q)"
proof -
  have "HasPrefix p (prefix @ ''/'') \<longleftrightarrow> (\<exists>q. p = (prefix @ ''/'') @ q)" for p :: string
    using append_take_drop_id[of "length (prefix @ ''/'')" p] unfolding HasPrefix_def by (metis append_eq_conv_conj)
  then show ?thesis using assms by (simp add: below_def)
qed

lemma below_segments:
  assumes "prefix \<noteq> []"
  shows "below prefix p \<longleftrightarrow> take (length (segments prefix)) (segments p) = segments prefix"
proof
  assume "below prefix p"
  then show "take (length (segments prefix)) (segments p) = segments prefix" unfolding below_cases[OF assms] by (auto simp: segments_append)
next
  assume t: "take (length (segments prefix)) (segments p) = segments prefix"
  define rest where "rest = drop (length (segments prefix)) (segments p)"
  have s: "segments p = segments prefix @ rest" using append_take_drop_id[of "length (segments prefix)" "segments p"] t by (simp add: rest_def)
  have "p = Join (segments prefix @ rest) ''/''" using segments_Join[of p] s by simp
  also have "\<dots> = prefix \<or> \<dots> = prefix @ CHR ''/'' # Join rest ''/''"
    using segments_Join[of prefix] Join_append[OF segments_ne[of prefix]] by (cases rest) simp_all
  finally show "below prefix p" unfolding below_cases[OF assms] by blast
qed

text \<open>No path fits a route of one group and lies below a longer prefix than the one of the group.\<close>

definition own_prefix :: "mount \<Rightarrow> route \<Rightarrow> bool" where
  "own_prefix g r \<longleftrightarrow>
     (let pat = segments (mn_Prefix g @ fst (snd r)) in
      list_all (\<lambda>g'. length (mn_Prefix g') \<le> length (mn_Prefix g) \<or>
         \<not> overlap (take (length (segments (mn_Prefix g'))) pat) (segments (mn_Prefix g'))) mounts \<and>
      (mn_Prefix g = [] \<or> take (length (segments (mn_Prefix g))) pat = segments (mn_Prefix g) \<and> \<not> list_ex is_param (segments (mn_Prefix g))))"

lemma mounts_own: "list_all (\<lambda>g. list_all (own_prefix g) (mn_Routes g)) mounts"
  by code_simp

lemma fits_take: "list_all2 seg_fits pat ss \<Longrightarrow> list_all2 seg_fits (take n pat) (take n ss)"
  by (simp add: list_all2_conv_all_nth)

lemma fits_exact: "list_all2 seg_fits ps ss \<Longrightarrow> \<not> list_ex is_param ps \<Longrightarrow> ss = ps"
  by (induction ps ss rule: list_all2_induct) (auto simp: seg_fits_def)

lemma fits_below:
  assumes "own_prefix g r" "fits g r m p" shows "below (mn_Prefix g) p"
proof (cases "mn_Prefix g = []")
  case False
  with assms show ?thesis unfolding below_segments[OF False]
    using fits_exact[OF fits_take[of "segments (mn_Prefix g @ fst (snd r))" "segments p" "length (segments (mn_Prefix g))"]]
    by (auto simp: own_prefix_def fits_def Let_def split: prod.splits)
qed (simp add: below_def)

lemma fits_longest:
  assumes "own_prefix g r" "fits g r m p" "g' \<in> set mounts" "below (mn_Prefix g') p"
  shows "length (mn_Prefix g') \<le> length (mn_Prefix g)"
proof (rule ccontr)
  assume l: "\<not> ?thesis"
  then have "mn_Prefix g' \<noteq> []" by auto
  with assms(4) have t: "take (length (segments (mn_Prefix g'))) (segments p) = segments (mn_Prefix g')" by (simp add: below_segments)
  have "list_all2 seg_fits (segments (mn_Prefix g @ fst (snd r))) (segments p)" using assms(2) by (auto simp: fits_def split: prod.splits)
  from fits_take[OF this, of "length (segments (mn_Prefix g'))"] t
  have "list_all2 seg_fits (take (length (segments (mn_Prefix g'))) (segments (mn_Prefix g @ fst (snd r)))) (segments (mn_Prefix g'))" by simp
  then have "overlap (take (length (segments (mn_Prefix g'))) (segments (mn_Prefix g @ fst (snd r)))) (segments (mn_Prefix g'))"
    by (rule fits_overlap) (simp add: list.rel_refl seg_fits_def)
  with assms(1,3) l show False by (auto simp: own_prefix_def Let_def list_all_iff)
qed

text \<open>
  C13. No route is lost: whatever the router, a request without empty segments that fits a route of the table is handled
  in the group of the route, and once the gate of the group lets it pass, it is the handler of the route that runs;
  no route is hidden by another one or by a group mounted deeper.
\<close>

theorem routes_live:
  assumes "chi_like mux" "g \<in> set mounts" "rt \<in> set (mn_Routes g)" "fits g rt m p" "\<not> list_ex (\<lambda>s. s = []) (tl (segments p))"
    and "dispatch mux env r m p st = ((h, v), st')"
  shows "mux m p = (g, Some rt) \<and> (case v of Run f who \<Rightarrow> f = snd (snd rt) \<and> (who = None \<longleftrightarrow> mn_Gate g = Open) | NoRoute \<Rightarrow> False | Refuse c e \<Rightarrow> mn_Gate g \<noteq> Open)"
proof -
  obtain g' ro where mm: "mux m p = (g', ro)" by (cases "mux m p") blast
  have c: "chosen m p g' ro" using assms(1) mm unfolding chi_like_def by (metis fst_conv snd_conv)
  have own: "own_prefix g rt" using mounts_own assms(2,3) by (simp add: list_all_iff)
  have "g' = g" using c assms(2) fits_longest[OF own assms(4), of g'] fits_below[OF own assms(4)]
    by (intro mount_unique[of g' g p]) (auto simp: chosen_def intro: le_antisym)
  moreover have "no_clash (map (shape g) (mn_Routes g))" using mounts_no_clash assms(2) by (simp add: list_all_iff)
  note u = no_clash_unique[OF this _ assms(3) _ assms(4)]
  have "ro = Some rt"
  proof (cases ro)
    case None
    then show ?thesis using c assms(3-5) \<open>g' = g\<close> by (auto simp: chosen_def list_ex_iff)
  next
    case (Some x)
    then have "x \<in> set (mn_Routes g)" "fits g x m p" using c \<open>g' = g\<close> by (simp_all add: chosen_def)
    then show ?thesis using u Some by blast
  qed
  ultimately have e: "mux m p = (g, Some rt)" using mm by simp
  show ?thesis using assms(6) unfolding e by (cases "mn_Gate g") (auto simp: e dispatch_def Let_def split: prod.splits reply.splits)
qed

section \<open>Who reaches a handler\<close>

text \<open>The handlers without authentication in front of them: the four of the process, the shared dashboard and Slack's.\<close>

definition open_handlers :: "string list" where
  "open_handlers =
     [''Health'', ''Ready'', ''Version'', ''MetricsHandler'', ''GetSharedDashboard'',
      ''ChatOpsSlackInstall'', ''ChatOpsSlackCallback'', ''ChatOpsSlackCommands'', ''ChatOpsSlackInteractivity'']"

definition names :: "route list \<Rightarrow> string list" where
  "names rs = map (\<lambda>(m, pat, f). f) rs"

lemma gate_handlers:
  "list_all (\<lambda>g. case mn_Gate g of
      Open \<Rightarrow> list_all (\<lambda>f. list_ex ((=) f) open_handlers) (names (mn_Routes g))
    | KeyGate \<Rightarrow> list_all (\<lambda>f. \<not> list_ex ((=) f) (names admin_routes)) (names (mn_Routes g))
    | AdminGate \<Rightarrow> True) mounts"
  "list_all (\<lambda>f. \<not> list_ex ((=) f) (names admin_routes)) open_handlers"
  by code_simp+

lemma headers_kept: "k \<notin> fst ` set kvs \<Longrightarrow> put_all h kvs k = h k"
  by (induction kvs arbitrary: h) (auto simp: put_all_def)

lemma limit_headers:
  assumes "fst (RateLimit have cfg q rd) = Serve hs \<or> fst (RateLimit have cfg q rd) = TooMany hs" "k \<in> fst ` set hs"
  shows "k \<in> {''X-RateLimit-Limit'', ''X-RateLimit-Remaining'', ''X-RateLimit-Reset'', ''Retry-After''}"
  using assms by (auto simp: RateLimit_def rl_headers_def Let_def split: if_splits prod.splits)

lemma put_limit:
  "RateLimit have cfg q rd = (Serve hs, rd') \<Longrightarrow> put_all h hs ''X-Frame-Options'' = h ''X-Frame-Options''"
  "RateLimit have cfg q rd = (TooMany hs, rd') \<Longrightarrow> put_all h hs ''X-Frame-Options'' = h ''X-Frame-Options''"
  using limit_headers[of "have" cfg q rd hs "''X-Frame-Options''"] by (auto intro!: headers_kept)

lemma key_gate_headers: "key_gate env r h st = ((h', v), st') \<Longrightarrow> h' ''X-Frame-Options'' = h ''X-Frame-Options''"
  unfolding key_gate_def by (auto split: prod.splits reply.splits rl_verdict.splits intro: put_limit)



text \<open>A handler that only groups behind the key gate have runs for the identity of a live key.\<close>

lemma keyed_handler:
  assumes "chi_like mux" "dispatch mux env r m p st = ((h, Run f (Some i)), st')"
    and "list_all (\<lambda>g. mn_Gate g = KeyGate \<or> list_all (\<lambda>f. \<not> list_ex ((=) f) fs) (names (mn_Routes g))) mounts" "list_ex ((=) f) fs"
  shows "live_key (se_key env) (ss_keys st) r i"
proof -
  obtain g ro where mm: "mux m p = (g, ro)" by (cases "mux m p") blast
  have c: "chosen m p g ro" using assms(1) mm unfolding chi_like_def by (metis fst_conv snd_conv)
  obtain rt where rt: "ro = Some rt" "f = snd (snd rt)" "mn_Gate g \<noteq> Open"
    using assms(2) mm by (cases "mn_Gate g"; cases ro) (auto simp: dispatch_def Let_def split: prod.splits reply.splits)
  then have "f \<in> set (names (mn_Routes g))" "g \<in> set mounts" using c by (auto simp: chosen_def names_def case_prod_beta)
  then have "mn_Gate g = KeyGate" using assms(3,4) by (auto simp: list_all_iff)
  then have "\<exists>h' st'. key_gate env r (SecureHeaders (se_tls env) r Map.empty) st = ((h', Pass i), st')"
    using assms(2) mm rt by (auto simp: dispatch_def Let_def case_prod_beta prod_eq_iff split: prod.splits reply.splits)
  then show ?thesis using key_gate_live by blast
qed

definition demo_server :: "unit server_env" where
  "demo_server = \<lparr>se_key = demo_env, se_touch = demo_env, se_oidc = demo_oenv, se_issuer = [], se_limit = ''100'',
     se_now = 61 * second, se_later = 61 * second, se_incr_err = False, se_expire_err = False, se_tls = True\<rparr>"

definition demo_keys :: "unit server_state" where
  "demo_keys = \<lparr>ss_keys = [demo_row], ss_redis = Map.empty, ss_jwks = demo_cache\<rparr>"

theorem routes_live_witness:
  "demo_router ''POST'' ''/v1/admin/sessions/s1/roles'' = (mounts ! 5, Some (''POST'', ''/sessions/{id}/roles'', ''AssignWarRoomRole''))"
proof -
  have g: "mounts ! 5 \<in> set mounts" by (simp add: mounts_def)
  have r: "(''POST'', ''/sessions/{id}/roles'', ''AssignWarRoomRole'') \<in> set (mn_Routes (mounts ! 5))" by (simp add: mounts_def admin_routes_def)
  have f: "fits (mounts ! 5) (''POST'', ''/sessions/{id}/roles'', ''AssignWarRoomRole'') ''POST'' ''/v1/admin/sessions/s1/roles''"
    "\<not> list_ex (\<lambda>s. s = []) (tl (segments ''/v1/admin/sessions/s1/roles''))" by code_simp+
  obtain h v s where d: "dispatch demo_router demo_server demo_request ''POST'' ''/v1/admin/sessions/s1/roles'' demo_keys = ((h, v), s)"
    by (metis surj_pair)
  from routes_live[OF demo_router_chi g r f d] show ?thesis by blast
qed


section \<open>What the gates leave out\<close>

text \<open>Requests below the admin prefix are never counted by the limiter: they leave its counters as they were.\<close>

lemma admin_not_limited:
  assumes "chi_like mux" "below ''/v1/admin'' p" "dispatch mux env r m p st = (hv, st')"
  shows "ss_redis st' = ss_redis st"
proof -
  obtain g ro where mm: "mux m p = (g, ro)" by (cases "mux m p") blast
  have c: "chosen m p g ro" using assms(1) mm unfolding chi_like_def by (metis fst_conv snd_conv)
  have "mounts ! 5 \<in> set mounts" "mn_Prefix (mounts ! 5) = ''/v1/admin''" by (simp_all add: mounts_def)
  with c assms(2) have "length ''/v1/admin'' \<le> length (mn_Prefix g)" unfolding chosen_def by metis
  then have "mn_Gate g \<noteq> KeyGate \<or> mn_Prefix g = ''/loki/api/v1''" using c by (auto simp: chosen_def mounts_def)
  moreover have "mn_Prefix g \<noteq> ''/loki/api/v1''"
  proof
    assume "mn_Prefix g = ''/loki/api/v1''"
    with c have "below ''/loki/api/v1'' p" by (simp add: chosen_def)
    from below_take[OF this, THEN arg_cong[where f = "take 2"]] below_take[OF assms(2), THEN arg_cong[where f = "take 2"]]
    show False by simp
  qed
  ultimately show ?thesis using assms(3) mm
    by (cases "mn_Gate g") (auto simp: dispatch_def Let_def admin_gate_def split: prod.splits)
qed

text \<open>A key that may only ingest reaches the older translation endpoint, which asks for no scope.\<close>

lemma ingest_key_translates:
  "snd (fst (dispatch demo_router demo_server demo_request ''POST'' ''/v1/query/nl'' (demo_keys\<lparr>ss_keys := [demo_row\<lparr>k_Scopes := [''logs:ingest'']\<rparr>]\<rparr>))) =
     Run ''NLQuery'' (Some \<lparr>ctxTenant = ''acme'', ctxScopes = [''logs:ingest'']\<rparr>)"
  by code_simp

section \<open>The probes\<close>

lemma Ready_iff: "fst (Ready pg rd ch nt) = 200 \<longleftrightarrow> pg = None \<and> rd = None \<and> ch = None \<and> nt = None"
  by (simp add: Ready_def Let_def)

end
