(* ===== verification/Ql_Cli.thy ===== *)
theory Ql_Cli
  imports Loki_Compile Go_Url Go_Rows
begin

text \<open>
  The command line client, \<open>cmd/ql/main.go\<close>: flags, the six commands, the requests they send with the API key, and the
  loop of the live poll. The environment and the exchanges over HTTP are arguments; \<open>qw_do n\<close> answers the n-th one.
  \<open>qw_bad\<close> tells the addresses for which \<open>http.NewRequest\<close> fails: its error is dropped and the nil request used.
\<close>

section \<open>Requests\<close>

record ql_request =
  qr_Method :: string
  qr_URL :: string
  qr_Headers :: "(string \<times> string) list"
  qr_Body :: string

record ql_world =
  qw_key :: string
  qw_url :: string
  qw_ingest :: string
  qw_bad :: "string \<Rightarrow> bool"
  qw_do :: "nat \<Rightarrow> ql_request \<Rightarrow> (goerror, int \<times> string) outcome"
  qw_indent :: "string \<Rightarrow> string option"
  qw_marshal :: "(string \<times> string) list \<Rightarrow> string"
  qw_rows :: "string \<Rightarrow> row list option"
  qw_show :: "any \<Rightarrow> string"
  qw_duration :: "string \<Rightarrow> bool"

definition envOr :: "string \<Rightarrow> string \<Rightarrow> string" where
  "envOr v def = (if v \<noteq> [] then v else def)"

definition queryBase :: "ql_world \<Rightarrow> string" where
  "queryBase w = envOr (qw_url w) ''http://localhost:8100''"

definition ingestBase :: "ql_world \<Rightarrow> string" where
  "ingestBase w = envOr (qw_ingest w) ''http://localhost:8101''"

text \<open>The body of the answer, and the request when one was sent.\<close>

type_synonym sent = "(goerror, string) outcome \<times> ql_request list"

definition NewRequest :: "ql_world \<Rightarrow> string \<Rightarrow> string \<Rightarrow> string \<Rightarrow> ql_request option" where
  "NewRequest w m u body = (if qw_bad w u then None else Some \<lparr>qr_Method = m, qr_URL = u, qr_Headers = [], qr_Body = body\<rparr>)"

definition send :: "ql_world \<Rightarrow> nat \<Rightarrow> ql_request option \<Rightarrow> sent" where
  "send w n req =
     (if qw_key w = [] then (Err (Errorf ''QEET_LOGS_API_KEY is not set'' []), [])
      else case req of
        None \<Rightarrow> (Panic, [])
      | Some r \<Rightarrow>
          let r = r\<lparr>qr_Headers := qr_Headers r @ [(''X-Qeet-Api-Key'', qw_key w), (''Accept'', ''application/json'')]\<rparr> in
          (case qw_do w n r of
             Ok (status, body) \<Rightarrow> if status \<ge> 400 then Err (Errorf ''HTTP %d: %s'' [show_int status, body]) else Ok body
           | Err e \<Rightarrow> Err e | Panic \<Rightarrow> Panic, [r]))"

definition doGet :: "ql_world \<Rightarrow> nat \<Rightarrow> string \<Rightarrow> (string \<times> string) list \<Rightarrow> sent" where
  "doGet w n base q = send w n (NewRequest w ''GET'' (base @ (if q \<noteq> [] then ''?'' @ Encode q else [])) [])"

definition doPost :: "ql_world \<Rightarrow> nat \<Rightarrow> string \<Rightarrow> string \<Rightarrow> string \<Rightarrow> sent" where
  "doPost w n u contentType body =
     (case NewRequest w ''POST'' u body of
        None \<Rightarrow> (Panic, [])
      | Some r \<Rightarrow> send w n (Some (r\<lparr>qr_Headers := qr_Headers r @ [(''Content-Type'', contentType)]\<rparr>)))"

section \<open>Flags\<close>

text \<open>
  \<open>flag.FlagSet.Parse\<close> for flags with a value: the values set and the arguments behind the flags, or the end of the
  process with status 0 (help) or 2. \<open>valid\<close> is the conversion of the value of a flag.
\<close>

datatype flags = Parsed "string \<rightharpoonup> string" "string list" | Quit int

fun parse_flags :: "(string \<Rightarrow> string \<Rightarrow> bool) \<Rightarrow> string list \<Rightarrow> (string \<rightharpoonup> string) \<Rightarrow> string list \<Rightarrow> flags" where
  "parse_flags valid known m [] = Parsed m []"
| "parse_flags valid known m (s # args) =
     (if length s < 2 \<or> hd s \<noteq> CHR ''-'' then Parsed m (s # args)
      else if s = ''--'' then Parsed m args
      else let name = drop (if s ! 1 = CHR ''-'' then 2 else 1) s in
        if name = [] \<or> hd name = CHR ''-'' \<or> hd name = CHR ''='' then Quit 2
        else let key = takeWhile (\<lambda>c. c \<noteq> CHR ''='') name in
          if key \<notin> set known then Quit (if key = ''help'' \<or> key = ''h'' then 0 else 2)
          else if CHR ''='' \<in> set name then
            (let v = drop (Suc (length key)) name in if valid key v then parse_flags valid known (m(key \<mapsto> v)) args else Quit 2)
          else (case args of
              v # rest \<Rightarrow> if valid key v then parse_flags valid known (m(key \<mapsto> v)) rest else Quit 2
            | [] \<Rightarrow> Quit 2))"

definition flag_or :: "(string \<rightharpoonup> string) \<Rightarrow> string \<Rightarrow> string \<Rightarrow> string" where
  "flag_or m k def = (case m k of Some v \<Rightarrow> v | None \<Rightarrow> def)"

section \<open>Commands\<close>

text \<open>What a command printed and how it ended; a crash is the use of the nil request.\<close>

datatype ending = Finished | Failed goerror | Crashed | Exited int

type_synonym command = "string \<times> ending"

definition new_line :: string where "new_line = [CHR 0x0A]"

definition print_body :: "(string \<Rightarrow> string) \<Rightarrow> sent \<Rightarrow> command \<times> ql_request list" where
  "print_body f s =
     (case s of (Ok body, rs) \<Rightarrow> ((f body @ new_line, Finished), rs) | (Err e, rs) \<Rightarrow> (([], Failed e), rs) | (Panic, rs) \<Rightarrow> (([], Crashed), rs))"

definition cmdQuery :: "ql_world \<Rightarrow> string list \<Rightarrow> command \<times> ql_request list" where
  "cmdQuery w args =
     (case parse_flags (\<lambda>_ _. True) [''format''] Map.empty args of
        Quit c \<Rightarrow> (([], Exited c), [])
      | Parsed m rest \<Rightarrow>
          let q = (case rest of [] \<Rightarrow> [] | a # _ \<Rightarrow> a) in
          if q = [] then (([], Failed (Errorf (''usage: ql query '' @ [CHR 0x22] @ ''<LogQL++>'' @ [CHR 0x22]) [])), [])
          else print_body id (doGet w 0 (queryBase w @ ''/v1/query'') [(''q'', q), (''format'', flag_or m ''format'' ''json'')]))"

definition cmdSend :: "ql_world \<Rightarrow> string list \<Rightarrow> command \<times> ql_request list" where
  "cmdSend w args =
     (case parse_flags (\<lambda>_ _. True) [''service'', ''level'', ''message'', ''trace''] Map.empty args of
        Quit c \<Rightarrow> (([], Exited c), [])
      | Parsed m rest \<Rightarrow>
          let service = flag_or m ''service'' []; message = flag_or m ''message'' []; trace = flag_or m ''trace'' [] in
          if service = [] \<or> message = [] then (([], Failed (Errorf ''usage: ql send --service S --message M [--level L] [--trace T]'' [])), [])
          else let rec = [(''service'', service), (''level'', flag_or m ''level'' ''info''), (''message'', message)] @
                 (if trace \<noteq> [] then [(''trace_id'', trace)] else [])
            in print_body id (doPost w 0 (ingestBase w @ ''/v1/ingest'') ''application/json'' (qw_marshal w rec)))"

definition set_flag :: "(string \<rightharpoonup> string) \<Rightarrow> string \<Rightarrow> (string \<times> string) list" where
  "set_flag m k = (if flag_or m k [] \<noteq> [] then [(k, flag_or m k [])] else [])"

definition cmdGet :: "ql_world \<Rightarrow> string \<Rightarrow> string list \<Rightarrow> string \<Rightarrow> command \<times> ql_request list" where
  "cmdGet w path args flagName =
     (case parse_flags (\<lambda>_ _. True) [flagName, ''since''] Map.empty args of
        Quit c \<Rightarrow> (([], Exited c), [])
      | Parsed m rest \<Rightarrow>
          print_body (\<lambda>body. case qw_indent w body of Some s \<Rightarrow> s | None \<Rightarrow> body)
            (doGet w 0 (queryBase w @ path) (set_flag m flagName @ set_flag m ''since'')))"

section \<open>The live poll\<close>

definition escapeSingle_ql :: "string \<Rightarrow> string" where
  "escapeSingle_ql s = concat (map (\<lambda>r. if r = squote then [backslash, r] else [r]) s)"

definition tail_query :: "string \<Rightarrow> string" where
  "tail_query service =
     ''SELECT id, timestamp, level, message FROM logs WHERE service = '' @ squote # escapeSingle_ql service @ squote # '' ORDER BY timestamp DESC LIMIT 20''"

text \<open>The new rows of an answer, and the identifiers seen after it.\<close>

fun new_rows :: "string list \<Rightarrow> row list \<Rightarrow> row list \<times> string list" where
  "new_rows seen [] = ([], seen)"
| "new_rows seen (r # rs) =
     (let id = str_of (cell r ''id'') in
      if id = [] \<or> id \<in> set seen then new_rows seen rs
      else let (out, s) = new_rows (id # seen) rs in (r # out, s))"

definition tail_line :: "ql_world \<Rightarrow> row \<Rightarrow> string" where
  "tail_line w r =
     qw_show w (cell r ''timestamp'') @ '' ['' @ qw_show w (cell r ''level'') @ ''] '' @ qw_show w (cell r ''message'') @ new_line"

text \<open>
  The first \<open>k\<close> rounds of the loop, which never returns by itself: the rows printed so far, and how it ended, if it did.
\<close>

fun tail_rounds :: "ql_world \<Rightarrow> string \<Rightarrow> nat \<Rightarrow> nat \<Rightarrow> string list \<Rightarrow> row list \<times> (goerror, unit) outcome" where
  "tail_rounds w q 0 n seen = ([], Ok ())"
| "tail_rounds w q (Suc k) n seen =
     (case fst (doGet w n (queryBase w @ ''/v1/query'') [(''q'', q)]) of
        Err e \<Rightarrow> ([], Err e)
      | Panic \<Rightarrow> ([], Panic)
      | Ok body \<Rightarrow>
          (let (out, seen') = (case qw_rows w body of Some rows \<Rightarrow> new_rows seen (rev rows) | None \<Rightarrow> ([], seen));
               (outs, e) = tail_rounds w q k (Suc n) seen'
           in (out @ outs, e)))"

definition cmdTail :: "ql_world \<Rightarrow> nat \<Rightarrow> string list \<Rightarrow> command" where
  "cmdTail w k args =
     (case parse_flags (\<lambda>f v. f = ''interval'' \<longrightarrow> qw_duration w v) [''service'', ''interval''] Map.empty args of
        Quit c \<Rightarrow> ([], Exited c)
      | Parsed m rest \<Rightarrow>
          let service = flag_or m ''service'' [] in
          if service = [] then ([], Failed (Errorf ''usage: ql tail --service S'' []))
          else let (out, r) = tail_rounds w (tail_query service) k 0 [] in
            (concat (map (tail_line w) out), (case r of Ok _ \<Rightarrow> Finished | Err e \<Rightarrow> Failed e | Panic \<Rightarrow> Crashed)))"

text \<open>The exit status of the process; a Go panic exits with 2.\<close>

definition exit_status :: "ending \<Rightarrow> int" where
  "exit_status d = (case d of Finished \<Rightarrow> 0 | Failed _ \<Rightarrow> 1 | Crashed \<Rightarrow> 2 | Exited c \<Rightarrow> c)"

definition ql_main :: "ql_world \<Rightarrow> nat \<Rightarrow> string list \<Rightarrow> command" where
  "ql_main w k args =
     (case args of
        [] \<Rightarrow> ([], Exited 2)
      | cmd # rest \<Rightarrow>
          if cmd = ''query'' then fst (cmdQuery w rest)
          else if cmd = ''send'' then fst (cmdSend w rest)
          else if cmd = ''tail'' then cmdTail w k rest
          else if cmd = ''incidents'' then fst (cmdGet w ''/v1/incidents'' rest ''status'')
          else if cmd = ''topology'' then fst (cmdGet w ''/v1/topology'' rest ''service'')
          else if cmd = ''rca'' then fst (cmdGet w ''/v1/rca'' rest ''service'')
          else if cmd = ''-h'' \<or> cmd = ''--help'' \<or> cmd = ''help'' then ([], Exited 0)
          else ([], Exited 2))"

section \<open>The live poll prints each row once\<close>

text \<open>The rows of the answers of the first \<open>k\<close> rounds, up to the one that fails.\<close>

fun answered :: "ql_world \<Rightarrow> string \<Rightarrow> nat \<Rightarrow> nat \<Rightarrow> row list" where
  "answered w q 0 n = []"
| "answered w q (Suc k) n =
     (case fst (doGet w n (queryBase w @ ''/v1/query'') [(''q'', q)]) of
        Ok body \<Rightarrow> (case qw_rows w body of Some rows \<Rightarrow> rows | None \<Rightarrow> []) @ answered w q k (Suc n)
      | _ \<Rightarrow> [])"

abbreviation row_id :: "row \<Rightarrow> string" where
  "row_id r \<equiv> str_of (cell r ''id'')"

lemma merge_ids:
  "A = R - {[]} - S \<Longrightarrow> S1 = S \<union> A \<Longrightarrow> B = T - {[]} - S1 \<Longrightarrow> A \<union> B = R \<union> T - {[]} - S \<and> A \<inter> B = {}"
  by blast

lemma insert_id:
  "A = R - {[]} - insert i S \<Longrightarrow> S1 = insert i S \<union> A \<Longrightarrow> i \<noteq> [] \<Longrightarrow> i \<notin> S \<Longrightarrow>
   insert i A = insert i R - {[]} - S \<and> i \<notin> A \<and> S1 = S \<union> insert i A"
  by blast

lemma new_rows_spec:
  assumes "new_rows seen rs = (out, seen')"
  shows "distinct (map row_id out) \<and> set out \<subseteq> set rs \<and> row_id ` set out = row_id ` set rs - {[]} - set seen \<and> set seen' = set seen \<union> row_id ` set out"
  using assms
proof (induction rs arbitrary: seen out seen')
  case (Cons r rs)
  show ?case
  proof (cases "row_id r = [] \<or> row_id r \<in> set seen")
    case True
    then have "new_rows seen rs = (out, seen')" using Cons.prems by (simp add: Let_def)
    from Cons.IH[OF this] True show ?thesis by (simp add: insert_Diff_if subset_insertI2) blast?
  next
    case False
    obtain out' s where o1: "new_rows (row_id r # seen) rs = (out', s)" by fastforce
    then have o2: "out = r # out'" "seen' = s" using Cons.prems False by (simp_all add: Let_def)
    note ih = Cons.IH[OF o1, unfolded list.set(2)]
    note e = ih[THEN conjunct1] ih[THEN conjunct2, THEN conjunct1] ih[THEN conjunct2, THEN conjunct2, THEN conjunct1]
      ih[THEN conjunct2, THEN conjunct2, THEN conjunct2]
    have "row_id r \<noteq> []" "row_id r \<notin> set seen" using False by blast+
    note i = insert_id[OF e(3,4) this]
    show ?thesis unfolding o2
    proof (intro conjI)
      show "distinct (map row_id (r # out'))" using e(1) i by (simp only: list.map distinct.simps set_map) simp
      show "set (r # out') \<subseteq> set (r # rs)" using e(2) by auto
      show "row_id ` set (r # out') = row_id ` set (r # rs) - {[]} - set seen" using i by (simp only: list.set image_insert)
      show "set s = set seen \<union> row_id ` set (r # out')" using i by (simp only: list.set image_insert)
    qed
  qed
qed simp

lemma tail_rounds_spec:
  "tail_rounds w q k n seen = (out, e) \<Longrightarrow>
     distinct (map row_id out) \<and> set out \<subseteq> set (answered w q k n) \<and> row_id ` set out = row_id ` set (answered w q k n) - {[]} - set seen"
proof (induction w q k n seen arbitrary: out e rule: tail_rounds.induct)
  case (2 w q k n seen)
  show ?case
  proof (cases "fst (doGet w n (queryBase w @ ''/v1/query'') [(''q'', q)])")
    case (Ok body)
    obtain o1 s1 where s: "(case qw_rows w body of Some rows \<Rightarrow> new_rows seen (rev rows) | None \<Rightarrow> ([], seen)) = (o1, s1)" by fastforce
    obtain o2 e2 where t: "tail_rounds w q k (Suc n) s1 = (o2, e2)" by fastforce
    have out: "out = o1 @ o2" using 2(2) Ok s t by simp
    define rows where "rows = (case qw_rows w body of Some rows \<Rightarrow> rows | None \<Rightarrow> [])"
    have "distinct (map row_id o1) \<and> set o1 \<subseteq> set rows \<and> row_id ` set o1 = row_id ` set rows - {[]} - set seen \<and> set s1 = set seen \<union> row_id ` set o1"
      using s new_rows_spec[of seen "rev rows" o1 s1] by (cases "qw_rows w body") (auto simp: rows_def)
    note one = this
    have two: "distinct (map row_id o2) \<and> set o2 \<subseteq> set (answered w q k (Suc n)) \<and> row_id ` set o2 = row_id ` set (answered w q k (Suc n)) - {[]} - set s1"
      using 2(1)[OF Ok _ _ t] s by simp
    have ans: "answered w q (Suc k) n = rows @ answered w q k (Suc n)" using Ok by (simp add: rows_def)
    have "row_id ` set o1 \<union> row_id ` set o2 = row_id ` set rows \<union> row_id ` set (answered w q k (Suc n)) - {[]} - set seen \<and>
        row_id ` set o1 \<inter> row_id ` set o2 = {}"
      using one two by (intro merge_ids) simp_all
    then show ?thesis using one two unfolding out ans by (simp add: image_Un le_supI1 le_supI2)
  qed (use 2(2) in auto)
qed auto

text \<open>
  The live poll shows every row once: over any number of rounds, whatever the answers, however they overlap, the
  rows printed have distinct identifiers, and those are exactly the identifiers of the rows answered up to the
  round that failed; without an API key nothing is asked.
\<close>

theorem tail_prints_once:
  "case tail_rounds w q k 0 [] of (out, r) \<Rightarrow>
     distinct (map (\<lambda>r. str_of (cell r ''id'')) out) \<and> set out \<subseteq> set (answered w q k 0) \<and>
     (\<lambda>r. str_of (cell r ''id'')) ` set out = (\<lambda>r. str_of (cell r ''id'')) ` set (answered w q k 0) - {[]} \<and>
     (if qw_key w = [] \<and> 0 < k then r = Err (Errorf ''QEET_LOGS_API_KEY is not set'' []) \<and> out = [] else True)"
proof -
  obtain out r where t: "tail_rounds w q k 0 [] = (out, r)" by fastforce
  have "r = Err (Errorf ''QEET_LOGS_API_KEY is not set'' []) \<and> out = []" if "qw_key w = []" "0 < k"
    using t that by (cases k) (auto simp: doGet_def send_def)
  then show ?thesis using tail_rounds_spec[OF t] by (simp add: t)
qed

section \<open>The query of the live poll compiles\<close>

definition ql_cols :: "string list" where "ql_cols = [''id'', ''timestamp'', ''level'', ''message'']"

definition ql_items :: "SelectItem list" where
  "ql_items = map (\<lambda>c. zero_SelectItem\<lparr>sel_Field := \<lparr>fld_Parts = [c]\<rparr>\<rparr>) ql_cols"

definition ql_head :: "token list" where
  "ql_head = Tok tIdent ''SELECT'' # butlast (concat (map (\<lambda>c. [Tok tIdent c, Tok tComma '','']) ql_cols)) @
     [Tok tIdent ''FROM'', Tok tIdent ''logs'', Tok tIdent ''WHERE'']"

definition ql_stmt :: "string \<Rightarrow> Stmt" where
  "ql_stmt service = zero_Stmt\<lparr>stmt_Kind := KindSelect, stmt_Select := ql_items, stmt_Table := ''logs'',
     stmt_Where := Some (lpred_expr (LPred ''service'' ''='' (LStr service))),
     stmt_OrderBy := Some \<lparr>ord_Field = \<lparr>fld_Parts = [''timestamp'']\<rparr>, ord_Desc = True\<rparr>, stmt_Limit := 20\<rparr>"

lemma escape_plain_service: "backslash \<notin> set s \<Longrightarrow> squote # escapeSingle_ql s @ [squote] = logqlQuote s"
proof -
  assume "backslash \<notin> set s"
  then have "concat (map (\<lambda>r. if r = squote then [backslash, r] else [r]) s) = escape s"
    by (induction s) (auto simp: escape_char_def)
  then show ?thesis by (simp add: logqlQuote_escape escapeSingle_ql_def)
qed

abbreviation service_is :: "string \<Rightarrow> lpred" where
  "service_is s \<equiv> LPred ''service'' ''='' (LStr s)"

lemma wf_service: "wf_lpred (service_is s)"
  by (simp add: lcols_def Labels_def)

lemma tail_query_text:
  "backslash \<notin> set s \<Longrightarrow> tail_query s =
     ''SELECT id, timestamp, level, message FROM logs WHERE '' @ lpred_text (service_is s) @ '' ORDER BY timestamp '' @ (if True then ''DESC'' else ''ASC'') @ '' LIMIT '' @ show_int 20"
proof -
  assume b: "backslash \<notin> set s"
  have "show_int 20 = ''20''" by code_simp
  moreover have "squote # escapeSingle_ql s @ squote # r = logqlQuote s @ r" for r using escape_plain_service[OF b] by (metis append_Cons append_assoc append_Nil)
  ultimately show ?thesis by (simp add: tail_query_def)
qed

lemma lex_ql_head: "lex_loop (''SELECT id, timestamp, level, message FROM logs WHERE '' @ r) = emits ql_head (lex_loop r)"
  by (simp add: ql_head_def ql_cols_def lex_loop.simps(2) class_codes emit_emits)

lemma lex_tail_query:
  assumes "backslash \<notin> set s"
  shows "lex (tail_query s) = Ok (ql_head @ lpred_toks (service_is s) @ tail_toks True 20)"
proof -
  have "lex_loop (lpred_text (service_is s) @ '' ORDER BY timestamp '' @ (if True then ''DESC'' else ''ASC'') @ '' LIMIT '' @ show_int 20) =
      emits (lpred_toks (service_is s)) (Ok (tail_toks True 20))"
    using lex_lpred[OF wf_service] lex_tail[of 20 True] stops_space(1) by simp
  then show ?thesis unfolding lex_def tail_query_text[OF assms] lex_ql_head by (simp only: emits_Ok)
qed

lemma parse_tail_query:
  assumes "backslash \<notin> set s"
  shows "Parse (tail_query s) = Ok (ql_stmt s)"
proof -
  define W where "W = lpred_toks (service_is s)"
  define p0 where "p0 = \<lparr>p_toks = ql_head @ W @ tail_toks True 20, p_pos = 0\<rparr>"
  define r where "r = Tok tIdent ''logs'' # Tok tIdent ''WHERE'' # W @ tail_toks True 20"
  have g: "or_g W (lpred_expr (service_is s))"
    using conj_g[of "service_is s" "[]"] wf_service[of s] unfolding W_def conj_expr_def by simp
  have a0: "LogQL_Grammar.at p0 (Tok tIdent ''SELECT'' # butlast (concat (map (\<lambda>c. [Tok tIdent c, Tok tComma '','']) ql_cols)) @ Tok tIdent ''FROM'' # r)"
    by (simp add: LogQL_Grammar.at_def p0_def ql_head_def r_def)
  note a1 = at_adv1[OF a0]
  have kf: "kw ''FROM'' (Tok tIdent ''FROM'')" by (simp add: kw_simps)
  from parse_plain_list[OF _ a1 this, of "[]"]
  have sl: "selectList (adv p0 1) = Ok (ql_items, adv p0 8)"
    by (simp add: selectList_def ql_items_def ql_cols_def)
  have "LogQL_Grammar.at (adv p0 8) (Tok tIdent ''FROM'' # r)" using at_adv[OF a1, of 7] by (simp add: ql_cols_def)
  then have a8: "LogQL_Grammar.at (adv p0 8) (Tok tIdent ''FROM'' # Tok tIdent ''logs'' # Tok tIdent ''WHERE'' # W @ Tok tIdent ''ORDER'' # tl (tail_toks True 20))"
    by (simp add: r_def tail_toks_def)
  note fw = parse_from_where[OF a8 g ends_ORDER]
  define q where "q = adv p0 (11 + length W)"
  have "LogQL_Grammar.at p0 ((ql_head @ W) @ tail_toks True 20)" by (simp add: p0_def LogQL_Grammar.at_def)
  from at_adv[OF this, of "11 + length W"] have "LogQL_Grammar.at q (tail_toks True 20)" by (simp add: q_def ql_head_def ql_cols_def)
  from parse_tail[OF this] have tl: "bindO (optGroupBy s p) (\<lambda>(s, p). bindO (optOrderBy s p) (\<lambda>(s, p). optLimit s p)) =
      Ok (s\<lparr>stmt_OrderBy := Some \<lparr>ord_Field = \<lparr>fld_Parts = [''timestamp'']\<rparr>, ord_Desc = True\<rparr>, stmt_Limit := 20\<rparr>, adv p 6) \<and>
      LogQL_Grammar.at (adv p 6) [Tok tEOF []]" if "p = q" for s p using that by (simp add: int64_max_def)
  have st: "statement p0 = selectStmt p0" using at_isKw[OF a0] by (simp add: statement_def kw_simps)
  have "selectStmt p0 = bindO (bindO (fromClause (zero_Stmt\<lparr>stmt_Kind := KindSelect, stmt_Select := ql_items\<rparr>) (adv p0 8)) (\<lambda>(s, p). optWhere s p))
     (\<lambda>(s, p). bindO (optGroupBy s p) (\<lambda>(s, p). bindO (optOrderBy s p) (\<lambda>(s, p). optLimit s p)))"
    using at_next[OF a0] sl by (simp add: selectStmt_def bindO_assoc)
  also have "\<dots> = Ok (ql_stmt s, adv q 6)"
    unfolding fw using tl[OF refl] by (simp add: q_def ql_stmt_def zero_Stmt_def add.commute add.left_commute)
  finally have "statement p0 = Ok (ql_stmt s, adv q 6)" using st by simp
  moreover have "lex (tail_query s) = Ok (p_toks p0)" using lex_tail_query[OF assms] by (simp add: p0_def W_def)
  moreover have "p0 = \<lparr>p_toks = p_toks p0, p_pos = 0\<rparr>" by (simp add: p0_def)
  ultimately show ?thesis using at_cur[OF conjunct2[OF tl[OF refl]]] by (simp add: Parse_def del: parser.simps)
qed

lemma ql_mapField:
  assumes "c \<in> set (''service'' # ql_cols)" shows "\<exists>l. mapField (loki_compiler tenant) \<lparr>fld_Parts = [c]\<rparr> = Ok (c, l)"
proof -
  have "ToLower c = c" "c \<noteq> ''time''" "c \<noteq> ''tenant''" "c \<in> set logsColumns"
    using assms by (auto simp: ql_cols_def logsColumns_def ToLower_def lower_char_def between_def)
  then show ?thesis by (simp add: mapField_def mapField1_def columns_logs)
qed

lemma compile_ql_items: "mapO (selectCols (loki_compiler tenant)) ql_items = Ok (map (\<lambda>c. [(c @ '' AS '' @ c, c)]) ql_cols)"
proof -
  have "selectCols (loki_compiler tenant) (zero_SelectItem\<lparr>sel_Field := \<lparr>fld_Parts = [c]\<rparr>\<rparr>) = Ok [(c @ '' AS '' @ c, c)]"
    if "c \<in> set ql_cols" for c
    using ql_mapField[of c tenant] that
    by (auto simp: selectCols_def compileSelectItem_def zero_SelectItem_def last_part_def aliasOr_def)
  then have "mapO (selectCols (loki_compiler tenant)) (map (\<lambda>c. zero_SelectItem\<lparr>sel_Field := \<lparr>fld_Parts = [c]\<rparr>\<rparr>) cs) = Ok (map (\<lambda>c. [(c @ '' AS '' @ c, c)]) cs)"
    if "set cs \<subseteq> set ql_cols" for cs
    using that by (induction cs) simp_all
  then show ?thesis by (simp add: ql_items_def)
qed

definition tail_sql :: "string \<Rightarrow> string \<Rightarrow> int \<Rightarrow> string" where
  "tail_sql tenant service n =
     ''SELECT '' @ Join (map (\<lambda>c. c @ '' AS '' @ c) ql_cols) '', '' @ '' FROM logs WHERE tenant_id = '' @ quote tenant @
     '' AND (service = '' @ quote service @ '') ORDER BY timestamp DESC LIMIT '' @ show_int n"

lemma compile_ql:
  "compileSelect (loki_compiler tenant) (ql_stmt s) opts =
    Ok \<lparr>c_SQL = tail_sql tenant s (limit (ql_stmt s) opts), c_Columns = ql_cols, c_Kind = KindSelect\<rparr>"
proof -
  have proj: "concat (map (\<lambda>c. [(c @ '' AS '' @ c, c)]) ql_cols) = map (\<lambda>c. (c @ '' AS '' @ c, c)) ql_cols"
    by (induction ql_cols) simp_all
  have "compileExpr (loki_compiler tenant) (lpred_expr (service_is s)) = Ok (lpred_sql (service_is s))" by (rule compile_lpred[OF wf_service])
  then have wh: "whereSQL (loki_compiler tenant) (ql_stmt s) = Ok (''tenant_id = '' @ quote tenant @ '' AND (service = '' @ quote s @ '')'')"
    by (simp add: whereSQL_def ql_stmt_def zero_Stmt_def tenant_guard_def loki_compiler_def)
  obtain l where "mapField (loki_compiler tenant) \<lparr>fld_Parts = [''timestamp'']\<rparr> = Ok (''timestamp'', l)"
    using ql_mapField[of "''timestamp''" tenant] by (auto simp: ql_cols_def)
  then have ob: "orderBySQL (loki_compiler tenant) (stmt_OrderBy (ql_stmt s)) = Ok '' ORDER BY timestamp DESC''"
    by (simp add: orderBySQL_def ql_stmt_def)
  have st: "stmt_Select (ql_stmt s) = ql_items" "stmt_GroupBy (ql_stmt s) = []" by (simp_all add: ql_stmt_def zero_Stmt_def)
  have "map fst (map (\<lambda>c. (c @ '' AS '' @ c, c)) ql_cols) \<noteq> []" by (simp add: ql_cols_def)
  then show ?thesis
    unfolding compileSelect_def st compile_ql_items bindO.simps(1) proj Let_def if_not_P wh ob
    by (simp add: groupBySQL_def tail_sql_def loki_compiler_def comp_def)
qed

text \<open>
  C29. The client and the server agree on the live poll: for every service name without a backslash the query the client
  builds parses and compiles, and the statement selects the four columns it prints, the newest first and no more
  than the limit allows, of exactly that service, under the guard on the tenant of the key.
\<close>

theorem tail_query_compiles:
  assumes "backslash \<notin> set service"
  shows "Compile (tail_query service) tenant opts =
    Ok \<lparr>c_SQL = tail_sql tenant service (limit (zero_Stmt\<lparr>stmt_Limit := 20\<rparr>) opts), c_Columns = ql_cols, c_Kind = KindSelect\<rparr>"
proof -
  have "stmt_Table (ql_stmt service) = ''logs''" "stmt_Kind (ql_stmt service) = KindSelect"
    "limit (ql_stmt service) opts = limit (zero_Stmt\<lparr>stmt_Limit := 20\<rparr>) opts"
    by (simp_all add: ql_stmt_def limit_def)
  then show ?thesis using parse_tail_query[OF assms] compile_ql[of tenant service opts]
    by (simp add: Compile_def tables_def loki_compiler_def[symmetric])
qed

definition demo_opts :: Options where
  "demo_opts = \<lparr>opt_DefaultLimit = 100, opt_MaxLimit = 1000\<rparr>"

theorem tail_query_compiles_witness:
  "\<exists>c. Compile (tail_query ''pay'') ''acme'' demo_opts = Ok c \<and> c_SQL c = tail_sql ''acme'' ''pay'' 20"
proof -
  have b: "backslash \<notin> set ''pay''" by code_simp
  have "limit (zero_Stmt\<lparr>stmt_Limit := 20\<rparr>) demo_opts = 20" by code_simp
  with tail_query_compiles[OF b, of "''acme''" demo_opts] show ?thesis by simp
qed

text \<open>A name that ends in a backslash leaves the literal open, so the server refuses the query.\<close>

lemma tail_query_backslash: "\<exists>e. Parse (tail_query (''pay'' @ [backslash])) = Err e"
proof -
  have "(case Parse (tail_query (''pay'' @ [backslash])) of Err e \<Rightarrow> True | _ \<Rightarrow> False)" by code_simp
  then show ?thesis by (cases "Parse (tail_query (''pay'' @ [backslash]))") simp_all
qed

text \<open>An address that does not parse crashes the client instead of being reported.\<close>

lemma bad_address_crashes:
  "qw_key w \<noteq> [] \<Longrightarrow> qw_bad w (queryBase w @ ''/v1/incidents'') \<Longrightarrow> ql_main w k [''incidents''] = ([], Crashed)"
  by (simp add: ql_main_def cmdGet_def set_flag_def flag_or_def doGet_def send_def NewRequest_def print_body_def)

end
