(* ===== verification/Spec2Isabelle.thy ===== *)
theory Spec2Isabelle
  imports LogQL_Grammar Alert_Invariants Lifecycle Routing_Sim Rate_Limit Ai_Gateway War_Room Dlq Postmortem Admin_Tables Billing_Laws Investigate Copilot Ch_Client Erasure Mcp Chat_Ops Prom_Api Loki_Api Api_Server Ql_Cli
begin

text \<open>
  A verification development of Qeet Logs, a multi-tenant log, metric and trace store: the Go
  packages under \<open>src/domains\<close>, \<open>src/platform\<close> and \<open>src/cmd\<close> that compile user queries to
  ClickHouse SQL, evaluate alert rules and page, derive the service graph, move storage between
  tiers, and authenticate and limit requests.

  \<^bold>\<open>Parts of the program and how they interact.\<close> A request reaches the query API through the
  authentication, scope and rate-limit middleware; the identity it resolves supplies the tenant of
  every query. LogQL++ text is lexed, parsed and compiled to one SELECT under a forced tenant
  guard; the Loki selector of a Grafana data source is first translated to LogQL++; PromQL has its
  own compiler on the same quoting; the live tail evaluates the parsed WHERE clause on records
  instead of compiling it. Besides the API, the alerter runs cycles over the stored rules: each
  cycle evaluates rules and sweeps for anomalies, correlates firings into incidents (using the
  service graph), pages, resolves and dispatches webhooks. The lifecycle mover plans and issues
  partition moves.

  \<^bold>\<open>Shared vocabulary.\<close>
  \<^item> \<open>Go_Prelude\<close>: outcomes of Go calls (value, error, panic), strings as byte lists, decimal
    numbers, \<open>int64\<close> wrap-around, the theorem collections.
  \<^item> \<open>Go_Float\<close>: \<open>float64\<close> as NaN, infinities, signed zeros and rationals, each operation the exact
    result rounded half to even to 53 bits; rounding is monotone, which carries the bounds.
  \<^item> \<open>Go_Rows\<close>: rows of the ClickHouse client and the conversions of their cells.
  \<^item> \<open>Sql_Scan\<close>: how ClickHouse reads literals and parentheses; closed fragments; the locale
    \<open>literal_quoting\<close>, the contract of a quoting function.

  \<^bold>\<open>Queries\<close> (\<open>domains/query\<close>, \<open>domains/grafana\<close>).
  \<^item> \<open>LogQL_Ast\<close>, \<open>LogQL_Lexer\<close>, \<open>LogQL_Parser\<close>, \<open>LogQL_Compiler\<close> translate \<open>ast.go\<close>, \<open>lexer.go\<close>,
    \<open>parser.go\<close> and \<open>compile.go\<close> function by function; a cursor past the tokens is \<open>Panic\<close>. The
    mutually recursive expression parser terminates on the number of tokens left.
  \<^item> \<open>LogQL_Grammar\<close> states the documented grammar as inductive relations; the parser returns
    exactly their trees. \<open>LogQL_Wellformed\<close> is the type invariant of parsed statements.
    \<open>LogQL_Isolation\<close> shows that compiled SQL is one guarded SELECT and that nothing panics.
  \<^item> \<open>Loki\<close>, \<open>Loki_Compile\<close>: \<open>loki.go\<close>; every character of an accepted selector is a parsed matcher
    or filler, and every accepted query compiles to exactly its matchers and window.
  \<^item> \<open>PromQL\<close>: \<open>promql.go\<close>, its regular expressions as scanners; tenant isolation for labels without
    a backslash, and the label that escapes it.
  \<^item> \<open>Live_Match\<close>: \<open>matcher.go\<close>; totality, consistency of the operators, agreement with the compiled
    severity order, and where filter and SQL differ.

  \<^bold>\<open>Alerting\<close> (\<open>domains/alerting\<close>, \<open>domains/anomaly\<close>, \<open>domains/topology\<close>, \<open>domains/webhook\<close>).
  \<^item> \<open>Alert_Rules\<close>: rules, their SQL, baselines, confidence, severity and calibration, with bounds.
  \<^item> \<open>Anomaly\<close>: the sweep; the iteration order of a Go map is an argument.
  \<^item> \<open>Topology\<close>: graph derivation, blast radius (equal to a transitive closure) and neighbours.
  \<^item> \<open>Webhook\<close>: endpoint selection, signing, bounded retries.
  \<^item> \<open>Alert_Engine\<close>: \<open>engine.go\<close>, \<open>incident.go\<close>, \<open>delivery.go\<close> over explicit tables; the record \<open>env\<close>
    holds what is outside the sources, and \<open>ev_db n\<close> makes the n-th Postgres statement fail.
  \<^item> \<open>Alert_Invariants\<close>: the locales \<open>incident_invariant\<close> and \<open>store_invariant\<close>, what each statement
    keeps of a predicate on the store; interpreted by one open incident per fingerprint, pages and
    paged rows, the page gate, and the frame of the state table.
  \<^item> \<open>Routing_Sim\<close>: \<open>domains/routingsim\<close> and its handler; which rules a synthetic event selects, the
    channels reported, and the OR clause that fires silently.

  \<^bold>\<open>Platform\<close> (\<open>domains/lifecycle\<close>, \<open>cmd/lifecycle\<close>, \<open>platform\<close>).
  \<^item> \<open>Lifecycle\<close>: the move planner (exact, convergent) and one cycle of the mover.
  \<^item> \<open>Access\<close>: the key table as a step relation (a revoked key stays dead), the key handlers, and the
    middleware for keys, bearer tokens and scopes.
  \<^item> \<open>Rate_Limit\<close>: the fixed-window limiter on Redis counters with expiry, exact per tenant and window.
  \<^item> \<open>Ai_Gateway\<close>: \<open>domains/aigateway\<close>; opt-in gate, masking, audit entry, conversation window.

  \<^bold>\<open>Bounds.\<close> No definition uses fuel. Loops recurse on their data or carry a measure; \<open>Run\<close> of the
  alerting engine and \<open>rl_run\<close> of the limiter take the finite sequence of ticks and requests seen so
  far. \<open>itoa\<close> keeps the twenty bytes of its buffer.

  \<^bold>\<open>Arguments of the model.\<close> ClickHouse and Postgres answers and failures, HTTP answers, hashes,
  random bytes, JOSE verification, the JSON, time and number decoders of Go's library in the live
  filter, and the clock. Text is ASCII or valid UTF-8 read by bytes; white space is the ASCII one.

  \<^bold>\<open>Not modelled.\<close> HTTP handlers that only move JSON between a request and one statement, the
  ChatOps, copilot and MCP front ends, forecasts, root-cause and deployment ranking, business
  context, postmortems and billing, process start-up, observability, and the documentation tool
  \<open>tools/openapi-split\<close>: the manifest lists each with its reason.
\<close>

section \<open>The admin surface\<close>

text \<open>The families of handlers over their own tables, and the requests of all of them in one sequence.\<close>

type_synonym settings_request = "billing_request + (ops_request + (copilot_request + change_request))"
type_synonym settings_store = "billing_store \<times> (ops_store \<times> (copilot_store \<times> change_row list))"
type_synonym settings_answer = "billing_answer + (ops_answer + (copilot_answer \<times> string list + change_answer))"

type_synonym surface_request = "(war_request + dlq_request) + (pm_request + (admin_request + settings_request))"
type_synonym surface_store = "(war_store \<times> dlq_store) \<times> (pm_store \<times> (admin_store \<times> settings_store))"
type_synonym surface_answer = "(war_answer + dlq_answer) + (pm_answer + (admin_answer + settings_answer))"

definition settings_step :: "settings_request \<Rightarrow> settings_store \<Rightarrow> settings_answer \<times> settings_store" where
  "settings_step = par_step billing_step (par_step ops_step (par_step copilot_step change_step))"

definition settings_caller :: "settings_request \<Rightarrow> string" where
  "settings_caller = case_sum billing_caller (case_sum ops_caller (case_sum copilot_caller change_caller))"

definition surface_step :: "(string \<Rightarrow> string) \<Rightarrow> surface_request \<Rightarrow> surface_store \<Rightarrow> surface_answer \<times> surface_store" where
  "surface_step dec = par_step (par_step war_step (dlq_step dec)) (par_step pm_step (par_step admin_step settings_step))"

definition surface_caller :: "surface_request \<Rightarrow> string" where
  "surface_caller = case_sum (case_sum war_caller dlq_caller) (case_sum pm_caller (case_sum admin_caller settings_caller))"

definition surface_inv :: "surface_store \<Rightarrow> bool" where
  "surface_inv s \<longleftrightarrow> war_inv (fst (fst s)) \<and> dlq_inv (snd (fst s))"

interpretation incidents_queue: two_services war_step war_caller war_view war_inv "dlq_step dec" dlq_caller dlq_view dlq_inv
  by unfold_locales

interpretation assistants: two_services copilot_step copilot_caller copilot_view "\<lambda>_. True" change_step change_caller "owned cw_TenantID" "\<lambda>_. True"
  by unfold_locales

interpretation operators: two_services ops_step ops_caller ops_view "\<lambda>_. True"
  "par_step copilot_step change_step" "case_sum copilot_caller change_caller" "par_view copilot_view (owned cw_TenantID)" "par_inv (\<lambda>_. True) (\<lambda>_. True)"
  by unfold_locales

interpretation settings: two_services billing_step billing_caller billing_view "\<lambda>_. True"
  "par_step ops_step (par_step copilot_step change_step)" "case_sum ops_caller (case_sum copilot_caller change_caller)"
  "par_view ops_view (par_view copilot_view (owned cw_TenantID))" "par_inv (\<lambda>_. True) (par_inv (\<lambda>_. True) (\<lambda>_. True))"
  by unfold_locales

definition settings_view :: "string \<Rightarrow> settings_store \<Rightarrow> _" where
  "settings_view = par_view billing_view (par_view ops_view (par_view copilot_view (owned cw_TenantID)))"

definition settings_inv :: "settings_store \<Rightarrow> bool" where
  "settings_inv = par_inv (\<lambda>_. True) (par_inv (\<lambda>_. True) (par_inv (\<lambda>_. True) (\<lambda>_. True)))"

lemma settings_inv_True: "settings_inv s"
  by (simp add: settings_inv_def par_inv_def)

interpretation setting: tenant_service settings_step settings_caller settings_view settings_inv
  unfolding settings_step_def settings_caller_def settings_view_def settings_inv_def by unfold_locales

interpretation tables: two_services admin_step admin_caller admin_view "\<lambda>_. True" settings_step settings_caller settings_view settings_inv
  by unfold_locales

interpretation records: two_services pm_step pm_caller pm_view "\<lambda>_. True"
  "par_step admin_step settings_step" "case_sum admin_caller settings_caller" "par_view admin_view settings_view" "par_inv (\<lambda>_. True) settings_inv"
  by unfold_locales

interpretation surface: two_services
  "par_step war_step (dlq_step dec)" "case_sum war_caller dlq_caller" "par_view war_view dlq_view" "par_inv war_inv dlq_inv"
  "par_step pm_step (par_step admin_step settings_step)" "case_sum pm_caller (case_sum admin_caller settings_caller)"
  "par_view pm_view (par_view admin_view settings_view)" "par_inv (\<lambda>_. True) (par_inv (\<lambda>_. True) settings_inv)"
  by unfold_locales

definition demo_settings :: settings_store where
  "demo_settings = (demo_billing, (ops_demo, (copilot_demo, [])))"

definition demo_surface :: surface_store where
  "demo_surface = ((War_Room.demo_store, demo_dlq), (Postmortem.demo_store, (Admin_Tables.demo_store, demo_settings)))"

definition demo_settings_run :: "settings_request list" where
  "demo_settings_run =
     [Inl (Billing_Laws.demo_env, GetPlanR), Inl (Billing_Laws.demo_env\<lparr>be_tenant := ''beta''\<rparr>, SetPlanR (Some demo_plan)),
      Inr (Inl (ops_demo_env ''acme'', OpPutLocale (Some ''hi''))), Inr (Inl (ops_demo_env ''beta'', OpGetLocale)),
      Inr (Inr (Inl (copilot_demo_env, StartChat ''errors''))), Inr (Inr (Inr (change_demo_env, Posted None)))]"

definition demo_surface_run :: "surface_request list" where
  "demo_surface_run = map (\<lambda>r. Inl (Inl r)) demo_run @ map (\<lambda>r. Inl (Inr r)) Dlq.demo_requests @
     map (\<lambda>r. Inr (Inl r)) Postmortem.demo_requests @ map (\<lambda>r. Inr (Inr (Inl r))) Admin_Tables.demo_requests @
     map (\<lambda>r. Inr (Inr (Inr r))) demo_settings_run"

text \<open>
  C5. On the war rooms, the dead-letter queue, the postmortems, the admin tables, the plans and retention settings, the
  operator tables, the copilot and the change events together, what a tenant sees of any interleaving of requests, with whatever failing statements, is what it would see
  had the other tenants sent nothing.
\<close>

theorem admin_surface_isolated:
  assumes "surface_inv st"
  shows "seen surface_caller t (fst (serve (surface_step dec) rs st)) =
    fst (serve (surface_step dec) (filter (\<lambda>r. surface_caller r = t) rs) st)"
proof -
  have "par_inv (par_inv war_inv dlq_inv) (par_inv (\<lambda>_. True) (par_inv (\<lambda>_. True) settings_inv)) st"
    using assms settings_inv_True by (simp add: par_inv_def surface_inv_def)
  from surface.both.noninterference[OF this] show ?thesis by (simp add: surface_step_def surface_caller_def)
qed

theorem admin_surface_isolated_witness:
  "seen surface_caller ''acme'' (fst (serve (surface_step id) demo_surface_run demo_surface)) =
     fst (serve (surface_step id) (filter (\<lambda>r. surface_caller r = ''acme'') demo_surface_run) demo_surface) \<and>
   0 < length (filter (\<lambda>r. surface_caller r = ''beta'') demo_surface_run)"
proof
  have "surface_inv demo_surface" by code_simp
  then show "seen surface_caller ''acme'' (fst (serve (surface_step id) demo_surface_run demo_surface)) =
      fst (serve (surface_step id) (filter (\<lambda>r. surface_caller r = ''acme'') demo_surface_run) demo_surface)"
    by (rule admin_surface_isolated)
qed code_simp

section \<open>The query surface\<close>

text \<open>A call of one of the endpoints that read the log store, with its surroundings.\<close>

datatype query_call =
    CallQuery api_env
  | CallAuthEvents api_env
  | CallExport string api_env
  | CallChanges api_env
  | CallPromInstant prom_env
  | CallPromRange prom_env
  | CallLokiRange api_env
  | CallLokiLabels api_env
  | CallLokiValues api_env string
  | CallLokiSeries loki_env

fun call_effects :: "query_call \<Rightarrow> string list \<times> audit_row list" where
  "call_effects (CallQuery env) = snd (Query env)"
| "call_effects (CallAuthEvents env) = snd (AuthEvents env)"
| "call_effects (CallExport stamp env) = snd (Export stamp env)"
| "call_effects (CallChanges env) = snd (ListChanges env)"
| "call_effects (CallPromInstant env) = snd (PromInstantQuery env)"
| "call_effects (CallPromRange env) = snd (PromRangeQuery env)"
| "call_effects (CallLokiRange env) = snd (GrafanaLokiQueryRange env)"
| "call_effects (CallLokiLabels env) = snd (GrafanaLokiLabels env)"
| "call_effects (CallLokiValues env name) = snd (GrafanaLokiLabelValues env name)"
| "call_effects (CallLokiSeries env) = snd (GrafanaLokiSeries env)"

fun call_id :: "query_call \<Rightarrow> identity" where
  "call_id (CallQuery env) = qe_id env"
| "call_id (CallAuthEvents env) = qe_id env"
| "call_id (CallExport stamp env) = qe_id env"
| "call_id (CallChanges env) = qe_id env"
| "call_id (CallPromInstant env) = qe_id env"
| "call_id (CallPromRange env) = qe_id env"
| "call_id (CallLokiRange env) = qe_id env"
| "call_id (CallLokiLabels env) = qe_id env"
| "call_id (CallLokiValues env name) = qe_id env"
| "call_id (CallLokiSeries env) = qe_id env"

fun call_scopes :: "query_call \<Rightarrow> string list" where
  "call_scopes (CallExport stamp env) = [''logs:export'', ''logs:read'']"
| "call_scopes _ = [''logs:read'', ''logs:query'']"

text \<open>PromQL grouping labels with a backslash are left out.\<close>

fun call_plain :: "query_call \<Rightarrow> bool" where
  "call_plain (CallPromInstant env) = plain_labels (ctxTenant (qe_id env)) (qe_form env ''query'')"
| "call_plain (CallPromRange env) = plain_labels (ctxTenant (qe_id env)) (qe_form env ''query'')"
| "call_plain _ = True"

lemma call_keeps: "call_plain c \<Longrightarrow> keeps_tenant (call_scopes c) (call_id c) (call_effects c)"
  by (cases c) (simp_all add: Query_keeps AuthEvents_keeps Export_keeps ListChanges_keeps Prom_keeps QueryRange_keeps LabelValues_keeps Series_keeps GrafanaLokiLabels_def del: HasScope.simps)


definition demo_call :: query_call where
  "demo_call = CallExport [] (demo_loki_env\<lparr>qe_form := (\<lambda>_. ''SELECT * FROM logs'')\<rparr>)"


section \<open>The API process\<close>

text \<open>
  The read handlers of the route table, on the surroundings of a call: the identity is the one the gate resolved, the
  rest comes from the request and the store.
\<close>

definition read_calls :: "identity \<Rightarrow> api_env \<Rightarrow> prom_env \<Rightarrow> loki_env \<Rightarrow> string \<Rightarrow> string \<Rightarrow> (string \<times> query_call) list" where
  "read_calls i e pe le stamp name =
     [(''Query'', CallQuery (e\<lparr>qe_id := i\<rparr>)), (''AuthEvents'', CallAuthEvents (e\<lparr>qe_id := i\<rparr>)), (''Export'', CallExport stamp (e\<lparr>qe_id := i\<rparr>)),
      (''ListChanges'', CallChanges (e\<lparr>qe_id := i\<rparr>)), (''PromInstantQuery'', CallPromInstant (pe\<lparr>qe_id := i\<rparr>)),
      (''PromRangeQuery'', CallPromRange (pe\<lparr>qe_id := i\<rparr>)), (''GrafanaLokiQueryRange'', CallLokiRange (e\<lparr>qe_id := i\<rparr>)),
      (''GrafanaLokiLabels'', CallLokiLabels (e\<lparr>qe_id := i\<rparr>)), (''GrafanaLokiLabelValues'', CallLokiValues (e\<lparr>qe_id := i\<rparr>) name),
      (''GrafanaLokiSeries'', CallLokiSeries (le\<lparr>qe_id := i\<rparr>))]"

definition read_names :: "string list" where
  "read_names = [''Query'', ''AuthEvents'', ''Export'', ''ListChanges'', ''PromInstantQuery'', ''PromRangeQuery'', ''GrafanaLokiQueryRange'',
     ''GrafanaLokiLabels'', ''GrafanaLokiLabelValues'', ''GrafanaLokiSeries'']"

lemma read_call_id:
  assumes "map_of (read_calls i e pe le stamp name) f = Some c" shows "list_ex ((=) f) read_names" "call_id c = i"
  using assms by (auto simp: read_calls_def read_names_def split: if_splits)

lemma read_keyed: "list_all (\<lambda>g. mn_Gate g = KeyGate \<or> list_all (\<lambda>f. \<not> list_ex ((=) f) read_names) (names (mn_Routes g))) mounts"
  by code_simp


definition demo_read_key :: api_key where
  "demo_read_key = Access.demo_row\<lparr>k_Scopes := [''logs:read'']\<rparr>"


end
